(* ===== verification/Prelude.thy ===== *)
theory Prelude
  imports Complex_Main "HOL-Library.Word"
begin

text \<open>
  Shared ground of the development: the machine-integer names, the string operations of
  Rust's standard library that the router uses, saturating arithmetic and the collections
  of facts the component theories draw on.

  A Rust \<open>String\<close> is a sequence of UTF-8 bytes; here it is a \<open>string\<close>, one \<open>char\<close> per
  byte, so \<open>len()\<close> is \<open>length\<close> and slicing at a byte found by a search is list surgery.
  \<open>chars().count()\<close> counts the bytes that are not UTF-8 continuation bytes.
  \<open>to_lowercase\<close> and \<open>trim\<close> are modelled on the ASCII range (bytes outside it are left
  alone), which covers the model names, headers and keywords they are applied to.

  An \<open>f64\<close> that carries money, a temperature or a rate is a \<open>rat\<close>: the arithmetic and the
  comparisons of the code are kept, floating-point rounding is not modelled.
\<close>

type_synonym u8 = "8 word"
type_synonym u16 = "16 word"
type_synonym u32 = "32 word"
type_synonym u64 = "64 word"

named_theorems str_simps \<open>equations and characterisations of the string operations\<close>
named_theorems step_defs \<open>definitions of the state-changing operations of the components\<close>

section \<open>Strings\<close>

fun strip_prefix :: "string \<Rightarrow> string \<Rightarrow> string option" where
  "strip_prefix [] s = Some s"
| "strip_prefix (c # p) [] = None"
| "strip_prefix (c # p) (d # s) = (if c = d then strip_prefix p s else None)"

lemma strip_prefix_Some [str_simps]: "strip_prefix p s = Some r \<longleftrightarrow> s = p @ r"
  by (induction p s rule: strip_prefix.induct) auto

lemma strip_prefix_append [simp]: "strip_prefix p (p @ r) = Some r"
  by (simp add: strip_prefix_Some)

definition strip_suffix :: "string \<Rightarrow> string \<Rightarrow> string option" where
  "strip_suffix p s = map_option rev (strip_prefix (rev p) (rev s))"

lemma strip_suffix_Some [str_simps]: "strip_suffix p s = Some r \<longleftrightarrow> s = r @ p"
proof -
  have "strip_suffix p s = Some r \<longleftrightarrow> rev s = rev p @ rev r"
    by (auto simp: strip_suffix_def strip_prefix_Some)
  then show ?thesis by (metis rev_append rev_rev_ident)
qed

text \<open>\<open>parts.join("\n")\<close>.\<close>

definition join_lines :: "string list \<Rightarrow> string" where
  "join_lines ls = (case ls of [] \<Rightarrow> [] | l # rest \<Rightarrow> l @ concat (map (\<lambda>x. CHR 0x0A # x) rest))"

definition starts_with :: "string \<Rightarrow> string \<Rightarrow> bool" where
  "starts_with p s \<longleftrightarrow> strip_prefix p s \<noteq> None"

lemma starts_with_iff [str_simps]: "starts_with p s \<longleftrightarrow> (\<exists>r. s = p @ r)"
  by (auto simp: starts_with_def strip_prefix_Some)

text \<open>\<open>s.find(p)\<close> followed by slicing after the match: the rest behind the first
  occurrence of \<open>p\<close>.\<close>

fun after_sub :: "string \<Rightarrow> string \<Rightarrow> string option" where
  "after_sub p s =
     (case strip_prefix p s of
        Some r \<Rightarrow> Some r
      | None \<Rightarrow> (case s of [] \<Rightarrow> None | _ # t \<Rightarrow> after_sub p t))"

declare after_sub.simps [simp del]

definition contains_sub :: "string \<Rightarrow> string \<Rightarrow> bool" where
  "contains_sub p s \<longleftrightarrow> after_sub p s \<noteq> None"

lemma after_sub_Some: "after_sub p s = Some r \<Longrightarrow> \<exists>a. s = a @ p @ r"
proof (induction p s rule: after_sub.induct)
  case (1 p s)
  show ?case
  proof (cases "strip_prefix p s")
    case (Some q)
    with "1.prems" show ?thesis
      by (auto simp: after_sub.simps [of p s] strip_prefix_Some intro: exI [of _ "[]"])
  next
    case None
    with "1.prems" obtain c t where s: "s = c # t" and t: "after_sub p t = Some r"
      by (auto simp: after_sub.simps [of p s] split: list.splits)
    from "1.IH" [OF None s t] obtain a where "t = a @ p @ r" by blast
    with s show ?thesis by (auto intro: exI [of _ "c # a"])
  qed
qed

lemma after_sub_length: "after_sub p s = Some r \<Longrightarrow> length r + length p \<le> length s"
  by (auto dest: after_sub_Some)

lemma after_sub_complete: "after_sub p (a @ p @ r) \<noteq> None"
proof (induction a)
  case Nil
  show ?case by (simp add: after_sub.simps [of p "p @ r"])
next
  case (Cons c a)
  then show ?case by (subst after_sub.simps) (auto split: option.splits)
qed

lemma contains_sub_iff [str_simps]: "contains_sub p s \<longleftrightarrow> (\<exists>a r. s = a @ p @ r)"
  unfolding contains_sub_def using after_sub_Some after_sub_complete by blast

text \<open>\<open>s.find(c)\<close> / \<open>split_once(c)\<close> at the first \<open>c\<close>.\<close>

fun split_once :: "char \<Rightarrow> string \<Rightarrow> (string \<times> string) option" where
  "split_once c [] = None"
| "split_once c (x # xs) =
     (if x = c then Some ([], xs) else map_option (\<lambda>(a, b). (x # a, b)) (split_once c xs))"

lemma split_once_Some [str_simps]:
  "split_once c s = Some (a, b) \<longleftrightarrow> s = a @ c # b \<and> c \<notin> set a"
proof (induction s arbitrary: a)
  case Nil
  then show ?case by simp
next
  case (Cons x xs)
  then show ?case by (cases a) auto
qed

lemma split_once_None [str_simps]: "split_once c s = None \<longleftrightarrow> c \<notin> set s"
  by (induction s) auto

text \<open>\<open>match s.rfind(c) { Some(p) => &s[p + 1..], None => s }\<close>.\<close>

definition after_last :: "char \<Rightarrow> string \<Rightarrow> string" where
  "after_last c s = rev (takeWhile (\<lambda>x. x \<noteq> c) (rev s))"

lemma after_last_notin [simp]: "c \<notin> set (after_last c s)"
  by (auto simp: after_last_def dest: set_takeWhileD)

lemma after_last_id: "c \<notin> set s \<Longrightarrow> after_last c s = s"
proof -
  assume "c \<notin> set s"
  then have t: "takeWhile (\<lambda>x. x \<noteq> c) (rev s) = rev s"
    by (auto simp: takeWhile_eq_all_conv)
  show ?thesis unfolding after_last_def t by simp
qed

lemma after_last_append: "c \<notin> set b \<Longrightarrow> after_last c (a @ c # b) = b"
proof -
  assume b: "c \<notin> set b"
  then have "takeWhile (\<lambda>x. x \<noteq> c) (rev b @ c # rev a) = rev b"
    by (subst takeWhile_append2) auto
  then show ?thesis by (simp add: after_last_def)
qed

lemma after_last_idem [simp]: "after_last c (after_last c s) = after_last c s"
  by (simp add: after_last_id)

text \<open>ASCII classes and case.\<close>

definition is_ws :: "char \<Rightarrow> bool" where
  "is_ws c \<longleftrightarrow> c = CHR '' '' \<or> (let n = (of_char c :: nat) in 9 \<le> n \<and> n \<le> 13)"

definition trim :: "string \<Rightarrow> string" where
  "trim s = rev (dropWhile is_ws (rev (dropWhile is_ws s)))"

lemma dropWhile_idem_rev:
  "dropWhile P (rev (dropWhile P (rev (dropWhile P s)))) = rev (dropWhile P (rev (dropWhile P s)))"
proof (cases "dropWhile P s")
  case Nil
  show ?thesis unfolding Nil by simp
next
  case (Cons x xs)
  then have nx: "\<not> P x" by (simp add: dropWhile_eq_Cons_conv)
  have "dropWhile P (rev (x # xs)) = dropWhile P (rev xs) @ [x]"
    using nx by (simp add: dropWhile_append3)
  with Cons nx show ?thesis by simp
qed

lemma trim_idem [simp]: "trim (trim s) = trim s"
  unfolding trim_def dropWhile_idem_rev by simp

lemma set_trim: "set (trim s) \<subseteq> set s"
  unfolding trim_def by (auto dest!: set_dropWhileD)

lemma length_trim: "length (trim s) \<le> length s"
  unfolding trim_def by (metis length_dropWhile_le length_rev le_trans)

definition is_digit :: "char \<Rightarrow> bool" where
  "is_digit c \<longleftrightarrow> (let n = (of_char c :: nat) in 48 \<le> n \<and> n \<le> 57)"

definition is_upper :: "char \<Rightarrow> bool" where
  "is_upper c \<longleftrightarrow> (let n = (of_char c :: nat) in 65 \<le> n \<and> n \<le> 90)"

definition is_lower :: "char \<Rightarrow> bool" where
  "is_lower c \<longleftrightarrow> (let n = (of_char c :: nat) in 97 \<le> n \<and> n \<le> 122)"

definition is_alnum :: "char \<Rightarrow> bool" where
  "is_alnum c \<longleftrightarrow> is_digit c \<or> is_upper c \<or> is_lower c"

text \<open>\<open>is_ascii_graphic\<close>: \<open>'!'..='~'\<close>.\<close>

definition is_graphic :: "char \<Rightarrow> bool" where
  "is_graphic c \<longleftrightarrow> (let n = (of_char c :: nat) in 33 \<le> n \<and> n \<le> 126)"

definition to_lower_char :: "char \<Rightarrow> char" where
  "to_lower_char c = (if is_upper c then char_of ((of_char c :: nat) + 32) else c)"

definition to_lower :: "string \<Rightarrow> string" where
  "to_lower s = map to_lower_char s"

definition eq_ignore_case :: "string \<Rightarrow> string \<Rightarrow> bool" where
  "eq_ignore_case a b \<longleftrightarrow> to_lower a = to_lower b"

lemma of_char_to_lower_char:
  "(of_char (to_lower_char c) :: nat) = (if is_upper c then of_char c + 32 else of_char c)"
  by (auto simp: to_lower_char_def is_upper_def Let_def)

lemma to_lower_char_idem [simp]: "to_lower_char (to_lower_char c) = to_lower_char c"
proof -
  have "\<not> is_upper (to_lower_char c)"
    by (auto simp: is_upper_def [of "to_lower_char c"] of_char_to_lower_char Let_def is_upper_def)
  then show ?thesis by (simp add: to_lower_char_def [of "to_lower_char c"])
qed

lemma to_lower_idem [simp]: "to_lower (to_lower s) = to_lower s"
  by (simp add: to_lower_def)

lemma length_to_lower [simp]: "length (to_lower s) = length s"
  by (simp add: to_lower_def)

lemma to_lower_append: "to_lower (a @ b) = to_lower a @ to_lower b"
  by (simp add: to_lower_def)

lemma to_lower_char_eq_slash [simp]: "to_lower_char c = CHR ''/'' \<longleftrightarrow> c = CHR ''/''"
proof
  assume eq: "to_lower_char c = CHR ''/''"
  show "c = CHR ''/''"
  proof (cases "is_upper c")
    case True
    then have "(of_char (to_lower_char c) :: nat) = of_char c + 32" and "65 \<le> (of_char c :: nat)"
      by (simp_all add: of_char_to_lower_char is_upper_def Let_def)
    with eq show ?thesis by simp
  next
    case False
    with eq show ?thesis by (simp add: to_lower_char_def)
  qed
next
  assume "c = CHR ''/''"
  then show "to_lower_char c = CHR ''/''" by (simp add: to_lower_char_def is_upper_def)
qed

lemma slash_in_to_lower [simp]: "CHR ''/'' \<in> set (to_lower s) \<longleftrightarrow> CHR ''/'' \<in> set s"
proof -
  have "CHR ''/'' \<in> to_lower_char ` set s \<longleftrightarrow> (\<exists>x \<in> set s. to_lower_char x = CHR ''/'')"
    by (metis (no_types, lifting) imageE imageI)
  also have "\<dots> \<longleftrightarrow> CHR ''/'' \<in> set s" by simp
  finally show ?thesis by (simp add: to_lower_def)
qed

text \<open>\<open>chars().count()\<close>: the code points of a UTF-8 byte sequence.\<close>

definition is_cont_byte :: "char \<Rightarrow> bool" where
  "is_cont_byte c \<longleftrightarrow> (let n = (of_char c :: nat) in 128 \<le> n \<and> n < 192)"

definition char_count :: "string \<Rightarrow> nat" where
  "char_count s = length (filter (\<lambda>c. \<not> is_cont_byte c) s)"

lemma char_count_le: "char_count s \<le> length s"
  by (simp add: char_count_def)

text \<open>\<open>s.chars().take(n).collect()\<close>.\<close>

fun take_chars :: "nat \<Rightarrow> string \<Rightarrow> string" where
  "take_chars n [] = []"
| "take_chars n (c # cs) =
     (if is_cont_byte c then c # take_chars n cs
      else case n of 0 \<Rightarrow> [] | Suc k \<Rightarrow> c # take_chars k cs)"

lemma char_count_take_chars: "char_count (take_chars n s) \<le> n"
proof (induction n s rule: take_chars.induct)
  case (2 n c cs)
  then show ?case by (cases n) (auto simp: char_count_def)
qed (simp add: char_count_def)

text \<open>\<open>'{s}'\<close> in a format string.\<close>

definition quoted :: "string \<Rightarrow> string" where
  "quoted s = CHR 0x27 # s @ [CHR 0x27]"

section \<open>Numbers in strings\<close>

definition digit_val :: "char \<Rightarrow> nat" where
  "digit_val c = of_char c - 48"

definition digits_val :: "string \<Rightarrow> nat" where
  "digits_val s = foldl (\<lambda>n c. 10 * n + digit_val c) 0 s"

text \<open>\<open>parse::<uN>()\<close>: an optional \<open>+\<close>, at least one digit, and no value above \<open>mx\<close>.\<close>

definition parse_unsigned :: "nat \<Rightarrow> string \<Rightarrow> nat option" where
  "parse_unsigned mx s =
     (let ds = (case s of c # cs \<Rightarrow> if c = CHR ''+'' then cs else s | [] \<Rightarrow> [])
      in if ds = [] \<or> \<not> list_all is_digit ds then None
         else if digits_val ds \<le> mx then Some (digits_val ds) else None)"

lemma parse_unsigned_le: "parse_unsigned mx s = Some n \<Longrightarrow> n \<le> mx"
  by (auto simp: parse_unsigned_def Let_def split: if_splits)

definition parse_i64 :: "string \<Rightarrow> int option" where
  "parse_i64 s =
     (case s of
        c # cs \<Rightarrow>
          if c = CHR ''-''
          then (if cs = [] \<or> \<not> list_all is_digit cs then None
                else if digits_val cs \<le> 2 ^ 63 then Some (- int (digits_val cs)) else None)
          else map_option int (parse_unsigned (2 ^ 63 - 1) s)
      | [] \<Rightarrow> None)"

text \<open>\<open>to_string\<close> / \<open>format!\<close> of an integer.\<close>

fun show_nat :: "nat \<Rightarrow> string" where
  "show_nat n =
     (if n < 10 then [char_of (48 + n)]
      else show_nat (n div 10) @ [char_of (48 + n mod 10)])"

declare show_nat.simps [simp del]

definition show_int :: "int \<Rightarrow> string" where
  "show_int i = (if i < 0 then CHR ''-'' # show_nat (nat (- i)) else show_nat (nat i))"

lemma show_nat_nonempty [simp]: "show_nat n \<noteq> []"
  by (subst show_nat.simps) simp

lemma digits_val_snoc: "digits_val (s @ [c]) = 10 * digits_val s + digit_val c"
  by (simp add: digits_val_def)

lemma show_nat_digits: "list_all is_digit (show_nat n)"
proof (induction n rule: show_nat.induct)
  case (1 n)
  then show ?case by (subst show_nat.simps) (auto simp: list_all_iff is_digit_def Let_def)
qed

lemma digits_val_show_nat [simp]: "digits_val (show_nat n) = n"
proof (induction n rule: show_nat.induct)
  case (1 n)
  show ?case
  proof (cases "n < 10")
    case True
    then show ?thesis by (subst show_nat.simps) (simp add: digits_val_def digit_val_def)
  next
    case False
    then have "digits_val (show_nat n) = 10 * (n div 10) + n mod 10"
      using "1.IH" by (subst show_nat.simps) (simp add: digits_val_snoc digit_val_def)
    then show ?thesis by simp
  qed
qed

lemma show_nat_inject [simp]: "show_nat a = show_nat b \<longleftrightarrow> a = b"
  by (metis digits_val_show_nat)

lemma colon_notin_show_nat [simp]: "CHR '':'' \<notin> set (show_nat n)"
  using show_nat_digits [of n] by (auto simp: list_all_iff is_digit_def Let_def)

lemma colon_notin_show_int [simp]: "CHR '':'' \<notin> set (show_int i)"
  by (simp add: show_int_def)

section \<open>Saturating machine arithmetic\<close>

text \<open>\<open>u64::saturating_mul\<close>, \<open>saturating_add\<close>, \<open>saturating_pow\<close>: clamped at \<open>u64::MAX\<close>.\<close>

definition u64_max :: nat where
  "u64_max = 2 ^ 64 - 1"

definition u32_max :: nat where
  "u32_max = 2 ^ 32 - 1"

definition sat_mul :: "nat \<Rightarrow> nat \<Rightarrow> nat" where
  "sat_mul a b = min u64_max (a * b)"

definition sat_add :: "nat \<Rightarrow> nat \<Rightarrow> nat" where
  "sat_add a b = min u64_max (a + b)"

definition sat_pow :: "nat \<Rightarrow> nat \<Rightarrow> nat" where
  "sat_pow a k = min u64_max (a ^ k)"

section \<open>Options, results, maps\<close>

text \<open>The \<open>?\<close> operator on a \<open>Result\<close> whose error type is \<open>'e\<close>.\<close>

definition bind_sum :: "'e + 'a \<Rightarrow> ('a \<Rightarrow> 'e + 'b) \<Rightarrow> 'e + 'b" where
  "bind_sum r f = (case r of Inl e \<Rightarrow> Inl e | Inr x \<Rightarrow> f x)"

lemma bind_sum_simps [simp]: "bind_sum (Inl e) f = Inl e" "bind_sum (Inr x) f = f x"
  by (simp_all add: bind_sum_def)

lemma bind_sum_Inr_iff: "bind_sum r f = Inr y \<longleftrightarrow> (\<exists>x. r = Inr x \<and> f x = Inr y)"
  by (cases r) auto

lemma bind_sum_Inl_iff: "bind_sum r f = Inl e \<longleftrightarrow> r = Inl e \<or> (\<exists>x. r = Inr x \<and> f x = Inl e)"
  by (cases r) auto

lemma card_dom_upd: "finite (dom m) \<Longrightarrow>
    card (dom (m(k \<mapsto> v))) = (if m k = None then Suc (card (dom m)) else card (dom m))"
  by (auto simp: domIff insert_absorb)

lemma card_dom_remove: "finite (dom m) \<Longrightarrow> m k \<noteq> None \<Longrightarrow>
    Suc (card (dom (m(k := None)))) = card (dom m)"
  by (metis card.remove domIff dom_fun_upd option.simps(3) card_Suc_Diff1)

end
