(* ===== verification/Retry.thy ===== *)
theory Retry
  imports Prelude
begin

text \<open>
  Classification of provider errors and the backoff policy
  (\<open>src/src/router/retry.rs\<close>, \<open>src/src/providers/credential_error.rs\<close>).

  An \<open>anyhow::Error\<close> is its chain of causes, outermost first; only the outermost one is
  displayed. A link is either the typed \<open>CredentialExpired\<close> or any other error, of which
  nothing but its display text is observed.
\<close>

record credential_expired =
  ce_provider :: string
  ce_credential_kind :: string
  ce_reason :: string
  ce_remediation :: string
  ce_detail :: string

datatype err_link = Expired credential_expired | Message string

record anyhow =
  err_top :: err_link
  err_causes :: "err_link list"

definition credential_expired_code :: string where
  "credential_expired_code = ''credential_expired''"

definition show_expired :: "credential_expired \<Rightarrow> string" where
  "show_expired c =
     credential_expired_code @ '': the '' @ ce_provider c @ '' credential ('' @ ce_credential_kind c @
     '') can no longer be refreshed and needs human action: '' @ ce_reason c @ ''. '' @
     ce_remediation c @ '' Upstream said: '' @ ce_detail c"

definition show_error :: "anyhow \<Rightarrow> string" where
  "show_error e = (case err_top e of Expired c \<Rightarrow> show_expired c | Message m \<Rightarrow> m)"

definition error_msg :: "string \<Rightarrow> anyhow" where
  "error_msg m = \<lparr>err_top = Message m, err_causes = []\<rparr>"

text \<open>\<open>err.context(m)\<close>.\<close>

definition with_context :: "string \<Rightarrow> anyhow \<Rightarrow> anyhow" where
  "with_context m e = \<lparr>err_top = Message m, err_causes = err_top e # err_causes e\<rparr>"

definition as_expired :: "err_link \<Rightarrow> credential_expired option" where
  "as_expired l = (case l of Expired c \<Rightarrow> Some c | Message _ \<Rightarrow> None)"

fun find_map :: "('a \<Rightarrow> 'b option) \<Rightarrow> 'a list \<Rightarrow> 'b option" where
  "find_map f [] = None"
| "find_map f (x # xs) = (case f x of Some y \<Rightarrow> Some y | None \<Rightarrow> find_map f xs)"

lemma find_map_None: "find_map f xs = None \<longleftrightarrow> (\<forall>x \<in> set xs. f x = None)"
  by (induction xs) (auto split: option.splits)

lemma find_map_cong [fundef_cong]:
  "xs = ys \<Longrightarrow> (\<And>x. x \<in> set ys \<Longrightarrow> f x = g x) \<Longrightarrow> find_map f xs = find_map g ys"
  by (induction ys arbitrary: xs) (auto split: option.split)

definition find_credential_expired :: "anyhow \<Rightarrow> credential_expired option" where
  "find_credential_expired e =
     (case as_expired (err_top e) of
        Some c \<Rightarrow> Some c
      | None \<Rightarrow> find_map as_expired (err_top e # err_causes e))"

section \<open>Classification\<close>

datatype retryable_error =
    RateLimit
  | ServerError nat
  | AuthError
  | ClientError nat
  | CredentialExpired
  | NotRetryable

text \<open>
  The status anchored on \<open>returned \<close>: each occurrence in turn, the leading digits behind
  it parsed as \<open>u16\<close>.
\<close>

function client_error_status :: "string \<Rightarrow> nat option" where
  "client_error_status s =
     (case after_sub ''returned '' s of
        None \<Rightarrow> None
      | Some rest \<Rightarrow>
          (case parse_unsigned 65535 (takeWhile is_digit rest) of
             Some st \<Rightarrow> if 400 \<le> st \<and> st < 500 \<and> st \<noteq> 429 then Some st else client_error_status rest
           | None \<Rightarrow> client_error_status rest))"
  by pat_completeness auto
termination
  by (relation "measure length") (auto dest: after_sub_length)

declare client_error_status.simps [simp del]

definition classify :: "string \<Rightarrow> retryable_error" where
  "classify s =
     (if contains_sub ''429'' s \<or> contains_sub ''rate limit'' (to_lower s) then RateLimit
      else if contains_sub ''500'' s \<or> contains_sub ''502'' s \<or> contains_sub ''503'' s
      then ServerError 500
      else if contains_sub ''401'' s \<or> contains_sub ''403'' s then AuthError
      else case client_error_status s of Some st \<Rightarrow> ClientError st | None \<Rightarrow> NotRetryable)"

definition classify_error :: "anyhow \<Rightarrow> retryable_error" where
  "classify_error e =
     (if find_credential_expired e \<noteq> None then CredentialExpired else classify (show_error e))"

definition counts_toward_circuit_breaker :: "retryable_error \<Rightarrow> bool" where
  "counts_toward_circuit_breaker r =
     (case r of ClientError _ \<Rightarrow> False | CredentialExpired \<Rightarrow> False | _ \<Rightarrow> True)"

section \<open>Backoff\<close>

record retry_policy =
  max_retries :: nat
  base_delay_ms :: nat
  max_delay_ms :: nat

definition should_retry :: "retry_policy \<Rightarrow> nat \<Rightarrow> retryable_error \<Rightarrow> bool" where
  "should_retry p attempt e =
     (if max_retries p \<le> attempt then False
      else case e of RateLimit \<Rightarrow> True | ServerError _ \<Rightarrow> True | _ \<Rightarrow> False)"

text \<open>\<open>rnd\<close> is the value \<open>rand::random::<u64>()\<close> returned.\<close>

definition delay_ms :: "retry_policy \<Rightarrow> nat \<Rightarrow> nat \<Rightarrow> nat" where
  "delay_ms p attempt rnd =
     (let base = sat_mul (base_delay_ms p) (sat_pow 2 attempt);
          capped = min base (max_delay_ms p);
          jitter_range = max (capped div 10) 1;
          jitter = rnd mod (jitter_range * 2)
      in sat_add (capped - jitter_range) jitter)"

section \<open>Facts\<close>

lemma client_error_status_range:
  "client_error_status s = Some st \<Longrightarrow> 400 \<le> st \<and> st < 500 \<and> st \<noteq> 429"
proof (induction s rule: client_error_status.induct)
  case (1 s)
  from "1.prems" show ?case
    by (subst (asm) client_error_status.simps)
      (auto split: option.splits if_splits dest: "1.IH")
qed

lemma classify_ClientError:
  "classify s = ClientError st \<Longrightarrow> 400 \<le> st \<and> st < 500 \<and> st \<noteq> 429"
  by (auto simp: classify_def split: if_splits option.splits dest: client_error_status_range)

lemma classify_not_expired [simp]: "classify s \<noteq> CredentialExpired"
  by (auto simp: classify_def split: option.splits)

lemma classify_error_expired:
  "classify_error e = CredentialExpired \<longleftrightarrow> find_credential_expired e \<noteq> None"
  by (simp add: classify_error_def)

lemma find_credential_expired_iff:
  "find_credential_expired e \<noteq> None \<longleftrightarrow>
     (\<exists>c. Expired c \<in> set (err_top e # err_causes e))"
proof -
  have "as_expired l \<noteq> None \<longleftrightarrow> (\<exists>c. l = Expired c)" for l
    by (cases l) (auto simp: as_expired_def)
  moreover have "find_credential_expired e = None \<longleftrightarrow>
      (\<forall>l \<in> set (err_top e # err_causes e). as_expired l = None)"
    by (auto simp: find_credential_expired_def find_map_None split: option.splits)
  ultimately show ?thesis by (metis not_None_eq)
qed

lemma find_credential_expired_context [simp]:
  "find_credential_expired (with_context m e) \<noteq> None \<longleftrightarrow> find_credential_expired e \<noteq> None"
  unfolding find_credential_expired_iff by (auto simp: with_context_def)

lemma should_retry_bound: "should_retry p n e \<Longrightarrow> n < max_retries p"
  by (auto simp: should_retry_def split: if_splits)

lemma should_retry_kinds: "should_retry p n e \<Longrightarrow> e = RateLimit \<or> (\<exists>st. e = ServerError st)"
  by (auto simp: should_retry_def split: if_splits retryable_error.splits)

lemma retried_counts: "should_retry p n e \<Longrightarrow> counts_toward_circuit_breaker e"
  by (auto simp: counts_toward_circuit_breaker_def dest!: should_retry_kinds)

lemma delay_ms_upper:
  "delay_ms p n rnd \<le> max_delay_ms p + max (max_delay_ms p div 10) 1"
proof -
  define c where "c = min (sat_mul (base_delay_ms p) (sat_pow 2 n)) (max_delay_ms p)"
  define j where "j = max (c div 10) 1"
  have d: "delay_ms p n rnd \<le> c - j + rnd mod (j * 2)"
    by (simp add: delay_ms_def c_def j_def sat_add_def Let_def)
  have m: "rnd mod (j * 2) < j * 2" by (simp add: j_def)
  have cm: "c \<le> max_delay_ms p" by (simp add: c_def)
  then have jm: "j \<le> max (max_delay_ms p div 10) 1"
    unfolding j_def by (metis div_le_mono max.mono order_refl)
  show ?thesis
  proof (cases "j \<le> c")
    case True
    with d m cm jm show ?thesis by linarith
  next
    case False
    then have "c = 0" by (auto simp: j_def max_def split: if_splits)
    with d m have "delay_ms p n rnd \<le> 1" by (simp add: j_def)
    then show ?thesis by simp
  qed
qed


section \<open>Properties\<close>

text \<open>
  For every attempt and random draw the backoff stays within ten percent (at least one
  millisecond) of the exponential delay capped at the maximum; no overflow is possible, since
  the arithmetic saturates.
\<close>

theorem backoff_within_jitter:
  "(let capped = min (min u64_max (base_delay_ms p * min u64_max (2 ^ n))) (max_delay_ms p);
        j = max (capped div 10) 1
    in capped - j \<le> delay_ms p n rnd \<and> delay_ms p n rnd \<le> capped + j \<and> delay_ms p n rnd \<le> u64_max)"
proof -
  define c where "c = min (sat_mul (base_delay_ms p) (sat_pow 2 n)) (max_delay_ms p)"
  define j where "j = max (c div 10) 1"
  have d: "delay_ms p n rnd = min u64_max (c - j + rnd mod (j * 2))"
    by (simp add: delay_ms_def c_def j_def sat_add_def Let_def min.commute)
  have m: "rnd mod (j * 2) < j * 2" by (simp add: j_def)
  have cu: "c \<le> u64_max" by (simp add: c_def sat_mul_def)
  have up: "c - j + rnd mod (j * 2) \<le> c + j"
  proof (cases "j \<le> c")
    case False
    then have "c = 0" "j = 1" by (auto simp: j_def max_def split: if_splits)
    with m show ?thesis by simp
  qed (use m in linarith)
  have cc: "c = min (min u64_max (base_delay_ms p * min u64_max (2 ^ n))) (max_delay_ms p)"
    by (simp add: c_def sat_mul_def sat_pow_def min.commute)
  show ?thesis
    unfolding cc [symmetric] Let_def j_def [symmetric] using d up cu by auto
qed

end
