(* ===== verification/Circuit_Breaker.thy ===== *)
theory Circuit_Breaker
  imports Retry
begin

text \<open>
  The per-provider circuit breaker (\<open>src/src/router/circuit_breaker.rs\<close>). Each operation
  takes the clock reading (\<open>Instant::now()\<close>, in milliseconds) it made; the \<open>DashMap\<close> of
  mutex-protected circuits is a map, every operation being one critical section on one key.
\<close>

datatype circuit_state = Closed | Open | HalfOpen

record provider_circuit =
  state :: circuit_state
  failure_count :: nat
  opened_at :: "nat option"
  seen_open :: bool

record circuit_breaker =
  circuits :: "string \<rightharpoonup> provider_circuit"
  failure_threshold :: nat
  cooldown :: nat

definition new_circuit :: provider_circuit where
  "new_circuit = \<lparr>state = Closed, failure_count = 0, opened_at = None, seen_open = False\<rparr>"

definition new_breaker :: "nat \<Rightarrow> nat \<Rightarrow> circuit_breaker" where
  "new_breaker thr cooldown_secs =
     \<lparr>circuits = Map.empty, failure_threshold = thr, cooldown = 1000 * cooldown_secs\<rparr>"

text \<open>\<open>entry(provider).or_insert_with(..)\<close>.\<close>

definition circuit_of :: "circuit_breaker \<Rightarrow> string \<Rightarrow> provider_circuit" where
  "circuit_of cb p = (case circuits cb p of Some c \<Rightarrow> c | None \<Rightarrow> new_circuit)"

definition put_circuit :: "circuit_breaker \<Rightarrow> string \<Rightarrow> provider_circuit \<Rightarrow> circuit_breaker" where
  "put_circuit cb p c = cb\<lparr>circuits := (circuits cb)(p \<mapsto> c)\<rparr>"

definition circuit_is_open :: "nat \<Rightarrow> nat \<Rightarrow> provider_circuit \<Rightarrow> bool \<times> provider_circuit" where
  "circuit_is_open cool now c =
     (case state c of
        Closed \<Rightarrow> (False, c)
      | HalfOpen \<Rightarrow> (False, c)
      | Open \<Rightarrow>
          if \<not> seen_open c then (True, c\<lparr>seen_open := True\<rparr>)
          else (case opened_at c of
                  Some t \<Rightarrow>
                    if cool \<le> now - t then (False, c\<lparr>state := HalfOpen\<rparr>) else (True, c)
                | None \<Rightarrow> (True, c)))"

definition is_open :: "nat \<Rightarrow> circuit_breaker \<Rightarrow> string \<Rightarrow> bool \<times> circuit_breaker" where
  "is_open now cb p =
     (let (b, c) = circuit_is_open (cooldown cb) now (circuit_of cb p) in (b, put_circuit cb p c))"

definition record_success :: "circuit_breaker \<Rightarrow> string \<Rightarrow> circuit_breaker" where
  "record_success cb p =
     (case circuits cb p of
        None \<Rightarrow> cb
      | Some c \<Rightarrow>
          put_circuit cb p
            (c\<lparr>state := Closed, failure_count := 0, opened_at := None, seen_open := False\<rparr>))"

definition circuit_failure :: "nat \<Rightarrow> nat \<Rightarrow> provider_circuit \<Rightarrow> provider_circuit" where
  "circuit_failure thr now c =
     (case state c of
        Closed \<Rightarrow>
          (let c' = c\<lparr>failure_count := failure_count c + 1\<rparr>
           in if thr \<le> failure_count c'
              then c'\<lparr>state := Open, opened_at := Some now, seen_open := False\<rparr> else c')
      | _ \<Rightarrow> c\<lparr>state := Open, failure_count := 1, opened_at := Some now, seen_open := False\<rparr>)"

definition record_failure :: "nat \<Rightarrow> circuit_breaker \<Rightarrow> string \<Rightarrow> circuit_breaker" where
  "record_failure now cb p =
     put_circuit cb p (circuit_failure (failure_threshold cb) now (circuit_of cb p))"

definition record_provider_error :: "nat \<Rightarrow> circuit_breaker \<Rightarrow> string \<Rightarrow> string \<Rightarrow> circuit_breaker" where
  "record_provider_error now cb p err_str =
     (if counts_toward_circuit_breaker (classify err_str) then record_failure now cb p else cb)"

definition record_provider_failure :: "nat \<Rightarrow> circuit_breaker \<Rightarrow> string \<Rightarrow> anyhow \<Rightarrow> circuit_breaker" where
  "record_provider_failure now cb p err =
     (if counts_toward_circuit_breaker (classify_error err) then record_failure now cb p else cb)"

definition record_upstream_status :: "nat \<Rightarrow> circuit_breaker \<Rightarrow> string \<Rightarrow> nat \<Rightarrow> circuit_breaker" where
  "record_upstream_status now cb p status =
     (if 400 \<le> status \<and> status < 500 \<and> status \<noteq> 429 then cb else record_failure now cb p)"

lemmas breaker_defs [step_defs] = is_open_def record_success_def record_failure_def
  record_provider_error_def record_provider_failure_def record_upstream_status_def

section \<open>The breaker as a state machine\<close>

text \<open>One step: some caller performs one operation on one provider at some time.\<close>

inductive breaker_step :: "circuit_breaker \<Rightarrow> circuit_breaker \<Rightarrow> bool" where
  step_is_open: "breaker_step cb (snd (is_open now cb p))"
| step_success: "breaker_step cb (record_success cb p)"
| step_failure: "breaker_step cb (record_failure now cb p)"
| step_error: "breaker_step cb (record_provider_error now cb p s)"
| step_provider_failure: "breaker_step cb (record_provider_failure now cb p e)"
| step_status: "breaker_step cb (record_upstream_status now cb p st)"

inductive breaker_reachable :: "nat \<Rightarrow> nat \<Rightarrow> circuit_breaker \<Rightarrow> bool" for thr cool where
  start: "breaker_reachable thr cool (new_breaker thr cool)"
| step: "breaker_reachable thr cool cb \<Longrightarrow> breaker_step cb cb' \<Longrightarrow> breaker_reachable thr cool cb'"

text \<open>A circuit is well formed: closed below the threshold with no opening time, otherwise
  with one; the failure count (a \<open>u32\<close> in the code) never exceeds the threshold or 1.\<close>

definition circuit_ok :: "nat \<Rightarrow> provider_circuit \<Rightarrow> bool" where
  "circuit_ok thr c \<longleftrightarrow>
     (case state c of
        Closed \<Rightarrow> (failure_count c = 0 \<or> failure_count c < thr) \<and> opened_at c = None \<and> \<not> seen_open c
      | Open \<Rightarrow> opened_at c \<noteq> None \<and> failure_count c \<le> max thr 1
      | HalfOpen \<Rightarrow> opened_at c \<noteq> None \<and> seen_open c \<and> failure_count c \<le> max thr 1)"

definition breaker_ok :: "circuit_breaker \<Rightarrow> bool" where
  "breaker_ok cb \<longleftrightarrow> (\<forall>p c. circuits cb p = Some c \<longrightarrow> circuit_ok (failure_threshold cb) c)"

lemma circuit_ok_new [simp]: "circuit_ok thr new_circuit"
  by (simp add: circuit_ok_def new_circuit_def)

lemma circuit_ok_of: "breaker_ok cb \<Longrightarrow> circuit_ok (failure_threshold cb) (circuit_of cb p)"
  by (auto simp: breaker_ok_def circuit_of_def split: option.splits)

lemma circuit_ok_is_open: "circuit_ok thr c \<Longrightarrow> circuit_ok thr (snd (circuit_is_open cool now c))"
  by (auto simp: circuit_ok_def circuit_is_open_def split: circuit_state.splits option.splits)

lemma circuit_ok_failure: "circuit_ok thr c \<Longrightarrow> circuit_ok thr (circuit_failure thr now c)"
  by (auto simp: circuit_ok_def circuit_failure_def Let_def split: circuit_state.splits)

lemma breaker_ok_put: "breaker_ok cb \<Longrightarrow> circuit_ok (failure_threshold cb) c \<Longrightarrow> breaker_ok (put_circuit cb p c)"
  by (simp add: breaker_ok_def put_circuit_def)

lemma put_circuit_simps [simp]:
  "failure_threshold (put_circuit cb p c) = failure_threshold cb"
  "cooldown (put_circuit cb p c) = cooldown cb"
  "circuit_of (put_circuit cb p c) q = (if q = p then c else circuit_of cb q)"
  by (simp_all add: put_circuit_def circuit_of_def)

lemma breaker_ok_record_failure: "breaker_ok cb \<Longrightarrow> breaker_ok (record_failure now cb p)"
  by (simp add: record_failure_def breaker_ok_put circuit_ok_failure circuit_ok_of)

lemma breaker_step_config:
  "breaker_step cb cb' \<Longrightarrow> failure_threshold cb' = failure_threshold cb \<and> cooldown cb' = cooldown cb"
  by (induction rule: breaker_step.induct)
    (auto simp: step_defs split: option.splits prod.splits)

lemma breaker_step_ok: "breaker_step cb cb' \<Longrightarrow> breaker_ok cb \<Longrightarrow> breaker_ok cb'"
proof (induction rule: breaker_step.induct)
  case (step_is_open cb now p)
  then show ?case
    using circuit_ok_is_open [OF circuit_ok_of, of cb "cooldown cb" now p]
    by (auto simp: is_open_def breaker_ok_put split: prod.splits)
next
  case (step_success cb p)
  then show ?case
    by (auto simp: record_success_def circuit_ok_def intro!: breaker_ok_put split: option.splits)
qed (auto simp: record_provider_error_def record_provider_failure_def record_upstream_status_def
  intro: breaker_ok_record_failure)

lemma breaker_reachable_ok:
  "breaker_reachable thr cool cb \<Longrightarrow> breaker_ok cb \<and> failure_threshold cb = thr \<and> cooldown cb = 1000 * cool"
proof (induction rule: breaker_reachable.induct)
  case start
  show ?case by (simp add: new_breaker_def breaker_ok_def)
next
  case (step cb cb')
  then show ?case using breaker_step_ok breaker_step_config by metis
qed

text \<open>An operation on one provider leaves every other provider's circuit alone.\<close>

lemma breaker_frame:
  assumes "q \<noteq> p"
  shows "circuit_of (snd (is_open now cb p)) q = circuit_of cb q"
    and "circuit_of (record_success cb p) q = circuit_of cb q"
    and "circuit_of (record_failure now cb p) q = circuit_of cb q"
  using assms by (auto simp: step_defs split: prod.splits option.splits)

text \<open>Consecutive counted failures.\<close>

fun fail_times :: "nat list \<Rightarrow> circuit_breaker \<Rightarrow> string \<Rightarrow> circuit_breaker" where
  "fail_times [] cb p = cb"
| "fail_times (t # ts) cb p = fail_times ts (record_failure t cb p) p"

lemma fail_times_closed:
  assumes "state (circuit_of cb p) = Closed"
    and "failure_count (circuit_of cb p) + length ts < failure_threshold cb"
  shows "state (circuit_of (fail_times ts cb p) p) = Closed
    \<and> failure_count (circuit_of (fail_times ts cb p) p) = failure_count (circuit_of cb p) + length ts"
  using assms
proof (induction ts arbitrary: cb)
  case Nil
  then show ?case by simp
next
  case (Cons t ts)
  let ?cb = "record_failure t cb p"
  have c: "circuit_of ?cb p = (circuit_of cb p)\<lparr>failure_count := failure_count (circuit_of cb p) + 1\<rparr>"
    using Cons.prems by (simp add: record_failure_def circuit_failure_def)
  have "failure_threshold ?cb = failure_threshold cb" by (simp add: record_failure_def)
  with Cons.IH [of ?cb] Cons.prems show ?case by (simp add: c)
qed

lemma fail_times_snoc: "fail_times (ts @ [t]) cb p = record_failure t (fail_times ts cb p) p"
  by (induction ts arbitrary: cb) auto

lemma fail_times_threshold [simp]: "failure_threshold (fail_times ts cb p) = failure_threshold cb"
  by (induction ts arbitrary: cb) (auto simp: record_failure_def)


lemma circuit_of_is_open:
  "circuit_of (snd (is_open now cb p)) p = snd (circuit_is_open (cooldown cb) now (circuit_of cb p))"
  "cooldown (snd (is_open now cb p)) = cooldown cb"
  "failure_threshold (snd (is_open now cb p)) = failure_threshold cb"
  by (simp_all add: is_open_def split: prod.splits)

lemma fst_is_open: "fst (is_open now cb p) = fst (circuit_is_open (cooldown cb) now (circuit_of cb p))"
  by (simp add: is_open_def split: prod.splits)

text \<open>Successive callers asking whether the circuit is open, at the given times.\<close>

fun probes :: "nat list \<Rightarrow> circuit_breaker \<Rightarrow> string \<Rightarrow> bool list \<times> circuit_breaker" where
  "probes [] cb p = ([], cb)"
| "probes (t # ts) cb p =
     (let (b, cb1) = is_open t cb p; (bs, cb2) = probes ts cb1 p in (b # bs, cb2))"

lemma probes_append:
  "probes (ts @ us) cb p =
     (let (bs, cb1) = probes ts cb p; (cs, cb2) = probes us cb1 p in (bs @ cs, cb2))"
  by (induction ts arbitrary: cb) (auto split: prod.splits)

lemma probes_waiting:
  assumes "state (circuit_of cb p) = Open" and "opened_at (circuit_of cb p) = Some t"
    and "seen_open (circuit_of cb p)" and "\<And>n. n \<in> set ns \<Longrightarrow> n - t < cooldown cb"
  shows "fst (probes ns cb p) = replicate (length ns) True
    \<and> circuit_of (snd (probes ns cb p)) p = circuit_of cb p
    \<and> cooldown (snd (probes ns cb p)) = cooldown cb"
  using assms
proof (induction ns arbitrary: cb)
  case (Cons n ns)
  let ?cb = "snd (is_open n cb p)"
  have o: "fst (is_open n cb p) = True" "circuit_of ?cb p = circuit_of cb p" "cooldown ?cb = cooldown cb"
    using Cons.prems(1-3) Cons.prems(4) [of n]
    by (auto simp: fst_is_open circuit_of_is_open circuit_is_open_def not_le)
  with Cons.IH [of ?cb] Cons.prems show ?case
    by (simp add: split_beta Let_def)
qed simp

section \<open>Properties\<close>

definition sample_breaker :: circuit_breaker where
  "sample_breaker = new_breaker 3 30"

lemma sample_breaker_simps [simp]:
  "circuit_of sample_breaker p = new_circuit" "failure_threshold sample_breaker = 3"
  "cooldown sample_breaker = 30000"
  by (simp_all add: sample_breaker_def new_breaker_def circuit_of_def)

text \<open>
  Whatever sequence of operations on whatever providers built the breaker, every circuit is
  consistent: a closed one is below the threshold and carries no opening time, an open or
  half-open one carries the time it opened, and no failure count exceeds the threshold.
\<close>

theorem breaker_invariant:
  assumes "breaker_reachable thr cool cb"
  shows "circuit_ok thr (circuit_of cb p)"
  using breaker_reachable_ok [OF assms] circuit_ok_of [of cb p] by simp

theorem breaker_invariant_witness:
  "circuit_ok 3 (circuit_of (snd (is_open 7 (record_failure 5 sample_breaker ''openai'') ''openai'')) ''openai'')"
proof (rule breaker_invariant [of 3 30])
  have "breaker_reachable 3 30 sample_breaker" unfolding sample_breaker_def by (rule start)
  then have "breaker_reachable 3 30 (record_failure 5 sample_breaker ''openai'')"
    by (rule breaker_reachable.step) (rule step_failure)
  then show "breaker_reachable 3 30 (snd (is_open 7 (record_failure 5 sample_breaker ''openai'') ''openai''))"
    by (rule breaker_reachable.step) (rule step_is_open)
qed

text \<open>
  A closed circuit opens exactly at the failure that reaches the threshold, counted from
  the last success: one failure fewer leaves it closed and admitting, that failure opens it,
  and the very next caller is refused at whatever time it asks.
\<close>

theorem breaker_opens_at_threshold:
  assumes "state (circuit_of cb p) = Closed"
    and "failure_count (circuit_of cb p) + length ts + 1 = failure_threshold cb"
  shows "fst (is_open now (fail_times ts cb p) p) = False
    \<and> fst (is_open now (fail_times (ts @ [t]) cb p) p) = True
    \<and> opened_at (circuit_of (fail_times (ts @ [t]) cb p) p) = Some t"
proof -
  have "state (circuit_of (fail_times ts cb p) p) = Closed
    \<and> failure_count (circuit_of (fail_times ts cb p) p) = failure_count (circuit_of cb p) + length ts"
    using assms by (intro fail_times_closed) auto
  with assms show ?thesis
    by (simp add: fst_is_open circuit_is_open_def fail_times_snoc record_failure_def
        circuit_failure_def Let_def)
qed

theorem breaker_opens_at_threshold_witness:
  "fst (is_open 99 (fail_times [1, 2] sample_breaker ''openai'') ''openai'') = False
   \<and> fst (is_open 999999 (fail_times [1, 2, 3] sample_breaker ''openai'') ''openai'') = True"
  using breaker_opens_at_threshold [of sample_breaker "''openai''" "[1, 2]" 99 3]
    breaker_opens_at_threshold [of sample_breaker "''openai''" "[1, 2]" 999999 3]
  by (simp add: new_circuit_def)

text \<open>
  A circuit that has just opened at time \<open>t\<close> refuses the first caller whenever it comes and
  every later one before \<open>t\<close> plus the cooldown; the first later caller past that is admitted,
  and its outcome decides: a failure reopens the circuit from that moment, a success closes it
  and forgets every failure.
\<close>

theorem open_circuit_lifecycle:
  assumes "c = circuit_of cb p" and "state c = Open" and "opened_at c = Some t" and "\<not> seen_open c"
    and "\<And>n. n \<in> set ns \<Longrightarrow> n - t < cooldown cb" and "cooldown cb \<le> late - t"
  shows "fst (probes (n0 # ns @ [late]) cb p) = replicate (length ns + 1) True @ [False]
    \<and> (let cb' = snd (probes (n0 # ns @ [late]) cb p)
       in state (circuit_of cb' p) = HalfOpen
          \<and> fst (is_open u (record_failure v cb' p) p)
          \<and> opened_at (circuit_of (record_failure v cb' p) p) = Some v
          \<and> circuit_of (record_success cb' p) p = new_circuit)"
proof -
  let ?cb1 = "snd (is_open n0 cb p)"
  have c1: "circuit_of ?cb1 p = c\<lparr>seen_open := True\<rparr>" "fst (is_open n0 cb p)" "cooldown ?cb1 = cooldown cb"
    using assms(1-4) by (simp_all add: circuit_of_is_open fst_is_open circuit_is_open_def)
  let ?cb2 = "snd (probes ns ?cb1 p)"
  have c2: "fst (probes ns ?cb1 p) = replicate (length ns) True" "circuit_of ?cb2 p = circuit_of ?cb1 p"
    "cooldown ?cb2 = cooldown cb"
    using probes_waiting [of ?cb1 p t ns] assms(1-5) c1 by auto
  let ?cb3 = "snd (is_open late ?cb2 p)"
  have c3: "fst (is_open late ?cb2 p) = False" "state (circuit_of ?cb3 p) = HalfOpen"
    using assms(2,3,6) c1 c2 by (simp_all add: circuit_of_is_open fst_is_open circuit_is_open_def)
  have run: "probes (n0 # ns @ [late]) cb p = (True # replicate (length ns) True @ [False], ?cb3)"
    using c1 c2 c3 by (simp add: probes_append split_beta Let_def prod_eq_iff)
  have ins: "circuits ?cb3 p \<noteq> None"
    by (simp add: is_open_def put_circuit_def split: prod.splits)
  then have "circuit_of (record_success ?cb3 p) p = new_circuit"
    by (auto simp: record_success_def new_circuit_def split: option.splits)
  with run c3 show ?thesis
    by (simp add: fst_is_open circuit_is_open_def record_failure_def circuit_failure_def)
qed

theorem open_circuit_lifecycle_witness:
  "fst (probes [90000, 100, 29999, 30003] (fail_times [1, 2, 3] sample_breaker ''p'') ''p'') = [True, True, True, False]"
proof -
  let ?cb = "fail_times [1, 2, 3] sample_breaker ''p''"
  have c: "circuit_of ?cb ''p'' = \<lparr>state = Open, failure_count = 3, opened_at = Some 3, seen_open = False\<rparr>"
    by (simp add: record_failure_def circuit_failure_def new_circuit_def)
  have cool: "cooldown ?cb = 30000" by (simp add: record_failure_def)
  have h: "n - 3 < cooldown ?cb" if "n \<in> set [100, 29999]" for n
    unfolding cool using that by auto
  have "fst (probes (90000 # [100, 29999] @ [30003]) ?cb ''p'') = replicate (length [100::nat, 29999] + 1) True @ [False]"
    by (rule open_circuit_lifecycle [OF refl _ _ _ h, THEN conjunct1])
      (simp_all add: record_failure_def circuit_failure_def new_circuit_def)
  then show ?thesis by (simp del: probes.simps fail_times.simps)
qed

text \<open>
  An expired credential anywhere in an error's chain, under however many layers of context,
  never moves the breaker and is never retried.
\<close>

theorem expired_credential_never_counts:
  assumes "find_credential_expired e \<noteq> None"
  shows "record_provider_failure now cb p (fold with_context msgs e) = cb
    \<and> \<not> should_retry pol n (classify_error (fold with_context msgs e))"
proof -
  have "find_credential_expired (fold with_context msgs e) \<noteq> None"
    using assms by (induction msgs arbitrary: e) (simp_all del: not_None_eq)
  then have "classify_error (fold with_context msgs e) = CredentialExpired"
    by (simp add: classify_error_expired)
  then show ?thesis
    by (simp add: record_provider_failure_def counts_toward_circuit_breaker_def should_retry_def)
qed

definition sample_expired :: credential_expired where
  "sample_expired =
     \<lparr>ce_provider = ''vertex'', ce_credential_kind = ''authorized_user'', ce_reason = ''invalid_grant'',
      ce_remediation = ''Log in again.'', ce_detail = ''rapt_required''\<rparr>"

theorem expired_credential_never_counts_witness:
  "record_provider_failure 5 sample_breaker ''anthropic''
     (with_context ''refresh returned 500'' \<lparr>err_top = Expired sample_expired, err_causes = []\<rparr>) = sample_breaker"
  using expired_credential_never_counts [of "\<lparr>err_top = Expired sample_expired, err_causes = []\<rparr>" 5 sample_breaker
      "''anthropic''" "[''refresh returned 500'']"]
  by (simp add: find_credential_expired_def as_expired_def)

end
