(* ===== verification/Ordered_Maps.thy ===== *)
theory Ordered_Maps
  imports Prelude "HOL-Library.Char_ord" "HOL-Library.List_Lexorder"
begin

text \<open>
  Rust's \<open>BTreeMap\<close>: the map behind JSON objects, attribution tags, streamed tool calls
  and content blocks. It is an association list whose keys are strictly ascending, so that
  iteration order (which serialisation and replay observe) is part of the model. The
  interface the components rely on is the locale \<open>kv_map\<close>; it is interpreted on the
  association-list operations at the end.
\<close>

section \<open>The interface\<close>

locale kv_map =
  fixes empty :: "'m"
    and ins :: "'k \<Rightarrow> 'v \<Rightarrow> 'm \<Rightarrow> 'm"
    and del :: "'k \<Rightarrow> 'm \<Rightarrow> 'm"
    and look :: "'m \<Rightarrow> 'k \<Rightarrow> 'v option"
    and invar :: "'m \<Rightarrow> bool"
  assumes look_empty: "look empty k = None"
    and look_ins: "invar m \<Longrightarrow> look (ins k v m) k' = (if k' = k then Some v else look m k')"
    and look_del: "invar m \<Longrightarrow> look (del k m) k' = (if k' = k then None else look m k')"
    and invar_empty: "invar empty"
    and invar_ins: "invar m \<Longrightarrow> invar (ins k v m)"
    and invar_del: "invar m \<Longrightarrow> invar (del k m)"
begin

lemma invar_ins_all: "invar m \<Longrightarrow> invar (fold (\<lambda>(k, v). ins k v) kvs m)"
  by (induction kvs arbitrary: m) (auto simp: invar_ins)

text \<open>\<open>extend\<close>: later pairs win, earlier contents survive where no pair names the key.\<close>

lemma look_ins_all: "invar m \<Longrightarrow>
    look (fold (\<lambda>(k, v). ins k v) kvs m) k = (case map_of (rev kvs) k of None \<Rightarrow> look m k | v \<Rightarrow> v)"
proof (induction kvs arbitrary: m)
  case Nil
  then show ?case by simp
next
  case (Cons kv kvs)
  obtain k' v' where kv: "kv = (k', v')" by fastforce
  from Cons.prems have "invar (ins k' v' m)" by (rule invar_ins)
  from Cons.IH [OF this] Cons.prems show ?case
    by (auto simp: kv look_ins map_add_def split: option.splits)
qed

lemma invar_del_all: "invar m \<Longrightarrow> invar (fold del ks m)"
  by (induction ks arbitrary: m) (auto simp: invar_del)

lemma look_del_all: "invar m \<Longrightarrow>
    look (fold del ks m) k = (if k \<in> set ks then None else look m k)"
  by (induction ks arbitrary: m) (auto simp: invar_del look_del)

lemma ins_twice_look: "invar m \<Longrightarrow> look (ins k v (ins k w m)) = look (ins k v m)"
  by (auto simp: look_ins invar_ins)

end

section \<open>The implementation: strictly ascending association lists\<close>

fun bt_insert :: "'k::linorder \<Rightarrow> 'v \<Rightarrow> ('k \<times> 'v) list \<Rightarrow> ('k \<times> 'v) list" where
  "bt_insert k v [] = [(k, v)]"
| "bt_insert k v ((k', v') # m) =
     (if k < k' then (k, v) # (k', v') # m
      else if k = k' then (k, v) # m
      else (k', v') # bt_insert k v m)"

definition bt_remove :: "'k \<Rightarrow> ('k \<times> 'v) list \<Rightarrow> ('k \<times> 'v) list" where
  "bt_remove k m = filter (\<lambda>(k', _). k' \<noteq> k) m"

definition bt_ok :: "('k::linorder \<times> 'v) list \<Rightarrow> bool" where
  "bt_ok m \<longleftrightarrow> sorted_wrt (<) (map fst m)"

definition bt_from_list :: "('k::linorder \<times> 'v) list \<Rightarrow> ('k \<times> 'v) list" where
  "bt_from_list kvs = fold (\<lambda>(k, v). bt_insert k v) kvs []"

lemma bt_ok_Nil [simp]: "bt_ok []"
  by (simp add: bt_ok_def)

lemma bt_ok_Cons: "bt_ok ((k, v) # m) \<longleftrightarrow> (\<forall>k' \<in> fst ` set m. k < k') \<and> bt_ok m"
  by (simp add: bt_ok_def)

lemma keys_bt_insert: "fst ` set (bt_insert k v m) = insert k (fst ` set m)"
  by (induction k v m rule: bt_insert.induct) auto

lemma bt_ok_insert: "bt_ok m \<Longrightarrow> bt_ok (bt_insert k v m)"
proof (induction k v m rule: bt_insert.induct)
  case (1 k v)
  show ?case by (simp add: bt_ok_Cons)
next
  case (2 k v k' v' m)
  then show ?case by (fastforce simp: bt_ok_Cons keys_bt_insert)
qed

lemma map_of_bt_insert: "bt_ok m \<Longrightarrow>
    map_of (bt_insert k v m) k' = (if k' = k then Some v else map_of m k')"
  by (induction k v m rule: bt_insert.induct) (auto simp: bt_ok_Cons)

lemma bt_ok_remove: "bt_ok m \<Longrightarrow> bt_ok (bt_remove k m)"
proof (induction m)
  case (Cons p m)
  obtain a b where "p = (a, b)" by fastforce
  with Cons show ?case by (auto simp: bt_ok_Cons bt_remove_def)
qed (simp add: bt_remove_def)

lemma map_of_bt_remove: "map_of (bt_remove k m) k' = (if k' = k then None else map_of m k')"
  by (induction m) (auto simp: bt_remove_def)

lemma set_bt_insert: "set (bt_insert k v m) \<subseteq> insert (k, v) (set m)"
  by (induction k v m rule: bt_insert.induct) auto

lemma set_bt_remove: "set (bt_remove k m) \<subseteq> set m"
  by (auto simp: bt_remove_def)

text \<open>Two maps with the same lookups are the same list: serialisation is canonical.\<close>

lemma bt_ok_distinct: "bt_ok m \<Longrightarrow> distinct (map fst m)"
  by (simp add: bt_ok_def strict_sorted_iff)

lemma bt_ext:
  assumes "bt_ok m" and "bt_ok n" and "map_of m = map_of n"
  shows "m = n"
proof -
  have d: "distinct (map fst m)" "distinct (map fst n)"
    using assms(1,2) by (simp_all add: bt_ok_distinct)
  have "set m = set n"
    using map_of_eq_Some_iff [OF d(1)] map_of_eq_Some_iff [OF d(2)] assms(3) by auto
  moreover have "sorted (map fst m)" "sorted (map fst n)"
    using assms(1,2) by (simp_all add: bt_ok_def strict_sorted_iff)
  ultimately show ?thesis
    using d map_sorted_distinct_set_unique [of fst m n] map_of_eq_Some_iff
    by (metis (mono_tags, lifting) d distinct_map inj_on_Un_image_eq_iff sup.idem)
qed

interpretation bt: kv_map "[]" bt_insert bt_remove map_of bt_ok
  by unfold_locales (auto simp: map_of_bt_insert map_of_bt_remove bt_ok_insert bt_ok_remove)

lemma bt_ok_from_list [simp]: "bt_ok (bt_from_list kvs)"
  unfolding bt_from_list_def by (rule bt.invar_ins_all) simp

lemma map_of_bt_from_list: "map_of (bt_from_list kvs) k = map_of (rev kvs) k"
  unfolding bt_from_list_def by (simp add: bt.look_ins_all split: option.splits)

end
