(* ===== verification/Json.thy ===== *)
theory Json
  imports Ordered_Maps
begin

text \<open>
  \<open>serde_json::Value\<close> with the accessors the router uses. Objects are \<open>BTreeMap\<close>s
  (the crate is built without \<open>preserve_order\<close>), numbers are the three variants of
  \<open>serde_json::Number\<close>. Parsing and printing of JSON text belong to the third-party crate:
  where the router calls them they are parameters of the definitions.
\<close>

datatype jnum = PosInt nat | NegInt int | Float rat

datatype json =
    JNull
  | JBool bool
  | JNum jnum
  | JStr string
  | JArr "json list"
  | JObj "(string \<times> json) list"

text \<open>\<open>value.get(key)\<close>, \<open>value[key]\<close> and \<open>value[i]\<close> on a shared reference: a missing key or a
  value of another shape reads as \<open>None\<close> resp. \<open>Null\<close>.\<close>

definition jget_opt :: "json \<Rightarrow> string \<Rightarrow> json option" where
  "jget_opt v k = (case v of JObj m \<Rightarrow> map_of m k | _ \<Rightarrow> None)"

definition jget :: "json \<Rightarrow> string \<Rightarrow> json" where
  "jget v k = (case jget_opt v k of Some x \<Rightarrow> x | None \<Rightarrow> JNull)"

definition jidx :: "json \<Rightarrow> nat \<Rightarrow> json" where
  "jidx v i = (case v of JArr xs \<Rightarrow> if i < length xs then xs ! i else JNull | _ \<Rightarrow> JNull)"

text \<open>\<open>value[key] = x\<close>: \<open>Null\<close> becomes an object, any other non-object panics (\<open>None\<close>).\<close>

definition jset :: "json \<Rightarrow> string \<Rightarrow> json \<Rightarrow> json option" where
  "jset v k x =
     (case v of
        JObj m \<Rightarrow> Some (JObj (bt_insert k x m))
      | JNull \<Rightarrow> Some (JObj [(k, x)])
      | _ \<Rightarrow> None)"

definition as_str :: "json \<Rightarrow> string option" where
  "as_str v = (case v of JStr s \<Rightarrow> Some s | _ \<Rightarrow> None)"

definition as_bool :: "json \<Rightarrow> bool option" where
  "as_bool v = (case v of JBool b \<Rightarrow> Some b | _ \<Rightarrow> None)"

definition as_array :: "json \<Rightarrow> json list option" where
  "as_array v = (case v of JArr xs \<Rightarrow> Some xs | _ \<Rightarrow> None)"

definition as_object :: "json \<Rightarrow> (string \<times> json) list option" where
  "as_object v = (case v of JObj m \<Rightarrow> Some m | _ \<Rightarrow> None)"

definition as_u64 :: "json \<Rightarrow> nat option" where
  "as_u64 v = (case v of JNum (PosInt n) \<Rightarrow> Some n | _ \<Rightarrow> None)"

definition as_f64 :: "json \<Rightarrow> rat option" where
  "as_f64 v =
     (case v of
        JNum (PosInt n) \<Rightarrow> Some (of_nat n)
      | JNum (NegInt i) \<Rightarrow> Some (of_int i)
      | JNum (Float r) \<Rightarrow> Some r
      | _ \<Rightarrow> None)"

definition is_number :: "json \<Rightarrow> bool" where
  "is_number v = (case v of JNum _ \<Rightarrow> True | _ \<Rightarrow> False)"

definition is_object :: "json \<Rightarrow> bool" where
  "is_object v \<longleftrightarrow> as_object v \<noteq> None"

text \<open>\<open>v.as_array().into_iter().flatten()\<close>: the elements, none for a non-array.\<close>

definition array_items :: "json \<Rightarrow> json list" where
  "array_items v = (case as_array v of Some xs \<Rightarrow> xs | None \<Rightarrow> [])"

text \<open>\<open>n as u32\<close> on a \<open>u64\<close>.\<close>

definition as_u32 :: "nat \<Rightarrow> nat" where
  "as_u32 n = n mod 2 ^ 32"

lemma as_u32_code [code]: "as_u32 n = nat (int n mod 4294967296)"
  by (simp add: as_u32_def nat_mod_distrib)

text \<open>An object literal, as \<open>json!\<close> builds it.\<close>

definition jobj :: "(string \<times> json) list \<Rightarrow> json" where
  "jobj kvs = JObj (bt_from_list kvs)"

definition jnat :: "nat \<Rightarrow> json" where
  "jnat n = JNum (PosInt n)"

text \<open>Every object inside a value has ascending keys and every \<open>PosInt\<close> fits \<open>u64\<close>.\<close>

fun json_ok :: "json \<Rightarrow> bool" where
  "json_ok (JArr xs) \<longleftrightarrow> (\<forall>x \<in> set xs. json_ok x)"
| "json_ok (JObj m) \<longleftrightarrow> bt_ok m \<and> (\<forall>kv \<in> set m. json_ok (snd kv))"
| "json_ok (JNum n) \<longleftrightarrow> (case n of PosInt k \<Rightarrow> k < 2 ^ 64 | NegInt i \<Rightarrow> - (2 ^ 63) \<le> i \<and> i < 0 | Float r \<Rightarrow> True)"
| "json_ok _ \<longleftrightarrow> True"

named_theorems json_simps \<open>reading JSON values\<close>

lemma as_simps [simp]:
  "as_str (JStr s) = Some s" "as_str JNull = None" "as_str (JObj m) = None" "as_str (JArr xs) = None"
  "as_str (JNum n) = None" "as_str (JBool b) = None"
  "as_array (JArr xs) = Some xs" "as_array JNull = None" "as_array (JObj m) = None"
  "as_array (JStr s) = None" "as_array (JNum n) = None" "as_array (JBool b) = None"
  "as_object (JObj m) = Some m" "as_object JNull = None" "as_object (JStr s) = None"
  "as_object (JArr xs) = None" "as_object (JNum n) = None" "as_object (JBool b) = None"
  "as_u64 (JNum (PosInt k)) = Some k" "as_u64 JNull = None" "as_u64 (JStr s) = None"
  "as_u64 (JObj m) = None" "as_u64 (JArr xs) = None" "as_u64 (JBool b) = None"
  "as_u64 (jnat k) = Some k"
  by (simp_all add: as_str_def as_array_def as_object_def as_u64_def jnat_def)

lemma jget_obj [json_simps]: "jget (JObj m) k = (case map_of m k of Some x \<Rightarrow> x | None \<Rightarrow> JNull)"
  by (simp add: jget_def jget_opt_def)

lemma jget_nonobj [simp]:
  "jget JNull k = JNull" "jget (JStr s) k = JNull" "jget (JArr xs) k = JNull"
  "jget (JNum n) k = JNull" "jget (JBool b) k = JNull"
  by (simp_all add: jget_def jget_opt_def)

lemma jget_opt_jobj [json_simps]: "jget_opt (jobj kvs) k = map_of (rev kvs) k"
  by (simp add: jget_opt_def jobj_def map_of_bt_from_list)

lemma jget_jobj [json_simps]: "jget (jobj kvs) k = (case map_of (rev kvs) k of Some x \<Rightarrow> x | None \<Rightarrow> JNull)"
  by (simp add: jget_def jget_opt_jobj)

lemma array_items_simps [simp]: "array_items (JArr xs) = xs" "array_items JNull = []"
  by (simp_all add: array_items_def)

lemma as_object_jobj [simp]: "as_object (jobj kvs) = Some (bt_from_list kvs)"
  by (simp add: jobj_def)

lemma as_u32_id [simp]: "n < 2 ^ 32 \<Longrightarrow> as_u32 n = n"
  by (simp add: as_u32_def)

lemma as_u32_bound [simp]: "as_u32 n < 2 ^ 32"
  by (simp add: as_u32_def)

end
