(* ===== verification/Adapter.thy ===== *)
theory Adapter
  imports Json
begin

text \<open>
  The provider-neutral request and result (\<open>src/src/providers/adapter.rs\<close>). Token counts
  are \<open>u32\<close>s, kept as naturals below \<open>2 ^ 32\<close> by \<open>as_u32\<close> where the code casts.
\<close>

record reasoning_control =
  disable_thinking :: bool
  effort :: "string option"

record normalized_request =
  nr_model :: string
  nr_request_model :: string
  nr_messages :: "json list"
  nr_stream :: bool
  nr_temperature :: "rat option"
  nr_max_tokens :: "nat option"
  nr_tools :: "json list option"
  nr_tool_choice :: "json option"
  nr_reasoning :: "reasoning_control option"
  nr_extra_params :: json

record completion_result =
  content :: string
  prompt_tokens :: nat
  completion_tokens :: nat
  finish_reason :: string
  cache_read_tokens :: nat
  cache_write_tokens :: nat
  reasoning_tokens :: "nat option"
  ttft_ms :: "int option"
  tool_calls :: "json option"

definition default_result :: completion_result where
  "default_result =
     \<lparr>content = [], prompt_tokens = 0, completion_tokens = 0, finish_reason = [],
      cache_read_tokens = 0, cache_write_tokens = 0, reasoning_tokens = None, ttft_ms = None,
      tool_calls = None\<rparr>"

definition is_cached :: "completion_result \<Rightarrow> bool" where
  "is_cached r \<longleftrightarrow> 0 < cache_read_tokens r"

record effective_settings =
  es_temperature :: "rat option"
  es_max_tokens :: "nat option"
  es_timeout_secs :: "nat option"
  es_reasoning :: "reasoning_control option"

text \<open>The trait's default \<open>effective_settings\<close>.\<close>

definition default_effective_settings :: "normalized_request \<Rightarrow> effective_settings" where
  "default_effective_settings req =
     \<lparr>es_temperature = nr_temperature req, es_max_tokens = nr_max_tokens req,
      es_timeout_secs = None, es_reasoning = None\<rparr>"

end
