(* ===== verification/Capabilities.thy ===== *)
theory Capabilities
  imports Adapter Retry
begin

text \<open>
  Which sampling and reasoning parameters a model accepts
  (\<open>src/src/router/model_capabilities.rs\<close>) and what the router learned from rejections
  (\<open>src/src/router/learned_capabilities.rs\<close>). The learned set is behind one \<open>RwLock\<close>, so
  each operation is one atomic step on the map.
\<close>

section \<open>Keys\<close>

definition normalize_model_key :: "string \<Rightarrow> string" where
  "normalize_model_key model = to_lower (after_last CHR ''/'' model)"

definition learned_key :: "string \<Rightarrow> string" where
  "learned_key model = to_lower (after_last CHR ''/'' model)"

definition family_matches :: "string \<Rightarrow> string \<Rightarrow> bool" where
  "family_matches key fam \<longleftrightarrow>
     key = fam \<or>
     (length fam < length key \<and> starts_with fam key \<and> key ! length fam = CHR ''-'')"

definition strip_version :: "string \<Rightarrow> string" where
  "strip_version key = (case split_once CHR ''@'' key of Some (b, _) \<Rightarrow> b | None \<Rightarrow> key)"

section \<open>Built-in tables\<close>

definition temperature_unsupported :: "string list" where
  "temperature_unsupported =
     [''claude-opus-5'', ''claude-opus-5-5'', ''claude-sonnet-5'', ''claude-sonnet-5-5'',
      ''claude-opus-4-7'', ''claude-opus-4-8'', ''claude-fable-5'', ''claude-fable-5-1'']"

definition thinks_by_default_table :: "string list" where
  "thinks_by_default_table =
     [''claude-sonnet-5'', ''claude-sonnet-5-5'', ''claude-opus-5'', ''claude-opus-5-5'',
      ''claude-fable-5'', ''claude-fable-5-1'', ''claude-mythos-5'', ''claude-mythos-5-1'']"

definition thinking_always_on :: "string list" where
  "thinking_always_on =
     [''claude-opus-5-5'', ''claude-sonnet-5-5'', ''claude-fable-5'', ''claude-fable-5-1'',
      ''claude-mythos-5'', ''claude-mythos-5-1'']"

definition effort_supported :: "string list" where
  "effort_supported =
     [''claude-opus-4-5'', ''claude-opus-4-6'', ''claude-sonnet-4-6'', ''claude-opus-4-7'',
      ''claude-opus-4-8'', ''claude-sonnet-5'', ''claude-sonnet-5-5'', ''claude-opus-5'',
      ''claude-opus-5-5'', ''claude-fable-5'', ''claude-fable-5-1'', ''claude-mythos-5'',
      ''claude-mythos-5-1'']"

section \<open>Overrides\<close>

record capability_entry =
  mc_model :: string
  mc_supports_temperature :: "bool option"
  mc_thinks_by_default :: "bool option"
  mc_can_disable_thinking :: "bool option"
  mc_supports_effort :: "bool option"

definition candidates :: "string \<Rightarrow> string list" where
  "candidates model =
     (let key = normalize_model_key model; base = strip_version key
      in if base \<noteq> key then [key, base] else [key])"

text \<open>The two nested loops: for each candidate, the first entry of that name with the field set.\<close>

definition find_override ::
  "string list \<Rightarrow> capability_entry list \<Rightarrow> (capability_entry \<Rightarrow> bool option) \<Rightarrow> bool option" where
  "find_override cands overrides pick =
     find_map (\<lambda>c. find_map (\<lambda>e. if normalize_model_key (mc_model e) = c then pick e else None) overrides)
       cands"

definition temperature_override :: "string \<Rightarrow> capability_entry list \<Rightarrow> bool option" where
  "temperature_override model overrides = find_override (candidates model) overrides mc_supports_temperature"

definition table_supports_temperature :: "string \<Rightarrow> bool" where
  "table_supports_temperature model =
     (\<not> list_ex (family_matches (strip_version (normalize_model_key model))) temperature_unsupported)"

definition supports_temperature :: "string \<Rightarrow> capability_entry list \<Rightarrow> bool" where
  "supports_temperature model overrides =
     (case temperature_override model overrides of
        Some b \<Rightarrow> b
      | None \<Rightarrow> table_supports_temperature model)"

definition lookup_flag ::
  "string \<Rightarrow> capability_entry list \<Rightarrow> (capability_entry \<Rightarrow> bool option) \<Rightarrow> (string \<Rightarrow> bool) \<Rightarrow> bool" where
  "lookup_flag model overrides pick table_default =
     (case find_override (candidates model) overrides pick of
        Some v \<Rightarrow> v
      | None \<Rightarrow> list_ex table_default (candidates model))"

section \<open>Reasoning controls\<close>

record thinking_caps =
  thinks_by_default :: bool
  can_disable_thinking :: bool
  supports_effort :: bool

definition thinking_capabilities :: "string \<Rightarrow> capability_entry list \<Rightarrow> thinking_caps" where
  "thinking_capabilities model overrides =
     \<lparr>thinks_by_default =
        lookup_flag model overrides mc_thinks_by_default (List.member thinks_by_default_table),
      can_disable_thinking =
        (\<not> lookup_flag model overrides (\<lambda>e. map_option Not (mc_can_disable_thinking e))
             (List.member thinking_always_on)),
      supports_effort =
        lookup_flag model overrides mc_supports_effort (List.member effort_supported)\<rparr>"

definition effort_control :: "thinking_caps \<Rightarrow> string \<Rightarrow> reasoning_control option" where
  "effort_control caps level =
     (if supports_effort caps then Some \<lparr>disable_thinking = False, effort = Some level\<rparr> else None)"

definition resolve_reasoning ::
  "string \<Rightarrow> string option \<Rightarrow> capability_entry list \<Rightarrow> reasoning_control option" where
  "resolve_reasoning model reasoning_effort overrides =
     (case reasoning_effort of
        None \<Rightarrow> None
      | Some raw \<Rightarrow>
          (let requested = to_lower (trim raw); caps = thinking_capabilities model overrides
           in if requested = ''none'' then
                (if \<not> thinks_by_default caps then None
                 else if can_disable_thinking caps
                 then Some \<lparr>disable_thinking = True, effort = None\<rparr>
                 else effort_control caps ''low'')
              else if requested = ''minimal'' \<or> requested = ''low'' then effort_control caps ''low''
              else if requested = ''medium'' then effort_control caps ''medium''
              else if requested = ''high'' then effort_control caps ''high''
              else if requested = ''xhigh'' then effort_control caps ''xhigh''
              else if requested = ''max'' then effort_control caps ''max''
              else None))"

section \<open>Learned capabilities\<close>

record learned_row =
  lr_model :: string
  lr_supports_temperature :: bool
  lr_error :: string
  lr_learned_at :: string

record learned_entry =
  row :: learned_row
  stripped :: nat

type_synonym learned = "(string \<times> learned_entry) list"

definition replace_all :: "learned_row list \<Rightarrow> learned" where
  "replace_all rows = bt_from_list (map (\<lambda>r. (lr_model r, \<lparr>row = r, stripped = 0\<rparr>)) rows)"

definition learned_get :: "learned \<Rightarrow> string \<Rightarrow> learned_entry option" where
  "learned_get l model = map_of l (learned_key model)"

definition learned_temperature :: "learned \<Rightarrow> string \<Rightarrow> bool option" where
  "learned_temperature l model = map_option (\<lambda>e. lr_supports_temperature (row e)) (learned_get l model)"

definition note_stripped :: "learned \<Rightarrow> string \<Rightarrow> learned" where
  "note_stripped l model =
     (case learned_get l model of
        Some e \<Rightarrow> bt_insert (learned_key model) (e\<lparr>stripped := stripped e + 1\<rparr>) l
      | None \<Rightarrow> l)"

definition learn_temperature_rejected ::
  "string \<Rightarrow> learned \<Rightarrow> string \<Rightarrow> string \<Rightarrow> learned_row option \<times> learned" where
  "learn_temperature_rejected now l model err =
     (let key = learned_key model;
          r = \<lparr>lr_model = key, lr_supports_temperature = False, lr_error = take_chars 1000 err,
               lr_learned_at = now\<rparr>
      in if (case map_of l key of Some e \<Rightarrow> \<not> lr_supports_temperature (row e) | None \<Rightarrow> False)
         then (None, l)
         else (Some r, bt_insert key \<lparr>row = r, stripped = 0\<rparr> l))"

definition learned_remove :: "learned \<Rightarrow> string \<Rightarrow> bool \<times> learned" where
  "learned_remove l model = (map_of l (learned_key model) \<noteq> None, bt_remove (learned_key model) l)"

definition snapshot :: "learned \<Rightarrow> (learned_row \<times> nat) list" where
  "snapshot l = sort_key (\<lambda>v. lr_model (fst v)) (map (\<lambda>(_, e). (row e, stripped e)) l)"

text \<open>\<open>upsert\<close> is the repository write; a failed one is logged and leaves the store as it was.\<close>

definition record_temperature_rejection ::
  "(learned_row \<Rightarrow> 'd \<Rightarrow> string + 'd) \<Rightarrow> string \<Rightarrow> learned \<Rightarrow> 'd \<Rightarrow> string \<Rightarrow> anyhow \<Rightarrow> learned \<times> 'd" where
  "record_temperature_rejection upsert now l store model err =
     (case learn_temperature_rejected now l model (show_error err) of
        (None, l') \<Rightarrow> (l', store)
      | (Some r, l') \<Rightarrow> (l', (case upsert r store of Inl _ \<Rightarrow> store | Inr s \<Rightarrow> s)))"

definition temperature_allowed :: "string \<Rightarrow> capability_entry list \<Rightarrow> learned \<Rightarrow> bool" where
  "temperature_allowed model overrides l =
     (case temperature_override model overrides of
        Some configured \<Rightarrow> configured
      | None \<Rightarrow>
          (case learned_temperature l model of
             Some supported \<Rightarrow> supported
           | None \<Rightarrow> table_supports_temperature model))"

section \<open>Retrying a rejected temperature\<close>

definition is_temperature_rejection :: "anyhow \<Rightarrow> bool" where
  "is_temperature_rejection err =
     ((case classify_error err of ClientError _ \<Rightarrow> True | _ \<Rightarrow> False)
      \<and> contains_sub ''temperature'' (to_lower (show_error err)))"

definition temperature_rejection_retry :: "normalized_request \<Rightarrow> anyhow \<Rightarrow> normalized_request option" where
  "temperature_rejection_retry req err =
     (if nr_temperature req = None \<or> \<not> is_temperature_rejection err then None
      else Some (req\<lparr>nr_temperature := None\<rparr>))"

section \<open>Facts\<close>

lemma normalize_is_learned_key: "normalize_model_key = learned_key"
  by (simp add: fun_eq_iff normalize_model_key_def learned_key_def)

lemma learned_key_idem [simp]: "learned_key (learned_key m) = learned_key m"
proof -
  have "CHR ''/'' \<notin> set (to_lower (after_last CHR ''/'' m))" by simp
  then show ?thesis by (simp add: learned_key_def after_last_id)
qed

lemma learned_key_prefix [simp]: "CHR ''/'' \<notin> set m \<Longrightarrow> learned_key (p @ CHR ''/'' # m) = learned_key m"
  by (simp add: learned_key_def after_last_append after_last_id)

definition learned_ok :: "learned \<Rightarrow> bool" where
  "learned_ok l \<longleftrightarrow> bt_ok l \<and> (\<forall>(k, e) \<in> set l. lr_model (row e) = k)"

lemma learned_ok_bt: "learned_ok l \<Longrightarrow> bt_ok l"
  by (simp add: learned_ok_def)

lemma learned_ok_insert: "learned_ok l \<Longrightarrow> lr_model (row e) = k \<Longrightarrow> learned_ok (bt_insert k e l)"
  using set_bt_insert [of k e l] by (auto simp: learned_ok_def bt_ok_insert)

lemma learned_ok_replace_all: "learned_ok (replace_all rows)"
proof -
  have ind: "learned_ok l \<Longrightarrow> (\<And>k e. (k, e) \<in> set kvs \<Longrightarrow> lr_model (row e) = k) \<Longrightarrow>
      learned_ok (fold (\<lambda>(k, v). bt_insert k v) kvs l)" for kvs l
    by (induction kvs arbitrary: l) (auto intro: learned_ok_insert)
  show ?thesis
    unfolding replace_all_def bt_from_list_def by (rule ind) (auto simp: learned_ok_def)
qed

lemma learned_get_Some: "learned_ok l \<Longrightarrow> learned_get l m = Some e \<Longrightarrow> lr_model (row e) = learned_key m"
  by (auto simp: learned_get_def learned_ok_def dest!: map_of_SomeD)

lemma learned_ok_note_stripped: "learned_ok l \<Longrightarrow> learned_ok (note_stripped l m)"
  by (auto simp: note_stripped_def learned_get_Some intro!: learned_ok_insert split: option.splits)

lemma learned_ok_learn: "learned_ok l \<Longrightarrow> learned_ok (snd (learn_temperature_rejected now l m err))"
  by (auto simp: learn_temperature_rejected_def Let_def intro!: learned_ok_insert)

lemma learned_ok_remove: "learned_ok l \<Longrightarrow> learned_ok (snd (learned_remove l m))"
  using set_bt_remove [of "learned_key m" l] by (auto simp: learned_remove_def learned_ok_def bt_ok_remove)

lemma learned_after_learn:
  assumes "learned_ok l" and "learned_key m' = learned_key m"
  shows "learned_temperature (snd (learn_temperature_rejected now l m err)) m' = Some False"
  using assms
  by (auto simp: learn_temperature_rejected_def learned_temperature_def learned_get_def Let_def
      bt.look_ins learned_ok_bt split: option.splits)

lemma learned_after_learn_other:
  assumes "learned_ok l" and "learned_key m' \<noteq> learned_key m"
  shows "learned_temperature (snd (learn_temperature_rejected now l m err)) m' = learned_temperature l m'"
  using assms
  by (auto simp: learn_temperature_rejected_def learned_temperature_def learned_get_def Let_def
      bt.look_ins learned_ok_bt)

lemma learned_temperature_note [simp]:
  "learned_ok l \<Longrightarrow> learned_temperature (note_stripped l m) m' = learned_temperature l m'"
  by (auto simp: note_stripped_def learned_temperature_def learned_get_def bt.look_ins learned_ok_bt
      split: option.splits)

lemma effort_control_Some:
  "effort_control caps lv = Some rc \<Longrightarrow> supports_effort caps \<and> \<not> disable_thinking rc \<and> effort rc = Some lv"
  by (auto simp: effort_control_def split: if_splits)

lemma resolve_reasoning_accepted:
  assumes "resolve_reasoning m r ov = Some rc"
  shows "(disable_thinking rc \<longrightarrow>
            thinks_by_default (thinking_capabilities m ov) \<and> can_disable_thinking (thinking_capabilities m ov)
            \<and> effort rc = None)
       \<and> (effort rc \<noteq> None \<longrightarrow> supports_effort (thinking_capabilities m ov) \<and> \<not> disable_thinking rc)
       \<and> (disable_thinking rc \<or> effort rc \<noteq> None)"
  using assms unfolding resolve_reasoning_def Let_def
  by (auto split: option.splits if_splits dest!: effort_control_Some)


lemma learned_ok_record:
  "learned_ok l \<Longrightarrow> learned_ok (fst (record_temperature_rejection up now l store m err))"
  using learned_ok_learn [of l now m "show_error err"]
  by (auto simp: record_temperature_rejection_def split: prod.splits option.splits)

lemma record_learned:
  "fst (record_temperature_rejection up now l store m err) = snd (learn_temperature_rejected now l m (show_error err))"
  by (auto simp: record_temperature_rejection_def split: prod.splits option.splits)

text \<open>What happens to the learned set between two requests: other rejections and strips.\<close>

inductive learned_step :: "learned \<Rightarrow> learned \<Rightarrow> bool" where
  "learned_step l (fst (record_temperature_rejection up now l (store :: unit) m err))"
| "learned_step l (note_stripped l m)"

lemma learned_step_keeps:
  "learned_step l l' \<Longrightarrow> learned_ok l \<Longrightarrow>
    learned_ok l' \<and> (learned_temperature l m = Some False \<longrightarrow> learned_temperature l' m = Some False)"
proof (induction rule: learned_step.induct)
  case (1 l up now store m' err)
  then show ?case
    using learned_ok_record [of l up now store m' err]
      learned_after_learn [of l m m'] learned_after_learn_other [of l m m']
    by (cases "learned_key m = learned_key m'") (auto simp: record_learned)
next
  case (2 l m')
  then show ?case by (simp add: learned_ok_note_stripped)
qed

section \<open>Properties\<close>

text \<open>
  Once a provider has rejected \<open>temperature\<close> for a model, no later request under any name
  with the same key (any provider prefix, any case) is sent one, whatever else is learned in
  between, unless the operator's override says the model takes it.
\<close>

theorem rejected_temperature_stays_off:
  assumes "learned_ok l"
    and "learned_step\<^sup>*\<^sup>* (fst (record_temperature_rejection up now l (store :: unit) m err)) l'"
    and "learned_key m' = learned_key m"
  shows "temperature_allowed m' overrides l' \<longleftrightarrow> temperature_override m' overrides = Some True"
proof -
  let ?l1 = "fst (record_temperature_rejection up now l store m err)"
  have "learned_ok ?l1 \<and> learned_temperature ?l1 m' = Some False"
    using assms(1,3) learned_after_learn [of l m' m] by (simp add: learned_ok_learn record_learned)
  with assms(2) have "learned_ok l' \<and> learned_temperature l' m' = Some False"
    by (induction rule: rtranclp_induct) (auto dest: learned_step_keeps)
  then show ?thesis by (auto simp: temperature_allowed_def split: option.splits)
qed

theorem rejected_temperature_stays_off_witness:
  "\<not> temperature_allowed ''azure/O1-Mini'' []
      (fst (record_temperature_rejection (\<lambda>r d. Inl ''down'') ''t0'' [] () ''openai/o1-mini'' (error_msg ''e'')))"
proof -
  have "learned_ok []" by (simp add: learned_ok_def)
  moreover have "learned_key ''azure/O1-Mini'' = learned_key ''openai/o1-mini''"
    by code_simp
  ultimately show ?thesis
    using rejected_temperature_stays_off [of "[]" "\<lambda>r d. Inl ''down''" "''t0''" "()" "''openai/o1-mini''"
        "error_msg ''e''" _ "''azure/O1-Mini''" "[]"]
    by (simp add: temperature_override_def find_override_def candidates_def Let_def)
qed

text \<open>
  A reasoning control is only ever sent to a model that accepts it: thinking is switched
  off only where the model thinks by default and can be switched off, an effort level goes only
  to a model that supports effort, the two are never combined, and the control is never empty.
\<close>

theorem reasoning_control_accepted:
  assumes "resolve_reasoning m r ov = Some rc"
  shows "let caps = thinking_capabilities m ov in
    if disable_thinking rc then thinks_by_default caps \<and> can_disable_thinking caps \<and> effort rc = None
    else supports_effort caps \<and> effort rc \<noteq> None"
  using resolve_reasoning_accepted [OF assms] by (auto simp: Let_def)

theorem reasoning_control_accepted_witness:
  "resolve_reasoning ''anthropic/claude-sonnet-5'' (Some ''None'') []
     = Some \<lparr>disable_thinking = True, effort = None\<rparr>
   \<and> can_disable_thinking (thinking_capabilities ''anthropic/claude-sonnet-5'' [])"
proof -
  have r: "resolve_reasoning ''anthropic/claude-sonnet-5'' (Some ''None'') []
     = Some \<lparr>disable_thinking = True, effort = None\<rparr>"
    by code_simp
  from reasoning_control_accepted [OF r] r show ?thesis by (simp add: Let_def)
qed

end
