(* ===== verification/Availability.thy ===== *)
theory Availability
  imports Ordered_Maps
begin

text \<open>
  Operator-controlled availability (\<open>src/src/router/availability.rs\<close>): the snapshot of
  models and providers an administrator has taken out of rotation, the check every
  dispatch passes, and the message of the 403 it produces.
\<close>

record disable_info =
  reason :: "string option"
  disabled_by :: "string option"
  disabled_at :: "string option"

record unavailable =
  scope :: string
  target :: string
  info :: disable_info

text \<open>\<open>Option::filter(|b| !b.is_empty())\<close>.\<close>

definition non_empty :: "string option \<Rightarrow> string option" where
  "non_empty x = (case x of Some s \<Rightarrow> if s = [] then None else Some s | None \<Rightarrow> None)"

definition disabled_suffix :: "disable_info \<Rightarrow> string" where
  "disabled_suffix i =
     (case non_empty (disabled_by i) of
        None \<Rightarrow> []
      | Some b \<Rightarrow>
          '' (disabled by '' @ b @
          (case non_empty (disabled_at i) of None \<Rightarrow> [] | Some a \<Rightarrow> '' at '' @ a) @ '')'')"

definition effective_reason :: "disable_info \<Rightarrow> string" where
  "effective_reason i =
     (case reason i of
        Some r \<Rightarrow> if trim r = [] then ''no reason recorded'' else r
      | None \<Rightarrow> ''no reason recorded'')"

definition unavailable_message :: "unavailable \<Rightarrow> string" where
  "unavailable_message u =
     (scope u @ '' '' @ quoted (target u) @ '' has been disabled by an administrator: '') @
     effective_reason (info u) @ disabled_suffix (info u)"

record availability_map =
  disabled_models :: "string \<rightharpoonup> disable_info"
  disabled_providers :: "string \<rightharpoonup> disable_info"

definition empty_availability :: availability_map where
  "empty_availability = \<lparr>disabled_models = Map.empty, disabled_providers = Map.empty\<rparr>"

definition model_key :: "string \<Rightarrow> string \<Rightarrow> string" where
  "model_key p m = p @ ''/'' @ m"

definition check :: "availability_map \<Rightarrow> string \<Rightarrow> string \<Rightarrow> unavailable + unit" where
  "check am p m =
     (case disabled_providers am p of
        Some i \<Rightarrow> Inl \<lparr>scope = ''provider'', target = p, info = i\<rparr>
      | None \<Rightarrow>
          (case disabled_models am (model_key p m) of
             Some i \<Rightarrow> Inl \<lparr>scope = ''model'', target = model_key p m, info = i\<rparr>
           | None \<Rightarrow> Inr ()))"

definition is_available :: "availability_map \<Rightarrow> string \<Rightarrow> string \<Rightarrow> bool" where
  "is_available am p m \<longleftrightarrow> (case check am p m of Inr _ \<Rightarrow> True | Inl _ \<Rightarrow> False)"

section \<open>The gate\<close>

lemma check_cases:
  "check am p m =
     (if disabled_providers am p \<noteq> None
      then Inl \<lparr>scope = ''provider'', target = p, info = the (disabled_providers am p)\<rparr>
      else if disabled_models am (model_key p m) \<noteq> None
      then Inl \<lparr>scope = ''model'', target = model_key p m, info = the (disabled_models am (model_key p m))\<rparr>
      else Inr ())"
  by (auto simp: check_def split: option.splits)

lemma is_available_iff:
  "is_available am p m \<longleftrightarrow> disabled_providers am p = None \<and> disabled_models am (model_key p m) = None"
  by (auto simp: is_available_def check_def split: option.splits)

lemma check_Inr: "check am p m = Inr u \<longleftrightarrow> is_available am p m"
  by (cases "check am p m") (auto simp: is_available_def)

text \<open>
  A provider name holds no slash (it is what precedes the first one), so \<open>provider/model\<close>
  keys of different pairs never collide.
\<close>

lemma model_key_inject:
  assumes "CHR ''/'' \<notin> set p" and "CHR ''/'' \<notin> set q"
  shows "model_key p m = model_key q n \<longleftrightarrow> p = q \<and> m = n"
proof
  assume eq: "model_key p m = model_key q n"
  have "split_once CHR ''/'' (model_key p m) = Some (p, m)"
    using assms(1) by (simp add: split_once_Some model_key_def)
  moreover have "split_once CHR ''/'' (model_key q n) = Some (q, n)"
    using assms(2) by (simp add: split_once_Some model_key_def)
  ultimately have "Some (p, m) = Some (q, n)" unfolding eq by (rule subst)
  then show "p = q \<and> m = n" by blast
next
  assume "p = q \<and> m = n"
  then show "model_key p m = model_key q n" by blast
qed

lemma disable_model_frame:
  assumes "CHR ''/'' \<notin> set p" and "CHR ''/'' \<notin> set q" and "(p, m) \<noteq> (q, n)"
  shows "is_available (am\<lparr>disabled_models := (disabled_models am)(model_key p m \<mapsto> i)\<rparr>) q n
    = is_available am q n"
proof -
  have "model_key q n \<noteq> model_key p m"
    using assms model_key_inject [of q p n m] by auto
  then show ?thesis by (simp add: is_available_iff)
qed

text \<open>The reason an operator recorded is part of every refusal.\<close>

lemma message_names_reason:
  assumes "reason (info u) = Some r" and "trim r \<noteq> []"
  shows "contains_sub r (unavailable_message u)"
proof -
  have "effective_reason (info u) = r"
    using assms by (simp add: effective_reason_def)
  then show ?thesis
    unfolding contains_sub_iff unavailable_message_def by blast
qed


section \<open>Properties\<close>

definition disable_model :: "availability_map \<Rightarrow> string \<Rightarrow> string \<Rightarrow> disable_info \<Rightarrow> availability_map" where
  "disable_model am p m i = am\<lparr>disabled_models := (disabled_models am)(model_key p m \<mapsto> i)\<rparr>"

text \<open>
  Taking one model out of rotation refuses exactly that provider's model from then on,
  naming it and the recorded reason, and changes no other pair's availability, slashes in
  model names notwithstanding.
\<close>

theorem disabling_a_model_is_exact:
  assumes "CHR ''/'' \<notin> set p" and "CHR ''/'' \<notin> set q"
    and "disabled_providers am p = None" and "reason i = Some r" and "trim r \<noteq> []"
  shows "(case check (disable_model am p m i) p m of
            Inl u \<Rightarrow> target u = model_key p m \<and> contains_sub r (unavailable_message u)
          | Inr _ \<Rightarrow> False)
    \<and> is_available (disable_model am p m i) q n = (is_available am q n \<and> (q, n) \<noteq> (p, m))"
proof
  have c: "check (disable_model am p m i) p m = Inl \<lparr>scope = ''model'', target = model_key p m, info = i\<rparr>"
    using assms(3) by (simp add: check_cases disable_model_def)
  show "case check (disable_model am p m i) p m of
            Inl u \<Rightarrow> target u = model_key p m \<and> contains_sub r (unavailable_message u)
          | Inr _ \<Rightarrow> False"
    unfolding c using message_names_reason [of "\<lparr>scope = ''model'', target = model_key p m, info = i\<rparr>" r] assms(4,5)
    by simp
  show "is_available (disable_model am p m i) q n = (is_available am q n \<and> (q, n) \<noteq> (p, m))"
  proof (cases "(q, n) = (p, m)")
    case True
    then show ?thesis by (simp add: is_available_iff disable_model_def)
  next
    case False
    then have "(p, m) \<noteq> (q, n)" by auto
    from disable_model_frame [OF assms(1,2) this] False show ?thesis
      by (simp add: disable_model_def)
  qed
qed

theorem disabling_a_model_is_exact_witness:
  "is_available (disable_model empty_availability ''openrouter'' ''meta/llama''
      \<lparr>reason = Some ''cost'', disabled_by = None, disabled_at = None\<rparr>) ''openrouter'' ''meta/llama2''"
  using disabling_a_model_is_exact [of "''openrouter''" "''openrouter''" empty_availability
      "\<lparr>reason = Some ''cost'', disabled_by = None, disabled_at = None\<rparr>" "''cost''" "''meta/llama''" "''meta/llama2''"]
  by (simp add: empty_availability_def is_available_iff trim_def is_ws_def)

end
