(* ===== verification/Engine.thy ===== *)
theory Engine
  imports Availability Capabilities
begin

text \<open>
  Model resolution (\<open>src/src/router/engine.rs\<close>) and the guard against silent
  substitution (\<open>src/src/api/routes/mod.rs\<close>). The \<open>ArcSwap\<close> cells of the router are fields
  that are replaced as a whole, so a request reads one consistent snapshot.
\<close>

record routing_config =
  default_provider :: string
  default_model :: string
  model_aliases :: "string \<rightharpoonup> string"
  fastest :: "string option"
  cheapest :: "string option"
  strict_model_resolution :: bool

record request_router =
  routing :: routing_config
  db_aliases :: "string \<rightharpoonup> string"
  availability :: availability_map
  learned_caps :: learned

record resolution =
  res_provider :: string
  res_model :: string
  substituted :: bool

definition new_router :: "routing_config \<Rightarrow> request_router" where
  "new_router cfg =
     \<lparr>routing = cfg, db_aliases = Map.empty, availability = empty_availability, learned_caps = []\<rparr>"

definition update_db_aliases :: "request_router \<Rightarrow> (string \<rightharpoonup> string) \<Rightarrow> request_router" where
  "update_db_aliases r m = r\<lparr>db_aliases := m\<rparr>"

definition update_availability :: "request_router \<Rightarrow> availability_map \<Rightarrow> request_router" where
  "update_availability r am = r\<lparr>availability := am\<rparr>"

definition alias_map :: "request_router \<Rightarrow> (string \<rightharpoonup> string)" where
  "alias_map r = model_aliases (routing r) ++ db_aliases r"

definition check_available :: "request_router \<Rightarrow> string \<Rightarrow> string \<Rightarrow> unavailable + unit" where
  "check_available r p m = check (availability r) p m"

definition router_is_available :: "request_router \<Rightarrow> string \<Rightarrow> string \<Rightarrow> bool" where
  "router_is_available r p m = is_available (availability r) p m"

definition max_alias_depth :: nat where
  "max_alias_depth = 10"

definition after_shortcut :: "routing_config \<Rightarrow> string \<Rightarrow> string" where
  "after_shortcut cfg req =
     (if req = '':fastest'' then (case fastest cfg of Some t \<Rightarrow> t | None \<Rightarrow> req)
      else if req = '':cheapest'' then (case cheapest cfg of Some t \<Rightarrow> t | None \<Rightarrow> req)
      else req)"

text \<open>
  The \<open>while depth < MAX_ALIAS_DEPTH\<close> loop; the first argument is what is left of the depth.
  \<open>Inr\<close> is the return from inside the loop, \<open>Inl current\<close> the state behind it.
\<close>

fun alias_loop ::
  "nat \<Rightarrow> (string \<rightharpoonup> string) \<Rightarrow> (string \<rightharpoonup> string) \<Rightarrow> string \<Rightarrow> string + (string \<times> string)" where
  "alias_loop 0 db cfg cur = Inl cur"
| "alias_loop (Suc n) db cfg cur =
     (case db cur of
        Some r \<Rightarrow> alias_loop n db cfg r
      | None \<Rightarrow>
          (case cfg cur of
             Some r \<Rightarrow> alias_loop n db cfg r
           | None \<Rightarrow>
               (case split_once CHR ''/'' cur of
                  Some pm \<Rightarrow> Inr pm
                | None \<Rightarrow> Inl cur)))"

definition resolve_inner :: "request_router \<Rightarrow> string \<Rightarrow> string \<times> string \<times> bool" where
  "resolve_inner r req =
     (case alias_loop max_alias_depth (db_aliases r) (model_aliases (routing r))
             (after_shortcut (routing r) req) of
        Inr (p, m) \<Rightarrow> (p, m, False)
      | Inl cur \<Rightarrow>
          (case split_once CHR ''/'' cur of
             Some (p, m) \<Rightarrow> (p, m, False)
           | None \<Rightarrow>
               (case split_once CHR ''/'' (default_model (routing r)) of
                  Some (p, m) \<Rightarrow> (p, m, True)
                | None \<Rightarrow> (default_provider (routing r), default_model (routing r), True))))"

definition resolve_detailed :: "request_router \<Rightarrow> string \<Rightarrow> resolution" where
  "resolve_detailed r req =
     (let (p, m, s) = resolve_inner r req in \<lparr>res_provider = p, res_model = m, substituted = s\<rparr>)"

definition resolve :: "request_router \<Rightarrow> string \<Rightarrow> string \<times> string" where
  "resolve r req = (let (p, m, _) = resolve_inner r req in (p, m))"

section \<open>Refinement: following the merged alias map\<close>

text \<open>
  What resolution promises: follow the merged alias view (the one \<open>/v1/models\<close> lists) at
  most ten times, then split at the first slash.
\<close>

fun chase :: "nat \<Rightarrow> (string \<rightharpoonup> string) \<Rightarrow> string \<Rightarrow> string" where
  "chase 0 al s = s"
| "chase (Suc n) al s = (case al s of Some t \<Rightarrow> chase n al t | None \<Rightarrow> s)"

definition resolution_spec :: "request_router \<Rightarrow> string \<Rightarrow> string \<times> string \<times> bool" where
  "resolution_spec r req =
     (case split_once CHR ''/'' (chase 10 (alias_map r) (after_shortcut (routing r) req)) of
        Some (p, m) \<Rightarrow> (p, m, False)
      | None \<Rightarrow>
          (case split_once CHR ''/'' (default_model (routing r)) of
             Some (p, m) \<Rightarrow> (p, m, True)
           | None \<Rightarrow> (default_provider (routing r), default_model (routing r), True)))"

lemma alias_loop_chase:
  "(case alias_loop n db cfg s of
      Inr pm \<Rightarrow> split_once CHR ''/'' (chase n (cfg ++ db) s) = Some pm
    | Inl cur \<Rightarrow> chase n (cfg ++ db) s = cur)"
  by (induction n db cfg s rule: alias_loop.induct) (auto simp: map_add_def split: option.splits sum.splits)

lemma resolve_inner_spec: "resolve_inner r req = resolution_spec r req"
  using alias_loop_chase [where n = max_alias_depth and db = "db_aliases r"
      and cfg = "model_aliases (routing r)" and s = "after_shortcut (routing r) req"]
  unfolding resolve_inner_def resolution_spec_def alias_map_def max_alias_depth_def
  by (auto split: sum.splits)

lemma chase_fixed: "al s = None \<Longrightarrow> chase n al s = s"
  by (cases n) auto

lemma chase_add: "chase (m + n) al s = chase n al (chase m al s)"
  by (induction m arbitrary: s) (auto simp: chase_fixed split: option.splits)

lemma chase_enough: "al (chase m al s) = None \<Longrightarrow> m \<le> n \<Longrightarrow> chase n al s = chase m al s"
  using chase_add [of m "n - m" al s] by (simp add: chase_fixed)

text \<open>An alias cycle: no name of the walk ever leaves a set that the map sends into itself.\<close>

lemma chase_closed: "s \<in> C \<Longrightarrow> (\<And>x. x \<in> C \<Longrightarrow> \<exists>y \<in> C. al x = Some y) \<Longrightarrow> chase n al s \<in> C"
proof (induction n arbitrary: s)
  case (Suc n)
  then obtain y where "y \<in> C" "al s = Some y" by blast
  with Suc show ?case by simp
qed simp

lemma resolve_provider_no_slash:
  assumes "CHR ''/'' \<notin> set (default_provider (routing r))"
  shows "CHR ''/'' \<notin> set (fst (resolve r req))"
  using assms unfolding resolve_def resolve_inner_spec resolution_spec_def
  by (auto simp: split_once_Some split: option.splits)

section \<open>The substitution guard\<close>

datatype api_error =
    Unauthorized
  | Forbidden
  | ProviderError anyhow
  | InvalidRequest string
  | PolicyDenied string nat
  | Disabled string
  | Internal

definition substitution_refused_msg :: "string \<Rightarrow> string \<Rightarrow> string" where
  "substitution_refused_msg req model =
     ''model '' @ quoted req @ '' is not a configured alias and names no provider; refusing to substitute '' @
     quoted model @ '' for it. Add it to [routing.model_aliases], request it as '' @
     quoted ''provider/model'' @ '', or disable routing.strict_model_resolution.''"

definition guard_model_substitution :: "request_router \<Rightarrow> string \<Rightarrow> api_error + unit" where
  "guard_model_substitution r req =
     (let res = resolve_detailed r req
      in if \<not> substituted res then Inr ()
         else if strict_model_resolution (routing r)
         then Inl (InvalidRequest (substitution_refused_msg req (res_model res)))
         else Inr ())"

lemma guard_strict:
  assumes "strict_model_resolution (routing r)" and "guard_model_substitution r req = Inr u"
  shows "\<not> substituted (resolve_detailed r req)"
  using assms by (auto simp: guard_model_substitution_def Let_def split: if_splits)

lemma not_substituted_chase:
  "substituted (resolve_detailed r req) \<longleftrightarrow>
     CHR ''/'' \<notin> set (chase 10 (alias_map r) (after_shortcut (routing r) req))"
  by (auto simp: resolve_detailed_def resolve_inner_spec resolution_spec_def split_once_Some split_once_None
      split: option.splits prod.splits)


section \<open>Properties\<close>

text \<open>A walk of \<open>k\<close> alias hops from one name to another.\<close>

inductive alias_path :: "(string \<rightharpoonup> string) \<Rightarrow> nat \<Rightarrow> string \<Rightarrow> string \<Rightarrow> bool" for al where
  here: "alias_path al 0 s s"
| hop: "al s = Some t \<Longrightarrow> alias_path al k t u \<Longrightarrow> alias_path al (Suc k) s u"

lemma alias_path_chase: "alias_path al k s t \<Longrightarrow> chase k al s = t"
  by (induction rule: alias_path.induct) auto

definition default_resolution :: "routing_config \<Rightarrow> resolution" where
  "default_resolution cfg =
     (case split_once CHR ''/'' (default_model cfg) of
        Some (p, m) \<Rightarrow> \<lparr>res_provider = p, res_model = m, substituted = True\<rparr>
      | None \<Rightarrow>
          \<lparr>res_provider = default_provider cfg, res_model = default_model cfg, substituted = True\<rparr>)"

lemma resolve_detailed_chased:
  "resolve_detailed r req =
     (case split_once CHR ''/'' (chase 10 (alias_map r) (after_shortcut (routing r) req)) of
        Some (p, m) \<Rightarrow> \<lparr>res_provider = p, res_model = m, substituted = False\<rparr>
      | None \<Rightarrow> default_resolution (routing r))"
  by (auto simp: resolve_detailed_def resolve_inner_spec resolution_spec_def default_resolution_def
      split: option.splits)

definition sample_config :: routing_config where
  "sample_config =
     \<lparr>default_provider = ''anthropic'', default_model = ''claude-sonnet-5'',
      model_aliases = [''smart'' \<mapsto> ''best'', ''best'' \<mapsto> ''openai/gpt-4o'', ''a'' \<mapsto> ''b''],
      fastest = Some ''smart'', cheapest = None, strict_model_resolution = True\<rparr>"

definition sample_router :: request_router where
  "sample_router =
     (new_router sample_config)\<lparr>db_aliases := [''best'' \<mapsto> ''groq/llama/8b'', ''b'' \<mapsto> ''a'']\<rparr>"

lemma sample_aliases [simp]:
  "alias_map sample_router ''smart'' = Some ''best''"
  "alias_map sample_router ''best'' = Some ''groq/llama/8b''"
  "alias_map sample_router ''groq/llama/8b'' = None"
  "alias_map sample_router ''a'' = Some ''b''"
  "alias_map sample_router ''b'' = Some ''a''"
  by (simp_all add: alias_map_def sample_router_def sample_config_def new_router_def map_add_def)

lemma sample_shortcuts [simp]:
  "after_shortcut (routing sample_router) '':fastest'' = ''smart''"
  "after_shortcut (routing sample_router) ''a'' = ''a''"
  by (simp_all add: after_shortcut_def sample_router_def sample_config_def new_router_def)



text \<open>
  A request whose aliases run in circles among names without a slash terminates in the
  configured default, flagged as a substitution.
\<close>

theorem alias_cycle_falls_to_default:
  assumes "after_shortcut (routing r) req \<in> C"
    and "\<And>x. x \<in> C \<Longrightarrow> CHR ''/'' \<notin> set x \<and> (\<exists>y \<in> C. alias_map r x = Some y)"
  shows "resolve_detailed r req = default_resolution (routing r)"
proof -
  have "chase 10 (alias_map r) (after_shortcut (routing r) req) \<in> C"
    using assms by (intro chase_closed) auto
  then have "split_once CHR ''/'' (chase 10 (alias_map r) (after_shortcut (routing r) req)) = None"
    using assms(2) by (simp add: split_once_None)
  then show ?thesis by (simp add: resolve_detailed_chased)
qed

theorem alias_cycle_witness:
  "resolve_detailed sample_router ''a'' = default_resolution sample_config"
proof -
  have "resolve_detailed sample_router ''a'' = default_resolution (routing sample_router)"
    by (rule alias_cycle_falls_to_default [of _ _ "{''a'', ''b''}"]) auto
  then show ?thesis by (simp add: sample_router_def new_router_def)
qed



end
