(* ===== verification/Load_Balancer.thy ===== *)
theory Load_Balancer
  imports Prelude "HOL-Library.Multiset"
begin

text \<open>
  Named pools with (weighted) round robin (\<open>src/src/router/load_balancer.rs\<close>). The pool's
  position is an \<open>AtomicUsize\<close>: a 64-bit counter that wraps; \<open>fetch_add\<close> is one atomic step,
  so one scan is a sequence of such steps. The lookups of a \<open>HashMap\<close> of pools are a map.
\<close>

datatype lb_strategy = RoundRobin | Weighted

record lb_pool_entry =
  e_provider :: string
  e_model :: string
  weight :: nat

record load_balancer_config =
  strategy :: lb_strategy
  pool :: "lb_pool_entry list"

record lb_pool =
  expanded :: "nat list"
  entries :: "(string \<times> string) list"
  counter :: u64

definition weighted_indices :: "lb_pool_entry list \<Rightarrow> nat list" where
  "weighted_indices es = concat (map (\<lambda>(i, e). replicate (weight e) i) (enumerate 0 es))"

definition new_pool :: "load_balancer_config \<Rightarrow> lb_pool" where
  "new_pool cfg =
     \<lparr>expanded =
        (case strategy cfg of
           RoundRobin \<Rightarrow> [0..<length (pool cfg)]
         | Weighted \<Rightarrow> weighted_indices (pool cfg)),
      entries = map (\<lambda>e. (e_provider e, e_model e)) (pool cfg),
      counter = 0\<rparr>"

definition next_entry :: "lb_pool \<Rightarrow> (string \<times> string) option \<times> lb_pool" where
  "next_entry p =
     (if expanded p = [] then (None, p)
      else
        let idx = unat (counter p) mod length (expanded p);
            entry_idx = expanded p ! idx
        in (if entry_idx < length (entries p) then Some (entries p ! entry_idx) else None,
            p\<lparr>counter := counter p + 1\<rparr>))"

text \<open>The \<open>for _ in 0..self.expanded.len()\<close> scan; \<open>n\<close> is the number of rounds left.\<close>

fun next_where_loop ::
  "nat \<Rightarrow> (string \<times> string \<Rightarrow> bool) \<Rightarrow> lb_pool \<Rightarrow> (string \<times> string) option \<times> lb_pool" where
  "next_where_loop 0 accept p = (None, p)"
| "next_where_loop (Suc n) accept p =
     (case next_entry p of
        (None, p') \<Rightarrow> (None, p')
      | (Some c, p') \<Rightarrow> if accept c then (Some c, p') else next_where_loop n accept p')"

definition next_where :: "(string \<times> string \<Rightarrow> bool) \<Rightarrow> lb_pool \<Rightarrow> (string \<times> string) option \<times> lb_pool" where
  "next_where accept p =
     (if expanded p = [] then (None, p) else next_where_loop (length (expanded p)) accept p)"

type_synonym load_balancer = "string \<rightharpoonup> lb_pool"

definition new_balancer :: "(string \<rightharpoonup> load_balancer_config) \<Rightarrow> load_balancer" where
  "new_balancer cfgs = (\<lambda>n. map_option new_pool (cfgs n))"

definition lb_resolve :: "load_balancer \<Rightarrow> string \<Rightarrow> (string \<times> string) option \<times> load_balancer" where
  "lb_resolve lb model =
     (case lb model of
        None \<Rightarrow> (None, lb)
      | Some p \<Rightarrow> (let (c, p') = next_entry p in (c, lb(model \<mapsto> p'))))"

definition resolve_available ::
  "load_balancer \<Rightarrow> string \<Rightarrow> (string \<times> string \<Rightarrow> bool) \<Rightarrow> (string \<times> string) option \<times> load_balancer" where
  "resolve_available lb model accept =
     (case lb model of
        None \<Rightarrow> (None, lb)
      | Some p \<Rightarrow> (let (c, p') = next_where accept p in (c, lb(model \<mapsto> p'))))"

definition is_pool :: "load_balancer \<Rightarrow> string \<Rightarrow> bool" where
  "is_pool lb model \<longleftrightarrow> lb model \<noteq> None"

section \<open>Well-formed pools\<close>

definition pool_ok :: "lb_pool \<Rightarrow> bool" where
  "pool_ok p \<longleftrightarrow> (\<forall>i \<in> set (expanded p). i < length (entries p))"

lemma weighted_indices_bound: "i \<in> set (weighted_indices es) \<Longrightarrow> i < length es"
  by (auto simp: weighted_indices_def in_set_enumerate_eq)

lemma pool_ok_new [simp]: "pool_ok (new_pool cfg)"
  by (auto simp: pool_ok_def new_pool_def weighted_indices_bound split: lb_strategy.splits)

lemma next_entry_static [simp]:
  "expanded (snd (next_entry p)) = expanded p" "entries (snd (next_entry p)) = entries p"
  by (simp_all add: next_entry_def Let_def)

lemma next_entry_Some:
  assumes "pool_ok p" and "expanded p \<noteq> []"
  shows "next_entry p =
    (Some (entries p ! (expanded p ! (unat (counter p) mod length (expanded p)))), p\<lparr>counter := counter p + 1\<rparr>)"
proof -
  have "unat (counter p) mod length (expanded p) < length (expanded p)"
    using assms(2) by simp
  then have "expanded p ! (unat (counter p) mod length (expanded p)) < length (entries p)"
    using assms(1) by (auto simp: pool_ok_def)
  with assms(2) show ?thesis by (simp add: next_entry_def Let_def)
qed

text \<open>What position \<open>k\<close> of the ring serves.\<close>

definition slot :: "lb_pool \<Rightarrow> nat \<Rightarrow> string \<times> string" where
  "slot p k = entries p ! (expanded p ! (k mod length (expanded p)))"

lemma slot_counter [simp]: "slot (p\<lparr>counter := c\<rparr>) k = slot p k"
  by (simp add: slot_def)

lemma next_entry_slot:
  "pool_ok p \<Longrightarrow> expanded p \<noteq> [] \<Longrightarrow>
    next_entry p = (Some (slot p (unat (counter p))), p\<lparr>counter := counter p + 1\<rparr>)"
  by (simp add: next_entry_Some slot_def)

lemma slot_in_entries: "pool_ok p \<Longrightarrow> expanded p \<noteq> [] \<Longrightarrow> slot p k \<in> set (entries p)"
  by (auto simp: slot_def pool_ok_def)

lemma next_where_loop_accepted:
  "next_where_loop n accept p = (Some c, p') \<Longrightarrow> accept c"
  by (induction n accept p rule: next_where_loop.induct) (auto split: prod.splits option.splits if_splits)

lemma next_where_loop_member:
  "pool_ok p \<Longrightarrow> expanded p \<noteq> [] \<Longrightarrow> next_where_loop n accept p = (Some c, p') \<Longrightarrow> c \<in> set (entries p)"
proof (induction n arbitrary: p)
  case (Suc n)
  let ?q = "p\<lparr>counter := counter p + 1\<rparr>"
  have ok: "pool_ok ?q" "expanded ?q \<noteq> []" using Suc.prems by (simp_all add: pool_ok_def)
  show ?case
    using Suc.prems Suc.IH [OF ok]
    by (auto simp: next_entry_slot slot_in_entries split: if_splits)
qed simp

text \<open>
  A scan of \<open>n\<close> rounds that does not run over the end of the counter returns the first
  accepted position at or after the counter, and fails exactly when there is none.
\<close>

lemma unat_counter_Suc: "unat (c :: u64) + 1 < 2 ^ 64 \<Longrightarrow> unat (c + 1) = unat c + 1"
  by (simp add: unat_word_ariths)

lemma next_where_loop_None:
  assumes "pool_ok p" and "expanded p \<noteq> []" and "unat (counter p) + n \<le> 2 ^ 64"
  shows "fst (next_where_loop n accept p) = None \<longleftrightarrow> (\<forall>k < n. \<not> accept (slot p (unat (counter p) + k)))"
  using assms
proof (induction n arbitrary: p)
  case 0
  show ?case by simp
next
  case (Suc n)
  let ?q = "p\<lparr>counter := counter p + 1\<rparr>"
  have ok: "pool_ok ?q" "expanded ?q \<noteq> []" using Suc.prems by (simp_all add: pool_ok_def)
  have split: "(\<forall>k < Suc n. Q k) \<longleftrightarrow> Q 0 \<and> (\<forall>k < n. Q (Suc k))" for Q
    using less_Suc_eq_0_disj by auto
  show ?case
  proof (cases n)
    case 0
    with Suc.prems show ?thesis by (simp add: next_entry_slot)
  next
    case (Suc m)
    with Suc.prems have u: "unat (counter ?q) = unat (counter p) + 1"
      by (simp add: unat_counter_Suc)
    then have "unat (counter ?q) + n \<le> 2 ^ 64" using Suc.prems by simp
    from Suc.IH [OF ok this] u Suc.prems show ?thesis
      unfolding split by (simp add: next_entry_slot)
  qed
qed

lemma ring_covered:
  assumes "expanded p \<noteq> []"
  shows "(\<forall>k < length (expanded p). \<not> accept (slot p (c + k)))
    \<longleftrightarrow> (\<forall>i \<in> set (expanded p). \<not> accept (entries p ! i))"
proof
  assume L: "\<forall>k < length (expanded p). \<not> accept (slot p (c + k))"
  show "\<forall>i \<in> set (expanded p). \<not> accept (entries p ! i)"
  proof
    fix i assume "i \<in> set (expanded p)"
    then obtain j where j: "j < length (expanded p)" "expanded p ! j = i"
      by (auto simp: in_set_conv_nth)
    let ?n = "length (expanded p)"
    define k where "k = (j + ?n - c mod ?n) mod ?n"
    have kn: "k < ?n" using assms by (simp add: k_def)
    have "(c + k) mod ?n = (c mod ?n + (j + ?n - c mod ?n)) mod ?n"
      by (simp add: k_def mod_simps)
    also have "\<dots> = (j + ?n) mod ?n"
      using assms by (simp add: le_add2 less_imp_le trans_le_add2)
    also have "\<dots> = j" using j(1) by simp
    finally show "\<not> accept (entries p ! i)" using L kn j(2) by (auto simp: slot_def)
  qed
next
  assume R: "\<forall>i \<in> set (expanded p). \<not> accept (entries p ! i)"
  then show "\<forall>k < length (expanded p). \<not> accept (slot p (c + k))"
    using assms by (auto simp: slot_def)
qed

section \<open>Fairness over one turn of the ring\<close>

fun take_entries :: "nat \<Rightarrow> lb_pool \<Rightarrow> (string \<times> string) option list" where
  "take_entries 0 p = []"
| "take_entries (Suc n) p = (let (c, p') = next_entry p in c # take_entries n p')"

lemma take_entries_slots:
  assumes "pool_ok p" and "expanded p \<noteq> []" and "unat (counter p) + n \<le> 2 ^ 64"
  shows "take_entries n p = map (\<lambda>k. Some (slot p (unat (counter p) + k))) [0..<n]"
  using assms
proof (induction n arbitrary: p)
  case 0
  show ?case by simp
next
  case (Suc n)
  let ?q = "p\<lparr>counter := counter p + 1\<rparr>"
  have ok: "pool_ok ?q" "expanded ?q \<noteq> []" using Suc.prems by (simp_all add: pool_ok_def)
  have up: "[0..<Suc n] = 0 # map Suc [0..<n]" by (simp add: map_Suc_upt upt_conv_Cons del: upt_Suc)
  show ?case
  proof (cases n)
    case 0
    with Suc.prems show ?thesis by (simp add: next_entry_slot)
  next
    case (Suc m)
    with Suc.prems have u: "unat (counter ?q) = unat (counter p) + 1"
      by (simp add: unat_counter_Suc)
    then have "unat (counter ?q) + n \<le> 2 ^ 64" using Suc.prems by simp
    from Suc.IH [OF ok this] u Suc.prems show ?thesis
      unfolding up by (simp add: next_entry_slot)
  qed
qed

lemma take_entries_turn:
  assumes "pool_ok p" and "expanded p \<noteq> []" and "counter p = 0" and "length (expanded p) \<le> 2 ^ 64"
  shows "take_entries (length (expanded p)) p = map (\<lambda>i. Some (entries p ! i)) (expanded p)"
proof -
  have "take_entries (length (expanded p)) p = map (\<lambda>k. Some (slot p k)) [0..<length (expanded p)]"
    using take_entries_slots [OF assms(1,2), of "length (expanded p)"] assms(3,4) by simp
  also have "\<dots> = map (\<lambda>k. Some (entries p ! (expanded p ! k))) [0..<length (expanded p)]"
    by (rule map_cong) (auto simp: slot_def)
  also have "\<dots> = map (\<lambda>i. Some (entries p ! i)) (map ((!) (expanded p)) [0..<length (expanded p)])"
    by simp
  finally show ?thesis by (simp only: map_nth)
qed

lemma count_replicate: "count_list (replicate w i) j = (if i = j then w else 0)"
  by (induction w) auto

lemma count_weighted_from:
  "count_list (concat (map (\<lambda>(i, e). replicate (weight e) i) (enumerate n es))) j =
     (if n \<le> j \<and> j < n + length es then weight (es ! (j - n)) else 0)"
proof (induction es arbitrary: n)
  case (Cons e es)
  consider "j < n" | "j = n" | "n < j" by linarith
  then show ?case
  proof cases
    case 3
    then have "(e # es) ! (j - n) = es ! (j - Suc n)" by (simp add: nth_Cons' )
    with 3 show ?thesis by (simp add: count_replicate Cons.IH)
  next
    case 2
    then show ?thesis using Cons.IH [of "Suc n"] by (simp add: count_replicate)
  next
    case 1
    then show ?thesis using Cons.IH [of "Suc n"] by (simp add: count_replicate)
  qed
qed simp

lemma count_weighted: "j < length es \<Longrightarrow> count_list (weighted_indices es) j = weight (es ! j)"
  by (simp add: weighted_indices_def count_weighted_from)


text \<open>A full turn of the ring from any position serves the multiset of the expanded ring.\<close>

lemma rotate_upt: "map (\<lambda>k. (c + k) mod n) [0..<n] = rotate c [0..<n]"
  by (rule nth_equalityI) (auto simp: nth_rotate add.commute)

lemma mset_rotate_nat: "mset (rotate c xs) = mset xs"
proof -
  have "mset (rotate c xs) = mset (take (c mod length xs) xs @ drop (c mod length xs) xs)"
    by (simp only: rotate_drop_take mset_append add.commute)
  then show ?thesis by simp
qed

lemma take_entries_any_turn:
  assumes "pool_ok p" and "expanded p \<noteq> []" and "unat (counter p) + length (expanded p) \<le> 2 ^ 64"
  shows "mset (take_entries (length (expanded p)) p) = mset (map (\<lambda>i. Some (entries p ! i)) (expanded p))"
proof -
  let ?n = "length (expanded p)" and ?c = "unat (counter p)"
  let ?f = "\<lambda>j. Some (entries p ! (expanded p ! j))"
  have "take_entries ?n p = map (\<lambda>k. Some (slot p (?c + k))) [0..<?n]"
    by (rule take_entries_slots [OF assms])
  also have "\<dots> = map ?f (map (\<lambda>k. (?c + k) mod ?n) [0..<?n])" by (simp add: slot_def)
  finally have "mset (take_entries ?n p) = image_mset ?f (mset (rotate ?c [0..<?n]))"
    by (simp only: rotate_upt mset_map)
  also have "\<dots> = mset (map (\<lambda>i. Some (entries p ! i)) (map ((!) (expanded p)) [0..<?n]))"
    by (simp add: mset_rotate_nat image_mset.compositionality comp_def)
  finally show ?thesis by (simp only: map_nth)
qed

lemma count_weighted_pairs:
  "count (mset (map (\<lambda>i. Some (f i)) (concat (map (\<lambda>(i, e). replicate (w e) i) (enumerate n es))))) (Some x)
     = sum_list (map (\<lambda>(i, e). if f i = x then w e else 0) (enumerate n es))"
  by (induction es arbitrary: n) (auto simp: map_concat)

lemma sum_enumerate:
  "sum_list (map (\<lambda>(i, e). g (es ! i) e) (enumerate 0 es)) = sum_list (map (\<lambda>e. g e e) es)"
proof -
  have "map (\<lambda>(i, e). g (es ! i) e) (enumerate 0 es) = map (\<lambda>e. g e e) es"
    by (rule nth_equalityI) (auto simp: nth_enumerate_eq)
  then show ?thesis by (simp only:)
qed

section \<open>Properties\<close>

definition sample_lb_config :: load_balancer_config where
  "sample_lb_config =
     \<lparr>strategy = Weighted,
      pool = [\<lparr>e_provider = ''openai'', e_model = ''gpt-4o'', weight = 2\<rparr>,
              \<lparr>e_provider = ''groq'', e_model = ''llama'', weight = 1\<rparr>]\<rparr>"

text \<open>
  A draw that filters by availability returns only a pool entry the filter accepts, leaves
  every other pool alone, and comes back empty exactly when no entry of the ring is accepted,
  as long as the scan does not run over the end of the 64-bit counter.
\<close>

theorem available_draw_correct:
  assumes "lb name = Some p" and "pool_ok p" and "expanded p \<noteq> []"
    and "unat (counter p) + length (expanded p) \<le> 2 ^ 64"
  shows "(case resolve_available lb name accept of
      (Some c, lb') \<Rightarrow> accept c \<and> c \<in> set (entries p) \<and> (\<forall>q. q = name \<or> lb' q = lb q)
    | (None, lb') \<Rightarrow> (\<forall>i \<in> set (expanded p). \<not> accept (entries p ! i)))"
proof (cases "next_where accept p")
  case (Pair c p')
  then have loop: "next_where_loop (length (expanded p)) accept p = (c, p')"
    using assms(3) by (simp add: next_where_def)
  show ?thesis
  proof (cases c)
    case None
    then have "\<forall>k < length (expanded p). \<not> accept (slot p (unat (counter p) + k))"
      using next_where_loop_None [OF assms(2-4), of accept] loop by simp
    then show ?thesis
      using ring_covered [OF assms(3)] None Pair assms(1) by (simp add: resolve_available_def)
  next
    case (Some e)
    then show ?thesis
      using next_where_loop_accepted [of _ accept p e p'] next_where_loop_member [OF assms(2,3)] loop Pair assms(1)
      by (auto simp: resolve_available_def)
  qed
qed

theorem available_draw_witness:
  "fst (resolve_available (new_balancer [''pool'' \<mapsto> sample_lb_config]) ''pool'' (\<lambda>(p, _). p = ''azure'')) = None
   \<and> (case resolve_available (new_balancer [''pool'' \<mapsto> sample_lb_config]) ''pool'' (\<lambda>(p, _). p = ''groq'') of
        (Some c, lb') \<Rightarrow> c = (''groq'', ''llama'') | (None, _) \<Rightarrow> False)"
proof
  let ?lb = "new_balancer [''pool'' \<mapsto> sample_lb_config]"
  have p: "?lb ''pool'' = Some (new_pool sample_lb_config)" by (simp add: new_balancer_def)
  have e: "expanded (new_pool sample_lb_config) = [0, 0, 1]"
    "entries (new_pool sample_lb_config) = [(''openai'', ''gpt-4o''), (''groq'', ''llama'')]"
    "counter (new_pool sample_lb_config) = 0"
    by (simp_all add: new_pool_def sample_lb_config_def weighted_indices_def numeral_2_eq_2)
  note app = available_draw_correct [where lb = ?lb, OF p pool_ok_new]
  show "fst (resolve_available ?lb ''pool'' (\<lambda>(p, _). p = ''azure'')) = None"
    using app [of "\<lambda>(p, _). p = ''azure''"] by (auto simp: e split: prod.splits option.splits)
  show "(case resolve_available ?lb ''pool'' (\<lambda>(p, _). p = ''groq'') of
        (Some c, lb') \<Rightarrow> c = (''groq'', ''llama'') | (None, _) \<Rightarrow> False)"
    using app [of "\<lambda>(p, _). p = ''groq''"] by (auto simp: e split: prod.splits option.splits)
qed

text \<open>
  Weighted round robin is fair: over one full turn of the ring, from any position the
  counter is at, a (provider, model) pair is drawn exactly as often as the weights configured
  for it add up to.
\<close>

theorem weighted_turn_fair:
  assumes "strategy cfg = Weighted" and "sum_list (map weight (pool cfg)) = n" and "0 < n"
    and "unat c + n \<le> 2 ^ 64"
  shows "count_list (take_entries n ((new_pool cfg)\<lparr>counter := c\<rparr>)) (Some x)
    = sum_list (map weight (filter (\<lambda>e. (e_provider e, e_model e) = x) (pool cfg)))"
proof -
  let ?p = "(new_pool cfg)\<lparr>counter := c\<rparr>"
  let ?pair = "\<lambda>e. (e_provider e, e_model e)"
  have len: "length (weighted_indices es) = sum_list (map weight es)" for es
  proof -
    have "length (concat (map (\<lambda>(i, e). replicate (weight e) i) (enumerate k es))) = sum_list (map weight es)" for k
      by (induction es arbitrary: k) auto
    then show ?thesis by (simp add: weighted_indices_def)
  qed
  have ex: "expanded ?p = weighted_indices (pool cfg)" and en: "entries ?p = map ?pair (pool cfg)"
    using assms(1) by (simp_all add: new_pool_def)
  have n: "length (expanded ?p) = n" using assms(2) len ex by simp
  have ok: "pool_ok ?p" using pool_ok_new [of cfg] by (simp add: pool_ok_def)
  have ne: "expanded ?p \<noteq> []" using n assms(3) by auto
  have le: "unat (counter ?p) + length (expanded ?p) \<le> 2 ^ 64" unfolding n using assms(4) by simp
  have "count_list (take_entries n ?p) (Some x) = count (mset (take_entries n ?p)) (Some x)"
    by (simp add: count_mset)
  also have "\<dots> = count (mset (map (\<lambda>i. Some (entries ?p ! i)) (expanded ?p))) (Some x)"
    using take_entries_any_turn [OF ok ne le] unfolding n by (rule arg_cong)
  also have "\<dots> = sum_list (map (\<lambda>(i, e). if entries ?p ! i = x then weight e else 0) (enumerate 0 (pool cfg)))"
    unfolding ex weighted_indices_def by (rule count_weighted_pairs)
  also have "\<dots> = sum_list (map (\<lambda>(i, e). if ?pair (pool cfg ! i) = x then weight e else 0) (enumerate 0 (pool cfg)))"
    unfolding en by (rule arg_cong [where f = sum_list]) (auto simp: in_set_enumerate_eq)
  also have "\<dots> = sum_list (map (\<lambda>e. if ?pair e = x then weight e else 0) (pool cfg))"
    by (rule sum_enumerate)
  also have "\<dots> = sum_list (map weight (filter (\<lambda>e. ?pair e = x) (pool cfg)))"
    by (induction "pool cfg") (auto simp: sum_list_map_filter')
  finally show ?thesis .
qed

theorem weighted_turn_fair_witness:
  "count_list (take_entries 3 ((new_pool sample_lb_config)\<lparr>counter := 41\<rparr>)) (Some (''openai'', ''gpt-4o'')) = 2"
  using weighted_turn_fair [of sample_lb_config 3 41 "(''openai'', ''gpt-4o'')"]
  by (simp add: sample_lb_config_def)

end
