(* ===== verification/Fallback.thy ===== *)
theory Fallback
  imports Prelude
begin

text \<open>
  Fallback chains (\<open>src/src/router/fallback.rs\<close>). A chain map is a \<open>HashMap\<close> that the
  lookup iterates over, so it is modelled with its iteration order: a list of pairs with
  distinct keys, in an order nothing in the code fixes.
\<close>

type_synonym chains = "(string \<times> string list) list"

record fallback_chain =
  config_chains :: chains
  db_chains :: chains

definition new_fallback :: "chains \<Rightarrow> fallback_chain" where
  "new_fallback cfg = \<lparr>config_chains = cfg, db_chains = []\<rparr>"

definition update_db_chains :: "fallback_chain \<Rightarrow> chains \<Rightarrow> fallback_chain" where
  "update_db_chains f cs = f\<lparr>db_chains := cs\<rparr>"

text \<open>\<open>models.iter().position(|m| m == failed)\<close>, then \<open>get(pos + 1)\<close>.\<close>

fun position :: "string \<Rightarrow> string list \<Rightarrow> nat option" where
  "position x [] = None"
| "position x (y # ys) = (if y = x then Some 0 else map_option Suc (position x ys))"

definition list_get :: "'a list \<Rightarrow> nat \<Rightarrow> 'a option" where
  "list_get xs i = (if i < length xs then Some (xs ! i) else None)"

text \<open>
  A loop over chains returns at its first hit; the hit itself may be \<open>None\<close> (the end of a
  chain), which ends the whole lookup. \<open>None\<close> is \<open>no hit\<close>, \<open>Some r\<close> \<open>return r\<close>.
\<close>

fun scan_db :: "string \<Rightarrow> chains \<Rightarrow> string option option" where
  "scan_db failed [] = None"
| "scan_db failed ((primary, models) # cs) =
     (if primary = failed then Some (list_get models 0)
      else case position failed models of
             Some pos \<Rightarrow> Some (list_get models (pos + 1))
           | None \<Rightarrow> scan_db failed cs)"

fun scan_values :: "string \<Rightarrow> chains \<Rightarrow> string option option" where
  "scan_values failed [] = None"
| "scan_values failed ((primary, models) # cs) =
     (case position failed models of
        Some pos \<Rightarrow> Some (list_get models (pos + 1))
      | None \<Rightarrow> scan_values failed cs)"

definition next_after :: "fallback_chain \<Rightarrow> string \<Rightarrow> string option" where
  "next_after f failed =
     (case scan_db failed (db_chains f) of
        Some r \<Rightarrow> r
      | None \<Rightarrow>
          (case map_of (config_chains f) failed of
             Some alternatives \<Rightarrow> list_get alternatives 0
           | None \<Rightarrow>
               (case scan_values failed (config_chains f) of
                  Some r \<Rightarrow> r
                | None \<Rightarrow> None)))"

definition all_chains :: "fallback_chain \<Rightarrow> (string \<rightharpoonup> string list)" where
  "all_chains f = map_of (config_chains f) ++ map_of (db_chains f)"

section \<open>Facts\<close>

lemma position_Some: "position x ys = Some i \<Longrightarrow> i < length ys \<and> ys ! i = x"
  by (induction ys arbitrary: i) (auto split: if_splits)

lemma position_None [simp]: "position x ys = None \<longleftrightarrow> x \<notin> set ys"
  by (induction ys) auto

lemma position_Some_in: "position x ys = Some i \<Longrightarrow> x \<in> set ys"
  by (metis option.distinct(1) position_None)

lemma position_nth: "distinct ys \<Longrightarrow> i < length ys \<Longrightarrow> position (ys ! i) ys = Some i"
proof (induction ys arbitrary: i)
  case (Cons y ys)
  then show ?case by (cases i) auto
qed simp

lemma list_get_in: "list_get xs i = Some x \<Longrightarrow> x \<in> set xs"
  by (auto simp: list_get_def split: if_splits)

text \<open>Every alternative offered stands in some chain.\<close>

definition chain_models :: "chains \<Rightarrow> string set" where
  "chain_models cs = (\<Union>(p, ms) \<in> set cs. set ms)"

lemma scan_db_in: "scan_db x cs = Some (Some y) \<Longrightarrow> y \<in> chain_models cs"
  by (induction x cs rule: scan_db.induct)
    (auto simp: chain_models_def split: if_splits option.splits dest: list_get_in)

lemma scan_values_in: "scan_values x cs = Some (Some y) \<Longrightarrow> y \<in> chain_models cs"
  by (induction x cs rule: scan_values.induct)
    (auto simp: chain_models_def split: if_splits option.splits dest: list_get_in)

lemma next_after_in: "next_after f x = Some y \<Longrightarrow> y \<in> chain_models (db_chains f) \<union> chain_models (config_chains f)"
  by (auto simp: next_after_def split: option.splits dest: scan_db_in scan_values_in)
    (auto simp: chain_models_def dest!: map_of_SomeD list_get_in)

text \<open>A name that heads no chain and stands in none has no alternative.\<close>

lemma scan_db_None: "scan_db x cs = None \<longleftrightarrow> x \<notin> fst ` set cs \<and> x \<notin> chain_models cs"
  by (induction x cs rule: scan_db.induct)
    (auto simp: chain_models_def split: option.splits dest: position_Some_in)

lemma scan_values_None: "scan_values x cs = None \<longleftrightarrow> x \<notin> chain_models cs"
  by (induction x cs rule: scan_values.induct)
    (auto simp: chain_models_def split: option.splits dest: position_Some_in)

lemma next_after_None:
  assumes "x \<notin> fst ` set (db_chains f) \<union> chain_models (db_chains f)"
    and "x \<notin> fst ` set (config_chains f) \<union> chain_models (config_chains f)"
  shows "next_after f x = None"
proof -
  have "map_of (config_chains f) x = None" using assms(2) by (simp add: map_of_eq_None_iff)
  then show ?thesis
    using assms scan_db_None [of x "db_chains f"] scan_values_None [of x "config_chains f"]
    by (simp add: next_after_def)
qed

text \<open>Walking one chain whose models occur nowhere else visits it in order.\<close>

lemma next_after_single_config:
  assumes "db_chains f = []" and "config_chains f = [(p, ms)]" and "distinct ms" and "p \<notin> set ms"
  shows "next_after f p = list_get ms 0"
    and "i < length ms \<Longrightarrow> next_after f (ms ! i) = list_get ms (i + 1)"
  using assms by (auto simp: next_after_def position_nth split: option.splits)


section \<open>Iteration order\<close>

text \<open>No name stands in two chains, as their key or as one of their models.\<close>

definition separated :: "chains \<Rightarrow> bool" where
  "separated cs \<longleftrightarrow>
     (\<forall>c \<in> set cs. \<forall>d \<in> set cs. c = d \<or> set (fst c # snd c) \<inter> set (fst d # snd d) = {})"

lemma separated_Cons: "separated (c # cs) \<Longrightarrow> separated cs"
  by (auto simp: separated_def)

lemma separated_other:
  "separated cs \<Longrightarrow> (p, ms) \<in> set cs \<Longrightarrow> (q, ns) \<in> set cs \<Longrightarrow> (p, ms) \<noteq> (q, ns) \<Longrightarrow>
    x \<in> set (p # ms) \<Longrightarrow> x \<notin> set (q # ns)"
  unfolding separated_def by (metis IntI empty_iff fst_conv snd_conv)

lemma scan_db_hit:
  assumes "separated cs" and "(p, ms) \<in> set cs" and "x \<in> set (p # ms)"
  shows "scan_db x cs = scan_db x [(p, ms)]"
  using assms
proof (induction cs)
  case (Cons c cs)
  obtain q ns where c: "c = (q, ns)" by (cases c)
  show ?case
  proof (cases "c = (p, ms)")
    case True
    with Cons.prems(3) show ?thesis by (cases "position x ms") auto
  next
    case False
    then have "x \<notin> set (q # ns)" using separated_other [OF Cons.prems(1,2)] Cons.prems(3) c by auto
    moreover have "(p, ms) \<in> set cs" using Cons.prems(2) False by auto
    ultimately show ?thesis
      using Cons.IH [OF separated_Cons [OF Cons.prems(1)]] Cons.prems(3)
      by (auto simp: c split: option.splits dest: position_Some_in)
  qed
qed simp

lemma scan_values_hit:
  assumes "separated cs" and "(p, ms) \<in> set cs" and "x \<in> set ms"
  shows "scan_values x cs = scan_values x [(p, ms)]"
  using assms
proof (induction cs)
  case (Cons c cs)
  obtain q ns where c: "c = (q, ns)" by (cases c)
  show ?case
  proof (cases "c = (p, ms)")
    case True
    with Cons.prems(3) show ?thesis by (cases "position x ms") auto
  next
    case False
    then have "x \<notin> set (q # ns)" using separated_other [OF Cons.prems(1,2)] Cons.prems(3) c by auto
    moreover have "(p, ms) \<in> set cs" using Cons.prems(2) False by auto
    ultimately show ?thesis
      using Cons.IH [OF separated_Cons [OF Cons.prems(1)]] Cons.prems(3)
      by (auto simp: c split: option.splits dest: position_Some_in)
  qed
qed simp

lemma scan_db_order:
  assumes "separated cs" and "set cs = set ds"
  shows "scan_db x cs = scan_db x ds"
proof (cases "\<exists>(p, ms) \<in> set cs. x \<in> set (p # ms)")
  case True
  then obtain p ms where h: "(p, ms) \<in> set cs" "x \<in> set (p # ms)" by blast
  have "separated ds" using assms by (simp add: separated_def)
  with h assms show ?thesis using scan_db_hit by metis
next
  case False
  then have "scan_db x cs = None" "scan_db x ds = None"
    using assms(2) by (auto simp: scan_db_None chain_models_def)
  then show ?thesis by simp
qed

lemma scan_values_order:
  assumes "separated cs" and "set cs = set ds"
  shows "scan_values x cs = scan_values x ds"
proof (cases "x \<in> chain_models cs")
  case True
  then obtain p ms where h: "(p, ms) \<in> set cs" "x \<in> set ms" by (auto simp: chain_models_def)
  have "separated ds" using assms by (simp add: separated_def)
  with h assms show ?thesis using scan_values_hit by metis
next
  case False
  then have "scan_values x cs = None" "scan_values x ds = None"
    using assms(2) by (auto simp: scan_values_None chain_models_def)
  then show ?thesis by simp
qed

section \<open>Properties\<close>

text \<open>
  When no model stands in two chains, the next model to try after a failure is a function
  of the chains alone: the order in which the hash maps happen to be iterated is irrelevant.
\<close>

theorem next_after_order_irrelevant:
  assumes "separated (db_chains f)" and "set (db_chains f) = set (db_chains g)"
    and "separated (config_chains f)" and "set (config_chains f) = set (config_chains g)"
    and "distinct (map fst (config_chains f))" and "distinct (map fst (config_chains g))"
  shows "next_after f x = next_after g x"
proof -
  have "map_of (config_chains f) = map_of (config_chains g)"
    using assms(4-6) by (metis map_of_inject_set)
  then show ?thesis
    using scan_db_order [OF assms(1,2), of x] scan_values_order [OF assms(3,4), of x]
    by (simp only: next_after_def)
qed

theorem next_after_order_irrelevant_witness:
  "next_after \<lparr>config_chains = [], db_chains = [(''a'', [''b'', ''c'']), (''d'', [''e''])]\<rparr> ''b''
    = next_after \<lparr>config_chains = [], db_chains = [(''d'', [''e'']), (''a'', [''b'', ''c''])]\<rparr> ''b''"
  by (rule next_after_order_irrelevant) (auto simp: separated_def)

text \<open>
  When a model heads one database chain and ends another, what the lookup answers depends
  on which chain the hash map yields first: the alternative of its own chain, or none at all.
\<close>

theorem db_chain_order_matters:
  assumes "a \<noteq> b" and "b \<notin> set ms"
  shows "next_after \<lparr>config_chains = cfg, db_chains = [(a, ms @ [b]), (b, c # cs)]\<rparr> b = None
    \<and> next_after \<lparr>config_chains = cfg, db_chains = [(b, c # cs), (a, ms @ [b])]\<rparr> b = Some c"
proof -
  have "b \<notin> set xs \<Longrightarrow> position b (xs @ [b]) = Some (length xs)" for xs
    by (induction xs) auto
  with assms show ?thesis by (simp add: next_after_def list_get_def)
qed

theorem db_chain_order_matters_witness:
  "next_after \<lparr>config_chains = [], db_chains = [(''opus'', [''sonnet'']), (''sonnet'', [''haiku''])]\<rparr> ''sonnet''
    = None"
  using db_chain_order_matters [of "''opus''" "''sonnet''" "[]" "[]" "''haiku''" "[]"] by simp

end
