(* ===== verification/Sessions.thy ===== *)
theory Sessions
  imports Prelude
begin

text \<open>
  Session stickiness (\<open>src/src/router/session_affinity.rs\<close>): the map of pins with its
  expiry and the approximate counter beside it, a 64-bit atomic that wraps. \<open>now\<close> is what
  \<open>now_secs()\<close> returned in the operation; times are seconds since the epoch.
\<close>

record session_pin =
  pin_provider :: string
  pin_model :: string
  last_seen :: nat

record session_affinity =
  ttl_secs :: nat
  pins :: "string \<rightharpoonup> session_pin"
  pin_count :: u64

definition new_affinity :: "nat \<Rightarrow> session_affinity" where
  "new_affinity ttl = \<lparr>ttl_secs = ttl, pins = Map.empty, pin_count = 0\<rparr>"

definition affinity_get :: "nat \<Rightarrow> session_affinity \<Rightarrow> string \<Rightarrow> session_pin option \<times> session_affinity" where
  "affinity_get now a sid =
     (case pins a sid of
        None \<Rightarrow> (None, a)
      | Some pin \<Rightarrow>
          if ttl_secs a < now - last_seen pin
          then (None, a\<lparr>pins := (pins a)(sid := None), pin_count := pin_count a - 1\<rparr>)
          else (let pin' = pin\<lparr>last_seen := now\<rparr> in (Some pin', a\<lparr>pins := (pins a)(sid \<mapsto> pin')\<rparr>)))"

definition affinity_set :: "nat \<Rightarrow> session_affinity \<Rightarrow> string \<Rightarrow> string \<Rightarrow> string \<Rightarrow> session_affinity" where
  "affinity_set now a sid p m =
     (let is_new = (pins a sid = None);
          a' = a\<lparr>pins := (pins a)(sid \<mapsto> \<lparr>pin_provider = p, pin_model = m, last_seen = now\<rparr>)\<rparr>
      in if is_new then a'\<lparr>pin_count := pin_count a' + 1\<rparr> else a')"

definition affinity_len :: "session_affinity \<Rightarrow> nat" where
  "affinity_len a = unat (pin_count a)"

definition affinity_is_empty :: "session_affinity \<Rightarrow> bool" where
  "affinity_is_empty a \<longleftrightarrow> affinity_len a = 0"

text \<open>\<open>DashMap::retain\<close> over the pins, counting what it drops.\<close>

definition expired_pins :: "nat \<Rightarrow> session_affinity \<Rightarrow> string set" where
  "expired_pins now a = {sid. \<exists>pin. pins a sid = Some pin \<and> ttl_secs a < now - last_seen pin}"

definition evict_expired :: "nat \<Rightarrow> session_affinity \<Rightarrow> session_affinity" where
  "evict_expired now a =
     a\<lparr>pins := (\<lambda>sid. case pins a sid of
                   Some pin \<Rightarrow> if now - last_seen pin \<le> ttl_secs a then Some pin else None
                 | None \<Rightarrow> None),
       pin_count := pin_count a - of_nat (card (expired_pins now a))\<rparr>"

definition resolve_with_pin ::
  "session_pin option \<Rightarrow> string \<Rightarrow> string \<Rightarrow> string \<times> string \<times> bool" where
  "resolve_with_pin pin rp rm =
     (case pin of
        None \<Rightarrow> (rp, rm, True)
      | Some p \<Rightarrow>
          if pin_provider p = rp \<and> pin_model p = rm then (pin_provider p, pin_model p, True)
          else if pin_provider p = rp then (pin_provider p, rm, True)
          else (rp, rm, True))"

section \<open>The counter counts the pins\<close>

definition affinity_ok :: "session_affinity \<Rightarrow> bool" where
  "affinity_ok a \<longleftrightarrow> finite (dom (pins a)) \<and> pin_count a = of_nat (card (dom (pins a)))"

lemma affinity_ok_new: "affinity_ok (new_affinity ttl)"
  by (simp add: affinity_ok_def new_affinity_def)

lemma affinity_ok_get:
  assumes "affinity_ok a"
  shows "affinity_ok (snd (affinity_get now a sid))"
proof (cases "pins a sid")
  case (Some pin)
  have fin: "finite (dom (pins a))" and cnt: "pin_count a = of_nat (card (dom (pins a)))"
    using assms by (auto simp: affinity_ok_def)
  have "of_nat (Suc (card (dom ((pins a)(sid := None))))) = (of_nat (card (dom (pins a))) :: u64)"
    using card_dom_remove [OF fin, of sid] Some by simp
  then have "pin_count a - 1 = of_nat (card (dom ((pins a)(sid := None))))"
    unfolding cnt by (metis add_diff_cancel_left' of_nat_Suc)
  moreover have "card (dom ((pins a)(sid \<mapsto> pin\<lparr>last_seen := now\<rparr>))) = card (dom (pins a))"
    using card_dom_upd [OF fin] Some by simp
  ultimately show ?thesis
    using fin cnt Some by (simp add: affinity_get_def affinity_ok_def Let_def del: dom_fun_upd)
      (simp add: finite_subset [OF _ fin] insert_absorb domI)
qed (use assms in \<open>simp add: affinity_get_def\<close>)

lemma affinity_ok_set:
  assumes "affinity_ok a"
  shows "affinity_ok (affinity_set now a sid p m)"
proof -
  have fin: "finite (dom (pins a))" using assms by (simp add: affinity_ok_def)
  show ?thesis
    using assms card_dom_upd [OF fin, of sid "\<lparr>pin_provider = p, pin_model = m, last_seen = now\<rparr>"]
    by (auto simp: affinity_set_def affinity_ok_def Let_def simp del: dom_fun_upd)
      (auto simp: add.commute)
qed

lemma affinity_ok_evict:
  assumes "affinity_ok a"
  shows "affinity_ok (evict_expired now a)"
proof -
  let ?E = "expired_pins now a"
  have fin: "finite (dom (pins a))" using assms by (simp add: affinity_ok_def)
  have sub: "?E \<subseteq> dom (pins a)" by (auto simp: expired_pins_def)
  have d: "dom (pins (evict_expired now a)) = dom (pins a) - ?E"
    by (auto simp: evict_expired_def expired_pins_def not_le split: option.splits if_splits)
  have "card (dom (pins a)) = card (dom (pins a) - ?E) + card ?E"
    using card_Diff_subset [OF finite_subset [OF sub fin] sub] card_mono [OF fin sub] by simp
  then have "pin_count a - of_nat (card ?E) = of_nat (card (dom (pins a) - ?E))"
    using assms by (simp add: affinity_ok_def)
  then show ?thesis using fin d by (simp add: affinity_ok_def) (simp add: evict_expired_def)
qed

text \<open>A pin a session gets back is the last one stored for it, read within the lifetime.\<close>

lemma affinity_get_set:
  "affinity_get now (affinity_set t a sid p m) sid' =
     (if sid' = sid then
        (if ttl_secs a < now - t then (None, snd (affinity_get now (affinity_set t a sid p m) sid))
         else (Some \<lparr>pin_provider = p, pin_model = m, last_seen = now\<rparr>,
               snd (affinity_get now (affinity_set t a sid p m) sid)))
      else (fst (affinity_get now a sid'), snd (affinity_get now (affinity_set t a sid p m) sid')))"
  by (auto simp: affinity_get_def affinity_set_def Let_def split: option.splits)

section \<open>The life of the map\<close>

inductive affinity_step :: "session_affinity \<Rightarrow> session_affinity \<Rightarrow> bool" where
  get_step: "affinity_step a (snd (affinity_get now a sid))"
| set_step: "affinity_step a (affinity_set now a sid p m)"
| evict_step: "affinity_step a (evict_expired now a)"

lemma affinity_steps_ok:
  "affinity_step\<^sup>*\<^sup>* a b \<Longrightarrow> affinity_ok a \<Longrightarrow> affinity_ok b"
  by (induction rule: rtranclp_induct)
    (auto elim!: affinity_step.cases intro: affinity_ok_get affinity_ok_set affinity_ok_evict)

lemma resolve_with_pin_eq: "resolve_with_pin pin p m = (p, m, True)"
  by (auto simp: resolve_with_pin_def split: option.splits)

section \<open>Properties\<close>

text \<open>
  Whatever operations ran one after the other, the counter of live sessions equals the
  number of pins held (in 64 bits), and a periodic eviction leaves only pins within their
  lifetime: a pin read right after is never an expired one.
\<close>

theorem affinity_counter_exact:
  assumes "affinity_step\<^sup>*\<^sup>* (new_affinity ttl) a"
  shows "pin_count a = of_nat (card (dom (pins a)))
    \<and> (case pins (evict_expired now a) sid of Some pin \<Rightarrow> now - last_seen pin \<le> ttl_secs a | None \<Rightarrow> True)"
  using affinity_steps_ok [OF assms affinity_ok_new]
  by (auto simp: affinity_ok_def evict_expired_def split: option.splits)

theorem affinity_counter_exact_witness:
  "pin_count (affinity_set 7 (affinity_set 5 (new_affinity 60) ''s'' ''groq'' ''llama'') ''s'' ''openai'' ''o1'') = 1"
proof -
  let ?a = "affinity_set 7 (affinity_set 5 (new_affinity 60) ''s'' ''groq'' ''llama'') ''s'' ''openai'' ''o1''"
  have "affinity_step\<^sup>*\<^sup>* (new_affinity 60) ?a"
    by (meson set_step rtranclp.rtrancl_into_rtrancl rtranclp.rtrancl_refl)
  from affinity_counter_exact [OF this] show ?thesis
    by (simp add: affinity_set_def new_affinity_def Let_def)
qed

end
