(* ===== verification/Admission_Limits.thy ===== *)
theory Admission_Limits
  imports Json
begin

text \<open>
  Admission limits: per session (\<open>src/src/router/session_limits.rs\<close>), per client address
  (\<open>src/src/api/middleware/ip_rate_limit.rs\<close>), the concurrency semaphores
  (\<open>src/src/router/concurrency.rs\<close>) and the complexity downgrade
  (\<open>src/src/router/complexity.rs\<close>). The two window counters share one contract, the locale
  \<open>window_limiter\<close>.
\<close>

section \<open>The contract of a window counter\<close>

text \<open>
  A request has a key, a window and a cost; \<open>used\<close> reads what a key has consumed in a window.
  An admitted request fits under the limit and is charged, a refused one is not charged.
  \<open>valid\<close> delimits the requests the contract covers, \<open>inv\<close> is the limiter's invariant.
\<close>

locale window_limiter =
  fixes admit :: "'r \<Rightarrow> 's \<Rightarrow> bool \<times> 's"
    and key :: "'r \<Rightarrow> 'k" and win :: "'r \<Rightarrow> 'w" and cost :: "'r \<Rightarrow> nat"
    and used :: "'s \<Rightarrow> 'k \<Rightarrow> 'w \<Rightarrow> nat"
    and limit :: nat
    and valid :: "'r \<Rightarrow> bool" and inv :: "'s \<Rightarrow> bool"
  assumes inv_admit: "inv s \<Longrightarrow> valid r \<Longrightarrow> inv (snd (admit r s))"
    and admitted: "inv s \<Longrightarrow> valid r \<Longrightarrow> fst (admit r s) \<Longrightarrow> used s (key r) (win r) + cost r \<le> limit"
    and charged: "inv s \<Longrightarrow> valid r \<Longrightarrow>
      used (snd (admit r s)) k (win r) = used s k (win r) + (if k = key r \<and> fst (admit r s) then cost r else 0)"
begin

fun run :: "'r list \<Rightarrow> 's \<Rightarrow> bool list \<times> 's" where
  "run [] s = ([], s)"
| "run (r # rs) s = (let (b, s1) = admit r s; (bs, s2) = run rs s1 in (b # bs, s2))"

definition charge :: "'k \<Rightarrow> 'r list \<Rightarrow> bool list \<Rightarrow> nat" where
  "charge k rs bs = sum_list (map (\<lambda>(r, b). if key r = k \<and> b then cost r else 0) (zip rs bs))"

lemma run_charge:
  assumes "inv s" and "\<And>r. r \<in> set rs \<Longrightarrow> valid r \<and> win r = w"
  shows "used (snd (run rs s)) k w = used s k w + charge k rs (fst (run rs s))"
  using assms
proof (induction rs arbitrary: s)
  case (Cons r rs)
  have "inv (snd (admit r s))" using Cons.prems by (intro inv_admit) auto
  with Cons.IH [of "snd (admit r s)"] Cons.prems charged [of s r k] show ?case
    by (auto simp: charge_def split_beta Let_def)
qed (simp add: charge_def)

text \<open>What one key is granted in one window never exceeds the limit.\<close>

lemma run_bounded:
  assumes "inv s" and "\<And>r. r \<in> set rs \<Longrightarrow> valid r \<and> win r = w" and "used s k w \<le> limit"
  shows "used s k w + charge k rs (fst (run rs s)) \<le> limit"
proof -
  have "used (snd (run rs s)) k w \<le> limit"
    using assms
  proof (induction rs arbitrary: s)
    case (Cons r rs)
    have v: "valid r" "win r = w" using Cons.prems(2) by auto
    have "inv (snd (admit r s))" using Cons.prems(1) v(1) by (rule inv_admit)
    moreover have "used (snd (admit r s)) k w \<le> limit"
      using charged [OF Cons.prems(1) v(1), of k] admitted [OF Cons.prems(1) v(1)] Cons.prems(3) v(2) by auto
    ultimately show ?case using Cons.IH [of "snd (admit r s)"] Cons.prems(2) by (simp add: split_beta Let_def)
  qed simp
  then show ?thesis using run_charge [OF assms(1,2)] by simp
qed

end

text \<open>A limiter that refuses nothing that still fits.\<close>

locale exact_limiter = window_limiter +
  assumes fits: "inv s \<Longrightarrow> valid r \<Longrightarrow> used s (key r) (win r) + cost r \<le> limit \<Longrightarrow> fst (admit r s)"
begin

lemma run_exact:
  assumes "inv s" and "\<And>r. r \<in> set rs \<Longrightarrow> valid r \<and> win r = w \<and> cost r = 1" and "used s k w \<le> limit"
  shows "charge k rs (fst (run rs s)) = min (limit - used s k w) (length (filter (\<lambda>r. key r = k) rs))"
  using assms
proof (induction rs arbitrary: s)
  case (Cons r rs)
  have v: "valid r" "win r = w" "cost r = 1" using Cons.prems(2) by auto
  let ?s1 = "snd (admit r s)"
  have i: "inv ?s1" using Cons.prems(1) v(1) by (rule inv_admit)
  have f: "fst (admit r s) \<longleftrightarrow> used s (key r) w < limit"
    using admitted [OF Cons.prems(1) v(1)] fits [OF Cons.prems(1) v(1)] v by auto
  have u: "used ?s1 k w = used s k w + (if k = key r \<and> fst (admit r s) then 1 else 0)"
    using charged [OF Cons.prems(1) v(1), of k] v by simp
  then have "used ?s1 k w \<le> limit" using f Cons.prems(3) by auto
  from Cons.IH [OF i _ this] Cons.prems(2,3) u f v show ?case
    by (auto simp: charge_def split_beta Let_def)
qed (simp add: charge_def)

end

section \<open>Per-session limits\<close>

record session_bucket =
  window_key :: string
  request_count :: u32
  token_count :: u32

record session_limiter =
  tpm :: u32
  rpm :: u32
  buckets :: "string \<rightharpoonup> session_bucket"

definition new_session_limiter :: "u32 \<Rightarrow> u32 \<Rightarrow> session_limiter" where
  "new_session_limiter t r = \<lparr>tpm = t, rpm = r, buckets = Map.empty\<rparr>"

definition current_minute_key :: "nat \<Rightarrow> string" where
  "current_minute_key secs = show_nat (secs div 60)"

definition fresh_bucket :: "string \<Rightarrow> session_bucket" where
  "fresh_bucket w = \<lparr>window_key = w, request_count = 0, token_count = 0\<rparr>"

text \<open>The bucket the request finds after \<open>or_insert_with\<close> and the reset of a stale window.\<close>

definition bucket_at :: "session_limiter \<Rightarrow> string \<Rightarrow> string \<Rightarrow> session_bucket" where
  "bucket_at l sid w =
     (let b = (case buckets l sid of Some b \<Rightarrow> b | None \<Rightarrow> fresh_bucket w)
      in if window_key b \<noteq> w then fresh_bucket w else b)"

definition put_bucket :: "session_limiter \<Rightarrow> string \<Rightarrow> session_bucket \<Rightarrow> session_limiter" where
  "put_bucket l sid b = l\<lparr>buckets := (buckets l)(sid \<mapsto> b)\<rparr>"

definition check_and_record :: "nat \<Rightarrow> session_limiter \<Rightarrow> string \<Rightarrow> u32 \<Rightarrow> bool \<times> session_limiter" where
  "check_and_record secs l sid tokens =
     (if tpm l = 0 \<and> rpm l = 0 then (True, l)
      else
        let b = bucket_at l sid (current_minute_key secs)
        in if 0 < rpm l \<and> rpm l \<le> request_count b then (False, put_bucket l sid b)
           else if 0 < tpm l \<and> tpm l < token_count b + tokens then (False, put_bucket l sid b)
           else (True, put_bucket l sid
                   (b\<lparr>request_count := request_count b + 1, token_count := token_count b + tokens\<rparr>)))"

section \<open>Per-address limits\<close>

record ip_rate_limiter =
  ip_counts :: "string \<times> string \<rightharpoonup> nat"
  limit_rpm :: u32

definition new_ip_limiter :: "u32 \<Rightarrow> ip_rate_limiter" where
  "new_ip_limiter n = \<lparr>ip_counts = Map.empty, limit_rpm = n\<rparr>"

text \<open>
  \<open>bucket\<close> is the minute the clock formatted. The count of a minute is a \<open>u64\<close>, which that
  minute cannot exhaust; it is a natural number here.
\<close>

definition check_and_increment :: "string \<Rightarrow> ip_rate_limiter \<Rightarrow> string \<Rightarrow> bool \<times> ip_rate_limiter" where
  "check_and_increment bucket l ip =
     (if limit_rpm l = 0 then (True, l)
      else
        let c = (case ip_counts l (ip, bucket) of Some n \<Rightarrow> n | None \<Rightarrow> 0) + 1
        in (c \<le> unat (limit_rpm l), l\<lparr>ip_counts := (ip_counts l)((ip, bucket) \<mapsto> c)\<rparr>))"

text \<open>The middleware: without a peer address nothing is limited. \<open>Some\<close> is the 429 response.\<close>

definition ip_rate_limit_middleware ::
  "string \<Rightarrow> ip_rate_limiter \<Rightarrow> string option \<Rightarrow> nat option \<times> ip_rate_limiter" where
  "ip_rate_limit_middleware bucket l addr =
     (case addr of
        None \<Rightarrow> (None, l)
      | Some ip \<Rightarrow>
          (let (ok, l') = check_and_increment bucket l ip in (if ok then None else Some 429, l')))"


section \<open>The limiters meet the contract\<close>

text \<open>A request to the session limiter: its clock reading, session and estimated tokens.\<close>

type_synonym session_request = "nat \<times> string \<times> u32"

definition session_admit :: "session_request \<Rightarrow> session_limiter \<Rightarrow> bool \<times> session_limiter" where
  "session_admit r l = (case r of (secs, sid, tokens) \<Rightarrow> check_and_record secs l sid tokens)"

definition session_key :: "session_request \<Rightarrow> string" where
  "session_key r = fst (snd r)"

definition session_window :: "session_request \<Rightarrow> string" where
  "session_window r = current_minute_key (fst r)"

definition session_tokens :: "session_request \<Rightarrow> nat" where
  "session_tokens r = unat (snd (snd r))"

lemma bucket_at_put [simp]:
  "bucket_at (put_bucket l sid b) sid' w =
     (if sid' = sid then (if window_key b = w then b else fresh_bucket w) else bucket_at l sid' w)"
  by (simp add: bucket_at_def put_bucket_def Let_def)

lemma bucket_at_window [simp]: "window_key (bucket_at l sid w) = w"
  by (simp add: bucket_at_def fresh_bucket_def Let_def)

lemma put_bucket_limits [simp]: "tpm (put_bucket l sid b) = tpm l" "rpm (put_bucket l sid b) = rpm l"
  by (simp_all add: put_bucket_def)

lemma no_wrap: "unat (a :: u32) + unat b < 2 ^ 32 \<Longrightarrow> unat (a + b) = unat a + unat b"
  by (simp add: unat_word_ariths)

lemma word_Suc: "(c :: u32) < r \<Longrightarrow> unat (c + 1) = unat c + 1"
proof -
  have "unat r < 2 ^ LENGTH(32)" by (rule unsigned_less)
  then show "c < r \<Longrightarrow> ?thesis" using no_wrap [of c 1] by (simp add: word_less_nat_alt)
qed

definition used_requests :: "session_limiter \<Rightarrow> string \<Rightarrow> string \<Rightarrow> nat" where
  "used_requests l sid w = unat (request_count (bucket_at l sid w))"

definition used_tokens :: "session_limiter \<Rightarrow> string \<Rightarrow> string \<Rightarrow> nat" where
  "used_tokens l sid w = unat (token_count (bucket_at l sid w))"

definition rpm_inv :: "u32 \<Rightarrow> session_limiter \<Rightarrow> bool" where
  "rpm_inv R l \<longleftrightarrow> 0 < R \<and> rpm l = R"

definition tpm_inv :: "u32 \<Rightarrow> session_limiter \<Rightarrow> bool" where
  "tpm_inv T l \<longleftrightarrow> 0 < T \<and> tpm l = T \<and> (\<forall>sid w. used_tokens l sid w \<le> unat T)"

definition fits_word :: "u32 \<Rightarrow> session_request \<Rightarrow> bool" where
  "fits_word T r \<longleftrightarrow> unat T + session_tokens r < 2 ^ 32"

lemmas session_defs = session_admit_def session_key_def session_window_def session_tokens_def
  check_and_record_def used_requests_def used_tokens_def Let_def

interpretation session_rpm: window_limiter session_admit session_key session_window "\<lambda>_. 1"
  used_requests "unat R" "\<lambda>_. True" "rpm_inv R" for R
proof unfold_locales
  fix s k and r :: session_request
  assume i: "rpm_inv R s"
  obtain secs sid tokens where r: "r = (secs, sid, tokens)" by (cases r) auto
  show "rpm_inv R (snd (session_admit r s))"
    using i by (auto simp: r session_defs rpm_inv_def)
  have c: "fst (session_admit r s) \<Longrightarrow> request_count (bucket_at s sid (current_minute_key secs)) < R"
    using i by (auto simp: r session_defs rpm_inv_def not_le split: if_splits)
  then show "fst (session_admit r s) \<Longrightarrow> used_requests s (session_key r) (session_window r) + 1 \<le> unat R"
    by (simp add: r session_defs word_less_nat_alt)
  show "used_requests (snd (session_admit r s)) k (session_window r) =
      used_requests s k (session_window r) + (if k = session_key r \<and> fst (session_admit r s) then 1 else 0)"
    using c word_Suc i by (auto simp: r session_defs rpm_inv_def split: if_splits)
qed

interpretation session_tpm: window_limiter session_admit session_key session_window session_tokens
  used_tokens "unat T" "fits_word T" "tpm_inv T" for T
proof unfold_locales
  fix s k and r :: session_request
  assume i: "tpm_inv T s" and v: "fits_word T r"
  obtain secs sid tokens where r: "r = (secs, sid, tokens)" by (cases r) auto
  let ?b = "bucket_at s sid (current_minute_key secs)"
  have le: "unat (token_count ?b) \<le> unat T" using i by (auto simp: tpm_inv_def used_tokens_def)
  with v have sum: "unat (token_count ?b + tokens) = unat (token_count ?b) + unat tokens"
    by (intro no_wrap) (simp add: fits_word_def session_tokens_def r)
  have adm: "fst (session_admit r s) \<Longrightarrow> unat (token_count ?b) + unat tokens \<le> unat T"
    using i sum by (auto simp: r session_defs tpm_inv_def word_less_nat_alt split: if_splits)
  then show "fst (session_admit r s) \<Longrightarrow> used_tokens s (session_key r) (session_window r) + session_tokens r \<le> unat T"
    by (simp add: r session_defs)
  have ch: "used_tokens (snd (session_admit r s)) k w =
      (if k = sid then if w = current_minute_key secs
          then unat (token_count ?b) + (if fst (session_admit r s) then unat tokens else 0) else 0
       else used_tokens s k w)" for k w
    using i sum by (auto simp: r session_defs tpm_inv_def fresh_bucket_def)
  show "used_tokens (snd (session_admit r s)) k (session_window r) =
      used_tokens s k (session_window r) + (if k = session_key r \<and> fst (session_admit r s) then session_tokens r else 0)"
    unfolding ch by (simp add: r session_defs)
  have "tpm (snd (session_admit r s)) = T" using i by (auto simp: r session_defs tpm_inv_def)
  moreover have "used_tokens (snd (session_admit r s)) k w \<le> unat T" for k w
    unfolding ch using adm le i by (auto simp: tpm_inv_def)
  ultimately show "tpm_inv T (snd (session_admit r s))" using i by (simp add: tpm_inv_def)
qed

text \<open>A request to the address limiter: the minute and the address.\<close>

definition ip_admit :: "string \<times> string \<Rightarrow> ip_rate_limiter \<Rightarrow> bool \<times> ip_rate_limiter" where
  "ip_admit r l = check_and_increment (fst r) l (snd r)"

definition ip_used :: "ip_rate_limiter \<Rightarrow> string \<Rightarrow> string \<Rightarrow> nat" where
  "ip_used l ip bucket =
     min (unat (limit_rpm l)) (case ip_counts l (ip, bucket) of Some n \<Rightarrow> n | None \<Rightarrow> 0)"

definition ip_inv :: "u32 \<Rightarrow> ip_rate_limiter \<Rightarrow> bool" where
  "ip_inv L l \<longleftrightarrow> 0 < L \<and> limit_rpm l = L"

lemma ip_admit_simps:
  assumes "ip_inv L l"
  shows "fst (ip_admit (w, ip) l) \<longleftrightarrow> ip_used l ip w + 1 \<le> unat L"
    and "ip_used (snd (ip_admit (w, ip) l)) k w = ip_used l k w + (if k = ip \<and> fst (ip_admit (w, ip) l) then 1 else 0)"
    and "ip_inv L (snd (ip_admit (w, ip) l))"
proof -
  have l: "limit_rpm l = L" "limit_rpm l \<noteq> 0" "0 < unat L" "0 < L"
    using assms by (auto simp: ip_inv_def unat_gt_0)
  define n where "n = (case ip_counts l (ip, w) of Some n \<Rightarrow> n | None \<Rightarrow> 0)"
  have a: "ip_admit (w, ip) l = (n + 1 \<le> unat L, l\<lparr>ip_counts := (ip_counts l)((ip, w) \<mapsto> n + 1)\<rparr>)"
    using l by (simp add: ip_admit_def check_and_increment_def n_def Let_def)
  have u: "ip_used l ip w = min (unat L) n" by (simp add: ip_used_def l n_def)
  show "fst (ip_admit (w, ip) l) \<longleftrightarrow> ip_used l ip w + 1 \<le> unat L"
    unfolding a u using l by (auto simp: min_def)
  show "ip_inv L (snd (ip_admit (w, ip) l))" using l by (simp add: a ip_inv_def)
  show "ip_used (snd (ip_admit (w, ip) l)) k w = ip_used l k w + (if k = ip \<and> fst (ip_admit (w, ip) l) then 1 else 0)"
  proof (cases "k = ip")
    case True
    then show ?thesis using u by (simp add: a ip_used_def l)
  next
    case False
    then show ?thesis by (simp add: a ip_used_def)
  qed
qed

interpretation ip_limit: exact_limiter ip_admit snd fst "\<lambda>_. 1" ip_used "unat L" "\<lambda>_. True" "ip_inv L" for L
  by unfold_locales (metis ip_admit_simps prod.collapse)+


section \<open>The session check of a request\<close>

text \<open>Lengths are in bytes, a quarter of them the estimate; the \<open>u32\<close> sum wraps.\<close>

definition estimate_session_tokens :: "json \<Rightarrow> u32" where
  "estimate_session_tokens body =
     (case as_array (jget body ''messages'') of
        Some msgs \<Rightarrow>
          sum_list (map (\<lambda>msg. case as_str (jget msg ''content'') of
                                 Some s \<Rightarrow> of_nat (length s div 4)
                               | None \<Rightarrow> 50) msgs)
      | None \<Rightarrow> 100)"

text \<open>\<open>Some (reason, status)\<close> is the policy denial.\<close>

definition check_session_rate_limit ::
  "nat \<Rightarrow> session_limiter \<Rightarrow> json \<Rightarrow> (string \<times> nat) option \<times> session_limiter" where
  "check_session_rate_limit secs l body =
     (case as_str (jget body ''session_id'') of
        None \<Rightarrow> (None, l)
      | Some sid \<Rightarrow>
          (let (ok, l') = check_and_record secs l sid (estimate_session_tokens body)
           in (if ok then None else Some (''session rate limit exceeded'', 429), l')))"

section \<open>Concurrency\<close>

record semaphore =
  capacity :: nat
  permits :: nat

type_synonym concurrency_limiter = "int \<rightharpoonup> semaphore"

definition semaphore_of :: "concurrency_limiter \<Rightarrow> int \<Rightarrow> nat \<Rightarrow> semaphore" where
  "semaphore_of c uid mx = (case c uid of Some s \<Rightarrow> s | None \<Rightarrow> \<lparr>capacity = mx, permits = mx\<rparr>)"

definition try_acquire :: "concurrency_limiter \<Rightarrow> int \<Rightarrow> nat \<Rightarrow> bool \<times> concurrency_limiter" where
  "try_acquire c uid mx =
     (if mx = 0 then (False, c)
      else
        let s = semaphore_of c uid mx
        in if permits s = 0 then (False, c(uid \<mapsto> s))
           else (True, c(uid \<mapsto> s\<lparr>permits := permits s - 1\<rparr>)))"

text \<open>Dropping an \<open>OwnedSemaphorePermit\<close>.\<close>

definition release_permit :: "concurrency_limiter \<Rightarrow> int \<Rightarrow> concurrency_limiter" where
  "release_permit c uid =
     (case c uid of Some s \<Rightarrow> c(uid \<mapsto> s\<lparr>permits := permits s + 1\<rparr>) | None \<Rightarrow> c)"

text \<open>Requests come and go: \<open>held\<close> counts the permits alive, which only their holders drop.\<close>

inductive concurrency_reachable :: "concurrency_limiter \<Rightarrow> (int \<Rightarrow> nat) \<Rightarrow> bool" where
  none: "concurrency_reachable Map.empty (\<lambda>_. 0)"
| acquire: "concurrency_reachable c held \<Longrightarrow> try_acquire c uid mx = (ok, c') \<Longrightarrow>
    concurrency_reachable c' (if ok then held(uid := held uid + 1) else held)"
| release: "concurrency_reachable c held \<Longrightarrow> 0 < held uid \<Longrightarrow>
    concurrency_reachable (release_permit c uid) (held(uid := held uid - 1))"

definition permits_ok :: "concurrency_limiter \<Rightarrow> (int \<Rightarrow> nat) \<Rightarrow> int \<Rightarrow> bool" where
  "permits_ok c held uid \<longleftrightarrow>
     (case c uid of Some s \<Rightarrow> permits s + held uid = capacity s | None \<Rightarrow> held uid = 0)"

lemma concurrency_invariant: "concurrency_reachable c held \<Longrightarrow> \<forall>u. permits_ok c held u"
proof (induction rule: concurrency_reachable.induct)
  case (acquire c held uid mx ok c')
  show ?case
  proof
    fix u
    from acquire.IH have "permits_ok c held u" by blast
    with acquire.hyps(2) show "permits_ok c' (if ok then held(uid := held uid + 1) else held) u"
      by (auto simp: permits_ok_def try_acquire_def semaphore_of_def Let_def split: if_splits option.splits)
  qed
next
  case (release c held uid)
  show ?case
  proof
    fix u
    from release.IH have "permits_ok c held u" by blast
    with release.hyps(2) show "permits_ok (release_permit c uid) (held(uid := held uid - 1)) u"
      by (auto simp: permits_ok_def release_permit_def split: option.splits)
  qed
qed (simp add: permits_ok_def)

section \<open>Complexity downgrade\<close>

record complexity_config =
  complexity_enabled :: bool
  token_threshold :: nat
  cheap_model :: string

definition estimate_tokens_from_messages :: "json list \<Rightarrow> nat" where
  "estimate_tokens_from_messages msgs =
     sum_list (map (\<lambda>m. case as_str (jget m ''content'') of Some s \<Rightarrow> char_count s div 4 | None \<Rightarrow> 0) msgs)"

definition maybe_downgrade :: "complexity_config option \<Rightarrow> string \<Rightarrow> json list \<Rightarrow> string" where
  "maybe_downgrade cfg requested msgs =
     (case cfg of
        Some c \<Rightarrow>
          if complexity_enabled c
          then (if token_threshold c < estimate_tokens_from_messages msgs then cheap_model c else requested)
          else requested
      | None \<Rightarrow> requested)"

section \<open>Properties\<close>

text \<open>The admitted requests of one session, and their tokens, in a run of the limiter.\<close>

fun session_run :: "session_request list \<Rightarrow> session_limiter \<Rightarrow> bool list \<times> session_limiter" where
  "session_run [] l = ([], l)"
| "session_run (r # rs) l =
     (let (b, l1) = session_admit r l; (bs, l2) = session_run rs l1 in (b # bs, l2))"

lemma session_run_rpm: "session_run rs l = session_rpm.run rs l"
  by (induction rs arbitrary: l) auto

lemma session_run_tpm: "session_run rs l = session_tpm.run rs l"
  by (induction rs arbitrary: l) auto

definition granted :: "string \<Rightarrow> session_request list \<Rightarrow> bool list \<Rightarrow> session_request list" where
  "granted sid rs bs = map fst (filter (\<lambda>(r, b). session_key r = sid \<and> b) (zip rs bs))"

lemma sum_granted:
  "sum_list (map f (granted sid rs bs)) = sum_list (map (\<lambda>(r, b). if session_key r = sid \<and> b then f r else (0::nat)) (zip rs bs))"
  by (induction rs bs rule: list_induct2') (auto simp: granted_def)

text \<open>
  Within one minute a session is granted at most \<open>rpm\<close> requests and at most \<open>tpm\<close> tokens
  (each limit where it is switched on), whatever the sessions' requests are and however they
  interleave, as long as no single request is so large that the \<open>u32\<close> sum wraps.
\<close>

theorem session_limits_hold:
  assumes "\<And>r. r \<in> set rs \<Longrightarrow> fst r div 60 = minute" and "0 < t" and "0 < R"
    and "\<And>r. r \<in> set rs \<Longrightarrow> unat t + unat (snd (snd r)) < 2 ^ 32"
  shows "length (granted sid rs (fst (session_run rs (new_session_limiter t R)))) \<le> unat R
    \<and> sum_list (map (\<lambda>r. unat (snd (snd r))) (granted sid rs (fst (session_run rs (new_session_limiter t R))))) \<le> unat t"
proof
  let ?l = "new_session_limiter t R"
  have w: "session_window r = show_nat minute" if "r \<in> set rs" for r
    using assms(1) [OF that] by (simp add: session_window_def current_minute_key_def)
  have u: "used_requests ?l sid v = 0" "used_tokens ?l sid v = 0" for sid v
    by (simp_all add: used_requests_def used_tokens_def bucket_at_def new_session_limiter_def fresh_bucket_def)
  have ir: "rpm_inv R ?l" using assms(3) by (simp add: rpm_inv_def new_session_limiter_def)
  have it: "tpm_inv t ?l" using assms(2) u by (simp add: tpm_inv_def) (simp add: new_session_limiter_def)
  have "session_rpm.charge sid rs (fst (session_run rs ?l)) \<le> unat R"
    using session_rpm.run_bounded [OF ir, of rs "show_nat minute" sid] w u by (simp add: session_run_rpm)
  then show "length (granted sid rs (fst (session_run rs ?l))) \<le> unat R"
    using sum_granted [of "\<lambda>_. 1" sid rs] unfolding session_rpm.charge_def by (simp add: sum_list_triv)
  have "session_tpm.charge sid rs (fst (session_run rs ?l)) \<le> unat t"
    using session_tpm.run_bounded [OF it, of rs "show_nat minute" sid] w u assms(4)
    by (simp add: session_run_tpm fits_word_def session_tokens_def)
  then show "sum_list (map (\<lambda>r. unat (snd (snd r))) (granted sid rs (fst (session_run rs ?l)))) \<le> unat t"
    unfolding sum_granted session_tpm.charge_def session_tokens_def .
qed

theorem session_limits_hold_witness:
  "length (granted ''s'' [(60, ''s'', 5), (61, ''t'', 3), (75, ''s'', 5), (119, ''s'', 1)]
      (fst (session_run [(60, ''s'', 5), (61, ''t'', 3), (75, ''s'', 5), (119, ''s'', 1)]
        (new_session_limiter 8 2)))) \<le> 2"
proof -
  have "length (granted ''s'' [(60, ''s'', 5), (61, ''t'', 3), (75, ''s'', 5), (119, ''s'', 1)]
      (fst (session_run [(60, ''s'', 5), (61, ''t'', 3), (75, ''s'', 5), (119, ''s'', 1)]
        (new_session_limiter 8 2)))) \<le> unat (2 :: u32)"
    by (rule session_limits_hold [of _ 1, THEN conjunct1]) auto
  then show ?thesis by (simp del: session_run.simps)
qed

fun ip_run :: "string list \<Rightarrow> string \<Rightarrow> ip_rate_limiter \<Rightarrow> bool list" where
  "ip_run [] w l = []"
| "ip_run (ip # ips) w l = (let (b, l') = check_and_increment w l ip in b # ip_run ips w l')"

lemma ip_run_eq: "ip_run ips w l = fst (ip_limit.run (map (Pair w) ips) l)"
  by (induction ips arbitrary: l) (auto simp: ip_admit_def split_beta Let_def)

text \<open>
  The address limiter grants an address exactly the first \<open>limit_rpm\<close> requests of a minute,
  whatever other addresses send in between.
\<close>

theorem ip_limit_exact:
  assumes "0 < L"
  shows "length (filter (\<lambda>(x, b). x = ip \<and> b) (zip ips (ip_run ips w (new_ip_limiter L))))
    = min (unat L) (count_list ips ip)"
proof -
  let ?l = "new_ip_limiter L" and ?rs = "map (Pair w) ips"
  have i: "ip_inv L ?l" and u: "ip_used ?l ip w = 0"
    using assms by (simp_all add: ip_inv_def new_ip_limiter_def ip_used_def)
  have "ip_limit.charge ip ?rs (fst (ip_limit.run ?rs ?l)) = min (unat L) (length (filter (\<lambda>r. snd r = ip) ?rs))"
    by (subst ip_limit.run_exact [OF i, where w = w]) (auto simp: u)
  moreover have "length (filter (\<lambda>r. snd r = ip) ?rs) = count_list ips ip"
    by (induction ips) auto
  moreover have "ip_limit.charge ip ?rs bs = length (filter (\<lambda>(x, b). x = ip \<and> b) (zip ips bs))" for bs
    unfolding ip_limit.charge_def by (induction ips bs rule: list_induct2') auto
  ultimately show ?thesis unfolding ip_run_eq by metis
qed

theorem ip_limit_exact_witness:
  "length (filter (\<lambda>(x, b). x = ''10.0.0.1'' \<and> b)
     (zip [''10.0.0.1'', ''10.0.0.2'', ''10.0.0.1'', ''10.0.0.1'']
       (ip_run [''10.0.0.1'', ''10.0.0.2'', ''10.0.0.1'', ''10.0.0.1''] ''12:00'' (new_ip_limiter 2)))) = 2"
  using ip_limit_exact [of 2 "''10.0.0.1''" "[''10.0.0.1'', ''10.0.0.2'', ''10.0.0.1'', ''10.0.0.1'']" "''12:00''"]
  by simp

text \<open>
  However requests of however many users come and go, a user never holds more permits than
  the capacity its semaphore was created with, and is turned away only when it holds them all
  or its current limit is zero.
\<close>

theorem concurrency_capped:
  assumes "concurrency_reachable c held"
  shows "(case c uid of Some s \<Rightarrow> held uid \<le> capacity s | None \<Rightarrow> held uid = 0)
    \<and> fst (try_acquire c uid mx) = (0 < mx \<and> held uid < (case c uid of Some s \<Rightarrow> capacity s | None \<Rightarrow> mx))"
  using concurrency_invariant [OF assms, rule_format, of uid]
  by (auto simp: permits_ok_def try_acquire_def semaphore_of_def Let_def split: option.splits)

theorem concurrency_capped_witness:
  "fst (try_acquire (snd (try_acquire Map.empty 7 1)) 7 5) = False"
proof -
  have "try_acquire Map.empty 7 1 = (True, [7 \<mapsto> \<lparr>capacity = 1, permits = 0\<rparr>])"
    by (simp add: try_acquire_def semaphore_of_def)
  moreover from concurrency_capped [OF acquire [OF none this], of 7 5]
  have "\<not> fst (try_acquire [7 \<mapsto> \<lparr>capacity = 1, permits = 0\<rparr>] 7 5)" by simp
  ultimately show ?thesis by simp
qed

end
