(* ===== verification/Cost.thy ===== *)
theory Cost
  imports Prelude
begin

text \<open>
  Prices (\<open>src/src/router/cost.rs\<close>): the built-in table, the operator's entries over it, the
  lookup by provider-qualified name and the cost of a request with prompt-cache activity.
  The set of models already warned about is the calculator's only changing state. Rates and
  costs are rationals.
\<close>

record model_pricing =
  input_per_million :: rat
  output_per_million :: rat
  cache_read_per_million :: "rat option"
  cache_write_per_million :: "rat option"

record cost_calculator =
  pricing :: "string \<rightharpoonup> model_pricing"
  warned_unpriced :: "string set"

record pricing_entry =
  pe_model :: string
  pe_input :: rat
  pe_output :: rat
  pe_cache_read :: "rat option"
  pe_cache_write :: "rat option"

definition cache_read_discount :: rat where
  "cache_read_discount = 1 / 10"

definition cache_write_premium :: rat where
  "cache_write_premium = 125 / 100"

definition simple_pricing :: "rat \<Rightarrow> rat \<Rightarrow> model_pricing" where
  "simple_pricing i out =
     \<lparr>input_per_million = i, output_per_million = out, cache_read_per_million = None,
      cache_write_per_million = None\<rparr>"

definition cached_pricing :: "rat \<Rightarrow> rat \<Rightarrow> rat \<Rightarrow> rat \<Rightarrow> model_pricing" where
  "cached_pricing i out r w =
     \<lparr>input_per_million = i, output_per_million = out, cache_read_per_million = Some r,
      cache_write_per_million = Some w\<rparr>"

definition cache_read_rate :: "model_pricing \<Rightarrow> rat" where
  "cache_read_rate p =
     (case cache_read_per_million p of Some r \<Rightarrow> r | None \<Rightarrow> input_per_million p * cache_read_discount)"

definition cache_write_rate :: "model_pricing \<Rightarrow> rat" where
  "cache_write_rate p =
     (case cache_write_per_million p of Some r \<Rightarrow> r | None \<Rightarrow> input_per_million p * cache_write_premium)"

definition builtin_pricing :: "(string \<times> model_pricing) list" where
  "builtin_pricing =
     [(''claude-opus-4-6'', simple_pricing 15 75),
      (''claude-sonnet-4-6'', simple_pricing 3 15),
      (''claude-haiku-4-5'', simple_pricing (8 / 10) 4),
      (''claude-3-5-sonnet-20241022'', simple_pricing 3 15),
      (''claude-3-5-haiku-20241022'', simple_pricing (8 / 10) 4),
      (''claude-3-opus-20240229'', simple_pricing 15 75),
      (''gpt-4o'', simple_pricing (25 / 10) 10),
      (''gpt-4o-mini'', simple_pricing (15 / 100) (6 / 10)),
      (''gpt-4-turbo'', simple_pricing 10 30),
      (''gpt-4'', simple_pricing 30 60),
      (''gpt-3.5-turbo'', simple_pricing (5 / 10) (15 / 10)),
      (''gemini-1.5-pro'', simple_pricing (125 / 100) 5),
      (''gemini-1.5-flash'', simple_pricing (75 / 1000) (3 / 10)),
      (''gemini-2.5-pro'', simple_pricing (125 / 100) 10),
      (''gemini-2.5-flash'', simple_pricing (3 / 10) (25 / 10)),
      (''gemini-2.5-flash-lite'', simple_pricing (1 / 10) (4 / 10)),
      (''gemini-3.1-pro-preview'', cached_pricing 2 12 (2 / 10) 2),
      (''gemini-3.5-flash'', cached_pricing (15 / 10) 9 (15 / 100) (15 / 10)),
      (''gemini-3.5-flash-lite'', cached_pricing (3 / 10) (25 / 10) (3 / 100) (3 / 10)),
      (''gemini-3.1-flash-lite'', cached_pricing (25 / 100) (15 / 10) (25 / 1000) (25 / 100)),
      (''gpt-oss-120b'', simple_pricing (9 / 100) (36 / 100)),
      (''gpt-oss-120b-maas'', simple_pricing (9 / 100) (36 / 100)),
      (''gpt-oss-20b'', cached_pricing (7 / 100) (25 / 100) (7 / 1000) (7 / 100)),
      (''gpt-oss-20b-maas'', cached_pricing (7 / 100) (25 / 100) (7 / 1000) (7 / 100)),
      (''deepseek-chat'', simple_pricing (14 / 100) (28 / 100)),
      (''deepseek-coder'', simple_pricing (14 / 100) (28 / 100)),
      (''deepseek-reasoner'', simple_pricing (55 / 100) (219 / 100)),
      (''qwen-max'', simple_pricing (4 / 10) (12 / 10)),
      (''qwen-plus'', simple_pricing (7 / 100) (21 / 100)),
      (''qwen-turbo'', simple_pricing (5 / 100) (1 / 10)),
      (''doubao-lite-4k'', simple_pricing (1 / 10) (1 / 10)),
      (''doubao-lite-32k'', simple_pricing (1 / 10) (1 / 10)),
      (''doubao-pro-4k'', simple_pricing (8 / 10) (8 / 10)),
      (''doubao-pro-32k'', simple_pricing (8 / 10) (8 / 10)),
      (''claude-opus-4-5@20250101'', simple_pricing 15 75),
      (''claude-sonnet-4-6@20250514'', simple_pricing 3 15),
      (''claude-sonnet-4-5@20250929'', simple_pricing 3 15),
      (''claude-haiku-4-5@20251001'', simple_pricing (8 / 10) 4)]"

text \<open>A run of \<open>HashMap::insert\<close>s: a later entry for the same key replaces an earlier one.\<close>

definition insert_all :: "('k \<times> 'v) list \<Rightarrow> ('k \<rightharpoonup> 'v) \<Rightarrow> ('k \<rightharpoonup> 'v)" where
  "insert_all kvs m = fold (\<lambda>(k, v) m. m(k \<mapsto> v)) kvs m"

definition new_calculator :: cost_calculator where
  "new_calculator = \<lparr>pricing = insert_all builtin_pricing Map.empty, warned_unpriced = {}\<rparr>"

definition entry_pricing :: "pricing_entry \<Rightarrow> string \<times> model_pricing" where
  "entry_pricing e =
     (to_lower (pe_model e),
      \<lparr>input_per_million = pe_input e, output_per_million = pe_output e,
       cache_read_per_million = pe_cache_read e, cache_write_per_million = pe_cache_write e\<rparr>)"

definition new_with_config :: "pricing_entry list \<Rightarrow> cost_calculator" where
  "new_with_config es =
     new_calculator\<lparr>pricing := insert_all (map entry_pricing es) (pricing new_calculator)\<rparr>"

definition pricing_key :: "string \<Rightarrow> string" where
  "pricing_key model =
     to_lower (case split_once CHR ''/'' model of Some (_, m) \<Rightarrow> m | None \<Rightarrow> model)"

definition resolve_price :: "cost_calculator \<Rightarrow> string \<Rightarrow> model_pricing option" where
  "resolve_price c model =
     (let key = pricing_key model
      in case pricing c key of
           Some p \<Rightarrow> Some p
         | None \<Rightarrow> if CHR ''/'' \<in> set key then pricing c (after_last CHR ''/'' key) else None)"

definition has_price :: "cost_calculator \<Rightarrow> string \<Rightarrow> bool" where
  "has_price c model \<longleftrightarrow> resolve_price c model \<noteq> None"

definition note_unpriced :: "cost_calculator \<Rightarrow> string \<Rightarrow> bool \<times> cost_calculator" where
  "note_unpriced c model =
     (let key = pricing_key model
      in (key \<notin> warned_unpriced c, c\<lparr>warned_unpriced := insert key (warned_unpriced c)\<rparr>))"

definition price_of :: "model_pricing \<Rightarrow> nat \<Rightarrow> nat \<Rightarrow> nat \<Rightarrow> nat \<Rightarrow> rat" where
  "price_of p prompt completion cread cwrite =
     (of_nat prompt / 1000000) * input_per_million p
     + (of_nat completion / 1000000) * output_per_million p
     + (of_nat cread / 1000000) * cache_read_rate p
     + (of_nat cwrite / 1000000) * cache_write_rate p"

definition calculate_with_cache ::
  "cost_calculator \<Rightarrow> string \<Rightarrow> nat \<Rightarrow> nat \<Rightarrow> nat \<Rightarrow> nat \<Rightarrow> rat \<times> cost_calculator" where
  "calculate_with_cache c model prompt completion cread cwrite =
     (case resolve_price c model of
        Some p \<Rightarrow> (price_of p prompt completion cread cwrite, c)
      | None \<Rightarrow> (0, snd (note_unpriced c model)))"

definition calculate :: "cost_calculator \<Rightarrow> string \<Rightarrow> nat \<Rightarrow> nat \<Rightarrow> rat \<times> cost_calculator" where
  "calculate c model prompt completion = calculate_with_cache c model prompt completion 0 0"

section \<open>Facts\<close>

lemma insert_all_map_of: "insert_all kvs m k = (case map_of (rev kvs) k of Some v \<Rightarrow> Some v | None \<Rightarrow> m k)"
  unfolding insert_all_def
  by (induction kvs arbitrary: m rule: rev_induct) (auto split: option.splits)

lemma pricing_key_lower [simp]: "to_lower (pricing_key m) = pricing_key m"
  by (simp add: pricing_key_def)

lemma resolve_price_note [simp]: "resolve_price (snd (note_unpriced c m)) m' = resolve_price c m'"
  by (simp add: resolve_price_def note_unpriced_def Let_def split: option.splits)

lemma resolve_price_calculate [simp]:
  "resolve_price (snd (calculate_with_cache c m a b r w)) m' = resolve_price c m'"
  by (auto simp: calculate_with_cache_def split: option.splits)

lemma split_once_prefix: "CHR ''/'' \<notin> set p \<Longrightarrow> split_once CHR ''/'' (p @ CHR ''/'' # m) = Some (p, m)"
  by (simp add: split_once_Some)

text \<open>Any spelling of a model with a provider prefix finds an entry under the bare name.\<close>

lemma resolve_price_prefixed:
  assumes "CHR ''/'' \<notin> set p" and "CHR ''/'' \<notin> set m"
  shows "resolve_price c (p @ CHR ''/'' # m) = pricing c (to_lower m)"
  using assms by (auto simp: resolve_price_def pricing_key_def split_once_prefix Let_def split: option.splits)

lemma resolve_price_vendor:
  assumes "CHR ''/'' \<notin> set p" and "CHR ''/'' \<notin> set m"
  shows "resolve_price c (p @ CHR ''/'' # v @ CHR ''/'' # m) =
    (case pricing c (to_lower (v @ CHR ''/'' # m)) of Some x \<Rightarrow> Some x | None \<Rightarrow> pricing c (to_lower m))"
proof -
  have k: "pricing_key (p @ CHR ''/'' # v @ CHR ''/'' # m) = to_lower (v @ CHR ''/'' # m)"
    using assms(1) by (simp add: pricing_key_def split_once_prefix)
  have l: "to_lower (v @ CHR ''/'' # m) = to_lower v @ CHR ''/'' # to_lower m"
    by (simp add: to_lower_def to_lower_char_def is_upper_def)
  have "after_last CHR ''/'' (to_lower (v @ CHR ''/'' # m)) = to_lower m"
    unfolding l using assms(2) by (simp add: after_last_append)
  then show ?thesis
    using l by (auto simp: resolve_price_def k Let_def split: option.splits)
qed

definition rates_nonneg :: "model_pricing \<Rightarrow> bool" where
  "rates_nonneg p \<longleftrightarrow> 0 \<le> input_per_million p \<and> 0 \<le> output_per_million p
     \<and> 0 \<le> cache_read_rate p \<and> 0 \<le> cache_write_rate p"

lemma price_of_nonneg: "rates_nonneg p \<Longrightarrow> 0 \<le> price_of p a b r w"
  by (simp add: price_of_def rates_nonneg_def)

lemma price_of_add:
  "price_of p (a + a') (b + b') (r + r') (w + w') = price_of p a b r w + price_of p a' b' r' w'"
  by (simp add: price_of_def add_divide_distrib algebra_simps)

lemma builtin_nonneg: "list_all (\<lambda>(k, p). rates_nonneg p) builtin_pricing"
  by (simp add: builtin_pricing_def rates_nonneg_def cache_read_rate_def cache_write_rate_def
      simple_pricing_def cached_pricing_def cache_read_discount_def cache_write_premium_def)


section \<open>Properties\<close>

text \<open>
  An operator's price for a bare model name is what every spelling of that model is billed
  at, whatever provider prefix and letter case the request used, over any built-in price and
  over every earlier entry of the configuration.
\<close>

theorem operator_price_wins:
  assumes "CHR ''/'' \<notin> set p" and "CHR ''/'' \<notin> set m" and "to_lower m = to_lower (pe_model e)"
    and "\<And>e'. e' \<in> set later \<Longrightarrow> to_lower (pe_model e') \<noteq> to_lower (pe_model e)"
  shows "fst (calculate_with_cache (new_with_config (earlier @ e # later)) (p @ CHR ''/'' # m) a b r w)
    = of_nat a / 1000000 * pe_input e + of_nat b / 1000000 * pe_output e
      + of_nat r / 1000000 * (case pe_cache_read e of Some x \<Rightarrow> x | None \<Rightarrow> pe_input e / 10)
      + of_nat w / 1000000 * (case pe_cache_write e of Some x \<Rightarrow> x | None \<Rightarrow> pe_input e * 5 / 4)"
proof -
  have "map_of (rev (map entry_pricing later)) (to_lower m) = None"
    using assms(3) assms(4) by (force simp: map_of_eq_None_iff entry_pricing_def)
  then have "resolve_price (new_with_config (earlier @ e # later)) (p @ CHR ''/'' # m)
    = Some (snd (entry_pricing e))"
    unfolding resolve_price_prefixed [OF assms(1,2)] new_with_config_def
    by (simp add: insert_all_map_of map_add_def entry_pricing_def assms(3) split: option.splits)
  then show ?thesis
    by (simp add: calculate_with_cache_def price_of_def entry_pricing_def cache_read_rate_def
        cache_write_rate_def cache_read_discount_def cache_write_premium_def split: option.splits)
qed

definition sample_price :: pricing_entry where
  "sample_price =
     \<lparr>pe_model = ''GPT-4o'', pe_input = 4, pe_output = 8, pe_cache_read = Some 1, pe_cache_write = None\<rparr>"

theorem operator_price_wins_witness:
  "fst (calculate_with_cache (new_with_config [sample_price]) ''azure/gpt-4O'' 1000000 500000 2000000 1000000) = 15"
proof -
  have "to_lower ''gpt-4O'' = to_lower (pe_model sample_price)" unfolding sample_price_def by code_simp
  from operator_price_wins [of "''azure''" "''gpt-4O''" sample_price "[]" "[]" 1000000 500000 2000000 1000000, OF _ _ this]
  show ?thesis by (simp add: sample_price_def)
qed

text \<open>
  Metering is additive: however a model's usage is split over requests, and whatever models
  are warned about in between, the charges add up to the charge of the whole; a model without a
  price is charged nothing and reported by \<open>has_price\<close>.
\<close>

theorem metering_additive:
  "(let (whole, _) = calculate_with_cache c m (a + a') (b + b') (r + r') (w + w');
        (x, c1) = calculate_with_cache c m a b r w;
        (y, c2) = calculate_with_cache c1 m a' b' r' w'
    in whole = x + y \<and> has_price c2 m = has_price c m \<and> (has_price c m \<or> whole = 0))"
  by (cases "resolve_price c m")
    (simp_all add: calculate_with_cache_def has_price_def price_of_add Let_def split_beta)

end
