(* ===== verification/Ledger.thy ===== *)
theory Ledger
  imports Ordered_Maps
begin

text \<open>
  The rows the policy engine and the metering read and write
  (\<open>src/src/db/models.rs\<close>, \<open>src/src/db/sqlite/budgets.rs\<close>, \<open>costs.rs\<close>, \<open>rate_limits.rs\<close>).
  A table is the list of its rows; timestamps are text compared bytewise, as SQLite compares
  them. \<open>faults\<close> says which repository calls currently fail (the database is unreachable, a
  statement times out): a failing call is an error value and changes nothing.
\<close>

record user =
  user_id :: int
  user_name :: string
  email :: "string option"
  enabled :: bool
  user_created_at :: string
  metadata :: string
  user_api_key_id :: "int option"
  spend_reset_at :: "string option"
  api_key_project :: "string option"
  session_window_secs :: "int option"

record budget_rule =
  br_id :: int
  br_user_id :: "int option"
  br_group_name :: "string option"
  br_api_key_id :: "int option"
  br_tag :: "string option"
  br_window :: string
  limit_usd :: "rat option"
  limit_tokens :: "int option"
  model_allow :: string
  model_deny :: string
  rate_rpm :: "int option"
  max_concurrent :: "int option"
  br_project :: "string option"
  window_start :: "string option"
  window_end :: "string option"

record ledger_entry =
  le_id :: int
  le_user_id :: int
  le_prompt_id :: "int option"
  le_model :: string
  le_provider :: string
  le_project :: "string option"
  tokens_in :: int
  tokens_out :: int
  cost_usd :: rat
  le_created_at :: string
  le_api_key_id :: "int option"
  cache_hit :: bool
  saved_usd :: rat
  attribution_correlation_id :: "string option"
  attribution_tags :: string
  le_experiment_id :: "int option"
  le_experiment_variant :: "string option"
  tokens_estimated :: bool

record new_ledger_entry =
  ne_user_id :: int
  ne_prompt_id :: "int option"
  ne_model :: string
  ne_provider :: string
  ne_project :: "string option"
  ne_tokens_in :: int
  ne_tokens_out :: int
  ne_cost_usd :: rat
  ne_api_key_id :: "int option"
  ne_correlation_id :: "string option"
  ne_attribution_tags :: string
  ne_experiment_id :: "int option"
  ne_experiment_variant :: "string option"
  ne_tokens_estimated :: bool

datatype repo_op =
    ListForUser | ListForKey | ListForScope
  | SumUserSince | SumUserBetween | SumKeySince | SumTokensUser | SumTokensKey
  | SumProjectSince | SumProjectBetween | SumGlobalSince | SumGlobalBetween
  | CountRequest | CreateCost | CreateCacheHit
  | CacheSummary | CacheDaily | CacheByModel | CacheRows | CostStats | UserStats | DailySpend | SummaryByModel | CostRows
  | DistinctProjects | DistinctModels | DistinctProviders | RecentCorrelations | TagKeys | AttributionValues
  | ArmTotals | ArmByModel | ArmByDay
  | RunStamp | VariantTotals | VariantModels | ExperimentRuns | RunKeys | UnboundRequests | ListBefore

record database =
  budget_rules :: "budget_rule list"
  cost_ledger :: "ledger_entry list"
  rate_limit_state :: "int \<times> string \<rightharpoonup> int"
  faults :: "repo_op \<Rightarrow> bool"

definition db_error :: string where
  "db_error = ''database error''"

definition repo :: "database \<Rightarrow> repo_op \<Rightarrow> 'a \<Rightarrow> string + 'a" where
  "repo db op x = (if faults db op then Inl db_error else Inr x)"

lemma repo_Inr [simp]: "repo db op x = Inr y \<longleftrightarrow> \<not> faults db op \<and> y = x"
  by (auto simp: repo_def)

section \<open>Budget rules\<close>

datatype budget_scope = GlobalScope | ProjectScope string | UserScope int | GroupScope string

definition list_for_user :: "database \<Rightarrow> int \<Rightarrow> string + budget_rule list" where
  "list_for_user db uid =
     repo db ListForUser (sort_key br_id (filter (\<lambda>r. br_user_id r = Some uid) (budget_rules db)))"

definition list_for_key :: "database \<Rightarrow> int \<Rightarrow> string + budget_rule list" where
  "list_for_key db kid =
     repo db ListForKey (sort_key br_id (filter (\<lambda>r. br_api_key_id r = Some kid) (budget_rules db)))"

definition in_scope :: "budget_scope \<Rightarrow> budget_rule \<Rightarrow> bool" where
  "in_scope s r =
     (case s of
        GlobalScope \<Rightarrow> br_user_id r = None \<and> br_group_name r = None \<and> br_project r = None \<and> br_api_key_id r = None
      | ProjectScope p \<Rightarrow> br_project r = Some p
      | UserScope u \<Rightarrow> br_user_id r = Some u
      | GroupScope g \<Rightarrow> br_group_name r = Some g)"

definition list_for_scope :: "database \<Rightarrow> budget_scope \<Rightarrow> string + budget_rule list" where
  "list_for_scope db s = repo db ListForScope (sort_key br_id (filter (in_scope s) (budget_rules db)))"

section \<open>Sums over the ledger\<close>

definition sum_cost :: "(ledger_entry \<Rightarrow> bool) \<Rightarrow> database \<Rightarrow> rat" where
  "sum_cost p db = sum_list (map cost_usd (filter p (cost_ledger db)))"

definition sum_tokens :: "(ledger_entry \<Rightarrow> bool) \<Rightarrow> database \<Rightarrow> int" where
  "sum_tokens p db = sum_list (map (\<lambda>e. tokens_in e + tokens_out e) (filter p (cost_ledger db)))"

definition since :: "string \<Rightarrow> ledger_entry \<Rightarrow> bool" where
  "since t e \<longleftrightarrow> t \<le> le_created_at e"

definition between :: "string \<Rightarrow> string \<Rightarrow> ledger_entry \<Rightarrow> bool" where
  "between t u e \<longleftrightarrow> t \<le> le_created_at e \<and> le_created_at e < u"

definition sum_for_user_since :: "database \<Rightarrow> int \<Rightarrow> string \<Rightarrow> string + rat" where
  "sum_for_user_since db uid t = repo db SumUserSince (sum_cost (\<lambda>e. le_user_id e = uid \<and> since t e) db)"

definition sum_for_user_between :: "database \<Rightarrow> int \<Rightarrow> string \<Rightarrow> string \<Rightarrow> string + rat" where
  "sum_for_user_between db uid t u =
     repo db SumUserBetween (sum_cost (\<lambda>e. le_user_id e = uid \<and> between t u e) db)"

definition sum_for_key_since :: "database \<Rightarrow> int \<Rightarrow> string \<Rightarrow> string + rat" where
  "sum_for_key_since db kid t =
     repo db SumKeySince (sum_cost (\<lambda>e. le_api_key_id e = Some kid \<and> since t e) db)"

definition sum_tokens_for_user_since :: "database \<Rightarrow> int \<Rightarrow> string \<Rightarrow> string + int" where
  "sum_tokens_for_user_since db uid t =
     repo db SumTokensUser (sum_tokens (\<lambda>e. le_user_id e = uid \<and> since t e) db)"

definition sum_tokens_for_key_since :: "database \<Rightarrow> int \<Rightarrow> string \<Rightarrow> string + int" where
  "sum_tokens_for_key_since db kid t =
     repo db SumTokensKey (sum_tokens (\<lambda>e. le_api_key_id e = Some kid \<and> since t e) db)"

definition sum_for_project_since :: "database \<Rightarrow> string \<Rightarrow> string \<Rightarrow> string + rat" where
  "sum_for_project_since db p t =
     repo db SumProjectSince (sum_cost (\<lambda>e. le_project e = Some p \<and> since t e) db)"

definition sum_for_project_between :: "database \<Rightarrow> string \<Rightarrow> string \<Rightarrow> string \<Rightarrow> string + rat" where
  "sum_for_project_between db p t u =
     repo db SumProjectBetween (sum_cost (\<lambda>e. le_project e = Some p \<and> between t u e) db)"

definition sum_global_since :: "database \<Rightarrow> string \<Rightarrow> string + rat" where
  "sum_global_since db t = repo db SumGlobalSince (sum_cost (since t) db)"

definition sum_global_between :: "database \<Rightarrow> string \<Rightarrow> string \<Rightarrow> string + rat" where
  "sum_global_between db t u = repo db SumGlobalBetween (sum_cost (between t u) db)"

section \<open>Writes\<close>

text \<open>The id the database assigns to a new row: above every id in the table.\<close>

definition next_id :: "int list \<Rightarrow> int" where
  "next_id ids = fold max ids 0 + 1"

definition ledger_row :: "int \<Rightarrow> string \<Rightarrow> new_ledger_entry \<Rightarrow> ledger_entry" where
  "ledger_row i now e =
     \<lparr>le_id = i, le_user_id = ne_user_id e, le_prompt_id = ne_prompt_id e, le_model = ne_model e,
      le_provider = ne_provider e, le_project = ne_project e, tokens_in = ne_tokens_in e,
      tokens_out = ne_tokens_out e, cost_usd = ne_cost_usd e, le_created_at = now,
      le_api_key_id = ne_api_key_id e, cache_hit = False, saved_usd = 0,
      attribution_correlation_id = ne_correlation_id e, attribution_tags = ne_attribution_tags e,
      le_experiment_id = ne_experiment_id e, le_experiment_variant = ne_experiment_variant e,
      tokens_estimated = ne_tokens_estimated e\<rparr>"

definition create_cost :: "string \<Rightarrow> database \<Rightarrow> new_ledger_entry \<Rightarrow> (string + ledger_entry) \<times> database" where
  "create_cost now db e =
     (if faults db CreateCost then (Inl db_error, db)
      else let row = ledger_row (next_id (map le_id (cost_ledger db))) now e
           in (Inr row, db\<lparr>cost_ledger := cost_ledger db @ [row]\<rparr>))"

definition create_cache_hit :: "string \<Rightarrow> database \<Rightarrow> new_ledger_entry \<Rightarrow> (string + ledger_entry) \<times> database" where
  "create_cache_hit now db e =
     (if faults db CreateCacheHit then (Inl db_error, db)
      else let row = (ledger_row (next_id (map le_id (cost_ledger db))) now e)
                       \<lparr>cost_usd := 0, cache_hit := True, saved_usd := ne_cost_usd e\<rparr>
           in (Inr row, db\<lparr>cost_ledger := cost_ledger db @ [row]\<rparr>))"

definition increment_and_get_count :: "database \<Rightarrow> int \<Rightarrow> string \<Rightarrow> (string + int) \<times> database" where
  "increment_and_get_count db uid w =
     (if faults db CountRequest then (Inl db_error, db)
      else let n = (case rate_limit_state db (uid, w) of Some c \<Rightarrow> c + 1 | None \<Rightarrow> 1)
           in (Inr n, db\<lparr>rate_limit_state := (rate_limit_state db)((uid, w) \<mapsto> n)\<rparr>))"

definition cleanup_old_windows :: "database \<Rightarrow> string \<Rightarrow> database" where
  "cleanup_old_windows db w =
     db\<lparr>rate_limit_state := (\<lambda>(u, k). if k < w then None else rate_limit_state db (u, k))\<rparr>"

lemmas sum_defs = sum_for_user_since_def sum_for_user_between_def sum_for_key_since_def
  sum_tokens_for_user_since_def sum_tokens_for_key_since_def sum_for_project_since_def
  sum_for_project_between_def sum_global_since_def sum_global_between_def

section \<open>Facts\<close>

lemma fold_max_ge: "a \<le> fold max ids (a :: int)"
proof (induction ids arbitrary: a)
  case (Cons i ids)
  from Cons [of "max i a"] have "max i a \<le> fold max ids (max i a)" .
  then show ?case by simp
qed simp

lemma fold_max_in: "x \<in> set ids \<Longrightarrow> x \<le> fold max ids (a :: int)"
proof (induction ids arbitrary: a)
  case (Cons i ids)
  then show ?case using fold_max_ge [of "max i a" ids] by auto
qed simp

lemma next_id_fresh: "i \<in> set ids \<Longrightarrow> i < next_id ids"
  using fold_max_in [of i ids 0] by (simp add: next_id_def)

lemma sum_cost_append: "sum_cost p (db\<lparr>cost_ledger := cost_ledger db @ [row]\<rparr>) = sum_cost p db + (if p row then cost_usd row else 0)"
  by (simp add: sum_cost_def)

text \<open>Counting a request touches neither the rules nor the ledger.\<close>

lemma increment_frame [simp]:
  "budget_rules (snd (increment_and_get_count db u w)) = budget_rules db"
  "cost_ledger (snd (increment_and_get_count db u w)) = cost_ledger db"
  "faults (snd (increment_and_get_count db u w)) = faults db"
  by (simp_all add: increment_and_get_count_def Let_def)

definition rate_count :: "database \<Rightarrow> int \<Rightarrow> string \<Rightarrow> int" where
  "rate_count db u w = (case rate_limit_state db (u, w) of Some c \<Rightarrow> c | None \<Rightarrow> 0)"

lemma increment_Inr:
  "increment_and_get_count db u w = (Inr n, db') \<Longrightarrow> n = rate_count db u w + 1 \<and> rate_count db' u w = n
    \<and> (\<forall>v. v \<noteq> u \<longrightarrow> rate_count db' v w = rate_count db v w)"
  by (auto simp: increment_and_get_count_def rate_count_def Let_def split: if_splits option.splits)

section \<open>Properties\<close>

text \<open>
  A response served from the cache is usage, never spend: the row it writes is fresh, costs
  nothing, carries the avoided cost, and leaves every cost sum of the ledger unchanged, while a
  metered call adds its cost to exactly the sums its row belongs to.
\<close>

theorem cache_hit_is_never_spend:
  assumes "create_cache_hit now db e = (Inr row, db')" and "create_cost now db e = (Inr row2, db2)"
  shows "sum_cost p db' = sum_cost p db \<and> saved_usd row = ne_cost_usd e \<and> cache_hit row
    \<and> le_id row \<notin> le_id ` set (cost_ledger db)
    \<and> sum_cost p db2 = sum_cost p db + (if p row2 then ne_cost_usd e else 0)"
  using assms next_id_fresh [of "next_id (map le_id (cost_ledger db))" "map le_id (cost_ledger db)"]
  by (auto simp: create_cache_hit_def create_cost_def sum_cost_append Let_def ledger_row_def split: if_splits)

definition empty_db :: database where
  "empty_db = \<lparr>budget_rules = [], cost_ledger = [], rate_limit_state = Map.empty, faults = (\<lambda>_. False)\<rparr>"

definition sample_entry :: new_ledger_entry where
  "sample_entry =
     \<lparr>ne_user_id = 1, ne_prompt_id = None, ne_model = ''m'', ne_provider = ''p'', ne_project = None,
      ne_tokens_in = 10, ne_tokens_out = 5, ne_cost_usd = 3, ne_api_key_id = None, ne_correlation_id = None,
      ne_attribution_tags = ''{}'', ne_experiment_id = None, ne_experiment_variant = None,
      ne_tokens_estimated = False\<rparr>"

theorem cache_hit_is_never_spend_witness:
  "sum_cost (\<lambda>_. True) (snd (create_cache_hit ''t'' empty_db sample_entry)) = 0
   \<and> sum_cost (\<lambda>_. True) (snd (create_cost ''t'' empty_db sample_entry)) = 3"
proof -
  have h: "create_cache_hit ''t'' empty_db sample_entry =
      (Inr ((ledger_row 1 ''t'' sample_entry)\<lparr>cost_usd := 0, cache_hit := True, saved_usd := ne_cost_usd sample_entry\<rparr>),
       snd (create_cache_hit ''t'' empty_db sample_entry))"
    and c: "create_cost ''t'' empty_db sample_entry =
      (Inr (ledger_row 1 ''t'' sample_entry), snd (create_cost ''t'' empty_db sample_entry))"
    by (simp_all add: create_cache_hit_def create_cost_def empty_db_def Let_def next_id_def)
  from cache_hit_is_never_spend [OF h c, of "\<lambda>_. True"] show ?thesis
    by (simp add: sum_cost_def empty_db_def sample_entry_def)
qed

end
