(* ===== verification/Policy.thy ===== *)
theory Policy
  imports Ledger Retry
begin

text \<open>
  The policy engine (\<open>src/src/router/policy.rs\<close>, \<open>src/src/router/declarative_policy.rs\<close>):
  declarative rules of the configuration first, then the key's, the user's, the project's and
  the global budget rules. \<open>parse\<close> is \<open>serde_json::from_str::<Vec<String>>\<close> on the stored
  allow and deny lists; a clock gives what the date library derives from one reading of now.
\<close>

record policy_condition =
  pc_tag :: "string option"
  pc_user_id :: "int option"
  pc_model :: "string option"

record policy_rule =
  pr_name :: string
  condition :: policy_condition
  allow_models :: "string list"
  budget_usd :: "rat option"
  pr_window :: string
  priority :: int
  pr_cache :: "bool option"

record clock =
  day_start :: string
  week_start :: string
  month_start :: string
  minute_bucket :: string

record policy_engine =
  pe_rules :: "policy_rule list option"
  pe_clock :: clock

text \<open>\<open>pe_rules = None\<close> is an engine without live settings.\<close>

record budget_context =
  bc_limit_usd :: rat
  bc_spent_usd :: rat
  bc_window :: string

datatype policy_decision = Allow "nat option" | Deny string nat "budget_context option"

section \<open>Declarative rules\<close>

definition condition_matches :: "policy_condition \<Rightarrow> user \<Rightarrow> string \<Rightarrow> bool" where
  "condition_matches c u model =
     ((case pc_tag c of Some t \<Rightarrow> api_key_project u = Some t | None \<Rightarrow> True)
      \<and> (case pc_user_id c of Some i \<Rightarrow> user_id u = i | None \<Rightarrow> True)
      \<and> (case pc_model c of Some m \<Rightarrow> model = m | None \<Rightarrow> True))"

text \<open>The sort by descending priority is stable, so the earlier of two equal ones wins.\<close>

definition find_matching_rule :: "policy_rule list \<Rightarrow> user \<Rightarrow> string \<Rightarrow> policy_rule option" where
  "find_matching_rule rules u model =
     find (\<lambda>r. condition_matches (condition r) u model) (sort_key (\<lambda>r. - priority r) rules)"

definition matched_rule :: "policy_engine \<Rightarrow> user \<Rightarrow> string \<Rightarrow> policy_rule option" where
  "matched_rule pe u model =
     (case pe_rules pe of
        None \<Rightarrow> None
      | Some rules \<Rightarrow> if rules = [] then None else find_matching_rule rules u model)"

definition cache_enabled :: "policy_engine \<Rightarrow> user \<Rightarrow> string \<Rightarrow> bool" where
  "cache_enabled pe u model =
     (case matched_rule pe u model of
        Some r \<Rightarrow> (case pr_cache r of Some b \<Rightarrow> b | None \<Rightarrow> True)
      | None \<Rightarrow> True)"

definition window_start_for :: "clock \<Rightarrow> string \<Rightarrow> string" where
  "window_start_for c w =
     (if w = ''daily'' then day_start c else if w = ''weekly'' then week_start c else month_start c)"

definition effective_window_start :: "clock \<Rightarrow> user \<Rightarrow> string \<Rightarrow> string" where
  "effective_window_start c u w =
     (let raw = window_start_for c w
      in case spend_reset_at u of Some r \<Rightarrow> if raw < r then r else raw | None \<Rightarrow> raw)"

text \<open>\<open>{:.n}\<close> of a money value: rounded to \<open>n\<close> decimals, ties to even.\<close>

definition round_even :: "rat \<Rightarrow> int" where
  "round_even x =
     (let f = \<lfloor>x\<rfloor>; d = x - of_int f
      in if d < 1 / 2 \<or> (d = 1 / 2 \<and> even f) then f else f + 1)"

definition pad_zeros :: "nat \<Rightarrow> string \<Rightarrow> string" where
  "pad_zeros n s = replicate (n - length s) CHR ''0'' @ s"

definition show_fixed :: "nat \<Rightarrow> rat \<Rightarrow> string" where
  "show_fixed n x =
     (let k = nat (round_even (\<bar>x\<bar> * 10 ^ n))
      in (if x < 0 then ''-'' else []) @ show_nat (k div 10 ^ n) @
         (if n = 0 then [] else ''.'' @ pad_zeros n (show_nat (k mod 10 ^ n))))"

definition usd_of :: "rat \<Rightarrow> rat \<Rightarrow> string \<Rightarrow> string" where
  "usd_of spent limit w = ''$'' @ show_fixed 4 spent @ '' of $'' @ show_fixed 2 limit @ '' '' @ w @ '' limit''"

definition not_permitted_msg :: "string \<Rightarrow> policy_rule \<Rightarrow> string" where
  "not_permitted_msg model r =
     ''model '' @ quoted model @ '' not permitted by policy rule '' @ quoted (pr_name r)"

definition check_declarative_rules ::
  "policy_engine \<Rightarrow> database \<Rightarrow> user \<Rightarrow> string \<Rightarrow> string + policy_decision option" where
  "check_declarative_rules pe db u model =
     (case matched_rule pe u model of
        None \<Rightarrow> Inr None
      | Some r \<Rightarrow>
          if allow_models r \<noteq> [] \<and> model \<notin> set (allow_models r)
          then Inr (Some (Deny (not_permitted_msg model r) 403 None))
          else case budget_usd r of
                 None \<Rightarrow> Inr (Some (Allow None))
               | Some cap \<Rightarrow>
                   bind_sum (sum_for_user_since db (user_id u) (window_start_for (pe_clock pe) (pr_window r)))
                     (\<lambda>spent.
                        if cap \<le> spent
                        then Inr (Some (Deny
                               (''budget exceeded by policy rule '' @ quoted (pr_name r) @ '': '' @
                                usd_of spent cap (pr_window r)) 429
                               (Some \<lparr>bc_limit_usd = cap, bc_spent_usd = spent, bc_window = pr_window r\<rparr>)))
                        else Inr (Some (Allow None))))"

section \<open>Budget rules of a key or a user\<close>

definition parsed_list :: "(string \<Rightarrow> string list option) \<Rightarrow> string \<Rightarrow> string list" where
  "parsed_list parse s = (case parse s of Some xs \<Rightarrow> xs | None \<Rightarrow> [])"

definition check_model_lists_denial ::
  "(string \<Rightarrow> string list option) \<Rightarrow> budget_rule \<Rightarrow> string \<Rightarrow> string option" where
  "check_model_lists_denial parse r model =
     (let allow = parsed_list parse (model_allow r)
      in if allow \<noteq> [] \<and> model \<notin> set allow
         then Some (''model '' @ quoted model @ '' not in allow list'')
         else if model \<in> set (parsed_list parse (model_deny r))
         then Some (''model '' @ quoted model @ '' is denied'')
         else None)"

definition check_model_lists ::
  "(string \<Rightarrow> string list option) \<Rightarrow> budget_rule \<Rightarrow> string \<Rightarrow> policy_decision option" where
  "check_model_lists parse r model =
     map_option (\<lambda>reason. Deny reason 403 None) (check_model_lists_denial parse r model)"

definition rpm_window :: "policy_engine \<Rightarrow> string" where
  "rpm_window pe = ''rpm:'' @ minute_bucket (pe_clock pe)"

definition check_rate_limit ::
  "policy_engine \<Rightarrow> user \<Rightarrow> budget_rule \<Rightarrow> database \<Rightarrow> (string + policy_decision option) \<times> database" where
  "check_rate_limit pe u r db =
     (case rate_rpm r of
        None \<Rightarrow> (Inr None, db)
      | Some rpm \<Rightarrow>
          (case increment_and_get_count db (user_id u) (rpm_window pe) of
             (Inl e, db') \<Rightarrow> (Inl e, db')
           | (Inr n, db') \<Rightarrow>
               (Inr (if rpm < n then Some (Deny ''rate limit exceeded'' 429 None) else None), db')))"

definition or_else :: "string option \<Rightarrow> string \<Rightarrow> string" where
  "or_else x d = (case x of Some s \<Rightarrow> s | None \<Rightarrow> d)"

definition rule_spent :: "policy_engine \<Rightarrow> user \<Rightarrow> budget_rule \<Rightarrow> database \<Rightarrow> string + rat" where
  "rule_spent pe u r db =
     (if br_window r = ''total'' then
        (let start = or_else (window_start r) ''1970-01-01T00:00:00Z'';
             stop = or_else (window_end r) ''9999-12-31T23:59:59Z''
         in case br_api_key_id r of
              Some kid \<Rightarrow> sum_for_key_since db kid start
            | None \<Rightarrow> sum_for_user_between db (user_id u) start stop)
      else
        (let ws = effective_window_start (pe_clock pe) u (br_window r)
         in case br_api_key_id r of
              Some kid \<Rightarrow> sum_for_key_since db kid ws
            | None \<Rightarrow> sum_for_user_since db (user_id u) ws))"

definition budget_denial :: "string \<Rightarrow> string \<Rightarrow> rat \<Rightarrow> rat \<Rightarrow> string \<Rightarrow> policy_decision" where
  "budget_denial what suffix spent cap w =
     Deny (what @ usd_of spent cap w @ suffix) 429
       (Some \<lparr>bc_limit_usd = cap, bc_spent_usd = spent, bc_window = w\<rparr>)"

definition check_usd_budget ::
  "policy_engine \<Rightarrow> user \<Rightarrow> budget_rule \<Rightarrow> database \<Rightarrow> string + policy_decision option" where
  "check_usd_budget pe u r db =
     (case limit_usd r of
        None \<Rightarrow> Inr None
      | Some cap \<Rightarrow>
          bind_sum (rule_spent pe u r db)
            (\<lambda>spent. Inr (if cap \<le> spent
                          then Some (budget_denial ''budget exceeded: '' [] spent cap (br_window r))
                          else None)))"

definition rule_tokens :: "policy_engine \<Rightarrow> user \<Rightarrow> budget_rule \<Rightarrow> database \<Rightarrow> string + int" where
  "rule_tokens pe u r db =
     (let ws = effective_window_start (pe_clock pe) u (br_window r)
      in case br_api_key_id r of
           Some kid \<Rightarrow> sum_tokens_for_key_since db kid ws
         | None \<Rightarrow> sum_tokens_for_user_since db (user_id u) ws)"

definition token_denial_msg :: "int \<Rightarrow> int \<Rightarrow> string \<Rightarrow> string" where
  "token_denial_msg n cap w =
     ''token budget exceeded: '' @ show_int n @ '' of '' @ show_int cap @ '' '' @ w @ '' tokens used''"

definition check_token_budget ::
  "policy_engine \<Rightarrow> user \<Rightarrow> budget_rule \<Rightarrow> database \<Rightarrow> string + policy_decision option" where
  "check_token_budget pe u r db =
     (case limit_tokens r of
        None \<Rightarrow> Inr None
      | Some cap \<Rightarrow>
          bind_sum (rule_tokens pe u r db)
            (\<lambda>n. Inr (if cap \<le> n then Some (Deny (token_denial_msg n cap (br_window r)) 429 None)
                      else None)))"

text \<open>\<open>mc.max(0) as u32\<close>, and the running minimum.\<close>

definition rule_concurrency :: "budget_rule \<Rightarrow> nat option \<Rightarrow> nat option" where
  "rule_concurrency r mn =
     (case max_concurrent r of
        None \<Rightarrow> mn
      | Some mc \<Rightarrow>
          (let c = nat mc mod 2 ^ 32
           in Some (case mn of None \<Rightarrow> c | Some prev \<Rightarrow> min prev c)))"


text \<open>The rule loop of \<open>check\<close>: \<open>Inl\<close> the verdict the loop returned, \<open>Inr\<close> the minimum it leaves.\<close>

fun rules_loop ::
  "(string \<Rightarrow> string list option) \<Rightarrow> policy_engine \<Rightarrow> user \<Rightarrow> string \<Rightarrow> budget_rule list \<Rightarrow>
   nat option \<Rightarrow> database \<Rightarrow> (string + (policy_decision + nat option)) \<times> database" where
  "rules_loop parse pe u model [] mn db = (Inr (Inr mn), db)"
| "rules_loop parse pe u model (r # rs) mn db =
     (if br_window r = ''target'' then rules_loop parse pe u model rs mn db
      else case check_model_lists parse r model of
             Some d \<Rightarrow> (Inr (Inl d), db)
           | None \<Rightarrow>
               (case check_rate_limit pe u r db of
                  (Inl e, db1) \<Rightarrow> (Inl e, db1)
                | (Inr (Some d), db1) \<Rightarrow> (Inr (Inl d), db1)
                | (Inr None, db1) \<Rightarrow>
                    (case check_usd_budget pe u r db1 of
                       Inl e \<Rightarrow> (Inl e, db1)
                     | Inr (Some d) \<Rightarrow> (Inr (Inl d), db1)
                     | Inr None \<Rightarrow>
                         (case check_token_budget pe u r db1 of
                            Inl e \<Rightarrow> (Inl e, db1)
                          | Inr (Some d) \<Rightarrow> (Inr (Inl d), db1)
                          | Inr None \<Rightarrow>
                              rules_loop parse pe u model rs (rule_concurrency r mn) db1))))"

section \<open>Project and global backstops\<close>

definition backstop_spent :: "policy_engine \<Rightarrow> string option \<Rightarrow> budget_rule \<Rightarrow> database \<Rightarrow> string + rat" where
  "backstop_spent pe proj r db =
     (if br_window r = ''total'' then
        (let start = or_else (window_start r) ''1970-01-01T00:00:00Z'';
             stop = or_else (window_end r) ''9999-12-31T23:59:59Z''
         in case proj of
              Some p \<Rightarrow> sum_for_project_between db p start stop
            | None \<Rightarrow> sum_global_between db start stop)
      else
        (let ws = window_start_for (pe_clock pe) (br_window r)
         in case proj of
              Some p \<Rightarrow> sum_for_project_since db p ws
            | None \<Rightarrow> sum_global_since db ws))"

fun check_backstop_rules ::
  "policy_engine \<Rightarrow> budget_rule list \<Rightarrow> string option \<Rightarrow> database \<Rightarrow> string + policy_decision option" where
  "check_backstop_rules pe [] proj db = Inr None"
| "check_backstop_rules pe (r # rs) proj db =
     (case limit_usd r of
        None \<Rightarrow> check_backstop_rules pe rs proj db
      | Some cap \<Rightarrow>
          bind_sum (backstop_spent pe proj r db)
            (\<lambda>spent.
               if cap \<le> spent then
                 Inr (Some (case proj of
                    Some p \<Rightarrow> budget_denial ''project budget exceeded: '' ('' for project '' @ quoted p) spent cap (br_window r)
                  | None \<Rightarrow> budget_denial ''global budget exceeded: '' [] spent cap (br_window r)))
               else check_backstop_rules pe rs proj db))"

section \<open>The decision\<close>

text \<open>Key rules before user rules.\<close>

definition caller_rules :: "database \<Rightarrow> user \<Rightarrow> string + budget_rule list" where
  "caller_rules db u =
     bind_sum (list_for_user db (user_id u))
       (\<lambda>rules. case user_api_key_id u of
                  Some kid \<Rightarrow> bind_sum (list_for_key db kid) (\<lambda>key_rules. Inr (key_rules @ rules))
                | None \<Rightarrow> Inr rules)"

definition check_backstops :: "policy_engine \<Rightarrow> user \<Rightarrow> database \<Rightarrow> string + policy_decision option" where
  "check_backstops pe u db =
     bind_sum
       (case api_key_project u of
          Some p \<Rightarrow> bind_sum (list_for_scope db (ProjectScope p)) (\<lambda>rs. check_backstop_rules pe rs (Some p) db)
        | None \<Rightarrow> Inr None)
       (\<lambda>d. case d of
              Some x \<Rightarrow> Inr (Some x)
            | None \<Rightarrow> bind_sum (list_for_scope db GlobalScope) (\<lambda>rs. check_backstop_rules pe rs None db))"

definition policy_check ::
  "(string \<Rightarrow> string list option) \<Rightarrow> policy_engine \<Rightarrow> database \<Rightarrow> user \<Rightarrow> string \<Rightarrow>
   (string + policy_decision) \<times> database" where
  "policy_check parse pe db u model =
     (case check_declarative_rules pe db u model of
        Inl e \<Rightarrow> (Inl e, db)
      | Inr (Some d) \<Rightarrow> (Inr d, db)
      | Inr None \<Rightarrow>
          (case caller_rules db u of
             Inl e \<Rightarrow> (Inl e, db)
           | Inr rules \<Rightarrow>
               (case rules_loop parse pe u model rules None db of
                  (Inl e, db1) \<Rightarrow> (Inl e, db1)
                | (Inr (Inl d), db1) \<Rightarrow> (Inr d, db1)
                | (Inr (Inr mn), db1) \<Rightarrow>
                    (case check_backstops pe u db1 of
                       Inl e \<Rightarrow> (Inl e, db1)
                     | Inr (Some d) \<Rightarrow> (Inr d, db1)
                     | Inr None \<Rightarrow> (Inr (Allow mn), db1)))))"

definition model_permitted_denial ::
  "(string \<Rightarrow> string list option) \<Rightarrow> policy_engine \<Rightarrow> database \<Rightarrow> user \<Rightarrow> string \<Rightarrow> string + string option" where
  "model_permitted_denial parse pe db u model =
     (case matched_rule pe u model of
        Some r \<Rightarrow>
          Inr (if allow_models r \<noteq> [] \<and> model \<notin> set (allow_models r)
               then Some (not_permitted_msg model r) else None)
      | None \<Rightarrow>
          bind_sum (caller_rules db u)
            (\<lambda>rules. Inr (find_map (\<lambda>r. if br_window r = ''target'' then None
                                       else check_model_lists_denial parse r model) rules)))"

section \<open>Within the limits\<close>

definition under_usd :: "string + rat \<Rightarrow> rat option \<Rightarrow> bool" where
  "under_usd spent limit =
     (case limit of None \<Rightarrow> True | Some cap \<Rightarrow> (case spent of Inr s \<Rightarrow> s < cap | Inl _ \<Rightarrow> False))"

definition under_tokens :: "string + int \<Rightarrow> int option \<Rightarrow> bool" where
  "under_tokens n limit =
     (case limit of None \<Rightarrow> True | Some cap \<Rightarrow> (case n of Inr k \<Rightarrow> k < cap | Inl _ \<Rightarrow> False))"

definition rule_within ::
  "(string \<Rightarrow> string list option) \<Rightarrow> policy_engine \<Rightarrow> user \<Rightarrow> string \<Rightarrow> database \<Rightarrow> budget_rule \<Rightarrow> bool" where
  "rule_within parse pe u model db r \<longleftrightarrow>
     br_window r = ''target'' \<or>
     (check_model_lists_denial parse r model = None \<and> under_usd (rule_spent pe u r db) (limit_usd r)
      \<and> under_tokens (rule_tokens pe u r db) (limit_tokens r))"

definition counted_rule :: "budget_rule \<Rightarrow> bool" where
  "counted_rule r \<longleftrightarrow> br_window r \<noteq> ''target'' \<and> rate_rpm r \<noteq> None"

definition same_rows :: "database \<Rightarrow> database \<Rightarrow> bool" where
  "same_rows a b \<longleftrightarrow> budget_rules a = budget_rules b \<and> cost_ledger a = cost_ledger b \<and> faults a = faults b"

lemma same_rows_refl [simp]: "same_rows db db"
  by (simp add: same_rows_def)

lemma same_rows_trans: "same_rows a b \<Longrightarrow> same_rows b c \<Longrightarrow> same_rows a c"
  by (simp add: same_rows_def)

lemma same_rows_repo:
  assumes "same_rows db db'"
  shows "repo db' = (repo db :: repo_op \<Rightarrow> 'a \<Rightarrow> _)" and "sum_cost p db' = sum_cost p db"
    and "sum_tokens p db' = sum_tokens p db" and "budget_rules db' = budget_rules db"
  using assms by (simp_all add: same_rows_def sum_cost_def sum_tokens_def repo_def fun_eq_iff)

lemma same_rows_reads:
  assumes "same_rows db db'"
  shows "rule_spent pe u r db' = rule_spent pe u r db" and "rule_tokens pe u r db' = rule_tokens pe u r db"
    and "backstop_spent pe proj r db' = backstop_spent pe proj r db"
    and "list_for_scope db' s = list_for_scope db s" and "caller_rules db' u = caller_rules db u"
  unfolding rule_spent_def rule_tokens_def backstop_spent_def list_for_scope_def
    caller_rules_def list_for_user_def list_for_key_def sum_defs same_rows_repo [OF assms] by (rule refl)+

lemma same_rows_within: "same_rows db db' \<Longrightarrow> rule_within parse pe u model db' r = rule_within parse pe u model db r"
  by (simp add: rule_within_def same_rows_reads)

lemma check_rate_limit_pass:
  assumes "check_rate_limit pe u r db = (Inr None, db')" and "br_window r \<noteq> ''target''"
  shows "same_rows db db'
    \<and> rate_count db' (user_id u) (rpm_window pe)
        = rate_count db (user_id u) (rpm_window pe) + (if counted_rule r then 1 else 0)
    \<and> (\<forall>rpm. rate_rpm r = Some rpm \<longrightarrow> rate_count db (user_id u) (rpm_window pe) < rpm)"
proof (cases "rate_rpm r")
  case None
  with assms show ?thesis by (simp add: check_rate_limit_def counted_rule_def)
next
  case (Some rpm)
  obtain n where n: "increment_and_get_count db (user_id u) (rpm_window pe) = (Inr n, db')" "n \<le> rpm"
    using assms Some by (auto simp: check_rate_limit_def split: prod.splits sum.splits if_splits)
  have "same_rows db db'"
    using increment_frame [of db "user_id u" "rpm_window pe"] n(1) by (simp add: same_rows_def)
  with n increment_Inr [OF n(1)] Some assms(2) show ?thesis by (simp add: counted_rule_def)
qed

lemma check_usd_budget_pass: "check_usd_budget pe u r db = Inr None \<longleftrightarrow> under_usd (rule_spent pe u r db) (limit_usd r)"
  by (auto simp: check_usd_budget_def under_usd_def bind_sum_Inr_iff not_le split: option.splits sum.splits)

lemma check_token_budget_pass:
  "check_token_budget pe u r db = Inr None \<longleftrightarrow> under_tokens (rule_tokens pe u r db) (limit_tokens r)"
  by (auto simp: check_token_budget_def under_tokens_def bind_sum_Inr_iff not_le split: option.splits sum.splits)

lemma rules_loop_target: "br_window r = ''target'' \<Longrightarrow>
    rules_loop parse pe u model (r # rs) mn db = rules_loop parse pe u model rs mn db"
  by simp

lemma rules_loop_step:
  assumes "rules_loop parse pe u model (r # rs) mn db = (Inr (Inr mn'), db')" and "br_window r \<noteq> ''target''"
  obtains db1 where "check_model_lists_denial parse r model = None"
    and "check_rate_limit pe u r db = (Inr None, db1)"
    and "check_usd_budget pe u r db1 = Inr None" and "check_token_budget pe u r db1 = Inr None"
    and "rules_loop parse pe u model rs (rule_concurrency r mn) db1 = (Inr (Inr mn'), db')"
  using assms by (auto simp: check_model_lists_def split: option.splits prod.splits sum.splits)

lemma rules_loop_allow:
  assumes "rules_loop parse pe u model rs mn db = (Inr (Inr mn'), db')"
  shows "same_rows db db'
    \<and> (\<forall>r \<in> set rs. rule_within parse pe u model db r
         \<and> (counted_rule r \<longrightarrow> rate_count db (user_id u) (rpm_window pe) < the (rate_rpm r)))
    \<and> rate_count db' (user_id u) (rpm_window pe)
        = rate_count db (user_id u) (rpm_window pe) + int (length (filter counted_rule rs))
    \<and> mn' = fold rule_concurrency (filter (\<lambda>r. br_window r \<noteq> ''target'') rs) mn"
  using assms
proof (induction rs arbitrary: mn db)
  case (Cons r rs)
  show ?case
  proof (cases "br_window r = ''target''")
    case True
    with Cons.prems have "rules_loop parse pe u model rs mn db = (Inr (Inr mn'), db')" by simp
    from Cons.IH [OF this] True show ?thesis by (simp add: rule_within_def counted_rule_def)
  next
    case False
    from Cons.prems False obtain db1 where s: "check_model_lists_denial parse r model = None"
      "check_rate_limit pe u r db = (Inr None, db1)" "check_usd_budget pe u r db1 = Inr None"
      "check_token_budget pe u r db1 = Inr None"
      "rules_loop parse pe u model rs (rule_concurrency r mn) db1 = (Inr (Inr mn'), db')"
      by (rule rules_loop_step)
    note rl = check_rate_limit_pass [OF s(2) False]
    note ih = Cons.IH [OF s(5)]
    have w: "rule_within parse pe u model db r"
      using s(1,3,4) same_rows_reads [OF rl [THEN conjunct1]]
      by (simp add: rule_within_def check_usd_budget_pass check_token_budget_pass)
    have rest: "rule_within parse pe u model db x
        \<and> (counted_rule x \<longrightarrow> rate_count db (user_id u) (rpm_window pe) < the (rate_rpm x))" if "x \<in> set rs" for x
      using ih rl that same_rows_within [OF rl [THEN conjunct1]] by (fastforce split: if_splits)
    have "counted_rule r \<longrightarrow> rate_count db (user_id u) (rpm_window pe) < the (rate_rpm r)"
      using rl by (auto simp: counted_rule_def)
    with w rest ih rl False show ?thesis by (auto intro: same_rows_trans)
  qed
qed simp

lemma check_backstop_rules_pass:
  "check_backstop_rules pe rs proj db = Inr None \<longleftrightarrow>
     (\<forall>r \<in> set rs. under_usd (backstop_spent pe proj r db) (limit_usd r))"
proof (induction rs)
  case (Cons r rs)
  show ?case
  proof (cases "limit_usd r")
    case None
    with Cons show ?thesis by (simp add: under_usd_def)
  next
    case (Some cap)
    with Cons show ?thesis
      by (cases "backstop_spent pe proj r db") (auto simp: under_usd_def not_le)
  qed
qed simp

definition caller_rule :: "user \<Rightarrow> budget_rule \<Rightarrow> bool" where
  "caller_rule u r \<longleftrightarrow>
     br_user_id r = Some (user_id u) \<or> (user_api_key_id u \<noteq> None \<and> br_api_key_id r = user_api_key_id u)"

lemma caller_rules_set:
  "caller_rules db u = Inr rules \<Longrightarrow> set rules = {r \<in> set (budget_rules db). caller_rule u r}"
  by (auto simp: caller_rules_def bind_sum_Inr_iff list_for_user_def list_for_key_def caller_rule_def
      split: option.splits)

text \<open>The project's and the global budgets as the caller meets them.\<close>

definition backstops_within :: "policy_engine \<Rightarrow> user \<Rightarrow> database \<Rightarrow> bool" where
  "backstops_within pe u db \<longleftrightarrow>
     (\<forall>r \<in> set (budget_rules db).
        (api_key_project u \<noteq> None \<and> br_project r = api_key_project u \<longrightarrow>
           under_usd (backstop_spent pe (api_key_project u) r db) (limit_usd r))
        \<and> (in_scope GlobalScope r \<longrightarrow> under_usd (backstop_spent pe None r db) (limit_usd r)))"

lemma list_for_scope_Inr: "list_for_scope db s = Inr rs \<Longrightarrow> set rs = {r \<in> set (budget_rules db). in_scope s r}"
  by (auto simp: list_for_scope_def)

lemma check_backstops_pass:
  "check_backstops pe u db = Inr None \<Longrightarrow> backstops_within pe u db"
  unfolding check_backstops_def backstops_within_def
  by (auto simp: bind_sum_Inr_iff check_backstop_rules_pass in_scope_def dest!: list_for_scope_Inr
      split: option.splits)

lemma check_backstops_complete:
  assumes "\<not> faults db ListForScope" and "backstops_within pe u db"
  shows "check_backstops pe u db = Inr None"
proof -
  have g: "bind_sum (list_for_scope db GlobalScope) (\<lambda>rs. check_backstop_rules pe rs None db) = Inr None"
    using assms by (auto simp: list_for_scope_def repo_def check_backstop_rules_pass backstops_within_def)
  show ?thesis
  proof (cases "api_key_project u")
    case None
    with g show ?thesis by (simp add: check_backstops_def)
  next
    case (Some p)
    then have "bind_sum (list_for_scope db (ProjectScope p)) (\<lambda>rs. check_backstop_rules pe rs (Some p) db) = Inr None"
      using assms by (auto simp: list_for_scope_def repo_def check_backstop_rules_pass backstops_within_def in_scope_def)
    with Some g show ?thesis by (simp add: check_backstops_def)
  qed
qed

text \<open>The checks of the rules only ever deny.\<close>

definition is_deny :: "policy_decision \<Rightarrow> bool" where
  "is_deny d = (case d of Deny _ _ _ \<Rightarrow> True | Allow _ \<Rightarrow> False)"

lemma is_deny_simps [simp]: "is_deny (Deny r s c)" "\<not> is_deny (Allow m)" "is_deny (budget_denial a b x y w)"
  by (simp_all add: is_deny_def budget_denial_def)

lemma checks_deny:
  "check_model_lists parse r model = Some d \<Longrightarrow> is_deny d"
  "check_rate_limit pe u r db = (Inr (Some d), db') \<Longrightarrow> is_deny d"
  "check_usd_budget pe u r db = Inr (Some d) \<Longrightarrow> is_deny d"
  "check_token_budget pe u r db = Inr (Some d) \<Longrightarrow> is_deny d"
  by (auto simp: check_model_lists_def check_rate_limit_def check_usd_budget_def check_token_budget_def
      bind_sum_Inr_iff split: option.splits prod.splits sum.splits if_splits)

lemma rules_loop_deny: "rules_loop parse pe u model rs mn db = (Inr (Inl d), db') \<Longrightarrow> is_deny d"
  by (induction rs arbitrary: mn db)
    (auto split: if_splits option.splits prod.splits sum.splits dest: checks_deny)

lemma check_backstop_rules_deny: "check_backstop_rules pe rs proj db = Inr (Some d) \<Longrightarrow> is_deny d"
  by (induction rs) (auto simp: bind_sum_Inr_iff split: option.splits if_splits)

lemma check_backstops_deny: "check_backstops pe u db = Inr (Some d) \<Longrightarrow> is_deny d"
  by (auto simp: check_backstops_def bind_sum_Inr_iff split: option.splits dest: check_backstop_rules_deny)

lemma policy_check_allow:
  assumes "policy_check parse pe db u model = (Inr (Allow mc), db')" and "matched_rule pe u model = None"
  obtains rules where "caller_rules db u = Inr rules"
    and "rules_loop parse pe u model rules None db = (Inr (Inr mc), db')"
    and "check_backstops pe u db' = Inr None"
  using assms
  by (auto simp: policy_check_def check_declarative_rules_def split: sum.splits prod.splits option.splits
      dest: rules_loop_deny check_backstops_deny)

lemma check_rate_limit_room:
  assumes "\<not> faults db CountRequest" and "counted_rule r \<Longrightarrow> rate_count db (user_id u) (rpm_window pe) + 1 \<le> the (rate_rpm r)"
    and "br_window r \<noteq> ''target''"
  obtains db' where "check_rate_limit pe u r db = (Inr None, db')"
proof (cases "rate_rpm r")
  case None
  then show ?thesis using that by (simp add: check_rate_limit_def)
next
  case (Some rpm)
  obtain n db' where n: "increment_and_get_count db (user_id u) (rpm_window pe) = (Inr n, db')"
    using assms(1) by (auto simp: increment_and_get_count_def Let_def)
  with increment_Inr [OF n] assms(2,3) Some show ?thesis
    using that [of db'] by (auto simp: check_rate_limit_def counted_rule_def)
qed

lemma rules_loop_complete:
  assumes "\<not> faults db CountRequest" and "\<And>r. r \<in> set rs \<Longrightarrow> rule_within parse pe u model db r"
    and "\<And>r. r \<in> set rs \<Longrightarrow> counted_rule r \<Longrightarrow>
      rate_count db (user_id u) (rpm_window pe) + int (length (filter counted_rule rs)) \<le> the (rate_rpm r)"
  shows "\<exists>mn' db'. rules_loop parse pe u model rs mn db = (Inr (Inr mn'), db')"
  using assms
proof (induction rs arbitrary: mn db)
  case (Cons r rs)
  show ?case
  proof (cases "br_window r = ''target''")
    case True
    with Cons.prems Cons.IH [of db mn] show ?thesis by (simp add: counted_rule_def)
  next
    case False
    obtain db1 where rl: "check_rate_limit pe u r db = (Inr None, db1)"
      by (rule check_rate_limit_room [of db r u pe]) (use Cons.prems(1) Cons.prems(3) [of r] False in auto)
    note p = check_rate_limit_pass [OF rl False]
    note reads = same_rows_reads [OF p [THEN conjunct1]] and same = same_rows_within [OF p [THEN conjunct1]]
    have w: "rule_within parse pe u model db r" using Cons.prems(2) by simp
    have "\<exists>mn' db'. rules_loop parse pe u model rs (rule_concurrency r mn) db1 = (Inr (Inr mn'), db')"
    proof (rule Cons.IH)
      show "\<not> faults db1 CountRequest" using p Cons.prems(1) by (simp add: same_rows_def)
      show "rule_within parse pe u model db1 x" if "x \<in> set rs" for x
        using Cons.prems(2) that by (simp add: same)
      show "rate_count db1 (user_id u) (rpm_window pe) + int (length (filter counted_rule rs)) \<le> the (rate_rpm x)"
        if "x \<in> set rs" "counted_rule x" for x
        using Cons.prems(3) [of x] p that by (auto split: if_splits)
    qed
    moreover have "check_usd_budget pe u r db1 = Inr None" "check_token_budget pe u r db1 = Inr None"
      using w False by (simp_all add: check_usd_budget_pass check_token_budget_pass reads rule_within_def)
    moreover have "check_model_lists parse r model = None"
      using w False by (simp add: rule_within_def check_model_lists_def)
    ultimately show ?thesis using False rl by simp
  qed
qed simp

definition sample_user :: user where
  "sample_user =
     \<lparr>user_id = 1, user_name = ''ada'', email = None, enabled = True, user_created_at = ''t'', metadata = ''{}'',
      user_api_key_id = Some 9, spend_reset_at = None, api_key_project = None, session_window_secs = None\<rparr>"

definition sample_rule :: "int \<Rightarrow> int option \<Rightarrow> int option \<Rightarrow> budget_rule" where
  "sample_rule i uid kid =
     \<lparr>br_id = i, br_user_id = uid, br_group_name = None, br_api_key_id = kid, br_tag = None,
      br_window = ''daily'', limit_usd = Some 10, limit_tokens = None, model_allow = ''a'', model_deny = ''d'',
      rate_rpm = Some 3, max_concurrent = Some (4 - i), br_project = None, window_start = None, window_end = None\<rparr>"

definition sample_db :: database where
  "sample_db = empty_db\<lparr>budget_rules := [sample_rule 1 (Some 1) None, sample_rule 2 None (Some 9)]\<rparr>"

definition sample_engine :: policy_engine where
  "sample_engine =
     \<lparr>pe_rules = None,
      pe_clock = \<lparr>day_start = ''2'', week_start = ''1'', month_start = ''0'', minute_bucket = ''12:00''\<rparr>\<rparr>"

definition sample_parse :: "string \<Rightarrow> string list option" where
  "sample_parse s = (if s = ''a'' then Some [''m''] else if s = ''d'' then Some [''x''] else None)"

lemma sample_fields [simp]:
  "user_id sample_user = 1" "user_api_key_id sample_user = Some 9" "api_key_project sample_user = None"
  "br_id (sample_rule i uid kid) = i" "br_user_id (sample_rule i uid kid) = uid"
  "br_api_key_id (sample_rule i uid kid) = kid" "br_window (sample_rule i uid kid) = ''daily''"
  "limit_usd (sample_rule i uid kid) = Some 10" "limit_tokens (sample_rule i uid kid) = None"
  "rate_rpm (sample_rule i uid kid) = Some 3" "max_concurrent (sample_rule i uid kid) = Some (4 - i)"
  "budget_rules sample_db = [sample_rule 1 (Some 1) None, sample_rule 2 None (Some 9)]"
  "cost_ledger sample_db = []" "rate_limit_state sample_db = Map.empty" "faults sample_db op = False"
  "br_project (sample_rule i uid kid) = None"
  by (simp_all add: sample_user_def sample_rule_def sample_db_def empty_db_def)

lemma sample_unmatched [simp]: "matched_rule sample_engine u m = None"
  by (simp add: matched_rule_def sample_engine_def)

lemma sample_lists [simp]: "check_model_lists_denial sample_parse (sample_rule i uid kid) ''m'' = None"
  by (simp add: check_model_lists_denial_def parsed_list_def sample_parse_def sample_rule_def)

lemma sample_caller_rules [simp]:
  "caller_rules sample_db sample_user = Inr [sample_rule 2 None (Some 9), sample_rule 1 (Some 1) None]"
  by (simp add: caller_rules_def list_for_user_def list_for_key_def repo_def)

lemma sample_spent: "cost_ledger db = [] \<Longrightarrow> faults db = faults sample_db \<Longrightarrow>
    check_usd_budget pe u (sample_rule i uid kid) db = Inr None"
  by (simp add: check_usd_budget_def rule_spent_def sum_defs sum_cost_def repo_def Let_def split: option.splits)

lemma sample_scope: "list_for_scope db GlobalScope = Inr [] \<Longrightarrow> check_backstops pe sample_user db = Inr None"
  by (simp add: check_backstops_def)

lemma sample_check:
  "policy_check sample_parse sample_engine sample_db sample_user ''m'' =
     (Inr (Allow (Some 2)),
      sample_db\<lparr>rate_limit_state := [(1, rpm_window sample_engine) \<mapsto> 2]\<rparr>)"
  by (simp add: policy_check_def check_declarative_rules_def check_model_lists_def check_rate_limit_def
      increment_and_get_count_def sample_spent fun_eq_iff check_token_budget_def rule_concurrency_def
      sample_scope list_for_scope_def in_scope_def repo_def)

section \<open>Properties\<close>





text \<open>
  Every rate rule of the caller counts the request, all on one counter per user and minute:
  an allowed request moves the counter by the number of rate rules it met.
\<close>

theorem request_counted_once_per_rate_rule:
  assumes "policy_check parse pe db u model = (Inr (Allow mc), db')" and "matched_rule pe u model = None"
    and "caller_rules db u = Inr rules"
  shows "rate_count db' (user_id u) (rpm_window pe)
    = rate_count db (user_id u) (rpm_window pe) + int (length (filter counted_rule rules))"
proof -
  from policy_check_allow [OF assms(1,2)] obtain rs where r: "caller_rules db u = Inr rs"
    and l: "rules_loop parse pe u model rs None db = (Inr (Inr mc), db')" .
  with rules_loop_allow [OF l] assms(3) show ?thesis by simp
qed

theorem request_counted_once_per_rate_rule_witness:
  "rate_count (snd (policy_check sample_parse sample_engine sample_db sample_user ''m'')) 1 (rpm_window sample_engine) = 2"
  using request_counted_once_per_rate_rule [OF sample_check sample_unmatched sample_caller_rules]
  by (simp add: sample_check rate_count_def counted_rule_def)

text \<open>
  The failover re-check agrees with the gate: a model the policy allows for a caller is never
  refused by the re-check, whatever the declarative or database rules, and the re-check reads the
  same rows.
\<close>

theorem recheck_agrees_with_gate:
  assumes "policy_check parse pe db u model = (Inr (Allow mc), db')"
  shows "model_permitted_denial parse pe db u model = Inr None"
proof (cases "matched_rule pe u model")
  case None
  from policy_check_allow [OF assms None] obtain rules where r: "caller_rules db u = Inr rules"
    and l: "rules_loop parse pe u model rules None db = (Inr (Inr mc), db')" .
  have "find_map (\<lambda>r. if br_window r = ''target'' then None else check_model_lists_denial parse r model) rules = None"
    using rules_loop_allow [OF l] by (auto simp: find_map_None rule_within_def)
  with None r show ?thesis by (simp add: model_permitted_denial_def)
next
  case (Some r)
  with assms have "allow_models r = [] \<or> model \<in> set (allow_models r)"
    by (auto simp: policy_check_def check_declarative_rules_def split: if_splits)
  with Some show ?thesis by (auto simp: model_permitted_denial_def)
qed

theorem recheck_agrees_with_gate_witness:
  "model_permitted_denial sample_parse sample_engine sample_db sample_user ''m'' = Inr None"
  by (rule recheck_agrees_with_gate [OF sample_check])

end
