(* ===== verification/Cache_Request.thy ===== *)
theory Cache_Request
  imports Prelude
begin

text \<open>
  Per-request cache directives and the plan they lead to
  (\<open>src/src/router/cache/request.rs\<close>, the lifetimes of \<open>src/src/router/cache/store.rs\<close>). A
  header map is an association list of lower-case names and raw values; durations are whole
  seconds.
\<close>

section \<open>Lifetimes\<close>

datatype entry_ttl = Finite nat | Unlimited

definition ttl_from_secs :: "nat \<Rightarrow> entry_ttl" where
  "ttl_from_secs secs = (if secs = 0 then Unlimited else Finite secs)"

definition ttl_secs :: "entry_ttl \<Rightarrow> nat option" where
  "ttl_secs t = (case t of Finite d \<Rightarrow> Some (max d 1) | Unlimited \<Rightarrow> None)"

definition ttl_min :: "entry_ttl \<Rightarrow> entry_ttl \<Rightarrow> entry_ttl" where
  "ttl_min s t =
     (case (ttl_secs s, ttl_secs t) of
        (Some a, Some b) \<Rightarrow> Finite (min a b)
      | (Some _, None) \<Rightarrow> s
      | (None, _) \<Rightarrow> t)"

text \<open>\<open>stored_at + ttl as i64\<close>; an unlimited entry has \<open>expires_at = 0\<close>.\<close>

definition ttl_expires_at :: "entry_ttl \<Rightarrow> int \<Rightarrow> int" where
  "ttl_expires_at t stored = (case ttl_secs t of Some s \<Rightarrow> stored + int s | None \<Rightarrow> 0)"

section \<open>Directives\<close>

datatype cache_mode = ModeDefault | ModeUse | ModeBypass | ModeRefresh

record cache_directives =
  mode :: cache_mode
  d_ttl :: "entry_ttl option"
  d_namespace :: "string option"

definition default_directives :: cache_directives where
  "default_directives = \<lparr>mode = ModeDefault, d_ttl = None, d_namespace = None\<rparr>"

definition mode_header :: string where
  "mode_header = ''x-modelrouter-cache''"

definition ttl_header :: string where
  "ttl_header = ''x-modelrouter-cache-ttl''"

definition namespace_header :: string where
  "namespace_header = ''x-modelrouter-cache-namespace''"

definition max_requested_ttl_secs :: nat where
  "max_requested_ttl_secs = 10 * 365 * 24 * 3600"

text \<open>\<open>{:?}\<close> of a visible-ASCII string.\<close>

definition debug_char :: "char \<Rightarrow> string" where
  "debug_char c =
     (if c = CHR 0x22 then [CHR 0x5C, CHR 0x22]
      else if c = CHR 0x5C then [CHR 0x5C, CHR 0x5C]
      else if c = CHR 0x09 then [CHR 0x5C, CHR ''t'']
      else [c])"

definition debug_str :: "string \<Rightarrow> string" where
  "debug_str s = CHR 0x22 # concat (map debug_char s) @ [CHR 0x22]"

definition namespace_max_len :: nat where
  "namespace_max_len = 64"

definition namespace_char :: "char \<Rightarrow> bool" where
  "namespace_char c \<longleftrightarrow> is_alnum c \<or> c = CHR ''.'' \<or> c = CHR ''_'' \<or> c = CHR ''-''"

definition parse_namespace :: "string \<Rightarrow> string + string" where
  "parse_namespace raw =
     (if 1 \<le> length raw \<and> length raw \<le> namespace_max_len \<and> list_all namespace_char raw
      then Inr raw
      else Inl (''cache namespace must be 1-64 characters from A-Z a-z 0-9 . _ - (got '' @ debug_str raw @ '')''))"

type_synonym headers = "(string \<times> string) list"

text \<open>\<open>HeaderValue::to_str\<close>: visible ASCII and tab only.\<close>

definition visible_ascii :: "char \<Rightarrow> bool" where
  "visible_ascii c \<longleftrightarrow> (32 \<le> (of_char c :: nat) \<and> (of_char c :: nat) < 127) \<or> c = CHR 0x09"

definition header_str :: "headers \<Rightarrow> string \<Rightarrow> string + string option" where
  "header_str hs name =
     (case map_of hs name of
        None \<Rightarrow> Inr None
      | Some v \<Rightarrow>
          if \<not> list_all visible_ascii v then Inl (name @ '' must be visible ASCII'')
          else let t = trim v in Inr (if t = [] then None else Some t))"

definition parse_mode :: "headers \<Rightarrow> string + cache_mode" where
  "parse_mode hs =
     bind_sum (header_str hs mode_header)
       (\<lambda>v. case v of
              None \<Rightarrow> Inr ModeDefault
            | Some s \<Rightarrow>
                if eq_ignore_case s ''use'' then Inr ModeUse
                else if eq_ignore_case s ''bypass'' then Inr ModeBypass
                else if eq_ignore_case s ''refresh'' then Inr ModeRefresh
                else Inl (mode_header @ '' must be one of use, bypass, refresh (got '' @ debug_str s @ '')''))"

definition ttl_error :: "string \<Rightarrow> string" where
  "ttl_error s =
     ttl_header @ '' must be a whole number of seconds up to 315360000, or 0 for no expiry (got '' @
     debug_str s @ '')''"

definition parse_ttl :: "headers \<Rightarrow> string + entry_ttl option" where
  "parse_ttl hs =
     bind_sum (header_str hs ttl_header)
       (\<lambda>v. case v of
              None \<Rightarrow> Inr None
            | Some s \<Rightarrow>
                (case parse_unsigned u64_max s of
                   Some secs \<Rightarrow>
                     if secs \<le> max_requested_ttl_secs then Inr (Some (ttl_from_secs secs)) else Inl (ttl_error s)
                 | None \<Rightarrow> Inl (ttl_error s)))"

definition parse_namespace_header :: "headers \<Rightarrow> string + string option" where
  "parse_namespace_header hs =
     bind_sum (header_str hs namespace_header)
       (\<lambda>v. case v of
              None \<Rightarrow> Inr None
            | Some s \<Rightarrow>
                (case parse_namespace s of
                   Inr ns \<Rightarrow> Inr (Some ns)
                 | Inl e \<Rightarrow> Inl (namespace_header @ '': '' @ e)))"

definition directives_from_headers :: "headers \<Rightarrow> string + cache_directives" where
  "directives_from_headers hs =
     bind_sum (parse_mode hs)
       (\<lambda>m. bind_sum (parse_ttl hs)
         (\<lambda>t. bind_sum (parse_namespace_header hs)
           (\<lambda>n. Inr \<lparr>mode = m, d_ttl = t, d_namespace = n\<rparr>)))"

section \<open>Plans\<close>

datatype cache_plan = Skip | Bypass | LookupAndStore | StoreOnly

definition decide :: "cache_mode \<Rightarrow> bool \<Rightarrow> bool \<Rightarrow> bool \<Rightarrow> cache_plan" where
  "decide m class_enabled eligible allow_opt_in =
     (if \<not> class_enabled then Skip
      else case m of
             ModeBypass \<Rightarrow> Bypass
           | ModeUse \<Rightarrow> if allow_opt_in then LookupAndStore else if eligible then LookupAndStore else Skip
           | ModeRefresh \<Rightarrow> if allow_opt_in then StoreOnly else if eligible then LookupAndStore else Skip
           | ModeDefault \<Rightarrow> if eligible then LookupAndStore else Skip)"

definition plan_lookup :: "cache_plan \<Rightarrow> bool" where
  "plan_lookup p \<longleftrightarrow> p = LookupAndStore"

definition plan_store :: "cache_plan \<Rightarrow> bool" where
  "plan_store p \<longleftrightarrow> p = LookupAndStore \<or> p = StoreOnly"

definition miss_header :: "cache_plan \<Rightarrow> string option" where
  "miss_header p =
     (case p of
        Skip \<Rightarrow> None
      | Bypass \<Rightarrow> Some ''BYPASS''
      | LookupAndStore \<Rightarrow> Some ''MISS''
      | StoreOnly \<Rightarrow> Some ''REFRESH'')"

section \<open>Facts\<close>

text \<open>How long an entry may be served, with \<open>None\<close> for ever.\<close>

definition no_longer :: "nat option \<Rightarrow> nat option \<Rightarrow> bool" where
  "no_longer a b = (case b of None \<Rightarrow> True | Some y \<Rightarrow> (case a of None \<Rightarrow> False | Some x \<Rightarrow> x \<le> y))"

lemma ttl_min_bounds: "no_longer (ttl_secs (ttl_min s t)) (ttl_secs s) \<and> no_longer (ttl_secs (ttl_min s t)) (ttl_secs t)"
  by (cases s; cases t) (auto simp: ttl_min_def ttl_secs_def no_longer_def)

lemma ttl_min_secs: "ttl_secs (ttl_min s t) =
    (case (ttl_secs s, ttl_secs t) of (Some a, Some b) \<Rightarrow> Some (min a b) | (Some a, None) \<Rightarrow> Some a | (None, b) \<Rightarrow> b)"
  by (cases s; cases t) (auto simp: ttl_min_def ttl_secs_def)

lemma parse_namespace_ok: "parse_namespace raw = Inr ns \<Longrightarrow> ns = raw \<and> ns \<noteq> [] \<and> length ns \<le> 64 \<and> list_all namespace_char ns"
  by (auto simp: parse_namespace_def namespace_max_len_def split: if_splits)

lemma parse_ttl_ok:
  assumes "parse_ttl hs = Inr (Some (Finite s))"
  shows "0 < s \<and> s \<le> max_requested_ttl_secs"
proof -
  from assms obtain v secs where "parse_unsigned u64_max v = Some secs" "secs \<le> max_requested_ttl_secs"
    "ttl_from_secs secs = Finite s"
    by (auto simp: parse_ttl_def bind_sum_Inr_iff split: option.splits if_splits)
  then show ?thesis by (auto simp: ttl_from_secs_def split: if_splits)
qed

lemma parse_namespace_header_ok:
  assumes "parse_namespace_header hs = Inr (Some ns)"
  shows "ns \<noteq> [] \<and> length ns \<le> 64 \<and> list_all namespace_char ns"
  using assms
  by (cases "header_str hs namespace_header")
    (auto simp: parse_namespace_header_def split: option.splits sum.splits dest: parse_namespace_ok)

section \<open>Properties\<close>

text \<open>
  What a caller can make the cache do: nothing at all unless the operator enabled the class;
  a bypass neither reads nor writes, a refresh never reads; reading or storing beyond the default
  eligibility takes the operator's permission to opt in; and the outcome header is absent exactly
  when the cache is not involved.
\<close>

theorem cache_plan_respects_operator:
  "(\<not> enabled \<longrightarrow> decide m enabled eligible opt = Skip)
   \<and> (m = ModeBypass \<longrightarrow> \<not> plan_lookup (decide m enabled eligible opt) \<and> \<not> plan_store (decide m enabled eligible opt))
   \<and> (m = ModeRefresh \<and> opt \<longrightarrow> \<not> plan_lookup (decide m enabled eligible opt))
   \<and> (plan_store (decide m enabled eligible opt) \<longrightarrow>
        enabled \<and> (eligible \<or> (opt \<and> (m = ModeUse \<or> m = ModeRefresh))))
   \<and> (plan_lookup (decide m enabled eligible opt) \<longrightarrow> plan_store (decide m enabled eligible opt))
   \<and> (miss_header (decide m enabled eligible opt) = None) = (decide m enabled eligible opt = Skip)"
  by (cases m) (auto simp: decide_def plan_lookup_def plan_store_def miss_header_def)

theorem cache_plan_respects_operator_witness:
  "decide ModeUse True False True = LookupAndStore \<and> \<not> plan_store (decide ModeBypass True True True)"
  using cache_plan_respects_operator [of True ModeBypass True True] by (simp add: decide_def)

text \<open>
  Directives that parse are safe to use: the lifetime is unlimited or at most ten years, and
  the namespace is 1 to 64 characters of the safe set, so it never holds the key separator, a glob
  character or the name of the overflow bucket.
\<close>

theorem directives_are_safe:
  assumes "directives_from_headers hs = Inr d"
  shows "(case d_ttl d of Some (Finite s) \<Rightarrow> 0 < s \<and> s \<le> 315360000 | _ \<Rightarrow> True)
    \<and> (case d_namespace d of
         Some ns \<Rightarrow> ns \<noteq> [] \<and> length ns \<le> 64 \<and> ns \<noteq> ''*'' \<and> CHR '':'' \<notin> set ns \<and> CHR ''*'' \<notin> set ns
           \<and> CHR ''?'' \<notin> set ns \<and> CHR ''['' \<notin> set ns
       | None \<Rightarrow> True)"
proof -
  from assms obtain t n where t: "parse_ttl hs = Inr t" "d_ttl d = t"
    and n: "parse_namespace_header hs = Inr n" "d_namespace d = n"
    by (auto simp: directives_from_headers_def bind_sum_Inr_iff)
  have 1: "case d_ttl d of Some (Finite s) \<Rightarrow> 0 < s \<and> s \<le> 315360000 | _ \<Rightarrow> True"
    using t parse_ttl_ok [of hs] by (auto simp: max_requested_ttl_secs_def split: option.splits entry_ttl.splits)
  have safe: "ns \<noteq> [] \<and> length ns \<le> 64 \<and> list_all namespace_char ns" if "n = Some ns" for ns
    using n(1) that by (auto dest: parse_namespace_header_ok)
  have "\<not> namespace_char c" if "c \<in> {CHR '':'', CHR ''*'', CHR ''?'', CHR ''[''}" for c
    using that by (auto simp: namespace_char_def is_alnum_def is_digit_def is_upper_def is_lower_def)
  then have "CHR '':'' \<notin> set ns" "CHR ''*'' \<notin> set ns" "CHR ''?'' \<notin> set ns" "CHR ''['' \<notin> set ns"
    if "n = Some ns" for ns
    using safe [OF that] by (auto simp: list_all_iff)
  with 1 safe n show ?thesis by (auto split: option.splits)
qed

definition sample_headers :: headers where
  "sample_headers = [(ttl_header, ''60''), (namespace_header, ''team-a'')]"

lemma sample_header_str:
  "header_str sample_headers ttl_header = Inr (Some ''60'')"
  "header_str sample_headers namespace_header = Inr (Some ''team-a'')"
  "header_str sample_headers mode_header = Inr None"
  by (simp_all add: header_str_def sample_headers_def ttl_header_def namespace_header_def mode_header_def
      visible_ascii_def trim_def is_ws_def)

lemma sample_directives:
  "directives_from_headers sample_headers = Inr \<lparr>mode = ModeDefault, d_ttl = Some (Finite 60), d_namespace = Some ''team-a''\<rparr>"
proof -
  have "parse_unsigned u64_max ''60'' = Some 60"
    by (simp add: parse_unsigned_def is_digit_def digits_val_def digit_val_def u64_max_def)
  moreover have "parse_namespace ''team-a'' = Inr ''team-a''"
    by (simp add: parse_namespace_def namespace_max_len_def namespace_char_def is_alnum_def is_lower_def)
  ultimately show ?thesis
    by (simp add: directives_from_headers_def parse_mode_def parse_ttl_def parse_namespace_header_def
        sample_header_str max_requested_ttl_secs_def ttl_from_secs_def)
qed

theorem directives_are_safe_witness:
  "(case directives_from_headers sample_headers of
      Inr d \<Rightarrow> (case d_namespace d of Some ns \<Rightarrow> CHR '':'' \<notin> set ns | None \<Rightarrow> False) | Inl _ \<Rightarrow> False)"
  using directives_are_safe [OF sample_directives] by (simp add: sample_directives)

end
