(* ===== verification/Cache_Store.thy ===== *)
theory Cache_Store
  imports Cache_Request Json
begin

text \<open>
  The cache store backends (\<open>src/src/router/cache/store.rs\<close>): the entries, the in-memory
  backend, and the reconnect gate of the Redis backend. What the response cache relies on is the
  locale \<open>cache_store\<close>: a store may lose entries at any moment, but never makes one up. The
  in-memory backend's concurrent map is an ordered association list, whose order is never
  observed; \<open>now\<close> is the clock reading of an operation in Unix seconds.
\<close>

record cached_entry =
  ent_class :: string
  ent_model :: string
  payload :: json
  original_cost_usd :: rat
  stored_at :: int
  expires_at :: int
  ent_namespace :: "string option"

definition stamp :: "int \<Rightarrow> entry_ttl \<Rightarrow> cached_entry \<Rightarrow> cached_entry" where
  "stamp now ttl e = e\<lparr>stored_at := now, expires_at := ttl_expires_at ttl now\<rparr>"

definition entry_expired :: "int \<Rightarrow> cached_entry \<Rightarrow> bool" where
  "entry_expired now e \<longleftrightarrow> 0 < expires_at e \<and> expires_at e \<le> now"

section \<open>The interface\<close>

locale cache_store =
  fixes get :: "int \<Rightarrow> 's \<Rightarrow> string \<Rightarrow> cached_entry option \<times> 's"
    and put :: "int \<Rightarrow> 's \<Rightarrow> string \<Rightarrow> cached_entry \<Rightarrow> entry_ttl \<Rightarrow> 's"
    and purge :: "(string \<Rightarrow> cached_entry \<Rightarrow> bool) \<Rightarrow> 's \<Rightarrow> 's"
    and lose :: "string \<Rightarrow> 's \<Rightarrow> 's"
    and content :: "'s \<Rightarrow> string \<Rightarrow> cached_entry option"
    and ok :: "'s \<Rightarrow> bool"
  assumes ok_get: "ok s \<Longrightarrow> ok (snd (get now s k))"
    and ok_put: "ok s \<Longrightarrow> ok (put now s k e ttl)"
    and ok_purge: "ok s \<Longrightarrow> ok (purge P s)"
    and ok_lose: "ok s \<Longrightarrow> ok (lose k s)"
    and get_sound: "ok s \<Longrightarrow> fst (get now s k) = Some e \<Longrightarrow> content s k = Some e \<and> \<not> entry_expired now e"
    and get_keeps: "ok s \<Longrightarrow> content (snd (get now s k)) k' = Some e \<Longrightarrow> content s k' = Some e"
    and put_content: "ok s \<Longrightarrow> content (put now s k e ttl) k' = (if k' = k then Some (stamp now ttl e) else content s k')"
    and purge_content: "ok s \<Longrightarrow> content (purge P s) k = Some e \<longleftrightarrow> content s k = Some e \<and> \<not> P k e"
    and lose_content: "ok s \<Longrightarrow> content (lose k s) k' = (if k' = k then None else content s k')"

datatype store_event =
    Get int string
  | Put int string cached_entry entry_ttl
  | Purge "string \<Rightarrow> cached_entry \<Rightarrow> bool"
  | Lose string

text \<open>What a hit must be: the last entry put under its key, put since any purge it would match.\<close>

fun last_put :: "store_event list \<Rightarrow> string \<Rightarrow> cached_entry option" where
  "last_put [] k = None"
| "last_put (Put now k' e ttl # evs) k = (if k' = k then Some (stamp now ttl e) else last_put evs k)"
| "last_put (Purge P # evs) k = (case last_put evs k of Some e \<Rightarrow> if P k e then None else Some e | None \<Rightarrow> None)"
| "last_put (_ # evs) k = last_put evs k"

text \<open>The events are listed latest first.\<close>

context cache_store
begin

fun run :: "store_event list \<Rightarrow> 's \<Rightarrow> 's" where
  "run [] s = s"
| "run (Get now k # evs) s = snd (get now (run evs s) k)"
| "run (Put now k e ttl # evs) s = put now (run evs s) k e ttl"
| "run (Purge P # evs) s = purge P (run evs s)"
| "run (Lose k # evs) s = lose k (run evs s)"

lemma run_ok: "ok s \<Longrightarrow> ok (run evs s)"
  by (induction evs s rule: run.induct) (auto intro: ok_get ok_put ok_purge ok_lose)

lemma run_content:
  "ok s \<Longrightarrow> (\<And>k. content s k = None) \<Longrightarrow> content (run evs s) k = Some e \<Longrightarrow> last_put evs k = Some e"
proof (induction evs s arbitrary: e rule: run.induct)
  case (2 now k' evs s)
  then show ?case using get_keeps [OF run_ok] by auto
next
  case (3 now k' e' ttl evs s)
  then show ?case by (auto simp: put_content run_ok split: if_splits)
next
  case (4 P evs s)
  then show ?case by (auto simp: purge_content run_ok)
next
  case (5 k' evs s)
  then show ?case by (auto simp: lose_content run_ok split: if_splits)
qed simp

lemma hit_is_last_put:
  assumes "ok s" and "\<And>k. content s k = None" and "fst (get now (run evs s) k) = Some e"
  shows "last_put evs k = Some e \<and> \<not> entry_expired now e"
  using get_sound [OF run_ok [OF assms(1)] assms(3)] run_content [OF assms(1,2)] by blast

end

section \<open>The in-memory backend\<close>

record memory_store =
  inner :: "(string \<times> cached_entry) list"
  evictions :: nat

definition new_memory_store :: memory_store where
  "new_memory_store = \<lparr>inner = [], evictions = 0\<rparr>"

definition mem_get :: "int \<Rightarrow> memory_store \<Rightarrow> string \<Rightarrow> cached_entry option \<times> memory_store" where
  "mem_get now s k =
     (case map_of (inner s) k of
        None \<Rightarrow> (None, s)
      | Some e \<Rightarrow>
          if entry_expired now e
          then (None, s\<lparr>inner := bt_remove k (inner s), evictions := evictions s + 1\<rparr>)
          else (Some e, s))"

definition mem_put :: "int \<Rightarrow> memory_store \<Rightarrow> string \<Rightarrow> cached_entry \<Rightarrow> entry_ttl \<Rightarrow> memory_store" where
  "mem_put now s k e ttl = s\<lparr>inner := bt_insert k (stamp now ttl e) (inner s)\<rparr>"

definition mem_purge_matching ::
  "(string \<Rightarrow> cached_entry \<Rightarrow> bool) \<Rightarrow> memory_store \<Rightarrow> nat \<times> memory_store" where
  "mem_purge_matching P s =
     (let ks = map fst (filter (\<lambda>(k, e). P k e) (inner s))
      in (length ks, s\<lparr>inner := fold bt_remove ks (inner s)\<rparr>))"

definition mem_purge_key :: "memory_store \<Rightarrow> string \<Rightarrow> bool \<times> memory_store" where
  "mem_purge_key s k = (map_of (inner s) k \<noteq> None, s\<lparr>inner := bt_remove k (inner s)\<rparr>)"

definition mem_purge_model :: "memory_store \<Rightarrow> string \<Rightarrow> nat \<times> memory_store" where
  "mem_purge_model s fp = mem_purge_matching (\<lambda>k _. contains_sub fp k) s"

definition mem_purge_namespace :: "memory_store \<Rightarrow> string \<Rightarrow> nat \<times> memory_store" where
  "mem_purge_namespace s ns = mem_purge_matching (\<lambda>_ e. ent_namespace e = Some ns) s"

definition mem_purge_all :: "memory_store \<Rightarrow> nat \<times> memory_store" where
  "mem_purge_all s = (length (inner s), s\<lparr>inner := []\<rparr>)"

definition mem_entry_count :: "memory_store \<Rightarrow> nat" where
  "mem_entry_count s = length (inner s)"

text \<open>The cache library drops an entry for capacity and tells the eviction listener.\<close>

definition mem_evict :: "string \<Rightarrow> memory_store \<Rightarrow> memory_store" where
  "mem_evict k s =
     (if map_of (inner s) k = None then s
      else s\<lparr>inner := bt_remove k (inner s), evictions := evictions s + 1\<rparr>)"

definition mem_ok :: "memory_store \<Rightarrow> bool" where
  "mem_ok s \<longleftrightarrow> bt_ok (inner s)"

definition mem_content :: "memory_store \<Rightarrow> string \<Rightarrow> cached_entry option" where
  "mem_content s k = map_of (inner s) k"


lemma mem_purge_content:
  assumes "mem_ok s"
  shows "mem_content (snd (mem_purge_matching P s)) k = Some e \<longleftrightarrow> mem_content s k = Some e \<and> \<not> P k e"
proof -
  let ?ks = "map fst (filter (\<lambda>(k, e). P k e) (inner s))"
  have ok: "bt_ok (inner s)" using assms by (simp add: mem_ok_def)
  have "k \<in> set ?ks \<longleftrightarrow> (\<exists>v. map_of (inner s) k = Some v \<and> P k v)"
    using map_of_eq_Some_iff [OF bt_ok_distinct [OF ok]] by force
  then show ?thesis
    using bt.look_del_all [OF ok, of ?ks k] by (auto simp: mem_purge_matching_def mem_content_def Let_def)
qed

interpretation mem: cache_store mem_get mem_put "\<lambda>P s. snd (mem_purge_matching P s)" mem_evict mem_content mem_ok
proof unfold_locales
  fix s k k' now e ttl P
  show "mem_ok s \<Longrightarrow> mem_ok (snd (mem_get now s k))"
    by (auto simp: mem_get_def mem_ok_def bt_ok_remove split: option.splits)
  show "mem_ok s \<Longrightarrow> mem_ok (mem_put now s k e ttl)"
    by (simp add: mem_put_def mem_ok_def bt_ok_insert)
  show "mem_ok s \<Longrightarrow> mem_ok (snd (mem_purge_matching P s))"
    by (simp add: mem_purge_matching_def mem_ok_def bt.invar_del_all Let_def)
  show "mem_ok s \<Longrightarrow> mem_ok (mem_evict k s)"
    by (simp add: mem_evict_def mem_ok_def bt_ok_remove)
  show "mem_ok s \<Longrightarrow> fst (mem_get now s k) = Some e \<Longrightarrow> mem_content s k = Some e \<and> \<not> entry_expired now e"
    by (auto simp: mem_get_def mem_content_def split: option.splits if_splits)
  show "mem_ok s \<Longrightarrow> mem_content (snd (mem_get now s k)) k' = Some e \<Longrightarrow> mem_content s k' = Some e"
    by (auto simp: mem_get_def mem_content_def map_of_bt_remove split: option.splits if_splits)
  show "mem_ok s \<Longrightarrow> mem_content (mem_put now s k e ttl) k' = (if k' = k then Some (stamp now ttl e) else mem_content s k')"
    by (simp add: mem_put_def mem_content_def mem_ok_def map_of_bt_insert)
  show "mem_ok s \<Longrightarrow> (mem_content (snd (mem_purge_matching P s)) k = Some e) = (mem_content s k = Some e \<and> \<not> P k e)"
    by (rule mem_purge_content)
  show "mem_ok s \<Longrightarrow> mem_content (mem_evict k s) k' = (if k' = k then None else mem_content s k')"
    by (auto simp: mem_evict_def mem_content_def map_of_bt_remove)
qed

section \<open>The backend chosen\<close>

datatype backend = MemoryBackend | RedisBackend

text \<open>\<open>redis_opens\<close> says whether the client library accepts the URL.\<close>

definition build_store :: "(string \<Rightarrow> bool) \<Rightarrow> string \<Rightarrow> string \<Rightarrow> backend" where
  "build_store redis_opens kind url =
     (if kind = ''redis'' then
        (if trim url = [] then MemoryBackend else if redis_opens url then RedisBackend else MemoryBackend)
      else MemoryBackend)"

section \<open>The Redis link\<close>

datatype link_state = NeverConnected | Reachable | Unreachable

datatype link_transition = NoChange | Connected | Lost | Recovered

record reconnect_gate =
  gate_cooldown :: nat
  link :: link_state
  retry_after :: "nat option"

definition new_gate :: "nat \<Rightarrow> reconnect_gate" where
  "new_gate c = \<lparr>gate_cooldown = c, link = NeverConnected, retry_after = None\<rparr>"

definition should_attempt :: "reconnect_gate \<Rightarrow> nat \<Rightarrow> bool" where
  "should_attempt g now = (case retry_after g of Some t \<Rightarrow> t \<le> now | None \<Rightarrow> True)"

definition on_success :: "reconnect_gate \<Rightarrow> link_transition \<times> reconnect_gate" where
  "on_success g =
     ((case link g of NeverConnected \<Rightarrow> Connected | Unreachable \<Rightarrow> Recovered | Reachable \<Rightarrow> NoChange),
      g\<lparr>retry_after := None, link := Reachable\<rparr>)"

definition on_failure :: "nat \<Rightarrow> reconnect_gate \<Rightarrow> link_transition \<times> reconnect_gate" where
  "on_failure now g =
     ((case link g of Unreachable \<Rightarrow> NoChange | _ \<Rightarrow> Lost),
      g\<lparr>retry_after := Some (now + gate_cooldown g), link := Unreachable\<rparr>)"

text \<open>Outcomes of successive dials and commands: the time of a failure, or a success.\<close>

fun gate_run :: "nat option list \<Rightarrow> reconnect_gate \<Rightarrow> link_transition list \<times> reconnect_gate" where
  "gate_run [] g = ([], g)"
| "gate_run (x # xs) g =
     (let (t, g1) = (case x of Some now \<Rightarrow> on_failure now g | None \<Rightarrow> on_success g);
          (ts, g2) = gate_run xs g1
      in (t # ts, g2))"

text \<open>Between two announcements of a lost link there is one of a link restored.\<close>

fun announced_once :: "bool \<Rightarrow> link_transition list \<Rightarrow> bool" where
  "announced_once down [] = True"
| "announced_once down (t # ts) =
     (case t of
        NoChange \<Rightarrow> announced_once down ts
      | Lost \<Rightarrow> \<not> down \<and> announced_once True ts
      | _ \<Rightarrow> announced_once False ts)"

lemma gate_announces:
  "announced_once (link g = Unreachable) (fst (gate_run xs g))"
proof (induction xs arbitrary: g)
  case (Cons x xs)
  show ?case
  proof (cases x)
    case None
    then show ?thesis
      using Cons [of "snd (on_success g)"]
      by (cases "link g") (auto simp: on_success_def split_beta Let_def)
  next
    case (Some now)
    then show ?thesis
      using Cons [of "snd (on_failure now g)"]
      by (cases "link g") (auto simp: on_failure_def split_beta Let_def)
  qed
qed simp

section \<open>Keys by label\<close>

text \<open>\<open>parse\<close> is \<open>serde_json::from_str::<CachedEntry>\<close>.\<close>

definition labelled_with ::
  "(string \<Rightarrow> cached_entry option) \<Rightarrow> string list \<Rightarrow> string option list \<Rightarrow> string \<Rightarrow> string list" where
  "labelled_with parse ks raws ns =
     map fst (filter (\<lambda>(k, raw). case raw of
                                    None \<Rightarrow> False
                                  | Some r \<Rightarrow> (case parse r of Some e \<Rightarrow> ent_namespace e = Some ns | None \<Rightarrow> False))
                (zip ks raws))"

section \<open>Properties\<close>

fun mem_step :: "store_event \<Rightarrow> memory_store \<Rightarrow> memory_store" where
  "mem_step (Get now k) s = snd (mem_get now s k)"
| "mem_step (Put now k e ttl) s = mem_put now s k e ttl"
| "mem_step (Purge P) s = snd (mem_purge_matching P s)"
| "mem_step (Lose k) s = mem_evict k s"

lemma mem_run: "mem.run evs s = foldr mem_step evs s"
proof (induction evs)
  case (Cons ev evs)
  then show ?case by (cases ev) auto
qed simp

text \<open>
  The in-memory backend never serves a stale or invented answer: after any history of reads,
  writes, purges by any criterion and evictions at any moment, a hit is exactly the entry last
  written under that key, stamped with its lifetime, not expired at the time of the read and
  matched by no purge since.
\<close>

theorem memory_hit_is_last_put:
  assumes "fst (mem_get now (foldr mem_step evs new_memory_store) k) = Some e"
  shows "last_put evs k = Some e \<and> (expires_at e = 0 \<or> now < expires_at e \<or> expires_at e < 0)"
proof -
  have "mem_ok new_memory_store" "\<And>k. mem_content new_memory_store k = None"
    by (simp_all add: mem_ok_def new_memory_store_def mem_content_def)
  from mem.hit_is_last_put [OF this, of now evs k e] assms
  show ?thesis by (auto simp: mem_run entry_expired_def)
qed

definition sample_entry_of :: "string \<Rightarrow> cached_entry" where
  "sample_entry_of m =
     \<lparr>ent_class = ''completion'', ent_model = m, payload = JNull, original_cost_usd = 2, stored_at = 0,
      expires_at = 0, ent_namespace = None\<rparr>"

theorem memory_hit_is_last_put_witness:
  "last_put [Put 20 ''k'' (sample_entry_of ''b'') (Finite 60), Put 10 ''k'' (sample_entry_of ''a'') Unlimited] ''k''
     = Some (stamp 20 (Finite 60) (sample_entry_of ''b''))"
proof -
  have "fst (mem_get 79 (foldr mem_step
      [Put 20 ''k'' (sample_entry_of ''b'') (Finite 60), Put 10 ''k'' (sample_entry_of ''a'') Unlimited] new_memory_store) ''k'')
     = Some (stamp 20 (Finite 60) (sample_entry_of ''b''))"
    by (simp add: mem_get_def mem_put_def new_memory_store_def entry_expired_def stamp_def ttl_expires_at_def ttl_secs_def)
  from memory_hit_is_last_put [OF this] show ?thesis by blast
qed

text \<open>
  An outage is announced once: however dials and commands fail and succeed, after one report of
  a lost link the next one comes only after the link was reported restored, and no new dial is
  allowed before the cooldown since the last failure is over.
\<close>

theorem outage_announced_once:
  "announced_once False (fst (gate_run xs (new_gate c)))
   \<and> should_attempt (snd (gate_run (xs @ [Some t]) (new_gate c))) now = (t + c \<le> now)"
proof -
  have cool: "gate_cooldown (snd (gate_run ys g)) = gate_cooldown g" for ys g
    by (induction ys arbitrary: g) (auto simp: on_success_def on_failure_def split_beta Let_def split: option.splits)
  have app: "snd (gate_run (ys @ [Some t]) g) = snd (on_failure t (snd (gate_run ys g)))" for ys g
    by (induction ys arbitrary: g) (auto simp: split_beta Let_def)
  have "announced_once False (fst (gate_run xs (new_gate c)))"
    using gate_announces [of "new_gate c" xs] by (simp add: new_gate_def)
  then show ?thesis
    by (simp add: app on_failure_def should_attempt_def cool) (simp add: new_gate_def)
qed

end
