(* ===== verification/Response_Cache.thy ===== *)
theory Response_Cache
  imports Cache_Store Adapter
begin

text \<open>
  The response cache in front of the store (\<open>src/src/router/cache/mod.rs\<close>): the live policy,
  eligibility, key derivation and the hit and miss accounting, over the in-memory backend.
  \<open>sha\<close> is the hex SHA-256 digest and \<open>print\<close> the JSON printer of the libraries. The counters
  are 64-bit atomics that no process lives to exhaust; they are natural numbers here, except for
  the micro-dollar amount of one entry, which saturates as the float cast does.
\<close>

definition class_completion :: string where "class_completion = ''completion''"
definition class_search :: string where "class_search = ''search''"
definition class_messages :: string where "class_messages = ''messages''"

section \<open>Policy\<close>

record completion_cache_policy =
  cc_enabled :: bool
  cc_max_temperature :: rat
  cc_assumed_temperature :: rat
  cc_ttl_seconds :: "nat option"

record search_cache_policy =
  sc_enabled :: bool
  sc_ttl_seconds :: nat

record cache_config =
  cf_enabled :: bool
  cf_backend :: string
  cf_redis_url :: string
  cf_namespace :: string
  cf_max_entries :: nat
  cf_ttl_seconds :: nat
  cf_completions :: completion_cache_policy
  cf_search :: search_cache_policy
  cf_allow_header_opt_in :: bool
  cf_max_ttl_seconds :: nat
  cf_namespaces :: "string \<rightharpoonup> nat option"

record cache_policy =
  cp_enabled :: bool
  default_ttl_seconds :: nat
  completions :: completion_cache_policy
  search :: search_cache_policy
  allow_header_opt_in :: bool
  max_ttl_seconds :: nat
  namespaces :: "string \<rightharpoonup> nat option"

definition policy_from_config :: "cache_config \<Rightarrow> cache_policy" where
  "policy_from_config c =
     \<lparr>cp_enabled = cf_enabled c, default_ttl_seconds = cf_ttl_seconds c, completions = cf_completions c,
      search = cf_search c, allow_header_opt_in = cf_allow_header_opt_in c,
      max_ttl_seconds = cf_max_ttl_seconds c, namespaces = cf_namespaces c\<rparr>"

definition completion_ttl :: "cache_policy \<Rightarrow> nat" where
  "completion_ttl p =
     (case cc_ttl_seconds (completions p) of Some s \<Rightarrow> s | None \<Rightarrow> default_ttl_seconds p)"

definition search_ttl :: "cache_policy \<Rightarrow> nat" where
  "search_ttl p = sc_ttl_seconds (search p)"

definition class_ttl :: "cache_policy \<Rightarrow> string \<Rightarrow> entry_ttl" where
  "class_ttl p cls = Finite (if cls = class_search then search_ttl p else completion_ttl p)"

definition entry_ttl_for :: "cache_policy \<Rightarrow> string \<Rightarrow> cache_directives \<Rightarrow> entry_ttl" where
  "entry_ttl_for p cls d =
     (case d_ttl d of
        Some requested \<Rightarrow> ttl_min requested (ttl_from_secs (max_ttl_seconds p))
      | None \<Rightarrow>
          (case (case d_namespace d of None \<Rightarrow> None | Some ns \<Rightarrow> Option.bind (namespaces p ns) id) of
             Some secs \<Rightarrow> ttl_from_secs secs
           | None \<Rightarrow> class_ttl p cls))"

record cache_policy_update =
  up_enabled :: "bool option"
  up_default_ttl_seconds :: "nat option"
  up_completions_enabled :: "bool option"
  up_completions_max_temperature :: "rat option"
  up_completions_assumed_temperature :: "rat option"
  up_completions_ttl_seconds :: "nat option"
  up_search_enabled :: "bool option"
  up_search_ttl_seconds :: "nat option"

definition or_keep :: "'a option \<Rightarrow> 'a \<Rightarrow> 'a" where
  "or_keep x old = (case x of Some v \<Rightarrow> v | None \<Rightarrow> old)"

definition updated_policy :: "cache_policy_update \<Rightarrow> cache_policy \<Rightarrow> cache_policy" where
  "updated_policy u p =
     (let c = completions p; s = search p
      in p\<lparr>cp_enabled := or_keep (up_enabled u) (cp_enabled p),
           default_ttl_seconds := or_keep (up_default_ttl_seconds u) (default_ttl_seconds p),
           completions := c\<lparr>cc_enabled := or_keep (up_completions_enabled u) (cc_enabled c),
              cc_max_temperature := or_keep (up_completions_max_temperature u) (cc_max_temperature c),
              cc_assumed_temperature := or_keep (up_completions_assumed_temperature u) (cc_assumed_temperature c),
              cc_ttl_seconds := (case up_completions_ttl_seconds u of Some v \<Rightarrow> Some v | None \<Rightarrow> cc_ttl_seconds c)\<rparr>,
           search := s\<lparr>sc_enabled := or_keep (up_search_enabled u) (sc_enabled s),
              sc_ttl_seconds := or_keep (up_search_ttl_seconds u) (sc_ttl_seconds s)\<rparr>\<rparr>)"

section \<open>Accounting\<close>

record counters =
  c_hits :: nat
  c_misses :: nat
  c_stores :: nat
  c_saved_micro_usd :: nat

definition zero_counters :: counters where
  "zero_counters = \<lparr>c_hits = 0, c_misses = 0, c_stores = 0, c_saved_micro_usd = 0\<rparr>"

definition counters_hit :: "nat \<Rightarrow> counters \<Rightarrow> counters" where
  "counters_hit micro c = c\<lparr>c_hits := c_hits c + 1, c_saved_micro_usd := c_saved_micro_usd c + micro\<rparr>"

definition counters_miss :: "counters \<Rightarrow> counters" where
  "counters_miss c = c\<lparr>c_misses := c_misses c + 1\<rparr>"

definition counters_saved_usd :: "counters \<Rightarrow> rat" where
  "counters_saved_usd c = of_nat (c_saved_micro_usd c) / 1000000"

definition max_tracked_namespaces :: nat where
  "max_tracked_namespaces = 256"

definition other_namespaces :: string where
  "other_namespaces = ''*''"

record response_cache =
  store :: memory_store
  policy :: cache_policy
  key_prefix :: string
  hits :: nat
  misses :: nat
  stores :: nat
  saved_micro_usd :: nat
  by_model :: "(string \<times> counters) list"
  by_namespace :: "(string \<times> counters) list"

definition cache_with_store :: "memory_store \<Rightarrow> cache_policy \<Rightarrow> response_cache" where
  "cache_with_store st p =
     \<lparr>store = st, policy = p, key_prefix = [], hits = 0, misses = 0, stores = 0, saved_micro_usd = 0,
      by_model = [], by_namespace = []\<rparr>"

definition new_cache :: "cache_config \<Rightarrow> response_cache" where
  "new_cache cfg = (cache_with_store new_memory_store (policy_from_config cfg))\<lparr>key_prefix := cf_namespace cfg\<rparr>"

definition update_policy :: "response_cache \<Rightarrow> cache_policy_update \<Rightarrow> response_cache" where
  "update_policy rc u = rc\<lparr>policy := updated_policy u (policy rc)\<rparr>"

definition completion_eligible :: "response_cache \<Rightarrow> json \<Rightarrow> bool" where
  "completion_eligible rc body =
     (let p = policy rc
      in if \<not> cp_enabled p \<or> \<not> cc_enabled (completions p) then False
         else (case Option.bind (jget_opt body ''temperature'') as_f64 of
                 Some t \<Rightarrow> t
               | None \<Rightarrow> cc_assumed_temperature (completions p)) \<le> cc_max_temperature (completions p))"

definition search_eligible :: "response_cache \<Rightarrow> bool" where
  "search_eligible rc \<longleftrightarrow> cp_enabled (policy rc) \<and> sc_enabled (search (policy rc))"

definition completion_plan :: "response_cache \<Rightarrow> cache_mode \<Rightarrow> json \<Rightarrow> cache_plan" where
  "completion_plan rc m body =
     decide m (cp_enabled (policy rc) \<and> cc_enabled (completions (policy rc))) (completion_eligible rc body)
       (allow_header_opt_in (policy rc))"

definition search_plan :: "response_cache \<Rightarrow> cache_mode \<Rightarrow> cache_plan" where
  "search_plan rc m =
     (let enabled = search_eligible rc in decide m enabled enabled (allow_header_opt_in (policy rc)))"

text \<open>\<open>entry(k).or_default()\<close> followed by an update of the counters behind it.\<close>

definition bump :: "string \<Rightarrow> (counters \<Rightarrow> counters) \<Rightarrow> (string \<times> counters) list \<Rightarrow> (string \<times> counters) list" where
  "bump k f m = bt_insert k (f (case map_of m k of Some c \<Rightarrow> c | None \<Rightarrow> zero_counters)) m"

definition namespace_bucket :: "response_cache \<Rightarrow> string \<Rightarrow> string" where
  "namespace_bucket rc ns =
     (if map_of (by_namespace rc) ns \<noteq> None then ns
      else if length (by_namespace rc) < max_tracked_namespaces then ns else other_namespaces)"

definition bump_namespace :: "string option \<Rightarrow> (counters \<Rightarrow> counters) \<Rightarrow> response_cache \<Rightarrow> response_cache" where
  "bump_namespace ns f rc =
     (case ns of
        None \<Rightarrow> rc
      | Some n \<Rightarrow> rc\<lparr>by_namespace := bump (namespace_bucket rc n) f (by_namespace rc)\<rparr>)"

definition micro_usd :: "rat \<Rightarrow> nat" where
  "micro_usd cost = min u64_max (nat \<lfloor>max cost 0 * 1000000\<rfloor>)"

definition cache_lookup ::
  "int \<Rightarrow> response_cache \<Rightarrow> string \<Rightarrow> string \<Rightarrow> cache_directives \<Rightarrow> cached_entry option \<times> response_cache" where
  "cache_lookup now rc key model d =
     (let (entry, st) = mem_get now (store rc) key; rc1 = rc\<lparr>store := st\<rparr>
      in case entry of
           Some e \<Rightarrow>
             (let micro = micro_usd (original_cost_usd e)
              in (Some e,
                  bump_namespace (d_namespace d) (counters_hit micro)
                    (rc1\<lparr>hits := hits rc1 + 1, saved_micro_usd := saved_micro_usd rc1 + micro,
                         by_model := bump model (counters_hit micro) (by_model rc1)\<rparr>)))
         | None \<Rightarrow>
             (None,
              bump_namespace (d_namespace d) counters_miss
                (rc1\<lparr>misses := misses rc1 + 1, by_model := bump model counters_miss (by_model rc1)\<rparr>)))"

definition store_entry ::
  "int \<Rightarrow> response_cache \<Rightarrow> string \<Rightarrow> string \<Rightarrow> string \<Rightarrow> json \<Rightarrow> rat \<Rightarrow> cache_directives \<Rightarrow> response_cache" where
  "store_entry now rc key cls model pl cost d =
     (let e = \<lparr>ent_class = cls, ent_model = model, payload = pl, original_cost_usd = cost, stored_at = 0,
               expires_at = 0, ent_namespace = d_namespace d\<rparr>;
          rc1 = rc\<lparr>store := mem_put now (store rc) key e (entry_ttl_for (policy rc) cls d)\<rparr>
      in bump_namespace (d_namespace d) (\<lambda>c. c\<lparr>c_stores := c_stores c + 1\<rparr>) (rc1\<lparr>stores := stores rc1 + 1\<rparr>))"

text \<open>\<open>from_value\<close> and \<open>to_value\<close> of the derived codec of a completion.\<close>

definition get_completion ::
  "(json \<Rightarrow> completion_result option) \<Rightarrow> int \<Rightarrow> response_cache \<Rightarrow> string \<Rightarrow> string \<Rightarrow> cache_directives \<Rightarrow>
   completion_result option \<times> response_cache" where
  "get_completion from_value now rc key model d =
     (case cache_lookup now rc key model d of
        (None, rc1) \<Rightarrow> (None, rc1)
      | (Some e, rc1) \<Rightarrow> (from_value (payload e), rc1))"

definition put_completion ::
  "(completion_result \<Rightarrow> json option) \<Rightarrow> int \<Rightarrow> response_cache \<Rightarrow> string \<Rightarrow> string \<Rightarrow> completion_result \<Rightarrow> rat \<Rightarrow>
   cache_directives \<Rightarrow> response_cache" where
  "put_completion to_value now rc key model res cost d =
     (case to_value res of
        None \<Rightarrow> rc
      | Some pl \<Rightarrow> store_entry now rc key class_completion model pl cost d)"

definition get_payload ::
  "int \<Rightarrow> response_cache \<Rightarrow> string \<Rightarrow> string \<Rightarrow> cache_directives \<Rightarrow> json option \<times> response_cache" where
  "get_payload now rc key model d =
     (let (e, rc1) = cache_lookup now rc key model d in (map_option payload e, rc1))"

definition get_message ::
  "int \<Rightarrow> response_cache \<Rightarrow> string \<Rightarrow> string \<Rightarrow> cache_directives \<Rightarrow> json option \<times> response_cache" where
  "get_message = get_payload"

definition put_message ::
  "int \<Rightarrow> response_cache \<Rightarrow> string \<Rightarrow> string \<Rightarrow> json \<Rightarrow> rat \<Rightarrow> cache_directives \<Rightarrow> response_cache" where
  "put_message now rc key model msg cost d = store_entry now rc key class_messages model msg cost d"

definition get_search ::
  "int \<Rightarrow> response_cache \<Rightarrow> string \<Rightarrow> string \<Rightarrow> cache_directives \<Rightarrow> json option \<times> response_cache" where
  "get_search = get_payload"

definition put_search ::
  "int \<Rightarrow> response_cache \<Rightarrow> string \<Rightarrow> string \<Rightarrow> json \<Rightarrow> rat \<Rightarrow> cache_directives \<Rightarrow> response_cache" where
  "put_search now rc key model pl cost d = store_entry now rc key class_search model pl cost d"

definition hit_rate :: "nat \<Rightarrow> nat \<Rightarrow> rat" where
  "hit_rate h m = (if h + m = 0 then 0 else of_nat h / of_nat (h + m))"


section \<open>Keys\<close>

definition volatile_fields :: "string list" where
  "volatile_fields = [''stream'', ''stream_options'', ''user'', ''session_id'', ''metadata'', ''attribution'']"

definition canonical_body :: "json \<Rightarrow> json" where
  "canonical_body body =
     (case body of
        JObj m \<Rightarrow> JObj (filter (\<lambda>(k, _). \<not> starts_with ''_mr_'' k) (fold bt_remove volatile_fields m))
      | v \<Rightarrow> v)"

definition model_fingerprint :: "(string \<Rightarrow> string) \<Rightarrow> string \<Rightarrow> string" where
  "model_fingerprint sha model = take 16 (sha model)"

definition make_cache_key :: "(string \<Rightarrow> string) \<Rightarrow> (json \<Rightarrow> string) \<Rightarrow> json \<Rightarrow> string" where
  "make_cache_key sha print body = sha (print (canonical_body body))"

definition store_key :: "string \<Rightarrow> string \<Rightarrow> string \<Rightarrow> string" where
  "store_key cls fp h = cls @ '':'' @ fp @ '':'' @ h"

definition completion_cache_key ::
  "(string \<Rightarrow> string) \<Rightarrow> (json \<Rightarrow> string) \<Rightarrow> string \<Rightarrow> json \<Rightarrow> string" where
  "completion_cache_key sha print model body =
     store_key class_completion (model_fingerprint sha model) (make_cache_key sha print body)"

definition messages_cache_key ::
  "(string \<Rightarrow> string) \<Rightarrow> (json \<Rightarrow> string) \<Rightarrow> string \<Rightarrow> json \<Rightarrow> string" where
  "messages_cache_key sha print model body =
     store_key class_messages (model_fingerprint sha model) (make_cache_key sha print body)"

definition search_cache_key ::
  "(string \<Rightarrow> string) \<Rightarrow> (json \<Rightarrow> string) \<Rightarrow> string \<Rightarrow> string \<Rightarrow> nat option \<Rightarrow> string" where
  "search_cache_key sha print engine query max_results =
     store_key class_search (model_fingerprint sha (''search/'' @ engine))
       (make_cache_key sha print
         (jobj [(''engine'', JStr engine), (''query'', JStr query),
                (''max_results'', (case max_results of Some n \<Rightarrow> jnat n | None \<Rightarrow> JNull))]))"

section \<open>Operator surface\<close>

definition cache_purge_all :: "response_cache \<Rightarrow> nat \<times> response_cache" where
  "cache_purge_all rc = (let (n, st) = mem_purge_all (store rc) in (n, rc\<lparr>store := st\<rparr>))"

definition cache_purge_model :: "(string \<Rightarrow> string) \<Rightarrow> response_cache \<Rightarrow> string \<Rightarrow> nat \<times> response_cache" where
  "cache_purge_model sha rc model =
     (let (n, st) = mem_purge_model (store rc) (model_fingerprint sha model) in (n, rc\<lparr>store := st\<rparr>))"

definition cache_purge_namespace :: "response_cache \<Rightarrow> string \<Rightarrow> nat \<times> response_cache" where
  "cache_purge_namespace rc ns = (let (n, st) = mem_purge_namespace (store rc) ns in (n, rc\<lparr>store := st\<rparr>))"

definition cache_purge_key :: "response_cache \<Rightarrow> string \<Rightarrow> nat \<times> response_cache" where
  "cache_purge_key rc key =
     (let (b, st) = mem_purge_key (store rc) key in (if b then 1 else 0, rc\<lparr>store := st\<rparr>))"

record model_cache_stats =
  ms_model :: string
  ms_hits :: nat
  ms_misses :: nat
  ms_hit_rate :: rat
  ms_saved_usd :: rat

record namespace_cache_stats =
  ns_namespace :: string
  ns_hits :: nat
  ns_misses :: nat
  ns_stores :: nat
  ns_hit_rate :: rat
  ns_saved_usd :: rat

record cache_stats =
  st_enabled :: bool
  st_hits :: nat
  st_misses :: nat
  st_stores :: nat
  st_evictions :: nat
  st_entries :: nat
  st_hit_rate :: rat
  st_saved_usd :: rat
  st_by_model :: "model_cache_stats list"
  st_by_namespace :: "namespace_cache_stats list"

text \<open>The model list is sorted by descending hits and then by name, the order of the map.\<close>

definition cache_stats :: "response_cache \<Rightarrow> cache_stats" where
  "cache_stats rc =
     \<lparr>st_enabled = cp_enabled (policy rc), st_hits = hits rc, st_misses = misses rc, st_stores = stores rc,
      st_evictions = evictions (store rc), st_entries = mem_entry_count (store rc),
      st_hit_rate = hit_rate (hits rc) (misses rc), st_saved_usd = of_nat (saved_micro_usd rc) / 1000000,
      st_by_model =
        sort_key (\<lambda>s. - int (ms_hits s))
          (map (\<lambda>(m, c). \<lparr>ms_model = m, ms_hits = c_hits c, ms_misses = c_misses c,
                           ms_hit_rate = hit_rate (c_hits c) (c_misses c), ms_saved_usd = counters_saved_usd c\<rparr>)
            (by_model rc)),
      st_by_namespace =
        map (\<lambda>(n, c). \<lparr>ns_namespace = n, ns_hits = c_hits c, ns_misses = c_misses c, ns_stores = c_stores c,
                         ns_hit_rate = hit_rate (c_hits c) (c_misses c), ns_saved_usd = counters_saved_usd c\<rparr>)
          (by_namespace rc)\<rparr>"

section \<open>The accounting invariant\<close>

definition total_of :: "(counters \<Rightarrow> nat) \<Rightarrow> (string \<times> counters) list \<Rightarrow> nat" where
  "total_of f m = sum_list (map (\<lambda>(_, c). f c) m)"

lemma bt_below: "bt_ok ((a, b) # m) \<Longrightarrow> k < a \<Longrightarrow> map_of m k = None"
  by (force simp: bt_ok_Cons map_of_eq_None_iff)

lemma total_insert:
  "bt_ok m \<Longrightarrow> total_of f (bt_insert k v m) + (case map_of m k of Some c \<Rightarrow> f c | None \<Rightarrow> 0) = total_of f m + f v"
proof (induction m)
  case (Cons p m)
  obtain a b where p: "p = (a, b)" by fastforce
  with Cons bt_below [of a b m k] show ?case
    by (auto simp: total_of_def bt_ok_Cons split: option.splits)
qed (simp add: total_of_def)

lemma length_bt_insert:
  "bt_ok m \<Longrightarrow> length (bt_insert k v m) = (if map_of m k = None then length m + 1 else length m)"
proof (induction m)
  case (Cons p m)
  obtain a b where p: "p = (a, b)" by fastforce
  with Cons bt_below [of a b m k] show ?case by (auto simp: bt_ok_Cons)
qed simp

lemma total_bump:
  assumes "bt_ok m" and "\<And>c. f (g c) = f c + n" and "f zero_counters = 0"
  shows "total_of f (bump k g m) = total_of f m + n"
  using total_insert [OF assms(1), of f k "g (case map_of m k of Some c \<Rightarrow> c | None \<Rightarrow> zero_counters)"] assms(2,3)
  by (auto simp: bump_def split: option.splits)

lemma bt_ok_bump: "bt_ok m \<Longrightarrow> bt_ok (bump k g m)"
  by (simp add: bump_def bt_ok_insert)

definition namespaces_ok :: "(string \<times> counters) list \<Rightarrow> bool" where
  "namespaces_ok m \<longleftrightarrow>
     bt_ok m \<and> (length m \<le> max_tracked_namespaces
       \<or> length m = max_tracked_namespaces + 1 \<and> map_of m other_namespaces \<noteq> None)"

lemma namespaces_ok_bump:
  "namespaces_ok (by_namespace rc) \<Longrightarrow> namespaces_ok (by_namespace (bump_namespace ns g rc))"
  by (auto simp: namespaces_ok_def bump_namespace_def namespace_bucket_def bump_def bt_ok_insert
      length_bt_insert map_of_bt_insert max_tracked_namespaces_def split: option.splits if_splits)

definition accounts_ok :: "response_cache \<Rightarrow> bool" where
  "accounts_ok rc \<longleftrightarrow>
     mem_ok (store rc) \<and> bt_ok (by_model rc) \<and> namespaces_ok (by_namespace rc)
     \<and> hits rc = total_of c_hits (by_model rc) \<and> misses rc = total_of c_misses (by_model rc)
     \<and> saved_micro_usd rc = total_of c_saved_micro_usd (by_model rc)"

lemma bump_namespace_frame [simp]:
  "store (bump_namespace ns g rc) = store rc" "policy (bump_namespace ns g rc) = policy rc"
  "hits (bump_namespace ns g rc) = hits rc" "misses (bump_namespace ns g rc) = misses rc"
  "stores (bump_namespace ns g rc) = stores rc"
  "saved_micro_usd (bump_namespace ns g rc) = saved_micro_usd rc"
  "by_model (bump_namespace ns g rc) = by_model rc"
  by (simp_all add: bump_namespace_def split: option.splits)

lemma accounts_ok_lookup:
  assumes "accounts_ok rc"
  shows "accounts_ok (snd (cache_lookup now rc key model d))"
proof -
  have m: "mem_ok (snd (mem_get now (store rc) key))"
    using assms mem.ok_get by (simp add: accounts_ok_def)
  have b: "bt_ok (by_model rc)" using assms by (simp add: accounts_ok_def)
  note t = total_bump [OF b]
  have hit: "total_of c_hits (bump model (counters_hit n) (by_model rc)) = total_of c_hits (by_model rc) + 1"
    "total_of c_misses (bump model (counters_hit n) (by_model rc)) = total_of c_misses (by_model rc)"
    "total_of c_saved_micro_usd (bump model (counters_hit n) (by_model rc)) = total_of c_saved_micro_usd (by_model rc) + n" for n
    using t [of c_hits "counters_hit n" 1] t [of c_misses "counters_hit n" 0] t [of c_saved_micro_usd "counters_hit n" n]
    by (simp_all add: counters_hit_def zero_counters_def)
  have miss: "total_of c_hits (bump model counters_miss (by_model rc)) = total_of c_hits (by_model rc)"
    "total_of c_misses (bump model counters_miss (by_model rc)) = total_of c_misses (by_model rc) + 1"
    "total_of c_saved_micro_usd (bump model counters_miss (by_model rc)) = total_of c_saved_micro_usd (by_model rc)"
    using t [of c_hits counters_miss 0] t [of c_misses counters_miss 1] t [of c_saved_micro_usd counters_miss 0]
    by (simp_all add: counters_miss_def zero_counters_def)
  show ?thesis
    using assms m hit miss
    by (auto simp: cache_lookup_def accounts_ok_def bt_ok_bump Let_def split: prod.splits option.splits
        intro!: namespaces_ok_bump)
qed

lemma accounts_ok_store: "accounts_ok rc \<Longrightarrow> accounts_ok (store_entry now rc key cls model pl cost d)"
  using mem.ok_put by (auto simp: store_entry_def accounts_ok_def Let_def intro!: namespaces_ok_bump)


text \<open>Everything that happens to a cache, evictions by the backend included.\<close>

inductive cache_step :: "response_cache \<Rightarrow> response_cache \<Rightarrow> bool" where
  "cache_step rc (snd (cache_lookup now rc key model d))"
| "cache_step rc (store_entry now rc key cls model pl cost d)"
| "cache_step rc (update_policy rc u)"
| "cache_step rc (snd (cache_purge_all rc))"
| "cache_step rc (snd (cache_purge_model sha rc model))"
| "cache_step rc (snd (cache_purge_namespace rc ns))"
| "cache_step rc (snd (cache_purge_key rc key))"
| "cache_step rc (rc\<lparr>store := mem_evict key (store rc)\<rparr>)"

lemma accounts_ok_step: "cache_step rc rc' \<Longrightarrow> accounts_ok rc \<Longrightarrow> accounts_ok rc'"
proof (induction rule: cache_step.induct)
  case (1 rc now key model d)
  then show ?case by (rule accounts_ok_lookup)
next
  case (2 rc now key cls model pl cost d)
  then show ?case by (rule accounts_ok_store)
next
  case (5 rc sha model)
  then show ?case
    using mem.ok_purge by (auto simp: cache_purge_model_def mem_purge_model_def accounts_ok_def split_beta Let_def)
next
  case (6 rc ns)
  then show ?case
    using mem.ok_purge by (auto simp: cache_purge_namespace_def mem_purge_namespace_def accounts_ok_def split_beta Let_def)
next
  case (8 rc key)
  then show ?case using mem.ok_lose by (simp add: accounts_ok_def)
qed (auto simp: update_policy_def cache_purge_all_def mem_purge_all_def
    cache_purge_key_def mem_purge_key_def accounts_ok_def mem_ok_def bt_ok_remove)

lemma accounts_ok_new: "accounts_ok (new_cache cfg)"
  by (simp add: accounts_ok_def new_cache_def cache_with_store_def mem_ok_def new_memory_store_def
      namespaces_ok_def total_of_def)

lemma accounts_ok_reachable: "cache_step\<^sup>*\<^sup>* rc rc' \<Longrightarrow> accounts_ok rc \<Longrightarrow> accounts_ok rc'"
  by (induction rule: rtranclp_induct) (auto intro: accounts_ok_step)

section \<open>Reading keys apart\<close>

lemma append_sep: "c \<notin> set a \<Longrightarrow> c \<notin> set b \<Longrightarrow> a @ c # x = b @ c # y \<longleftrightarrow> a = b \<and> x = y"
proof (induction a arbitrary: b)
  case Nil
  then show ?case by (cases b) auto
next
  case (Cons z a)
  then show ?case by (cases b) auto
qed

lemma store_key_eq:
  assumes "CHR '':'' \<notin> set a" and "CHR '':'' \<notin> set b" and "CHR '':'' \<notin> set f" and "CHR '':'' \<notin> set g"
  shows "store_key a f h = store_key b g h' \<longleftrightarrow> a = b \<and> f = g \<and> h = h'"
  using append_sep [OF assms(1,2)] append_sep [OF assms(3,4)] by (simp add: store_key_def)

lemma map_of_filter_key: "map_of (filter (\<lambda>(k, _). \<not> P k) l) k = (if P k then None else map_of l k)"
  by (induction l) auto

lemma canonical_lookup:
  assumes "bt_ok m"
  shows "map_of (filter (\<lambda>(k, _). \<not> starts_with ''_mr_'' k) (fold bt_remove volatile_fields m)) k
    = (if k \<in> set volatile_fields \<or> starts_with ''_mr_'' k then None else map_of m k)"
  unfolding map_of_filter_key using bt.look_del_all [OF assms, of volatile_fields k] by simp

lemma bt_ok_filter: "bt_ok m \<Longrightarrow> bt_ok (filter P m)"
  unfolding bt_ok_def by (induction m) auto

lemma canonical_eq:
  assumes "bt_ok m" and "bt_ok n"
  shows "canonical_body (JObj m) = canonical_body (JObj n) \<longleftrightarrow>
    (\<forall>k. k \<notin> set volatile_fields \<and> \<not> starts_with ''_mr_'' k \<longrightarrow> map_of m k = map_of n k)"
proof -
  let ?c = "\<lambda>m. filter (\<lambda>(k, _). \<not> starts_with ''_mr_'' k) (fold bt_remove volatile_fields m)"
  have ok: "bt_ok (?c m)" "bt_ok (?c n)" using assms by (simp_all add: bt_ok_filter bt.invar_del_all)
  have "canonical_body (JObj m) = canonical_body (JObj n) \<longleftrightarrow> ?c m = ?c n" by (simp add: canonical_body_def)
  also have "\<dots> \<longleftrightarrow> map_of (?c m) = map_of (?c n)" using bt_ext [OF ok] by auto
  also have "\<dots> \<longleftrightarrow> (\<forall>k. k \<notin> set volatile_fields \<and> \<not> starts_with ''_mr_'' k \<longrightarrow> map_of m k = map_of n k)"
    unfolding fun_eq_iff canonical_lookup [OF assms(1)] canonical_lookup [OF assms(2)] by auto
  finally show ?thesis .
qed

section \<open>Properties\<close>

text \<open>
  The statistics never drift: after any history of lookups, stores, policy updates, purges and
  evictions, the totals are the sums over the models, and the caller-chosen namespaces never make
  the process track more than 257 of them.
\<close>

theorem cache_accounts_balance:
  assumes "cache_step\<^sup>*\<^sup>* (new_cache cfg) rc"
  shows "hits rc = total_of c_hits (by_model rc) \<and> misses rc = total_of c_misses (by_model rc)
    \<and> saved_micro_usd rc = total_of c_saved_micro_usd (by_model rc) \<and> length (by_namespace rc) \<le> 257
    \<and> bt_ok (inner (store rc))"
  using accounts_ok_reachable [OF assms accounts_ok_new]
  by (auto simp: accounts_ok_def namespaces_ok_def max_tracked_namespaces_def mem_ok_def)

definition sample_cache_config :: cache_config where
  "sample_cache_config =
     \<lparr>cf_enabled = True, cf_backend = ''memory'', cf_redis_url = [], cf_namespace = ''mr'', cf_max_entries = 10,
      cf_ttl_seconds = 3600,
      cf_completions = \<lparr>cc_enabled = True, cc_max_temperature = 0, cc_assumed_temperature = 1, cc_ttl_seconds = None\<rparr>,
      cf_search = \<lparr>sc_enabled = True, sc_ttl_seconds = 900\<rparr>, cf_allow_header_opt_in = True,
      cf_max_ttl_seconds = 86400, cf_namespaces = Map.empty\<rparr>"

theorem cache_accounts_balance_witness:
  "total_of c_misses (by_model (snd (cache_lookup 5 (new_cache sample_cache_config) ''k'' ''m'' default_directives))) = 1"
proof -
  define rc where "rc = snd (cache_lookup 5 (new_cache sample_cache_config) ''k'' ''m'' default_directives)"
  have "cache_step\<^sup>*\<^sup>* (new_cache sample_cache_config) rc"
    unfolding rc_def by (intro r_into_rtranclp cache_step.intros)
  from cache_accounts_balance [OF this] have "total_of c_misses (by_model rc) = misses rc" by simp
  moreover have "misses rc = 1"
    by (simp add: rc_def cache_lookup_def new_cache_def cache_with_store_def mem_get_def new_memory_store_def)
  ultimately show ?thesis unfolding rc_def by (rule trans)
qed

text \<open>
  Two completion requests share a cache entry exactly when they resolve to the same model and
  agree on every field that can change the answer: transport fields, caller identifiers and the
  router's own annotations never fragment the cache, and everything else separates. The digest is
  assumed hexadecimal and without a collision on the two models and bodies, the printer injective
  on the two bodies.
\<close>

theorem completion_key_exact:
  assumes "bt_ok m1" and "bt_ok m2" and "\<And>x. CHR '':'' \<notin> set (sha x)"
    and "inj_on (\<lambda>x. take 16 (sha x)) {model1, model2}"
    and "inj_on print {canonical_body (JObj m1), canonical_body (JObj m2)}"
    and "inj_on sha {print (canonical_body (JObj m1)), print (canonical_body (JObj m2))}"
  shows "completion_cache_key sha print model1 (JObj m1) = completion_cache_key sha print model2 (JObj m2)
    \<longleftrightarrow> model1 = model2 \<and>
      (\<forall>k. k \<notin> set volatile_fields \<and> \<not> starts_with ''_mr_'' k \<longrightarrow> map_of m1 k = map_of m2 k)"
proof -
  have c: "CHR '':'' \<notin> set (model_fingerprint sha x)" "CHR '':'' \<notin> set class_completion" for x
    using assms(3) [of x] by (auto simp: model_fingerprint_def class_completion_def dest: in_set_takeD)
  have f: "model_fingerprint sha model1 = model_fingerprint sha model2 \<longleftrightarrow> model1 = model2"
    using assms(4) by (auto simp: model_fingerprint_def dest: inj_onD)
  have b: "make_cache_key sha print (JObj m1) = make_cache_key sha print (JObj m2)
      \<longleftrightarrow> canonical_body (JObj m1) = canonical_body (JObj m2)"
  proof
    assume "make_cache_key sha print (JObj m1) = make_cache_key sha print (JObj m2)"
    then have "print (canonical_body (JObj m1)) = print (canonical_body (JObj m2))"
      unfolding make_cache_key_def by (rule inj_onD [OF assms(6)]) simp_all
    then show "canonical_body (JObj m1) = canonical_body (JObj m2)"
      by (rule inj_onD [OF assms(5)]) simp_all
  qed (simp add: make_cache_key_def)
  show ?thesis
    by (simp only: completion_cache_key_def store_key_eq [OF c(2) c(2) c(1) c(1)] f b canonical_eq [OF assms(1,2)]
        simp_thms)
qed

definition sample_sha :: "string \<Rightarrow> string" where
  "sample_sha s = filter (\<lambda>c. c \<noteq> CHR '':'') s"

definition sample_print :: "json \<Rightarrow> string" where
  "sample_print v = (case v of JObj [(k, x)] \<Rightarrow> k | _ \<Rightarrow> [])"

theorem completion_key_exact_witness:
  "completion_cache_key sample_sha sample_print ''gpt'' (JObj [(''n'', JNull), (''stream'', JBool True)])
   = completion_cache_key sample_sha sample_print ''gpt'' (JObj [(''n'', JNull), (''user'', JStr ''u'')])"
proof -
  let ?a = "[(''n'', JNull), (''stream'', JBool True)]" and ?b = "[(''n'', JNull), (''user'', JStr ''u'')]"
  have ok: "bt_ok ?a" "bt_ok ?b"
    by (simp_all add: bt_ok_def less_char_def)
  have c: "canonical_body (JObj ?a) = JObj [(''n'', JNull)]" "canonical_body (JObj ?b) = JObj [(''n'', JNull)]"
    by (simp_all add: canonical_body_def volatile_fields_def bt_remove_def starts_with_def)
  have sha: "CHR '':'' \<notin> set (sample_sha x)" for x by (simp add: sample_sha_def)
  note key = completion_key_exact [of ?a ?b sample_sha "''gpt''" "''gpt''" sample_print, OF ok sha]
  have "\<forall>k. k \<notin> set volatile_fields \<and> \<not> starts_with ''_mr_'' k \<longrightarrow> map_of ?a k = map_of ?b k"
    by (simp add: volatile_fields_def)
  then show ?thesis using key by (simp only: c) simp
qed

text \<open>
  Whatever lifetime a caller asks for, the entry its request stores has one, and it expires no
  later than the operator's bound allows.
\<close>

theorem requested_ttl_capped:
  assumes "d_ttl d = Some requested" and "0 < max_ttl_seconds (policy rc)" and "bt_ok (inner (store rc))"
  shows "(case map_of (inner (store (store_entry now rc key cls model pl cost d))) key of
      Some e \<Rightarrow> now < expires_at e \<and> expires_at e \<le> now + int (max_ttl_seconds (policy rc))
    | None \<Rightarrow> False)"
proof -
  let ?t = "entry_ttl_for (policy rc) cls d"
  have t: "?t = ttl_min requested (Finite (max_ttl_seconds (policy rc)))"
    using assms(1,2) by (simp add: entry_ttl_for_def ttl_from_secs_def)
  obtain s where s: "ttl_secs ?t = Some s" "s \<le> max_ttl_seconds (policy rc)"
    using assms(2) unfolding t ttl_min_secs by (cases "ttl_secs requested") (auto simp: ttl_secs_def)
  then have "0 < s" by (cases ?t) (auto simp: ttl_secs_def)
  with s assms(3) show ?thesis
    by (simp add: store_entry_def mem_put_def map_of_bt_insert stamp_def ttl_expires_at_def Let_def)
qed

theorem requested_ttl_capped_witness:
  "(case map_of (inner (store (store_entry 100 (new_cache sample_cache_config) ''k'' class_completion ''m'' JNull 1
        (default_directives\<lparr>d_ttl := Some Unlimited\<rparr>)))) ''k'' of
      Some e \<Rightarrow> expires_at e \<le> 100 + 86400 | None \<Rightarrow> False)"
  using requested_ttl_capped [of "default_directives\<lparr>d_ttl := Some Unlimited\<rparr>" Unlimited "new_cache sample_cache_config"
      100 "''k''" class_completion "''m''" JNull 1]
  by (simp add: new_cache_def cache_with_store_def policy_from_config_def sample_cache_config_def new_memory_store_def
      split: option.splits)

text \<open>
  An entry whose payload the codec cannot read is booked as a hit, with its saving, while the
  caller gets nothing and pays for a call.
\<close>

lemma unreadable_entry_booked_as_hit:
  assumes "fst (cache_lookup now rc key model d) = Some e" and "from_value (payload e) = None"
  shows "fst (get_completion from_value now rc key model d) = None
    \<and> hits (snd (get_completion from_value now rc key model d)) = hits rc + 1
    \<and> saved_micro_usd (snd (get_completion from_value now rc key model d))
        = saved_micro_usd rc + micro_usd (original_cost_usd e)"
  using assms by (auto simp: get_completion_def cache_lookup_def Let_def split: prod.splits option.splits)

end
