(* ===== verification/Sse_Lines.thy ===== *)
theory Sse_Lines
  imports Prelude
begin

text \<open>
  Reassembly of SSE lines across network chunks (\<open>src/src/providers/sse_lines.rs\<close>). What a
  stream parser relies on is the locale \<open>line_source\<close>: the lines handed out do not depend on how
  the bytes were cut into chunks. It is interpreted on the buffer of the code.
\<close>

section \<open>Lossy decoding\<close>

text \<open>
  \<open>String::from_utf8_lossy\<close>: every maximal ill-formed subsequence becomes U+FFFD. A lead byte
  fixes the range of the first continuation byte and how many follow.
\<close>

definition byte :: "char \<Rightarrow> nat" where
  "byte c = of_char c"

definition replacement :: string where
  "replacement = [CHR 0xEF, CHR 0xBF, CHR 0xBD]"

text \<open>The bounds of the second byte and the number of further bytes; \<open>None\<close> is no lead byte.\<close>

definition lead :: "char \<Rightarrow> (nat \<times> nat \<times> nat) option" where
  "lead c =
     (let b = byte c
      in if 0xC2 \<le> b \<and> b \<le> 0xDF then Some (0x80, 0xBF, 0)
         else if b = 0xE0 then Some (0xA0, 0xBF, 1)
         else if b = 0xED then Some (0x80, 0x9F, 1)
         else if 0xE1 \<le> b \<and> b \<le> 0xEF then Some (0x80, 0xBF, 1)
         else if b = 0xF0 then Some (0x90, 0xBF, 2)
         else if 0xF1 \<le> b \<and> b \<le> 0xF3 then Some (0x80, 0xBF, 2)
         else if b = 0xF4 then Some (0x80, 0x8F, 2)
         else None)"

text \<open>Up to \<open>n\<close> continuation bytes: whether all were there, what was taken, what is left.\<close>

fun take_cont :: "nat \<Rightarrow> string \<Rightarrow> bool \<times> string \<times> string" where
  "take_cont 0 s = (True, [], s)"
| "take_cont (Suc n) [] = (False, [], [])"
| "take_cont (Suc n) (c # s) =
     (if is_cont_byte c then (case take_cont n s of (ok, t, r) \<Rightarrow> (ok, c # t, r)) else (False, [], c # s))"

lemma take_cont_length: "take_cont n s = (ok, t, r) \<Longrightarrow> length r \<le> length s"
  by (induction n s arbitrary: ok t r rule: take_cont.induct) (auto split: if_splits prod.splits)

function utf8_lossy :: "string \<Rightarrow> string" where
  "utf8_lossy [] = []"
| "utf8_lossy (c # s) =
     (if byte c < 0x80 then c # utf8_lossy s
      else case lead c of
             None \<Rightarrow> replacement @ utf8_lossy s
           | Some (lo, hi, n) \<Rightarrow>
               (case s of
                  [] \<Rightarrow> replacement
                | d # s' \<Rightarrow>
                    if lo \<le> byte d \<and> byte d \<le> hi
                    then (case take_cont n s' of
                            (ok, t, r) \<Rightarrow> (if ok then c # d # t else replacement) @ utf8_lossy r)
                    else replacement @ utf8_lossy s))"
  by pat_completeness auto
termination
  by (relation "measure length") (auto dest!: take_cont_length [OF sym])

lemma utf8_lossy_ascii: "list_all (\<lambda>c. byte c < 0x80) s \<Longrightarrow> utf8_lossy s = s"
  by (induction s) auto

section \<open>The contract\<close>

locale line_source =
  fixes push :: "'b \<Rightarrow> string \<Rightarrow> string list \<times> 'b"
  assumes push_append:
      "fst (push b (x @ y)) = fst (push b x) @ fst (push (snd (push b x)) y)"
      "snd (push b (x @ y)) = snd (push (snd (push b x)) y)"
begin

fun feed_all :: "(string \<Rightarrow> 's \<Rightarrow> 's) \<Rightarrow> string list \<Rightarrow> 'b \<times> 's \<Rightarrow> 'b \<times> 's" where
  "feed_all h [] bs = bs"
| "feed_all h (c # cs) bs =
     (let (ls, b) = push (fst bs) c in feed_all h cs (b, fold h ls (snd bs)))"

text \<open>A handler of lines ends in the same state however the bytes were cut.\<close>

lemma feed_all_chunking:
  "cs \<noteq> [] \<Longrightarrow> feed_all h cs (b, s) = (snd (push b (concat cs)), fold h (fst (push b (concat cs))) s)"
proof (induction cs arbitrary: b s)
  case (Cons c cs)
  show ?case
  proof (cases "cs = []")
    case False
    with Cons.IH [OF False, of "snd (push b c)" "fold h (fst (push b c)) s"] show ?thesis
      by (simp add: split_beta Let_def push_append)
  qed (simp add: split_beta Let_def)
qed simp

end

section \<open>The buffer\<close>

abbreviation nl :: char where
  "nl \<equiv> CHR 0x0A"

fun split_on :: "char \<Rightarrow> string \<Rightarrow> string list" where
  "split_on c [] = [[]]"
| "split_on c (x # xs) =
     (if x = c then [] # split_on c xs
      else (case split_on c xs of l # ls \<Rightarrow> (x # l) # ls | [] \<Rightarrow> [[x]]))"

definition strip_cr :: "string \<Rightarrow> string" where
  "strip_cr l = (if l \<noteq> [] \<and> last l = CHR 0x0D then butlast l else l)"

text \<open>The buffer is its pending bytes. \<open>rposition\<close> finds the last newline.\<close>

definition after_last_nl :: "string \<Rightarrow> string" where
  "after_last_nl p = rev (takeWhile (\<lambda>c. c \<noteq> nl) (rev p))"

definition sse_push :: "string \<Rightarrow> string \<Rightarrow> string list \<times> string" where
  "sse_push pending chunk =
     (let p = pending @ chunk
      in if nl \<notin> set p then ([], p)
         else let rest = after_last_nl p; complete = take (length p - length rest) p
              in (map (\<lambda>l. utf8_lossy (strip_cr l)) (butlast (split_on nl complete)), rest))"

definition has_partial_line :: "string \<Rightarrow> bool" where
  "has_partial_line pending \<longleftrightarrow> pending \<noteq> []"

lemma split_on_ne [simp]: "split_on c s \<noteq> []"
  by (cases s) (auto split: list.splits)

lemma split_on_snoc_append: "split_on c (a @ c # b) = split_on c a @ split_on c b"
proof (induction a)
  case (Cons x a)
  then show ?case by (cases "split_on c a") auto
qed simp

lemma after_last_nl_id: "nl \<notin> set p \<Longrightarrow> after_last_nl p = p"
proof -
  assume "nl \<notin> set p"
  then have "takeWhile (\<lambda>c. c \<noteq> nl) (rev p) = rev p" by (auto simp: takeWhile_eq_all_conv)
  then show ?thesis unfolding after_last_nl_def by (metis rev_rev_ident)
qed

lemma after_last_nl_append: "nl \<notin> set r \<Longrightarrow> after_last_nl (a @ nl # r) = r"
proof -
  assume "nl \<notin> set r"
  then have "takeWhile (\<lambda>c. c \<noteq> nl) (rev r @ nl # rev a) = rev r"
    by (subst takeWhile_append2) auto
  then show ?thesis by (simp add: after_last_nl_def)
qed

lemma split_last_nl:
  assumes "nl \<in> set p"
  obtains a r where "p = a @ nl # r" and "nl \<notin> set r"
  using assms by (metis split_list_last)

lemma sse_push_lines:
  assumes "p @ c = a @ nl # r" and "nl \<notin> set r"
  shows "sse_push p c = (map (\<lambda>l. utf8_lossy (strip_cr l)) (split_on nl a), r)"
  using assms by (simp add: sse_push_def Let_def after_last_nl_append split_on_snoc_append butlast_append)

lemma sse_push_none: "nl \<notin> set (p @ c) \<Longrightarrow> sse_push p c = ([], p @ c)"
  by (simp add: sse_push_def Let_def)

lemma sse_push_assoc:
  "sse_push p (x @ y) = (fst (sse_push p x) @ fst (sse_push (snd (sse_push p x)) y), snd (sse_push (snd (sse_push p x)) y))"
proof (cases "nl \<in> set (p @ x)")
  case False
  then show ?thesis by (simp add: sse_push_none) (simp add: sse_push_def)
next
  case True
  then obtain a r where a: "p @ x = a @ nl # r" "nl \<notin> set r" by (rule split_last_nl)
  note px = sse_push_lines [OF a]
  show ?thesis
  proof (cases "nl \<in> set y")
    case False
    have "p @ (x @ y) = a @ nl # (r @ y)" using a by (simp flip: append_assoc)
    from sse_push_lines [OF this] False a(2) px sse_push_none [of r y] show ?thesis by simp
  next
    case True
    then obtain b q where b: "y = b @ nl # q" "nl \<notin> set q" by (rule split_last_nl)
    have "p @ (x @ y) = (a @ nl # r @ b) @ nl # q" using a b by (simp flip: append_assoc)
    from sse_push_lines [OF this b(2)]
    have 1: "sse_push p (x @ y) = (map (\<lambda>l. utf8_lossy (strip_cr l)) (split_on nl (a @ nl # r @ b)), q)" .
    have "r @ y = (r @ b) @ nl # q" using b by simp
    from sse_push_lines [OF this b(2)]
    have 2: "sse_push r y = (map (\<lambda>l. utf8_lossy (strip_cr l)) (split_on nl (r @ b)), q)" .
    show ?thesis unfolding 1 px by (simp add: 2 split_on_snoc_append)
  qed
qed

interpretation sse: line_source sse_push
  by unfold_locales (simp_all add: sse_push_assoc)

end
