(* ===== verification/Stream_Capture.thy ===== *)
theory Stream_Capture
  imports Sse_Lines Adapter
begin

text \<open>
  Capture and replay of streamed responses (\<open>src/src/router/cache/stream.rs\<close>): the OpenAI
  capture and its replay here, the Anthropic ones in \<open>Messages_Capture\<close>. The parser and the
  printer of JSON text belong to \<open>serde_json\<close> and are the parameters \<open>parse\<close> and \<open>pr\<close>.
\<close>

section \<open>The OpenAI capture\<close>

record tool_call_acc =
  acc_id :: "string option"
  acc_name :: string
  acc_arguments :: string

record chat_capture =
  cc_lines :: string
  cc_content :: string
  cc_tool_calls :: "(nat \<times> tool_call_acc) list"
  cc_finish_reason :: "string option"
  cc_usage :: "json option"
  cc_done :: bool
  cc_unusable :: bool

definition empty_acc :: tool_call_acc where
  "empty_acc = \<lparr>acc_id = None, acc_name = [], acc_arguments = []\<rparr>"

definition chat_new :: chat_capture where
  "chat_new =
     \<lparr>cc_lines = [], cc_content = [], cc_tool_calls = [], cc_finish_reason = None,
      cc_usage = None, cc_done = False, cc_unusable = False\<rparr>"

definition data_prefix :: string where
  "data_prefix = ''data:''"

definition done_marker :: string where
  "done_marker = ''[DONE]''"

definition str_or :: "string \<Rightarrow> json \<Rightarrow> string" where
  "str_or d v = (case as_str v of Some s \<Rightarrow> s | None \<Rightarrow> d)"

definition u64_or_0 :: "json \<Rightarrow> nat" where
  "u64_or_0 v = (case as_u64 v of Some n \<Rightarrow> n | None \<Rightarrow> 0)"

text \<open>One element of \<open>delta.tool_calls\<close>, added to the call of its index.\<close>

definition add_call :: "json \<Rightarrow> (nat \<times> tool_call_acc) list \<Rightarrow> (nat \<times> tool_call_acc) list" where
  "add_call call m =
     (let i = u64_or_0 (jget call ''index'');
          acc = (case map_of m i of Some a \<Rightarrow> a | None \<Rightarrow> empty_acc);
          f = jget call ''function''
      in bt_insert i
           \<lparr>acc_id = (case as_str (jget call ''id'') of Some s \<Rightarrow> Some s | None \<Rightarrow> acc_id acc),
            acc_name = acc_name acc @ str_or [] (jget f ''name''),
            acc_arguments = acc_arguments acc @ str_or [] (jget f ''arguments'')\<rparr> m)"

definition take_choice :: "json \<Rightarrow> chat_capture \<Rightarrow> chat_capture" where
  "take_choice choice c =
     (let delta = jget choice ''delta''
      in c\<lparr>cc_content := cc_content c @ str_or [] (jget delta ''content''),
           cc_tool_calls := fold add_call (array_items (jget delta ''tool_calls'')) (cc_tool_calls c),
           cc_finish_reason :=
             (case as_str (jget choice ''finish_reason'') of Some r \<Rightarrow> Some r | None \<Rightarrow> cc_finish_reason c)\<rparr>)"

text \<open>The loop over the choices returns at the first one whose index is not 0.\<close>

fun take_choices :: "json list \<Rightarrow> chat_capture \<Rightarrow> chat_capture" where
  "take_choices [] c = c"
| "take_choices (x # xs) c =
     (if u64_or_0 (jget x ''index'') \<noteq> 0 then c\<lparr>cc_unusable := True\<rparr>
      else take_choices xs (take_choice x c))"

definition chunk_error :: "json \<Rightarrow> bool" where
  "chunk_error v = (case jget_opt v ''error'' of Some e \<Rightarrow> e \<noteq> JNull | None \<Rightarrow> False)"

definition note_usage :: "json \<Rightarrow> chat_capture \<Rightarrow> chat_capture" where
  "note_usage v c = (if is_object (jget v ''usage'') then c\<lparr>cc_usage := Some (jget v ''usage'')\<rparr> else c)"

definition chat_feed_line :: "(string \<Rightarrow> json option) \<Rightarrow> string \<Rightarrow> chat_capture \<Rightarrow> chat_capture" where
  "chat_feed_line parse line c =
     (if cc_unusable c \<or> cc_done c then c
      else case strip_prefix data_prefix line of
             None \<Rightarrow> c
           | Some d \<Rightarrow>
               (let data = trim d
                in if data = done_marker then c\<lparr>cc_done := True\<rparr>
                   else case parse data of
                          None \<Rightarrow> c\<lparr>cc_unusable := True\<rparr>
                        | Some v \<Rightarrow>
                            if chunk_error v then c\<lparr>cc_unusable := True\<rparr>
                            else take_choices (array_items (jget v ''choices'')) (note_usage v c)))"

definition chat_feed :: "(string \<Rightarrow> json option) \<Rightarrow> string \<Rightarrow> chat_capture \<Rightarrow> chat_capture" where
  "chat_feed parse chunk c =
     (let (ls, b) = sse_push (cc_lines c) chunk
      in fold (chat_feed_line parse) ls (c\<lparr>cc_lines := b\<rparr>))"

definition call_json :: "tool_call_acc \<Rightarrow> json option" where
  "call_json a =
     map_option (\<lambda>i. jobj [(''id'', JStr i), (''type'', JStr ''function''),
                           (''function'', jobj [(''name'', JStr (acc_name a)), (''arguments'', JStr (acc_arguments a))])])
       (acc_id a)"

fun call_list :: "tool_call_acc list \<Rightarrow> json list option" where
  "call_list [] = Some []"
| "call_list (a # as) =
     (case call_json a of None \<Rightarrow> None | Some j \<Rightarrow> map_option (\<lambda>js. j # js) (call_list as))"

text \<open>\<open>tool_calls\<close> of the result: the outer \<open>None\<close> is the \<open>?\<close> on a call without an id.\<close>

definition assembled_calls :: "(nat \<times> tool_call_acc) list \<Rightarrow> json option option" where
  "assembled_calls m =
     (if m = [] then Some None else map_option (\<lambda>js. Some (JArr js)) (call_list (map snd m)))"

definition chat_finish :: "chat_capture \<Rightarrow> completion_result option" where
  "chat_finish c =
     (if \<not> cc_done c \<or> cc_unusable c \<or> has_partial_line (cc_lines c) then None
      else case cc_usage c of
             None \<Rightarrow> None
           | Some usage \<Rightarrow>
               (case as_u64 (jget usage ''prompt_tokens'') of
                  None \<Rightarrow> None
                | Some p \<Rightarrow>
                    (case as_u64 (jget usage ''completion_tokens'') of
                       None \<Rightarrow> None
                     | Some q \<Rightarrow>
                         map_option
                           (\<lambda>calls.
                              \<lparr>content = cc_content c, prompt_tokens = as_u32 p, completion_tokens = as_u32 q,
                               finish_reason = (case cc_finish_reason c of Some r \<Rightarrow> r | None \<Rightarrow> ''stop''),
                               cache_read_tokens =
                                 as_u32 (u64_or_0 (jget (jget usage ''prompt_tokens_details'') ''cached_tokens'')),
                               cache_write_tokens = 0,
                               reasoning_tokens =
                                 map_option as_u32
                                   (as_u64 (jget (jget usage ''completion_tokens_details'') ''reasoning_tokens'')),
                               ttft_ms = None, tool_calls = calls\<rparr>)
                           (assembled_calls (cc_tool_calls c)))))"

section \<open>Chunk boundaries do not matter\<close>

lemma take_choice_lines: "take_choice x (c\<lparr>cc_lines := b\<rparr>) = (take_choice x c)\<lparr>cc_lines := b\<rparr>"
  by (cases "as_str (jget x ''finish_reason'')") (simp_all add: take_choice_def Let_def)

lemma take_choices_lines: "take_choices xs (c\<lparr>cc_lines := b\<rparr>) = (take_choices xs c)\<lparr>cc_lines := b\<rparr>"
  by (induction xs arbitrary: c) (auto simp: take_choice_lines)

lemma note_usage_lines: "note_usage v (c\<lparr>cc_lines := b\<rparr>) = (note_usage v c)\<lparr>cc_lines := b\<rparr>"
  by (simp add: note_usage_def)

lemma chat_feed_line_lines: "chat_feed_line P l (c\<lparr>cc_lines := b\<rparr>) = (chat_feed_line P l c)\<lparr>cc_lines := b\<rparr>"
  by (auto simp: chat_feed_line_def Let_def note_usage_lines take_choices_lines split: option.split)

lemma fold_feed_lines:
  "fold (chat_feed_line P) ls (c\<lparr>cc_lines := b\<rparr>) = (fold (chat_feed_line P) ls c)\<lparr>cc_lines := b\<rparr>"
  by (induction ls arbitrary: c) (simp_all add: chat_feed_line_lines)

lemma take_choices_pending [simp]: "cc_lines (take_choices xs c) = cc_lines c"
  by (induction xs arbitrary: c) (auto simp: take_choice_def Let_def)

lemma chat_feed_line_pending [simp]: "cc_lines (chat_feed_line P l c) = cc_lines c"
  by (auto simp: chat_feed_line_def Let_def note_usage_def split: option.splits)

text \<open>The capture is the locale's reader: its lines field is the buffer, the rest the handler state.\<close>

lemma chat_feed_all:
  "fold (chat_feed P) cs c =
     (case sse.feed_all (chat_feed_line P) cs (cc_lines c, c) of (b, s) \<Rightarrow> s\<lparr>cc_lines := b\<rparr>)"
proof (induction cs arbitrary: c)
  case (Cons x cs)
  obtain ls b where p: "sse_push (cc_lines c) x = (ls, b)" by fastforce
  have e: "chat_feed P x c = (fold (chat_feed_line P) ls c)\<lparr>cc_lines := b\<rparr>"
    by (simp add: chat_feed_def p fold_feed_lines)
  have gen: "(case sse.feed_all (chat_feed_line P) cs (b', s\<lparr>cc_lines := d\<rparr>) of (b, s) \<Rightarrow> s\<lparr>cc_lines := b\<rparr>)
      = (case sse.feed_all (chat_feed_line P) cs (b', s) of (b, s) \<Rightarrow> s\<lparr>cc_lines := b\<rparr>)" for b' s d
    by (induction cs arbitrary: b' s) (auto simp: Let_def split_beta fold_feed_lines)
  show ?case by (simp add: e Cons.IH p gen)
qed simp

lemma chat_feed_chunking:
  assumes "cs \<noteq> []"
  shows "fold (chat_feed P) cs c = chat_feed P (concat cs) c"
  using sse.feed_all_chunking [OF assms, of "chat_feed_line P" "cc_lines c" c]
  by (simp add: chat_feed_all) (simp add: chat_feed_def split_beta fold_feed_lines)

section \<open>What a stored answer says\<close>

text \<open>Specification: the payloads of the \<open>data:\<close> lines, the text of a chunk, the last usage.\<close>

definition sse_data :: "string \<Rightarrow> string list" where
  "sse_data s = List.map_filter (\<lambda>l. map_option trim (strip_prefix data_prefix l)) (fst (sse_push [] s))"

definition choice_text :: "json \<Rightarrow> string" where
  "choice_text x = str_or [] (jget (jget x ''delta'') ''content'')"

definition chunk_text :: "json \<Rightarrow> string" where
  "chunk_text v = concat (map choice_text (array_items (jget v ''choices'')))"

definition clean_chunk :: "json \<Rightarrow> bool" where
  "clean_chunk v \<longleftrightarrow>
     \<not> chunk_error v \<and> list_all (\<lambda>x. u64_or_0 (jget x ''index'') = 0) (array_items (jget v ''choices''))"

definition last_usage :: "json list \<Rightarrow> json option" where
  "last_usage vs = (case filter is_object (map (\<lambda>v. jget v ''usage'') vs) of [] \<Rightarrow> None | us \<Rightarrow> Some (last us))"

definition chat_eat :: "(string \<Rightarrow> json option) \<Rightarrow> string \<Rightarrow> chat_capture \<Rightarrow> chat_capture" where
  "chat_eat parse d c = chat_feed_line parse (data_prefix @ d) c"

lemma trim_twice_data: "chat_eat P (trim d) c = chat_eat P d c"
  by (simp add: chat_eat_def chat_feed_line_def)

lemma fold_feed_data:
  "fold (chat_feed_line P) ls c =
     fold (chat_eat P) (List.map_filter (\<lambda>l. map_option trim (strip_prefix data_prefix l)) ls) c"
proof (induction ls arbitrary: c)
  case (Cons l ls)
  show ?case
  proof (cases "strip_prefix data_prefix l")
    case None
    then have "chat_feed_line P l c = c" by (simp add: chat_feed_line_def)
    with None Cons show ?thesis by (simp add: map_filter_simps)
  next
    case (Some d)
    then have "l = data_prefix @ d" by (simp add: strip_prefix_Some)
    with Some Cons show ?thesis by (simp add: map_filter_simps trim_twice_data) (simp add: chat_eat_def)
  qed
qed (simp add: map_filter_simps)

lemma chat_eat_stopped [simp]: "cc_unusable c \<or> cc_done c \<Longrightarrow> chat_eat P d c = c"
  by (auto simp: chat_eat_def chat_feed_line_def)

lemma fold_eat_stopped: "cc_unusable c \<or> cc_done c \<Longrightarrow> fold (chat_eat P) ds c = c"
  by (induction ds arbitrary: c) auto

lemma chat_eat_running:
  "\<not> cc_unusable c \<Longrightarrow> \<not> cc_done c \<Longrightarrow> trim d = d \<Longrightarrow> chat_eat P d c =
     (if d = done_marker then c\<lparr>cc_done := True\<rparr>
      else case P d of
             None \<Rightarrow> c\<lparr>cc_unusable := True\<rparr>
           | Some v \<Rightarrow> if chunk_error v then c\<lparr>cc_unusable := True\<rparr>
                       else take_choices (array_items (jget v ''choices'')) (note_usage v c))"
  by (simp add: chat_eat_def chat_feed_line_def)

lemma take_choice_fields [simp]:
  "cc_done (take_choice x c) = cc_done c" "cc_unusable (take_choice x c) = cc_unusable c"
  "cc_usage (take_choice x c) = cc_usage c" "cc_lines (take_choice x c) = cc_lines c"
  "cc_content (take_choice x c) = cc_content c @ choice_text x"
  by (simp_all add: take_choice_def Let_def choice_text_def)

lemma take_choices_clean:
  assumes "\<not> cc_unusable (take_choices xs c)"
  shows "list_all (\<lambda>x. u64_or_0 (jget x ''index'') = 0) xs" and "take_choices xs c = fold take_choice xs c"
  using assms by (induction xs arbitrary: c) (auto split: if_splits)

lemma take_choices_zero:
  "list_all (\<lambda>x. u64_or_0 (jget x ''index'') = 0) xs \<Longrightarrow> take_choices xs c = fold take_choice xs c"
  by (induction xs arbitrary: c) auto

lemma fold_take_choice_fields [simp]:
  "cc_done (fold take_choice xs c) = cc_done c" "cc_unusable (fold take_choice xs c) = cc_unusable c"
  "cc_usage (fold take_choice xs c) = cc_usage c" "cc_lines (fold take_choice xs c) = cc_lines c"
  "cc_content (fold take_choice xs c) = cc_content c @ concat (map choice_text xs)"
  by (induction xs arbitrary: c) auto

lemma take_choices_done [simp]: "cc_done (take_choices xs c) = cc_done c"
  by (induction xs arbitrary: c) auto

definition take_chunk :: "json \<Rightarrow> chat_capture \<Rightarrow> chat_capture" where
  "take_chunk v c = fold take_choice (array_items (jget v ''choices'')) (note_usage v c)"

lemma note_usage_fields [simp]:
  "cc_done (note_usage v c) = cc_done c" "cc_unusable (note_usage v c) = cc_unusable c"
  "cc_content (note_usage v c) = cc_content c" "cc_lines (note_usage v c) = cc_lines c"
  "cc_usage (note_usage v c) = (if is_object (jget v ''usage'') then Some (jget v ''usage'') else cc_usage c)"
  "cc_tool_calls (note_usage v c) = cc_tool_calls c" "cc_finish_reason (note_usage v c) = cc_finish_reason c"
  by (simp_all add: note_usage_def)

lemma take_chunk_fields [simp]:
  "cc_done (take_chunk v c) = cc_done c" "cc_unusable (take_chunk v c) = cc_unusable c"
  "cc_content (take_chunk v c) = cc_content c @ chunk_text v" "cc_lines (take_chunk v c) = cc_lines c"
  "cc_usage (take_chunk v c) = (if is_object (jget v ''usage'') then Some (jget v ''usage'') else cc_usage c)"
  by (simp_all add: take_chunk_def chunk_text_def)

lemma fold_take_chunk_fields [simp]:
  "cc_done (fold take_chunk vs c) = cc_done c" "cc_unusable (fold take_chunk vs c) = cc_unusable c"
  "cc_content (fold take_chunk vs c) = cc_content c @ concat (map chunk_text vs)"
  "cc_usage (fold take_chunk vs c) = (case last_usage vs of None \<Rightarrow> cc_usage c | u \<Rightarrow> u)"
  by (induction vs arbitrary: c) (auto simp: last_usage_def split: list.splits)

text \<open>A capture that ends usable read clean chunks only, up to the first \<open>[DONE]\<close>.\<close>

lemma fold_eat_usable:
  assumes "list_all (\<lambda>d. trim d = d) ds" and "\<not> cc_unusable c" and "\<not> cc_done c"
    and "\<not> cc_unusable (fold (chat_eat P) ds c)" and "cc_done (fold (chat_eat P) ds c)"
  shows "\<exists>evs vs rest. ds = evs @ done_marker # rest \<and> map P evs = map Some vs
    \<and> list_all clean_chunk vs \<and> fold (chat_eat P) ds c = (fold take_chunk vs c)\<lparr>cc_done := True\<rparr>"
  using assms
proof (induction ds arbitrary: c)
  case (Cons d ds)
  note run = chat_eat_running [OF Cons.prems(2,3), of d P]
  from Cons.prems(1) have d: "trim d = d" and ds: "list_all (\<lambda>d. trim d = d) ds" by simp_all
  show ?case
  proof (cases "d = done_marker")
    case True
    then have "fold (chat_eat P) (d # ds) c = c\<lparr>cc_done := True\<rparr>"
      using run d by (simp add: fold_eat_stopped)
    with True show ?thesis
      by (intro exI [of _ "[]"] exI [of _ ds]) simp
  next
    case False
    have u: "\<not> cc_unusable (chat_eat P d c)"
      using Cons.prems(4) by (auto simp: fold_eat_stopped)
    obtain v where v: "P d = Some v" "\<not> chunk_error v"
      using u False run d by (auto split: option.splits if_splits)
    have e: "chat_eat P d c = take_choices (array_items (jget v ''choices'')) (note_usage v c)"
      using run d False v by simp
    from u e take_choices_clean [of "array_items (jget v ''choices'')" "note_usage v c"]
    have cl: "clean_chunk v" and e': "chat_eat P d c = take_chunk v c"
      by (simp_all add: clean_chunk_def v take_chunk_def)
    from Cons.IH [OF ds, of "take_chunk v c"] Cons.prems
    obtain evs vs rest where ih: "ds = evs @ done_marker # rest" "map P evs = map Some vs"
      "list_all clean_chunk vs" "fold (chat_eat P) ds (take_chunk v c) = (fold take_chunk vs (take_chunk v c))\<lparr>cc_done := True\<rparr>"
      by (auto simp: e')
    show ?thesis
    proof (intro exI conjI)
      show "d # ds = (d # evs) @ done_marker # rest" by (simp add: ih(1))
      show "fold (chat_eat P) (d # ds) c = (fold take_chunk (v # vs) c)\<lparr>cc_done := True\<rparr>"
        by (simp only: fold_simps e' ih(4))
    qed (simp_all add: ih v cl)
  qed
qed simp

lemma sse_data_trimmed: "list_all (\<lambda>d. trim d = d) (sse_data s)"
  by (auto simp: sse_data_def map_filter_def list_all_iff)

lemma chat_feed_new:
  "chat_feed P s chat_new = (fold (chat_eat P) (sse_data s) chat_new)\<lparr>cc_lines := snd (sse_push [] s)\<rparr>"
proof -
  have "cc_lines chat_new = []" by (simp add: chat_new_def)
  then show ?thesis by (simp add: chat_feed_def split_beta fold_feed_lines) (simp add: fold_feed_data sse_data_def)
qed

lemma chat_finish_some:
  "chat_finish c = Some r \<Longrightarrow> cc_done c \<and> \<not> cc_unusable c \<and> \<not> has_partial_line (cc_lines c) \<and>
     (\<exists>u. cc_usage c = Some u \<and>
        map_option as_u32 (as_u64 (jget u ''prompt_tokens'')) = Some (prompt_tokens r) \<and>
        map_option as_u32 (as_u64 (jget u ''completion_tokens'')) = Some (completion_tokens r))
     \<and> content r = cc_content c"
  by (auto simp: chat_finish_def split: if_splits option.splits)

text \<open>
  C39. An answer taken from a stream and stored is the answer of that stream: every payload before
  the first \<open>[DONE]\<close> parsed into a clean chunk (no error, one choice), the stored text is the
  concatenation of their deltas, the stored token counts are those of the last usage object, and
  no unfinished line was left.
\<close>

theorem stored_answer_is_the_stream:
  assumes "chat_finish (chat_feed P s chat_new) = Some r"
  shows "\<exists>evs vs rest u.
      sse_data s = evs @ done_marker # rest \<and> map P evs = map Some vs \<and> list_all clean_chunk vs
      \<and> content r = concat (map chunk_text vs) \<and> last_usage vs = Some u
      \<and> map_option as_u32 (as_u64 (jget u ''prompt_tokens'')) = Some (prompt_tokens r)
      \<and> map_option as_u32 (as_u64 (jget u ''completion_tokens'')) = Some (completion_tokens r)
      \<and> snd (sse_push [] s) = []"
proof -
  let ?c = "fold (chat_eat P) (sse_data s) chat_new"
  note f = chat_finish_some [OF assms, unfolded chat_feed_new, simplified]
  have "\<not> cc_unusable chat_new" "\<not> cc_done chat_new" by (simp_all add: chat_new_def)
  from fold_eat_usable [OF sse_data_trimmed this, of P s] f
  obtain evs vs rest where e: "sse_data s = evs @ done_marker # rest" "map P evs = map Some vs"
    "list_all clean_chunk vs" "?c = (fold take_chunk vs chat_new)\<lparr>cc_done := True\<rparr>" by auto
  have "content r = concat (map chunk_text vs)" using f e(4) by (simp add: chat_new_def)
  moreover from f obtain u where u: "cc_usage ?c = Some u"
      "map_option as_u32 (as_u64 (jget u ''prompt_tokens'')) = Some (prompt_tokens r)"
      "map_option as_u32 (as_u64 (jget u ''completion_tokens'')) = Some (completion_tokens r)" by auto
  moreover have "last_usage vs = Some u" using u(1) e(4) by (simp add: chat_new_def split: option.splits)
  moreover have "snd (sse_push [] s) = []" using f by (simp add: has_partial_line_def)
  ultimately show ?thesis using e by blast
qed

definition sample_chunk :: json where
  "sample_chunk =
     jobj [(''choices'', JArr [jobj [(''delta'', jobj [(''content'', JStr ''hi'')])]]),
           (''usage'', jobj [(''prompt_tokens'', jnat 3), (''completion_tokens'', jnat 1)])]"

definition sample_chat_parse :: "string \<Rightarrow> json option" where
  "sample_chat_parse d = (if d = ''{a}'' then Some sample_chunk else None)"

definition sample_stream :: string where
  "sample_stream = ''data: {a}'' @ [nl, nl] @ ''data: [DONE]'' @ [nl, nl]"

theorem stored_answer_witness:
  "\<exists>evs vs rest u.
      sse_data sample_stream = evs @ done_marker # rest \<and> map sample_chat_parse evs = map Some vs
      \<and> list_all clean_chunk vs
      \<and> content (the (chat_finish (chat_feed sample_chat_parse sample_stream chat_new))) = concat (map chunk_text vs)
      \<and> last_usage vs = Some u"
proof -
  have "chat_finish (chat_feed sample_chat_parse sample_stream chat_new) \<noteq> None" by code_simp
  then obtain r where r: "chat_finish (chat_feed sample_chat_parse sample_stream chat_new) = Some r" by auto
  from stored_answer_is_the_stream [OF r] show ?thesis unfolding r by auto
qed

text \<open>
  However the network cuts the bytes of a stream into chunks, the capture ends in the same
  state, so the same answer is stored or refused.
\<close>

theorem capture_ignores_chunking: "fold (chat_feed P) cs chat_new = chat_feed P (concat cs) chat_new"
proof (cases "cs = []")
  case True
  have "sse_push [] [] = ([], [])" by (simp add: sse_push_def)
  with True show ?thesis by (simp add: chat_feed_def chat_new_def)
next
  case False
  then show ?thesis by (rule chat_feed_chunking)
qed

end
