(* ===== verification/Router_Meta.thy ===== *)
theory Router_Meta
  imports Adapter
begin

text \<open>
  The router's own account of a priced call (\<open>src/src/api/routes/router_meta.rs\<close>) and the
  OpenAI-shaped \<open>usage\<close> object built from it. Costs are exact rationals; the sum of the token
  counts is a \<open>u32\<close> addition (wrapping, as a release build computes it).
\<close>

section \<open>The account\<close>

record call_cost =
  mc_cost_usd :: rat
  mc_cache_hit :: bool
  mc_saved_usd :: "rat option"
  mc_uncached_cost_usd :: rat

definition spent :: "rat \<Rightarrow> call_cost" where
  "spent c = \<lparr>mc_cost_usd = c, mc_cache_hit = False, mc_saved_usd = None, mc_uncached_cost_usd = c\<rparr>"

definition cost_of_hit :: "rat \<Rightarrow> call_cost" where
  "cost_of_hit avoided =
     \<lparr>mc_cost_usd = 0, mc_cache_hit = True, mc_saved_usd = Some avoided, mc_uncached_cost_usd = avoided\<rparr>"

record token_meta =
  tm_prompt :: nat
  tm_completion :: nat
  tm_total :: nat
  tm_cache_read :: nat
  tm_cache_write :: nat
  tm_reasoning :: "nat option"
  tm_estimated :: bool

definition default_tokens :: token_meta where
  "default_tokens =
     \<lparr>tm_prompt = 0, tm_completion = 0, tm_total = 0, tm_cache_read = 0, tm_cache_write = 0,
      tm_reasoning = None, tm_estimated = False\<rparr>"

definition new_tokens :: "nat \<Rightarrow> nat \<Rightarrow> token_meta" where
  "new_tokens p c = default_tokens\<lparr>tm_prompt := p, tm_completion := c, tm_total := as_u32 (p + c)\<rparr>"

record timing_meta =
  tg_total_ms :: int
  tg_latency_ms :: int
  tg_provider_ms :: "int option"
  tg_ttft_ms :: "int option"
  tg_attempts :: int
  tg_fallbacks :: int

record router_meta =
  rm_requested_model :: string
  rm_model :: string
  rm_provider :: string
  rm_settings :: json
  rm_tokens :: "token_meta option"
  rm_results :: "int option"
  rm_cost :: call_cost
  rm_timing :: timing_meta

section \<open>As JSON\<close>

definition jint :: "int \<Rightarrow> json" where
  "jint i = JNum (if 0 \<le> i then PosInt (nat i) else NegInt i)"

definition jrat :: "rat \<Rightarrow> json" where
  "jrat r = JNum (Float r)"

definition jopt :: "('a \<Rightarrow> json) \<Rightarrow> 'a option \<Rightarrow> json" where
  "jopt f x = (case x of Some y \<Rightarrow> f y | None \<Rightarrow> JNull)"

text \<open>\<open>CallCost::write_into\<close>; writing into a value that is neither an object nor null panics.\<close>

definition write_into :: "call_cost \<Rightarrow> json \<Rightarrow> json option" where
  "write_into c usage =
     Option.bind (jset usage ''cost_usd'' (jrat (mc_cost_usd c))) (\<lambda>u.
     Option.bind (jset u ''uncached_cost_usd'' (jrat (mc_uncached_cost_usd c))) (\<lambda>u.
     Option.bind (if mc_cache_hit c then jset u ''cache_hit'' (JBool True) else Some u) (\<lambda>u.
     (case mc_saved_usd c of Some s \<Rightarrow> jset u ''saved_usd'' (jrat s) | None \<Rightarrow> Some u))))"

definition cost_value :: "call_cost \<Rightarrow> json" where
  "cost_value c =
     jobj ([(''cost_usd'', jrat (mc_cost_usd c)), (''cache_hit'', JBool (mc_cache_hit c))]
           @ (case mc_saved_usd c of Some s \<Rightarrow> [(''saved_usd'', jrat s)] | None \<Rightarrow> [])
           @ [(''uncached_cost_usd'', jrat (mc_uncached_cost_usd c))])"

definition tokens_value :: "token_meta \<Rightarrow> json" where
  "tokens_value t =
     jobj [(''prompt'', jnat (tm_prompt t)), (''completion'', jnat (tm_completion t)),
           (''total'', jnat (tm_total t)), (''cache_read'', jnat (tm_cache_read t)),
           (''cache_write'', jnat (tm_cache_write t)), (''reasoning'', jopt jnat (tm_reasoning t)),
           (''estimated'', JBool (tm_estimated t))]"

definition timing_value :: "timing_meta \<Rightarrow> json" where
  "timing_value g =
     jobj [(''total_ms'', jint (tg_total_ms g)), (''latency_ms'', jint (tg_latency_ms g)),
           (''provider_ms'', jopt jint (tg_provider_ms g)), (''ttft_ms'', jopt jint (tg_ttft_ms g)),
           (''attempts'', jint (tg_attempts g)), (''fallbacks'', jint (tg_fallbacks g))]"

definition to_value :: "router_meta \<Rightarrow> json" where
  "to_value m =
     jobj ([(''requested_model'', JStr (rm_requested_model m)), (''model'', JStr (rm_model m)),
            (''provider'', JStr (rm_provider m)), (''settings'', rm_settings m)]
           @ (case rm_tokens m of Some t \<Rightarrow> [(''tokens'', tokens_value t)] | None \<Rightarrow> [])
           @ (case rm_results m of Some n \<Rightarrow> [(''results'', jint n)] | None \<Rightarrow> [])
           @ [(''cost'', cost_value (rm_cost m)), (''timing'', timing_value (rm_timing m))])"

definition attach :: "router_meta \<Rightarrow> json \<Rightarrow> json option" where
  "attach m body = jset body ''x_router'' (to_value m)"

text \<open>\<open>openai_usage\<close> of \<open>routes/completions.rs\<close>.\<close>

definition openai_usage :: "token_meta \<Rightarrow> call_cost \<Rightarrow> json option" where
  "openai_usage t c =
     Option.bind
       (Some (jobj [(''prompt_tokens'', jnat (tm_prompt t)), (''completion_tokens'', jnat (tm_completion t)),
                    (''total_tokens'', jnat (tm_total t))])) (\<lambda>u.
     Option.bind
       (if 0 < tm_cache_read t
        then jset u ''prompt_tokens_details'' (jobj [(''cached_tokens'', jnat (tm_cache_read t))])
        else Some u) (\<lambda>u.
     Option.bind
       (case tm_reasoning t of
          Some n \<Rightarrow> jset u ''completion_tokens_details'' (jobj [(''reasoning_tokens'', jnat n)])
        | None \<Rightarrow> Some u) (\<lambda>u.
     Option.bind (if tm_estimated t then jset u ''tokens_estimated'' (JBool True) else Some u)
       (write_into c))))"

definition completion_tokens_meta :: "completion_result \<Rightarrow> token_meta" where
  "completion_tokens_meta r =
     (new_tokens (prompt_tokens r) (completion_tokens r))
       \<lparr>tm_cache_read := cache_read_tokens r, tm_cache_write := cache_write_tokens r,
        tm_reasoning := reasoning_tokens r\<rparr>"

section \<open>Reading the fields back\<close>

lemma jset_obj: "jset (JObj m) k v = Some (JObj (bt_insert k v m))"
  by (simp add: jset_def)

text \<open>Setting a key of a well-formed object: it stays one, and only that key changes.\<close>

lemma jset_reads:
  assumes "jset v k x = Some v'" and "json_ok v"
  shows "jget v' k' = (if k' = k then x else jget v k')" and "is_object v'"
  using assms
  by (auto simp: jset_def jget_def jget_opt_def is_object_def map_of_bt_insert split: json.splits)

lemma jset_keeps_ok: "jset v k x = Some v' \<Longrightarrow> json_ok v \<Longrightarrow> json_ok x \<Longrightarrow> json_ok v'"
  by (auto simp: jset_def bt_ok_insert bt_ok_Cons dest!: subsetD [OF set_bt_insert] split: json.splits)

text \<open>An object read as a map: setting a key updates the map.\<close>

definition reads_as :: "json \<Rightarrow> (string \<Rightarrow> json option) \<Rightarrow> bool" where
  "reads_as v f \<longleftrightarrow> (\<exists>m. v = JObj m \<and> bt_ok m \<and> map_of m = f)"

lemma reads_as_jobj: "reads_as (jobj kvs) (map_of (rev kvs))"
  by (auto simp: reads_as_def jobj_def map_of_bt_from_list)

lemma reads_as_jset:
  assumes "reads_as v f"
  obtains v' where "jset v k x = Some v'" and "reads_as v' (f(k \<mapsto> x))"
  using assms by (auto simp: reads_as_def jset_obj bt_ok_insert map_of_bt_insert fun_eq_iff)

text \<open>The optional keys of \<open>openai_usage\<close> and \<open>write_into\<close>: set or left alone.\<close>

lemma reads_as_when:
  assumes "reads_as v f"
  obtains v' where "(if b then jset v k x else Some v) = Some v'"
    and "reads_as v' (if b then f(k \<mapsto> x) else f)"
  using assms reads_as_jset [OF assms, of k x] by (cases b) auto

lemma reads_as_option:
  assumes "reads_as v f"
  obtains v' where "(case y of Some z \<Rightarrow> jset v k (g z) | None \<Rightarrow> Some v) = Some v'"
    and "reads_as v' (case y of Some z \<Rightarrow> f(k \<mapsto> g z) | None \<Rightarrow> f)"
  using assms reads_as_jset [OF assms, of k "g (the y)"] by (cases y) auto

lemma reads_as_jget: "reads_as v f \<Longrightarrow> jget v k = (case f k of Some x \<Rightarrow> x | None \<Rightarrow> JNull)"
  by (auto simp: reads_as_def jget_obj)

lemma reads_as_object: "reads_as v f \<Longrightarrow> is_object v"
  by (auto simp: reads_as_def is_object_def)

text \<open>The usage object is always built, and reads back as the figures it was given.\<close>

lemma openai_usage_reads:
  obtains u where "openai_usage t c = Some u" and "is_object u"
    and "jget u ''prompt_tokens'' = jnat (tm_prompt t)" and "jget u ''completion_tokens'' = jnat (tm_completion t)"
    and "jget (jget u ''prompt_tokens_details'') ''cached_tokens''
           = (if 0 < tm_cache_read t then jnat (tm_cache_read t) else JNull)"
    and "jget (jget u ''completion_tokens_details'') ''reasoning_tokens'' = jopt jnat (tm_reasoning t)"
    and "jget u ''cost_usd'' = jrat (mc_cost_usd c)"
    and "jget u ''saved_usd'' = jopt jrat (mc_saved_usd c)"
    and "jget u ''uncached_cost_usd'' = jrat (mc_uncached_cost_usd c)"
proof -
  obtain u1 f1 where 1: "(if 0 < tm_cache_read t
      then jset (jobj [(''prompt_tokens'', jnat (tm_prompt t)), (''completion_tokens'', jnat (tm_completion t)),
                    (''total_tokens'', jnat (tm_total t))]) ''prompt_tokens_details'' (jobj [(''cached_tokens'', jnat (tm_cache_read t))])
      else Some (jobj [(''prompt_tokens'', jnat (tm_prompt t)), (''completion_tokens'', jnat (tm_completion t)),
                    (''total_tokens'', jnat (tm_total t))])) = Some u1" "reads_as u1 f1"
    and f1: "f1 = (let f = map_of (rev [(''prompt_tokens'', jnat (tm_prompt t)), (''completion_tokens'', jnat (tm_completion t)),
                    (''total_tokens'', jnat (tm_total t))]) in
      if 0 < tm_cache_read t then f(''prompt_tokens_details'' \<mapsto> jobj [(''cached_tokens'', jnat (tm_cache_read t))]) else f)"
    unfolding Let_def by (blast intro: reads_as_when [OF reads_as_jobj])
  obtain u2 f2 where 2: "(case tm_reasoning t of
          Some n \<Rightarrow> jset u1 ''completion_tokens_details'' (jobj [(''reasoning_tokens'', jnat n)])
        | None \<Rightarrow> Some u1) = Some u2" "reads_as u2 f2"
    and f2: "f2 = (case tm_reasoning t of
          Some n \<Rightarrow> f1(''completion_tokens_details'' \<mapsto> jobj [(''reasoning_tokens'', jnat n)]) | None \<Rightarrow> f1)"
    by (rule reads_as_option [OF 1(2), where y = "tm_reasoning t" and k = "''completion_tokens_details''"
        and g = "\<lambda>n. jobj [(''reasoning_tokens'', jnat n)]"]) blast
  obtain u3 f3 where 3: "(if tm_estimated t then jset u2 ''tokens_estimated'' (JBool True) else Some u2) = Some u3" "reads_as u3 f3"
    and f3: "f3 = (if tm_estimated t then f2(''tokens_estimated'' \<mapsto> JBool True) else f2)"
    by (rule reads_as_when [OF 2(2), where b = "tm_estimated t" and k = "''tokens_estimated''" and x = "JBool True"]) blast
  obtain u4 where 4: "jset u3 ''cost_usd'' (jrat (mc_cost_usd c)) = Some u4"
    "reads_as u4 (f3(''cost_usd'' \<mapsto> jrat (mc_cost_usd c)))"
    by (rule reads_as_jset [OF 3(2)])
  obtain u5 f5 where 5: "jset u4 ''uncached_cost_usd'' (jrat (mc_uncached_cost_usd c)) = Some u5" "reads_as u5 f5"
    and f5: "f5 = f3(''cost_usd'' \<mapsto> jrat (mc_cost_usd c), ''uncached_cost_usd'' \<mapsto> jrat (mc_uncached_cost_usd c))"
    by (rule reads_as_jset [OF 4(2)]) blast
  obtain u6 f6 where 6: "(if mc_cache_hit c then jset u5 ''cache_hit'' (JBool True) else Some u5) = Some u6" "reads_as u6 f6"
    and f6: "f6 = (if mc_cache_hit c then f5(''cache_hit'' \<mapsto> JBool True) else f5)"
    by (rule reads_as_when [OF 5(2), where b = "mc_cache_hit c" and k = "''cache_hit''" and x = "JBool True"]) blast
  obtain u f where 7: "(case mc_saved_usd c of Some s \<Rightarrow> jset u6 ''saved_usd'' (jrat s) | None \<Rightarrow> Some u6) = Some u" "reads_as u f"
    and f: "f = (case mc_saved_usd c of Some s \<Rightarrow> f6(''saved_usd'' \<mapsto> jrat s) | None \<Rightarrow> f6)"
    by (rule reads_as_option [OF 6(2), where y = "mc_saved_usd c" and k = "''saved_usd''" and g = jrat]) blast
  have built: "openai_usage t c = Some u" by (simp add: openai_usage_def write_into_def 1(1) 2(1) 3(1) 4(1) 5(1) 6(1) 7(1))
  note fs = f f6 f5 f3 f2 f1
  show ?thesis
    by (rule that [OF built reads_as_object [OF 7(2)]])
      (simp_all add: reads_as_jget [OF 7(2)] fs Let_def jget_jobj jopt_def split: option.split)
qed

end
