(* ===== verification/Chat_Replay.thy ===== *)
theory Chat_Replay
  imports Stream_Capture Router_Meta
begin

text \<open>
  Serving a cached completion as a stream: \<open>chat_replay_chunks\<close> (\<open>router/cache/stream.rs\<close>) and
  \<open>replay_completion_stream\<close>, \<open>cost_chunk_event\<close> (\<open>api/routes/completions.rs\<close>), and the round
  trip through the capture. Printing is the parameter \<open>pr\<close>; clock readings are arguments.
\<close>

section \<open>The replayed stream\<close>

text \<open>\<open>call["index"] = json!(i)\<close> for every call, counted from \<open>i\<close>.\<close>

fun index_calls :: "nat \<Rightarrow> json list \<Rightarrow> json list option" where
  "index_calls i [] = Some []"
| "index_calls i (c # cs) =
     (case jset c ''index'' (jnat i) of
        None \<Rightarrow> None
      | Some c' \<Rightarrow> map_option (\<lambda>r. c' # r) (index_calls (Suc i) cs))"

definition replay_chunk :: "string \<Rightarrow> string \<Rightarrow> int \<Rightarrow> json \<Rightarrow> json \<Rightarrow> json" where
  "replay_chunk i model created delta fin =
     jobj [(''id'', JStr i), (''object'', JStr ''chat.completion.chunk''), (''created'', jint created),
           (''model'', JStr model),
           (''choices'', JArr [jobj [(''index'', jnat 0), (''delta'', delta), (''finish_reason'', fin)]])]"

definition replay_delta :: "completion_result \<Rightarrow> json option" where
  "replay_delta r =
     (let delta = jobj [(''role'', JStr ''assistant''), (''content'', JStr (content r))]
      in case Option.bind (tool_calls r) as_array of
           None \<Rightarrow> Some delta
         | Some calls \<Rightarrow>
             Option.bind (index_calls 0 calls) (\<lambda>ixd.
             Option.bind (jset delta ''tool_calls'' (JArr ixd)) (\<lambda>d.
             if content r = [] then jset d ''content'' JNull else Some d)))"

definition chat_replay_chunks :: "completion_result \<Rightarrow> string \<Rightarrow> string \<Rightarrow> int \<Rightarrow> json list option" where
  "chat_replay_chunks r i model created =
     map_option
       (\<lambda>d. [replay_chunk i model created d JNull,
             replay_chunk i model created (jobj []) (JStr (finish_reason r))])
       (replay_delta r)"

definition sse_event :: "(json \<Rightarrow> string) \<Rightarrow> json \<Rightarrow> string" where
  "sse_event pr v = ''data: '' @ pr v @ [nl, nl]"

definition done_event :: string where
  "done_event = ''data: [DONE]'' @ [nl, nl]"

definition cost_chunk :: "string \<Rightarrow> router_meta \<Rightarrow> int \<Rightarrow> json option" where
  "cost_chunk request_id m now =
     Option.bind
       (openai_usage (case rm_tokens m of Some t \<Rightarrow> t | None \<Rightarrow> default_tokens) (rm_cost m)) (\<lambda>u.
     attach m
       (jobj [(''id'', JStr request_id), (''object'', JStr ''chat.completion.chunk''), (''created'', jint now),
              (''model'', JStr (rm_model m)), (''choices'', JArr []), (''usage'', u)]))"

definition cost_chunk_event :: "(json \<Rightarrow> string) \<Rightarrow> string \<Rightarrow> router_meta \<Rightarrow> int \<Rightarrow> string option" where
  "cost_chunk_event pr request_id m now = map_option (sse_event pr) (cost_chunk request_id m now)"

definition replay_completion_stream ::
  "(json \<Rightarrow> string) \<Rightarrow> string \<Rightarrow> completion_result \<Rightarrow> router_meta \<Rightarrow> int \<Rightarrow> int \<Rightarrow> string option"
where
  "replay_completion_stream pr request_id cached m created now =
     Option.bind (chat_replay_chunks cached request_id (rm_model m) created) (\<lambda>cs.
     Option.bind (cost_chunk_event pr request_id m now) (\<lambda>e.
     Some (concat (map (sse_event pr) cs) @ e @ done_event)))"

section \<open>Reading printed events\<close>

text \<open>
  What is asked of printing and parsing, on one value: a one-line text without outer whitespace,
  valid UTF-8, that parses back.
\<close>

definition wire_ok :: "(string \<Rightarrow> json option) \<Rightarrow> (json \<Rightarrow> string) \<Rightarrow> json \<Rightarrow> bool" where
  "wire_ok parse pr v \<longleftrightarrow>
     pr v \<noteq> [] \<and> nl \<notin> set (pr v) \<and> trim (pr v) = pr v \<and> utf8_lossy (pr v) = pr v
     \<and> pr v \<noteq> done_marker \<and> parse (pr v) = Some v"

lemma utf8_lossy_ascii_append: "list_all (\<lambda>c. byte c < 0x80) a \<Longrightarrow> utf8_lossy (a @ s) = a @ utf8_lossy s"
  by (induction a) auto

lemma trim_last: "trim s = s \<Longrightarrow> s \<noteq> [] \<Longrightarrow> \<not> is_ws (last s)"
proof -
  assume t: "trim s = s" and "s \<noteq> []"
  have "rev (dropWhile is_ws (rev (dropWhile is_ws s))) = s" using t by (simp add: trim_def)
  moreover have "length (dropWhile is_ws (rev (dropWhile is_ws s))) \<le> length (dropWhile is_ws s)"
    by (metis length_dropWhile_le length_rev)
  ultimately have d: "dropWhile is_ws s = s" "dropWhile is_ws (rev s) = rev s"
    by (metis dropWhile_eq_self_iff length_dropWhile_le length_rev order_antisym_conv rev_rev_ident
        dropWhile_idem_rev)+
  from d(2) \<open>s \<noteq> []\<close> show ?thesis by (simp add: dropWhile_eq_self_iff hd_rev)
qed

lemma strip_cr_id: "trim p = p \<Longrightarrow> p \<noteq> [] \<Longrightarrow> strip_cr (a @ p) = a @ p"
  using trim_last [of p] by (auto simp: strip_cr_def is_ws_def)

lemma sse_push_event:
  assumes "wire_ok P pr v"
  shows "sse_push [] (sse_event pr v) = ([''data: '' @ pr v, []], [])"
proof -
  have n: "nl \<notin> set (''data: '' @ pr v)" using assms by (simp add: wire_ok_def)
  have "split_on nl x = [x]" if "nl \<notin> set x" for x using that by (induction x) auto
  with n have s: "split_on nl ((''data: '' @ pr v) @ [nl]) = [''data: '' @ pr v, []]"
    using split_on_snoc_append [of nl "''data: '' @ pr v" "[]"] by (simp del: append_Cons append_Nil)
  have "[] @ sse_event pr v = ((''data: '' @ pr v) @ [nl]) @ nl # []" by (simp add: sse_event_def)
  from sse_push_lines [OF this] have
    "sse_push [] (sse_event pr v) = (map (\<lambda>l. utf8_lossy (strip_cr l)) [''data: '' @ pr v, []], [])"
    unfolding s by simp
  moreover have "strip_cr (''data: '' @ pr v) = ''data: '' @ pr v"
    by (rule strip_cr_id) (use assms in \<open>simp_all add: wire_ok_def\<close>)
  moreover have "utf8_lossy (''data: '' @ pr v) = ''data: '' @ pr v"
    using assms utf8_lossy_ascii_append [of "''data: ''" "pr v"] by (simp add: wire_ok_def byte_def)
  moreover have "strip_cr [] = []" by (simp add: strip_cr_def)
  ultimately show ?thesis by (simp del: append_Cons append_Nil)
qed

lemma sse_push_empty: "sse_push [] [] = ([], [])"
  by (simp add: sse_push_def)

lemma sse_push_events:
  "list_all (wire_ok P pr) vs \<Longrightarrow>
    sse_push [] (concat (map (sse_event pr) vs)) = (concat (map (\<lambda>v. [''data: '' @ pr v, []]) vs), [])"
proof (induction vs)
  case (Cons v vs)
  then have v: "wire_ok P pr v" by simp
  show ?case
    using Cons sse_push_assoc [of "[]" "sse_event pr v" "concat (map (sse_event pr) vs)"]
    unfolding sse_push_event [OF v] by simp
qed (simp add: sse_push_empty)

lemma sse_push_done: "sse_push [] done_event = ([''data: [DONE]'', []], [])"
  by code_simp

lemma data_of_line: "strip_prefix data_prefix (''data: '' @ p) = Some ('' '' @ p)"
  by (simp add: data_prefix_def)

lemma trim_space: "trim p = p \<Longrightarrow> trim ('' '' @ p) = p"
  by (simp add: trim_def is_ws_def)

lemma map_filter_append: "List.map_filter f (xs @ ys) = List.map_filter f xs @ List.map_filter f ys"
  by (simp add: map_filter_def)

lemma events_data:
  "list_all (wire_ok P pr) vs \<Longrightarrow>
    List.map_filter (\<lambda>l. map_option trim (strip_prefix data_prefix l)) (concat (map (\<lambda>v. [''data: '' @ pr v, []]) vs)) = map pr vs"
proof (induction vs)
  case (Cons v vs)
  then have "trim (pr v) = pr v" by (simp add: wire_ok_def)
  moreover have "strip_prefix data_prefix [] = None" by (simp add: data_prefix_def)
  ultimately show ?case using Cons by (simp add: map_filter_append map_filter_simps data_of_line trim_space del: append_Cons)
qed (simp add: map_filter_simps)

lemma sse_data_events:
  assumes "list_all (wire_ok P pr) vs"
  shows "sse_data (concat (map (sse_event pr) vs) @ done_event) = map pr vs @ [done_marker]"
    and "snd (sse_push [] (concat (map (sse_event pr) vs) @ done_event)) = []"
proof -
  have p: "sse_push [] (concat (map (sse_event pr) vs) @ done_event)
      = (concat (map (\<lambda>v. [''data: '' @ pr v, []]) vs) @ [''data: [DONE]'', []], [])"
    by (simp add: sse_push_assoc sse_push_events [OF assms] sse_push_done)
  have d: "List.map_filter (\<lambda>l. map_option trim (strip_prefix data_prefix l)) [''data: [DONE]'', []] = [done_marker]"
    by code_simp
  show "sse_data (concat (map (sse_event pr) vs) @ done_event) = map pr vs @ [done_marker]"
    unfolding sse_data_def p fst_conv map_filter_append events_data [OF assms] d ..
  show "snd (sse_push [] (concat (map (sse_event pr) vs) @ done_event)) = []" by (simp add: p)
qed

text \<open>A printed stream of clean chunks is read back as those chunks.\<close>

lemma chat_feed_events:
  assumes w: "list_all (wire_ok P pr) vs" and c: "list_all clean_chunk vs"
  shows "chat_feed P (concat (map (sse_event pr) vs) @ done_event) chat_new
    = (fold take_chunk vs chat_new)\<lparr>cc_done := True, cc_lines := []\<rparr>"
proof -
  have "fold (chat_eat P) (map pr vs @ [done_marker]) c = (fold take_chunk vs c)\<lparr>cc_done := True\<rparr>"
    if "\<not> cc_unusable c" "\<not> cc_done c" for c
    using that w c
  proof (induction vs arbitrary: c)
    case Nil
    have "trim done_marker = done_marker" by code_simp
    with Nil show ?case by (simp add: chat_eat_running)
  next
    case (Cons v vs)
    then have "chat_eat P (pr v) c = take_chunk v c"
      by (auto simp: chat_eat_running wire_ok_def clean_chunk_def take_choices_zero take_chunk_def)
    with Cons show ?case by simp
  qed
  from this [of chat_new] show ?thesis
    by (simp add: chat_feed_new sse_data_events [OF w]) (simp add: chat_new_def)
qed

section \<open>The round trip\<close>

text \<open>The tool calls a capture assembles: \<open>id\<close>, \<open>type\<close> and the two function strings.\<close>

definition call_parts :: "json \<Rightarrow> tool_call_acc" where
  "call_parts j =
     \<lparr>acc_id = as_str (jget j ''id''), acc_name = str_or [] (jget (jget j ''function'') ''name''),
      acc_arguments = str_or [] (jget (jget j ''function'') ''arguments'')\<rparr>"

definition canonical_call :: "json \<Rightarrow> bool" where
  "canonical_call j \<longleftrightarrow> call_json (call_parts j) = Some j"

definition canonical_calls :: "json option \<Rightarrow> bool" where
  "canonical_calls t =
     (case t of
        None \<Rightarrow> True
      | Some v \<Rightarrow> (case v of JArr js \<Rightarrow> js \<noteq> [] \<and> list_all canonical_call js | _ \<Rightarrow> False))"

lemma bt_insert_last: "\<forall>k \<in> fst ` set m. k < i \<Longrightarrow> bt_insert i v m = m @ [(i, v)]"
  by (induction m) (auto simp: order.asym)

lemma canonical_object:
  assumes "canonical_call j"
  shows "\<exists>m. j = JObj m \<and> bt_ok m"
  using assms by (auto simp: canonical_call_def call_json_def jobj_def) (metis bt_ok_from_list)

text \<open>The calls carry the indices \<open>i\<close>, \<open>i + 1\<close> and so on.\<close>

fun indexed :: "nat \<Rightarrow> json list \<Rightarrow> bool" where
  "indexed i [] = True"
| "indexed i (j # js) = (as_u64 (jget j ''index'') = Some i \<and> indexed (Suc i) js)"

lemma index_calls_canonical:
  "list_all canonical_call js \<Longrightarrow>
    \<exists>js'. index_calls i js = Some js' \<and> list_all2 (\<lambda>j j'. call_parts j' = call_parts j) js js'
      \<and> indexed i js'"
proof (induction js arbitrary: i)
  case (Cons j js)
  from Cons.prems obtain m where m: "j = JObj m" "bt_ok m" using canonical_object by auto
  from Cons.IH [of "Suc i"] Cons.prems obtain js' where
    ih: "index_calls (Suc i) js = Some js'" "list_all2 (\<lambda>j j'. call_parts j' = call_parts j) js js'"
      "indexed (Suc i) js'" by auto
  have "call_parts (JObj (bt_insert ''index'' (jnat i) m)) = call_parts j"
    using m by (simp add: call_parts_def jget_obj map_of_bt_insert)
  moreover have "jget (JObj (bt_insert ''index'' (jnat i) m)) ''index'' = jnat i"
    using m by (simp add: jget_obj map_of_bt_insert)
  ultimately show ?case
    using ih by (simp add: m(1) jset_obj)
qed simp

lemma add_call_parts:
  assumes "as_u64 (jget j ''index'') = Some i" and "\<forall>k \<in> fst ` set m. k < i" and "acc_id (call_parts j) \<noteq> None"
  shows "add_call j m = m @ [(i, call_parts j)]"
proof -
  have "map_of m i = None" using assms(2) by (force simp: map_of_eq_None_iff)
  with assms show ?thesis
    by (auto simp: add_call_def Let_def u64_or_0_def bt_insert_last empty_acc_def call_parts_def)
qed

lemma fold_add_calls:
  assumes "list_all2 (\<lambda>j j'. call_parts j' = call_parts j) js js'" and "list_all canonical_call js"
    and "indexed i js'"
    and "\<forall>k \<in> fst ` set m. k < i"
  shows "map snd (fold add_call js' m) = map snd m @ map call_parts js"
  using assms
proof (induction arbitrary: i m rule: list_all2_induct)
  case (Cons j js j' js')
  have id: "acc_id (call_parts j') \<noteq> None"
    using Cons by (auto simp: canonical_call_def call_json_def)
  have ix: "as_u64 (jget j' ''index'') = Some i" using Cons.prems by simp
  note a = add_call_parts [OF ix Cons.prems(3) id]
  have "map snd (fold add_call js' (m @ [(i, call_parts j')])) = map snd (m @ [(i, call_parts j')]) @ map call_parts js"
    by (rule Cons.IH [of "Suc i"]) (use Cons.prems in \<open>auto\<close>)
  then show ?case using Cons.hyps by (simp add: a)
qed simp

lemma call_list_canonical: "list_all canonical_call js \<Longrightarrow> call_list (map call_parts js) = Some js"
  by (induction js) (auto simp: canonical_call_def)

lemma replay_delta_reads:
  assumes "canonical_calls (tool_calls r)"
  obtains d js' where "replay_delta r = Some d" and "str_or [] (jget d ''content'') = content r"
    and "array_items (jget d ''tool_calls'') = js'"
    and "assembled_calls (fold add_call js' []) = Some (tool_calls r)"
proof (cases "tool_calls r")
  case None
  let ?d = "jobj [(''role'', JStr ''assistant''), (''content'', JStr (content r))]"
  have "replay_delta r = Some ?d" by (simp add: replay_delta_def Let_def None)
  moreover have "str_or [] (jget ?d ''content'') = content r" by (simp add: jget_jobj str_or_def)
  moreover have "array_items (jget ?d ''tool_calls'') = []" by (simp add: jget_jobj)
  moreover have "assembled_calls (fold add_call [] []) = Some (tool_calls r)" by (simp add: assembled_calls_def None)
  ultimately show ?thesis by (rule that)
next
  case (Some v)
  with assms obtain js where js: "v = JArr js" "js \<noteq> []" "list_all canonical_call js"
    by (auto simp: canonical_calls_def split: json.splits)
  obtain js' where js': "index_calls 0 js = Some js'"
      "list_all2 (\<lambda>j j'. call_parts j' = call_parts j) js js'" "indexed 0 js'"
    using index_calls_canonical [OF js(3), of 0] by blast
  have sn: "map snd (fold add_call js' []) = map call_parts js"
    using fold_add_calls [OF js'(2) js(3) js'(3), of "[]"] by simp
  then have "fold add_call js' [] \<noteq> []" using js(2) by auto
  then have a: "assembled_calls (fold add_call js' []) = Some (tool_calls r)"
    unfolding assembled_calls_def sn call_list_canonical [OF js(3)] by (simp add: Some js(1))
  have "\<exists>d. replay_delta r = Some d \<and> str_or [] (jget d ''content'') = content r
      \<and> array_items (jget d ''tool_calls'') = js'"
    by (cases "content r")
      (simp_all add: replay_delta_def Let_def Some js(1) js'(1) jobj_def jset_obj jget_obj map_of_bt_insert
        bt_ok_insert map_of_bt_from_list str_or_def)
  with a show ?thesis using that by blast
qed

lemma take_replay_chunk:
  "take_chunk (replay_chunk i model created d fin) c =
     c\<lparr>cc_content := cc_content c @ str_or [] (jget d ''content''),
       cc_tool_calls := fold add_call (array_items (jget d ''tool_calls'')) (cc_tool_calls c),
       cc_finish_reason := (case as_str fin of Some r \<Rightarrow> Some r | None \<Rightarrow> cc_finish_reason c)\<rparr>"
  by (simp add: take_chunk_def replay_chunk_def jget_jobj take_choice_def Let_def note_usage_def is_object_def)

lemma clean_replay_chunk: "clean_chunk (replay_chunk i model created d fin)"
  by (simp add: clean_chunk_def replay_chunk_def jget_jobj jget_opt_jobj chunk_error_def u64_or_0_def)

lemma cost_chunk_reads:
  assumes "cost_chunk rid m now = Some v" and "rm_tokens m = Some t"
  obtains u where "openai_usage t (rm_cost m) = Some u" and "jget v ''usage'' = u"
    and "jget v ''choices'' = JArr []" and "jget_opt v ''error'' = None"
  using assms
  by (auto simp: cost_chunk_def attach_def bind_eq_Some_conv jobj_def jset_obj jget_obj jget_opt_def
      map_of_bt_insert map_of_bt_from_list)

lemma meta_of_result:
  "tm_prompt (completion_tokens_meta r) = prompt_tokens r" "tm_completion (completion_tokens_meta r) = completion_tokens r"
  "tm_cache_read (completion_tokens_meta r) = cache_read_tokens r" "tm_reasoning (completion_tokens_meta r) = reasoning_tokens r"
  by (simp_all add: completion_tokens_meta_def new_tokens_def)

lemma str_or_null: "str_or d JNull = d"
  by (simp add: str_or_def)

lemma chat_finish_built:
  assumes "cc_done c" "\<not> cc_unusable c" "\<not> has_partial_line (cc_lines c)" "cc_usage c = Some u"
    and "map_option as_u32 (as_u64 (jget u ''prompt_tokens'')) = Some (prompt_tokens r)"
    and "map_option as_u32 (as_u64 (jget u ''completion_tokens'')) = Some (completion_tokens r)"
    and "as_u32 (u64_or_0 (jget (jget u ''prompt_tokens_details'') ''cached_tokens'')) = cache_read_tokens r"
    and "map_option as_u32 (as_u64 (jget (jget u ''completion_tokens_details'') ''reasoning_tokens'')) = reasoning_tokens r"
    and "assembled_calls (cc_tool_calls c) = Some (tool_calls r)"
    and "cc_content c = content r" and "cc_finish_reason c = Some (finish_reason r)"
  shows "chat_finish c = Some (r\<lparr>cache_write_tokens := 0, ttft_ms := None\<rparr>)"
  using assms by (auto simp: chat_finish_def)

text \<open>
  C40. Replaying a cached completion as a stream loses nothing: read back by the capture, the replay
  gives the cached result again (text, tool calls, finish reason, token counts), apart from the two
  fields the stream does not carry. The stream is served whenever the tool calls are of the shape a
  capture assembles.
\<close>

theorem replayed_hit_is_recaptured:
  assumes calls: "canonical_calls (tool_calls r)"
    and fits: "prompt_tokens r < 2 ^ 32" "completion_tokens r < 2 ^ 32" "cache_read_tokens r < 2 ^ 32"
      "case reasoning_tokens r of Some n \<Rightarrow> n < 2 ^ 32 | None \<Rightarrow> True"
    and tokens: "rm_tokens m = Some (completion_tokens_meta r)"
    and wire: "\<And>v cs. chat_replay_chunks r rid (rm_model m) created = Some cs \<Longrightarrow>
      v \<in> set cs \<or> cost_chunk rid m now = Some v \<Longrightarrow> wire_ok P pr v"
  shows "\<exists>sse. replay_completion_stream pr rid r m created now = Some sse
    \<and> chat_finish (chat_feed P sse chat_new) = Some (r\<lparr>cache_write_tokens := 0, ttft_ms := None\<rparr>)"
proof -
  obtain d js' where d: "replay_delta r = Some d" "str_or [] (jget d ''content'') = content r"
      "array_items (jget d ''tool_calls'') = js'" "assembled_calls (fold add_call js' []) = Some (tool_calls r)"
    using replay_delta_reads [OF calls] .
  let ?cs = "[replay_chunk rid (rm_model m) created d JNull,
              replay_chunk rid (rm_model m) created (jobj []) (JStr (finish_reason r))]"
  have cs: "chat_replay_chunks r rid (rm_model m) created = Some ?cs" by (simp add: chat_replay_chunks_def d(1))
  let ?t = "completion_tokens_meta r"
  obtain u where u0: "openai_usage ?t (rm_cost m) = Some u" "is_object u"
    "jget u ''prompt_tokens'' = jnat (tm_prompt ?t)" "jget u ''completion_tokens'' = jnat (tm_completion ?t)"
    "jget (jget u ''prompt_tokens_details'') ''cached_tokens''
       = (if 0 < tm_cache_read ?t then jnat (tm_cache_read ?t) else JNull)"
    "jget (jget u ''completion_tokens_details'') ''reasoning_tokens'' = jopt jnat (tm_reasoning ?t)"
    by (rule openai_usage_reads [of ?t "rm_cost m"], rule that) assumption+
  note u = u0 [unfolded meta_of_result]
  obtain v where v: "cost_chunk rid m now = Some v"
    using tokens u(1) by (auto simp: cost_chunk_def attach_def jobj_def jset_obj)
  from cost_chunk_reads [OF v tokens] u(1) have vu: "jget v ''usage'' = u"
    "jget v ''choices'' = JArr []" "jget_opt v ''error'' = None" by auto
  let ?vs = "?cs @ [v]"
  have w: "list_all (wire_ok P pr) ?vs" using wire [OF cs] v by auto
  have c: "list_all clean_chunk ?vs" using vu by (simp add: clean_replay_chunk) (simp add: clean_chunk_def chunk_error_def)
  have tv: "take_chunk v c = c\<lparr>cc_usage := Some u\<rparr>" for c
    using vu u(2) by (simp add: take_chunk_def note_usage_def)
  let ?sse = "concat (map (sse_event pr) ?vs) @ done_event"
  have st: "fold take_chunk ?vs chat_new
      = chat_new\<lparr>cc_content := content r, cc_tool_calls := fold add_call js' [],
                 cc_finish_reason := Some (finish_reason r), cc_usage := Some u\<rparr>"
    by (simp add: take_replay_chunk d tv jget_jobj str_or_null) (simp add: chat_new_def)
  have "replay_completion_stream pr rid r m created now = Some ?sse"
    by (simp add: replay_completion_stream_def cs cost_chunk_event_def v)
  moreover have "chat_finish (chat_feed P ?sse chat_new) = Some (r\<lparr>cache_write_tokens := 0, ttft_ms := None\<rparr>)"
  proof -
    have cr: "as_u32 (u64_or_0 (if 0 < cache_read_tokens r then jnat (cache_read_tokens r) else JNull)) = cache_read_tokens r"
      using fits(3) by (simp add: u64_or_0_def)
    have re: "map_option as_u32 (as_u64 (jopt jnat (reasoning_tokens r))) = reasoning_tokens r"
      using fits(4) by (cases "reasoning_tokens r") (simp_all add: jopt_def)
    show ?thesis
      unfolding chat_feed_events [OF w c] st
      by (rule chat_finish_built [where u = u]) (simp_all add: has_partial_line_def chat_new_def u(3-6) cr re d(4) as_u32_id [OF fits(1)] as_u32_id [OF fits(2)])
  qed
  ultimately show ?thesis by blast
qed

text \<open>A result with a tool call, and a toy printer for the three chunks of its replay.\<close>

definition sample_call :: json where
  "sample_call =
     jobj [(''id'', JStr ''c1''), (''type'', JStr ''function''),
           (''function'', jobj [(''name'', JStr ''f''), (''arguments'', JStr ''{}'')])]"

definition sample_result :: completion_result where
  "sample_result =
     default_result\<lparr>content := ''hi'', prompt_tokens := 7, completion_tokens := 5, finish_reason := ''tool_calls'',
       cache_read_tokens := 3, cache_write_tokens := 2, reasoning_tokens := Some 1,
       tool_calls := Some (JArr [sample_call])\<rparr>"

definition sample_meta :: router_meta where
  "sample_meta =
     \<lparr>rm_requested_model = ''m'', rm_model = ''m'', rm_provider = ''p'', rm_settings = JNull,
      rm_tokens = Some (completion_tokens_meta sample_result), rm_results = None, rm_cost = cost_of_hit 0,
      rm_timing = \<lparr>tg_total_ms = 0, tg_latency_ms = 0, tg_provider_ms = None, tg_ttft_ms = None,
                    tg_attempts = 0, tg_fallbacks = 0\<rparr>\<rparr>"

definition sample_replay_table :: "(string \<times> json) list" where
  "sample_replay_table =
     zip [''{1}'', ''{2}'', ''{3}'']
       (the (chat_replay_chunks sample_result ''r'' ''m'' 1) @ [the (cost_chunk ''r'' sample_meta 2)])"

definition sample_replay_parse :: "string \<Rightarrow> json option" where
  "sample_replay_parse = map_of sample_replay_table"

definition sample_replay_print :: "json \<Rightarrow> string" where
  "sample_replay_print v = (case filter (\<lambda>p. snd p = v) sample_replay_table of p # _ \<Rightarrow> fst p | [] \<Rightarrow> ''{}'')"

theorem replayed_hit_witness:
  "\<exists>sse. replay_completion_stream sample_replay_print ''r'' sample_result sample_meta 1 2 = Some sse
    \<and> chat_finish (chat_feed sample_replay_parse sse chat_new) = Some (sample_result\<lparr>cache_write_tokens := 0, ttft_ms := None\<rparr>)"
proof (rule replayed_hit_is_recaptured)
  have s1: "chat_replay_chunks sample_result ''r'' ''m'' 1 \<noteq> None" by code_simp
  have s2: "cost_chunk ''r'' sample_meta 2 \<noteq> None" by code_simp
  have ok: "list_all (wire_ok sample_replay_parse sample_replay_print) (map snd sample_replay_table)" by code_simp
  have l: "length (the (chat_replay_chunks sample_result ''r'' ''m'' 1)) = 2" by code_simp
  have md: "rm_model sample_meta = ''m''" by (simp add: sample_meta_def)
  fix v cs
  assume a: "chat_replay_chunks sample_result ''r'' (rm_model sample_meta) 1 = Some cs"
    and v: "v \<in> set cs \<or> cost_chunk ''r'' sample_meta 2 = Some v"
  from a l have "map snd sample_replay_table = cs @ [the (cost_chunk ''r'' sample_meta 2)]"
    by (simp add: sample_replay_table_def md)
  with ok v show "wire_ok sample_replay_parse sample_replay_print v" by (auto simp: list_all_iff)
next
  show "canonical_calls (tool_calls sample_result)" by code_simp
qed (simp_all add: sample_result_def default_result_def sample_meta_def)

end
