(* ===== verification/Messages_Capture.thy ===== *)
theory Messages_Capture
  imports Chat_Replay
begin

text \<open>
  The Anthropic half of \<open>src/src/router/cache/stream.rs\<close>: folding a Messages event stream into
  the \<open>message\<close> object, and replaying a stored one. Assigning into a JSON value of the wrong shape
  panics in \<open>serde_json\<close>; that is an outcome of its own beside the \<open>None\<close> of a \<open>?\<close>.
\<close>

datatype 'a outcome = Panicked | Refused | Fine 'a

definition and_then :: "'a outcome \<Rightarrow> ('a \<Rightarrow> 'b outcome) \<Rightarrow> 'b outcome" where
  "and_then x f = (case x of Panicked \<Rightarrow> Panicked | Refused \<Rightarrow> Refused | Fine y \<Rightarrow> f y)"

definition asked :: "'a option \<Rightarrow> 'a outcome" where
  "asked x = (case x of None \<Rightarrow> Refused | Some y \<Rightarrow> Fine y)"

definition assign :: "'a option \<Rightarrow> 'a outcome" where
  "assign x = (case x of None \<Rightarrow> Panicked | Some y \<Rightarrow> Fine y)"

lemma outcome_simps [simp]:
  "and_then Panicked f = Panicked" "and_then Refused f = Refused" "and_then (Fine x) f = f x"
  "asked None = Refused" "asked (Some x) = Fine x" "assign None = Panicked" "assign (Some x) = Fine x"
  by (simp_all add: and_then_def asked_def assign_def)

section \<open>The capture\<close>

record block_acc =
  ba_block :: json
  ba_partial_json :: string

record messages_capture =
  ms_lines :: string
  ms_message :: "json option"
  ms_blocks :: "(nat \<times> block_acc) list"
  ms_done :: bool
  ms_unusable :: bool

definition messages_new :: messages_capture where
  "messages_new = \<lparr>ms_lines = [], ms_message = None, ms_blocks = [], ms_done = False, ms_unusable = False\<rparr>"

definition append_str :: "json \<Rightarrow> string \<Rightarrow> string \<Rightarrow> json outcome" where
  "append_str block field t = assign (jset block field (JStr (str_or [] (jget block field) @ t)))"

text \<open>The entry is created empty, and made an array if it is not one, before the push.\<close>

definition push_citation :: "json \<Rightarrow> json \<Rightarrow> json outcome" where
  "push_citation block citation =
     and_then (asked (as_object block)) (\<lambda>m.
       Fine (JObj (bt_insert ''citations''
         (JArr ((case map_of m ''citations'' of Some (JArr xs) \<Rightarrow> xs | _ \<Rightarrow> []) @ [citation])) m)))"

definition apply_delta :: "json \<Rightarrow> block_acc \<Rightarrow> block_acc outcome" where
  "apply_delta delta acc =
     and_then (asked (as_str (jget delta ''type''))) (\<lambda>t.
       if t = ''text_delta''
       then and_then (asked (as_str (jget delta ''text''))) (\<lambda>s.
              and_then (append_str (ba_block acc) ''text'' s) (\<lambda>b. Fine (acc\<lparr>ba_block := b\<rparr>)))
       else if t = ''thinking_delta''
       then and_then (asked (as_str (jget delta ''thinking''))) (\<lambda>s.
              and_then (append_str (ba_block acc) ''thinking'' s) (\<lambda>b. Fine (acc\<lparr>ba_block := b\<rparr>)))
       else if t = ''signature_delta''
       then and_then (asked (as_str (jget delta ''signature''))) (\<lambda>s.
              and_then (assign (jset (ba_block acc) ''signature'' (JStr s))) (\<lambda>b. Fine (acc\<lparr>ba_block := b\<rparr>)))
       else if t = ''input_json_delta''
       then and_then (asked (as_str (jget delta ''partial_json''))) (\<lambda>s.
              Fine (acc\<lparr>ba_partial_json := ba_partial_json acc @ s\<rparr>))
       else if t = ''citations_delta''
       then and_then (push_citation (ba_block acc) (jget delta ''citation'')) (\<lambda>b. Fine (acc\<lparr>ba_block := b\<rparr>))
       else Refused)"

fun set_all :: "(string \<times> json) list \<Rightarrow> json \<Rightarrow> json outcome" where
  "set_all [] v = Fine v"
| "set_all ((k, x) # kvs) v = and_then (assign (jset v k x)) (set_all kvs)"

definition merge_usage :: "(string \<times> json) list \<Rightarrow> json \<Rightarrow> json outcome" where
  "merge_usage usage message =
     and_then (asked (as_object message)) (\<lambda>m.
     and_then (set_all (filter (\<lambda>kv. snd kv \<noteq> JNull) usage)
                (case map_of m ''usage'' of Some u \<Rightarrow> u | None \<Rightarrow> jobj [])) (\<lambda>u.
       Fine (JObj (bt_insert ''usage'' u m))))"

text \<open>
  \<open>apply\<close>. A \<open>?\<close> that fails leaves the capture as it was: the blocks and the message are always
  objects, so no assignment precedes a failing \<open>?\<close>.
\<close>

definition apply_event :: "json \<Rightarrow> messages_capture \<Rightarrow> messages_capture outcome" where
  "apply_event event c =
     and_then (asked (as_str (jget event ''type''))) (\<lambda>t.
       if t = ''ping'' then Fine c
       else if t = ''message_start''
       then and_then (asked (as_object (jget event ''message''))) (\<lambda>m. Fine (c\<lparr>ms_message := Some (JObj m)\<rparr>))
       else if t = ''content_block_start''
       then and_then (asked (as_u64 (jget event ''index''))) (\<lambda>i.
            and_then (asked (as_object (jget event ''content_block''))) (\<lambda>b.
              Fine (c\<lparr>ms_blocks := bt_insert i \<lparr>ba_block = JObj b, ba_partial_json = []\<rparr> (ms_blocks c)\<rparr>)))
       else if t = ''content_block_delta''
       then and_then (asked (as_u64 (jget event ''index''))) (\<lambda>i.
            and_then (asked (map_of (ms_blocks c) i)) (\<lambda>acc.
            and_then (apply_delta (jget event ''delta'') acc) (\<lambda>acc'.
              Fine (c\<lparr>ms_blocks := bt_insert i acc' (ms_blocks c)\<rparr>))))
       else if t = ''content_block_stop'' then Fine c
       else if t = ''message_delta''
       then and_then (asked (ms_message c)) (\<lambda>message.
            and_then (asked (as_object (jget event ''delta''))) (\<lambda>kvs.
            and_then (set_all kvs message) (\<lambda>message'.
            and_then (case as_object (jget event ''usage'') of
                        Some usage \<Rightarrow> merge_usage usage message'
                      | None \<Rightarrow> Fine message') (\<lambda>message''.
              Fine (c\<lparr>ms_message := Some message''\<rparr>)))))
       else if t = ''message_stop'' then Fine (c\<lparr>ms_done := True\<rparr>)
       else Refused)"

text \<open>\<open>None\<close> is a panic of the task.\<close>

definition messages_feed_line :: "(string \<Rightarrow> json option) \<Rightarrow> string \<Rightarrow> messages_capture \<Rightarrow> messages_capture option" where
  "messages_feed_line parse line c =
     (if ms_unusable c \<or> ms_done c then Some c
      else case strip_prefix data_prefix line of
             None \<Rightarrow> Some c
           | Some data \<Rightarrow>
               (case parse (trim data) of
                  None \<Rightarrow> Some (c\<lparr>ms_unusable := True\<rparr>)
                | Some event \<Rightarrow>
                    (case apply_event event c of
                       Panicked \<Rightarrow> None
                     | Refused \<Rightarrow> Some (c\<lparr>ms_unusable := True\<rparr>)
                     | Fine c' \<Rightarrow> Some c')))"

definition messages_step ::
  "(string \<Rightarrow> json option) \<Rightarrow> string \<Rightarrow> messages_capture option \<Rightarrow> messages_capture option" where
  "messages_step parse line c = Option.bind c (messages_feed_line parse line)"

definition messages_feed ::
  "(string \<Rightarrow> json option) \<Rightarrow> string \<Rightarrow> messages_capture \<Rightarrow> messages_capture option" where
  "messages_feed parse chunk c =
     (let (ls, b) = sse_push (ms_lines c) chunk
      in fold (messages_step parse) ls (Some (c\<lparr>ms_lines := b\<rparr>)))"

definition finish_block :: "(string \<Rightarrow> json option) \<Rightarrow> block_acc \<Rightarrow> json outcome" where
  "finish_block parse acc =
     (if jget (ba_block acc) ''type'' = JStr ''tool_use'' \<or> ba_partial_json acc \<noteq> []
      then and_then (if trim (ba_partial_json acc) = [] then Fine (jobj [])
                     else asked (parse (ba_partial_json acc))) (\<lambda>input.
             assign (jset (ba_block acc) ''input'' input))
      else Fine (ba_block acc))"

fun finish_blocks :: "(string \<Rightarrow> json option) \<Rightarrow> block_acc list \<Rightarrow> json list outcome" where
  "finish_blocks parse [] = Fine []"
| "finish_blocks parse (a # as) =
     and_then (finish_block parse a) (\<lambda>b. and_then (finish_blocks parse as) (\<lambda>bs. Fine (b # bs)))"

definition messages_finish :: "(string \<Rightarrow> json option) \<Rightarrow> messages_capture \<Rightarrow> json outcome" where
  "messages_finish parse c =
     (if \<not> ms_done c \<or> ms_unusable c \<or> has_partial_line (ms_lines c) then Refused
      else and_then (asked (ms_message c)) (\<lambda>message.
           and_then (asked (as_str (jget message ''stop_reason''))) (\<lambda>_.
           and_then (asked (as_object (jget message ''usage''))) (\<lambda>_.
           and_then (finish_blocks parse (map snd (ms_blocks c))) (\<lambda>bs.
             assign (jset message ''content'' (JArr bs)))))))"

section \<open>The replay\<close>

definition jtype :: "json \<Rightarrow> string" where
  "jtype v = str_or [] (jget v ''type'')"

definition without_fields :: "json \<Rightarrow> string list \<Rightarrow> (string \<times> json) list \<Rightarrow> json" where
  "without_fields block fs empties =
     JObj (fold (\<lambda>(k, v). bt_insert k v) empties
             (fold bt_remove fs (case as_object block of Some m \<Rightarrow> m | None \<Rightarrow> [])))"

definition replay_block :: "(json \<Rightarrow> string) \<Rightarrow> json \<Rightarrow> json \<times> json list" where
  "replay_block pr block =
     (let t = jtype block
      in if t = ''text''
         then (without_fields block [''text'', ''citations''] [(''text'', JStr [])],
               jobj [(''type'', JStr ''text_delta''), (''text'', jget block ''text'')]
               # map (\<lambda>c. jobj [(''type'', JStr ''citations_delta''), (''citation'', c)])
                   (array_items (jget block ''citations'')))
         else if t = ''thinking''
         then (without_fields block [''thinking'', ''signature''] [(''thinking'', JStr [])],
               jobj [(''type'', JStr ''thinking_delta''), (''thinking'', jget block ''thinking'')]
               # (case as_str (jget block ''signature'') of
                    Some s \<Rightarrow> [jobj [(''type'', JStr ''signature_delta''), (''signature'', JStr s)]]
                  | None \<Rightarrow> []))
         else if t = ''tool_use'' \<or> t = ''server_tool_use''
         then (without_fields block [''input''] [(''input'', jobj [])],
               [jobj [(''type'', JStr ''input_json_delta''),
                      (''partial_json'',
                        JStr (pr (case jget_opt block ''input'' of Some v \<Rightarrow> v | None \<Rightarrow> jobj [])))]])
         else (block, []))"

definition block_events :: "(json \<Rightarrow> string) \<Rightarrow> nat \<Rightarrow> json \<Rightarrow> json list" where
  "block_events pr i block =
     (let (opening, deltas) = replay_block pr block
      in jobj [(''type'', JStr ''content_block_start''), (''index'', jnat i), (''content_block'', opening)]
         # map (\<lambda>d. jobj [(''type'', JStr ''content_block_delta''), (''index'', jnat i), (''delta'', d)]) deltas
         @ [jobj [(''type'', JStr ''content_block_stop''), (''index'', jnat i)]])"

fun blocks_events :: "(json \<Rightarrow> string) \<Rightarrow> nat \<Rightarrow> json list \<Rightarrow> json list" where
  "blocks_events pr i [] = []"
| "blocks_events pr i (b # bs) = block_events pr i b @ blocks_events pr (Suc i) bs"

text \<open>The opening \<open>message\<close>: emptied content and stop fields, no output tokens yet.\<close>

definition start_message :: "json \<Rightarrow> json option" where
  "start_message message =
     Option.bind (jset message ''content'' (JArr [])) (\<lambda>s.
     Option.bind (jset s ''stop_reason'' JNull) (\<lambda>s.
     Option.bind (jset s ''stop_sequence'' JNull) (\<lambda>s.
     if is_object (jget s ''usage'')
     then Option.bind (jset (jget s ''usage'') ''output_tokens'' (jnat 0)) (\<lambda>u. jset s ''usage'' u)
     else Some s)))"

definition replay_events :: "(json \<Rightarrow> string) \<Rightarrow> json \<Rightarrow> json list option" where
  "replay_events pr message =
     map_option
       (\<lambda>start.
          [jobj [(''type'', JStr ''message_start''), (''message'', start)]]
          @ blocks_events pr 0 (array_items (jget message ''content''))
          @ [jobj [(''type'', JStr ''message_delta''),
                   (''delta'', jobj [(''stop_reason'', jget message ''stop_reason''),
                                     (''stop_sequence'', jget message ''stop_sequence'')]),
                   (''usage'', jget message ''usage'')],
             jobj [(''type'', JStr ''message_stop'')]])
       (start_message message)"

definition named_event :: "(json \<Rightarrow> string) \<Rightarrow> json \<Rightarrow> string" where
  "named_event pr event = ''event: '' @ jtype event @ [nl] @ sse_event pr event"

definition messages_replay_sse :: "(json \<Rightarrow> string) \<Rightarrow> json \<Rightarrow> string option" where
  "messages_replay_sse pr message = map_option (\<lambda>es. concat (map (named_event pr) es)) (replay_events pr message)"

text \<open>The token figures and the text a hit on a stored message is booked with.\<close>

definition message_as_completion :: "json \<Rightarrow> completion_result" where
  "message_as_completion message =
     (let tokens = (\<lambda>field. as_u32 (u64_or_0 (jget (jget message ''usage'') field)))
      in default_result
           \<lparr>content := concat (map (\<lambda>b. str_or [] (jget b ''text'')) (array_items (jget message ''content''))),
            prompt_tokens := tokens ''input_tokens'',
            completion_tokens := tokens ''output_tokens'',
            finish_reason := str_or ''end_turn'' (jget message ''stop_reason''),
            cache_read_tokens := tokens ''cache_read_input_tokens'',
            cache_write_tokens := tokens ''cache_creation_input_tokens''\<rparr>)"

section \<open>Chunk boundaries\<close>

lemma and_then_map: "map_outcome g (and_then x f) = and_then x (\<lambda>y. map_outcome g (f y))"
  by (cases x) simp_all

lemma ms_lines_last:
  "c\<lparr>ms_message := x, ms_lines := b\<rparr> = c\<lparr>ms_lines := b, ms_message := x\<rparr>"
  "c\<lparr>ms_blocks := y, ms_lines := b\<rparr> = c\<lparr>ms_lines := b, ms_blocks := y\<rparr>"
  "c\<lparr>ms_done := True, ms_lines := b\<rparr> = c\<lparr>ms_lines := b, ms_done := True\<rparr>"
  by simp_all

lemma apply_event_lines:
  "apply_event e (c\<lparr>ms_lines := b\<rparr>) = map_outcome (\<lambda>c. c\<lparr>ms_lines := b\<rparr>) (apply_event e c)"
  by (simp add: apply_event_def and_then_map if_distrib [of "map_outcome _"] ms_lines_last cong: if_cong)

lemma messages_step_lines:
  "messages_step P l (map_option (\<lambda>c. c\<lparr>ms_lines := b\<rparr>) c) =
     map_option (\<lambda>c. c\<lparr>ms_lines := b\<rparr>) (messages_step P l c)"
  by (cases c) (auto simp: messages_step_def messages_feed_line_def apply_event_lines
      split: option.split outcome.split)

lemma fold_messages_step_lines:
  "fold (messages_step P) ls (map_option (\<lambda>c. c\<lparr>ms_lines := b\<rparr>) c) =
     map_option (\<lambda>c. c\<lparr>ms_lines := b\<rparr>) (fold (messages_step P) ls c)"
  by (induction ls arbitrary: c) (simp_all add: messages_step_lines)

lemma fold_messages_step_None [simp]: "fold (messages_step P) ls None = None"
  by (induction ls) (simp_all add: messages_step_def)

definition with_lines :: "string \<times> messages_capture option \<Rightarrow> messages_capture option" where
  "with_lines bs = map_option (\<lambda>c. c\<lparr>ms_lines := fst bs\<rparr>) (snd bs)"

lemma messages_feed_eq:
  "messages_feed P x c =
     map_option (\<lambda>c'. c'\<lparr>ms_lines := snd (sse_push (ms_lines c) x)\<rparr>)
       (fold (messages_step P) (fst (sse_push (ms_lines c) x)) (Some c))"
  using fold_messages_step_lines [of P _ _ "Some c"] by (simp add: messages_feed_def split_beta)

lemma feed_all_None: "snd (sse.feed_all (messages_step P) cs (b, None)) = None"
  by (induction cs arbitrary: b) (simp_all add: split_beta Let_def)

lemma feed_all_lines:
  "with_lines (sse.feed_all (messages_step P) cs (b, map_option (\<lambda>c. c\<lparr>ms_lines := d\<rparr>) c))
    = with_lines (sse.feed_all (messages_step P) cs (b, c))"
  by (induction cs arbitrary: b c)
    (auto simp: with_lines_def split_beta Let_def fold_messages_step_lines option.map_comp comp_def)

lemma messages_feed_all:
  "fold (\<lambda>x c. Option.bind c (messages_feed P x)) cs (Some c)
    = with_lines (sse.feed_all (messages_step P) cs (ms_lines c, Some c))"
proof (induction cs arbitrary: c)
  case (Cons x cs)
  obtain ls b where p: "sse_push (ms_lines c) x = (ls, b)" by fastforce
  have n: "fold (\<lambda>x c. Option.bind c (messages_feed P x)) cs None = None" by (induction cs) simp_all
  show ?case
  proof (cases "fold (messages_step P) ls (Some c)")
    case None
    then show ?thesis by (simp add: messages_feed_eq [of P x c] p n) (simp add: with_lines_def feed_all_None)
  next
    case (Some c')
    then show ?thesis
      using feed_all_lines [of P cs b b "Some c'"] by (simp add: messages_feed_eq [of P x c] p Cons.IH)
  qed
qed (simp add: with_lines_def)

text \<open>
  The Anthropic capture is independent of chunk boundaries as well, panics included.
\<close>

theorem messages_capture_ignores_chunking:
  "fold (\<lambda>x c. Option.bind c (messages_feed P x)) cs (Some messages_new) = messages_feed P (concat cs) messages_new"
proof (cases "cs = []")
  case True
  then show ?thesis by (simp add: messages_feed_def sse_push_empty messages_new_def)
next
  case False
  from sse.feed_all_chunking [OF this, of "messages_step P" "ms_lines messages_new" "Some messages_new"]
  show ?thesis by (simp add: messages_feed_all messages_feed_eq with_lines_def)
qed

text \<open>
  The capture is meant to mark what it does not understand unusable. A \<open>message_start\<close> whose
  \<open>usage\<close> is neither an object nor null makes the next usage of a \<open>message_delta\<close> panic instead.
\<close>

lemma malformed_usage_panics:
  assumes "ms_message c = Some (JObj m)" and "bt_ok m" and "map_of m ''usage'' = Some (JStr s)" and "x \<noteq> JNull"
  shows "apply_event (jobj [(''type'', JStr ''message_delta''), (''delta'', jobj []), (''usage'', jobj [(k, x)])]) c = Panicked"
  using assms by (simp add: apply_event_def jget_jobj merge_usage_def bt_from_list_def jset_def)

end
