(* ===== verification/Messages_Replay.thy ===== *)
theory Messages_Replay
  imports Messages_Capture
begin

text \<open>
  The round trip of \<open>src/src/router/cache/stream.rs\<close> for Anthropic messages: the event stream
  replayed from a stored message is folded back into that message.
\<close>

section \<open>What can be replayed without loss\<close>

definition obj_of :: "json \<Rightarrow> (string \<times> json) list" where
  "obj_of v = (case as_object v of Some m \<Rightarrow> m | None \<Rightarrow> [])"

definition is_str :: "json \<Rightarrow> bool" where
  "is_str v \<longleftrightarrow> as_str v \<noteq> None"

text \<open>
  A content block: the field a delta rebuilds has its type, an empty citation list or a signature of
  another type (which no event carries) is absent, and a tool input prints to text that parses back.
\<close>

definition replayable_block :: "(string \<Rightarrow> json option) \<Rightarrow> (json \<Rightarrow> string) \<Rightarrow> json \<Rightarrow> bool" where
  "replayable_block parse pr b \<longleftrightarrow>
     is_object b \<and> bt_ok (obj_of b) \<and>
     (if jtype b = ''text''
      then is_str (jget b ''text'')
           \<and> (case jget_opt b ''citations'' of None \<Rightarrow> True | Some v \<Rightarrow> array_items v \<noteq> [])
      else if jtype b = ''thinking''
      then is_str (jget b ''thinking'')
           \<and> (case jget_opt b ''signature'' of None \<Rightarrow> True | Some v \<Rightarrow> is_str v)
      else if jtype b = ''tool_use'' \<or> jtype b = ''server_tool_use''
      then (case jget_opt b ''input'' of
              None \<Rightarrow> False
            | Some v \<Rightarrow> trim (pr v) \<noteq> [] \<and> parse (pr v) = Some v)
      else True)"

definition replayable :: "(string \<Rightarrow> json option) \<Rightarrow> (json \<Rightarrow> string) \<Rightarrow> json \<Rightarrow> bool" where
  "replayable parse pr v \<longleftrightarrow>
     is_object v \<and> bt_ok (obj_of v) \<and> is_str (jget v ''stop_reason'')
     \<and> jget_opt v ''stop_sequence'' \<noteq> None
     \<and> is_object (jget v ''usage'') \<and> bt_ok (obj_of (jget v ''usage''))
     \<and> jget (jget v ''usage'') ''output_tokens'' \<noteq> JNull
     \<and> as_array (jget v ''content'') \<noteq> None
     \<and> list_all (replayable_block parse pr) (array_items (jget v ''content''))"

section \<open>Rebuilding a block\<close>

fun run_deltas :: "json list \<Rightarrow> block_acc \<Rightarrow> block_acc outcome" where
  "run_deltas [] a = Fine a"
| "run_deltas (d # ds) a = and_then (apply_delta d a) (run_deltas ds)"

fun run_events :: "json list \<Rightarrow> messages_capture \<Rightarrow> messages_capture outcome" where
  "run_events [] c = Fine c"
| "run_events (e # es) c = and_then (apply_event e c) (run_events es)"

lemma run_events_append: "run_events (es @ fs) c = and_then (run_events es c) (run_events fs)"
proof (induction es arbitrary: c)
  case (Cons e es)
  then show ?case by (cases "apply_event e c") simp_all
qed simp

abbreviation citation_delta :: "json \<Rightarrow> json" where
  "citation_delta c \<equiv> jobj [(''type'', JStr ''citations_delta''), (''citation'', c)]"

lemma apply_citation: "apply_delta (citation_delta x) \<lparr>ba_block = JObj m, ba_partial_json = p\<rparr>
    = Fine \<lparr>ba_block = JObj (bt_insert ''citations''
        (JArr ((case map_of m ''citations'' of Some (JArr xs) \<Rightarrow> xs | _ \<Rightarrow> []) @ [x])) m), ba_partial_json = p\<rparr>"
  by (simp add: apply_delta_def jget_jobj push_citation_def)

lemma run_citations:
  assumes "bt_ok m" and "map_of m ''citations'' = (if xs = [] then None else Some (JArr xs))"
  shows "\<exists>m'. run_deltas (map citation_delta cs) \<lparr>ba_block = JObj m, ba_partial_json = p\<rparr>
             = Fine \<lparr>ba_block = JObj m', ba_partial_json = p\<rparr> \<and> bt_ok m'
           \<and> map_of m' = (if xs @ cs = [] then map_of m else (map_of m)(''citations'' \<mapsto> JArr (xs @ cs)))"
  using assms
proof (induction cs arbitrary: m xs)
  case Nil
  then show ?case by (cases "xs = []") auto
next
  case (Cons c cs)
  let ?m = "bt_insert ''citations'' (JArr (xs @ [c])) m"
  have e: "(case map_of m ''citations'' of Some (JArr ys) \<Rightarrow> ys | _ \<Rightarrow> []) = xs"
    using Cons.prems(2) by simp
  have "bt_ok ?m" "map_of ?m ''citations'' = (if xs @ [c] = [] then None else Some (JArr (xs @ [c])))"
    using Cons.prems(1) by (simp_all add: bt_ok_insert map_of_bt_insert)
  from Cons.IH [OF this] obtain m' where
    "run_deltas (map citation_delta cs) \<lparr>ba_block = JObj ?m, ba_partial_json = p\<rparr>
       = Fine \<lparr>ba_block = JObj m', ba_partial_json = p\<rparr>" "bt_ok m'"
    "map_of m' = (if (xs @ [c]) @ cs = [] then map_of ?m else (map_of ?m)(''citations'' \<mapsto> JArr ((xs @ [c]) @ cs)))"
    by blast
  then show ?case using Cons.prems(1) by (auto simp: apply_citation e map_of_bt_insert fun_eq_iff)
qed

lemma without_fields_obj:
  assumes "bt_ok m"
  obtains n where "without_fields (JObj m) fs [(k, v)] = JObj n" and "bt_ok n"
    and "map_of n = (\<lambda>k'. if k' = k then Some v else if k' \<in> set fs then None else map_of m k')"
proof -
  let ?n = "fold (\<lambda>(k, v). bt_insert k v) [(k, v)] (fold bt_remove fs m)"
  have "without_fields (JObj m) fs [(k, v)] = JObj ?n" by (simp add: without_fields_def)
  moreover have "bt_ok ?n" using assms by (intro bt.invar_ins_all bt.invar_del_all)
  moreover have "map_of ?n = (\<lambda>k'. if k' = k then Some v else if k' \<in> set fs then None else map_of m k')"
    using assms by (auto simp: fun_eq_iff map_of_bt_insert bt.invar_del_all bt.look_del_all)
  ultimately show ?thesis by (rule that)
qed

lemma jobj_eqI: "bt_ok m \<Longrightarrow> bt_ok n \<Longrightarrow> (\<And>k. map_of m k = map_of n k) \<Longrightarrow> JObj m = JObj n"
  using bt_ext [of m n] by (simp add: fun_eq_iff)

text \<open>What the deltas of a block make of its opening.\<close>

definition rebuilds :: "(string \<Rightarrow> json option) \<Rightarrow> (json \<Rightarrow> string) \<Rightarrow> json \<Rightarrow> bool" where
  "rebuilds parse pr b \<longleftrightarrow>
     (\<exists>n a. fst (replay_block pr b) = JObj n
       \<and> run_deltas (snd (replay_block pr b)) \<lparr>ba_block = JObj n, ba_partial_json = []\<rparr> = Fine a
       \<and> finish_block parse a = Fine b)"

lemma is_strE: "is_str v \<Longrightarrow> (\<And>s. v = JStr s \<Longrightarrow> P) \<Longrightarrow> P"
  by (cases v) (auto simp: is_str_def)

lemma jtype_obj: "jtype (JObj m) = t \<Longrightarrow> t \<noteq> [] \<Longrightarrow> map_of m ''type'' = Some (JStr t)"
  by (auto simp: jtype_def str_or_def jget_obj as_str_def split: option.splits json.splits)

lemma rebuilds_text:
  assumes m: "bt_ok m" and t: "jtype (JObj m) = ''text''" and s: "jget (JObj m) ''text'' = JStr s"
    and cit: "case jget_opt (JObj m) ''citations'' of None \<Rightarrow> True | Some v \<Rightarrow> array_items v \<noteq> []"
  shows "rebuilds P pr (JObj m)"
proof -
  let ?cs = "array_items (jget (JObj m) ''citations'')"
  obtain n where n: "without_fields (JObj m) [''text'', ''citations''] [(''text'', JStr [])] = JObj n" "bt_ok n"
    "map_of n = (\<lambda>k'. if k' = ''text'' then Some (JStr []) else if k' \<in> set [''text'', ''citations''] then None else map_of m k')"
    using without_fields_obj [OF m] .
  let ?n = "bt_insert ''text'' (JStr s) n"
  have ap: "apply_delta (jobj [(''type'', JStr ''text_delta''), (''text'', JStr s)]) \<lparr>ba_block = JObj n, ba_partial_json = []\<rparr>
      = Fine \<lparr>ba_block = JObj ?n, ba_partial_json = []\<rparr>"
    by (simp add: apply_delta_def jget_jobj append_str_def jset_obj jget_obj n(3) str_or_def)
  have "bt_ok ?n" "map_of ?n ''citations'' = (if [] = [] then None else Some (JArr []))"
    using n by (simp_all add: bt_ok_insert map_of_bt_insert)
  from run_citations [OF this, of ?cs "[]"] obtain m' where m':
    "run_deltas (map citation_delta ?cs) \<lparr>ba_block = JObj ?n, ba_partial_json = []\<rparr> = Fine \<lparr>ba_block = JObj m', ba_partial_json = []\<rparr>"
    "bt_ok m'" "map_of m' = (if ?cs = [] then map_of ?n else (map_of ?n)(''citations'' \<mapsto> JArr ?cs))" by auto
  have cs: "(if ?cs = [] then None else Some (JArr ?cs)) = map_of m ''citations''"
    using cit by (auto simp: jget_obj jget_opt_def array_items_def as_array_def split: option.splits json.splits)
  have tx: "map_of m ''text'' = Some (JStr s)" using s by (auto simp: jget_obj split: option.splits)
  have "JObj m' = JObj m"
  proof (rule jobj_eqI [OF m'(2) m])
    fix k
    show "map_of m' k = map_of m k"
      using n(2) tx cs unfolding m'(3) by (auto simp: map_of_bt_insert n(3) split: if_splits)
  qed
  moreover have "finish_block P \<lparr>ba_block = JObj m, ba_partial_json = []\<rparr> = Fine (JObj m)"
    using jtype_obj [OF t] by (simp add: finish_block_def jget_obj)
  ultimately show ?thesis
    unfolding rebuilds_def by (simp add: replay_block_def t n(1) s ap m'(1) flip: append_Cons)
qed

lemma rebuilds_thinking:
  assumes m: "bt_ok m" and t: "jtype (JObj m) = ''thinking''" and s: "jget (JObj m) ''thinking'' = JStr s"
    and sg: "case jget_opt (JObj m) ''signature'' of None \<Rightarrow> True | Some v \<Rightarrow> is_str v"
  shows "rebuilds P pr (JObj m)"
proof -
  obtain n where n: "without_fields (JObj m) [''thinking'', ''signature''] [(''thinking'', JStr [])] = JObj n" "bt_ok n"
    "map_of n = (\<lambda>k'. if k' = ''thinking'' then Some (JStr []) else if k' \<in> set [''thinking'', ''signature''] then None else map_of m k')"
    using without_fields_obj [OF m] .
  let ?n = "bt_insert ''thinking'' (JStr s) n"
  have ap: "apply_delta (jobj [(''type'', JStr ''thinking_delta''), (''thinking'', JStr s)]) \<lparr>ba_block = JObj n, ba_partial_json = []\<rparr>
      = Fine \<lparr>ba_block = JObj ?n, ba_partial_json = []\<rparr>"
    by (simp add: apply_delta_def jget_jobj append_str_def jset_obj jget_obj n(3) str_or_def)
  have ok: "bt_ok ?n" using n(2) by (rule bt_ok_insert)
  have th: "map_of m ''thinking'' = Some (JStr s)" using s by (auto simp: jget_obj split: option.splits)
  have fin: "finish_block P \<lparr>ba_block = JObj m, ba_partial_json = []\<rparr> = Fine (JObj m)"
    using jtype_obj [OF t] by (simp add: finish_block_def jget_obj)
  show ?thesis
  proof (cases "map_of m ''signature''")
    case None
    have "JObj ?n = JObj m"
      by (rule jobj_eqI [OF ok m]) (use n(2) None th in \<open>auto simp: map_of_bt_insert n(3)\<close>)
    moreover have "replay_block pr (JObj m)
        = (JObj n, [jobj [(''type'', JStr ''thinking_delta''), (''thinking'', JStr s)]])"
      by (simp add: replay_block_def Let_def t n(1) s) (simp add: jget_obj None)
    ultimately show ?thesis using fin ap unfolding rebuilds_def by simp
  next
    case (Some v)
    with sg obtain g where g: "v = JStr g" by (auto simp: jget_opt_def elim: is_strE)
    let ?m = "bt_insert ''signature'' (JStr g) ?n"
    have "JObj ?m = JObj m"
      by (rule jobj_eqI [OF bt_ok_insert [OF ok] m]) (use n(2) ok Some g th in \<open>auto simp: map_of_bt_insert n(3)\<close>)
    moreover have "apply_delta (jobj [(''type'', JStr ''signature_delta''), (''signature'', JStr g)]) \<lparr>ba_block = JObj ?n, ba_partial_json = []\<rparr>
        = Fine \<lparr>ba_block = JObj ?m, ba_partial_json = []\<rparr>"
      by (simp add: apply_delta_def jget_jobj jset_obj)
    moreover have "replay_block pr (JObj m)
        = (JObj n, [jobj [(''type'', JStr ''thinking_delta''), (''thinking'', JStr s)],
                    jobj [(''type'', JStr ''signature_delta''), (''signature'', JStr g)]])"
      by (simp add: replay_block_def Let_def t n(1) s) (simp add: jget_obj Some g)
    ultimately show ?thesis using fin ap unfolding rebuilds_def by simp
  qed
qed

lemma rebuilds_tool:
  assumes m: "bt_ok m" and t: "jtype (JObj m) = ''tool_use'' \<or> jtype (JObj m) = ''server_tool_use''"
    and i: "jget_opt (JObj m) ''input'' = Some v" and p: "trim (pr v) \<noteq> []" "P (pr v) = Some v"
  shows "rebuilds P pr (JObj m)"
proof -
  obtain n where n: "without_fields (JObj m) [''input''] [(''input'', jobj [])] = JObj n" "bt_ok n"
    "map_of n = (\<lambda>k'. if k' = ''input'' then Some (jobj []) else if k' \<in> set [''input''] then None else map_of m k')"
    using without_fields_obj [OF m] .
  have mi: "map_of m ''input'' = Some v" using i by (simp add: jget_opt_def)
  have ap: "apply_delta (jobj [(''type'', JStr ''input_json_delta''), (''partial_json'', JStr (pr v))]) \<lparr>ba_block = JObj n, ba_partial_json = []\<rparr>
      = Fine \<lparr>ba_block = JObj n, ba_partial_json = pr v\<rparr>"
    by (simp add: apply_delta_def jget_jobj)
  have "JObj (bt_insert ''input'' v n) = JObj m"
    by (rule jobj_eqI [OF bt_ok_insert [OF n(2)] m]) (use n(2) mi in \<open>auto simp: map_of_bt_insert n(3)\<close>)
  moreover have "pr v \<noteq> []" using p(1) by (auto simp: trim_def)
  ultimately have fin: "finish_block P \<lparr>ba_block = JObj n, ba_partial_json = pr v\<rparr> = Fine (JObj m)"
    using p by (simp add: finish_block_def jset_obj)
  have rb: "replay_block pr (JObj m) = (JObj n, [jobj [(''type'', JStr ''input_json_delta''), (''partial_json'', JStr (pr v))]])"
    using t i by (auto simp: replay_block_def n(1))
  show ?thesis unfolding rebuilds_def rb using ap fin by simp
qed

lemma replayable_block_rebuilds:
  assumes "replayable_block P pr b"
  shows "rebuilds P pr b"
proof -
  from assms obtain m where b: "b = JObj m" and m: "bt_ok m"
    by (cases b) (auto simp: replayable_block_def is_object_def obj_of_def)
  consider (plain) "jtype b = ''text''" | (thinking) "jtype b = ''thinking''"
    | (tool) "jtype b = ''tool_use'' \<or> jtype b = ''server_tool_use''"
    | (other) "jtype b \<notin> {''text'', ''thinking'', ''tool_use'', ''server_tool_use''}" by blast
  then show ?thesis
  proof cases
    case plain
    with assms show ?thesis
      unfolding b by (auto simp: replayable_block_def elim!: is_strE intro: rebuilds_text [OF m])
  next
    case thinking
    with assms show ?thesis
      unfolding b by (auto simp: replayable_block_def elim!: is_strE intro: rebuilds_thinking [OF m])
  next
    case tool
    with assms show ?thesis
      unfolding b by (auto simp: replayable_block_def split: option.splits intro: rebuilds_tool [OF m])
  next
    case other
    have "jget b ''type'' \<noteq> JStr ''tool_use''" using other by (auto simp: jtype_def str_or_def)
    with other show ?thesis
      by (auto simp: rebuilds_def replay_block_def b finish_block_def)
  qed
qed

section \<open>Rebuilding the message\<close>

lemma map_of_snoc: "\<forall>k \<in> fst ` set m. k < (i::nat) \<Longrightarrow> map_of (m @ [(i, a)]) i = Some a"
proof -
  assume "\<forall>k \<in> fst ` set m. k < i"
  then have "map_of m i = None" by (force simp: map_of_eq_None_iff)
  then show ?thesis by (simp add: map_add_def)
qed

lemma bt_insert_snoc: "\<forall>k \<in> fst ` set m. k < (i::nat) \<Longrightarrow> bt_insert i b (m @ [(i, a)]) = m @ [(i, b)]"
  by (induction m) (auto simp: order.asym)

abbreviation delta_event :: "nat \<Rightarrow> json \<Rightarrow> json" where
  "delta_event i d \<equiv> jobj [(''type'', JStr ''content_block_delta''), (''index'', jnat i), (''delta'', d)]"

lemma apply_delta_event:
  assumes "\<forall>k \<in> fst ` set m. k < i"
  shows "apply_event (delta_event i d) (c\<lparr>ms_blocks := m @ [(i, a)]\<rparr>)
    = and_then (apply_delta d a) (\<lambda>a'. Fine (c\<lparr>ms_blocks := m @ [(i, a')]\<rparr>))"
  using assms by (simp add: apply_event_def jget_jobj map_of_snoc bt_insert_snoc del: map_of_append)

lemma run_delta_events:
  "\<forall>k \<in> fst ` set m. k < i \<Longrightarrow> run_deltas ds a = Fine a' \<Longrightarrow>
    run_events (map (delta_event i) ds) (c\<lparr>ms_blocks := m @ [(i, a)]\<rparr>) = Fine (c\<lparr>ms_blocks := m @ [(i, a')]\<rparr>)"
proof (induction ds arbitrary: a)
  case (Cons d ds)
  then obtain b where "apply_delta d a = Fine b" "run_deltas ds b = Fine a'"
    by (cases "apply_delta d a") auto
  with Cons show ?case by (simp add: apply_delta_event)
qed simp

lemma run_block_events:
  assumes i: "\<forall>k \<in> fst ` set (ms_blocks c). k < i" and b: "rebuilds P pr b"
  shows "\<exists>a. run_events (block_events pr i b) c = Fine (c\<lparr>ms_blocks := ms_blocks c @ [(i, a)]\<rparr>)
    \<and> finish_block P a = Fine b"
proof -
  from b obtain n a where a: "fst (replay_block pr b) = JObj n"
    "run_deltas (snd (replay_block pr b)) \<lparr>ba_block = JObj n, ba_partial_json = []\<rparr> = Fine a"
    "finish_block P a = Fine b" by (auto simp: rebuilds_def)
  have st: "apply_event (jobj [(''type'', JStr ''content_block_start''), (''index'', jnat i), (''content_block'', JObj n)]) c
      = Fine (c\<lparr>ms_blocks := ms_blocks c @ [(i, \<lparr>ba_block = JObj n, ba_partial_json = []\<rparr>)]\<rparr>)"
    using i by (simp add: apply_event_def jget_jobj bt_insert_last)
  have en: "apply_event (jobj [(''type'', JStr ''content_block_stop''), (''index'', jnat i)]) c' = Fine c'" for c'
    by (simp add: apply_event_def jget_jobj)
  have "run_events (block_events pr i b) c = Fine (c\<lparr>ms_blocks := ms_blocks c @ [(i, a)]\<rparr>)"
    using run_delta_events [OF i a(2), of c]
    by (simp add: block_events_def split_beta Let_def a(1) run_events_append st en)
  with a(3) show ?thesis by blast
qed

lemma run_blocks_events:
  "\<forall>k \<in> fst ` set (ms_blocks c). k < i \<Longrightarrow> list_all (rebuilds P pr) bs \<Longrightarrow>
    \<exists>as. run_events (blocks_events pr i bs) c = Fine (c\<lparr>ms_blocks := ms_blocks c @ as\<rparr>)
      \<and> finish_blocks P (map snd as) = Fine bs"
proof (induction bs arbitrary: i c)
  case Nil
  then show ?case by (auto intro: exI [of _ "[]"])
next
  case (Cons b bs)
  then obtain a where a: "run_events (block_events pr i b) c = Fine (c\<lparr>ms_blocks := ms_blocks c @ [(i, a)]\<rparr>)"
    "finish_block P a = Fine b" using run_block_events [of c i P pr b] by auto
  let ?c = "c\<lparr>ms_blocks := ms_blocks c @ [(i, a)]\<rparr>"
  have "\<forall>k \<in> fst ` set (ms_blocks ?c). k < Suc i" using Cons.prems(1) by auto
  from Cons.IH [OF this] Cons.prems obtain as where
    "run_events (blocks_events pr (Suc i) bs) ?c = Fine (?c\<lparr>ms_blocks := ms_blocks ?c @ as\<rparr>)"
    "finish_blocks P (map snd as) = Fine bs" by auto
  with a show ?case by (intro exI [of _ "(i, a) # as"]) (simp add: run_events_append)
qed

lemma set_all_reads:
  "distinct (map fst kvs) \<Longrightarrow> bt_ok m \<Longrightarrow>
    \<exists>n. set_all kvs (JObj m) = Fine (JObj n) \<and> bt_ok n
      \<and> map_of n = (\<lambda>k. case map_of kvs k of Some x \<Rightarrow> Some x | None \<Rightarrow> map_of m k)"
proof (induction kvs arbitrary: m)
  case (Cons kv kvs)
  obtain k x where kv: "kv = (k, x)" by fastforce
  from Cons.IH [of "bt_insert k x m"] Cons.prems obtain n where
    n: "set_all kvs (JObj (bt_insert k x m)) = Fine (JObj n)" "bt_ok n"
      "map_of n = (\<lambda>j. case map_of kvs j of Some x \<Rightarrow> Some x | None \<Rightarrow> map_of (bt_insert k x m) j)"
    by (auto simp: bt_ok_insert)
  have "map_of kvs k = None" using Cons.prems by (auto simp: kv map_of_eq_None_iff)
  with n Cons.prems show ?case
    by (intro exI [of _ n]) (auto simp: kv jset_obj fun_eq_iff map_of_bt_insert split: option.splits)
qed auto

lemma map_of_filter_nonnull:
  "distinct (map fst u) \<Longrightarrow> map_of (filter (\<lambda>kv. snd kv \<noteq> JNull) u) k
     = (case map_of u k of Some x \<Rightarrow> if x = JNull then None else Some x | None \<Rightarrow> None)"
  by (induction u) (auto split: option.splits simp: map_of_eq_None_iff dest: weak_map_of_SomeI)

text \<open>Resetting the output tokens and merging the final usage restores the usage.\<close>

lemma usage_restored:
  assumes u: "bt_ok u" and o: "jget (JObj u) ''output_tokens'' \<noteq> JNull"
  shows "set_all (filter (\<lambda>kv. snd kv \<noteq> JNull) u) (JObj (bt_insert ''output_tokens'' (jnat 0) u)) = Fine (JObj u)"
proof -
  have d: "distinct (map fst (filter (\<lambda>kv. snd kv \<noteq> JNull) u))"
    using bt_ok_distinct [OF u] by (rule distinct_map_filter)
  obtain n where n: "set_all (filter (\<lambda>kv. snd kv \<noteq> JNull) u) (JObj (bt_insert ''output_tokens'' (jnat 0) u)) = Fine (JObj n)"
    "bt_ok n" "map_of n = (\<lambda>k. case map_of (filter (\<lambda>kv. snd kv \<noteq> JNull) u) k of Some x \<Rightarrow> Some x
       | None \<Rightarrow> map_of (bt_insert ''output_tokens'' (jnat 0) u) k)"
    using set_all_reads [OF d bt_ok_insert [OF u]] by blast
  have "JObj n = JObj u"
    by (rule jobj_eqI [OF n(2) u])
      (use o in \<open>auto simp: n(3) map_of_filter_nonnull [OF bt_ok_distinct [OF u]] map_of_bt_insert [OF u] jget_obj split: option.splits\<close>)
  with n(1) show ?thesis by simp
qed

lemma run_stop:
  assumes sm: "bt_ok sm" and su: "map_of sm ''usage'' = Some (JObj (bt_insert ''output_tokens'' (jnat 0) u))"
    and u: "bt_ok u" and o: "jget (JObj u) ''output_tokens'' \<noteq> JNull" and c: "ms_message c = Some (JObj sm)"
  shows "\<exists>fm. run_events
      [jobj [(''type'', JStr ''message_delta''),
             (''delta'', jobj [(''stop_reason'', r), (''stop_sequence'', q)]), (''usage'', JObj u)],
       jobj [(''type'', JStr ''message_stop'')]] c = Fine (c\<lparr>ms_message := Some (JObj fm), ms_done := True\<rparr>)
    \<and> bt_ok fm \<and> map_of fm = (map_of sm)(''stop_reason'' \<mapsto> r, ''stop_sequence'' \<mapsto> q, ''usage'' \<mapsto> JObj u)"
proof -
  let ?m = "bt_insert ''stop_sequence'' q (bt_insert ''stop_reason'' r sm)"
  let ?fm = "bt_insert ''usage'' (JObj u) ?m"
  have sorted: "bt_from_list [(''stop_reason'', r), (''stop_sequence'', q)] = [(''stop_reason'', r), (''stop_sequence'', q)]"
    by (rule bt_ext) (auto simp: map_of_bt_from_list bt_ok_Cons fun_eq_iff)
  have "map_of ?m ''usage'' = Some (JObj (bt_insert ''output_tokens'' (jnat 0) u))"
    using sm su by (simp add: map_of_bt_insert bt_ok_insert)
  then have "merge_usage u (JObj ?m) = Fine (JObj ?fm)"
    by (simp add: merge_usage_def usage_restored [OF u o])
  then have "run_events
      [jobj [(''type'', JStr ''message_delta''),
             (''delta'', jobj [(''stop_reason'', r), (''stop_sequence'', q)]), (''usage'', JObj u)],
       jobj [(''type'', JStr ''message_stop'')]] c = Fine (c\<lparr>ms_message := Some (JObj ?fm), ms_done := True\<rparr>)"
    using c by (simp add: apply_event_def jget_jobj sorted jset_obj)
  moreover have "bt_ok ?fm" using sm by (simp add: bt_ok_insert)
  moreover have "map_of ?fm = (map_of sm)(''stop_reason'' \<mapsto> r, ''stop_sequence'' \<mapsto> q, ''usage'' \<mapsto> JObj u)"
    using sm by (auto simp: fun_eq_iff map_of_bt_insert bt_ok_insert)
  ultimately show ?thesis by blast
qed

lemma start_reads:
  assumes m: "bt_ok m" and u: "map_of m ''usage'' = Some (JObj u)"
  shows "\<exists>sm. start_message (JObj m) = Some (JObj sm) \<and> bt_ok sm
    \<and> map_of sm = (map_of m)(''content'' \<mapsto> JArr [], ''stop_reason'' \<mapsto> JNull, ''stop_sequence'' \<mapsto> JNull,
        ''usage'' \<mapsto> JObj (bt_insert ''output_tokens'' (jnat 0) u))"
proof -
  let ?s = "bt_insert ''stop_sequence'' JNull (bt_insert ''stop_reason'' JNull (bt_insert ''content'' (JArr []) m))"
  let ?sm = "bt_insert ''usage'' (JObj (bt_insert ''output_tokens'' (jnat 0) u)) ?s"
  have ok: "bt_ok ?s" using m by (simp add: bt_ok_insert)
  have "jget (JObj ?s) ''usage'' = JObj u" using m u by (simp add: jget_obj map_of_bt_insert bt_ok_insert)
  then have "start_message (JObj m) = Some (JObj ?sm)"
    by (simp add: start_message_def jset_obj is_object_def)
  moreover have "bt_ok ?sm" using ok by (rule bt_ok_insert)
  moreover have "map_of ?sm = (map_of m)(''content'' \<mapsto> JArr [], ''stop_reason'' \<mapsto> JNull, ''stop_sequence'' \<mapsto> JNull,
        ''usage'' \<mapsto> JObj (bt_insert ''output_tokens'' (jnat 0) u))"
    using m by (auto simp: fun_eq_iff map_of_bt_insert bt_ok_insert)
  ultimately show ?thesis by blast
qed

lemma is_objectE: "is_object v \<Longrightarrow> (\<And>m. v = JObj m \<Longrightarrow> P) \<Longrightarrow> P"
  by (cases v) (auto simp: is_object_def)

lemma jget_some: "jget (JObj m) k = v \<Longrightarrow> v \<noteq> JNull \<Longrightarrow> map_of m k = Some v"
  by (auto simp: jget_obj split: option.splits)

lemma messages_round_trip:
  assumes "replayable P pr v"
  shows "\<exists>es c. replay_events pr v = Some es \<and> run_events es messages_new = Fine c
    \<and> ms_done c \<and> \<not> ms_unusable c \<and> messages_finish P (c\<lparr>ms_lines := []\<rparr>) = Fine v"
proof -
  from assms obtain m where v: "v = JObj m" and m: "bt_ok m"
    by (auto simp: replayable_def obj_of_def elim!: is_objectE)
  from assms obtain u where u: "jget v ''usage'' = JObj u" "bt_ok u" "jget (JObj u) ''output_tokens'' \<noteq> JNull"
    by (auto simp: replayable_def obj_of_def elim!: is_objectE [of "jget v ''usage''"])
  from assms obtain r where r: "jget v ''stop_reason'' = JStr r" by (auto simp: replayable_def elim!: is_strE)
  from assms obtain q where q: "map_of m ''stop_sequence'' = Some q" by (auto simp: replayable_def v jget_opt_def)
  from assms obtain bs where bs: "jget v ''content'' = JArr bs" "list_all (rebuilds P pr) bs"
    using replayable_block_rebuilds
    by (cases "jget v ''content''") (auto simp: replayable_def list_all_iff)
  from u(1) have mu: "map_of m ''usage'' = Some (JObj u)" unfolding v by (rule jget_some) simp
  from r have mr: "map_of m ''stop_reason'' = Some (JStr r)" unfolding v by (rule jget_some) simp
  from bs(1) have mb: "map_of m ''content'' = Some (JArr bs)" unfolding v by (rule jget_some) simp
  have jq: "jget v ''stop_sequence'' = q" using q by (simp add: v jget_obj)
  from start_reads [OF m mu] obtain sm where sm: "start_message (JObj m) = Some (JObj sm)" "bt_ok sm"
    "map_of sm = (map_of m)(''content'' \<mapsto> JArr [], ''stop_reason'' \<mapsto> JNull, ''stop_sequence'' \<mapsto> JNull,
        ''usage'' \<mapsto> JObj (bt_insert ''output_tokens'' (jnat 0) u))" by blast
  let ?c1 = "messages_new\<lparr>ms_message := Some (JObj sm)\<rparr>"
  have s1: "apply_event (jobj [(''type'', JStr ''message_start''), (''message'', JObj sm)]) messages_new = Fine ?c1"
    by (simp add: apply_event_def jget_jobj)
  have "\<forall>k \<in> fst ` set (ms_blocks ?c1). k < 0" by (simp add: messages_new_def)
  from run_blocks_events [OF this bs(2)] obtain as where as:
    "run_events (blocks_events pr 0 bs) ?c1 = Fine (?c1\<lparr>ms_blocks := ms_blocks ?c1 @ as\<rparr>)"
    "finish_blocks P (map snd as) = Fine bs" by blast
  let ?c2 = "?c1\<lparr>ms_blocks := ms_blocks ?c1 @ as\<rparr>"
  have su: "map_of sm ''usage'' = Some (JObj (bt_insert ''output_tokens'' (jnat 0) u))" by (simp add: sm(3))
  have m2: "ms_message ?c2 = Some (JObj sm)" by simp
  from run_stop [OF sm(2) su u(2,3) m2, of "JStr r" q] obtain fm where fm:
    "run_events
      [jobj [(''type'', JStr ''message_delta''),
             (''delta'', jobj [(''stop_reason'', JStr r), (''stop_sequence'', q)]), (''usage'', JObj u)],
       jobj [(''type'', JStr ''message_stop'')]] ?c2 = Fine (?c2\<lparr>ms_message := Some (JObj fm), ms_done := True\<rparr>)"
    "bt_ok fm" "map_of fm = (map_of sm)(''stop_reason'' \<mapsto> JStr r, ''stop_sequence'' \<mapsto> q, ''usage'' \<mapsto> JObj u)"
    by blast
  let ?es = "[jobj [(''type'', JStr ''message_start''), (''message'', JObj sm)]] @ blocks_events pr 0 bs
    @ [jobj [(''type'', JStr ''message_delta''),
             (''delta'', jobj [(''stop_reason'', JStr r), (''stop_sequence'', q)]), (''usage'', JObj u)],
       jobj [(''type'', JStr ''message_stop'')]]"
  let ?c3 = "?c2\<lparr>ms_message := Some (JObj fm), ms_done := True\<rparr>"
  have es: "replay_events pr v = Some ?es"
    using sm(1) by (simp add: replay_events_def bs(1) r jq u(1)) (simp add: v)
  have run: "run_events ?es messages_new = Fine ?c3"
    unfolding run_events_append using fm(1) as(1) s1 by simp
  have "JObj (bt_insert ''content'' (JArr bs) fm) = JObj m"
    by (rule jobj_eqI [OF bt_ok_insert [OF fm(2)] m])
      (use fm(2) mu mr mb q in \<open>auto simp: map_of_bt_insert fm(3) sm(3)\<close>)
  then have "messages_finish P (?c3\<lparr>ms_lines := []\<rparr>) = Fine v"
    by (simp add: messages_finish_def messages_new_def has_partial_line_def as(2) jget_obj fm(3) jset_obj v)
  with es run show ?thesis by (intro exI conjI) (assumption | simp add: messages_new_def)+
qed

section \<open>Through the text of the stream\<close>

definition event_types :: "string list" where
  "event_types =
     [''message_start'', ''content_block_start'', ''content_block_delta'', ''content_block_stop'',
      ''message_delta'', ''message_stop'']"

lemma event_line:
  assumes "t \<in> set event_types"
  shows "sse_push [] (''event: '' @ t @ [nl]) = ([''event: '' @ t], [])"
    and "strip_prefix data_prefix (''event: '' @ t) = None"
proof -
  have "list_all (\<lambda>t. sse_push [] (''event: '' @ t @ [nl]) = ([''event: '' @ t], [])) event_types" by code_simp
  with assms show "sse_push [] (''event: '' @ t @ [nl]) = ([''event: '' @ t], [])" by (simp add: list_all_iff)
  show "strip_prefix data_prefix (''event: '' @ t) = None" by (simp add: data_prefix_def)
qed

lemma sse_push_named:
  assumes "wire_ok P pr e" and "jtype e \<in> set event_types"
  shows "sse_push [] (named_event pr e) = ([''event: '' @ jtype e, ''data: '' @ pr e, []], [])"
  using sse_push_assoc [of "[]" "''event: '' @ jtype e @ [nl]" "sse_event pr e"]
  unfolding event_line(1) [OF assms(2)] by (simp add: named_event_def sse_push_event [OF assms(1)])

lemma sse_push_all_named:
  "list_all (\<lambda>e. wire_ok P pr e \<and> jtype e \<in> set event_types) es \<Longrightarrow>
    sse_push [] (concat (map (named_event pr) es))
      = (concat (map (\<lambda>e. [''event: '' @ jtype e, ''data: '' @ pr e, []]) es), [])"
proof (induction es)
  case (Cons e es)
  then have e: "wire_ok P pr e" "jtype e \<in> set event_types" by simp_all
  show ?case
    using Cons sse_push_assoc [of "[]" "named_event pr e" "concat (map (named_event pr) es)"]
    unfolding sse_push_named [OF e] by simp
qed (simp add: sse_push_empty)

lemma apply_event_flags:
  assumes "apply_event e c = Fine c'"
  shows "ms_unusable c' = ms_unusable c" and "jtype e \<noteq> ''message_stop'' \<Longrightarrow> ms_done c' = ms_done c"
proof -
  have f: "and_then x f = Fine y \<longleftrightarrow> (\<exists>z. x = Fine z \<and> f z = Fine y)" for x :: "'a outcome" and f and y :: "'b"
    by (cases x) simp_all
  have a: "asked x = Fine z \<longleftrightarrow> x = Some z" for x :: "'c option" and z by (cases x) simp_all
  show "ms_unusable c' = ms_unusable c"
    using assms by (auto simp: apply_event_def f a split: if_splits)
  show "jtype e \<noteq> ''message_stop'' \<Longrightarrow> ms_done c' = ms_done c"
    using assms by (auto simp: apply_event_def f a jtype_def str_or_def split: if_splits)
qed

lemma step_named:
  assumes "wire_ok P pr e" and "jtype e \<in> set event_types" and "\<not> ms_unusable c" and "\<not> ms_done c"
    and "apply_event e c = Fine c'"
  shows "fold (messages_step P) [''event: '' @ jtype e, ''data: '' @ pr e, []] (Some c) = Some c'"
proof -
  have d: "strip_prefix data_prefix [] = None" by (simp add: data_prefix_def)
  have "trim (pr e) = pr e" "P (pr e) = Some e" using assms(1) by (simp_all add: wire_ok_def)
  with assms show ?thesis
    by (simp add: messages_step_def messages_feed_line_def event_line(2) data_of_line trim_space d del: append_Cons)
qed

lemma steps_named:
  "list_all (\<lambda>e. wire_ok P pr e \<and> jtype e \<in> set event_types) es \<Longrightarrow>
    list_all (\<lambda>e. jtype e \<noteq> ''message_stop'') (butlast es) \<Longrightarrow> \<not> ms_unusable c \<Longrightarrow> \<not> ms_done c \<Longrightarrow>
    run_events es c = Fine c' \<Longrightarrow>
    fold (messages_step P) (concat (map (\<lambda>e. [''event: '' @ jtype e, ''data: '' @ pr e, []]) es)) (Some c) = Some c'"
proof (induction es arbitrary: c)
  case (Cons e es)
  then obtain d where d: "apply_event e c = Fine d" "run_events es d = Fine c'"
    by (cases "apply_event e c") auto
  have e: "wire_ok P pr e" "jtype e \<in> set event_types" using Cons.prems(1) by simp_all
  note st = step_named [OF e Cons.prems(3,4) d(1)]
  show ?case
  proof (cases "es = []")
    case True
    with st d show ?thesis by (simp del: fold_simps)
  next
    case False
    with Cons.prems(2) have "jtype e \<noteq> ''message_stop''" "list_all (\<lambda>e. jtype e \<noteq> ''message_stop'') (butlast es)" by auto
    with apply_event_flags [OF d(1)] Cons.prems have
      "fold (messages_step P) (concat (map (\<lambda>e. [''event: '' @ jtype e, ''data: '' @ pr e, []]) es)) (Some d) = Some c'"
      by (intro Cons.IH d(2)) auto
    with st show ?thesis by (simp only: list.map concat.simps fold_append comp_def)
  qed
qed simp

lemma block_event_types:
  "list_all (\<lambda>e. jtype e \<in> set event_types \<and> jtype e \<noteq> ''message_stop'') (blocks_events pr i bs)"
  by (induction bs arbitrary: i)
    (auto simp: block_events_def split_beta Let_def jtype_def jget_jobj str_or_def event_types_def list_all_iff)

lemma replay_event_types:
  assumes "replay_events pr v = Some es"
  shows "list_all (\<lambda>e. jtype e \<in> set event_types) es" and "list_all (\<lambda>e. jtype e \<noteq> ''message_stop'') (butlast es)"
  using assms block_event_types [of pr 0 "array_items (jget v ''content'')"]
  by (auto simp: replay_events_def jtype_def jget_jobj str_or_def butlast_append event_types_def list_all_iff)

text \<open>
  A stored Anthropic message replayed as an event stream and captured again is the same
  message, for every message whose parts the event stream can carry (\<open>replayable\<close>): stop fields,
  final usage, text with citations, thinking with its signature, tool inputs, opaque blocks.
\<close>

theorem replayed_message_is_recaptured:
  assumes rep: "replayable P pr v"
    and wire: "\<And>es e. replay_events pr v = Some es \<Longrightarrow> e \<in> set es \<Longrightarrow> wire_ok P pr e"
  shows "\<exists>sse c. messages_replay_sse pr v = Some sse \<and> messages_feed P sse messages_new = Some c
    \<and> messages_finish P c = Fine v"
proof -
  from messages_round_trip [OF rep] obtain es c where es: "replay_events pr v = Some es"
    "run_events es messages_new = Fine c" "messages_finish P (c\<lparr>ms_lines := []\<rparr>) = Fine v" by blast
  have w: "list_all (\<lambda>e. wire_ok P pr e \<and> jtype e \<in> set event_types) es"
    using wire [OF es(1)] replay_event_types(1) [OF es(1)] by (simp add: list_all_iff)
  have new: "\<not> ms_unusable messages_new" "\<not> ms_done messages_new" "ms_lines messages_new = []"
    by (simp_all add: messages_new_def)
  have "messages_feed P (concat (map (named_event pr) es)) messages_new = Some (c\<lparr>ms_lines := []\<rparr>)"
    unfolding messages_feed_eq new(3) sse_push_all_named [OF w]
    by (simp only: fst_conv snd_conv option.map steps_named [OF w replay_event_types(2) [OF es(1)] new(1,2) es(2)])
  with es(1,3) show ?thesis by (simp add: messages_replay_sse_def)
qed

text \<open>A message with a text block and a tool call, and a toy printer for its events and the input.\<close>

definition sample_input :: json where
  "sample_input = jobj [(''a'', jnat 1)]"

definition sample_message :: json where
  "sample_message =
     jobj [(''content'', JArr
              [jobj [(''type'', JStr ''text''), (''text'', JStr ''hi''), (''citations'', JArr [JStr ''c''])],
               jobj [(''type'', JStr ''tool_use''), (''id'', JStr ''t1''), (''input'', sample_input)]]),
           (''stop_reason'', JStr ''tool_use''), (''stop_sequence'', JNull),
           (''usage'', jobj [(''input_tokens'', jnat 7), (''output_tokens'', jnat 5)])]"

definition sample_message_print :: "json \<Rightarrow> string" where
  "sample_message_print v =
     ''{'' @ jtype v @ show_nat (u64_or_0 (jget v ''index'')) @ jtype (jget v ''delta'') @ ''}''"

definition sample_message_parse :: "string \<Rightarrow> json option" where
  "sample_message_parse s =
     (if s = sample_message_print sample_input then Some sample_input
      else List.find (\<lambda>e. sample_message_print e = s) (the (replay_events sample_message_print sample_message)))"

theorem replayed_message_witness:
  "\<exists>sse c. messages_replay_sse sample_message_print sample_message = Some sse
    \<and> messages_feed sample_message_parse sse messages_new = Some c
    \<and> messages_finish sample_message_parse c = Fine sample_message"
proof (rule replayed_message_is_recaptured)
  show "replayable sample_message_parse sample_message_print sample_message" by code_simp
  have ok: "list_all (wire_ok sample_message_parse sample_message_print) (the (replay_events sample_message_print sample_message))"
    by code_simp
  fix es e
  assume "replay_events sample_message_print sample_message = Some es" and "e \<in> set es"
  with ok show "wire_ok sample_message_parse sample_message_print e" by (simp add: list_all_iff)
qed

end
