(* ===== verification/Chat_Request.thy ===== *)
theory Chat_Request
  imports Engine Router_Meta
begin

text \<open>
  From the request body to the provider request: tools (\<open>src/src/api/routes/tools.rs\<close>),
  \<open>build_normalized_request\<close>, \<open>completion_settings\<close>, the response body and the header switches of
  \<open>src/src/api/routes/completions.rs\<close>.
\<close>

section \<open>Tools\<close>

definition request_has_tools :: "json \<Rightarrow> bool" where
  "request_has_tools body \<longleftrightarrow> (case as_array (jget body ''tools'') of Some t \<Rightarrow> t \<noteq> [] | None \<Rightarrow> False)"

definition tool_choice_msg :: string where
  "tool_choice_msg = ''`tool_choice` requires a non-empty `tools` array''"

definition validate_tool_choice_requires_tools :: "json \<Rightarrow> api_error + unit" where
  "validate_tool_choice_requires_tools body =
     (if request_has_tools body then Inr ()
      else case jget_opt body ''tool_choice'' of
             Some tc \<Rightarrow>
               if tc \<noteq> JNull \<and> as_str tc \<noteq> Some ''none'' then Inl (InvalidRequest tool_choice_msg) else Inr ()
           | None \<Rightarrow> Inr ())"

text \<open>
  What the routes use of a provider adapter: a call and a streamed call, which change the world
  \<open>'w\<close> it talks to (a stream is the list of what it yields), and two pure answers. Adapters and their registry are parameters.
\<close>

record 'w adapter =
  ad_complete :: "normalized_request \<Rightarrow> 'w \<Rightarrow> (anyhow + completion_result) \<times> 'w"
  ad_stream :: "normalized_request \<Rightarrow> 'w \<Rightarrow> (anyhow + (anyhow + string) list) \<times> 'w"
  ad_supports_tools :: "string \<Rightarrow> bool"
  ad_effective_settings :: "normalized_request \<Rightarrow> effective_settings"

type_synonym 'w registry = "string \<Rightarrow> anyhow + 'w adapter"

definition tools_unsupported_msg :: "string \<Rightarrow> string \<Rightarrow> string" where
  "tools_unsupported_msg model provider =
     ''`tools` is not supported for model '' @ quoted model @ '' on provider '' @ quoted provider"

definition ensure_tools_supported :: "'w registry \<Rightarrow> json \<Rightarrow> string \<Rightarrow> string \<Rightarrow> api_error + unit" where
  "ensure_tools_supported reg body provider model =
     (if \<not> request_has_tools body then Inr ()
      else case reg provider of
             Inl e \<Rightarrow> Inl (ProviderError e)
           | Inr ad \<Rightarrow>
               if ad_supports_tools ad model then Inr ()
               else Inl (InvalidRequest (tools_unsupported_msg model provider)))"

definition forwarded_tools :: "json \<Rightarrow> json list option \<times> json option" where
  "forwarded_tools body =
     (let tools = (case as_array (jget body ''tools'') of Some t \<Rightarrow> if t \<noteq> [] then Some t else None | None \<Rightarrow> None);
          tool_choice =
            (if tools \<noteq> None
             then (case jget_opt body ''tool_choice'' of Some tc \<Rightarrow> if tc \<noteq> JNull then Some tc else None | None \<Rightarrow> None)
             else None)
      in (tools, tool_choice))"

definition assistant_message :: "completion_result \<Rightarrow> json" where
  "assistant_message r =
     (let content_value = (if content r = [] \<and> tool_calls r \<noteq> None then JNull else JStr (content r))
      in jobj ([(''role'', JStr ''assistant''), (''content'', content_value)]
               @ (case tool_calls r of Some t \<Rightarrow> [(''tool_calls'', t)] | None \<Rightarrow> [])))"

section \<open>The provider request\<close>

definition messages_of :: "json \<Rightarrow> json list" where
  "messages_of body = array_items (jget body ''messages'')"

definition wants_stream :: "json \<Rightarrow> bool" where
  "wants_stream body = (case as_bool (jget body ''stream'') of Some b \<Rightarrow> b | None \<Rightarrow> False)"

definition build_normalized_request ::
  "json \<Rightarrow> string \<Rightarrow> string \<Rightarrow> capability_entry list \<Rightarrow> learned \<Rightarrow> normalized_request" where
  "build_normalized_request body model requested capabilities l =
     \<lparr>nr_model = model, nr_request_model = requested, nr_messages = messages_of body,
      nr_stream = wants_stream body,
      nr_temperature =
        (case as_f64 (jget body ''temperature'') of
           Some t \<Rightarrow> if temperature_allowed model capabilities l then Some t else None
         | None \<Rightarrow> None),
      nr_max_tokens = map_option as_u32 (as_u64 (jget body ''max_tokens'')),
      nr_tools = fst (forwarded_tools body), nr_tool_choice = snd (forwarded_tools body),
      nr_reasoning = resolve_reasoning model (as_str (jget body ''reasoning_effort'')) capabilities,
      nr_extra_params = jobj []\<rparr>"

definition note_learned_temperature_strip :: "learned \<Rightarrow> json \<Rightarrow> normalized_request \<Rightarrow> learned" where
  "note_learned_temperature_strip l body req =
     (if is_number (jget body ''temperature'') \<and> nr_temperature req = None
         \<and> learned_temperature l (nr_model req) = Some False
      then note_stripped l (nr_model req) else l)"

definition reasoning_value :: "reasoning_control \<Rightarrow> json" where
  "reasoning_value rc =
     jobj [(''disable_thinking'', JBool (disable_thinking rc)), (''effort'', jopt JStr (effort rc))]"

definition completion_settings :: "effective_settings \<Rightarrow> normalized_request \<Rightarrow> json \<Rightarrow> json" where
  "completion_settings eff req body =
     (let dropped =
        (if is_number (jget body ''temperature'') \<and> nr_temperature req = None then [JStr ''temperature''] else [])
        @ (if as_str (jget body ''reasoning_effort'') \<noteq> None \<and> es_reasoning eff = None
           then [JStr ''reasoning_effort''] else [])
      in jobj [(''temperature'', jopt jrat (es_temperature eff)),
               (''reasoning'', jopt reasoning_value (es_reasoning eff)),
               (''max_tokens'', jopt jnat (es_max_tokens eff)),
               (''timeout_secs'', jopt jnat (es_timeout_secs eff)),
               (''stream'', JBool (nr_stream req)),
               (''tools'', jopt (\<lambda>t. jnat (length t)) (nr_tools req)),
               (''tool_choice'', jopt (\<lambda>v. v) (nr_tool_choice req)),
               (''dropped'', JArr dropped)])"

section \<open>The response body\<close>

definition build_openai_response :: "string \<Rightarrow> completion_result \<Rightarrow> router_meta \<Rightarrow> json option" where
  "build_openai_response request_id r m =
     Option.bind
       (openai_usage (case rm_tokens m of Some t \<Rightarrow> t | None \<Rightarrow> default_tokens) (rm_cost m)) (\<lambda>usage.
     attach m
       (jobj [(''id'', JStr request_id), (''object'', JStr ''chat.completion''), (''model'', JStr (rm_model m)),
              (''choices'', JArr [jobj [(''index'', jnat 0), (''message'', assistant_message r),
                                        (''finish_reason'', JStr (finish_reason r))]]),
              (''usage'', usage)]))"

section \<open>Facts\<close>

lemma forwarded_tools_pair: "snd (forwarded_tools body) \<noteq> None \<Longrightarrow> fst (forwarded_tools body) \<noteq> None"
  by (auto simp: forwarded_tools_def Let_def split: if_splits)

lemma forwarded_tools_iff: "fst (forwarded_tools body) \<noteq> None \<longleftrightarrow> request_has_tools body"
  by (auto simp: forwarded_tools_def request_has_tools_def Let_def split: option.splits)

text \<open>The temperature a request carries is one the model takes.\<close>

lemma built_temperature_allowed:
  "nr_temperature (build_normalized_request body m rq caps l) \<noteq> None \<Longrightarrow> temperature_allowed m caps l"
  by (auto simp: build_normalized_request_def split: option.splits if_splits)

lemma built_fields [simp]:
  "nr_model (build_normalized_request body m rq caps l) = m"
  "nr_stream (build_normalized_request body m rq caps l) = wants_stream body"
  "nr_tools (build_normalized_request body m rq caps l) = fst (forwarded_tools body)"
  by (simp_all add: build_normalized_request_def)

lemma strip_ok: "learned_ok l \<Longrightarrow> learned_ok (note_learned_temperature_strip l body req)"
  by (simp add: note_learned_temperature_strip_def learned_ok_note_stripped)

end
