(* ===== verification/Failover.thy ===== *)
theory Failover
  imports Chat_Request Circuit_Breaker Fallback Policy
begin

text \<open>
  Calling a provider with retries and failing over along the chains: \<open>call_with_backoff\<close>,
  \<open>next_available_fallback_with_policy\<close> and \<open>complete_with_retry_and_fallback\<close> of
  \<open>src/src/api/routes/completions.rs\<close>. The providers, the clock, the timer, the random source and
  the repository of learned rows act on a world \<open>'w\<close>; they are the parameters of the record
  \<open>world_ops\<close>. The failover loop of the code has no bound, so it is a partial function.
\<close>

section \<open>Environment and state\<close>

record 'w world_ops =
  wo_now :: "'w \<Rightarrow> nat"
  wo_sleep :: "nat \<Rightarrow> 'w \<Rightarrow> 'w"
  wo_random :: "'w \<Rightarrow> nat \<times> 'w"
  wo_timestamp :: "'w \<Rightarrow> string"
  wo_upsert :: "learned_row \<Rightarrow> 'w \<Rightarrow> string + 'w"
  wo_registry :: "'w registry"

text \<open>What is fixed while a request is served.\<close>

record gateway_config =
  gc_retry :: retry_policy
  gc_capabilities :: "capability_entry list"
  gc_fallback :: fallback_chain
  gc_policy :: policy_engine
  gc_parse_list :: "string \<Rightarrow> string list option"

text \<open>What serving it changes.\<close>

record 'w gateway =
  gw_breaker :: circuit_breaker
  gw_router :: request_router
  gw_world :: 'w

definition learned_of :: "'w gateway \<Rightarrow> learned" where
  "learned_of g = learned_caps (gw_router g)"

definition set_learned :: "learned \<Rightarrow> 'w gateway \<Rightarrow> 'w gateway" where
  "set_learned l g = g\<lparr>gw_router := (gw_router g)\<lparr>learned_caps := l\<rparr>\<rparr>"

section \<open>One provider\<close>

text \<open>The call, and the one retry without \<open>temperature\<close> that a rejection of it earns.\<close>

definition provider_call ::
  "'w world_ops \<Rightarrow> 'w adapter \<Rightarrow> normalized_request \<Rightarrow> 'w gateway \<Rightarrow> (anyhow + completion_result) \<times> 'w gateway" where
  "provider_call ops ad req g =
     (let (r, w) = ad_complete ad req (gw_world g)
      in case r of
           Inr ok \<Rightarrow> (Inr ok, g\<lparr>gw_world := w\<rparr>)
         | Inl e \<Rightarrow>
             (case temperature_rejection_retry req e of
                None \<Rightarrow> (Inl e, g\<lparr>gw_world := w\<rparr>)
              | Some again \<Rightarrow>
                  (let (l, w1) = record_temperature_rejection (wo_upsert ops) (wo_timestamp ops w) (learned_of g) w
                                   (nr_model req) e;
                       (r', w2) = ad_complete ad again w1
                   in (r', (set_learned l g)\<lparr>gw_world := w2\<rparr>))))"

text \<open>The closure handed to the backoff loop: request built afresh for every attempt.\<close>

definition attempt_call ::
  "'w world_ops \<Rightarrow> gateway_config \<Rightarrow> 'w adapter \<Rightarrow> json \<Rightarrow> string \<Rightarrow> string \<Rightarrow> 'w gateway
     \<Rightarrow> (anyhow + completion_result) \<times> 'w gateway" where
  "attempt_call ops cfg ad body model requested g =
     (let req = build_normalized_request body model requested (gc_capabilities cfg) (learned_of g)
      in provider_call ops ad req (set_learned (note_learned_temperature_strip (learned_of g) body req) g))"

text \<open>
  \<open>n\<close> is \<open>retry_attempt\<close>. The result carries the duration of the call that succeeded, and
  \<open>attempts\<close>, which every call made increments.
\<close>

function call_with_backoff ::
  "'w world_ops \<Rightarrow> retry_policy \<Rightarrow> ('w gateway \<Rightarrow> (anyhow + completion_result) \<times> 'w gateway) \<Rightarrow> nat \<Rightarrow> nat
     \<Rightarrow> 'w gateway \<Rightarrow> (anyhow + completion_result \<times> nat) \<times> nat \<times> 'w gateway" where
  "call_with_backoff ops pol call n attempts g =
     (let called = wo_now ops (gw_world g); (r, g1) = call g
      in case r of
           Inr ok \<Rightarrow> (Inr (ok, wo_now ops (gw_world g1) - called), attempts + 1, g1)
         | Inl e \<Rightarrow>
             if should_retry pol n (classify_error e)
             then let (rnd, w) = wo_random ops (gw_world g1)
                  in call_with_backoff ops pol call (n + 1) (attempts + 1)
                       (g1\<lparr>gw_world := wo_sleep ops (delay_ms pol n rnd) w\<rparr>)
             else (Inl e, attempts + 1, g1))"
  by pat_completeness auto
termination
  by (relation "measure (\<lambda>(ops, pol, call, n, attempts, g). max_retries pol - n)")
    (auto dest!: should_retry_bound)

declare call_with_backoff.simps [simp del]

section \<open>The next candidate\<close>

definition max_fallback_hops :: nat where
  "max_fallback_hops = 16"

definition candidate_forwards_tools :: "'w registry \<Rightarrow> string \<Rightarrow> string \<Rightarrow> bool" where
  "candidate_forwards_tools reg p m = (case reg p of Inr ad \<Rightarrow> ad_supports_tools ad m | Inl _ \<Rightarrow> False)"

text \<open>Skipped: disabled, unable to carry the tools, or not permitted (a failing check counts as that).\<close>

definition candidate_ok ::
  "'w world_ops \<Rightarrow> gateway_config \<Rightarrow> request_router \<Rightarrow> database \<Rightarrow> user \<Rightarrow> bool \<Rightarrow> string \<times> string \<Rightarrow> bool" where
  "candidate_ok ops cfg r db u require_tools pm =
     (router_is_available r (fst pm) (snd pm)
      \<and> (require_tools \<longrightarrow> candidate_forwards_tools (wo_registry ops) (fst pm) (snd pm))
      \<and> model_permitted_denial (gc_parse_list cfg) (gc_policy cfg) db u (snd pm) = Inr None)"

fun fallback_walk ::
  "nat \<Rightarrow> 'w world_ops \<Rightarrow> gateway_config \<Rightarrow> request_router \<Rightarrow> database \<Rightarrow> user \<Rightarrow> bool \<Rightarrow> string \<Rightarrow> (string \<times> string) option" where
  "fallback_walk 0 ops cfg r db u require_tools cursor = None"
| "fallback_walk (Suc n) ops cfg r db u require_tools cursor =
     (case next_after (gc_fallback cfg) cursor of
        None \<Rightarrow> None
      | Some next_model \<Rightarrow>
          if candidate_ok ops cfg r db u require_tools (resolve r next_model) then Some (resolve r next_model)
          else fallback_walk n ops cfg r db u require_tools next_model)"

definition next_available_fallback_with_policy ::
  "'w world_ops \<Rightarrow> gateway_config \<Rightarrow> request_router \<Rightarrow> database \<Rightarrow> user \<Rightarrow> string \<Rightarrow> bool \<Rightarrow> (string \<times> string) option" where
  "next_available_fallback_with_policy ops cfg r db u current require_tools =
     fallback_walk max_fallback_hops ops cfg r db u require_tools current"

section \<open>The failover loop\<close>

record provider_call_outcome =
  po_result :: completion_result
  po_provider :: string
  po_model :: string
  po_attempts :: nat
  po_fallbacks :: nat
  po_provider_ms :: nat
  po_settings :: json

definition circuit_open_error :: "string \<Rightarrow> anyhow" where
  "circuit_open_error provider = error_msg (''circuit breaker open for '' @ provider)"

text \<open>
  One turn of the loop: it returns (\<open>Inl\<close> the result), or goes on with the next pair
  (\<open>Inr\<close>), with the counters and the gateway as they are then.
\<close>

definition loop_next ::
  "'w world_ops \<Rightarrow> gateway_config \<Rightarrow> database \<Rightarrow> user \<Rightarrow> json \<Rightarrow> bool \<Rightarrow> string \<Rightarrow> anyhow \<Rightarrow> 'w gateway
     \<Rightarrow> (api_error + provider_call_outcome) + string \<times> string" where
  "loop_next ops cfg db u body bound model err g =
     (if bound then Inl (Inl (ProviderError err))
      else case next_available_fallback_with_policy ops cfg (gw_router g) db u model (request_has_tools body) of
             Some pm \<Rightarrow> Inr pm
           | None \<Rightarrow> Inl (Inl (ProviderError err)))"

definition failover_turn ::
  "'w world_ops \<Rightarrow> gateway_config \<Rightarrow> database \<Rightarrow> user \<Rightarrow> json \<Rightarrow> bool \<Rightarrow> string
     \<Rightarrow> string \<times> string \<Rightarrow> nat \<Rightarrow> nat \<Rightarrow> 'w gateway
     \<Rightarrow> ((api_error + provider_call_outcome) + string \<times> string) \<times> nat \<times> 'w gateway" where
  "failover_turn ops cfg db u body bound requested pm attempts fallbacks g =
     (let (provider, model) = pm;
          (opened, cb) = is_open (wo_now ops (gw_world g)) (gw_breaker g) provider;
          g = g\<lparr>gw_breaker := cb\<rparr>
      in if opened
         then (loop_next ops cfg db u body bound model (circuit_open_error provider) g, attempts, g)
         else case wo_registry ops provider of
                Inl e \<Rightarrow> (Inl (Inl (ProviderError e)), attempts, g)
              | Inr ad \<Rightarrow>
                  (case call_with_backoff ops (gc_retry cfg) (attempt_call ops cfg ad body model requested) 0 attempts g of
                     (Inr (r, provider_ms), attempts', g') \<Rightarrow>
                       (let req = build_normalized_request body model requested (gc_capabilities cfg) (learned_of g')
                        in (Inl (Inr
                              \<lparr>po_result = r, po_provider = provider, po_model = model, po_attempts = attempts',
                               po_fallbacks = fallbacks, po_provider_ms = provider_ms,
                               po_settings = completion_settings (ad_effective_settings ad req) req body\<rparr>),
                            attempts', g'\<lparr>gw_breaker := record_success (gw_breaker g') provider\<rparr>))
                   | (Inl e, attempts', g') \<Rightarrow>
                       (let g'' = g'\<lparr>gw_breaker :=
                                record_provider_failure (wo_now ops (gw_world g')) (gw_breaker g') provider e\<rparr>
                        in (loop_next ops cfg db u body bound model e g'', attempts', g''))))"

text \<open>\<open>None\<close> is a loop that never ends.\<close>

partial_function (option) failover ::
  "'w world_ops \<Rightarrow> gateway_config \<Rightarrow> database \<Rightarrow> user \<Rightarrow> json \<Rightarrow> bool \<Rightarrow> string
     \<Rightarrow> string \<times> string \<Rightarrow> nat \<Rightarrow> nat \<Rightarrow> 'w gateway
     \<Rightarrow> ((api_error + provider_call_outcome) \<times> 'w gateway) option" where
  "failover ops cfg db u body bound requested pm attempts fallbacks g =
     (case failover_turn ops cfg db u body bound requested pm attempts fallbacks g of
        (Inl r, attempts', g') \<Rightarrow> Some (r, g')
      | (Inr pm', attempts', g') \<Rightarrow>
          failover ops cfg db u body bound requested pm' attempts' (fallbacks + 1) g')"

definition complete_with_retry_and_fallback ::
  "'w world_ops \<Rightarrow> gateway_config \<Rightarrow> database \<Rightarrow> user \<Rightarrow> json \<Rightarrow> bool \<Rightarrow> string \<times> string \<Rightarrow> string \<Rightarrow> 'w gateway
     \<Rightarrow> ((api_error + provider_call_outcome) \<times> 'w gateway) option" where
  "complete_with_retry_and_fallback ops cfg db u body bound pm requested g =
     failover ops cfg db u body bound requested pm 0 0 g"

section \<open>What a call leaves alone\<close>

text \<open>Aliases, availability and configuration of the router stay; so does the breaker.\<close>

definition same_routing :: "'w gateway \<Rightarrow> 'w gateway \<Rightarrow> bool" where
  "same_routing g g' \<longleftrightarrow>
     routing (gw_router g') = routing (gw_router g) \<and> db_aliases (gw_router g') = db_aliases (gw_router g)
     \<and> availability (gw_router g') = availability (gw_router g)"

lemma same_routing_refl [simp]: "same_routing g g"
  by (simp add: same_routing_def)

lemma same_routing_trans: "same_routing g1 g2 \<Longrightarrow> same_routing g2 g3 \<Longrightarrow> same_routing g1 g3"
  by (simp add: same_routing_def)

lemma same_routing_updates [simp]:
  "same_routing g (g'\<lparr>gw_world := w\<rparr>) = same_routing g g'"
  "same_routing g (g'\<lparr>gw_breaker := cb\<rparr>) = same_routing g g'"
  "same_routing g (set_learned l g') = same_routing g g'"
  "same_routing (g\<lparr>gw_breaker := cb\<rparr>) g' = same_routing g g'"
  "same_routing (g\<lparr>gw_world := w\<rparr>) g' = same_routing g g'"
  "same_routing (set_learned l g) g' = same_routing g g'"
  by (simp_all add: same_routing_def set_learned_def)

lemma provider_call_frame: "provider_call ops ad req g = (r, g') \<Longrightarrow> same_routing g g' \<and> gw_breaker g' = gw_breaker g"
  by (auto simp: provider_call_def set_learned_def same_routing_def split: prod.splits sum.splits option.splits)

lemma attempt_call_frame:
  "attempt_call ops cfg ad body m rq g = (r, g') \<Longrightarrow> same_routing g g' \<and> gw_breaker g' = gw_breaker g"
  unfolding attempt_call_def Let_def by (drule provider_call_frame) (simp add: set_learned_def same_routing_def)

lemma backoff_frame:
  assumes call: "\<And>g r g'. call g = (r, g') \<Longrightarrow> same_routing g g' \<and> gw_breaker g' = gw_breaker g"
    and "call_with_backoff ops pol call n a g = (r, a', g')"
  shows "same_routing g g' \<and> gw_breaker g' = gw_breaker g"
  using assms(2)
proof (induction "max_retries pol - n" arbitrary: n a g rule: less_induct)
  case less
  obtain r1 g1 where c: "call g = (r1, g1)" by fastforce
  note f = call [OF c]
  show ?case
  proof (cases "\<exists>e. r1 = Inl e \<and> should_retry pol n (classify_error e)")
    case False
    with less.prems c f show ?thesis
      by (subst (asm) call_with_backoff.simps) (auto simp: Let_def split: sum.splits)
  next
    case True
    then obtain e where e: "r1 = Inl e" "should_retry pol n (classify_error e)" by blast
    obtain rnd w where w: "wo_random ops (gw_world g1) = (rnd, w)" by fastforce
    let ?g = "g1\<lparr>gw_world := wo_sleep ops (delay_ms pol n rnd) w\<rparr>"
    have "call_with_backoff ops pol call (n + 1) (a + 1) ?g = (r, a', g')"
      using less.prems c e w by (subst (asm) call_with_backoff.simps) (simp add: Let_def)
    from less.hyps [OF _ this] should_retry_bound [OF e(2)] have "same_routing ?g g' \<and> gw_breaker g' = gw_breaker ?g"
      by simp
    with f show ?thesis by (auto intro: same_routing_trans)
  qed
qed

lemma candidate_ok_routing:
  "same_routing g g' \<Longrightarrow> candidate_ok ops cfg (gw_router g') db u rt pm = candidate_ok ops cfg (gw_router g) db u rt pm"
  by (simp add: candidate_ok_def router_is_available_def same_routing_def)

lemma resolve_routing: "same_routing g g' \<Longrightarrow> resolve (gw_router g') m = resolve (gw_router g) m"
proof -
  assume "same_routing g g'"
  then have "gw_router g' = (gw_router g)\<lparr>learned_caps := learned_caps (gw_router g')\<rparr>"
    by (intro request_router.equality) (simp_all add: same_routing_def)
  moreover have "resolve (r\<lparr>learned_caps := l\<rparr>) m = resolve r m" for r l
    by (simp add: resolve_def resolve_inner_def split: option.split sum.split)
  ultimately show ?thesis by metis
qed

lemma fallback_walk_routing:
  "same_routing g g' \<Longrightarrow> fallback_walk n ops cfg (gw_router g') db u rt m = fallback_walk n ops cfg (gw_router g) db u rt m"
  by (induction n arbitrary: m) (simp_all add: candidate_ok_routing resolve_routing split: option.split)

lemma next_available_routing:
  "same_routing g g' \<Longrightarrow> next_available_fallback_with_policy ops cfg (gw_router g') db u m rt
     = next_available_fallback_with_policy ops cfg (gw_router g) db u m rt"
  by (simp add: next_available_fallback_with_policy_def fallback_walk_routing)

lemma fallback_walk_ok: "fallback_walk n ops cfg r db u rt m = Some pm \<Longrightarrow> candidate_ok ops cfg r db u rt pm"
  by (induction n arbitrary: m) (auto split: option.splits if_splits)

lemma next_available_ok:
  "next_available_fallback_with_policy ops cfg r db u m rt = Some pm \<Longrightarrow> candidate_ok ops cfg r db u rt pm"
  by (simp add: next_available_fallback_with_policy_def fallback_walk_ok)

section \<open>The backoff loop\<close>

text \<open>
  What the loop does is the sequence of its calls: every one but the last failed retryably and
  within the budget; the last decides the result.
\<close>

lemma backoff_result:
  assumes "call_with_backoff ops pol call n a g = (r, a', g')"
  shows "a < a' \<and> a' \<le> a + (max_retries pol - n) + 1
    \<and> (\<exists>g0. snd (call g0) = g' \<and>
         (case r of
            Inr (ok, ms) \<Rightarrow> fst (call g0) = Inr ok
          | Inl e \<Rightarrow> fst (call g0) = Inl e \<and> (\<not> should_retry pol (n + (a' - a - 1)) (classify_error e))))"
  using assms
proof (induction "max_retries pol - n" arbitrary: n a g rule: less_induct)
  case less
  obtain r1 g1 where c: "call g = (r1, g1)" by fastforce
  show ?case
  proof (cases r1)
    case (Inr ok)
    with less.prems c show ?thesis
      by (subst (asm) call_with_backoff.simps) (auto simp: Let_def intro: exI [of _ g])
  next
    case (Inl e)
    show ?thesis
    proof (cases "should_retry pol n (classify_error e)")
      case False
      with less.prems c Inl show ?thesis
        by (subst (asm) call_with_backoff.simps) (auto simp: Let_def intro: exI [of _ g])
    next
      case True
      from True have b: "n < max_retries pol" by (rule should_retry_bound)
      obtain rnd w where w: "wo_random ops (gw_world g1) = (rnd, w)" by fastforce
      let ?g = "g1\<lparr>gw_world := wo_sleep ops (delay_ms pol n rnd) w\<rparr>"
      have "call_with_backoff ops pol call (n + 1) (a + 1) ?g = (r, a', g')"
        using less.prems c Inl True w by (subst (asm) call_with_backoff.simps) (simp add: Let_def)
      from less.hyps [OF _ this] b have ih: "a + 1 < a' \<and> a' \<le> a + 1 + (max_retries pol - (n + 1)) + 1
        \<and> (\<exists>g0. snd (call g0) = g' \<and>
         (case r of
            Inr (ok, ms) \<Rightarrow> fst (call g0) = Inr ok
          | Inl e \<Rightarrow> fst (call g0) = Inl e \<and> (\<not> should_retry pol (n + 1 + (a' - (a + 1) - 1)) (classify_error e))))"
        by simp
      then have eq: "n + 1 + (a' - (a + 1) - 1) = n + (a' - a - 1)" by linarith
      from ih b have "a < a'" "a' \<le> a + (max_retries pol - n) + 1" by linarith+
      with ih show ?thesis unfolding eq by blast
    qed
  qed
qed

section \<open>The failover loop\<close>

text \<open>An adapter of the registry gave this answer to the request built for this model.\<close>

definition answered_by ::
  "'w world_ops \<Rightarrow> gateway_config \<Rightarrow> json \<Rightarrow> string \<Rightarrow> string \<times> string \<Rightarrow> completion_result \<Rightarrow> bool" where
  "answered_by ops cfg body requested pm r \<longleftrightarrow>
     (\<exists>ad g. wo_registry ops (fst pm) = Inr ad \<and> fst (attempt_call ops cfg ad body (snd pm) requested g) = Inr r)"

lemma loop_next_cases:
  "case loop_next ops cfg db u body bound m e g of
     Inr pm \<Rightarrow> \<not> bound \<and> next_available_fallback_with_policy ops cfg (gw_router g) db u m (request_has_tools body) = Some pm
   | Inl (Inl e) \<Rightarrow> (\<exists>err. e = ProviderError err)
   | Inl (Inr out) \<Rightarrow> False"
  by (auto simp: loop_next_def split: option.splits)

lemma backoff_attempt_frame:
  "call_with_backoff ops pol (attempt_call ops cfg ad body m rq) n a g = (r, a', g') \<Longrightarrow>
    same_routing g g' \<and> gw_breaker g' = gw_breaker g"
  by (rule backoff_frame) (rule attempt_call_frame)

text \<open>One turn, case by case.\<close>

lemma failover_turn_cases:
  assumes t: "failover_turn ops cfg db u body bound rq pm a f g = (x, a', g')"
  shows "same_routing g g' \<and> a \<le> a' \<and>
    (case x of
       Inr pm' \<Rightarrow> \<not> bound \<and>
         next_available_fallback_with_policy ops cfg (gw_router g) db u (snd pm) (request_has_tools body) = Some pm'
     | Inl (Inl e) \<Rightarrow> (\<exists>err. e = ProviderError err)
     | Inl (Inr out) \<Rightarrow>
         (po_provider out, po_model out) = pm \<and> po_fallbacks out = f \<and> po_attempts out = a' \<and> a < a'
         \<and> a' \<le> a + max_retries (gc_retry cfg) + 1
         \<and> answered_by ops cfg body rq pm (po_result out))"
proof -
  obtain p m where pm: "pm = (p, m)" by fastforce
  obtain opened cb where o: "is_open (wo_now ops (gw_world g)) (gw_breaker g) p = (opened, cb)" by fastforce
  let ?g = "g\<lparr>gw_breaker := cb\<rparr>"
  have nx: "next_available_fallback_with_policy ops cfg (gw_router g1) db u m (request_has_tools body)
      = next_available_fallback_with_policy ops cfg (gw_router g) db u m (request_has_tools body)"
    if "same_routing g g1" for g1 using that by (rule next_available_routing)
  show ?thesis
  proof (cases opened)
    case True
    with t pm o have "x = loop_next ops cfg db u body bound m (circuit_open_error p) ?g" "a' = a" "g' = ?g"
      by (auto simp: failover_turn_def Let_def)
    then show ?thesis
      using loop_next_cases [where ops = ops and cfg = cfg and db = db and u = u and body = body and bound = bound and m = m and 
        e = "circuit_open_error p" and g = ?g]
      by (auto simp: pm split: sum.splits)
  next
    case False
    show ?thesis
    proof (cases "wo_registry ops p")
      case (Inl e)
      with t pm o False show ?thesis by (auto simp: failover_turn_def Let_def)
    next
      case (Inr ad)
      obtain r a1 g1 where c: "call_with_backoff ops (gc_retry cfg) (attempt_call ops cfg ad body m rq) 0 a ?g = (r, a1, g1)"
        by (metis prod_cases3)
      note fr = backoff_attempt_frame [OF c] and res = backoff_result [OF c]
      have sr: "same_routing g g1" using fr by simp
      show ?thesis
      proof (cases r)
        case (Inr okms)
        obtain ok ms where okms: "okms = (ok, ms)" by fastforce
        from res obtain g0 where "fst (attempt_call ops cfg ad body m rq g0) = Inr ok" by (auto simp: Inr okms)
        then have "answered_by ops cfg body rq pm ok"
          using \<open>wo_registry ops p = Inr ad\<close> by (auto simp: answered_by_def pm)
        with t pm o False \<open>wo_registry ops p = Inr ad\<close> c Inr okms sr res show ?thesis
          by (auto simp: failover_turn_def Let_def)
      next
        case (Inl e)
        let ?g2 = "g1\<lparr>gw_breaker := record_provider_failure (wo_now ops (gw_world g1)) (gw_breaker g1) p e\<rparr>"
        from t pm o False \<open>wo_registry ops p = Inr ad\<close> c Inl
        have "x = loop_next ops cfg db u body bound m e ?g2" "a' = a1" "g' = ?g2"
          by (auto simp: failover_turn_def Let_def)
        then show ?thesis
          using loop_next_cases [where ops = ops and cfg = cfg and db = db and u = u and body = body and bound = bound and m = m and 
            e = e and g = ?g2] sr res nx [OF sr]
          by (auto simp: pm split: sum.splits)
      qed
    qed
  qed
qed

text \<open>
  What a finished loop promises: the pair that answered is the one asked for or a candidate the
  checks let through, never another for a bound request, and an adapter of it gave the answer.
\<close>

definition outcome_ok ::
  "'w world_ops \<Rightarrow> gateway_config \<Rightarrow> request_router \<Rightarrow> database \<Rightarrow> user \<Rightarrow> json \<Rightarrow> bool \<Rightarrow> string \<Rightarrow> string \<times> string
     \<Rightarrow> nat \<Rightarrow> provider_call_outcome \<Rightarrow> bool" where
  "outcome_ok ops cfg r db u body bound rq pm f out \<longleftrightarrow>
     (let q = (po_provider out, po_model out)
      in answered_by ops cfg body rq q (po_result out)
         \<and> (if po_fallbacks out = f then q = pm
            else f < po_fallbacks out \<and> \<not> bound \<and> candidate_ok ops cfg r db u (request_has_tools body) q))"

lemma outcome_ok_routing:
  "same_routing g g' \<Longrightarrow>
    outcome_ok ops cfg (gw_router g') db u body bound rq pm f out = outcome_ok ops cfg (gw_router g) db u body bound rq pm f out"
  by (simp add: outcome_ok_def candidate_ok_routing)

lemma failover_outcome:
  assumes "failover ops cfg db u body bound rq pm a f g = Some (res, g')"
  shows "case res of Inr out \<Rightarrow> outcome_ok ops cfg (gw_router g) db u body bound rq pm f out
    | Inl e \<Rightarrow> \<exists>err. e = ProviderError err"
proof -
  have "case fst r of Inr out \<Rightarrow> outcome_ok ops cfg (gw_router g) db u body bound rq pm f out
    | Inl e \<Rightarrow> \<exists>err. e = ProviderError err"
    if "failover ops cfg db u body bound rq pm a f g = Some r" for r
  proof (rule failover.raw_induct [where P = "\<lambda>ops cfg db u body bound rq pm a f g r.
      case fst r of Inr out \<Rightarrow> outcome_ok ops cfg (gw_router g) db u body bound rq pm f out
      | Inl e \<Rightarrow> \<exists>err. e = ProviderError err", OF _ that])
    fix fo ops cfg db u body bound rq pm a f g r
    assume IH: "\<And>ops cfg db u body bound rq pm a f g r. fo ops cfg db u body bound rq pm a f g = Some r \<Longrightarrow>
        case fst r of Inr out \<Rightarrow> outcome_ok ops cfg (gw_router g) db u body bound rq pm f out
        | Inl e \<Rightarrow> \<exists>err. e = ProviderError err"
      and eq: "(case failover_turn ops cfg db u body bound rq pm a f g of
        (Inl r, attempts', g') \<Rightarrow> Some (r, g')
      | (Inr pm', attempts', g') \<Rightarrow> fo ops cfg db u body bound rq pm' attempts' (f + 1) g') = Some r"
    obtain x a1 g1 where t: "failover_turn ops cfg db u body bound rq pm a f g = (x, a1, g1)" by (metis prod_cases3)
    note c = failover_turn_cases [OF t]
    show "case fst r of Inr out \<Rightarrow> outcome_ok ops cfg (gw_router g) db u body bound rq pm f out
        | Inl e \<Rightarrow> \<exists>err. e = ProviderError err"
    proof (cases x)
      case (Inl y)
      with eq t have "r = (y, g1)" by simp
      with c Inl show ?thesis by (cases y) (auto simp: outcome_ok_def)
    next
      case (Inr pm')
      with eq t have "fo ops cfg db u body bound rq pm' a1 (f + 1) g1 = Some r" by simp
      note ih = IH [OF this]
      have ok: "candidate_ok ops cfg (gw_router g) db u (request_has_tools body) pm'" "\<not> bound" "same_routing g g1"
        using c Inr by (auto dest: next_available_ok)
      show ?thesis
      proof (cases "fst r")
        case (Inr out)
        with ih ok(3) have "outcome_ok ops cfg (gw_router g) db u body bound rq pm' (f + 1) out"
          by (simp add: outcome_ok_routing)
        with Inr ok show ?thesis by (auto simp: outcome_ok_def Let_def split: if_splits)
      qed (use ih in simp)
    qed
  qed
  from this [OF assms] show ?thesis by simp
qed

section \<open>Properties\<close>

text \<open>
  C27. Every retry loop ends after at most \<open>max_retries\<close> further calls. It returns the answer of
  its last call, or the error of its last call, which then is one the policy does not retry or
  came with the budget used up.
\<close>

theorem retries_within_budget:
  "case call_with_backoff ops pol call 0 a g of
     (r, a', g') \<Rightarrow> a < a' \<and> a' \<le> a + max_retries pol + 1
       \<and> (\<exists>g0. snd (call g0) = g' \<and>
            (case r of
               Inr (ok, ms) \<Rightarrow> fst (call g0) = Inr ok
             | Inl e \<Rightarrow> fst (call g0) = Inl e \<and> \<not> should_retry pol (a' - a - 1) (classify_error e)))"
proof -
  obtain r a' g' where c: "call_with_backoff ops pol call 0 a g = (r, a', g')" by (metis prod_cases3)
  from backoff_result [OF c] show ?thesis unfolding c by (simp only: prod.case add_0 diff_zero)
qed

text \<open>
  C7. A completion that comes back was produced by the adapter of the pair it is reported for.
  Without a hop that is the pair first resolved; after hops it is a pair that is not disabled,
  forwards tools when the request carries any, and that the policy permits this caller.
\<close>

theorem failover_answer_is_permitted:
  assumes "complete_with_retry_and_fallback ops cfg db u body bound pm requested g = Some (Inr out, g')"
  shows "(let q = (po_provider out, po_model out)
    in answered_by ops cfg body requested q (po_result out)
      \<and> (if po_fallbacks out = 0 then q = pm
         else \<not> bound \<and> router_is_available (gw_router g) (fst q) (snd q)
           \<and> (if request_has_tools body then candidate_forwards_tools (wo_registry ops) (fst q) (snd q) else True)
           \<and> model_permitted_denial (gc_parse_list cfg) (gc_policy cfg) db u (snd q) = Inr None))"
  using failover_outcome [OF assms [unfolded complete_with_retry_and_fallback_def]]
  by (auto simp: outcome_ok_def candidate_ok_def Let_def split: if_splits)

lemma bound_turn: "\<exists>y a' g'. failover_turn ops cfg db u body True rq pm a f g = (Inl y, a', g')"
proof -
  obtain x a' g' where t: "failover_turn ops cfg db u body True rq pm a f g = (x, a', g')" by (metis prod_cases3)
  with failover_turn_cases [OF t] show ?thesis by (cases x) auto
qed

text \<open>
  A request bound to an experiment is never substituted: its call always ends, with an
  answer of the pinned pair reached within the retry budget and no hop, or with a provider error.
\<close>

theorem bound_request_never_substituted:
  "\<exists>r g'. complete_with_retry_and_fallback ops cfg db u body True pm requested g = Some (r, g')
     \<and> (case r of
          Inr out \<Rightarrow> (po_provider out, po_model out) = pm \<and> po_fallbacks out = 0
            \<and> 0 < po_attempts out \<and> po_attempts out \<le> max_retries (gc_retry cfg) + 1
        | Inl e \<Rightarrow> (\<exists>err. e = ProviderError err))"
proof -
  obtain y a' g' where t: "failover_turn ops cfg db u body True requested pm 0 0 g = (Inl y, a', g')"
    using bound_turn by blast
  have "complete_with_retry_and_fallback ops cfg db u body True pm requested g = Some (y, g')"
    by (simp add: complete_with_retry_and_fallback_def failover.simps t)
  with failover_turn_cases [OF t] show ?thesis by (cases y) auto
qed

lemma failover_ranked:
  assumes "\<And>m q. next_available_fallback_with_policy ops cfg (gw_router h) db u m (request_has_tools body) = Some q
    \<Longrightarrow> rank (snd q) < rank m"
  shows "same_routing h g \<Longrightarrow> \<exists>r g'. failover ops cfg db u body bound rq pm a f g = Some (r, g')
    \<and> (case r of Inr out \<Rightarrow> po_fallbacks out \<le> f + rank (snd pm) | Inl e \<Rightarrow> True)"
proof (induction "rank (snd pm)" arbitrary: pm a f g rule: less_induct)
  case less
  obtain x a1 g1 where t: "failover_turn ops cfg db u body bound rq pm a f g = (x, a1, g1)" by (metis prod_cases3)
  note c = failover_turn_cases [OF t]
  show ?case
  proof (cases x)
    case (Inl y)
    with t c show ?thesis by (cases y) (auto simp: failover.simps)
  next
    case (Inr q)
    with c have n: "next_available_fallback_with_policy ops cfg (gw_router g) db u (snd pm) (request_has_tools body) = Some q"
      by simp
    then have "rank (snd q) < rank (snd pm)" by (intro assms) (simp add: next_available_routing [OF less.prems])
    moreover have "same_routing h g1" using less.prems c by (auto intro: same_routing_trans)
    ultimately obtain r g' where "failover ops cfg db u body bound rq q a1 (f + 1) g1 = Some (r, g')"
        "case r of Inr out \<Rightarrow> po_fallbacks out \<le> f + 1 + rank (snd q) | Inl e \<Rightarrow> True"
      using less.hyps [of q g1 a1 "f + 1"] by auto
    with t Inr \<open>rank (snd q) < rank (snd pm)\<close> show ?thesis
      by (auto simp: failover.simps split: sum.splits)
  qed
qed

text \<open>
  C26. Where the chains descend (some rank of the model names falls at every hop, so that no walk
  comes back), the failover always ends, after at most as many hops as the rank of the first model.
\<close>

theorem failover_ends_on_descending_chains:
  assumes "\<And>m q. next_available_fallback_with_policy ops cfg (gw_router g) db u m (request_has_tools body) = Some q
    \<Longrightarrow> rank (snd q) < rank m"
  shows "\<exists>r g'. complete_with_retry_and_fallback ops cfg db u body bound pm requested g = Some (r, g')
    \<and> (case r of Inr out \<Rightarrow> po_fallbacks out \<le> rank (snd pm) | Inl e \<Rightarrow> True)"
proof -
  have "\<exists>r g'. failover ops cfg db u body bound requested pm 0 0 g = Some (r, g')
    \<and> (case r of Inr out \<Rightarrow> po_fallbacks out \<le> 0 + rank (snd pm) | Inl e \<Rightarrow> True)"
    by (rule failover_ranked [OF _ same_routing_refl]) (rule assms)
  then show ?thesis unfolding complete_with_retry_and_fallback_def add_0 .
qed

lemma failing_turn:
  assumes "\<And>rq w. \<exists>e w'. ad_complete ad rq w = (Inl e, w')" and "wo_registry ops (fst pm) = Inr ad"
    and "next_available_fallback_with_policy ops cfg (gw_router g) db u (snd pm) (request_has_tools body) = Some q"
  shows "\<exists>a' g'. failover_turn ops cfg db u body False rq pm a f g = (Inr q, a', g')"
proof -
  obtain x a' g' where t: "failover_turn ops cfg db u body False rq pm a f g = (x, a', g')" by (metis prod_cases3)
  have fails: "\<exists>e. fst (provider_call ops ad req g) = Inl e" for req g
  proof -
    obtain e w where "ad_complete ad req (gw_world g) = (Inl e, w)" using assms(1) by blast
    moreover have "\<exists>e' w'. ad_complete ad again v = (Inl e', w')" for again v using assms(1) by blast
    ultimately show ?thesis
      by (auto simp: provider_call_def split: option.split prod.split) (metis fst_conv)
  qed
  have no: "\<not> answered_by ops cfg body rq pm r" for r
  proof
    assume "answered_by ops cfg body rq pm r"
    with assms(2) obtain g where "fst (attempt_call ops cfg ad body (snd pm) rq g) = Inr r" by (auto simp: answered_by_def)
    then show False using fails by (metis Inl_Inr_False attempt_call_def)
  qed
  obtain p m where pm: "pm = (p, m)" by fastforce
  have "x = Inr q"
  proof (cases x)
    case (Inr q')
    with failover_turn_cases [OF t] assms(3) show ?thesis by simp
  next
    case (Inl y)
    show ?thesis
    proof (cases y)
      case (Inr out)
      with Inl no failover_turn_cases [OF t] show ?thesis by auto
    next
      case (Inl e)
      obtain opened cb where o: "is_open (wo_now ops (gw_world g)) (gw_breaker g) p = (opened, cb)" by fastforce
      obtain r a1 g1 where c: "call_with_backoff ops (gc_retry cfg) (attempt_call ops cfg ad body m rq) 0 a (g\<lparr>gw_breaker := cb\<rparr>) = (r, a1, g1)"
        by (metis prod_cases3)
      have "same_routing g g1" using backoff_attempt_frame [OF c] by simp
      from next_available_routing [OF this, of ops cfg db u m] assms(3) have
        n1: "next_available_fallback_with_policy ops cfg (gw_router g1) db u m (request_has_tools body) = Some q" by (simp add: pm)
      with assms(2,3) t \<open>x = Inl y\<close> Inl o c show ?thesis
        by (auto simp: failover_turn_def Let_def pm loop_next_def split: if_splits sum.splits)
    qed
  qed
  with t show ?thesis by blast
qed

lemma failing_turn_routing:
  "failover_turn ops cfg db u body bound rq pm a f g = (x, a', g') \<Longrightarrow> same_routing g g'"
  using failover_turn_cases by blast

text \<open>
  Nothing bounds the walk itself. When every pair of some set fails and the chains lead from
  each of its models to another pair of the set (two models that name each other as fallback are
  enough), the loop never ends: every hop finds a next candidate, open circuits included.
\<close>

theorem mutual_fallback_never_returns:
  assumes fails: "\<And>q. q \<in> S \<Longrightarrow> \<exists>ad. wo_registry ops (fst q) = Inr ad \<and> (\<forall>rq w. \<exists>e w'. ad_complete ad rq w = (Inl e, w'))"
    and closed: "\<And>q. q \<in> S \<Longrightarrow> \<exists>q' \<in> S.
      next_available_fallback_with_policy ops cfg (gw_router g) db u (snd q) (request_has_tools body) = Some q'"
    and "pm \<in> S"
  shows "complete_with_retry_and_fallback ops cfg db u body False pm requested g = None"
proof (rule ccontr)
  assume "complete_with_retry_and_fallback ops cfg db u body False pm requested g \<noteq> None"
  then obtain res where res: "failover ops cfg db u body False requested pm 0 0 g = Some res"
    by (auto simp: complete_with_retry_and_fallback_def)
  let ?bad = "\<lambda>ops' cfg' db' u' body' bound pm' h.
    ops' = ops \<and> cfg' = cfg \<and> db' = db \<and> u' = u \<and> body' = body \<and> \<not> bound \<and> pm' \<in> S \<and> same_routing g h"
  have "\<not> ?bad ops cfg db u body False pm g"
  proof (rule failover.raw_induct [where P = "\<lambda>ops' cfg' db' u' body' bound rq pm' a f h r.
      \<not> ?bad ops' cfg' db' u' body' bound pm' h", OF _ res])
    fix fo ops' cfg' db' u' body' bound rq pm' a f h r
    assume IH: "\<And>ops' cfg' db' u' body' bound rq pm' a f h r. fo ops' cfg' db' u' body' bound rq pm' a f h = Some r \<Longrightarrow>
        \<not> ?bad ops' cfg' db' u' body' bound pm' h"
      and eq: "(case failover_turn ops' cfg' db' u' body' bound rq pm' a f h of
        (Inl r, attempts', g') \<Rightarrow> Some (r, g')
      | (Inr pm'', attempts', g') \<Rightarrow> fo ops' cfg' db' u' body' bound rq pm'' attempts' (f + 1) g') = Some r"
    show "\<not> ?bad ops' cfg' db' u' body' bound pm' h"
    proof
      assume bad: "?bad ops' cfg' db' u' body' bound pm' h"
      then have S: "pm' \<in> S" and sr: "same_routing g h" by auto
      from closed [OF S] obtain q where q: "q \<in> S"
        "next_available_fallback_with_policy ops cfg (gw_router h) db u (snd pm') (request_has_tools body) = Some q"
        using next_available_routing [OF sr, of ops cfg db u "snd pm'" "request_has_tools body"] by auto
      from fails [OF S] obtain ad where "wo_registry ops (fst pm') = Inr ad" "\<And>rq w. \<exists>e w'. ad_complete ad rq w = (Inl e, w')"
        by blast
      from failing_turn [OF this(2,1) q(2), of rq a f] obtain a' g' where
        t: "failover_turn ops cfg db u body False rq pm' a f h = (Inr q, a', g')" by blast
      with eq bad have "fo ops cfg db u body False rq q a' (f + 1) g' = Some r" by simp
      from IH [OF this] q(1) sr failing_turn_routing [OF t] show False by (auto dest: same_routing_trans)
    qed
  qed
  then show False using assms(3) by simp
qed

section \<open>A small gateway\<close>

text \<open>Provider \<open>a\<close> always fails, every other one answers; two chains to try them on.\<close>

definition sample_adapter :: "string \<Rightarrow> unit adapter" where
  "sample_adapter p =
     \<lparr>ad_complete = (\<lambda>req w. (if p = ''a'' then Inl (error_msg ''boom'') else Inr (default_result\<lparr>content := p\<rparr>), w)),
      ad_stream = (\<lambda>req w. (Inr [Inr p], w)),
      ad_supports_tools = (\<lambda>_. True), ad_effective_settings = default_effective_settings\<rparr>"

definition sample_ops :: "unit world_ops" where
  "sample_ops =
     \<lparr>wo_now = (\<lambda>_. 0), wo_sleep = (\<lambda>_ w. w), wo_random = (\<lambda>w. (0, w)), wo_timestamp = (\<lambda>_. ''t''),
      wo_upsert = (\<lambda>_ w. Inr w), wo_registry = (\<lambda>p. Inr (sample_adapter p))\<rparr>"

definition sample_gateway_config :: "chains \<Rightarrow> gateway_config" where
  "sample_gateway_config cs =
     \<lparr>gc_retry = \<lparr>max_retries = 0, base_delay_ms = 0, max_delay_ms = 0\<rparr>, gc_capabilities = [],
      gc_fallback = new_fallback cs,
      gc_policy = \<lparr>pe_rules = None, pe_clock = \<lparr>day_start = [], week_start = [], month_start = [], minute_bucket = []\<rparr>\<rparr>,
      gc_parse_list = (\<lambda>_. None)\<rparr>"

definition sample_gateway :: "unit gateway" where
  "sample_gateway =
     \<lparr>gw_breaker = new_breaker 3 0, gw_router = new_router Engine.sample_config, gw_world = ()\<rparr>"

definition chain_ends :: chains where
  "chain_ends = [(''x'', [''b/y''])]"

definition chain_turns :: chains where
  "chain_turns = [(''x'', [''a/y'']), (''y'', [''a/x''])]"

definition first_turn :: "((api_error + provider_call_outcome) + string \<times> string) \<times> nat \<times> unit gateway" where
  "first_turn = failover_turn sample_ops (sample_gateway_config chain_ends) empty_db sample_user JNull False ''x''
     (''a'', ''x'') 0 0 sample_gateway"

lemma sample_answer:
  obtains out g' where
    "complete_with_retry_and_fallback sample_ops (sample_gateway_config chain_ends) empty_db sample_user JNull False
      (''a'', ''x'') ''x'' sample_gateway = Some (Inr out, g')"
    and "po_provider out = ''b''" "po_model out = ''y''" "po_fallbacks out = 1"
proof -
  let ?second = "failover_turn sample_ops (sample_gateway_config chain_ends) empty_db sample_user JNull False ''x''
     (''b'', ''y'') (fst (snd first_turn)) 1 (snd (snd first_turn))"
  have t1: "fst first_turn = Inr (''b'', ''y'')" by code_simp
  have t2: "case fst ?second of
      Inl (Inr out) \<Rightarrow> po_provider out = ''b'' \<and> po_model out = ''y'' \<and> po_fallbacks out = 1
    | _ \<Rightarrow> False" by code_simp
  then obtain out where o: "fst ?second = Inl (Inr out)" "po_provider out = ''b''" "po_model out = ''y''" "po_fallbacks out = 1"
    by (auto split: sum.splits)
  have e1: "failover_turn sample_ops (sample_gateway_config chain_ends) empty_db sample_user JNull False ''x''
     (''a'', ''x'') 0 0 sample_gateway = (Inr (''b'', ''y''), fst (snd first_turn), snd (snd first_turn))"
    using t1 by (metis first_turn_def prod.collapse)
  have e2: "?second = (Inl (Inr out), fst (snd ?second), snd (snd ?second))" using o(1) by (metis prod.collapse)
  have "complete_with_retry_and_fallback sample_ops (sample_gateway_config chain_ends) empty_db sample_user JNull False
      (''a'', ''x'') ''x'' sample_gateway = Some (Inr out, snd (snd ?second))"
    unfolding complete_with_retry_and_fallback_def
    by (subst failover.simps, unfold e1 prod.case sum.case, subst failover.simps, unfold add_0, subst e2) (simp add: split_beta)
  then show ?thesis using that o by blast
qed

theorem failover_answer_is_permitted_witness:
  "router_is_available (gw_router sample_gateway) ''b'' ''y''
   \<and> model_permitted_denial (gc_parse_list (sample_gateway_config chain_ends))
       (gc_policy (sample_gateway_config chain_ends)) empty_db sample_user ''y'' = Inr None"
proof -
  obtain out g' where r: "complete_with_retry_and_fallback sample_ops (sample_gateway_config chain_ends) empty_db
      sample_user JNull False (''a'', ''x'') ''x'' sample_gateway = Some (Inr out, g')"
    and o: "po_provider out = ''b''" "po_model out = ''y''" "po_fallbacks out = 1"
    by (rule sample_answer)
  from failover_answer_is_permitted [OF r] o show ?thesis by (simp add: Let_def)
qed

text \<open>On the first chain the failover descends from \<open>x\<close> to \<open>y\<close>.\<close>

lemma chain_ends_next:
  assumes "next_available_fallback_with_policy sample_ops (sample_gateway_config chain_ends) (gw_router sample_gateway)
    empty_db sample_user m False = Some q"
  shows "m = ''x'' \<and> q = (''b'', ''y'')"
proof -
  have na: "next_after (new_fallback chain_ends) m = (if m = ''x'' then Some ''b/y'' else None)" for m
  proof -
    have "position m [''b/y''] = (if m = ''b/y'' then Some 0 else None)" by simp
    then show ?thesis by (auto simp: next_after_def new_fallback_def chain_ends_def list_get_def split: option.splits)
  qed
  have rs: "resolve (gw_router sample_gateway) ''b/y'' = (''b'', ''y'')" by code_simp
  have cfg: "gc_fallback (sample_gateway_config chain_ends) = new_fallback chain_ends"
    by (simp add: sample_gateway_config_def)
  have w: "fallback_walk n sample_ops (sample_gateway_config chain_ends) (gw_router sample_gateway) empty_db sample_user False m
      = Some q \<Longrightarrow> m = ''x'' \<and> q = (''b'', ''y'')" for n m
  proof (induction n arbitrary: m)
    case (Suc n)
    then show ?case by (cases "m = ''x''") (auto simp: cfg na rs split: if_splits)
  qed simp
  from w assms show ?thesis by (simp add: next_available_fallback_with_policy_def)
qed

theorem failover_ends_on_descending_chains_witness:
  "\<exists>r g'. complete_with_retry_and_fallback sample_ops (sample_gateway_config chain_ends) empty_db sample_user JNull False
      (''a'', ''x'') ''x'' sample_gateway = Some (r, g')
    \<and> (case r of Inr out \<Rightarrow> po_fallbacks out \<le> (if snd (''a'', ''x'') = ''x'' then 1 else 0) | Inl e \<Rightarrow> True)"
proof -
  have nt: "request_has_tools JNull = False" by (simp add: request_has_tools_def)
  have d: "(if snd q = ''x'' then 1 else 0) < (if m = ''x'' then 1 else (0::nat))"
    if "next_available_fallback_with_policy sample_ops (sample_gateway_config chain_ends) (gw_router sample_gateway)
      empty_db sample_user m (request_has_tools JNull) = Some q" for m q
    using chain_ends_next [of m q] that by (simp add: nt)
  show ?thesis
    by (rule failover_ends_on_descending_chains [where rank = "\<lambda>m. if m = ''x'' then 1 else 0"]) (rule d)
qed

theorem mutual_fallback_never_returns_witness:
  "complete_with_retry_and_fallback sample_ops (sample_gateway_config chain_turns) empty_db sample_user JNull False
     (''a'', ''x'') ''x'' sample_gateway = None"
proof (rule mutual_fallback_never_returns [where S = "{(''a'', ''x''), (''a'', ''y'')}"])
  fix q :: "string \<times> string" assume q: "q \<in> {(''a'', ''x''), (''a'', ''y'')}"
  then show "\<exists>ad. wo_registry sample_ops (fst q) = Inr ad \<and> (\<forall>rq w. \<exists>e w'. ad_complete ad rq w = (Inl e, w'))"
    by (auto simp: sample_ops_def sample_adapter_def)
  have "next_available_fallback_with_policy sample_ops (sample_gateway_config chain_turns) (gw_router sample_gateway)
      empty_db sample_user ''x'' (request_has_tools JNull) = Some (''a'', ''y'')"
    and "next_available_fallback_with_policy sample_ops (sample_gateway_config chain_turns) (gw_router sample_gateway)
      empty_db sample_user ''y'' (request_has_tools JNull) = Some (''a'', ''x'')"
    by code_simp+
  with q show "\<exists>q' \<in> {(''a'', ''x''), (''a'', ''y'')}.
      next_available_fallback_with_policy sample_ops (sample_gateway_config chain_turns) (gw_router sample_gateway)
        empty_db sample_user (snd q) (request_has_tools JNull) = Some q'"
    by auto
qed simp

end
