(* ===== verification/Attribution.thy ===== *)
theory Attribution
  imports Engine Cache_Request
begin

text \<open>
  Caller-supplied attribution (\<open>src/src/api/attribution.rs\<close>): correlation id, tags and project,
  read from the body or, field by field, from headers, and validated. Errors are the texts of the
  code, which the routes answer as \<open>InvalidRequest\<close>. The JSON parser and printer are the
  parameters \<open>parse\<close> and \<open>pr\<close>.
\<close>

section \<open>Constants and the record\<close>

definition correlation_header :: string where
  "correlation_header = ''x-attribution-correlation-id''"

definition tags_header :: string where
  "tags_header = ''x-attribution-tags''"

definition project_header :: string where
  "project_header = ''x-project''"

definition max_project_len :: nat where
  "max_project_len = 128"

definition max_correlation_len :: nat where
  "max_correlation_len = 128"

definition max_tags :: nat where
  "max_tags = 8"

definition max_tag_key_len :: nat where
  "max_tag_key_len = 64"

definition max_tag_value_len :: nat where
  "max_tag_value_len = 128"

definition max_tags_bytes :: nat where
  "max_tags_bytes = 1024"

record attribution =
  at_correlation_id :: "string option"
  at_tags :: "(string \<times> string) list"
  at_project :: "string option"

definition default_attribution :: attribution where
  "default_attribution = \<lparr>at_correlation_id = None, at_tags = [], at_project = None\<rparr>"

definition attribution_is_empty :: "attribution \<Rightarrow> bool" where
  "attribution_is_empty a \<longleftrightarrow> at_correlation_id a = None \<and> at_tags a = [] \<and> at_project a = None"

definition project_or :: "attribution \<Rightarrow> string option \<Rightarrow> string option" where
  "project_or a key_project = (case at_project a of Some p \<Rightarrow> Some p | None \<Rightarrow> key_project)"

definition tags_value :: "(string \<times> string) list \<Rightarrow> json" where
  "tags_value m = JObj (map (\<lambda>(k, v). (k, JStr v)) m)"

definition tags_json :: "(json \<Rightarrow> string) \<Rightarrow> attribution \<Rightarrow> string" where
  "tags_json pr a = pr (tags_value (at_tags a))"

section \<open>Validation\<close>

definition attr_header_str :: "headers \<Rightarrow> string \<Rightarrow> string option" where
  "attr_header_str hs name =
     (case map_of hs name of
        None \<Rightarrow> None
      | Some v \<Rightarrow>
          if \<not> list_all visible_ascii v then None
          else let t = trim v in if t = [] then None else Some t)"

definition is_safe :: "string \<Rightarrow> bool" where
  "is_safe s \<longleftrightarrow> list_all (\<lambda>c. is_graphic c \<or> c = CHR '' '') s"

definition is_safe_tag_key :: "string \<Rightarrow> bool" where
  "is_safe_tag_key s \<longleftrightarrow> s \<noteq> [] \<and> list_all (\<lambda>c. is_alnum c \<or> c \<in> set ''_-.:'') s"

definition validate_project :: "string \<Rightarrow> string + string" where
  "validate_project raw =
     (let v = trim raw
      in if v = [] then Inl ''attribution.project must not be empty''
         else if max_project_len < char_count v
         then Inl (''attribution.project must be at most '' @ show_nat max_project_len @ '' characters'')
         else Inr v)"

definition validate_correlation_id_field :: "string \<Rightarrow> string \<Rightarrow> string + string" where
  "validate_correlation_id_field field raw =
     (let v = trim raw
      in if v = [] then Inl (field @ '' must not be empty'')
         else if max_correlation_len < char_count v
         then Inl (field @ '' must be at most '' @ show_nat max_correlation_len @ '' characters'')
         else if \<not> is_safe v then Inl (field @ '' contains unsupported characters'')
         else Inr v)"

definition validate_correlation_id :: "string \<Rightarrow> string + string" where
  "validate_correlation_id raw = validate_correlation_id_field ''attribution.correlation_id'' raw"

definition tag_key_error :: "string \<Rightarrow> string option" where
  "tag_key_error key =
     (if key = [] then Some ''attribution.tags keys must not be empty''
      else if max_tag_key_len < char_count key
      then Some (''attribution.tags key '' @ quoted key @ '' exceeds '' @ show_nat max_tag_key_len @ '' characters'')
      else if \<not> is_safe_tag_key key
      then Some (''attribution.tags key '' @ quoted key @ '' must contain only letters, digits, ''
                 @ quoted ''_'' @ '', '' @ quoted ''-'' @ '', '' @ quoted ''.'' @ '' or '' @ quoted '':'')
      else None)"

definition tag_text :: "(json \<Rightarrow> string) \<Rightarrow> json \<Rightarrow> string option" where
  "tag_text pr v =
     (case v of
        JStr s \<Rightarrow> Some (trim s)
      | JNum n \<Rightarrow> Some (pr (JNum n))
      | JBool b \<Rightarrow> Some (if b then ''true'' else ''false'')
      | _ \<Rightarrow> None)"

definition tag_entry :: "(json \<Rightarrow> string) \<Rightarrow> string \<times> json \<Rightarrow> string + string \<times> string" where
  "tag_entry pr kv =
     (let key = trim (fst kv)
      in case tag_key_error key of
           Some e \<Rightarrow> Inl e
         | None \<Rightarrow>
             (case tag_text pr (snd kv) of
                None \<Rightarrow> Inl (''attribution.tags value for '' @ quoted key @ '' must be a string, number or boolean'')
              | Some val \<Rightarrow>
                  if max_tag_value_len < char_count val
                  then Inl (''attribution.tags value for '' @ quoted key @ '' exceeds '' @ show_nat max_tag_value_len
                            @ '' characters'')
                  else if \<not> is_safe val
                  then Inl (''attribution.tags value for '' @ quoted key @ '' contains unsupported characters'')
                  else Inr (key, val)))"

fun tags_loop :: "(json \<Rightarrow> string) \<Rightarrow> (string \<times> json) list \<Rightarrow> (string \<times> string) list \<Rightarrow> string + (string \<times> string) list" where
  "tags_loop pr [] out = Inr out"
| "tags_loop pr (kv # kvs) out =
     (case tag_entry pr kv of
        Inl e \<Rightarrow> Inl e
      | Inr e \<Rightarrow> tags_loop pr kvs (bt_insert (fst e) (snd e) out))"

definition validate_tags :: "(json \<Rightarrow> string) \<Rightarrow> json \<Rightarrow> string + (string \<times> string) list" where
  "validate_tags pr value =
     (case as_object value of
        None \<Rightarrow> Inl ''attribution.tags must be an object''
      | Some obj \<Rightarrow>
          if max_tags < length obj
          then Inl (''attribution.tags must have at most '' @ show_nat max_tags @ '' entries'')
          else bind_sum (tags_loop pr obj [])
                 (\<lambda>out. if max_tags_bytes < length (pr (tags_value out))
                        then Inl (''attribution.tags must serialise to at most '' @ show_nat max_tags_bytes @ '' bytes'')
                        else Inr out))"

section \<open>Extraction\<close>

definition body_string ::
  "(string \<Rightarrow> string + string) \<Rightarrow> string \<Rightarrow> json option \<Rightarrow> string + string option" where
  "body_string validate msg v =
     (case v of
        None \<Rightarrow> Inr None
      | Some JNull \<Rightarrow> Inr None
      | Some (JStr s) \<Rightarrow> bind_sum (validate s) (\<lambda>x. Inr (Some x))
      | Some _ \<Rightarrow> Inl msg)"

definition known_field :: "string \<Rightarrow> bool" where
  "known_field k \<longleftrightarrow> k = ''correlation_id'' \<or> k = ''tags'' \<or> k = ''project''"

definition attribution_from_value :: "(json \<Rightarrow> string) \<Rightarrow> json \<Rightarrow> string + attribution" where
  "attribution_from_value pr value =
     (case as_object value of
        None \<Rightarrow> Inl ''attribution must be an object''
      | Some obj \<Rightarrow>
          (case find (\<lambda>kv. \<not> known_field (fst kv)) obj of
             Some kv \<Rightarrow> Inl (''unknown attribution field: '' @ fst kv)
           | None \<Rightarrow>
               bind_sum (body_string validate_correlation_id ''attribution.correlation_id must be a string''
                           (map_of obj ''correlation_id'')) (\<lambda>cid.
               bind_sum (case map_of obj ''tags'' of
                           None \<Rightarrow> Inr []
                         | Some v \<Rightarrow> if v = JNull then Inr [] else validate_tags pr v) (\<lambda>tags.
               bind_sum (body_string validate_project ''attribution.project must be a string''
                           (map_of obj ''project'')) (\<lambda>project.
               Inr \<lparr>at_correlation_id = cid, at_tags = tags, at_project = project\<rparr>)))))"

definition attribution_body :: "(json \<Rightarrow> string) \<Rightarrow> json \<Rightarrow> string + attribution" where
  "attribution_body pr body =
     (case jget_opt body ''attribution'' of
        None \<Rightarrow> Inr default_attribution
      | Some v \<Rightarrow> if v = JNull then Inr default_attribution else attribution_from_value pr v)"

text \<open>The headers fill in, one by one, what the body left out.\<close>

definition fill_correlation :: "headers \<Rightarrow> attribution \<Rightarrow> string + attribution" where
  "fill_correlation hs out =
     (case attr_header_str hs correlation_header of
        Some raw \<Rightarrow>
          if at_correlation_id out = None
          then bind_sum (validate_correlation_id raw) (\<lambda>c. Inr (out\<lparr>at_correlation_id := Some c\<rparr>)) else Inr out
      | None \<Rightarrow> Inr out)"

definition fill_tags ::
  "(string \<Rightarrow> json option) \<Rightarrow> (json \<Rightarrow> string) \<Rightarrow> headers \<Rightarrow> attribution \<Rightarrow> string + attribution" where
  "fill_tags parse pr hs out =
     (case attr_header_str hs tags_header of
        Some raw \<Rightarrow>
          if at_tags out = []
          then (case parse raw of
                  None \<Rightarrow> Inl ''x-attribution-tags must be a JSON object''
                | Some v \<Rightarrow> bind_sum (validate_tags pr v) (\<lambda>t. Inr (out\<lparr>at_tags := t\<rparr>)))
          else Inr out
      | None \<Rightarrow> Inr out)"

definition fill_project :: "headers \<Rightarrow> attribution \<Rightarrow> string + attribution" where
  "fill_project hs out =
     (case attr_header_str hs project_header of
        Some raw \<Rightarrow>
          if at_project out = None
          then bind_sum (validate_project raw) (\<lambda>p. Inr (out\<lparr>at_project := Some p\<rparr>)) else Inr out
      | None \<Rightarrow> Inr out)"

definition attribution_extract ::
  "(string \<Rightarrow> json option) \<Rightarrow> (json \<Rightarrow> string) \<Rightarrow> json \<Rightarrow> headers \<Rightarrow> string + attribution" where
  "attribution_extract parse pr body hs =
     bind_sum (attribution_body pr body) (\<lambda>out.
     bind_sum (fill_correlation hs out) (\<lambda>out.
     bind_sum (fill_tags parse pr hs out) (fill_project hs)))"

definition attribution_from_headers ::
  "(string \<Rightarrow> json option) \<Rightarrow> (json \<Rightarrow> string) \<Rightarrow> headers \<Rightarrow> string + attribution" where
  "attribution_from_headers parse pr hs = attribution_extract parse pr JNull hs"

definition attribution_error :: "string + 'a \<Rightarrow> api_error + 'a" where
  "attribution_error r = (case r of Inl m \<Rightarrow> Inl (InvalidRequest m) | Inr x \<Rightarrow> Inr x)"

section \<open>Well-formed attribution\<close>

definition correlation_ok :: "string \<Rightarrow> bool" where
  "correlation_ok s \<longleftrightarrow> s \<noteq> [] \<and> trim s = s \<and> char_count s \<le> 128 \<and> is_safe s"

definition project_ok :: "string \<Rightarrow> bool" where
  "project_ok s \<longleftrightarrow> s \<noteq> [] \<and> trim s = s \<and> char_count s \<le> 128"

definition tag_ok :: "string \<times> string \<Rightarrow> bool" where
  "tag_ok kv \<longleftrightarrow> is_safe_tag_key (fst kv) \<and> char_count (fst kv) \<le> 64 \<and> is_safe (snd kv) \<and> char_count (snd kv) \<le> 128"

text \<open>What the ledger columns rely on: bounded texts, keys that need no quoting, one entry per key.\<close>

definition attribution_ok :: "(json \<Rightarrow> string) \<Rightarrow> attribution \<Rightarrow> bool" where
  "attribution_ok pr a \<longleftrightarrow>
     (case at_correlation_id a of Some c \<Rightarrow> correlation_ok c | None \<Rightarrow> True)
     \<and> (case at_project a of Some p \<Rightarrow> project_ok p | None \<Rightarrow> True)
     \<and> bt_ok (at_tags a) \<and> length (at_tags a) \<le> 8 \<and> list_all tag_ok (at_tags a)
     \<and> (at_tags a = [] \<or> length (tags_json pr a) \<le> 1024)"

lemma default_attribution_ok [simp]: "attribution_ok pr default_attribution"
  by (simp add: attribution_ok_def default_attribution_def)

lemma validate_correlation_id_ok: "validate_correlation_id raw = Inr v \<Longrightarrow> correlation_ok v"
  by (auto simp: validate_correlation_id_def validate_correlation_id_field_def correlation_ok_def max_correlation_len_def
      Let_def split: if_splits)

lemma validate_project_ok: "validate_project raw = Inr v \<Longrightarrow> project_ok v"
  by (auto simp: validate_project_def project_ok_def max_project_len_def Let_def split: if_splits)

lemma tag_entry_ok: "tag_entry pr kv = Inr e \<Longrightarrow> tag_ok e"
  by (auto simp: tag_entry_def tag_key_error_def tag_ok_def max_tag_key_len_def max_tag_value_len_def Let_def
      split: if_splits option.splits)

lemma length_bt_insert_le: "length (bt_insert k v m) \<le> Suc (length m)"
  by (induction m) auto

lemma tags_loop_ok:
  assumes "tags_loop pr kvs out = Inr m" and "bt_ok out" and "list_all tag_ok out"
  shows "bt_ok m \<and> list_all tag_ok m \<and> length m \<le> length kvs + length out"
  using assms
proof (induction kvs arbitrary: out)
  case (Cons kv kvs)
  then obtain e where e: "tag_entry pr kv = Inr e" by (auto split: sum.splits)
  have "list_all tag_ok (bt_insert (fst e) (snd e) out)"
    using Cons.prems(3) tag_entry_ok [OF e] set_bt_insert [of "fst e" "snd e" out] by (auto simp: list_all_iff)
  with Cons.IH [of "bt_insert (fst e) (snd e) out"] Cons.prems e length_bt_insert_le [of "fst e" "snd e" out]
  show ?case by (auto simp: bt_ok_insert)
qed auto

lemma validate_tags_ok:
  assumes "validate_tags pr v = Inr m"
  shows "bt_ok m \<and> list_all tag_ok m \<and> length m \<le> 8 \<and> length (pr (tags_value m)) \<le> 1024"
proof -
  from assms obtain obj where o: "as_object v = Some obj" "length obj \<le> 8" "tags_loop pr obj [] = Inr m"
    "length (pr (tags_value m)) \<le> 1024"
    by (auto simp: validate_tags_def max_tags_def max_tags_bytes_def bind_sum_Inr_iff split: option.splits if_splits)
  from tags_loop_ok [OF o(3)] o show ?thesis by simp
qed

lemma body_string_ok: "body_string f msg v = Inr (Some x) \<Longrightarrow> \<exists>s. f s = Inr x"
  by (auto simp: body_string_def bind_sum_Inr_iff split: option.splits json.splits)

lemma from_value_ok:
  assumes "attribution_from_value pr v = Inr a"
  shows "attribution_ok pr a"
proof -
  from assms obtain obj c t p where a: "a = \<lparr>at_correlation_id = c, at_tags = t, at_project = p\<rparr>"
    and c: "body_string validate_correlation_id ''attribution.correlation_id must be a string''
      (map_of obj ''correlation_id'') = Inr c"
    and t: "(case map_of obj ''tags'' of None \<Rightarrow> Inr [] | Some v \<Rightarrow> if v = JNull then Inr [] else validate_tags pr v) = Inr t"
    and p: "body_string validate_project ''attribution.project must be a string'' (map_of obj ''project'') = Inr p"
    by (auto simp: attribution_from_value_def bind_sum_Inr_iff split: option.splits)
  from c have "case c of Some x \<Rightarrow> correlation_ok x | None \<Rightarrow> True"
    by (cases c) (auto dest!: body_string_ok validate_correlation_id_ok)
  moreover from p have "case p of Some x \<Rightarrow> project_ok x | None \<Rightarrow> True"
    by (cases p) (auto dest!: body_string_ok validate_project_ok)
  moreover from t have "bt_ok t \<and> length t \<le> 8 \<and> list_all tag_ok t \<and> (t = [] \<or> length (pr (tags_value t)) \<le> 1024)"
    by (auto dest: validate_tags_ok split: option.splits if_splits)
  ultimately show ?thesis by (simp add: a attribution_ok_def tags_json_def)
qed

lemma attribution_body_ok: "attribution_body pr body = Inr a \<Longrightarrow> attribution_ok pr a"
  by (auto simp: attribution_body_def from_value_ok split: option.splits if_splits)

lemma fill_correlation_ok: "fill_correlation hs a = Inr b \<Longrightarrow> attribution_ok pr a \<Longrightarrow> attribution_ok pr b"
  by (auto simp: fill_correlation_def attribution_ok_def tags_json_def bind_sum_Inr_iff
      dest!: validate_correlation_id_ok split: option.splits if_splits)

lemma fill_tags_ok: "fill_tags parse pr hs a = Inr b \<Longrightarrow> attribution_ok pr a \<Longrightarrow> attribution_ok pr b"
  by (auto simp: fill_tags_def attribution_ok_def tags_json_def bind_sum_Inr_iff
      dest!: validate_tags_ok split: option.splits if_splits)

lemma fill_project_ok: "fill_project hs a = Inr b \<Longrightarrow> attribution_ok pr a \<Longrightarrow> attribution_ok pr b"
  by (auto simp: fill_project_def attribution_ok_def tags_json_def bind_sum_Inr_iff
      dest!: validate_project_ok split: option.splits if_splits)

section \<open>Properties\<close>

text \<open>
  C32. Whatever the body, the headers and the JSON library do, an attribution that is accepted is
  well formed: trimmed, bounded, printable ids; at most eight tags with ascending keys that are
  safe inside a JSON path, and values and an encoding within their bounds.
\<close>

theorem accepted_attribution_is_well_formed:
  "case attribution_extract parse pr body hs of Inr a \<Rightarrow> attribution_ok pr a | Inl e \<Rightarrow> True"
  by (auto simp: attribution_extract_def bind_sum_Inr_iff
      dest!: fill_project_ok fill_tags_ok fill_correlation_ok attribution_body_ok split: sum.split)

end
