(* ===== verification/Experiments.thy ===== *)
theory Experiments
  imports Attribution
begin

text \<open>
  Controlled experiments: the rows and their life cycle (\<open>src/src/db/sqlite/experiments.rs\<close>,
  \<open>src/src/db/repositories/experiments.rs\<close>) and the in-memory registry a request is bound against
  (\<open>src/src/router/experiments.rs\<close>). The JSON columns of a row are kept decoded; \<open>bind\<close> indexes a
  map and so may panic, which is the outer \<open>None\<close> of its result.
\<close>

section \<open>Rows\<close>

record variant_target =
  vt_target :: string
  vt_provider :: string
  vt_model :: string

type_synonym experiment_variants = "(string \<times> (string \<times> variant_target) list) list"

datatype experiment_status = ExpActive | ExpClosed

definition status_as_str :: "experiment_status \<Rightarrow> string" where
  "status_as_str s = (case s of ExpActive \<Rightarrow> ''active'' | ExpClosed \<Rightarrow> ''closed'')"

definition status_parse :: "string \<Rightarrow> string + experiment_status" where
  "status_parse s =
     (if s = ''active'' then Inr ExpActive
      else if s = ''closed'' then Inr ExpClosed
      else Inl (''unknown experiment status: '' @ s))"

record experiment_row =
  ex_id :: int
  ex_name :: string
  ex_variants :: experiment_variants
  ex_allowed_user_ids :: "int list"
  ex_status :: experiment_status
  ex_feed_learning :: bool
  ex_expires_at :: int
  ex_created_at :: string
  ex_closed_at :: "string option"
  ex_retain_content :: bool
  ex_content_retention_days :: int

record new_experiment =
  nx_name :: string
  nx_variants :: experiment_variants
  nx_allowed_user_ids :: "int list"
  nx_feed_learning :: bool
  nx_expires_at :: int
  nx_retain_content :: bool
  nx_content_retention_days :: int

text \<open>The table, and the highest id ever assigned (\<open>AUTOINCREMENT\<close> never reuses one).\<close>

record experiment_table =
  et_rows :: "experiment_row list"
  et_last_id :: int

definition create_experiment ::
  "string \<Rightarrow> experiment_table \<Rightarrow> new_experiment \<Rightarrow> (string + experiment_row) \<times> experiment_table" where
  "create_experiment now t x =
     (if nx_name x \<in> ex_name ` set (et_rows t)
      then (Inl ''UNIQUE constraint failed: experiments.name'', t)
      else let row =
             \<lparr>ex_id = et_last_id t + 1, ex_name = nx_name x, ex_variants = nx_variants x,
              ex_allowed_user_ids = nx_allowed_user_ids x, ex_status = ExpActive,
              ex_feed_learning = nx_feed_learning x, ex_expires_at = nx_expires_at x, ex_created_at = now,
              ex_closed_at = None, ex_retain_content = nx_retain_content x,
              ex_content_retention_days = nx_content_retention_days x\<rparr>
           in (Inr row, t\<lparr>et_rows := et_rows t @ [row], et_last_id := et_last_id t + 1\<rparr>))"

definition get_experiment :: "experiment_table \<Rightarrow> int \<Rightarrow> experiment_row option" where
  "get_experiment t i = find (\<lambda>e. ex_id e = i) (et_rows t)"

datatype status_filter = FilterAll | FilterActive | FilterClosed

definition status_matches :: "status_filter \<Rightarrow> experiment_row \<Rightarrow> bool" where
  "status_matches f e =
     (case f of
        FilterAll \<Rightarrow> True
      | FilterActive \<Rightarrow> ex_status e = ExpActive
      | FilterClosed \<Rightarrow> ex_status e = ExpClosed)"

definition list_experiments :: "experiment_table \<Rightarrow> status_filter \<Rightarrow> experiment_row list" where
  "list_experiments t f = rev (sort_key ex_id (filter (status_matches f) (et_rows t)))"

definition close_row :: "string \<Rightarrow> experiment_row \<Rightarrow> experiment_row" where
  "close_row closed_at e = e\<lparr>ex_status := ExpClosed, ex_closed_at := Some closed_at\<rparr>"

definition close_experiment :: "experiment_table \<Rightarrow> int \<Rightarrow> string \<Rightarrow> bool \<times> experiment_table" where
  "close_experiment t i closed_at =
     (let hit = (\<lambda>e. ex_id e = i \<and> ex_status e = ExpActive)
      in (list_ex hit (et_rows t),
          t\<lparr>et_rows := map (\<lambda>e. if hit e then close_row closed_at e else e) (et_rows t)\<rparr>))"

definition expired_at :: "int \<Rightarrow> experiment_row \<Rightarrow> bool" where
  "expired_at now_epoch e \<longleftrightarrow> ex_status e = ExpActive \<and> 0 < ex_expires_at e \<and> ex_expires_at e \<le> now_epoch"

definition close_expired :: "experiment_table \<Rightarrow> int \<Rightarrow> string \<Rightarrow> int list \<times> experiment_table" where
  "close_expired t now_epoch closed_at =
     (map ex_id (filter (expired_at now_epoch) (et_rows t)),
      t\<lparr>et_rows := map (\<lambda>e. if expired_at now_epoch e then close_row closed_at e else e) (et_rows t)\<rparr>)"

text \<open>
  Instants are nanoseconds since the epoch; \<open>rfc\<close> parses an RFC 3339 text (the date library). A
  closed row whose closing time is missing or unreadable counts as elapsed.
\<close>

definition day_ns :: int where
  "day_ns = 86400000000000"

definition retention_window_open :: "(string \<Rightarrow> int option) \<Rightarrow> int \<Rightarrow> experiment_row \<Rightarrow> bool" where
  "retention_window_open rfc now e =
     (if ex_status e = ExpActive then True
      else if ex_content_retention_days e = 0 then True
      else case Option.bind (ex_closed_at e) rfc of
             None \<Rightarrow> False
           | Some closing \<Rightarrow> now < closing + ex_content_retention_days e * day_ns)"

definition all_retaining_open_or_within_window ::
  "(string \<Rightarrow> int option) \<Rightarrow> experiment_table \<Rightarrow> int \<Rightarrow> experiment_row list" where
  "all_retaining_open_or_within_window rfc t now =
     filter (retention_window_open rfc now) (sort_key ex_id (filter ex_retain_content (et_rows t)))"

definition closed_retaining :: "experiment_table \<Rightarrow> experiment_row list" where
  "closed_retaining t =
     sort_key ex_id (filter (\<lambda>e. ex_retain_content e \<and> ex_status e = ExpClosed) (et_rows t))"

section \<open>The registry\<close>

definition experiment_header :: string where
  "experiment_header = ''x-modelrouter-experiment''"

definition max_header_len :: nat where
  "max_header_len = 128"

definition max_label_len :: nat where
  "max_label_len = 64"

record experiment_snapshot =
  sn_status :: experiment_status
  sn_expires_at :: int
  sn_allowed_user_ids :: "int list"
  sn_labels :: "string list"
  sn_overlays :: "(string \<times> (string \<times> string) list) list"
  sn_retain_content :: bool

definition pin :: "variant_target \<Rightarrow> string" where
  "pin t = vt_provider t @ ''/'' @ vt_model t"

definition snapshot_of :: "experiment_row \<Rightarrow> experiment_snapshot" where
  "snapshot_of e =
     (let overlays = bt_from_list
            (map (\<lambda>(label, targets). (label, bt_from_list (map (\<lambda>(name, t). (name, pin t)) targets))) (ex_variants e))
      in \<lparr>sn_status = ex_status e, sn_expires_at = ex_expires_at e,
          sn_allowed_user_ids = ex_allowed_user_ids e, sn_labels = map fst overlays,
          sn_overlays = overlays, sn_retain_content = ex_retain_content e\<rparr>)"

type_synonym experiment_registry = "int \<rightharpoonup> experiment_snapshot"

definition snapshot_from :: "experiment_row list \<Rightarrow> experiment_registry" where
  "snapshot_from rows = map_of (rev (map (\<lambda>e. (ex_id e, snapshot_of e)) rows))"

text \<open>A failing repository call (\<open>Inl\<close>) leaves the previous map in place.\<close>

definition load_from ::
  "experiment_registry \<Rightarrow> string + experiment_row list \<Rightarrow> (string + unit) \<times> experiment_registry" where
  "load_from reg rows = (case rows of Inl e \<Rightarrow> (Inl e, reg) | Inr rs \<Rightarrow> (Inr (), snapshot_from rs))"

record binding =
  bd_experiment_id :: int
  bd_variant :: string
  bd_overlay :: "(string \<times> string) list"
  bd_retain_content :: bool

datatype bind_error =
    DuplicateHeader
  | HeaderTooLong
  | Malformed
  | InvalidId string
  | LabelTooLong
  | UnknownExperiment int
  | ExperimentClosed int
  | ExperimentExpired int
  | UserNotAllowed int int
  | MissingCorrelationId
  | UnknownVariant int string
  | MissingSessionId
  | SessionIdNotString
  | NoVariants int
  | NotSupportedHere

definition experiment_msg :: "int \<Rightarrow> string \<Rightarrow> string" where
  "experiment_msg i rest = experiment_header @ '': experiment '' @ show_int i @ rest"

definition bind_error_text :: "bind_error \<Rightarrow> string" where
  "bind_error_text e =
     (case e of
        DuplicateHeader \<Rightarrow> experiment_header @ '' must appear at most once''
      | HeaderTooLong \<Rightarrow> experiment_header @ '' must be at most '' @ show_nat max_header_len @ '' bytes''
      | Malformed \<Rightarrow>
          experiment_header @ '' must be `<id>` or `<id>:<label>` (label: [A-Za-z0-9_.-], at most ''
          @ show_nat max_label_len @ '' characters)''
      | InvalidId raw \<Rightarrow> experiment_header @ '': '' @ quoted raw @ '' is not a positive experiment id''
      | LabelTooLong \<Rightarrow> experiment_header @ '': label must be at most '' @ show_nat max_label_len @ '' characters''
      | UnknownExperiment i \<Rightarrow> experiment_msg i '' not found''
      | ExperimentClosed i \<Rightarrow> experiment_msg i '' is closed''
      | ExperimentExpired i \<Rightarrow> experiment_msg i '' has expired''
      | UserNotAllowed i u \<Rightarrow>
          experiment_header @ '': user '' @ show_int u @ '' is not allowed in experiment '' @ show_int i
      | MissingCorrelationId \<Rightarrow> ''attribution.correlation_id is required when '' @ experiment_header @ '' is set''
      | UnknownVariant i l \<Rightarrow> experiment_msg i ('' has no variant '' @ quoted l)
      | MissingSessionId \<Rightarrow> ''session_id is required when '' @ experiment_header @ '' names no variant''
      | SessionIdNotString \<Rightarrow> ''session_id must be a string''
      | NoVariants i \<Rightarrow> experiment_msg i '' has no variants''
      | NotSupportedHere \<Rightarrow> experiment_header @ '' is not supported on this endpoint'')"

definition header_values :: "headers \<Rightarrow> string \<Rightarrow> string list" where
  "header_values hs name = map snd (filter (\<lambda>kv. fst kv = name) hs)"

definition reject_header :: "headers \<Rightarrow> bind_error + unit" where
  "reject_header hs = (if header_values hs experiment_header \<noteq> [] then Inl NotSupportedHere else Inr ())"

definition is_label_byte :: "char \<Rightarrow> bool" where
  "is_label_byte b \<longleftrightarrow> is_alnum b \<or> b = CHR ''_'' \<or> b = CHR ''.'' \<or> b = CHR ''-''"

definition is_valid_label :: "string \<Rightarrow> bool" where
  "is_valid_label l \<longleftrightarrow> l \<noteq> [] \<and> length l \<le> max_label_len \<and> list_all is_label_byte l"

definition parse_id_label :: "string \<Rightarrow> bind_error + int \<times> string option" where
  "parse_id_label raw =
     (let (id_part, label) = (case split_once CHR '':'' raw of Some (i, l) \<Rightarrow> (i, Some l) | None \<Rightarrow> (raw, None))
      in case parse_i64 id_part of
           None \<Rightarrow> Inl (InvalidId id_part)
         | Some i \<Rightarrow>
             if i \<le> 0 then Inl (InvalidId id_part)
             else case label of
                    None \<Rightarrow> Inr (i, None)
                  | Some l \<Rightarrow>
                      if l = [] \<or> CHR '':'' \<in> set l then Inl Malformed
                      else if max_label_len < length l then Inl LabelTooLong
                      else Inr (i, Some l))"

definition parse_experiment_header :: "headers \<Rightarrow> bind_error + (int \<times> string option) option" where
  "parse_experiment_header hs =
     (case header_values hs experiment_header of
        [] \<Rightarrow> Inr None
      | value # rest \<Rightarrow>
          if rest \<noteq> [] then Inl DuplicateHeader
          else if max_header_len < length value then Inl HeaderTooLong
          else if \<not> list_all visible_ascii value then Inl Malformed
          else let raw = trim value
               in if raw = [] \<or> \<not> list_all (\<lambda>b. is_label_byte b \<or> b = CHR '':'') raw then Inl Malformed
                  else map_sum (\<lambda>e. e) Some (parse_id_label raw))"

definition fnv1a_64 :: "string \<Rightarrow> u64" where
  "fnv1a_64 bytes = foldl (\<lambda>h b. xor h (of_nat (of_char b)) * 0x100000001b3) 0xcbf29ce484222325 bytes"

text \<open>The variant an id-only header selects for a session.\<close>

definition session_variant :: "int \<Rightarrow> string \<Rightarrow> string list \<Rightarrow> string" where
  "session_variant i session labels =
     labels ! (unat (fnv1a_64 (show_int i @ '':'' @ session)) mod length labels)"

definition choose_variant :: "experiment_snapshot \<Rightarrow> int \<Rightarrow> string option \<Rightarrow> json \<Rightarrow> bind_error + string" where
  "choose_variant s i label body =
     (case label of
        Some l \<Rightarrow> if map_of (sn_overlays s) l = None then Inl (UnknownVariant i l) else Inr l
      | None \<Rightarrow>
          (case jget_opt body ''session_id'' of
             None \<Rightarrow> Inl MissingSessionId
           | Some v \<Rightarrow>
               (case v of
                  JNull \<Rightarrow> Inl MissingSessionId
                | JStr session \<Rightarrow> Inr (session_variant i session (sn_labels s))
                | _ \<Rightarrow> Inl SessionIdNotString)))"

definition bind_to :: "experiment_snapshot \<Rightarrow> int \<Rightarrow> string option \<Rightarrow> json \<Rightarrow> (bind_error + binding option) option" where
  "bind_to s i label body =
     (case choose_variant s i label body of
        Inl e \<Rightarrow> Some (Inl e)
      | Inr variant \<Rightarrow>
          map_option
            (\<lambda>overlay. Inr (Some \<lparr>bd_experiment_id = i, bd_variant = variant, bd_overlay = overlay,
                                  bd_retain_content = sn_retain_content s\<rparr>))
            (map_of (sn_overlays s) variant))"

definition bind_experiment ::
  "experiment_registry \<Rightarrow> headers \<Rightarrow> json \<Rightarrow> string option \<Rightarrow> int \<Rightarrow> int \<Rightarrow> (bind_error + binding option) option" where
  "bind_experiment reg hs body correlation_id uid now_epoch =
     (case parse_experiment_header hs of
        Inl e \<Rightarrow> Some (Inl e)
      | Inr None \<Rightarrow> Some (Inr None)
      | Inr (Some (i, label)) \<Rightarrow>
          (case reg i of
             None \<Rightarrow> Some (Inl (UnknownExperiment i))
           | Some s \<Rightarrow>
               if sn_status s \<noteq> ExpActive then Some (Inl (ExperimentClosed i))
               else if sn_expires_at s \<noteq> 0 \<and> sn_expires_at s \<le> now_epoch then Some (Inl (ExperimentExpired i))
               else if sn_allowed_user_ids s \<noteq> [] \<and> uid \<notin> set (sn_allowed_user_ids s)
               then Some (Inl (UserNotAllowed i uid))
               else if (case correlation_id of None \<Rightarrow> True | Some c \<Rightarrow> trim c = [])
               then Some (Inl MissingCorrelationId)
               else if sn_labels s = [] then Some (Inl (NoVariants i))
               else bind_to s i label body))"

section \<open>Facts\<close>

lemma trim_id: "(\<forall>c \<in> set s. \<not> is_ws c) \<Longrightarrow> trim s = s"
proof -
  assume a: "\<forall>c \<in> set s. \<not> is_ws c"
  then have "dropWhile is_ws s = s" by (cases s) auto
  moreover have "dropWhile is_ws (rev s) = rev s" using a by (cases s rule: rev_cases) auto
  ultimately show ?thesis by (simp add: trim_def)
qed

lemma alnum_plain: "is_alnum c \<Longrightarrow> visible_ascii c \<and> \<not> is_ws c \<and> c \<noteq> CHR '':''"
proof -
  assume "is_alnum c"
  then have r: "48 \<le> (of_char c :: nat)" "(of_char c :: nat) \<le> 122" "(of_char c :: nat) \<noteq> 58"
    unfolding is_alnum_def is_digit_def is_upper_def is_lower_def Let_def by auto
  then have c: "c \<noteq> CHR '' ''" "c \<noteq> CHR '':''" by auto
  have "visible_ascii c" unfolding visible_ascii_def using r by linarith
  moreover have "\<not> is_ws c" unfolding is_ws_def Let_def using r c by linarith
  ultimately show ?thesis using c by blast
qed

lemma label_byte_plain: "is_label_byte c \<Longrightarrow> visible_ascii c \<and> \<not> is_ws c \<and> c \<noteq> CHR '':''"
  unfolding is_label_byte_def by (elim disjE, rule alnum_plain) (simp_all add: visible_ascii_def is_ws_def)

lemma show_nat_label: "list_all is_label_byte (show_nat n)"
  using show_nat_digits [of n] by (auto simp: list_all_iff is_label_byte_def is_alnum_def)

lemma length_show_nat: "n < 10 ^ k \<Longrightarrow> 0 < k \<Longrightarrow> length (show_nat n) \<le> k"
proof (induction n arbitrary: k rule: show_nat.induct)
  case (1 n)
  show ?case
  proof (cases "n < 10")
    case True
    with "1.prems" show ?thesis by (subst show_nat.simps) simp
  next
    case False
    then have k: "1 < k" using "1.prems" by (cases "k = 1") auto
    then have "(10::nat) ^ k = 10 ^ (k - 1) * 10" by (cases k) simp_all
    then have "n div 10 < 10 ^ (k - 1)" using "1.prems"(1) by (metis less_mult_imp_div_less)
    from "1.IH" [OF False this] k have "length (show_nat (n div 10)) \<le> k - 1" by simp
    with False k show ?thesis by (subst show_nat.simps) simp
  qed
qed

lemma parse_i64_show: "0 < n \<Longrightarrow> n < 2 ^ 63 \<Longrightarrow> parse_i64 (show_nat n) = Some (int n)"
proof -
  assume n: "0 < n" "n < 2 ^ 63"
  obtain c cs where s: "show_nat n = c # cs" using show_nat_nonempty [of n] by (cases "show_nat n") auto
  then have d: "is_digit c" "list_all is_digit (c # cs)" using show_nat_digits [of n] by simp_all
  then have "c \<noteq> CHR ''-''" and "c \<noteq> CHR ''+''" by (auto simp: is_digit_def)
  moreover have "digits_val (c # cs) = n" using s by (metis digits_val_show_nat)
  ultimately show ?thesis using n d by (simp add: s parse_i64_def parse_unsigned_def)
qed

definition snapshot_ok :: "experiment_snapshot \<Rightarrow> bool" where
  "snapshot_ok s \<longleftrightarrow> sn_labels s = map fst (sn_overlays s) \<and> bt_ok (sn_overlays s)"

lemma snapshot_of_ok [simp]: "snapshot_ok (snapshot_of e)"
  by (simp add: snapshot_of_def snapshot_ok_def Let_def)

lemma snapshot_from_Some: "snapshot_from rows i = Some s \<Longrightarrow> \<exists>e \<in> set rows. ex_id e = i \<and> s = snapshot_of e"
  by (auto simp: snapshot_from_def dest!: map_of_SomeD)

lemma session_variant_in: "labels \<noteq> [] \<Longrightarrow> session_variant i session labels \<in> set labels"
  by (simp add: session_variant_def)

lemma choose_variant_known:
  assumes "snapshot_ok s" and "sn_labels s \<noteq> []" and "choose_variant s i label body = Inr v"
  shows "v \<in> set (sn_labels s)"
  using assms session_variant_in [OF assms(2)]
  by (auto simp: choose_variant_def snapshot_ok_def split: option.splits if_splits json.splits dest!: map_of_SomeD)
    (force dest!: map_of_SomeD)

lemma bind_to_bound:
  assumes "snapshot_ok s" and "sn_labels s \<noteq> []"
  shows "bind_to s i label body \<noteq> None"
    and "bind_to s i label body = Some (Inr r) \<Longrightarrow> \<exists>b. r = Some b \<and> bd_experiment_id b = i
      \<and> bd_variant b \<in> set (sn_labels s) \<and> map_of (sn_overlays s) (bd_variant b) = Some (bd_overlay b)
      \<and> bd_retain_content b = sn_retain_content s"
proof -
  have in_map: "v \<in> set (sn_labels s) \<Longrightarrow> map_of (sn_overlays s) v \<noteq> None" for v
    using assms(1) by (simp add: snapshot_ok_def map_of_eq_None_iff)
  from choose_variant_known [OF assms, of i label body] in_map
  show "bind_to s i label body \<noteq> None"
    by (auto simp: bind_to_def split: sum.split)
  from choose_variant_known [OF assms, of i label body]
  show "bind_to s i label body = Some (Inr r) \<Longrightarrow> \<exists>b. r = Some b \<and> bd_experiment_id b = i
      \<and> bd_variant b \<in> set (sn_labels s) \<and> map_of (sn_overlays s) (bd_variant b) = Some (bd_overlay b)
      \<and> bd_retain_content b = sn_retain_content s"
    by (auto simp: bind_to_def split: sum.splits)
qed

lemma parse_header_None: "parse_experiment_header hs = Inr None \<longleftrightarrow> header_values hs experiment_header = []"
  by (cases "parse_id_label (trim (hd (header_values hs experiment_header)))")
    (auto simp: parse_experiment_header_def Let_def split: list.splits if_splits)

lemma binding_total: "bind_experiment (snapshot_from rows) hs body cid uid now \<noteq> None"
proof -
  have "bind_to s i label body \<noteq> None" if "snapshot_from rows i = Some s" "sn_labels s \<noteq> []" for s i label
    by (rule bind_to_bound(1)) (use snapshot_from_Some [OF that(1)] that(2) in auto)
  then show ?thesis
    by (auto simp: bind_experiment_def split: sum.splits option.splits prod.splits)
qed

section \<open>Properties\<close>

text \<open>What a row says of a binding to it.\<close>

definition admits :: "experiment_row \<Rightarrow> string option \<Rightarrow> int \<Rightarrow> int \<Rightarrow> binding \<Rightarrow> bool" where
  "admits e correlation_id uid now b \<longleftrightarrow>
     bd_experiment_id b = ex_id e \<and> ex_status e = ExpActive
     \<and> (ex_expires_at e = 0 \<or> now < ex_expires_at e)
     \<and> (ex_allowed_user_ids e = [] \<or> uid \<in> set (ex_allowed_user_ids e))
     \<and> (\<exists>c. correlation_id = Some c \<and> trim c \<noteq> [])
     \<and> (\<exists>targets. (bd_variant b, targets) \<in> set (ex_variants e)
          \<and> bd_overlay b = bt_from_list (map (\<lambda>(name, t). (name, pin t)) targets))
     \<and> bd_retain_content b = ex_retain_content e"

lemma snapshot_overlay:
  assumes "map_of (sn_overlays (snapshot_of e)) v = Some ov"
  shows "\<exists>targets. (v, targets) \<in> set (ex_variants e) \<and> ov = bt_from_list (map (\<lambda>(name, t). (name, pin t)) targets)"
proof -
  from assms have "map_of (rev (map (\<lambda>(label, targets). (label, bt_from_list (map (\<lambda>(name, t). (name, pin t)) targets)))
      (ex_variants e))) v = Some ov"
    by (simp add: snapshot_of_def Let_def map_of_bt_from_list)
  then show ?thesis by (auto dest!: map_of_SomeD)
qed

lemma binding_of_snapshot:
  assumes "parse_experiment_header hs = Inr (Some (i, label))" and s: "snapshot_from rows i = Some s"
  shows "\<exists>r. bind_experiment (snapshot_from rows) hs body correlation_id uid now = Some r
    \<and> (case r of Inl e \<Rightarrow> True | Inr x \<Rightarrow> \<exists>b. x = Some b \<and> (\<exists>e \<in> set rows. admits e correlation_id uid now b))"
proof (cases "sn_status s = ExpActive \<and> (sn_expires_at s = 0 \<or> now < sn_expires_at s)
    \<and> (sn_allowed_user_ids s = [] \<or> uid \<in> set (sn_allowed_user_ids s))
    \<and> (\<exists>c. correlation_id = Some c \<and> trim c \<noteq> []) \<and> sn_labels s \<noteq> []")
  case False
  with assms show ?thesis by (auto simp: bind_experiment_def split: option.splits)
next
  case True
  from snapshot_from_Some [OF s] obtain e where e: "e \<in> set rows" "ex_id e = i" "s = snapshot_of e" by blast
  have fields: "sn_status s = ex_status e" "sn_expires_at s = ex_expires_at e"
    "sn_allowed_user_ids s = ex_allowed_user_ids e" "sn_retain_content s = ex_retain_content e"
    by (simp_all add: e(3) snapshot_of_def Let_def)
  have ok: "snapshot_ok s" by (simp add: e(3))
  note bt = bind_to_bound [OF ok, of i label body]
  from True bt(1) obtain r where r: "bind_to s i label body = Some r" by fastforce
  have run: "bind_experiment (snapshot_from rows) hs body correlation_id uid now = Some r"
    using True assms r by (auto simp: bind_experiment_def split: option.splits)
  show ?thesis
  proof (cases r)
    case (Inl x)
    with run show ?thesis by simp
  next
    case (Inr x)
    with r bt(2) [of x] True obtain b where b: "x = Some b" "bd_experiment_id b = i"
      "map_of (sn_overlays s) (bd_variant b) = Some (bd_overlay b)" "bd_retain_content b = sn_retain_content s"
      by auto
    have "admits e correlation_id uid now b"
      using True b snapshot_overlay [of e "bd_variant b" "bd_overlay b"] by (auto simp: admits_def e fields [symmetric])
    with run Inr e(1) b(1) show ?thesis by auto
  qed
qed


text \<open>
  A label the admin interface stores can be bound: the header \<open>id:label\<close> parses back to
  exactly that id and label.
\<close>

theorem stored_label_parses_back:
  assumes "is_valid_label l" and "0 < n" and "n < 2 ^ 63"
  shows "parse_experiment_header [(experiment_header, show_nat n @ '':'' @ l)] = Inr (Some (int n, Some l))"
proof -
  let ?v = "show_nat n @ '':'' @ l"
  have l: "l \<noteq> []" "length l \<le> 64" "list_all is_label_byte l"
    using assms(1) by (simp_all add: is_valid_label_def max_label_len_def)
  have d: "list_all is_label_byte (show_nat n)" by (rule show_nat_label)
  have "n < 10 ^ 19" using assms(3) by simp
  from length_show_nat [OF this] have len: "length ?v \<le> 128" using l by simp
  have vis: "list_all visible_ascii ?v" using d l label_byte_plain by (auto simp: list_all_iff visible_ascii_def)
  have "\<forall>c \<in> set ?v. \<not> is_ws c" using d l label_byte_plain by (auto simp: list_all_iff is_ws_def)
  then have t: "trim ?v = ?v" by (rule trim_id)
  have "split_once CHR '':'' (show_nat n @ CHR '':'' # l) = Some (show_nat n, l)" by (simp add: split_once_Some)
  moreover have "CHR '':'' \<notin> set l" using l label_byte_plain by (auto simp: list_all_iff)
  ultimately have "parse_id_label ?v = Inr (int n, Some l)"
    using parse_i64_show [OF assms(2,3)] l assms(2) by (simp add: parse_id_label_def max_label_len_def)
  moreover have "list_all (\<lambda>b. is_label_byte b \<or> b = CHR '':'') ?v" using d l by (auto simp: list_all_iff)
  ultimately show ?thesis using len vis
    by (simp add: parse_experiment_header_def header_values_def max_header_len_def t [simplified])
qed

theorem stored_label_parses_back_witness:
  "parse_experiment_header [(experiment_header, show_nat 42 @ '':'' @ ''gpt-5_b.2'')] = Inr (Some (int 42, Some ''gpt-5_b.2''))"
proof (rule stored_label_parses_back)
  show "is_valid_label ''gpt-5_b.2''" by code_simp
qed simp_all

text \<open>
  A session keeps its variant: two id-only requests with the same session id that bind to one
  experiment get the same variant, whoever sends them and whenever, and whatever else about the
  experiment or its registry changed, as long as its labels are the same.
\<close>

theorem session_keeps_its_variant:
  assumes "parse_experiment_header hs = Inr (Some (i, None))" and "parse_experiment_header hs' = Inr (Some (i, None))"
    and "jget_opt body ''session_id'' = Some (JStr session)" and "jget_opt body' ''session_id'' = Some (JStr session)"
    and "map_option sn_labels (reg i) = map_option sn_labels (reg' i)"
    and "bind_experiment reg hs body cid uid now = Some (Inr (Some b))"
    and "bind_experiment reg' hs' body' cid' uid' now' = Some (Inr (Some b'))"
  shows "bd_variant b = bd_variant b'"
proof -
  from assms(1,6) obtain s where s: "reg i = Some s" "bind_to s i None body = Some (Inr (Some b))"
    by (auto simp: bind_experiment_def split: option.splits if_splits)
  from assms(2,7) obtain s' where s': "reg' i = Some s'" "bind_to s' i None body' = Some (Inr (Some b'))"
    by (auto simp: bind_experiment_def split: option.splits if_splits)
  from s(2) assms(3) have "bd_variant b = session_variant i session (sn_labels s)"
    by (auto simp: bind_to_def choose_variant_def)
  moreover from s'(2) assms(4) have "bd_variant b' = session_variant i session (sn_labels s')"
    by (auto simp: bind_to_def choose_variant_def)
  ultimately show ?thesis using assms(5) s(1) s'(1) by simp
qed

definition sample_experiment :: experiment_row where
  "sample_experiment =
     \<lparr>ex_id = 1, ex_name = ''e'',
      ex_variants = [(''a'', [(''m'', \<lparr>vt_target = ''m'', vt_provider = ''p'', vt_model = ''x''\<rparr>)]), (''b'', [])],
      ex_allowed_user_ids = [], ex_status = ExpActive, ex_feed_learning = False, ex_expires_at = 0,
      ex_created_at = ''t'', ex_closed_at = None, ex_retain_content = False, ex_content_retention_days = 0\<rparr>"

lemma bare_id_parses:
  assumes "0 < n" and "n < 2 ^ 63"
  shows "parse_experiment_header [(experiment_header, show_nat n)] = Inr (Some (int n, None))"
proof -
  have d: "list_all is_label_byte (show_nat n)" by (rule show_nat_label)
  have "n < 10 ^ 19" using assms(2) by simp
  from length_show_nat [OF this] have len: "length (show_nat n) \<le> 128" by simp
  have vis: "list_all visible_ascii (show_nat n)" using d label_byte_plain by (auto simp: list_all_iff)
  have "\<forall>c \<in> set (show_nat n). \<not> is_ws c" using d label_byte_plain by (auto simp: list_all_iff)
  then have t: "trim (show_nat n) = show_nat n" by (rule trim_id)
  have "split_once CHR '':'' (show_nat n) = None" by (simp add: split_once_None)
  then have "parse_id_label (show_nat n) = Inr (int n, None)"
    using parse_i64_show [OF assms] assms(1) by (simp add: parse_id_label_def)
  moreover have "list_all (\<lambda>b. is_label_byte b \<or> b = CHR '':'') (show_nat n)" using d by (auto simp: list_all_iff)
  ultimately show ?thesis using len vis
    by (simp add: parse_experiment_header_def header_values_def max_header_len_def t)
qed

lemma sample_binds:
  "\<exists>b. bind_experiment (snapshot_from [sample_experiment]) [(experiment_header, show_nat 1)]
     (jobj [(''session_id'', JStr ''s'')]) (Some ''c'') uid now = Some (Inr (Some b))"
proof -
  let ?s = "snapshot_of sample_experiment" and ?body = "jobj [(''session_id'', JStr ''s'')]"
  have l: "sn_labels ?s = [''a'', ''b'']" by code_simp
  have "choose_variant ?s 1 None ?body = Inr (session_variant 1 ''s'' (sn_labels ?s))"
    by (simp add: choose_variant_def jget_opt_jobj)
  with bind_to_bound(1) [of ?s 1 None ?body] l obtain b where "bind_to ?s 1 None ?body = Some (Inr (Some b))"
    by (auto simp: bind_to_def split: sum.splits)
  then show ?thesis using bare_id_parses [of 1] l
    by (simp add: bind_experiment_def snapshot_from_def)
      (simp add: sample_experiment_def snapshot_of_def Let_def trim_def is_ws_def)
qed

theorem session_keeps_its_variant_witness:
  "\<exists>b b'. bind_experiment (snapshot_from [sample_experiment]) [(experiment_header, show_nat 1)]
       (jobj [(''session_id'', JStr ''s'')]) (Some ''c'') 1 5 = Some (Inr (Some b))
     \<and> bind_experiment (snapshot_from [sample_experiment]) [(experiment_header, show_nat 1)]
       (jobj [(''session_id'', JStr ''s'')]) (Some ''c'') 2 9 = Some (Inr (Some b'))
     \<and> bd_variant b = bd_variant b'"
proof -
  obtain b b' where b: "bind_experiment (snapshot_from [sample_experiment]) [(experiment_header, show_nat 1)]
      (jobj [(''session_id'', JStr ''s'')]) (Some ''c'') 1 5 = Some (Inr (Some b))"
    and b': "bind_experiment (snapshot_from [sample_experiment]) [(experiment_header, show_nat 1)]
      (jobj [(''session_id'', JStr ''s'')]) (Some ''c'') 2 9 = Some (Inr (Some b'))"
    using sample_binds by blast
  have h: "parse_experiment_header [(experiment_header, show_nat 1)] = Inr (Some (1, None))"
    using bare_id_parses [of 1] by simp
  have j: "jget_opt (jobj [(''session_id'', JStr ''s'')]) ''session_id'' = Some (JStr ''s'')" by (simp add: jget_opt_jobj)
  from session_keeps_its_variant [OF h h j j refl b b'] b b' show ?thesis by blast
qed

section \<open>The life of a row\<close>

datatype experiment_op =
    OpCreate string new_experiment
  | OpClose int string
  | OpCloseExpired int string

definition experiment_step :: "experiment_op \<Rightarrow> experiment_table \<Rightarrow> experiment_table" where
  "experiment_step op t =
     (case op of
        OpCreate now x \<Rightarrow> snd (create_experiment now t x)
      | OpClose i closed_at \<Rightarrow> snd (close_experiment t i closed_at)
      | OpCloseExpired now_epoch closed_at \<Rightarrow> snd (close_expired t now_epoch closed_at))"

text \<open>Unchanged, or closed once from active with the time of that one closing.\<close>

definition row_evolves :: "experiment_row \<Rightarrow> experiment_row \<Rightarrow> bool" where
  "row_evolves e e' \<longleftrightarrow> e' = e \<or> ex_status e = ExpActive \<and> (\<exists>ca. e' = close_row ca e)"

lemma row_evolves_trans: "row_evolves e e' \<Longrightarrow> row_evolves e' e'' \<Longrightarrow> row_evolves e e''"
  by (auto simp: row_evolves_def close_row_def)

definition table_ok :: "experiment_table \<Rightarrow> bool" where
  "table_ok t \<longleftrightarrow> distinct (map ex_id (et_rows t)) \<and> distinct (map ex_name (et_rows t))
     \<and> (\<forall>e \<in> set (et_rows t). ex_id e \<le> et_last_id t)"

lemma close_row_fields [simp]:
  "ex_id (close_row ca e) = ex_id e" "ex_name (close_row ca e) = ex_name e"
  by (simp_all add: close_row_def)

lemma map_closed [simp]:
  "map ex_id (map (\<lambda>e. if P e then close_row ca e else e) es) = map ex_id es"
  "map ex_name (map (\<lambda>e. if P e then close_row ca e else e) es) = map ex_name es"
  by (induction es) auto

lemma experiment_step_ok:
  assumes "table_ok t"
  shows "table_ok (experiment_step op t)"
    and "list_all2 row_evolves (et_rows t) (take (length (et_rows t)) (et_rows (experiment_step op t)))"
proof -
  have upd: "table_ok (t\<lparr>et_rows := map (\<lambda>e. if P e then close_row ca e else e) (et_rows t)\<rparr>)" for P ca
    using assms by (auto simp: table_ok_def simp del: map_map)
  have evo: "(\<And>e. P e \<Longrightarrow> ex_status e = ExpActive) \<Longrightarrow>
      list_all2 row_evolves (et_rows t) (map (\<lambda>e. if P e then close_row ca e else e) (et_rows t))" for P ca
    by (induction "et_rows t") (auto simp: list_all2_conv_all_nth row_evolves_def)
  have same: "list_all2 row_evolves es es" for es by (simp add: list_all2_conv_all_nth row_evolves_def)
  show "table_ok (experiment_step op t)"
    using assms upd
    by (cases op) (force simp: experiment_step_def create_experiment_def close_experiment_def close_expired_def table_ok_def Let_def)+
  show "list_all2 row_evolves (et_rows t) (take (length (et_rows t)) (et_rows (experiment_step op t)))"
    by (cases op) (auto simp: experiment_step_def create_experiment_def close_experiment_def close_expired_def
        Let_def same expired_at_def intro!: evo)
qed

lemma experiment_steps_ok:
  assumes "table_ok t"
  shows "table_ok (fold experiment_step ops t)
    \<and> list_all2 row_evolves (et_rows t) (take (length (et_rows t)) (et_rows (fold experiment_step ops t)))"
  using assms
proof (induction ops arbitrary: t)
  case Nil
  then show ?case by (simp add: list_all2_conv_all_nth row_evolves_def)
next
  case (Cons op ops)
  let ?t = "experiment_step op t"
  let ?n = "length (et_rows t)"
  note step = experiment_step_ok [OF Cons.prems, of op]
  from Cons.IH [OF step(1)] have ih: "table_ok (fold experiment_step ops ?t)"
    "list_all2 row_evolves (et_rows ?t) (take (length (et_rows ?t)) (et_rows (fold experiment_step ops ?t)))" by simp_all
  from step(2) have "?n \<le> length (et_rows ?t)" by (auto dest: list_all2_lengthD)
  with list_all2_takeI [OF ih(2), of ?n]
  have later: "list_all2 row_evolves (take ?n (et_rows ?t)) (take ?n (et_rows (fold experiment_step ops ?t)))"
    by (simp add: min_absorb1)
  have "list_all2 row_evolves (et_rows t) (take ?n (et_rows (fold experiment_step ops ?t)))"
    by (rule list_all2_trans [OF row_evolves_trans step(2) later])
  with ih(1) show ?case by simp
qed

definition empty_experiments :: experiment_table where
  "empty_experiments = \<lparr>et_rows = [], et_last_id = 0\<rparr>"

lemma empty_experiments_ok [simp]: "table_ok empty_experiments"
  by (simp add: table_ok_def empty_experiments_def)

text \<open>
  An experiment is immutable but for one closing: whatever is created, closed or expired
  later, a row of a reachable table stays as it was or, if it was active, is that row closed once,
  with the time of that first closing; ids and names stay unique.
\<close>

theorem experiment_closed_once:
  "let t = fold experiment_step before empty_experiments; t' = fold experiment_step after t
   in table_ok t' \<and> list_all2 row_evolves (et_rows t) (take (length (et_rows t)) (et_rows t'))"
proof -
  have "table_ok (fold experiment_step before empty_experiments)"
    using experiment_steps_ok [of empty_experiments before] by simp
  from experiment_steps_ok [OF this, of after] show ?thesis by (simp add: Let_def)
qed

end
