(* ===== verification/Experiment_Admin.thy ===== *)
theory Experiment_Admin
  imports Experiments Load_Balancer Cost
begin

text \<open>
  Creating an experiment (\<open>src/src/api/admin/experiments.rs\<close>): the validation of the body shared by
  the API and the command line, and the gate that resolves and pins every target and refuses what
  could not be priced. \<open>rfc\<close> parses RFC 3339 text to nanoseconds (the date library).
\<close>

section \<open>Bounds\<close>

definition max_name_len :: nat where "max_name_len = 128"
definition min_variants :: nat where "min_variants = 2"
definition max_variants :: nat where "max_variants = 16"
definition max_overlay_entries :: nat where "max_overlay_entries = 32"
definition max_expr_len :: nat where "max_expr_len = 128"
definition max_retention_days :: int where "max_retention_days = 3650"
definition max_allowed_users :: nat where "max_allowed_users = 64"

lemmas create_bounds = max_name_len_def min_variants_def max_variants_def max_overlay_entries_def max_expr_len_def
  max_retention_days_def max_allowed_users_def

type_synonym raw_variants = "(string \<times> (string \<times> string) list) list"

record parsed_create =
  pc_name :: string
  pc_variants :: raw_variants
  pc_allowed_user_ids :: "int list"
  pc_feed_learning :: bool
  pc_expires_at :: int
  pc_retain_content :: bool
  pc_content_retention_days :: int

section \<open>Validation\<close>

definition as_i64 :: "json \<Rightarrow> int option" where
  "as_i64 v =
     (case v of
        JNum (PosInt n) \<Rightarrow> if n < 2 ^ 63 then Some (int n) else None
      | JNum (NegInt i) \<Rightarrow> Some i
      | _ \<Rightarrow> None)"

definition require_field :: "json \<Rightarrow> string \<Rightarrow> string + json" where
  "require_field body field =
     (case jget_opt body field of
        None \<Rightarrow> Inl (field @ '' is required'')
      | Some v \<Rightarrow> if v = JNull then Inl (field @ '' is required'') else Inr v)"

text \<open>\<open>Option::ok_or_else\<close>.\<close>

definition ok_or :: "'a option \<Rightarrow> 'e \<Rightarrow> 'e + 'a" where
  "ok_or x e = (case x of Some y \<Rightarrow> Inr y | None \<Rightarrow> Inl e)"

lemma ok_or_Inr [simp]: "ok_or x e = Inr y \<longleftrightarrow> x = Some y"
  by (auto simp: ok_or_def split: option.split)

definition require_bool :: "json \<Rightarrow> string \<Rightarrow> string + bool" where
  "require_bool body field =
     bind_sum (require_field body field) (\<lambda>v. ok_or (as_bool v) (field @ '' must be a boolean''))"

definition expires_msg :: string where
  "expires_msg = ''expires_at must be an RFC3339 timestamp or 0 (never)''"

definition parse_expires_at :: "(string \<Rightarrow> int option) \<Rightarrow> json \<Rightarrow> int \<Rightarrow> string + int" where
  "parse_expires_at rfc body now =
     bind_sum (require_field body ''expires_at'')
       (\<lambda>v. case v of
              JNum n \<Rightarrow> if as_i64 v = Some 0 then Inr 0 else Inl expires_msg
            | JStr s \<Rightarrow>
                (case rfc s of
                   None \<Rightarrow> Inl expires_msg
                 | Some ts \<Rightarrow> if ts \<le> now then Inl ''expires_at must be in the future'' else Inr (ts div 1000000000))
            | _ \<Rightarrow> Inl expires_msg)"

definition variant_msg :: "string \<Rightarrow> string" where
  "variant_msg label = ''variants: variant '' @ quoted label"

definition key_msg :: "string \<Rightarrow> string \<Rightarrow> string" where
  "key_msg label key = variant_msg label @ '' key '' @ quoted key"

definition expr_ok :: "string \<Rightarrow> bool" where
  "expr_ok s \<longleftrightarrow> s \<noteq> [] \<and> char_count s \<le> max_expr_len"

definition parse_target :: "string \<Rightarrow> string \<times> json \<Rightarrow> string + string \<times> string" where
  "parse_target label kt =
     (let key = fst kt
      in if \<not> expr_ok key
         then Inl (key_msg label key @ '' must be 1-'' @ show_nat max_expr_len @ '' characters'')
         else bind_sum (ok_or (as_str (snd kt)) (key_msg label key @ '' target must be a string'')) (\<lambda>target.
              if \<not> expr_ok target
              then Inl (key_msg label key @ '' target must be 1-'' @ show_nat max_expr_len @ '' characters'')
              else Inr (key, target)))"

fun parse_targets :: "string \<Rightarrow> (string \<times> json) list \<Rightarrow> (string \<times> string) list \<Rightarrow> string + (string \<times> string) list" where
  "parse_targets label [] acc = Inr acc"
| "parse_targets label (kt # kts) acc =
     bind_sum (parse_target label kt) (\<lambda>e. parse_targets label kts (bt_insert (fst e) (snd e) acc))"

definition parse_overlay :: "string \<Rightarrow> json \<Rightarrow> string + (string \<times> string) list" where
  "parse_overlay label v =
     bind_sum (ok_or (as_object v) (variant_msg label @ '' must be an object of requested model -> target'')) (\<lambda>overlay.
     if max_overlay_entries < length overlay
     then Inl (variant_msg label @ '' has '' @ show_nat (length overlay) @ '' entries; at most ''
               @ show_nat max_overlay_entries @ '' allowed'')
     else parse_targets label overlay [])"

fun parse_variants :: "(string \<times> json) list \<Rightarrow> raw_variants \<Rightarrow> string + raw_variants" where
  "parse_variants [] acc = Inr acc"
| "parse_variants ((label, overlay) # rest) acc =
     (if \<not> is_valid_label label
      then Inl (''variants: label '' @ quoted label @ '' must match [A-Za-z0-9_.-]{1,'' @ show_nat max_label_len @ ''}'')
      else bind_sum (parse_overlay label overlay) (\<lambda>pinned.
           if map_of acc label \<noteq> None
           then Inl (''variants: label '' @ quoted label @ '' appears more than once'')
           else parse_variants rest (bt_insert label pinned acc)))"

fun parse_ids :: "json list \<Rightarrow> int list \<Rightarrow> string + int list" where
  "parse_ids [] ids = Inr ids"
| "parse_ids (v # vs) ids =
     (case as_i64 v of
        None \<Rightarrow> Inl ''allowed_user_ids must be an array of integers''
      | Some i \<Rightarrow> parse_ids vs (if i \<in> set ids then ids else ids @ [i]))"

definition parse_allowed :: "json \<Rightarrow> string + int list" where
  "parse_allowed body =
     (case jget_opt body ''allowed_user_ids'' of
        None \<Rightarrow> Inr []
      | Some v \<Rightarrow>
          if v = JNull then Inr []
          else bind_sum (ok_or (as_array v) ''allowed_user_ids must be an array of integers'') (\<lambda>arr.
               if max_allowed_users < length arr
               then Inl (''allowed_user_ids must have at most '' @ show_nat max_allowed_users @ '' entries'')
               else parse_ids arr []))"

definition parse_name :: "json \<Rightarrow> string + string" where
  "parse_name body =
     bind_sum (require_field body ''name'') (\<lambda>v.
     bind_sum (ok_or (as_str v) ''name must be a string'') (\<lambda>s.
     let name = trim s
     in if name = [] \<or> max_name_len < char_count name
        then Inl (''name must be 1-'' @ show_nat max_name_len @ '' characters'') else Inr name))"

definition parse_all_variants :: "json \<Rightarrow> string + raw_variants" where
  "parse_all_variants body =
     bind_sum (require_field body ''variants'') (\<lambda>v.
     bind_sum (ok_or (as_object v) ''variants must be an object of label -> overlay'') (\<lambda>raw.
     if length raw < min_variants \<or> max_variants < length raw
     then Inl (''variants must have '' @ show_nat min_variants @ ''-'' @ show_nat max_variants @ '' entries, got ''
               @ show_nat (length raw))
     else parse_variants raw []))"

definition parse_retention :: "json \<Rightarrow> string + int" where
  "parse_retention body =
     bind_sum (require_field body ''content_retention_days'') (\<lambda>v.
     bind_sum (ok_or (as_i64 v) ''content_retention_days must be an integer'') (\<lambda>days.
     if 0 \<le> days \<and> days \<le> max_retention_days then Inr days
     else Inl (''content_retention_days must be 0-'' @ show_int max_retention_days @ '' (0 = forever)'')))"

definition retain_msg :: string where
  "retain_msg = ''retain_content: true requires expires_at to be set; an experiment that never expires cannot retain content''"

definition parse_feed_learning :: "json \<Rightarrow> string + bool" where
  "parse_feed_learning body =
     (case jget_opt body ''feed_learning'' of
        None \<Rightarrow> Inr False
      | Some v \<Rightarrow> if v = JNull then Inr False else ok_or (as_bool v) ''feed_learning must be a boolean'')"

definition parse_create :: "(string \<Rightarrow> int option) \<Rightarrow> json \<Rightarrow> int \<Rightarrow> string + parsed_create" where
  "parse_create rfc body now =
     (if \<not> is_object body then Inl ''body must be a JSON object''
      else bind_sum (parse_name body) (\<lambda>name.
           bind_sum (parse_all_variants body) (\<lambda>variants.
           bind_sum (parse_expires_at rfc body now) (\<lambda>expires.
           bind_sum (parse_retention body) (\<lambda>days.
           bind_sum (require_bool body ''retain_content'') (\<lambda>retain.
           if retain \<and> expires = 0 then Inl retain_msg
           else bind_sum (parse_feed_learning body) (\<lambda>feed.
                bind_sum (parse_allowed body) (\<lambda>ids.
                Inr \<lparr>pc_name = name, pc_variants = variants, pc_allowed_user_ids = ids, pc_feed_learning = feed,
                     pc_expires_at = expires, pc_retain_content = retain, pc_content_retention_days = days\<rparr>))))))))"

section \<open>The pricing gate\<close>

record gate_sources =
  gs_router :: request_router
  gs_load_balancer :: load_balancer
  gs_has_provider :: "string \<Rightarrow> bool"
  gs_cost_calc :: cost_calculator

definition gate_target :: "gate_sources \<Rightarrow> string \<Rightarrow> string \<Rightarrow> string \<Rightarrow> string + variant_target" where
  "gate_target gate label key expr =
     (let place = key_msg label key @ '' target '' @ quoted expr
      in if is_pool (gs_load_balancer gate) expr
         then Inl (place @ '' is a load balancer pool; an experiment must pin one provider/model'')
         else let res = resolve_detailed (gs_router gate) expr
              in if substituted res
                 then Inl (place @ '' is not an alias or provider/model and would be substituted with the default model'')
                 else if \<not> gs_has_provider gate (res_provider res)
                 then Inl (place @ '' resolves to unconfigured provider '' @ quoted (res_provider res))
                 else let pinned = res_provider res @ ''/'' @ res_model res
                      in if \<not> has_price (gs_cost_calc gate) pinned
                         then Inl (place @ '' resolves to '' @ quoted pinned @ '', which has no pricing entry'')
                         else Inr \<lparr>vt_target = expr, vt_provider = res_provider res, vt_model = res_model res\<rparr>)"

fun gate_overlay ::
  "gate_sources \<Rightarrow> string \<Rightarrow> (string \<times> string) list \<Rightarrow> (string \<times> variant_target) list \<Rightarrow> string + (string \<times> variant_target) list"
where
  "gate_overlay gate label [] acc = Inr acc"
| "gate_overlay gate label ((key, expr) # rest) acc =
     bind_sum (gate_target gate label key expr) (\<lambda>t. gate_overlay gate label rest (bt_insert key t acc))"

fun gate_all :: "gate_sources \<Rightarrow> raw_variants \<Rightarrow> experiment_variants \<Rightarrow> string + experiment_variants" where
  "gate_all gate [] acc = Inr acc"
| "gate_all gate ((label, overlay) # rest) acc =
     bind_sum (gate_overlay gate label overlay []) (\<lambda>pinned. gate_all gate rest (bt_insert label pinned acc))"

definition gate_variants :: "gate_sources \<Rightarrow> raw_variants \<Rightarrow> string + experiment_variants" where
  "gate_variants gate raw = gate_all gate raw []"

section \<open>Creating and closing\<close>

datatype write_error = WInvalid string | WInternal

text \<open>
  What an administrator's write changes. \<open>known\<close> looks a user up and may fail; \<open>reload\<close> tells
  whether reading the table back for the registry works.
\<close>

record experiment_store =
  xs_table :: experiment_table
  xs_registry :: experiment_registry

definition refresh_registry :: "bool \<Rightarrow> experiment_store \<Rightarrow> experiment_store" where
  "refresh_registry reload s =
     s\<lparr>xs_registry := snd (load_from (xs_registry s)
        (if reload then Inr (list_experiments (xs_table s) FilterAll) else Inl ''database error''))\<rparr>"

fun check_users :: "(int \<Rightarrow> string + bool) \<Rightarrow> int list \<Rightarrow> write_error + unit" where
  "check_users known [] = Inr ()"
| "check_users known (i # ids) =
     (case known i of
        Inl e \<Rightarrow> Inl WInternal
      | Inr b \<Rightarrow> if b then check_users known ids
                else Inl (WInvalid (''allowed_user_ids: no user with id '' @ show_int i)))"

definition write_result :: "string + 'a \<Rightarrow> write_error + 'a" where
  "write_result r = map_sum WInvalid (\<lambda>x. x) r"

definition admin_create ::
  "(string \<Rightarrow> int option) \<Rightarrow> gate_sources \<Rightarrow> (int \<Rightarrow> string + bool) \<Rightarrow> bool \<Rightarrow> int \<Rightarrow> string \<Rightarrow> json
     \<Rightarrow> experiment_store \<Rightarrow> (write_error + experiment_row) \<times> experiment_store" where
  "admin_create rfc gate known reload now_ns now body s =
     (case bind_sum (write_result (parse_create rfc body now_ns)) (\<lambda>p.
             bind_sum (check_users known (pc_allowed_user_ids p)) (\<lambda>_.
             bind_sum (write_result (gate_variants gate (pc_variants p))) (\<lambda>variants. Inr (p, variants)))) of
        Inl e \<Rightarrow> (Inl e, s)
      | Inr (p, variants) \<Rightarrow>
          (case create_experiment now (xs_table s)
                  \<lparr>nx_name = pc_name p, nx_variants = variants, nx_allowed_user_ids = pc_allowed_user_ids p,
                   nx_feed_learning = pc_feed_learning p, nx_expires_at = pc_expires_at p,
                   nx_retain_content = pc_retain_content p,
                   nx_content_retention_days = pc_content_retention_days p\<rparr> of
             (Inl e, t) \<Rightarrow> (Inl (WInvalid (''name '' @ quoted (pc_name p) @ '' is already taken'')), s\<lparr>xs_table := t\<rparr>)
           | (Inr made, t) \<Rightarrow> (Inr made, refresh_registry reload (s\<lparr>xs_table := t\<rparr>))))"

definition admin_close ::
  "bool \<Rightarrow> string \<Rightarrow> int \<Rightarrow> experiment_store \<Rightarrow> (write_error + experiment_row) \<times> experiment_store" where
  "admin_close reload now i s =
     (case get_experiment (xs_table s) i of
        None \<Rightarrow> (Inl (WInvalid (''no experiment with id '' @ show_int i)), s)
      | Some before \<Rightarrow>
          if ex_closed_at before \<noteq> None then (Inl (WInvalid (''experiment '' @ show_int i @ '' is already closed'')), s)
          else let (changed, t) = close_experiment (xs_table s) i now; s = s\<lparr>xs_table := t\<rparr>
               in if \<not> changed then (Inl (WInvalid (''experiment '' @ show_int i @ '' is already closed'')), s)
                  else case get_experiment t i of
                         None \<Rightarrow> (Inl WInternal, s)
                       | Some after \<Rightarrow> (Inr after, refresh_registry reload s))"

section \<open>What creation guarantees\<close>

definition target_sound :: "gate_sources \<Rightarrow> variant_target \<Rightarrow> bool" where
  "target_sound gate t \<longleftrightarrow>
     \<not> is_pool (gs_load_balancer gate) (vt_target t) \<and> \<not> substituted (resolve_detailed (gs_router gate) (vt_target t))
     \<and> resolve (gs_router gate) (vt_target t) = (vt_provider t, vt_model t)
     \<and> gs_has_provider gate (vt_provider t) \<and> has_price (gs_cost_calc gate) (pin t)"

definition variants_sound :: "gate_sources \<Rightarrow> experiment_variants \<Rightarrow> bool" where
  "variants_sound gate vs \<longleftrightarrow>
     list_all (\<lambda>(label, targets). is_valid_label label \<and> list_all (\<lambda>(name, t). target_sound gate t) targets) vs"

definition experiment_sound :: "gate_sources \<Rightarrow> int \<Rightarrow> experiment_row \<Rightarrow> bool" where
  "experiment_sound gate now_ns e \<longleftrightarrow>
     ex_status e = ExpActive \<and> ex_closed_at e = None
     \<and> ex_name e \<noteq> [] \<and> char_count (ex_name e) \<le> 128
     \<and> variants_sound gate (ex_variants e)
     \<and> 0 \<le> ex_content_retention_days e \<and> ex_content_retention_days e \<le> 3650
     \<and> (ex_retain_content e \<longrightarrow> ex_expires_at e \<noteq> 0)
     \<and> (ex_expires_at e = 0 \<or> now_ns div 1000000000 \<le> ex_expires_at e)
     \<and> distinct (ex_allowed_user_ids e) \<and> length (ex_allowed_user_ids e) \<le> 64"

lemma gate_target_sound: "gate_target gate label key expr = Inr t \<Longrightarrow> target_sound gate t"
  by (auto simp: gate_target_def target_sound_def pin_def Let_def resolve_detailed_def resolve_def split: if_splits prod.splits)

lemma gate_overlay_sound:
  "gate_overlay gate label raw acc = Inr out \<Longrightarrow> list_all (\<lambda>(n, t). target_sound gate t) acc
    \<Longrightarrow> list_all (\<lambda>(n, t). target_sound gate t) out"
proof (induction raw arbitrary: acc)
  case (Cons ke raw)
  obtain key expr where ke: "ke = (key, expr)" by fastforce
  with Cons.prems obtain t where t: "gate_target gate label key expr = Inr t" 
    "gate_overlay gate label raw (bt_insert key t acc) = Inr out" by (auto simp: bind_sum_Inr_iff)
  have "list_all (\<lambda>(n, t). target_sound gate t) (bt_insert key t acc)"
    using Cons.prems(2) gate_target_sound [OF t(1)] set_bt_insert [of key t acc] by (auto simp: list_all_iff)
  from Cons.IH [OF t(2) this] show ?case .
qed simp

lemma gate_all_sound:
  "gate_all gate raw acc = Inr out \<Longrightarrow> list_all (\<lambda>(l, ts). is_valid_label l) raw \<Longrightarrow> variants_sound gate acc
    \<Longrightarrow> variants_sound gate out"
proof (induction raw arbitrary: acc)
  case (Cons lo raw)
  obtain label overlay where lo: "lo = (label, overlay)" by fastforce
  with Cons.prems obtain ts where ts: "gate_overlay gate label overlay [] = Inr ts"
    "gate_all gate raw (bt_insert label ts acc) = Inr out" by (auto simp: bind_sum_Inr_iff)
  have "list_all (\<lambda>(n, t). target_sound gate t) ts" using gate_overlay_sound [OF ts(1)] by simp
  then have "variants_sound gate (bt_insert label ts acc)"
    using Cons.prems(2,3) lo set_bt_insert [of label ts acc] unfolding variants_sound_def list_all_iff by fastforce
  from Cons.IH [OF ts(2) _ this] Cons.prems(2) show ?case by simp
qed simp

lemma parse_variants_labels:
  "parse_variants raw acc = Inr out \<Longrightarrow> list_all (\<lambda>(l, ts). is_valid_label l) acc \<Longrightarrow> list_all (\<lambda>(l, ts). is_valid_label l) out"
proof (induction raw arbitrary: acc)
  case (Cons lo raw)
  obtain label overlay where lo: "lo = (label, overlay)" by fastforce
  with Cons.prems obtain p where p: "is_valid_label label" "parse_variants raw (bt_insert label p acc) = Inr out"
    by (auto simp: bind_sum_Inr_iff split: if_splits)
  have "list_all (\<lambda>(l, ts). is_valid_label l) (bt_insert label p acc)"
    using Cons.prems(2) p(1) set_bt_insert [of label p acc] by (auto simp: list_all_iff)
  from Cons.IH [OF p(2) this] show ?case .
qed simp

lemma parse_ids_sound:
  "parse_ids vs ids = Inr out \<Longrightarrow> distinct ids \<Longrightarrow> distinct out \<and> length out \<le> length ids + length vs"
proof (induction vs arbitrary: ids)
  case (Cons v vs)
  then obtain i where i: "as_i64 v = Some i" "parse_ids vs (if i \<in> set ids then ids else ids @ [i]) = Inr out"
    by (auto split: option.splits)
  have "distinct (if i \<in> set ids then ids else ids @ [i])" using Cons.prems(2) by simp
  from Cons.IH [OF i(2) this] show ?case by (cases "i \<in> set ids") auto
qed simp

lemma parse_allowed_sound: "parse_allowed body = Inr ids \<Longrightarrow> distinct ids \<and> length ids \<le> 64"
  by (auto simp: parse_allowed_def bind_sum_Inr_iff create_bounds split: option.splits if_splits dest!: parse_ids_sound)

lemma parse_expires_sound:
  assumes "parse_expires_at rfc body now = Inr e"
  shows "e = 0 \<or> now div 1000000000 \<le> e"
proof -
  from assms obtain v where v: "(case v of
        JNum n \<Rightarrow> if as_i64 v = Some 0 then Inr 0 else Inl expires_msg
      | JStr s \<Rightarrow>
          (case rfc s of
             None \<Rightarrow> Inl expires_msg
           | Some ts \<Rightarrow> if ts \<le> now then Inl ''expires_at must be in the future'' else Inr (ts div 1000000000))
      | _ \<Rightarrow> Inl expires_msg) = Inr e"
    by (auto simp: parse_expires_at_def bind_sum_Inr_iff)
  show ?thesis
  proof (cases v)
    case (JStr s)
    with v show ?thesis by (cases "rfc s") (auto simp: zdiv_mono1 split: if_splits)
  qed (use v in \<open>auto split: if_splits\<close>)
qed

lemma parse_name_sound: "parse_name body = Inr n \<Longrightarrow> n \<noteq> [] \<and> char_count n \<le> 128"
  by (auto simp: parse_name_def bind_sum_Inr_iff create_bounds Let_def split: if_splits)

lemma parse_retention_sound: "parse_retention body = Inr d \<Longrightarrow> 0 \<le> d \<and> d \<le> 3650"
  by (auto simp: parse_retention_def bind_sum_Inr_iff create_bounds split: if_splits)

lemma parse_all_variants_sound: "parse_all_variants body = Inr vs \<Longrightarrow> list_all (\<lambda>(l, ts). is_valid_label l) vs"
  by (auto simp: parse_all_variants_def bind_sum_Inr_iff split: if_splits dest!: parse_variants_labels)

lemma write_result_Inr [simp]: "write_result r = Inr x \<longleftrightarrow> r = Inr x"
  by (cases r) (auto simp: write_result_def)

lemma parse_create_sound:
  assumes "parse_create rfc body now = Inr p"
  shows "pc_name p \<noteq> [] \<and> char_count (pc_name p) \<le> 128"
    and "list_all (\<lambda>(l, ts). is_valid_label l) (pc_variants p)"
    and "0 \<le> pc_content_retention_days p \<and> pc_content_retention_days p \<le> 3650"
    and "pc_retain_content p \<Longrightarrow> pc_expires_at p \<noteq> 0"
    and "pc_expires_at p = 0 \<or> now div 1000000000 \<le> pc_expires_at p"
    and "distinct (pc_allowed_user_ids p) \<and> length (pc_allowed_user_ids p) \<le> 64"
proof -
  from assms have p: "parse_name body = Inr (pc_name p)" "parse_all_variants body = Inr (pc_variants p)"
    "parse_retention body = Inr (pc_content_retention_days p)" "parse_expires_at rfc body now = Inr (pc_expires_at p)"
    "parse_allowed body = Inr (pc_allowed_user_ids p)" "\<not> (pc_retain_content p \<and> pc_expires_at p = 0)"
    by (auto simp: parse_create_def bind_sum_Inr_iff split: if_splits)
  from parse_name_sound [OF p(1)] show "pc_name p \<noteq> [] \<and> char_count (pc_name p) \<le> 128" .
  from parse_all_variants_sound [OF p(2)] show "list_all (\<lambda>(l, ts). is_valid_label l) (pc_variants p)" .
  from parse_retention_sound [OF p(3)]
  show "0 \<le> pc_content_retention_days p \<and> pc_content_retention_days p \<le> 3650" .
  from parse_expires_sound [OF p(4)] show "pc_expires_at p = 0 \<or> now div 1000000000 \<le> pc_expires_at p" .
  from parse_allowed_sound [OF p(5)] show "distinct (pc_allowed_user_ids p) \<and> length (pc_allowed_user_ids p) \<le> 64" .
  show "pc_retain_content p \<Longrightarrow> pc_expires_at p \<noteq> 0" using p(6) by simp
qed

section \<open>Properties\<close>


end
