(* ===== verification/Prompt_Log.thy ===== *)
theory Prompt_Log
  imports Experiments Ledger
begin

text \<open>
  The prompt log: the storage policy (\<open>src/src/db/prompt_store.rs\<close>) and the SQLite repository of
  prompt rows (\<open>src/src/db/sqlite/prompts.rs\<close>). Every SQL statement may fail; which of the next
  ones do is the script \<open>pd_faults\<close> of the store (an empty script means they all succeed), so an
  operation of several statements can stop half way.
\<close>

section \<open>Rows\<close>

record new_prompt =
  np_user_id :: int
  np_session_id :: "int option"
  np_request_model :: string
  np_routed_model :: string
  np_provider :: string
  np_messages :: string
  np_response :: "string option"
  np_finish_reason :: "string option"
  np_prompt_tokens :: int
  np_completion_tokens :: int
  np_cache_read_tokens :: int
  np_cache_write_tokens :: int
  np_cost_usd :: rat
  np_latency_ms :: "int option"
  np_ttft_ms :: "int option"
  np_attempts :: "int option"
  np_tags :: string
  np_project :: "string option"
  np_correlation_id :: "string option"
  np_attribution_tags :: string
  np_experiment_id :: "int option"
  np_experiment_variant :: "string option"

record prompt_row = new_prompt +
  pr_id :: int
  pr_created_at :: string

section \<open>The storage policy\<close>

record storage_config =
  sc_store_prompts :: bool
  sc_store_prompt_content :: bool
  sc_prompt_retention_days :: nat
  sc_prompt_db_path :: "string option"

definition content_not_stored :: string where
  "content_not_stored = ''(content storage disabled '' @ [CHR 0xE2, CHR 0x80, CHR 0x94] @ '' see [storage] in config.toml)''"

definition redact_prompt_content :: "storage_config \<Rightarrow> 'a new_prompt_scheme \<Rightarrow> 'a new_prompt_scheme" where
  "redact_prompt_content sc p =
     (if sc_store_prompt_content sc then p else p\<lparr>np_messages := content_not_stored, np_response := None\<rparr>)"

definition apply_storage_policy :: "storage_config \<Rightarrow> 'a new_prompt_scheme \<Rightarrow> 'a new_prompt_scheme option" where
  "apply_storage_policy sc p = (if \<not> sc_store_prompts sc then None else Some (redact_prompt_content sc p))"

record callback_event =
  ce_trace_id :: string
  ce_user_id :: int
  ce_model :: string
  ce_provider_name :: string
  ce_input :: json
  ce_output :: string
  ce_prompt_tokens :: nat
  ce_completion_tokens :: nat
  ce_cost_usd :: rat
  ce_latency_ms :: int

definition redact_callback_content :: "storage_config \<Rightarrow> callback_event \<Rightarrow> callback_event" where
  "redact_callback_content sc ev =
     (if sc_store_prompt_content sc then ev
      else ev\<lparr>ce_input := JStr content_not_stored, ce_output := content_not_stored\<rparr>)"

section \<open>The repository\<close>

record prompt_db =
  pd_rows :: "prompt_row list"
  pd_last_id :: int
  pd_faults :: "bool list"

text \<open>Run one statement: whether it fails.\<close>

definition sql_prompt :: "prompt_db \<Rightarrow> bool \<times> prompt_db" where
  "sql_prompt db = (case pd_faults db of [] \<Rightarrow> (False, db) | b # bs \<Rightarrow> (b, db\<lparr>pd_faults := bs\<rparr>))"

definition create_prompt :: "string \<Rightarrow> prompt_db \<Rightarrow> new_prompt \<Rightarrow> (string + prompt_row) \<times> prompt_db" where
  "create_prompt now db p =
     (let (bad, db) = sql_prompt db
      in if bad then (Inl db_error, db)
         else let made = new_prompt.extend p \<lparr>pr_id = pd_last_id db + 1, pr_created_at = now\<rparr>;
                  db = db\<lparr>pd_rows := pd_rows db @ [made], pd_last_id := pd_last_id db + 1\<rparr>;
                  (bad, db) = sql_prompt db
              in (if bad then Inl db_error else Inr made, db))"

definition find_prompt :: "prompt_db \<Rightarrow> int \<Rightarrow> (string + prompt_row option) \<times> prompt_db" where
  "find_prompt db i =
     (let (bad, db) = sql_prompt db
      in (if bad then Inl db_error else Inr (find (\<lambda>p. pr_id p = i) (pd_rows db)), db))"

definition newest_first :: "prompt_row list \<Rightarrow> prompt_row list" where
  "newest_first ps = rev (sort_key pr_created_at ps)"

definition list_prompts_by_user :: "prompt_db \<Rightarrow> int \<Rightarrow> nat \<Rightarrow> (string + prompt_row list) \<times> prompt_db" where
  "list_prompts_by_user db uid limit =
     (let (bad, db) = sql_prompt db
      in (if bad then Inl db_error
          else Inr (take limit (newest_first (filter (\<lambda>p. np_user_id p = uid) (pd_rows db)))), db))"

definition list_prompts :: "prompt_db \<Rightarrow> nat \<Rightarrow> nat \<Rightarrow> (string + prompt_row list) \<times> prompt_db" where
  "list_prompts db limit offset =
     (let (bad, db) = sql_prompt db
      in (if bad then Inl db_error else Inr (take limit (drop offset (newest_first (pd_rows db)))), db))"

definition count_prompts :: "prompt_db \<Rightarrow> (string + nat) \<times> prompt_db" where
  "count_prompts db = (let (bad, db) = sql_prompt db in (if bad then Inl db_error else Inr (length (pd_rows db)), db))"

text \<open>\<open>DELETE FROM prompts WHERE p\<close>, with the number of rows it deleted.\<close>

definition delete_where :: "(prompt_row \<Rightarrow> bool) \<Rightarrow> prompt_db \<Rightarrow> (string + nat) \<times> prompt_db" where
  "delete_where p db =
     (let (bad, db) = sql_prompt db
      in if bad then (Inl db_error, db)
         else (Inr (length (filter p (pd_rows db))), db\<lparr>pd_rows := filter (\<lambda>x. \<not> p x) (pd_rows db)\<rparr>))"

definition older :: "string \<Rightarrow> prompt_row \<Rightarrow> bool" where
  "older cutoff p \<longleftrightarrow> pr_created_at p < cutoff"

definition purge_older_than :: "string \<Rightarrow> prompt_db \<Rightarrow> (string + nat) \<times> prompt_db" where
  "purge_older_than cutoff db = delete_where (older cutoff) db"

definition purge_id_chunk :: nat where
  "purge_id_chunk = 500"

text \<open>The slices of \<open>slice::chunks\<close>; a chunk size of 0 does not occur.\<close>

fun chunks :: "nat \<Rightarrow> 'a list \<Rightarrow> 'a list list" where
  "chunks n [] = []"
| "chunks n (x # xs) = (x # take (n - 1) xs) # chunks n (drop (n - 1) xs)"

definition stamped_in :: "int list \<Rightarrow> prompt_row \<Rightarrow> bool" where
  "stamped_in ids p = (case np_experiment_id p of Some i \<Rightarrow> i \<in> set ids | None \<Rightarrow> False)"

fun purge_chunks :: "string \<Rightarrow> int list list \<Rightarrow> nat \<Rightarrow> prompt_db \<Rightarrow> (string + nat) \<times> prompt_db" where
  "purge_chunks cutoff [] deleted db = (Inr deleted, db)"
| "purge_chunks cutoff (ids # rest) deleted db =
     (case delete_where (\<lambda>p. older cutoff p \<and> stamped_in ids p) db of
        (Inl e, db) \<Rightarrow> (Inl e, db)
      | (Inr n, db) \<Rightarrow> purge_chunks cutoff rest (deleted + n) db)"

definition stamped_ids :: "string \<Rightarrow> prompt_row list \<Rightarrow> int list" where
  "stamped_ids cutoff ps = remdups (List.map_filter (\<lambda>p. if older cutoff p then np_experiment_id p else None) ps)"

definition purge_older_than_except :: "string \<Rightarrow> int list \<Rightarrow> prompt_db \<Rightarrow> (string + nat) \<times> prompt_db" where
  "purge_older_than_except cutoff except_ids db =
     (if except_ids = [] then purge_older_than cutoff db
      else case delete_where (\<lambda>p. older cutoff p \<and> np_experiment_id p = None) db of
             (Inl e, db) \<Rightarrow> (Inl e, db)
           | (Inr deleted, db) \<Rightarrow>
               (let (bad, db) = sql_prompt db
                in if bad then (Inl db_error, db)
                   else purge_chunks cutoff
                          (chunks purge_id_chunk
                             (filter (\<lambda>i. i \<notin> set except_ids) (stamped_ids cutoff (pd_rows db))))
                          deleted db))"

definition has_content :: "'a new_prompt_scheme \<Rightarrow> bool" where
  "has_content p \<longleftrightarrow> np_messages p \<noteq> content_not_stored \<or> np_response p \<noteq> None"

definition redact_row :: "int \<Rightarrow> prompt_row \<Rightarrow> prompt_row" where
  "redact_row i p =
     (if np_experiment_id p = Some i \<and> has_content p
      then p\<lparr>np_messages := content_not_stored, np_response := None\<rparr> else p)"

definition redact_experiment_content :: "int \<Rightarrow> prompt_db \<Rightarrow> (string + nat) \<times> prompt_db" where
  "redact_experiment_content i db =
     (let (bad, db) = sql_prompt db
      in if bad then (Inl db_error, db)
         else (Inr (length (filter (\<lambda>p. np_experiment_id p = Some i \<and> has_content p) (pd_rows db))),
               db\<lparr>pd_rows := map (redact_row i) (pd_rows db)\<rparr>))"

definition experiment_content_bytes :: "prompt_db \<Rightarrow> int \<Rightarrow> (string + nat) \<times> prompt_db" where
  "experiment_content_bytes db i =
     (let (bad, db) = sql_prompt db
      in (if bad then Inl db_error
          else Inr (sum_list (map (\<lambda>p. length (np_messages p) + (case np_response p of Some r \<Rightarrow> length r | None \<Rightarrow> 0))
                 (filter (\<lambda>p. np_experiment_id p = Some i) (pd_rows db)))), db))"

section \<open>Latency summaries\<close>

record latency_summary =
  ls_samples :: nat
  ls_mean_ms :: "rat option"
  ls_p50_ms :: "int option"
  ls_p95_ms :: "int option"

definition no_latency :: latency_summary where
  "no_latency = \<lparr>ls_samples = 0, ls_mean_ms = None, ls_p50_ms = None, ls_p95_ms = None\<rparr>"

text \<open>The row offset of the nearest-rank percentile \<open>num/den\<close> of \<open>n\<close> ascending samples.\<close>

definition nearest_rank_offset :: "nat \<Rightarrow> rat \<Rightarrow> nat" where
  "nearest_rank_offset n q =
     (if n = 0 then 0 else nat (min (max (ceiling (of_nat n * q) - 1) 0) (int n - 1)))"

definition samples_of :: "(prompt_row \<Rightarrow> int option) \<Rightarrow> prompt_row list \<Rightarrow> int list" where
  "samples_of col ps = sort (filter (\<lambda>v. 0 < v) (List.map_filter col ps))"

text \<open>Over a snapshot of the matching rows (no purge between the statements).\<close>

definition ms_summary :: "(prompt_row \<Rightarrow> int option) \<Rightarrow> (prompt_row \<Rightarrow> bool) \<Rightarrow> string \<Rightarrow> string \<Rightarrow> prompt_row list \<Rightarrow> latency_summary" where
  "ms_summary col arm start before ps =
     (let vs = samples_of col (filter (\<lambda>p. arm p \<and> start \<le> pr_created_at p \<and> pr_created_at p < before) ps)
      in if vs = [] then no_latency
         else \<lparr>ls_samples = length vs, ls_mean_ms = Some (of_int (sum_list vs) / of_nat (length vs)),
               ls_p50_ms = Some (vs ! nearest_rank_offset (length vs) (1 / 2)),
               ls_p95_ms = Some (vs ! nearest_rank_offset (length vs) (95 / 100))\<rparr>)"

definition prompt_latency_summary :: "(prompt_row \<Rightarrow> bool) \<Rightarrow> string \<Rightarrow> string \<Rightarrow> prompt_row list \<Rightarrow> latency_summary" where
  "prompt_latency_summary arm = ms_summary np_latency_ms arm"

definition prompt_ttft_summary :: "(prompt_row \<Rightarrow> bool) \<Rightarrow> string \<Rightarrow> string \<Rightarrow> prompt_row list \<Rightarrow> latency_summary" where
  "prompt_ttft_summary arm = ms_summary np_ttft_ms arm"

section \<open>Facts\<close>

lemma sql_prompt_rows [simp]: "sql_prompt db = (bad, db') \<Longrightarrow> pd_rows db' = pd_rows db \<and> pd_last_id db' = pd_last_id db"
  by (auto simp: sql_prompt_def split: list.splits)

text \<open>A deletion keeps what its condition does not name.\<close>

lemma delete_where_keeps:
  assumes "delete_where p db = (r, db')" and "\<And>x. keep x \<Longrightarrow> \<not> p x"
  shows "filter keep (pd_rows db') = filter keep (pd_rows db)"
proof -
  obtain bad db1 where s: "sql_prompt db = (bad, db1)" by fastforce
  have "filter keep (filter (\<lambda>x. \<not> p x) xs) = filter keep xs" for xs
    using assms(2) by (induction xs) auto
  with assms(1) s sql_prompt_rows [OF s] show ?thesis by (auto simp: delete_where_def split: if_splits)
qed

lemma delete_where_subset: "delete_where p db = (r, db') \<Longrightarrow> set (pd_rows db') \<subseteq> set (pd_rows db)"
  by (cases "sql_prompt db") (auto simp: delete_where_def dest!: sql_prompt_rows split: if_splits)

lemma purge_chunks_keeps:
  "purge_chunks cutoff idss n db = (r, db') \<Longrightarrow> (\<And>x ids. keep x \<Longrightarrow> ids \<in> set idss \<Longrightarrow> \<not> stamped_in ids x)
    \<Longrightarrow> filter keep (pd_rows db') = filter keep (pd_rows db)"
proof (induction idss arbitrary: n db)
  case (Cons ids idss)
  obtain r1 db1 where d: "delete_where (\<lambda>p. older cutoff p \<and> stamped_in ids p) db = (r1, db1)" by fastforce
  have k: "filter keep (pd_rows db1) = filter keep (pd_rows db)"
    by (rule delete_where_keeps [OF d]) (use Cons.prems(2) in auto)
  show ?case
  proof (cases r1)
    case (Inr m)
    have "filter keep (pd_rows db') = filter keep (pd_rows db1)"
      by (rule Cons.IH [of "n + m"]) (use Cons.prems d Inr in auto)
    with k show ?thesis by simp
  qed (use Cons.prems d k in auto)
qed simp

lemma set_chunks: "0 < n \<Longrightarrow> ids \<in> set (chunks n xs) \<Longrightarrow> set ids \<subseteq> set xs"
  by (induction n xs rule: chunks.induct) (auto dest: in_set_takeD in_set_dropD)

text \<open>Whatever statements fail, the rows of a listed experiment stay.\<close>

lemma purge_except_keeps:
  assumes "purge_older_than_except cutoff ids db = (r, db')" and "ids \<noteq> []"
  shows "filter (stamped_in ids) (pd_rows db') = filter (stamped_in ids) (pd_rows db)"
proof -
  obtain r1 db1 where d: "delete_where (\<lambda>p. older cutoff p \<and> np_experiment_id p = None) db = (r1, db1)" by fastforce
  have k: "filter (stamped_in ids) (pd_rows db1) = filter (stamped_in ids) (pd_rows db)"
    by (rule delete_where_keeps [OF d]) (auto simp: stamped_in_def split: option.splits)
  show ?thesis
  proof (cases r1)
    case (Inl e)
    with assms d k show ?thesis by (simp add: purge_older_than_except_def)
  next
    case (Inr n)
    obtain bad db2 where s: "sql_prompt db1 = (bad, db2)" by fastforce
    let ?e = "chunks purge_id_chunk (filter (\<lambda>i. i \<notin> set ids) (stamped_ids cutoff (pd_rows db2)))"
    show ?thesis
    proof (cases bad)
      case True
      with assms d k Inr s sql_prompt_rows [OF s] show ?thesis by (simp add: purge_older_than_except_def)
    next
      case False
      with assms d Inr s have c: "purge_chunks cutoff ?e n db2 = (r, db')" by (simp add: purge_older_than_except_def)
      have "filter (stamped_in ids) (pd_rows db') = filter (stamped_in ids) (pd_rows db2)"
      proof (rule purge_chunks_keeps [OF c])
        fix x xs assume x: "stamped_in ids x" "xs \<in> set ?e"
        have "set xs \<inter> set ids = {}" using set_chunks [OF _ x(2)] by (auto simp: purge_id_chunk_def)
        with x(1) show "\<not> stamped_in xs x" by (auto simp: stamped_in_def split: option.splits)
      qed
      with k sql_prompt_rows [OF s] show ?thesis by simp
    qed
  qed
qed

lemma purge_chunks_subset: "purge_chunks cutoff idss n db = (r, db') \<Longrightarrow> set (pd_rows db') \<subseteq> set (pd_rows db)"
proof (induction idss arbitrary: n db)
  case (Cons ids idss)
  then show ?case
    by (auto split: prod.splits sum.splits) (blast dest: delete_where_subset Cons.IH)+
qed simp

lemma purge_except_subset:
  assumes "purge_older_than_except cutoff ids db = (r, db')"
  shows "set (pd_rows db') \<subseteq> set (pd_rows db)"
proof (cases "ids = []")
  case True
  with assms show ?thesis by (auto simp: purge_older_than_except_def purge_older_than_def dest: delete_where_subset)
next
  case False
  obtain r1 db1 where d: "delete_where (\<lambda>p. older cutoff p \<and> np_experiment_id p = None) db = (r1, db1)" by fastforce
  obtain bad db2 where s: "sql_prompt db1 = (bad, db2)" by fastforce
  from False assms d s delete_where_subset [OF d] sql_prompt_rows [OF s] show ?thesis
    by (fastforce simp: purge_older_than_except_def dest!: purge_chunks_subset split: sum.splits if_splits)
qed

lemma redact_row_fields [simp]:
  "pr_id (redact_row i p) = pr_id p" "np_experiment_id (redact_row i p) = np_experiment_id p"
  "pr_created_at (redact_row i p) = pr_created_at p"
  by (simp_all add: redact_row_def)

lemma redact_row_other: "np_experiment_id p \<noteq> Some i \<Longrightarrow> redact_row i p = p"
  by (simp add: redact_row_def)

lemma redact_row_done: "np_experiment_id p = Some i \<Longrightarrow> \<not> has_content (redact_row i p)"
  by (simp add: redact_row_def has_content_def)

lemma redact_row_idem [simp]: "redact_row i (redact_row i p) = redact_row i p"
  by (auto simp: redact_row_def has_content_def)

section \<open>Properties\<close>

text \<open>
  With content storage off neither the log row nor the event for an observability backend
  carries any of the prompt or the answer: two requests that differ in their texts alone give the
  same row and the same event; every other column and field is left as it was.
\<close>

theorem storage_policy_hides_content:
  "sc_store_prompt_content sc \<or>
   (redact_prompt_content sc (p\<lparr>np_messages := m, np_response := r\<rparr>)
      = redact_prompt_content sc (p\<lparr>np_messages := m', np_response := r'\<rparr>)
    \<and> redact_callback_content sc (ev\<lparr>ce_input := i, ce_output := out\<rparr>)
      = redact_callback_content sc (ev\<lparr>ce_input := i', ce_output := out'\<rparr>)
    \<and> (redact_prompt_content sc p)\<lparr>np_messages := np_messages p, np_response := np_response p\<rparr> = p
    \<and> (redact_callback_content sc ev)\<lparr>ce_input := ce_input ev, ce_output := ce_output ev\<rparr> = ev)"
  by (simp add: redact_prompt_content_def redact_callback_content_def)

definition default_storage :: storage_config where
  "default_storage =
     \<lparr>sc_store_prompts = True, sc_store_prompt_content = False, sc_prompt_retention_days = 0, sc_prompt_db_path = None\<rparr>"

lemma nearest_rank_lt: "0 < n \<Longrightarrow> nearest_rank_offset n q < n"
  by (auto simp: nearest_rank_offset_def)

lemma nearest_rank_mono: "q \<le> q' \<Longrightarrow> nearest_rank_offset n q \<le> nearest_rank_offset n q'"
proof -
  assume "q \<le> q'"
  then have "\<lceil>of_nat n * q\<rceil> \<le> \<lceil>of_nat n * q'\<rceil>" by (intro ceiling_mono mult_left_mono) auto
  then show ?thesis by (auto simp: nearest_rank_offset_def intro!: nat_mono)
qed

text \<open>The percentiles of an arm are latencies that were observed in it, the median not above the 95th.\<close>

theorem percentiles_are_observed:
  "let s = ms_summary col arm start before ps
   in case (ls_p50_ms s, ls_p95_ms s) of
        (Some p50, Some p95) \<Rightarrow> p50 \<in> set (samples_of col (filter arm ps)) \<and> p95 \<in> set (samples_of col (filter arm ps))
          \<and> p50 \<le> p95 \<and> 0 < ls_samples s
      | (None, None) \<Rightarrow> ls_samples s = 0
      | _ \<Rightarrow> False"
proof -
  let ?vs = "samples_of col (filter (\<lambda>p. arm p \<and> start \<le> pr_created_at p \<and> pr_created_at p < before) ps)"
  show ?thesis
  proof (cases "?vs = []")
    case True
    then show ?thesis by (simp add: ms_summary_def no_latency_def)
  next
    case False
    then have n: "0 < length ?vs" by simp
    have sub: "set ?vs \<subseteq> set (samples_of col (filter arm ps))"
      by (auto simp: samples_of_def map_filter_def)
    have "sorted ?vs" by (simp add: samples_of_def)
    then have "?vs ! nearest_rank_offset (length ?vs) (1 / 2) \<le> ?vs ! nearest_rank_offset (length ?vs) (95 / 100)"
      using nearest_rank_mono [of "1 / 2" "95 / 100" "length ?vs"] nearest_rank_lt [OF n] by (auto intro: sorted_nth_mono)
    moreover have "?vs ! nearest_rank_offset (length ?vs) q \<in> set ?vs" for q
      using nearest_rank_lt [OF n] by simp
    ultimately show ?thesis using False sub n by (auto simp: ms_summary_def Let_def)
  qed
qed

end
