(* ===== verification/Retention.thy ===== *)
theory Retention
  imports Prompt_Log
begin

text \<open>
  The hourly retention tick (\<open>src/src/db/retention.rs\<close>) over the experiment table, the run outcomes
  (\<open>src/src/db/sqlite/outcomes.rs\<close>) and the prompt store. Calls to the first two may fail as
  well: \<open>es_faults\<close> and \<open>od_faults\<close> script them. Formatting an instant and subtracting days belong
  to the date library: \<open>fmt\<close> and \<open>sub_days\<close> (\<open>None\<close>: not representable).
\<close>

section \<open>Outcomes of runs\<close>

record new_run_outcome =
  ro_user_id :: int
  ro_correlation_id :: string
  ro_outcome :: string
  ro_score :: "rat option"
  ro_rating :: "int option"
  ro_note :: "string option"
  ro_experiment_id :: "int option"
  ro_experiment_variant :: "string option"

record run_outcome = new_run_outcome +
  ro_created_at :: string
  ro_updated_at :: string

record outcome_db =
  od_rows :: "run_outcome list"
  od_faults :: "bool list"

definition sql_outcome :: "outcome_db \<Rightarrow> bool \<times> outcome_db" where
  "sql_outcome db = (case od_faults db of [] \<Rightarrow> (False, db) | b # bs \<Rightarrow> (b, db\<lparr>od_faults := bs\<rparr>))"

definition same_run :: "int \<Rightarrow> string \<Rightarrow> run_outcome \<Rightarrow> bool" where
  "same_run uid cid r \<longleftrightarrow> ro_user_id r = uid \<and> ro_correlation_id r = cid"

text \<open>\<open>ON CONFLICT DO UPDATE\<close>: everything but the key and the time of creation is replaced.\<close>

definition upsert_rows :: "string \<Rightarrow> new_run_outcome \<Rightarrow> run_outcome list \<Rightarrow> run_outcome list" where
  "upsert_rows now x rs =
     (if list_ex (same_run (ro_user_id x) (ro_correlation_id x)) rs
      then map (\<lambda>r. if same_run (ro_user_id x) (ro_correlation_id x) r
                    then new_run_outcome.extend x \<lparr>ro_created_at = ro_created_at r, ro_updated_at = now\<rparr> else r) rs
      else rs @ [new_run_outcome.extend x \<lparr>ro_created_at = now, ro_updated_at = now\<rparr>])"

definition get_outcome :: "outcome_db \<Rightarrow> int \<Rightarrow> string \<Rightarrow> run_outcome option" where
  "get_outcome db uid cid = find (same_run uid cid) (od_rows db)"

definition upsert_outcome :: "string \<Rightarrow> outcome_db \<Rightarrow> new_run_outcome \<Rightarrow> (string + run_outcome option) \<times> outcome_db" where
  "upsert_outcome now db x =
     (let (bad, db) = sql_outcome db
      in if bad then (Inl db_error, db)
         else let db = db\<lparr>od_rows := upsert_rows now x (od_rows db)\<rparr>; (bad, db) = sql_outcome db
              in (if bad then Inl db_error else Inr (get_outcome db (ro_user_id x) (ro_correlation_id x)), db))"

definition outcomes_for_experiment :: "outcome_db \<Rightarrow> int \<Rightarrow> run_outcome list" where
  "outcomes_for_experiment db i =
     sort_key (\<lambda>r. (ro_user_id r)) (sort_key ro_correlation_id (filter (\<lambda>r. ro_experiment_id r = Some i) (od_rows db)))"

definition clear_notes :: "int \<Rightarrow> outcome_db \<Rightarrow> (string + nat) \<times> outcome_db" where
  "clear_notes i db =
     (let (bad, db) = sql_outcome db; hit = (\<lambda>r. ro_experiment_id r = Some i \<and> ro_note r \<noteq> None)
      in if bad then (Inl db_error, db)
         else (Inr (length (filter hit (od_rows db))),
               db\<lparr>od_rows := map (\<lambda>r. if hit r then r\<lparr>ro_note := None\<rparr> else r) (od_rows db)\<rparr>))"

section \<open>The tick\<close>

datatype sweep_outcome =
    SweepDisabled
  | SkippedUnreadableExperiments string
  | Purged nat "int list"
  | SweepFailed string

record expired_experiment =
  xp_experiment_id :: int
  xp_redacted :: nat
  xp_notes_cleared :: nat

record retention_report =
  rr_sweep :: sweep_outcome
  rr_expired :: "expired_experiment list"
  rr_failures :: "(int \<times> string) list"

text \<open>The two experiment queries of a tick, each of which may fail.\<close>

record experiment_source =
  es_table :: experiment_table
  es_open_fails :: bool
  es_closed_fails :: bool

record date_library =
  dl_rfc :: "string \<Rightarrow> int option"
  dl_fmt :: "int \<Rightarrow> string"
  dl_sub_days :: "int \<Rightarrow> nat \<Rightarrow> int option"

definition global_sweep ::
  "date_library \<Rightarrow> experiment_source \<Rightarrow> nat \<Rightarrow> int \<Rightarrow> prompt_db \<Rightarrow> sweep_outcome \<times> prompt_db" where
  "global_sweep dl es retention_days now db =
     (if retention_days = 0 then (SweepDisabled, db)
      else if es_open_fails es then (SkippedUnreadableExperiments db_error, db)
      else let protected = map ex_id (all_retaining_open_or_within_window (dl_rfc dl) (es_table es) now)
           in case (if retention_days < 2 ^ 63 then dl_sub_days dl now retention_days else None) of
                None \<Rightarrow> (SweepDisabled, db)
              | Some oldest \<Rightarrow>
                  (case purge_older_than_except (dl_fmt dl oldest) protected db of
                     (Inr deleted, db) \<Rightarrow> (Purged deleted protected, db)
                   | (Inl e, db) \<Rightarrow> (SweepFailed e, db)))"

fun expire_loop ::
  "int list \<Rightarrow> outcome_db \<Rightarrow> prompt_db \<Rightarrow> expired_experiment list \<Rightarrow> (int \<times> string) list
     \<Rightarrow> (expired_experiment list \<times> (int \<times> string) list) \<times> outcome_db \<times> prompt_db" where
  "expire_loop [] od db expired failures = ((expired, failures), od, db)"
| "expire_loop (i # ids) od db expired failures =
     (case redact_experiment_content i db of
        (Inl e, db) \<Rightarrow> expire_loop ids od db expired (failures @ [(i, e)])
      | (Inr redacted, db) \<Rightarrow>
          (case clear_notes i od of
             (Inl e, od) \<Rightarrow>
               expire_loop ids od db
                 (expired @ [\<lparr>xp_experiment_id = i, xp_redacted = redacted, xp_notes_cleared = 0\<rparr>]) (failures @ [(i, e)])
           | (Inr cleared, od) \<Rightarrow>
               expire_loop ids od db
                 (expired @ [\<lparr>xp_experiment_id = i, xp_redacted = redacted, xp_notes_cleared = cleared\<rparr>]) failures))"

definition elapsed_ids :: "date_library \<Rightarrow> experiment_source \<Rightarrow> int \<Rightarrow> int list" where
  "elapsed_ids dl es now =
     map ex_id (filter (\<lambda>e. \<not> retention_window_open (dl_rfc dl) now e) (closed_retaining (es_table es)))"

definition expire_closed ::
  "date_library \<Rightarrow> experiment_source \<Rightarrow> int \<Rightarrow> outcome_db \<Rightarrow> prompt_db
     \<Rightarrow> (expired_experiment list \<times> (int \<times> string) list) \<times> outcome_db \<times> prompt_db" where
  "expire_closed dl es now od db =
     (if es_closed_fails es then (([], [(0, db_error)]), od, db)
      else expire_loop (elapsed_ids dl es now) od db [] [])"

definition run_retention_tick ::
  "date_library \<Rightarrow> experiment_source \<Rightarrow> nat \<Rightarrow> int \<Rightarrow> outcome_db \<Rightarrow> prompt_db
     \<Rightarrow> retention_report \<times> outcome_db \<times> prompt_db" where
  "run_retention_tick dl es retention_days now od db =
     (let (sweep, db) = global_sweep dl es retention_days now db;
          ((expired, failures), od, db) = expire_closed dl es now od db
      in (\<lparr>rr_sweep = sweep, rr_expired = expired, rr_failures = failures\<rparr>, od, db))"

section \<open>Facts\<close>

lemma redact_rows:
  assumes "redact_experiment_content i db = (r, db')"
  shows "pd_rows db' = (case r of Inl e \<Rightarrow> pd_rows db | Inr n \<Rightarrow> map (redact_row i) (pd_rows db))"
proof -
  obtain bad db1 where s: "sql_prompt db = (bad, db1)" by fastforce
  from sql_prompt_rows [OF s] assms s show ?thesis by (auto simp: redact_experiment_content_def split: if_splits)
qed

text \<open>The loop redacts each experiment it reports, and touches no row of another.\<close>

lemma expire_loop_rows:
  assumes "expire_loop ids od db expired failures = ((expired', failures'), od', db')"
  shows "\<exists>done. set done \<subseteq> set ids \<and> pd_rows db' = map (\<lambda>p. fold redact_row done p) (pd_rows db)
    \<and> xp_experiment_id ` set expired' \<subseteq> xp_experiment_id ` set expired \<union> set done"
  using assms
proof (induction ids arbitrary: od db expired failures)
  case Nil
  then show ?case by (intro exI [of _ "[]"]) auto
next
  case (Cons i ids)
  obtain r db1 where r: "redact_experiment_content i db = (r, db1)" by fastforce
  obtain c od1 where c: "clear_notes i od = (c, od1)" by fastforce
  show ?case
  proof (cases r)
    case (Inl e)
    with Cons.prems r have "expire_loop ids od db1 expired (failures @ [(i, e)]) = ((expired', failures'), od', db')" by simp
    from Cons.IH [OF this] redact_rows [OF r] Inl show ?thesis by auto
  next
    case (Inr n)
    have "\<exists>k fl. expire_loop ids od1 db1
        (expired @ [\<lparr>xp_experiment_id = i, xp_redacted = n, xp_notes_cleared = k\<rparr>]) fl = ((expired', failures'), od', db')"
      using Cons.prems r c Inr by (cases c) auto
    then obtain x fl where x: "xp_experiment_id x = i"
      "expire_loop ids od1 db1 (expired @ [x]) fl = ((expired', failures'), od', db')"
      by (metis expired_experiment.select_convs(1))
    from Cons.IH [OF x(2)] obtain ds where "set ds \<subseteq> set ids"
      "pd_rows db' = map (\<lambda>p. fold redact_row ds p) (pd_rows db1)"
      "xp_experiment_id ` set expired' \<subseteq> xp_experiment_id ` set (expired @ [x]) \<union> set ds" by blast
    with redact_rows [OF r] Inr x(1) show ?thesis by (intro exI [of _ "i # ds"]) auto
  qed
qed

lemma fold_redact_other: "np_experiment_id p \<notin> Some ` set ds \<Longrightarrow> fold redact_row ds p = p"
  by (induction ds) (auto simp: redact_row_other)

lemma fold_redact_fields [simp]:
  "np_experiment_id (fold redact_row ds p) = np_experiment_id p" "pr_id (fold redact_row ds p) = pr_id p"
  by (induction ds arbitrary: p) auto

lemma redact_keeps_done: "\<not> has_content p \<Longrightarrow> \<not> has_content (redact_row i p)"
  by (auto simp: redact_row_def)

lemma fold_redact_keeps_done: "\<not> has_content p \<Longrightarrow> \<not> has_content (fold redact_row ds p)"
  by (induction ds arbitrary: p) (auto dest: redact_keeps_done)

lemma fold_redact_done: "np_experiment_id p = Some i \<Longrightarrow> i \<in> set ds \<Longrightarrow> \<not> has_content (fold redact_row ds p)"
proof (induction ds arbitrary: p)
  case (Cons j ds)
  show ?case
  proof (cases "i = j")
    case True
    with Cons.prems redact_row_done [of p i] fold_redact_keeps_done show ?thesis by simp
  next
    case False
    with Cons.prems Cons.IH [of "redact_row j p"] show ?thesis by simp
  qed
qed simp

lemma elapsed_id_row:
  "i \<in> set (elapsed_ids dl es now) \<Longrightarrow>
    \<exists>e \<in> set (et_rows (es_table es)). ex_id e = i \<and> \<not> retention_window_open (dl_rfc dl) now e"
  by (auto simp: elapsed_ids_def closed_retaining_def)

lemma expire_closed_rows:
  assumes "expire_closed dl es now od db = ((expired, failures), od', db')"
  shows "\<exists>done. set done \<subseteq> set (elapsed_ids dl es now) \<and> pd_rows db' = map (\<lambda>p. fold redact_row done p) (pd_rows db)
    \<and> xp_experiment_id ` set expired \<subseteq> set done"
  using assms expire_loop_rows [of "elapsed_ids dl es now" od db "[]" "[]"]
  by (auto simp: expire_closed_def split: if_splits intro: exI [of _ "[]"])

lemma global_sweep_keeps:
  assumes "global_sweep dl es days now db = (sw, db')"
    and "e \<in> set (et_rows (es_table es))" and "ex_retain_content e" and "retention_window_open (dl_rfc dl) now e"
    and "p \<in> set (pd_rows db)" and "np_experiment_id p = Some (ex_id e)"
  shows "p \<in> set (pd_rows db')"
proof -
  let ?ids = "map ex_id (all_retaining_open_or_within_window (dl_rfc dl) (es_table es) now)"
  have e: "ex_id e \<in> set ?ids" using assms(2-4) by (auto simp: all_retaining_open_or_within_window_def)
  then have ne: "?ids \<noteq> []" by auto
  have sp: "stamped_in ?ids p" using e assms(6) by (simp add: stamped_in_def)
  show ?thesis
  proof (cases "pd_rows db' = pd_rows db")
    case False
    then obtain cutoff r where "purge_older_than_except cutoff ?ids db = (r, db')"
      using assms(1) by (auto simp: global_sweep_def Let_def split: if_splits option.splits prod.splits sum.splits)
    from arg_cong [OF purge_except_keeps [OF this ne], of set] sp assms(5) show ?thesis by auto
  qed (use assms(5) in simp)
qed

section \<open>Properties\<close>

text \<open>
  C35. The tick never touches the evidence of an open experiment: a prompt row stamped with a
  retaining experiment whose content window is open is still there afterwards with its content,
  however old it is and whichever database calls of the tick fail.
\<close>

theorem retention_spares_open_windows:
  assumes "table_ok (es_table es)" and "e \<in> set (et_rows (es_table es))"
    and "ex_retain_content e" and "retention_window_open (dl_rfc dl) now e"
    and "p \<in> set (pd_rows db)" and "np_experiment_id p = Some (ex_id e)"
  shows "p \<in> set (pd_rows (snd (snd (run_retention_tick dl es days now od db))))"
proof -
  obtain sw db1 where s: "global_sweep dl es days now db = (sw, db1)" by fastforce
  obtain ex fl od2 db2 where c: "expire_closed dl es now od db1 = ((ex, fl), od2, db2)" by (metis prod_cases3 surj_pair)
  from global_sweep_keeps [OF s assms(2-6)] have p: "p \<in> set (pd_rows db1)" .
  from expire_closed_rows [OF c] obtain ds where ds: "set ds \<subseteq> set (elapsed_ids dl es now)"
    "pd_rows db2 = map (\<lambda>p. fold redact_row ds p) (pd_rows db1)" by blast
  have "ex_id e \<notin> set ds"
  proof
    assume "ex_id e \<in> set ds"
    with ds(1) elapsed_id_row obtain e' where "e' \<in> set (et_rows (es_table es))" "ex_id e' = ex_id e"
      "\<not> retention_window_open (dl_rfc dl) now e'" by blast
    with assms(1,2,4) show False by (auto simp: table_ok_def distinct_map dest: inj_onD)
  qed
  then have "fold redact_row ds p = p" using assms(6) by (intro fold_redact_other) auto
  with p ds(2) have "p \<in> set (pd_rows db2)" by (metis image_eqI list.set_map)
  with s c show ?thesis by (simp add: run_retention_tick_def)
qed

definition sample_dates :: date_library where
  "sample_dates = \<lparr>dl_rfc = (\<lambda>_. None), dl_fmt = (\<lambda>_. ''9''), dl_sub_days = (\<lambda>n d. Some n)\<rparr>"

definition sample_source :: experiment_source where
  "sample_source =
     \<lparr>es_table = \<lparr>et_rows = [sample_experiment\<lparr>ex_retain_content := True\<rparr>], et_last_id = 1\<rparr>,
      es_open_fails = False, es_closed_fails = False\<rparr>"

definition sample_prompt :: prompt_row where
  "sample_prompt =
     \<lparr>np_user_id = 1, np_session_id = None, np_request_model = ''m'', np_routed_model = ''m'', np_provider = ''p'',
      np_messages = ''secret'', np_response = Some ''answer'', np_finish_reason = None, np_prompt_tokens = 1,
      np_completion_tokens = 1, np_cache_read_tokens = 0, np_cache_write_tokens = 0, np_cost_usd = 0,
      np_latency_ms = None, np_ttft_ms = None, np_attempts = None, np_tags = [], np_project = None,
      np_correlation_id = None, np_attribution_tags = [], np_experiment_id = Some 1, np_experiment_variant = Some ''a'',
      pr_id = 1, pr_created_at = ''1''\<rparr>"

theorem retention_spares_open_windows_witness:
  "sample_prompt \<in> set (pd_rows (snd (snd (run_retention_tick sample_dates sample_source 1 5
     \<lparr>od_rows = [], od_faults = []\<rparr> \<lparr>pd_rows = [sample_prompt], pd_last_id = 1, pd_faults = []\<rparr>))))"
  by (rule retention_spares_open_windows [where e = "sample_experiment\<lparr>ex_retain_content := True\<rparr>"])
    (simp_all add: sample_source_def table_ok_def sample_experiment_def retention_window_open_def sample_prompt_def)

text \<open>
  An experiment the tick reports as expired has lost its content: every row stamped with it
  that is left holds the placeholder and no answer, and the rows are still those of before with
  their other columns.
\<close>

theorem expired_content_is_gone:
  "let (report, od', db') = run_retention_tick dl es days now od db
   in list_all (\<lambda>x. list_all (\<lambda>p. \<not> has_content p)
        (filter (\<lambda>p. np_experiment_id p = Some (xp_experiment_id x)) (pd_rows db'))) (rr_expired report)
      \<and> set (map pr_id (pd_rows db')) \<subseteq> set (map pr_id (pd_rows db))"
proof -
  obtain sw db1 where s: "global_sweep dl es days now db = (sw, db1)" by fastforce
  obtain ex fl od2 db2 where c: "expire_closed dl es now od db1 = ((ex, fl), od2, db2)" by (metis prod_cases3 surj_pair)
  from expire_closed_rows [OF c] obtain ds where ds: 
    "pd_rows db2 = map (\<lambda>p. fold redact_row ds p) (pd_rows db1)" "xp_experiment_id ` set ex \<subseteq> set ds" by blast
  have "set (pd_rows db1) \<subseteq> set (pd_rows db)"
    using s by (auto simp: global_sweep_def Let_def dest!: purge_except_subset split: if_splits option.splits prod.splits sum.splits)
  then have "set (map pr_id (pd_rows db2)) \<subseteq> set (map pr_id (pd_rows db))" unfolding ds(1) by auto
  moreover have "list_all (\<lambda>x. list_all (\<lambda>p. \<not> has_content p)
        (filter (\<lambda>p. np_experiment_id p = Some (xp_experiment_id x)) (pd_rows db2))) ex"
    using ds fold_redact_done by (fastforce simp: list_all_iff)
  ultimately show ?thesis using s c by (simp add: run_retention_tick_def)
qed

end
