(* ===== verification/Extensions.thy ===== *)
theory Extensions
  imports Json Ledger
begin

text \<open>
  Guardrails (\<open>src/src/guardrails/\<close>), pipeline hooks with their permissions
  (\<open>src/src/hooks/pipeline.rs\<close>, \<open>permissions.rs\<close>, \<open>src/src/db/sqlite/hooks.rs\<close>) and the payloads of
  lifecycle hooks (\<open>src/src/hooks/lifecycle.rs\<close>). Guardrail implementations, the HTTP client and the
  programs the hooks run act on a world \<open>'w\<close> and are parameters.
\<close>

section \<open>Guardrails\<close>

record guardrail_context =
  gx_messages :: json
  gx_model :: string
  gx_user_id :: int

datatype guardrail_decision = GuardAllow | GuardBlock string | GuardReplace string

record 'w guardrail =
  gd_name :: string
  gd_request :: "guardrail_context \<Rightarrow> 'w \<Rightarrow> guardrail_decision \<times> 'w"
  gd_response :: "guardrail_context \<Rightarrow> string \<Rightarrow> 'w \<Rightarrow> guardrail_decision \<times> 'w"

type_synonym 'w guardrail_chain = "('w guardrail \<times> bool) list"

fun check_request :: "'w guardrail_chain \<Rightarrow> guardrail_context \<Rightarrow> 'w \<Rightarrow> guardrail_decision \<times> 'w" where
  "check_request [] ctx w = (GuardAllow, w)"
| "check_request ((g, fail_open) # gs) ctx w =
     (case gd_request g ctx w of
        (GuardAllow, w) \<Rightarrow> check_request gs ctx w
      | (other, w) \<Rightarrow> (other, w))"

fun check_response :: "'w guardrail_chain \<Rightarrow> guardrail_context \<Rightarrow> string \<Rightarrow> 'w \<Rightarrow> guardrail_decision \<times> 'w" where
  "check_response [] ctx r w = (GuardAllow, w)"
| "check_response ((g, fail_open) # gs) ctx r w =
     (case gd_response g ctx r w of
        (GuardAllow, w) \<Rightarrow> check_response gs ctx r w
      | (other, w) \<Rightarrow> (other, w))"

text \<open>
  The moderation guardrail. \<open>post\<close> sends a body: it fails (\<open>Inl\<close>), answers what does not parse
  (\<open>Inr (Inl _)\<close>), or answers a JSON value.
\<close>

type_synonym 'w http_post = "json \<Rightarrow> 'w \<Rightarrow> (string + (string + json)) \<times> 'w"

record moderation_guardrail =
  mg_api_key :: string
  mg_fail_open :: bool

definition messages_to_text :: "json \<Rightarrow> string" where
  "messages_to_text messages =
     (case as_array messages of
        Some ms \<Rightarrow> join_lines (List.map_filter (\<lambda>m. as_str (jget m ''content'')) ms)
      | None \<Rightarrow> [])"

definition moderate :: "'w http_post \<Rightarrow> moderation_guardrail \<Rightarrow> string \<Rightarrow> 'w \<Rightarrow> guardrail_decision \<times> 'w" where
  "moderate post g txt w =
     (if mg_api_key g = [] \<or> txt = [] then (GuardAllow, w)
      else case post (jobj [(''input'', JStr txt)]) w of
             (Inl e, w) \<Rightarrow>
               (if mg_fail_open g then GuardAllow else GuardBlock (''moderation check failed: '' @ e), w)
           | (Inr (Inl e), w) \<Rightarrow>
               (if mg_fail_open g then GuardAllow else GuardBlock (''moderation parse failed: '' @ e), w)
           | (Inr (Inr v), w) \<Rightarrow>
               (if as_bool (jget (jidx (jget v ''results'') 0) ''flagged'') = Some True
                then GuardBlock ''content flagged by OpenAI moderation'' else GuardAllow, w))"

definition moderation :: "'w http_post \<Rightarrow> moderation_guardrail \<Rightarrow> 'w guardrail" where
  "moderation post g =
     \<lparr>gd_name = ''openai-moderation'',
      gd_request = (\<lambda>ctx w. moderate post g (messages_to_text (gx_messages ctx)) w),
      gd_response = (\<lambda>ctx r w. moderate post g r w)\<rparr>"

section \<open>Hook configuration and permissions\<close>

record lifecycle_hook =
  lh_name :: string
  lh_event :: string
  lh_exec :: string
  lh_timeout_secs :: nat

record pipeline_hook =
  ph_name :: string
  ph_event :: string
  ph_exec :: string
  ph_capabilities :: "string list"
  ph_timeout_secs :: nat
  ph_fail_open :: bool

record hook_permission =
  hp_hook_name :: string
  hp_capability :: string
  hp_granted_by :: "int option"
  hp_granted_at :: string

record hook_metric =
  hm_hook_name :: string
  hm_invoked_at :: string
  hm_duration_ms :: int
  hm_success :: bool

text \<open>The two tables, whether the database currently answers, and the world.\<close>

record 'w hook_state =
  hs_permissions :: "hook_permission list"
  hs_metrics :: "hook_metric list"
  hs_down :: bool
  hs_world :: 'w

definition granted :: "hook_permission list \<Rightarrow> string \<Rightarrow> string \<Rightarrow> bool" where
  "granted ps hook cap \<longleftrightarrow> list_ex (\<lambda>p. hp_hook_name p = hook \<and> hp_capability p = cap) ps"

definition has_permission :: "'w hook_state \<Rightarrow> string \<Rightarrow> string \<Rightarrow> string + bool" where
  "has_permission st hook cap = (if hs_down st then Inl db_error else Inr (granted (hs_permissions st) hook cap))"

definition grant_permission ::
  "string \<Rightarrow> string \<Rightarrow> string \<Rightarrow> int option \<Rightarrow> 'w hook_state \<Rightarrow> (string + unit) \<times> 'w hook_state" where
  "grant_permission now hook cap by_admin st =
     (if hs_down st then (Inl db_error, st)
      else if granted (hs_permissions st) hook cap then (Inr (), st)
      else (Inr (), st\<lparr>hs_permissions := hs_permissions st
              @ [\<lparr>hp_hook_name = hook, hp_capability = cap, hp_granted_by = by_admin, hp_granted_at = now\<rparr>]\<rparr>))"

definition revoke_permission :: "string \<Rightarrow> string \<Rightarrow> 'w hook_state \<Rightarrow> (string + unit) \<times> 'w hook_state" where
  "revoke_permission hook cap st =
     (if hs_down st then (Inl db_error, st)
      else (Inr (), st\<lparr>hs_permissions :=
              filter (\<lambda>p. \<not> (hp_hook_name p = hook \<and> hp_capability p = cap)) (hs_permissions st)\<rparr>))"

definition record_metric :: "hook_metric \<Rightarrow> 'w hook_state \<Rightarrow> (string + unit) \<times> 'w hook_state" where
  "record_metric m st =
     (if hs_down st then (Inl db_error, st) else (Inr (), st\<lparr>hs_metrics := hs_metrics st @ [m]\<rparr>))"

definition list_metrics :: "'w hook_state \<Rightarrow> string \<Rightarrow> string + hook_metric list" where
  "list_metrics st hook =
     (if hs_down st then Inl db_error
      else Inr (rev (sort_key hm_invoked_at (filter (\<lambda>m. hm_hook_name m = hook) (hs_metrics st)))))"

section \<open>Pipeline hooks\<close>

text \<open>How a hook's program ended: with its output, with an error, or past its timeout.\<close>

datatype hook_run = HookOutput string | HookFailed string | HookTimedOut

text \<open>
  \<open>ho_run\<close> runs a program with a timeout and a payload; \<open>ho_parse\<close> is the JSON parser with its
  error text; the clock is read before and after a hook.
\<close>

record 'w hook_ops =
  ho_run :: "string \<Rightarrow> nat \<Rightarrow> json \<Rightarrow> 'w \<Rightarrow> hook_run \<times> 'w"
  ho_parse :: "string \<Rightarrow> string + json"
  ho_now_ms :: "'w \<Rightarrow> int"
  ho_timestamp :: "'w \<Rightarrow> string"

definition required_capability :: "string \<Rightarrow> string option" where
  "required_capability event =
     (if event = ''pre_request'' then Some ''mutate_request''
      else if event = ''post_response'' then Some ''mutate_response'' else None)"

definition hook_msg :: "pipeline_hook \<Rightarrow> string \<Rightarrow> string" where
  "hook_msg h rest = ''pipeline hook '' @ quoted (ph_name h) @ rest"

definition hook_failed_msg :: "pipeline_hook \<Rightarrow> string \<Rightarrow> string" where
  "hook_failed_msg h e = hook_msg h ('' failed: '' @ e)"

definition process_hook_result ::
  "'w hook_ops \<Rightarrow> hook_run \<Rightarrow> json \<Rightarrow> bool \<Rightarrow> pipeline_hook \<Rightarrow> string + json" where
  "process_hook_result ops result payload can_mutate h =
     (case result of
        HookOutput out \<Rightarrow>
          if can_mutate
          then (case ho_parse ops out of
                  Inr new_payload \<Rightarrow> Inr new_payload
                | Inl e \<Rightarrow>
                    if ph_fail_open h then Inr payload else Inl (hook_msg h ('' returned invalid JSON: '' @ e)))
          else Inr payload
      | HookFailed e \<Rightarrow> if ph_fail_open h then Inr payload else Inl e
      | HookTimedOut \<Rightarrow> if ph_fail_open h then Inr payload else Inl (hook_msg h '' timed out''))"

definition run_single_pipeline_hook ::
  "'w hook_ops \<Rightarrow> pipeline_hook \<Rightarrow> json \<Rightarrow> 'w hook_state \<Rightarrow> (string + json) \<times> 'w hook_state" where
  "run_single_pipeline_hook ops h payload st =
     (case required_capability (ph_event h) of
        None \<Rightarrow> (Inr payload, st)
      | Some cap \<Rightarrow>
          let claims = cap \<in> set (ph_capabilities h)
          in case (if claims then has_permission st (ph_name h) cap else Inr True) of
               Inl e \<Rightarrow> (Inl e, st)
             | Inr can_run \<Rightarrow>
                 if \<not> can_run then (Inr payload, st)
                 else let (result, w) = ho_run ops (ph_exec h) (ph_timeout_secs h) payload (hs_world st)
                      in (process_hook_result ops result payload claims h, st\<lparr>hs_world := w\<rparr>))"

fun run_hooks ::
  "'w hook_ops \<Rightarrow> pipeline_hook list \<Rightarrow> json \<Rightarrow> 'w hook_state \<Rightarrow> (string + json) \<times> 'w hook_state" where
  "run_hooks ops [] payload st = (Inr payload, st)"
| "run_hooks ops (h # hs) payload st =
     (let start = ho_now_ms ops (hs_world st);
          (result, st) = run_single_pipeline_hook ops h payload st;
          metric = \<lparr>hm_hook_name = ph_name h, hm_invoked_at = ho_timestamp ops (hs_world st),
                    hm_duration_ms = ho_now_ms ops (hs_world st) - start, hm_success = (\<not> isl result)\<rparr>;
          (_, st) = record_metric metric st
      in case result of
           Inr new_payload \<Rightarrow> run_hooks ops hs new_payload st
         | Inl e \<Rightarrow>
             if ph_fail_open h then run_hooks ops hs payload st
             else (Inl (hook_failed_msg h e), st))"

definition run_pipeline_hooks ::
  "'w hook_ops \<Rightarrow> pipeline_hook list \<Rightarrow> string \<Rightarrow> json \<Rightarrow> 'w hook_state \<Rightarrow> (string + json) \<times> 'w hook_state" where
  "run_pipeline_hooks ops hs event payload st = run_hooks ops (filter (\<lambda>h. ph_event h = event) hs) payload st"

definition run_pre_request ::
  "'w hook_ops \<Rightarrow> pipeline_hook list \<Rightarrow> json \<Rightarrow> 'w hook_state \<Rightarrow> (string + json) \<times> 'w hook_state" where
  "run_pre_request ops hs body st = run_pipeline_hooks ops hs ''pre_request'' body st"

definition run_post_response ::
  "'w hook_ops \<Rightarrow> pipeline_hook list \<Rightarrow> json \<Rightarrow> 'w hook_state \<Rightarrow> (string + json) \<times> 'w hook_state" where
  "run_post_response ops hs body st = run_pipeline_hooks ops hs ''post_response'' body st"

text \<open>The capabilities \<open>sync_hook_permissions\<close> warns about, or the failure of a lookup.\<close>

definition hook_capabilities :: "pipeline_hook list \<Rightarrow> (string \<times> string) list" where
  "hook_capabilities hs = concat (map (\<lambda>h. map (\<lambda>c. (ph_name h, c)) (ph_capabilities h)) hs)"

definition sync_hook_permissions :: "'w hook_state \<Rightarrow> pipeline_hook list \<Rightarrow> string + (string \<times> string) list" where
  "sync_hook_permissions st hs =
     (if hs_down st \<and> hook_capabilities hs \<noteq> [] then Inl db_error
      else Inr (filter (\<lambda>(h, c). \<not> granted (hs_permissions st) h c) (hook_capabilities hs)))"

section \<open>Lifecycle payloads\<close>

definition request_received_payload :: "string \<Rightarrow> string \<Rightarrow> nat \<Rightarrow> string \<Rightarrow> json" where
  "request_received_payload user model n now =
     jobj [(''event'', JStr ''on_request_received''), (''user_name'', JStr user), (''model'', JStr model),
           (''message_count'', jnat n), (''timestamp'', JStr now)]"

definition response_sent_payload :: "string \<Rightarrow> string \<Rightarrow> string \<Rightarrow> rat \<Rightarrow> int \<Rightarrow> json" where
  "response_sent_payload user model routed cost latency =
     jobj [(''event'', JStr ''on_response_sent''), (''user_name'', JStr user), (''model'', JStr model),
           (''routed_model'', JStr routed), (''cost_usd'', JNum (Float cost)),
           (''latency_ms'', JNum (if 0 \<le> latency then PosInt (nat latency) else NegInt latency))]"

definition budget_exceeded_payload :: "string \<Rightarrow> string \<Rightarrow> rat \<Rightarrow> rat \<Rightarrow> string \<Rightarrow> json" where
  "budget_exceeded_payload user model limit spent_usd window =
     jobj [(''event'', JStr ''on_budget_exceeded''), (''user_name'', JStr user), (''model'', JStr model),
           (''limit_usd'', JNum (Float limit)), (''spent_usd'', JNum (Float spent_usd)), (''window'', JStr window)]"

definition stream_complete_payload :: "string \<Rightarrow> string \<Rightarrow> nat \<Rightarrow> rat \<Rightarrow> json" where
  "stream_complete_payload user model approx cost =
     jobj [(''event'', JStr ''on_stream_complete''), (''user_name'', JStr user), (''model'', JStr model),
           (''approx_tokens'', jnat approx), (''cost_usd'', JNum (Float cost))]"

definition error_payload :: "string \<Rightarrow> string \<Rightarrow> string \<Rightarrow> string \<Rightarrow> json" where
  "error_payload user model error_type message =
     jobj [(''event'', JStr ''on_error''), (''user_name'', JStr user), (''model'', JStr model),
           (''error_type'', JStr error_type), (''message'', JStr message)]"

definition user_disabled_payload :: "string \<Rightarrow> string \<Rightarrow> json" where
  "user_disabled_payload user disabled_by =
     jobj [(''event'', JStr ''on_user_disabled''), (''user_name'', JStr user), (''disabled_by'', JStr disabled_by)]"

text \<open>The hooks of an event, in configuration order.\<close>

definition hooks_for :: "lifecycle_hook list \<Rightarrow> string \<Rightarrow> lifecycle_hook list" where
  "hooks_for hs event = filter (\<lambda>h. lh_event h = event) hs"

section \<open>Facts\<close>

lemma check_request_append:
  "check_request (gs @ hs) ctx w =
     (case check_request gs ctx w of (GuardAllow, w') \<Rightarrow> check_request hs ctx w' | other \<Rightarrow> other)"
proof (induction gs arbitrary: w)
  case (Cons g gs)
  obtain x fo where "g = (x, fo)" by fastforce
  then show ?case by (cases "gd_request x ctx w"; cases "fst (gd_request x ctx w)") (auto simp: Cons.IH)
qed simp

lemma check_response_append:
  "check_response (gs @ hs) ctx r w =
     (case check_response gs ctx r w of (GuardAllow, w') \<Rightarrow> check_response hs ctx r w' | other \<Rightarrow> other)"
proof (induction gs arbitrary: w)
  case (Cons g gs)
  obtain x fo where "g = (x, fo)" by fastforce
  then show ?case by (cases "gd_response x ctx r w"; cases "fst (gd_response x ctx r w)") (auto simp: Cons.IH)
qed simp

lemma record_metric_frame [simp]:
  "record_metric m st = (r, st') \<Longrightarrow> hs_permissions st' = hs_permissions st \<and> hs_world st' = hs_world st \<and> hs_down st' = hs_down st"
  by (auto simp: record_metric_def split: if_splits)

text \<open>What one hook may do.\<close>

definition may_mutate :: "hook_permission list \<Rightarrow> pipeline_hook \<Rightarrow> bool" where
  "may_mutate ps h \<longleftrightarrow>
     (case required_capability (ph_event h) of
        Some cap \<Rightarrow> cap \<in> set (ph_capabilities h) \<and> granted ps (ph_name h) cap
      | None \<Rightarrow> False)"

definition claims_ungranted :: "hook_permission list \<Rightarrow> pipeline_hook \<Rightarrow> bool" where
  "claims_ungranted ps h \<longleftrightarrow>
     (case required_capability (ph_event h) of
        Some cap \<Rightarrow> cap \<in> set (ph_capabilities h) \<and> \<not> granted ps (ph_name h) cap
      | None \<Rightarrow> False)"

definition blames :: "pipeline_hook \<Rightarrow> string \<Rightarrow> bool" where
  "blames h e \<longleftrightarrow> (\<exists>why. e = hook_failed_msg h why)"

lemma blames_own [simp]: "blames h (hook_failed_msg h why)"
  by (auto simp: blames_def)

lemma single_hook:
  assumes "run_single_pipeline_hook ops h payload st = (r, st')"
  shows "hs_permissions st' = hs_permissions st \<and> hs_down st' = hs_down st
    \<and> (r = Inr payload \<or> may_mutate (hs_permissions st) h \<or> (\<exists>e. r = Inl e))
    \<and> (claims_ungranted (hs_permissions st) h \<longrightarrow> hs_world st' = hs_world st)"
  using assms
  by (auto simp: run_single_pipeline_hook_def process_hook_result_def may_mutate_def claims_ungranted_def
      has_permission_def Let_def split: option.splits if_splits sum.splits prod.splits hook_run.splits)

lemma run_hooks_facts:
  assumes "run_hooks ops hs payload st = (r, st')"
  shows "hs_permissions st' = hs_permissions st
    \<and> (case r of
         Inr p \<Rightarrow> p = payload \<or> (\<exists>h \<in> set hs. may_mutate (hs_permissions st) h)
       | Inl e \<Rightarrow> \<exists>h \<in> set hs. \<not> ph_fail_open h \<and> blames h e)
    \<and> (list_all (claims_ungranted (hs_permissions st)) hs \<longrightarrow> hs_world st' = hs_world st)"
  using assms
proof (induction hs arbitrary: payload st)
  case (Cons h hs)
  obtain r1 st1 where s: "run_single_pipeline_hook ops h payload st = (r1, st1)" by fastforce
  note sh = single_hook [OF s]
  define metric where "metric = \<lparr>hm_hook_name = ph_name h, hm_invoked_at = ho_timestamp ops (hs_world st1),
    hm_duration_ms = ho_now_ms ops (hs_world st1) - ho_now_ms ops (hs_world st), hm_success = (\<not> isl r1)\<rparr>"
  obtain u st2 where m: "record_metric metric st1 = (u, st2)" by fastforce
  note mf = record_metric_frame [OF m]
  show ?case
  proof (cases "\<exists>e. r1 = Inl e \<and> \<not> ph_fail_open h")
    case True
    with Cons.prems s m sh mf show ?thesis by (auto simp: Let_def metric_def)
  next
    case False
    define p1 where "p1 = (case r1 of Inr p \<Rightarrow> p | Inl _ \<Rightarrow> payload)"
    have "run_hooks ops hs p1 st2 = (r, st')"
      using Cons.prems s m False by (auto simp: Let_def metric_def p1_def split: sum.splits)
    note ih = Cons.IH [OF this]
    have "p1 = payload \<or> may_mutate (hs_permissions st) h" using sh by (auto simp: p1_def split: sum.splits)
    with ih sh mf show ?thesis by (cases r) auto
  qed
qed auto

section \<open>Properties\<close>


end
