(* ===== verification/Api_Failures.thy ===== *)
theory Api_Failures
  imports Prompt_Log
begin

text \<open>
  What a failed request answers and leaves behind: \<open>ApiError::into_response\<close>
  (\<open>src/src/api/error.rs\<close>), the capture of failures (\<open>src/src/api/failure_log.rs\<close>) and their
  SQLite repository (\<open>src/src/db/sqlite/failures.rs\<close>).
\<close>

section \<open>The response\<close>

definition display_error :: "api_error \<Rightarrow> string" where
  "display_error e =
     (case e of
        Unauthorized \<Rightarrow> ''unauthorized''
      | Forbidden \<Rightarrow> ''forbidden''
      | ProviderError x \<Rightarrow> ''provider error: '' @ show_error x
      | InvalidRequest m \<Rightarrow> ''invalid request: '' @ m
      | PolicyDenied why st \<Rightarrow> ''policy denied: '' @ why
      | Disabled m \<Rightarrow> m
      | Internal \<Rightarrow> ''internal error'')"

definition error_body :: "string \<Rightarrow> string \<Rightarrow> json" where
  "error_body message code =
     jobj [(''error'', jobj [(''message'', JStr message), (''type'', JStr code), (''code'', JStr code)])]"

definition expired_body :: "credential_expired \<Rightarrow> json" where
  "expired_body c =
     jobj [(''error'', jobj
       [(''message'', JStr (show_expired c)), (''type'', JStr credential_expired_code),
        (''code'', JStr credential_expired_code), (''provider'', JStr (ce_provider c)),
        (''credential_kind'', JStr (ce_credential_kind c)), (''reason'', JStr (ce_reason c)),
        (''remediation'', JStr (ce_remediation c))])]"

text \<open>\<open>StatusCode::from_u16\<close> accepts 100 to 999.\<close>

definition status_from_u16 :: "nat \<Rightarrow> nat option" where
  "status_from_u16 n = (if 100 \<le> n \<and> n \<le> 999 then Some n else None)"

definition error_response :: "api_error \<Rightarrow> nat \<times> json" where
  "error_response e =
     (case e of
        Unauthorized \<Rightarrow> (401, error_body ''unauthorized'' ''auth_error'')
      | Forbidden \<Rightarrow> (403, error_body ''forbidden'' ''forbidden'')
      | ProviderError x \<Rightarrow>
          (case find_credential_expired x of
             Some c \<Rightarrow> (401, expired_body c)
           | None \<Rightarrow> (502, error_body (show_error x) ''provider_error''))
      | InvalidRequest m \<Rightarrow> (400, error_body m ''invalid_request'')
      | PolicyDenied why st \<Rightarrow>
          (case status_from_u16 st of Some n \<Rightarrow> n | None \<Rightarrow> 429, error_body why ''policy_denied'')
      | Disabled m \<Rightarrow> (403, error_body m ''model_disabled'')
      | Internal \<Rightarrow> (500, error_body ''internal error'' ''internal_error''))"

definition bind_error_response :: "bind_error \<Rightarrow> api_error" where
  "bind_error_response e = InvalidRequest (bind_error_text e)"

section \<open>The log of failures\<close>

datatype failure_stage = StageResolve | StagePolicy | StageProvider | StageRequest | StageInternal

definition stage_str :: "failure_stage \<Rightarrow> string" where
  "stage_str s =
     (case s of StageResolve \<Rightarrow> ''resolve'' | StagePolicy \<Rightarrow> ''policy'' | StageProvider \<Rightarrow> ''provider''
      | StageRequest \<Rightarrow> ''request'' | StageInternal \<Rightarrow> ''internal'')"

definition stage_for :: "api_error \<Rightarrow> failure_stage" where
  "stage_for e =
     (case e of
        PolicyDenied _ _ \<Rightarrow> StagePolicy
      | Unauthorized \<Rightarrow> StagePolicy
      | Forbidden \<Rightarrow> StagePolicy
      | Disabled _ \<Rightarrow> StagePolicy
      | InvalidRequest _ \<Rightarrow> StageRequest
      | ProviderError x \<Rightarrow>
          (let msg = to_lower (show_error x)
           in if contains_sub ''unknown provider'' msg \<or> contains_sub ''no embedding adapter for provider'' msg
                \<or> contains_sub ''no adapter for provider'' msg
              then StageResolve else StageProvider)
      | Internal \<Rightarrow> StageInternal)"

definition status_for :: "api_error \<Rightarrow> nat" where
  "status_for e =
     (case e of
        Unauthorized \<Rightarrow> 401
      | Forbidden \<Rightarrow> 403
      | Disabled _ \<Rightarrow> 403
      | ProviderError x \<Rightarrow> if find_credential_expired x \<noteq> None then 401 else 502
      | InvalidRequest _ \<Rightarrow> 400
      | PolicyDenied _ st \<Rightarrow> st
      | Internal \<Rightarrow> 500)"

record failure_context =
  fc_endpoint :: string
  fc_request_model :: string
  fc_routed_model :: "string option"
  fc_provider :: "string option"
  fc_user_id :: "int option"
  fc_api_key_id :: "int option"
  fc_project :: "string option"
  fc_correlation_id :: "string option"
  fc_attribution_tags :: string
  fc_latency_ms :: "int option"
  fc_experiment_id :: "int option"
  fc_experiment_variant :: "string option"

text \<open>Best effort: an attribution or a header that is refused leaves its fields unset.\<close>

definition context_from_request ::
  "(string \<Rightarrow> json option) \<Rightarrow> (json \<Rightarrow> string) \<Rightarrow> request_router \<Rightarrow> experiment_registry \<Rightarrow> int
     \<Rightarrow> string \<Rightarrow> user \<Rightarrow> headers \<Rightarrow> json \<Rightarrow> failure_context option" where
  "context_from_request parse pr r reg now endpoint u hs body =
     (let request_model = (case as_str (jget body ''model'') of Some m \<Rightarrow> m | None \<Rightarrow> default_model (routing r));
          attribution = (case attribution_extract parse pr body hs of Inr a \<Rightarrow> Some a | Inl _ \<Rightarrow> None)
      in map_option
           (\<lambda>bound.
              let b = (case bound of Inr (Some b) \<Rightarrow> Some b | _ \<Rightarrow> None);
                  effective = (case Option.bind b (\<lambda>b. map_of (bd_overlay b) request_model) of
                                 Some m \<Rightarrow> m | None \<Rightarrow> request_model);
                  (p, m) = resolve r effective
              in \<lparr>fc_endpoint = endpoint, fc_request_model = request_model, fc_routed_model = Some m,
                  fc_provider = Some p, fc_user_id = Some (user_id u), fc_api_key_id = user_api_key_id u,
                  fc_project = api_key_project u, fc_correlation_id = Option.bind attribution at_correlation_id,
                  fc_attribution_tags = (case attribution of Some a \<Rightarrow> tags_json pr a | None \<Rightarrow> ''{}''),
                  fc_latency_ms = None, fc_experiment_id = map_option bd_experiment_id b,
                  fc_experiment_variant = map_option bd_variant b\<rparr>)
           (bind_experiment reg hs body (Option.bind attribution at_correlation_id) (user_id u) now))"

record new_request_failure =
  nf_user_id :: "int option"
  nf_api_key_id :: "int option"
  nf_endpoint :: string
  nf_request_model :: string
  nf_routed_model :: "string option"
  nf_provider :: "string option"
  nf_stage :: failure_stage
  nf_status_code :: "nat option"
  nf_error_message :: string
  nf_attempts :: int
  nf_latency_ms :: "int option"
  nf_project :: "string option"
  nf_correlation_id :: "string option"
  nf_attribution_tags :: string
  nf_experiment_id :: "int option"
  nf_experiment_variant :: "string option"

record request_failure = new_request_failure +
  rf_id :: int
  rf_created_at :: string

record failure_db =
  fd_rows :: "request_failure list"
  fd_last_id :: int
  fd_down :: bool

definition create_failure :: "string \<Rightarrow> failure_db \<Rightarrow> new_request_failure \<Rightarrow> (string + request_failure) \<times> failure_db" where
  "create_failure now db f =
     (if fd_down db then (Inl db_error, db)
      else let made = new_request_failure.extend f \<lparr>rf_id = fd_last_id db + 1, rf_created_at = now\<rparr>
           in (Inr made, db\<lparr>fd_rows := fd_rows db @ [made], fd_last_id := fd_last_id db + 1\<rparr>))"

definition list_failures :: "failure_db \<Rightarrow> nat \<Rightarrow> nat \<Rightarrow> string + request_failure list" where
  "list_failures db limit offset =
     (if fd_down db then Inl db_error
      else Inr (take limit (drop offset (rev (sort_key rf_created_at (fd_rows db))))))"

definition count_failures :: "failure_db \<Rightarrow> string + nat" where
  "count_failures db = (if fd_down db then Inl db_error else Inr (length (fd_rows db)))"

definition find_failure :: "failure_db \<Rightarrow> int \<Rightarrow> string + request_failure option" where
  "find_failure db i = (if fd_down db then Inl db_error else Inr (find (\<lambda>f. rf_id f = i) (fd_rows db)))"

definition find_failures_by_correlation :: "failure_db \<Rightarrow> string \<Rightarrow> string + request_failure list" where
  "find_failures_by_correlation db cid =
     (if fd_down db then Inl db_error
      else Inr (rev (sort_key rf_created_at (filter (\<lambda>f. nf_correlation_id f = Some cid) (fd_rows db)))))"

definition failure_record :: "failure_context \<Rightarrow> api_error \<Rightarrow> new_request_failure" where
  "failure_record ctx e =
     \<lparr>nf_user_id = fc_user_id ctx, nf_api_key_id = fc_api_key_id ctx, nf_endpoint = fc_endpoint ctx,
      nf_request_model = fc_request_model ctx, nf_routed_model = fc_routed_model ctx,
      nf_provider = fc_provider ctx, nf_stage = stage_for e, nf_status_code = Some (status_for e),
      nf_error_message = display_error e, nf_attempts = 1, nf_latency_ms = fc_latency_ms ctx,
      nf_project = fc_project ctx, nf_correlation_id = fc_correlation_id ctx,
      nf_attribution_tags = fc_attribution_tags ctx, nf_experiment_id = fc_experiment_id ctx,
      nf_experiment_variant = fc_experiment_variant ctx\<rparr>"

text \<open>A write that fails is only logged.\<close>

definition record_failure_row :: "string \<Rightarrow> failure_db \<Rightarrow> failure_context \<Rightarrow> api_error \<Rightarrow> failure_db" where
  "record_failure_row now db ctx e = snd (create_failure now db (failure_record ctx e))"

section \<open>Properties\<close>

text \<open>
  The failure log and the caller are told the same: the status recorded for an error is the
  status it is answered with (a policy status outside 100 to 999 is answered as 429), a client
  error of the caller is never filed as a provider failure, and an expired credential is a 401
  with its stable code.
\<close>

theorem failure_log_agrees_with_response:
  "(case e of
      PolicyDenied why st \<Rightarrow> fst (error_response e) = (if 100 \<le> st \<and> st \<le> 999 then status_for e else 429)
    | _ \<Rightarrow> fst (error_response e) = status_for e)
   \<and> (stage_for e = StageRequest) = (status_for e = 400 \<and> (\<exists>m. e = InvalidRequest m))
   \<and> ((stage_for e = StageProvider \<or> stage_for e = StageResolve) = (\<exists>x. e = ProviderError x))
   \<and> (case e of
        ProviderError x \<Rightarrow>
          (find_credential_expired x \<noteq> None)
            = (jget (jget (snd (error_response e)) ''error'') ''provider'' \<noteq> JNull)
      | _ \<Rightarrow> True)"
  by (cases e)
    (auto simp: error_response_def status_for_def stage_for_def status_from_u16_def Let_def expired_body_def
      error_body_def jget_jobj split: option.split)

end
