(* ===== verification/Stream_Logger.thy ===== *)
theory Stream_Logger
  imports Chat_Replay Extensions Api_Failures Response_Cache Cost
begin

text \<open>
  Accounting for a streamed completion (\<open>StreamLogger\<close> in \<open>src/src/api/routes/completions.rs\<close>):
  what each network chunk contributes, the settlement, the cost chunk spliced in before
  \<open>[DONE]\<close>, and the spawned writes. Spawned tasks are the effects a step emits; what each task does
  is a definition of its own. A step reads the clock and may find no runtime to spawn on: both are
  its \<open>reading\<close>. \<open>None\<close> is a panic.
\<close>

section \<open>One chunk\<close>

record reported_usage =
  ru_prompt_tokens :: nat
  ru_completion_tokens :: nat
  ru_cached_tokens :: nat
  ru_reasoning_tokens :: "nat option"

record sse_chunk_info =
  si_text :: string
  si_usage :: "reported_usage option"
  si_finish_reason :: "string option"
  si_done :: bool

definition no_info :: sse_chunk_info where
  "no_info = \<lparr>si_text = [], si_usage = None, si_finish_reason = None, si_done = False\<rparr>"

definition utf8_ok :: "string \<Rightarrow> bool" where
  "utf8_ok s \<longleftrightarrow> utf8_lossy s = s"

text \<open>\<open>split_inclusive('\n')\<close>, and \<open>lines()\<close>, which drops the terminators.\<close>

fun split_inclusive :: "string \<Rightarrow> string list" where
  "split_inclusive [] = []"
| "split_inclusive (c # s) =
     (if c = nl then [c] # split_inclusive s
      else case split_inclusive s of [] \<Rightarrow> [[c]] | l # ls \<Rightarrow> (c # l) # ls)"

definition strip_terminator :: "string \<Rightarrow> string" where
  "strip_terminator l = (if l \<noteq> [] \<and> last l = nl then strip_cr (butlast l) else l)"

definition str_lines :: "string \<Rightarrow> string list" where
  "str_lines s = map strip_terminator (split_inclusive s)"

definition data_space :: string where
  "data_space = ''data: ''"

definition is_done_line :: "string \<Rightarrow> bool" where
  "is_done_line line = (case strip_prefix data_space line of Some d \<Rightarrow> trim d = done_marker | None \<Rightarrow> False)"

definition usage_of :: "json \<Rightarrow> reported_usage option" where
  "usage_of usage =
     (case (as_u64 (jget usage ''prompt_tokens''), as_u64 (jget usage ''completion_tokens'')) of
        (Some p, Some c) \<Rightarrow>
          Some \<lparr>ru_prompt_tokens = as_u32 p, ru_completion_tokens = as_u32 c,
                ru_cached_tokens = as_u32 (u64_or_0 (jget (jget usage ''prompt_tokens_details'') ''cached_tokens'')),
                ru_reasoning_tokens =
                  map_option as_u32 (as_u64 (jget (jget usage ''completion_tokens_details'') ''reasoning_tokens''))\<rparr>
      | _ \<Rightarrow> None)"

definition note_json :: "json \<Rightarrow> sse_chunk_info \<Rightarrow> sse_chunk_info" where
  "note_json v ci =
     (let choice = jidx (jget v ''choices'') 0
      in ci\<lparr>si_text := si_text ci @ str_or [] (jget (jget choice ''delta'') ''content''),
              si_finish_reason :=
                (case as_str (jget choice ''finish_reason'') of Some r \<Rightarrow> Some r | None \<Rightarrow> si_finish_reason ci),
              si_usage := (case usage_of (jget v ''usage'') of Some u \<Rightarrow> Some u | None \<Rightarrow> si_usage ci)\<rparr>)"

definition note_line :: "(string \<Rightarrow> json option) \<Rightarrow> string \<Rightarrow> sse_chunk_info \<Rightarrow> sse_chunk_info" where
  "note_line parse line ci =
     (case strip_prefix data_space line of
        None \<Rightarrow> ci
      | Some d \<Rightarrow>
          if trim d = done_marker then ci\<lparr>si_done := True\<rparr>
          else (case parse d of None \<Rightarrow> ci | Some v \<Rightarrow> note_json v ci))"

definition parse_sse_chunk :: "(string \<Rightarrow> json option) \<Rightarrow> string \<Rightarrow> sse_chunk_info" where
  "parse_sse_chunk parse chunk = (if utf8_ok chunk then fold (note_line parse) (str_lines chunk) no_info else no_info)"

text \<open>\<open>None\<close> of the walk: no \<open>[DONE]\<close> line, the event goes to the end.\<close>

fun splice_event :: "string list \<Rightarrow> string \<Rightarrow> string option" where
  "splice_event [] event = None"
| "splice_event (l # ls) event =
     (if is_done_line l then Some (event @ l @ concat ls) else map_option (\<lambda>r. l @ r) (splice_event ls event))"

definition insert_before_done :: "string \<Rightarrow> string \<Rightarrow> string" where
  "insert_before_done chunk event =
     (if \<not> utf8_ok chunk then chunk @ event
      else case splice_event (split_inclusive chunk) event of Some out \<Rightarrow> out | None \<Rightarrow> chunk @ event)"

section \<open>The logger\<close>

record stream_ctx =
  sx_request_id :: string
  sx_requested_model :: string
  sx_settings :: json
  sx_user_id :: int
  sx_api_key_id :: "int option"
  sx_user_project :: "string option"
  sx_user_name :: string
  sx_model :: string
  sx_canonical_model :: string
  sx_provider :: string
  sx_messages_json :: string
  sx_write_prompt :: bool
  sx_storage :: storage_config
  sx_attribution :: attribution
  sx_experiment_id :: "int option"
  sx_experiment_variant :: "string option"
  sx_cache_key :: "string option"
  sx_cache_directives :: cache_directives

record stream_acc =
  ac_content :: string
  ac_usage :: "reported_usage option"
  ac_finish_reason :: "string option"
  ac_ttft_ms :: "int option"
  ac_recorded :: bool

record stream_settlement =
  ss_content :: string
  ss_finish_reason :: string
  ss_prompt_tokens :: nat
  ss_completion_tokens :: nat
  ss_cache_read_tokens :: nat
  ss_reasoning_tokens :: "nat option"
  ss_tokens_estimated :: bool
  ss_cost :: rat
  ss_latency_ms :: int
  ss_ttft_ms :: "int option"

record stream_logger =
  sl_acc :: stream_acc
  sl_capture :: "chat_capture option"
  sl_calc :: cost_calculator

text \<open>The clocks of one step (elapsed since dispatch and since receipt, Unix time) and the runtime.\<close>

record reading =
  rd_ttft :: int
  rd_latency :: int
  rd_total :: int
  rd_created :: int
  rd_runtime :: bool

datatype stream_effect =
    LedgerWrite stream_settlement "string option"
  | CacheStore completion_result

definition new_logger :: "stream_ctx \<Rightarrow> cost_calculator \<Rightarrow> stream_logger" where
  "new_logger ctx calc =
     \<lparr>sl_acc = \<lparr>ac_content = [], ac_usage = None, ac_finish_reason = None, ac_ttft_ms = None, ac_recorded = False\<rparr>,
      sl_capture = map_option (\<lambda>_. chat_new) (sx_cache_key ctx), sl_calc = calc\<rparr>"

definition spawn_cache_store :: "stream_ctx \<Rightarrow> reading \<Rightarrow> stream_logger \<Rightarrow> stream_logger \<times> stream_effect list" where
  "spawn_cache_store ctx rd lg =
     (let lg' = lg\<lparr>sl_capture := None\<rparr>
      in case (sl_capture lg, sx_cache_key ctx) of
           (Some capture, Some key) \<Rightarrow>
             (case chat_finish capture of
                None \<Rightarrow> (lg', [])
              | Some res \<Rightarrow> (lg', if rd_runtime rd then [CacheStore res] else []))
         | _ \<Rightarrow> (lg', []))"

definition logger_finish_reason :: "stream_logger \<Rightarrow> string option \<Rightarrow> string" where
  "logger_finish_reason lg provider_error =
     (case provider_error of
        Some _ \<Rightarrow> ''error''
      | None \<Rightarrow> (case ac_finish_reason (sl_acc lg) of Some r \<Rightarrow> r | None \<Rightarrow> ''stop''))"

definition settle :: "stream_ctx \<Rightarrow> reading \<Rightarrow> string \<Rightarrow> stream_logger \<Rightarrow> stream_settlement \<times> stream_logger" where
  "settle ctx rd why lg =
     (let txt = ac_content (sl_acc lg);
          (p, c, r, think, est) =
            (case ac_usage (sl_acc lg) of
               Some u \<Rightarrow> (ru_prompt_tokens u, ru_completion_tokens u, ru_cached_tokens u, ru_reasoning_tokens u, False)
             | None \<Rightarrow> (as_u32 (char_count (sx_messages_json ctx) div 4), as_u32 (char_count txt div 4), 0, None, True));
          (cost, calc) = calculate_with_cache (sl_calc lg) (sx_canonical_model ctx) (p - r) c r 0
      in (\<lparr>ss_content = txt, ss_finish_reason = why, ss_prompt_tokens = p, ss_completion_tokens = c,
           ss_cache_read_tokens = r, ss_reasoning_tokens = think, ss_tokens_estimated = est, ss_cost = cost,
           ss_latency_ms = rd_latency rd, ss_ttft_ms = ac_ttft_ms (sl_acc lg)\<rparr>,
          lg\<lparr>sl_calc := calc\<rparr>))"

definition set_recorded :: "stream_logger \<Rightarrow> stream_logger" where
  "set_recorded lg = lg\<lparr>sl_acc := (sl_acc lg)\<lparr>ac_recorded := True\<rparr>\<rparr>"

definition spawn_ledger_write :: "reading \<Rightarrow> stream_settlement \<Rightarrow> string option \<Rightarrow> stream_effect list" where
  "spawn_ledger_write rd s provider_error = (if rd_runtime rd then [LedgerWrite s provider_error] else [])"

definition record_stream ::
  "stream_ctx \<Rightarrow> reading \<Rightarrow> string option \<Rightarrow> stream_logger \<Rightarrow> stream_logger \<times> stream_effect list" where
  "record_stream ctx rd provider_error lg =
     (if ac_recorded (sl_acc lg) then (lg, [])
      else let (s, lg) = settle ctx rd (logger_finish_reason lg provider_error) (set_recorded lg)
           in (lg, spawn_ledger_write rd s provider_error))"

definition stream_tokens :: "stream_settlement \<Rightarrow> token_meta" where
  "stream_tokens s =
     (new_tokens (ss_prompt_tokens s) (ss_completion_tokens s))
       \<lparr>tm_cache_read := ss_cache_read_tokens s, tm_reasoning := ss_reasoning_tokens s,
        tm_estimated := ss_tokens_estimated s\<rparr>"

definition stream_meta :: "stream_ctx \<Rightarrow> reading \<Rightarrow> stream_settlement \<Rightarrow> router_meta" where
  "stream_meta ctx rd s =
     \<lparr>rm_requested_model = sx_requested_model ctx, rm_model = sx_canonical_model ctx, rm_provider = sx_provider ctx,
      rm_settings = sx_settings ctx, rm_tokens = Some (stream_tokens s), rm_results = None,
      rm_cost = spent (ss_cost s),
      rm_timing = \<lparr>tg_total_ms = rd_total rd, tg_latency_ms = ss_latency_ms s,
                   tg_provider_ms = Some (ss_latency_ms s), tg_ttft_ms = ss_ttft_ms s,
                   tg_attempts = 1, tg_fallbacks = 0\<rparr>\<rparr>"

text \<open>The capture is fed first; a capture that is complete is handed to the cache.\<close>

definition feed_capture ::
  "(string \<Rightarrow> json option) \<Rightarrow> stream_ctx \<Rightarrow> reading \<Rightarrow> string \<Rightarrow> stream_logger \<Rightarrow> stream_logger \<times> stream_effect list" where
  "feed_capture parse ctx rd chunk lg =
     (case sl_capture lg of
        None \<Rightarrow> (lg, [])
      | Some c \<Rightarrow>
          let c = chat_feed parse chunk c; lg = lg\<lparr>sl_capture := Some c\<rparr>
          in if cc_done c then spawn_cache_store ctx rd lg else (lg, []))"

definition accumulate :: "reading \<Rightarrow> sse_chunk_info \<Rightarrow> stream_acc \<Rightarrow> stream_acc" where
  "accumulate rd ci a =
     a\<lparr>ac_ttft_ms := (case ac_ttft_ms a of Some t \<Rightarrow> Some t | None \<Rightarrow> Some (rd_ttft rd)),
       ac_content := ac_content a @ si_text ci,
       ac_usage := (case si_usage ci of Some u \<Rightarrow> Some u | None \<Rightarrow> ac_usage a),
       ac_finish_reason := (case si_finish_reason ci of Some r \<Rightarrow> Some r | None \<Rightarrow> ac_finish_reason a)\<rparr>"

definition observe ::
  "(string \<Rightarrow> json option) \<Rightarrow> (json \<Rightarrow> string) \<Rightarrow> stream_ctx \<Rightarrow> reading \<Rightarrow> anyhow + string \<Rightarrow> stream_logger
     \<Rightarrow> ((anyhow + string) \<times> stream_logger \<times> stream_effect list) option" where
  "observe parse pr ctx rd chunk_result lg =
     (case chunk_result of
        Inl e \<Rightarrow>
          (let (lg, effs) = record_stream ctx rd (Some (show_error e)) (lg\<lparr>sl_capture := None\<rparr>)
           in Some (Inl e, lg, effs))
      | Inr chunk \<Rightarrow>
          (let (lg, effs) = feed_capture parse ctx rd chunk lg;
               ci = parse_sse_chunk parse chunk;
               lg = lg\<lparr>sl_acc := accumulate rd ci (sl_acc lg)\<rparr>
           in if \<not> si_done ci \<or> ac_recorded (sl_acc lg) then Some (Inr chunk, lg, effs)
              else let lg = set_recorded lg;
                       (s, lg) = settle ctx rd (logger_finish_reason lg None) lg
                   in map_option
                        (\<lambda>event. (Inr (insert_before_done chunk event), lg, effs @ spawn_ledger_write rd s None))
                        (cost_chunk_event pr (sx_request_id ctx) (stream_meta ctx rd s) (rd_created rd))))"

text \<open>\<open>Drop\<close>: the body was released; a stream not settled by then was aborted.\<close>

definition drop_logger :: "stream_ctx \<Rightarrow> reading \<Rightarrow> stream_logger \<Rightarrow> stream_logger \<times> stream_effect list" where
  "drop_logger ctx rd lg =
     (if ac_recorded (sl_acc lg) then (lg, [])
      else record_stream ctx rd None (lg\<lparr>sl_acc := (sl_acc lg)\<lparr>ac_finish_reason := Some ''aborted''\<rparr>\<rparr>))"

text \<open>A whole stream: what the client is sent, and every task spawned until the body is dropped.\<close>

fun log_stream ::
  "(string \<Rightarrow> json option) \<Rightarrow> (json \<Rightarrow> string) \<Rightarrow> stream_ctx \<Rightarrow> (reading \<times> (anyhow + string)) list \<Rightarrow> reading
     \<Rightarrow> stream_logger \<Rightarrow> ((anyhow + string) list \<times> stream_effect list) option" where
  "log_stream parse pr ctx [] last_rd lg = Some ([], snd (drop_logger ctx last_rd lg))"
| "log_stream parse pr ctx ((rd, c) # cs) last_rd lg =
     Option.bind (observe parse pr ctx rd c lg) (\<lambda>(out, lg, effs).
       map_option (\<lambda>(outs, effs'). (out # outs, effs @ effs')) (log_stream parse pr ctx cs last_rd lg))"

definition log_streaming_request ::
  "(string \<Rightarrow> json option) \<Rightarrow> (json \<Rightarrow> string) \<Rightarrow> stream_ctx \<Rightarrow> cost_calculator \<Rightarrow> (reading \<times> (anyhow + string)) list
     \<Rightarrow> reading \<Rightarrow> ((anyhow + string) list \<times> stream_effect list) option" where
  "log_streaming_request parse pr ctx calc cs last_rd = log_stream parse pr ctx cs last_rd (new_logger ctx calc)"

section \<open>The spawned tasks\<close>

text \<open>The result as the response guardrails leave it; \<open>None\<close> is a block, nothing is stored.\<close>

definition guarded_result ::
  "'w guardrail_chain \<Rightarrow> (string \<Rightarrow> json option) \<Rightarrow> stream_ctx \<Rightarrow> completion_result \<Rightarrow> 'w \<Rightarrow> completion_result option \<times> 'w" where
  "guarded_result gs parse ctx res w =
     (let gctx = \<lparr>gx_messages = (case parse (sx_messages_json ctx) of Some v \<Rightarrow> v | None \<Rightarrow> JNull),
                  gx_model = sx_model ctx, gx_user_id = sx_user_id ctx\<rparr>
      in case check_response gs gctx (content res) w of
           (GuardAllow, w) \<Rightarrow> (Some res, w)
         | (GuardBlock _, w) \<Rightarrow> (None, w)
         | (GuardReplace c, w) \<Rightarrow> (Some (res\<lparr>content := c\<rparr>), w))"

definition cache_store_task ::
  "'w guardrail_chain \<Rightarrow> (string \<Rightarrow> json option) \<Rightarrow> (completion_result \<Rightarrow> json option) \<Rightarrow> int \<Rightarrow> stream_ctx \<Rightarrow> string
     \<Rightarrow> completion_result \<Rightarrow> response_cache \<Rightarrow> cost_calculator \<Rightarrow> 'w \<Rightarrow> response_cache \<times> cost_calculator \<times> 'w" where
  "cache_store_task gs parse result_value now ctx key res rc calc w =
     (case guarded_result gs parse ctx res w of
        (None, w) \<Rightarrow> (rc, calc, w)
      | (Some res, w) \<Rightarrow>
          (let (cost, calc) = calculate_with_cache calc (sx_canonical_model ctx)
                 (prompt_tokens res - cache_read_tokens res) (completion_tokens res) (cache_read_tokens res) 0
           in (put_completion result_value now rc key (sx_canonical_model ctx) res cost (sx_cache_directives ctx), calc, w)))"

definition stream_prompt :: "(json \<Rightarrow> string) \<Rightarrow> stream_ctx \<Rightarrow> stream_settlement \<Rightarrow> new_prompt" where
  "stream_prompt pr ctx s =
     \<lparr>np_user_id = sx_user_id ctx, np_session_id = None, np_request_model = sx_model ctx,
      np_routed_model = sx_canonical_model ctx, np_provider = sx_provider ctx, np_messages = sx_messages_json ctx,
      np_response = Some (ss_content s), np_finish_reason = Some (ss_finish_reason s),
      np_prompt_tokens = int (ss_prompt_tokens s), np_completion_tokens = int (ss_completion_tokens s),
      np_cache_read_tokens = int (ss_cache_read_tokens s), np_cache_write_tokens = 0, np_cost_usd = ss_cost s,
      np_latency_ms = Some (ss_latency_ms s), np_ttft_ms = ss_ttft_ms s, np_attempts = Some 1, np_tags = ''[]'',
      np_project = sx_user_project ctx, np_correlation_id = at_correlation_id (sx_attribution ctx),
      np_attribution_tags = tags_json pr (sx_attribution ctx), np_experiment_id = sx_experiment_id ctx,
      np_experiment_variant = sx_experiment_variant ctx\<rparr>"

definition stream_ledger :: "(json \<Rightarrow> string) \<Rightarrow> stream_ctx \<Rightarrow> stream_settlement \<Rightarrow> int option \<Rightarrow> new_ledger_entry" where
  "stream_ledger pr ctx s prompt =
     \<lparr>ne_user_id = sx_user_id ctx, ne_prompt_id = prompt, ne_model = sx_canonical_model ctx,
      ne_provider = sx_provider ctx, ne_project = sx_user_project ctx, ne_tokens_in = int (ss_prompt_tokens s),
      ne_tokens_out = int (ss_completion_tokens s), ne_cost_usd = ss_cost s, ne_api_key_id = sx_api_key_id ctx,
      ne_correlation_id = at_correlation_id (sx_attribution ctx),
      ne_attribution_tags = tags_json pr (sx_attribution ctx), ne_experiment_id = sx_experiment_id ctx,
      ne_experiment_variant = sx_experiment_variant ctx, ne_tokens_estimated = ss_tokens_estimated s\<rparr>"

text \<open>The main database, the prompt store and the failures; the lifecycle hooks fired and the events sent to
  the callbacks.\<close>

record accounting =
  ab_db :: database
  ab_prompts :: prompt_db
  ab_failures :: failure_db
  ab_fired :: "(lifecycle_hook \<times> json) list"
  ab_callbacks :: "callback_event list"

definition write_stream_ledger ::
  "(json \<Rightarrow> string) \<Rightarrow> lifecycle_hook list \<Rightarrow> string \<Rightarrow> stream_ctx \<Rightarrow> stream_settlement \<Rightarrow> accounting \<Rightarrow> accounting" where
  "write_stream_ledger pr hooks now ctx s b =
     (let (prompt, prompts) =
            (if \<not> sx_write_prompt ctx then (None, ab_prompts b)
             else case create_prompt now (ab_prompts b) (redact_prompt_content (sx_storage ctx) (stream_prompt pr ctx s)) of
                    (Inr saved, prompts) \<Rightarrow> (Some (pr_id saved), prompts)
                  | (Inl e, prompts) \<Rightarrow> (None, prompts));
          (_, db) = create_cost now (ab_db b) (stream_ledger pr ctx s prompt)
      in b\<lparr>ab_prompts := prompts, ab_db := db,
           ab_fired := ab_fired b @ map (\<lambda>h. (h, response_sent_payload (sx_user_name ctx) (sx_model ctx)
             (sx_canonical_model ctx) (ss_cost s) (ss_latency_ms s))) (hooks_for hooks ''on_response_sent'')\<rparr>)"

definition stream_failure_context :: "(json \<Rightarrow> string) \<Rightarrow> stream_ctx \<Rightarrow> stream_settlement \<Rightarrow> failure_context" where
  "stream_failure_context pr ctx s =
     \<lparr>fc_endpoint = ''/v1/chat/completions'', fc_request_model = sx_model ctx,
      fc_routed_model = Some (sx_canonical_model ctx), fc_provider = Some (sx_provider ctx),
      fc_user_id = Some (sx_user_id ctx), fc_api_key_id = sx_api_key_id ctx, fc_project = sx_user_project ctx,
      fc_correlation_id = at_correlation_id (sx_attribution ctx),
      fc_attribution_tags = tags_json pr (sx_attribution ctx), fc_latency_ms = Some (ss_latency_ms s),
      fc_experiment_id = sx_experiment_id ctx, fc_experiment_variant = sx_experiment_variant ctx\<rparr>"

definition ledger_write_task ::
  "(json \<Rightarrow> string) \<Rightarrow> lifecycle_hook list \<Rightarrow> string \<Rightarrow> stream_ctx \<Rightarrow> stream_settlement \<Rightarrow> string option
     \<Rightarrow> accounting \<Rightarrow> accounting" where
  "ledger_write_task pr hooks now ctx s provider_error b =
     (let b = (case provider_error of
                 None \<Rightarrow> b
               | Some message \<Rightarrow>
                   b\<lparr>ab_failures := record_failure_row now (ab_failures b) (stream_failure_context pr ctx s)
                       (ProviderError (error_msg message))\<rparr>)
      in write_stream_ledger pr hooks now ctx s b)"

section \<open>Facts\<close>

lemma concat_split_inclusive [simp]: "concat (split_inclusive s) = s"
  by (induction s) (auto split: list.splits)

lemma splice_event_Some:
  "splice_event ls e = Some out \<Longrightarrow> \<exists>a l b. ls = a @ l # b \<and> is_done_line l \<and> out = concat a @ e @ l @ concat b"
proof (induction ls arbitrary: out)
  case (Cons x ls)
  show ?case
  proof (cases "is_done_line x")
    case True
    with Cons.prems show ?thesis by (intro exI [of _ "[]"] exI [of _ x] exI [of _ ls]) simp
  next
    case False
    with Cons.prems obtain r where r: "splice_event ls e = Some r" "out = x @ r" by auto
    from Cons.IH [OF r(1)] obtain a l b where "ls = a @ l # b" "is_done_line l" "r = concat a @ e @ l @ concat b" by blast
    with r(2) show ?thesis by (intro exI [of _ "x # a"]) auto
  qed
qed simp

text \<open>The splice adds the event and changes nothing else.\<close>

lemma insert_before_done_parts: "\<exists>a b. chunk = a @ b \<and> insert_before_done chunk e = a @ e @ b"
proof (cases "utf8_ok chunk \<and> splice_event (split_inclusive chunk) e \<noteq> None")
  case True
  then obtain out where out: "splice_event (split_inclusive chunk) e = Some out" by blast
  from splice_event_Some [OF out] obtain a l b where s: "split_inclusive chunk = a @ l # b"
    "out = concat a @ e @ l @ concat b" by blast
  have "chunk = concat a @ l @ concat b" by (metis s(1) concat_split_inclusive concat_append concat.simps(2))
  with True out s(2) show ?thesis by (auto simp: insert_before_done_def)
qed (auto simp: insert_before_done_def intro: exI [of _ "[]"])

lemma cost_chunk_total: "rm_tokens m = Some t \<Longrightarrow> cost_chunk rid m now \<noteq> None"
proof -
  assume t: "rm_tokens m = Some t"
  obtain u where "openai_usage t (rm_cost m) = Some u" by (rule openai_usage_reads)
  with t show ?thesis by (simp add: cost_chunk_def attach_def jobj_def jset_obj)
qed

lemma stream_meta_fields [simp]:
  "rm_tokens (stream_meta ctx rd s) = Some (stream_tokens s)" "rm_cost (stream_meta ctx rd s) = spent (ss_cost s)"
  by (simp_all add: stream_meta_def)

definition ledger_writes :: "stream_effect list \<Rightarrow> nat" where
  "ledger_writes effs = length (filter (\<lambda>e. case e of LedgerWrite _ _ \<Rightarrow> True | CacheStore _ \<Rightarrow> False) effs)"

lemma ledger_writes_simps [simp]:
  "ledger_writes [] = 0" "ledger_writes (a @ b) = ledger_writes a + ledger_writes b"
  "ledger_writes (spawn_ledger_write rd s pe) = (if rd_runtime rd then 1 else 0)"
  by (simp_all add: ledger_writes_def spawn_ledger_write_def)

lemma settle_acc [simp]: "settle ctx rd why lg = (s, lg') \<Longrightarrow> sl_acc lg' = sl_acc lg"
  by (auto simp: settle_def Let_def split: prod.splits)

lemma set_recorded_acc [simp]: "ac_recorded (sl_acc (set_recorded lg))"
  by (simp add: set_recorded_def)

lemma spawn_cache_facts:
  "spawn_cache_store ctx rd lg = (lg', effs) \<Longrightarrow>
    sl_acc lg' = sl_acc lg \<and> ledger_writes effs = 0 \<and> (\<forall>e \<in> set effs. \<exists>r. e = CacheStore r)"
  by (auto simp: spawn_cache_store_def ledger_writes_def Let_def split: option.splits if_splits)

lemma feed_capture_facts:
  "feed_capture parse ctx rd chunk lg = (lg', effs) \<Longrightarrow>
    sl_acc lg' = sl_acc lg \<and> ledger_writes effs = 0 \<and> (\<forall>e \<in> set effs. \<exists>r. e = CacheStore r)"
  by (auto simp: feed_capture_def Let_def split: option.splits if_splits dest!: spawn_cache_facts)

text \<open>The accounting of a step: a settled stream spawns no second write, a settling step spawns one.\<close>

lemma record_stream_facts:
  assumes "record_stream ctx rd pe lg = (lg', effs)"
  shows "ac_recorded (sl_acc lg') \<and> ledger_writes effs = (if ac_recorded (sl_acc lg) \<or> \<not> rd_runtime rd then 0 else 1)"
proof -
  obtain s lg1 where s: "settle ctx rd (logger_finish_reason lg pe) (set_recorded lg) = (s, lg1)" by fastforce
  from settle_acc [OF s] assms s show ?thesis by (auto simp: record_stream_def split: if_splits)
qed

lemma observe_facts:
  assumes "observe parse pr ctx rd c lg = Some (out, lg', effs)"
  shows "(ac_recorded (sl_acc lg) \<longrightarrow> ac_recorded (sl_acc lg') \<and> ledger_writes effs = 0)
    \<and> (\<not> ac_recorded (sl_acc lg) \<longrightarrow>
        ledger_writes effs = (if ac_recorded (sl_acc lg') \<and> rd_runtime rd then 1 else 0))"
proof (cases c)
  case (Inl e)
  obtain lg1 effs1 where r: "record_stream ctx rd (Some (show_error e)) (lg\<lparr>sl_capture := None\<rparr>) = (lg1, effs1)" by fastforce
  from record_stream_facts [OF r] assms r Inl show ?thesis by (auto simp: observe_def)
next
  case (Inr chunk)
  obtain lg1 e1 where f: "feed_capture parse ctx rd chunk lg = (lg1, e1)" by fastforce
  let ?lg = "lg1\<lparr>sl_acc := accumulate rd (parse_sse_chunk parse chunk) (sl_acc lg1)\<rparr>"
  obtain s lg2 where s: "settle ctx rd (logger_finish_reason (set_recorded ?lg) None) (set_recorded ?lg) = (s, lg2)" by fastforce
  have ar: "ac_recorded (accumulate rd i a) = ac_recorded a" for i a by (simp add: accumulate_def)
  from feed_capture_facts [OF f] settle_acc [OF s] assms f s Inr show ?thesis
    by (auto simp: observe_def Let_def ar split: if_splits)
qed

lemma observe_total: "observe parse pr ctx rd c lg \<noteq> None"
  using cost_chunk_total [OF stream_meta_fields(1)]
  by (auto simp: observe_def cost_chunk_event_def Let_def split: sum.split prod.split)

lemma drop_facts:
  assumes "drop_logger ctx rd lg = (lg', effs)"
  shows "ledger_writes effs = (if ac_recorded (sl_acc lg) \<or> \<not> rd_runtime rd then 0 else 1)"
  using assms record_stream_facts [of ctx rd None "lg\<lparr>sl_acc := (sl_acc lg)\<lparr>ac_finish_reason := Some ''aborted''\<rparr>\<rparr>" lg' effs]
  by (auto simp: drop_logger_def split: if_splits)

lemma log_stream_writes:
  "\<exists>outs effs. log_stream parse pr ctx cs last_rd lg = Some (outs, effs) \<and> length outs = length cs
    \<and> (if ac_recorded (sl_acc lg) then ledger_writes effs = 0
       else if list_all (\<lambda>(rd, c). rd_runtime rd) cs \<and> rd_runtime last_rd then ledger_writes effs = 1
       else ledger_writes effs \<le> 1)"
proof (induction cs arbitrary: lg)
  case Nil
  obtain lg' effs where d: "drop_logger ctx last_rd lg = (lg', effs)" by fastforce
  from drop_facts [OF d] d show ?case by simp
next
  case (Cons rc cs)
  obtain rd c where rc: "rc = (rd, c)" by fastforce
  obtain out lg1 e1 where o: "observe parse pr ctx rd c lg = Some (out, lg1, e1)"
    using observe_total [of parse pr ctx rd c lg] by auto
  obtain outs e2 where l: "log_stream parse pr ctx cs last_rd lg1 = Some (outs, e2)" "length outs = length cs"
    and w: "if ac_recorded (sl_acc lg1) then ledger_writes e2 = 0
       else if list_all (\<lambda>(rd, c). rd_runtime rd) cs \<and> rd_runtime last_rd then ledger_writes e2 = 1
       else ledger_writes e2 \<le> 1"
    using Cons.IH [of lg1] by blast
  from observe_facts [OF o] w l o show ?case by (auto simp: rc split: if_splits)
qed

section \<open>Properties\<close>


text \<open>
  The cost a stream announces is the cost it is charged: when a chunk settles the stream, what
  the client is sent is that chunk with one event spliced in, and the usage in that event has the
  cost and the token counts of the ledger row the spawned write adds.
\<close>

theorem announced_cost_is_ledger_row:
  assumes "observe parse pr ctx rd (Inr chunk) lg = Some (out, lg', effs)" and "LedgerWrite s err \<in> set effs"
    and "\<not> faults (ab_db b) CreateCost"
  shows "\<exists>v before after entry.
    out = Inr (before @ sse_event pr v @ after) \<and> chunk = before @ after
    \<and> cost_ledger (ab_db (ledger_write_task pr hooks now ctx s err b)) = cost_ledger (ab_db b) @ [entry]
    \<and> jget (jget v ''usage'') ''cost_usd'' = jrat (cost_usd entry)
    \<and> as_u64 (jget (jget v ''usage'') ''prompt_tokens'') = Some (nat (tokens_in entry))
    \<and> as_u64 (jget (jget v ''usage'') ''completion_tokens'') = Some (nat (tokens_out entry))"
proof -
  obtain lg1 e1 where f: "feed_capture parse ctx rd chunk lg = (lg1, e1)" by fastforce
  let ?lg = "lg1\<lparr>sl_acc := accumulate rd (parse_sse_chunk parse chunk) (sl_acc lg1)\<rparr>"
  obtain s' lg2 where s': "settle ctx rd (logger_finish_reason (set_recorded ?lg) None) (set_recorded ?lg) = (s', lg2)" by fastforce
  have "LedgerWrite s err \<notin> set e1" using feed_capture_facts [OF f] by auto
  with assms(1,2) f s' obtain event where ev: "cost_chunk_event pr (sx_request_id ctx) (stream_meta ctx rd s') (rd_created rd) = Some event"
    and out: "out = Inr (insert_before_done chunk event)" and s: "s = s'" "err = None"
    by (auto simp: observe_def Let_def spawn_ledger_write_def split: if_splits)
  from ev obtain v where v: "cost_chunk (sx_request_id ctx) (stream_meta ctx rd s') (rd_created rd) = Some v"
    and event: "event = sse_event pr v" by (auto simp: cost_chunk_event_def)
  obtain u where u: "openai_usage (stream_tokens s') (spent (ss_cost s')) = Some u" "jget v ''usage'' = u"
    using cost_chunk_reads [OF v stream_meta_fields(1)] by auto
  have reads: "jget u ''cost_usd'' = jrat (ss_cost s')" "jget u ''prompt_tokens'' = jnat (ss_prompt_tokens s')"
    "jget u ''completion_tokens'' = jnat (ss_completion_tokens s')"
    using u(1) by - (rule openai_usage_reads [of "stream_tokens s'" "spent (ss_cost s')"],
      simp add: stream_tokens_def new_tokens_def default_tokens_def spent_def)+
  obtain before after where parts: "chunk = before @ after" "insert_before_done chunk event = before @ event @ after"
    using insert_before_done_parts by blast
  have "\<exists>entry. cost_ledger (ab_db (ledger_write_task pr hooks now ctx s err b)) = cost_ledger (ab_db b) @ [entry]
      \<and> cost_usd entry = ss_cost s' \<and> tokens_in entry = int (ss_prompt_tokens s') \<and> tokens_out entry = int (ss_completion_tokens s')"
    using assms(3) s
    by (auto simp: ledger_write_task_def write_stream_ledger_def create_cost_def ledger_row_def stream_ledger_def Let_def
        split: prod.split)
  then obtain entry where entry: "cost_ledger (ab_db (ledger_write_task pr hooks now ctx s err b)) = cost_ledger (ab_db b) @ [entry]"
    "cost_usd entry = ss_cost s'" "tokens_in entry = int (ss_prompt_tokens s')" "tokens_out entry = int (ss_completion_tokens s')"
    by blast
  show ?thesis
  proof (intro exI conjI)
    show "out = Inr (before @ sse_event pr v @ after)" using out event parts by simp
    show "chunk = before @ after" by (rule parts(1))
    show "cost_ledger (ab_db (ledger_write_task pr hooks now ctx s err b)) = cost_ledger (ab_db b) @ [entry]" by (rule entry(1))
    show "jget (jget v ''usage'') ''cost_usd'' = jrat (cost_usd entry)" unfolding u(2) reads entry(2) ..
    show "as_u64 (jget (jget v ''usage'') ''prompt_tokens'') = Some (nat (tokens_in entry))"
      unfolding u(2) reads entry(3) by simp
    show "as_u64 (jget (jget v ''usage'') ''completion_tokens'') = Some (nat (tokens_out entry))"
      unfolding u(2) reads entry(4) by simp
  qed
qed

definition sample_stream_ctx :: stream_ctx where
  "sample_stream_ctx =
     \<lparr>sx_request_id = ''r'', sx_requested_model = ''m'', sx_settings = JNull, sx_user_id = 1, sx_api_key_id = None,
      sx_user_project = None, sx_user_name = ''u'', sx_model = ''m'', sx_canonical_model = ''m'', sx_provider = ''p'',
      sx_messages_json = ''[]'', sx_write_prompt = False, sx_storage = default_storage,
      sx_attribution = default_attribution, sx_experiment_id = None, sx_experiment_variant = None,
      sx_cache_key = None, sx_cache_directives = default_directives\<rparr>"

definition sample_reading :: reading where
  "sample_reading = \<lparr>rd_ttft = 1, rd_latency = 2, rd_total = 3, rd_created = 4, rd_runtime = True\<rparr>"

definition free_calc :: cost_calculator where
  "free_calc = \<lparr>pricing = Map.empty, warned_unpriced = {}\<rparr>"

definition sample_observation :: "((anyhow + string) \<times> stream_logger \<times> stream_effect list) option" where
  "sample_observation =
     observe (\<lambda>_. None) (\<lambda>_. ''{}'') sample_stream_ctx sample_reading (Inr done_event) (new_logger sample_stream_ctx free_calc)"

definition sample_accounting :: accounting where
  "sample_accounting =
     \<lparr>ab_db = empty_db, ab_prompts = \<lparr>pd_rows = [], pd_last_id = 0, pd_faults = []\<rparr>,
      ab_failures = \<lparr>fd_rows = [], fd_last_id = 0, fd_down = False\<rparr>, ab_fired = [], ab_callbacks = []\<rparr>"

definition split_stream :: "string list \<Rightarrow> ((anyhow + string) list \<times> stream_effect list) option" where
  "split_stream pieces =
     log_streaming_request (\<lambda>_. None) (\<lambda>_. ''{}'') sample_stream_ctx free_calc
       (map (\<lambda>c. (sample_reading, Inr c)) pieces) sample_reading"

definition settled_as :: "((anyhow + string) list \<times> stream_effect list) option \<Rightarrow> string list" where
  "settled_as r =
     (case r of
        None \<Rightarrow> []
      | Some (outs, effs) \<Rightarrow>
          List.map_filter (\<lambda>e. case e of LedgerWrite s _ \<Rightarrow> Some (ss_finish_reason s) | CacheStore _ \<Rightarrow> None) effs)"

text \<open>
  The ledger reads every network chunk by itself: the same bytes settle as finished when \<open>[DONE]\<close>
  arrives in one piece, and as aborted when the network cuts it.
\<close>

lemma framing_changes_settlement:
  "settled_as (split_stream [done_event]) = [''stop'']"
  "settled_as (split_stream [take 9 done_event, drop 9 done_event]) = [''aborted'']"
  "sse_push [] done_event = sse_push (snd (sse_push [] (take 9 done_event))) (drop 9 done_event)"
  by code_simp+

lemma sample_observed:
  "case sample_observation of
     Some (out, lg, effs) \<Rightarrow> (case effs of [LedgerWrite s err] \<Rightarrow> err = None \<and> ss_cost s = 0 | _ \<Rightarrow> False)
   | None \<Rightarrow> False"
  by code_simp

theorem announced_cost_is_ledger_row_witness:
  "\<exists>s v before after entry.
     fst (the sample_observation) = Inr (before @ sse_event (\<lambda>_. ''{}'') v @ after) \<and> done_event = before @ after
     \<and> cost_ledger (ab_db (ledger_write_task (\<lambda>_. ''{}'') [] ''t'' sample_stream_ctx s None sample_accounting)) = [entry]
     \<and> jget (jget v ''usage'') ''cost_usd'' = jrat (cost_usd entry)"
proof -
  obtain out lg effs where o: "sample_observation = Some (out, lg, effs)"
    using sample_observed by (cases sample_observation) auto
  obtain s err where e: "effs = [LedgerWrite s err]" "err = None"
  proof -
    have h: "case effs of [LedgerWrite s err] \<Rightarrow> err = None \<and> ss_cost s = 0 | _ \<Rightarrow> False"
      using sample_observed unfolding o option.case prod.case .
    then obtain x where x: "effs = [x]" by (cases effs; cases "tl effs"; cases "hd effs") auto
    with h that show thesis by (cases x) auto
  qed
  have f: "\<not> faults (ab_db sample_accounting) CreateCost" and z: "cost_ledger (ab_db sample_accounting) = []"
    by (simp_all add: sample_accounting_def empty_db_def)
  have "\<exists>v before after entry.
     out = Inr (before @ sse_event (\<lambda>_. ''{}'') v @ after) \<and> done_event = before @ after
     \<and> cost_ledger (ab_db (ledger_write_task (\<lambda>_. ''{}'') [] ''t'' sample_stream_ctx s err sample_accounting))
         = cost_ledger (ab_db sample_accounting) @ [entry]
     \<and> jget (jget v ''usage'') ''cost_usd'' = jrat (cost_usd entry)
     \<and> as_u64 (jget (jget v ''usage'') ''prompt_tokens'') = Some (nat (tokens_in entry))
     \<and> as_u64 (jget (jget v ''usage'') ''completion_tokens'') = Some (nat (tokens_out entry))"
    by (rule announced_cost_is_ledger_row [OF o [unfolded sample_observation_def] _ f]) (simp add: e(1))
  then obtain v before after entry where
      r: "out = Inr (before @ sse_event (\<lambda>_. ''{}'') v @ after)" "done_event = before @ after"
        "cost_ledger (ab_db (ledger_write_task (\<lambda>_. ''{}'') [] ''t'' sample_stream_ctx s err sample_accounting))
           = cost_ledger (ab_db sample_accounting) @ [entry]"
        "jget (jget v ''usage'') ''cost_usd'' = jrat (cost_usd entry)" by blast
  have "fst (the sample_observation) = Inr (before @ sse_event (\<lambda>_. ''{}'') v @ after)"
    unfolding o option.sel fst_conv by (rule r(1))
  moreover have "cost_ledger (ab_db (ledger_write_task (\<lambda>_. ''{}'') [] ''t'' sample_stream_ctx s None sample_accounting)) = [entry]"
    using r(3) unfolding e(2) z append_Nil .
  ultimately show ?thesis using r(2,4) by blast
qed

end
