(* ===== verification/Completion_Logging.thy ===== *)
theory Completion_Logging
  imports Stream_Logger
begin

text \<open>
  What an answered request leaves behind: \<open>CompletionLogCtx\<close>, \<open>spawn_completion_logging\<close>,
  \<open>CacheHitCtx\<close> and \<open>record_cache_hit\<close> of \<open>src/src/api/routes/completions.rs\<close>, and how they
  compare with the rows of a streamed answer.
\<close>

section \<open>A completion\<close>

record completion_log =
  lc_user_id :: int
  lc_api_key_id :: "int option"
  lc_user_project :: "string option"
  lc_user_name :: string
  lc_model :: string
  lc_canonical_model :: string
  lc_provider :: string
  lc_messages_json :: string
  lc_response :: string
  lc_finish_reason :: string
  lc_prompt_tokens :: nat
  lc_completion_tokens :: nat
  lc_cache_read_tokens :: nat
  lc_cache_write_tokens :: nat
  lc_ttft_ms :: "int option"
  lc_attempts :: int
  lc_cost :: rat
  lc_latency_ms :: int
  lc_write_prompt :: bool
  lc_skip_log :: bool
  lc_storage :: storage_config
  lc_correlation_id :: "string option"
  lc_attribution_tags :: string
  lc_experiment_id :: "int option"
  lc_experiment_variant :: "string option"

definition completion_ledger :: "completion_log \<Rightarrow> int option \<Rightarrow> new_ledger_entry" where
  "completion_ledger c prompt =
     \<lparr>ne_user_id = lc_user_id c, ne_prompt_id = prompt, ne_model = lc_canonical_model c,
      ne_provider = lc_provider c, ne_project = lc_user_project c, ne_tokens_in = int (lc_prompt_tokens c),
      ne_tokens_out = int (lc_completion_tokens c), ne_cost_usd = lc_cost c, ne_api_key_id = lc_api_key_id c,
      ne_correlation_id = lc_correlation_id c, ne_attribution_tags = lc_attribution_tags c,
      ne_experiment_id = lc_experiment_id c, ne_experiment_variant = lc_experiment_variant c,
      ne_tokens_estimated = False\<rparr>"

definition completion_prompt :: "completion_log \<Rightarrow> new_prompt" where
  "completion_prompt c =
     \<lparr>np_user_id = lc_user_id c, np_session_id = None, np_request_model = lc_model c,
      np_routed_model = lc_canonical_model c, np_provider = lc_provider c, np_messages = lc_messages_json c,
      np_response = Some (lc_response c), np_finish_reason = Some (lc_finish_reason c),
      np_prompt_tokens = int (lc_prompt_tokens c), np_completion_tokens = int (lc_completion_tokens c),
      np_cache_read_tokens = int (lc_cache_read_tokens c), np_cache_write_tokens = int (lc_cache_write_tokens c),
      np_cost_usd = lc_cost c, np_latency_ms = Some (lc_latency_ms c), np_ttft_ms = lc_ttft_ms c,
      np_attempts = Some (lc_attempts c), np_tags = ''[]'', np_project = lc_user_project c,
      np_correlation_id = lc_correlation_id c, np_attribution_tags = lc_attribution_tags c,
      np_experiment_id = lc_experiment_id c, np_experiment_variant = lc_experiment_variant c\<rparr>"

definition completion_event :: "(string \<Rightarrow> json option) \<Rightarrow> int \<Rightarrow> completion_log \<Rightarrow> callback_event" where
  "completion_event parse saved c =
     \<lparr>ce_trace_id = show_int saved, ce_user_id = lc_user_id c, ce_model = lc_canonical_model c,
      ce_provider_name = lc_provider c,
      ce_input = (case parse (lc_messages_json c) of Some v \<Rightarrow> v | None \<Rightarrow> JNull), ce_output = lc_response c,
      ce_prompt_tokens = lc_prompt_tokens c, ce_completion_tokens = lc_completion_tokens c,
      ce_cost_usd = lc_cost c, ce_latency_ms = lc_latency_ms c\<rparr>"

text \<open>\<open>CostRepository::create\<close> and \<open>create_cache_hit\<close>, their failure logged and dropped.\<close>

definition book_cost :: "string \<Rightarrow> new_ledger_entry \<Rightarrow> accounting \<Rightarrow> accounting" where
  "book_cost now e b = b\<lparr>ab_db := snd (create_cost now (ab_db b) e)\<rparr>"

definition fire_all :: "(lifecycle_hook \<times> json) list \<Rightarrow> accounting \<Rightarrow> accounting" where
  "fire_all fs b = b\<lparr>ab_fired := ab_fired b @ fs\<rparr>"

text \<open>The prompt row and what depends on it; \<open>live\<close> is the operator's storage policy by then.\<close>

definition log_prompt ::
  "(string \<Rightarrow> json option) \<Rightarrow> storage_config \<Rightarrow> string \<Rightarrow> completion_log \<Rightarrow> accounting \<Rightarrow> accounting" where
  "log_prompt parse live now c b =
     (case create_prompt now (ab_prompts b) (redact_prompt_content (lc_storage c) (completion_prompt c)) of
        (Inr saved, prompts) \<Rightarrow>
          (let b = book_cost now (completion_ledger c (Some (pr_id saved))) (b\<lparr>ab_prompts := prompts\<rparr>)
           in if lc_skip_log c then b
              else b\<lparr>ab_callbacks := ab_callbacks b
                       @ [redact_callback_content live (completion_event parse (pr_id saved) c)]\<rparr>)
      | (Inl e, prompts) \<Rightarrow> b\<lparr>ab_prompts := prompts\<rparr>)"

definition spawn_completion_logging ::
  "(string \<Rightarrow> json option) \<Rightarrow> storage_config \<Rightarrow> lifecycle_hook list \<Rightarrow> string \<Rightarrow> completion_log \<Rightarrow> accounting \<Rightarrow> accounting" where
  "spawn_completion_logging parse live hooks now c b =
     (let b = (if lc_write_prompt c then log_prompt parse live now c b
               else book_cost now (completion_ledger c None) b)
      in fire_all
           (map (\<lambda>h. (h, response_sent_payload (lc_user_name c) (lc_model c) (lc_canonical_model c)
                           (lc_cost c) (lc_latency_ms c)))
                (hooks_for hooks ''on_response_sent''))
           b)"

section \<open>A cache hit\<close>

record cache_hit_ctx =
  hx_user_id :: int
  hx_api_key_id :: "int option"
  hx_user_project :: "string option"
  hx_request_model :: string
  hx_canonical_model :: string
  hx_provider :: string
  hx_messages_json :: string
  hx_avoided_cost :: rat
  hx_skip_log :: bool
  hx_attribution :: attribution

definition hit_ledger :: "(json \<Rightarrow> string) \<Rightarrow> cache_hit_ctx \<Rightarrow> completion_result \<Rightarrow> int option \<Rightarrow> new_ledger_entry" where
  "hit_ledger pr h r prompt =
     \<lparr>ne_user_id = hx_user_id h, ne_prompt_id = prompt, ne_model = hx_canonical_model h,
      ne_provider = hx_provider h, ne_project = hx_user_project h, ne_tokens_in = int (prompt_tokens r),
      ne_tokens_out = int (completion_tokens r), ne_cost_usd = hx_avoided_cost h,
      ne_api_key_id = hx_api_key_id h, ne_correlation_id = at_correlation_id (hx_attribution h),
      ne_attribution_tags = tags_json pr (hx_attribution h), ne_experiment_id = None,
      ne_experiment_variant = None, ne_tokens_estimated = False\<rparr>"

definition hit_prompt :: "(json \<Rightarrow> string) \<Rightarrow> cache_hit_ctx \<Rightarrow> completion_result \<Rightarrow> new_prompt" where
  "hit_prompt pr h r =
     \<lparr>np_user_id = hx_user_id h, np_session_id = None, np_request_model = hx_request_model h,
      np_routed_model = hx_canonical_model h, np_provider = hx_provider h, np_messages = hx_messages_json h,
      np_response = Some (content r), np_finish_reason = Some (finish_reason r),
      np_prompt_tokens = int (prompt_tokens r), np_completion_tokens = int (completion_tokens r),
      np_cache_read_tokens = int (cache_read_tokens r), np_cache_write_tokens = int (cache_write_tokens r),
      np_cost_usd = 0, np_latency_ms = Some 0, np_ttft_ms = None, np_attempts = None, np_tags = ''[]'',
      np_project = hx_user_project h, np_correlation_id = at_correlation_id (hx_attribution h),
      np_attribution_tags = tags_json pr (hx_attribution h), np_experiment_id = None,
      np_experiment_variant = None\<rparr>"

definition record_cache_hit ::
  "(json \<Rightarrow> string) \<Rightarrow> storage_config \<Rightarrow> string \<Rightarrow> cache_hit_ctx \<Rightarrow> completion_result \<Rightarrow> accounting \<Rightarrow> accounting" where
  "record_cache_hit pr live now h r b =
     (let (prompt, prompts) =
            (if hx_skip_log h then (None, ab_prompts b)
             else case create_prompt now (ab_prompts b) (redact_prompt_content live (hit_prompt pr h r)) of
                    (Inr saved, prompts) \<Rightarrow> (Some (pr_id saved), prompts)
                  | (Inl e, prompts) \<Rightarrow> (None, prompts));
          (_, db) = create_cache_hit now (ab_db b) (hit_ledger pr h r prompt)
      in b\<lparr>ab_prompts := prompts, ab_db := db\<rparr>)"

section \<open>Facts\<close>

text \<open>Whether the prompt store fails on the next row it is given.\<close>

definition store_refuses :: "prompt_db \<Rightarrow> bool" where
  "store_refuses db \<longleftrightarrow> (case pd_faults db of [] \<Rightarrow> False | [x] \<Rightarrow> x | x # y # zs \<Rightarrow> x \<or> y)"

lemma create_prompt_Inl: "isl (fst (create_prompt now db p)) \<longleftrightarrow> store_refuses db"
proof (cases "pd_faults db")
  case Nil
  then show ?thesis by (simp add: create_prompt_def sql_prompt_def store_refuses_def Let_def)
next
  case (Cons x xs)
  then show ?thesis by (cases xs) (simp_all add: create_prompt_def sql_prompt_def store_refuses_def Let_def)
qed

lemma book_cost_ledger:
  "cost_ledger (ab_db (book_cost now e b)) = cost_ledger (ab_db b)
     @ (if faults (ab_db b) CreateCost then []
        else [ledger_row (next_id (map le_id (cost_ledger (ab_db b)))) now e])"
  by (simp add: book_cost_def create_cost_def Let_def)

lemma book_cost_frame [simp]:
  "ab_prompts (book_cost now e b) = ab_prompts b" "ab_callbacks (book_cost now e b) = ab_callbacks b"
  "ab_failures (book_cost now e b) = ab_failures b" "ab_fired (book_cost now e b) = ab_fired b"
  by (simp_all add: book_cost_def)

lemma fire_all_frame [simp]:
  "ab_prompts (fire_all fs b) = ab_prompts b" "ab_callbacks (fire_all fs b) = ab_callbacks b"
  "ab_db (fire_all fs b) = ab_db b" "ab_failures (fire_all fs b) = ab_failures b"
  by (simp_all add: fire_all_def)

text \<open>The ledger row of an answer, unless its prompt row was to be written and could not be.\<close>

lemma completion_logging_ledger:
  "\<exists>prompt. cost_ledger (ab_db (spawn_completion_logging parse live hooks now c b)) = cost_ledger (ab_db b)
     @ (if faults (ab_db b) CreateCost \<or> lc_write_prompt c \<and> store_refuses (ab_prompts b) then []
        else [ledger_row (next_id (map le_id (cost_ledger (ab_db b)))) now (completion_ledger c prompt)])"
proof -
  let ?p = "redact_prompt_content (lc_storage c) (completion_prompt c)"
  obtain r ps where r: "create_prompt now (ab_prompts b) ?p = (r, ps)" by fastforce
  have s: "store_refuses (ab_prompts b) \<longleftrightarrow> isl r" using create_prompt_Inl [of now "ab_prompts b" ?p] r by simp
  show ?thesis
    unfolding spawn_completion_logging_def Let_def fire_all_frame
    by (cases "lc_write_prompt c"; cases r) (auto simp: log_prompt_def Let_def r s book_cost_ledger)
qed

lemma stream_logging_ledger:
  "\<exists>prompt. cost_ledger (ab_db (write_stream_ledger pr hooks now ctx s b)) = cost_ledger (ab_db b)
     @ (if faults (ab_db b) CreateCost then []
        else [ledger_row (next_id (map le_id (cost_ledger (ab_db b)))) now (stream_ledger pr ctx s prompt)])"
  by (auto simp: write_stream_ledger_def create_cost_def Let_def split: prod.split)

lemma sum_cost_ledger:
  "cost_ledger db' = cost_ledger db @ rows \<Longrightarrow>
     sum_cost p db' = sum_cost p db + sum_list (map cost_usd (filter p rows))"
  by (simp add: sum_cost_def)

text \<open>
  A prompt store that refuses one row: the streamed answer is still spend, the plain answer is not.
\<close>

theorem refused_prompt_row_loses_spend:
  assumes "store_refuses (ab_prompts b)" and "\<not> faults (ab_db b) CreateCost"
    and "lc_write_prompt c" and "sx_write_prompt ctx"
  shows "sum_cost (\<lambda>_. True) (ab_db (spawn_completion_logging parse live hooks now c b)) = sum_cost (\<lambda>_. True) (ab_db b)"
    and "sum_cost (\<lambda>_. True) (ab_db (write_stream_ledger pr hooks now ctx s b))
           = sum_cost (\<lambda>_. True) (ab_db b) + ss_cost s"
proof -
  obtain prompt where "cost_ledger (ab_db (spawn_completion_logging parse live hooks now c b)) = cost_ledger (ab_db b) @ []"
    using completion_logging_ledger [of parse live hooks now c b] assms by auto
  from sum_cost_ledger [OF this, of "\<lambda>_. True"]
  show "sum_cost (\<lambda>_. True) (ab_db (spawn_completion_logging parse live hooks now c b)) = sum_cost (\<lambda>_. True) (ab_db b)"
    by simp
  obtain q where "cost_ledger (ab_db (write_stream_ledger pr hooks now ctx s b)) = cost_ledger (ab_db b)
     @ [ledger_row (next_id (map le_id (cost_ledger (ab_db b)))) now (stream_ledger pr ctx s q)]"
    using stream_logging_ledger [of pr hooks now ctx s b] assms by auto
  from sum_cost_ledger [OF this, of "\<lambda>_. True"]
  show "sum_cost (\<lambda>_. True) (ab_db (write_stream_ledger pr hooks now ctx s b))
           = sum_cost (\<lambda>_. True) (ab_db b) + ss_cost s"
    by (simp add: ledger_row_def stream_ledger_def)
qed

lemma cache_hit_books_saving:
  "\<exists>prompt. cost_ledger (ab_db (record_cache_hit pr live now h r b)) = cost_ledger (ab_db b)
     @ (if faults (ab_db b) CreateCacheHit then []
        else [(ledger_row (next_id (map le_id (cost_ledger (ab_db b)))) now (hit_ledger pr h r prompt))
                \<lparr>cost_usd := 0, cache_hit := True, saved_usd := hx_avoided_cost h\<rparr>])"
  by (auto simp: record_cache_hit_def create_cache_hit_def hit_ledger_def Let_def split: prod.split)

section \<open>What leaves the router\<close>

text \<open>An event or a row that shows nothing of the conversation.\<close>

definition event_blank :: "callback_event \<Rightarrow> bool" where
  "event_blank ev \<longleftrightarrow> ce_input ev = JStr content_not_stored \<and> ce_output ev = content_not_stored"

lemma redacted_event: "sc_store_prompt_content live \<or> event_blank (redact_callback_content live ev)"
  by (simp add: redact_callback_content_def event_blank_def)

lemma log_prompt_callbacks:
  "ab_callbacks (log_prompt parse live now c b) = ab_callbacks b \<or>
   \<not> lc_skip_log c \<and> (\<exists>saved. ab_callbacks (log_prompt parse live now c b)
     = ab_callbacks b @ [redact_callback_content live (completion_event parse saved c)])"
  by (auto simp: log_prompt_def Let_def split: prod.splits sum.splits)

lemma logging_callbacks [simp]:
  "ab_callbacks (spawn_completion_logging parse live hooks now c b) =
     (if lc_write_prompt c then ab_callbacks (log_prompt parse live now c b) else ab_callbacks b)"
  by (simp add: spawn_completion_logging_def Let_def)

text \<open>
  C30. Egress follows the operator and the caller. Logging an answer adds at most one callback event; it
  adds none when the request is to be left out of the log (\<open>x-no-log\<close>, or prompts not stored), and what it
  adds is blanked unless the operator stores content, also when an experiment retains the content locally.
\<close>

theorem egress_follows_operator:
  "\<exists>added. ab_callbacks (spawn_completion_logging parse live hooks now c b) = ab_callbacks b @ added
     \<and> length added \<le> 1 \<and> (if lc_skip_log c then added = [] else True)
     \<and> list_all (\<lambda>ev. if sc_store_prompt_content live then ce_cost_usd ev = lc_cost c else event_blank ev) added"
proof (cases "ab_callbacks (spawn_completion_logging parse live hooks now c b) = ab_callbacks b")
  case True
  then show ?thesis by (intro exI [of _ "[]"]) simp
next
  case False
  with log_prompt_callbacks [of parse live now c b] obtain saved where "\<not> lc_skip_log c"
    "ab_callbacks (spawn_completion_logging parse live hooks now c b)
       = ab_callbacks b @ [redact_callback_content live (completion_event parse saved c)]"
    by (auto split: if_splits)
  then show ?thesis
    by (intro exI [of _ "[redact_callback_content live (completion_event parse saved c)]"])
      (simp add: redact_callback_content_def completion_event_def event_blank_def)
qed

text \<open>Without \<open>write_prompt\<close> no row of the conversation is written, on any of the three paths.\<close>

lemma opt_out_leaves_no_prompt:
  "\<not> lc_write_prompt c \<Longrightarrow> ab_prompts (spawn_completion_logging parse live hooks now c b) = ab_prompts b"
  "\<not> sx_write_prompt ctx \<Longrightarrow> ab_prompts (write_stream_ledger pr hooks now ctx s b) = ab_prompts b"
  "hx_skip_log h \<Longrightarrow> ab_prompts (record_cache_hit pr live now h r b) = ab_prompts b"
  by (simp_all add: spawn_completion_logging_def write_stream_ledger_def record_cache_hit_def Let_def split: prod.split)

end
