(* ===== verification/Chat_Completions.thy ===== *)
theory Chat_Completions
  imports Completion_Logging Failover Load_Balancer Sessions Admission_Limits
begin

text \<open>
  The whole of \<open>POST /v1/chat/completions\<close> (\<open>src/src/api/routes/completions.rs\<close>): the gates, the
  routing, the cache, the plain and the streamed dispatch, what is booked, and the record of a failure.
  A handler that panics or never ends is \<open>None\<close>. Tasks the handler spawns are listed in the state
  and run by \<open>run_task\<close>. Clocks, UUIDs, providers, guardrails and hook programs act on a world \<open>'w\<close>.
\<close>

section \<open>Environment and state\<close>

record 'w chat_env =
  ev_ops :: "'w world_ops"
  ev_gateway :: gateway_config
  ev_experiments :: experiment_registry
  ev_storage :: storage_config
  ev_complexity :: "complexity_config option"
  ev_lifecycle :: "lifecycle_hook list"
  ev_pipeline :: "pipeline_hook list"
  ev_hooks :: "'w hook_ops"
  ev_guardrails :: "'w guardrail_chain"
  ev_parse :: "string \<Rightarrow> json option"
  ev_print :: "json \<Rightarrow> string"
  ev_sha :: "string \<Rightarrow> string"
  ev_result_value :: "completion_result \<Rightarrow> json option"
  ev_result_of :: "json \<Rightarrow> completion_result option"
  ev_unix :: "'w \<Rightarrow> nat"
  ev_uuid :: "'w \<Rightarrow> string \<times> 'w"

datatype chat_task = LogCompletion completion_log | LogHit cache_hit_ctx completion_result

record 'w chat_state =
  ch_gateway :: "'w gateway"
  ch_books :: accounting
  ch_hooks :: "unit hook_state"
  ch_concurrency :: concurrency_limiter
  ch_sessions :: session_limiter
  ch_balancer :: load_balancer
  ch_affinity :: session_affinity
  ch_cache :: response_cache
  ch_calc :: cost_calculator
  ch_tasks :: "chat_task list"

definition world_of :: "'w chat_state \<Rightarrow> 'w" where
  "world_of s = gw_world (ch_gateway s)"

definition set_world :: "'w \<Rightarrow> 'w chat_state \<Rightarrow> 'w chat_state" where
  "set_world w s = s\<lparr>ch_gateway := (ch_gateway s)\<lparr>gw_world := w\<rparr>\<rparr>"

definition router_of :: "'w chat_state \<Rightarrow> request_router" where
  "router_of s = gw_router (ch_gateway s)"

definition unix_now :: "'w chat_env \<Rightarrow> 'w chat_state \<Rightarrow> nat" where
  "unix_now env s = ev_unix env (world_of s)"

definition millis_now :: "'w chat_env \<Rightarrow> 'w chat_state \<Rightarrow> nat" where
  "millis_now env s = wo_now (ev_ops env) (world_of s)"

definition timestamp :: "'w chat_env \<Rightarrow> 'w chat_state \<Rightarrow> string" where
  "timestamp env s = wo_timestamp (ev_ops env) (world_of s)"

text \<open>The \<open>?\<close> operator over steps that change the state.\<close>

definition then_ok :: "('e + 'a) \<times> 's \<Rightarrow> ('a \<Rightarrow> 's \<Rightarrow> ('e + 'b) \<times> 's) \<Rightarrow> ('e + 'b) \<times> 's" where
  "then_ok rs k = (case rs of (Inl e, s) \<Rightarrow> (Inl e, s) | (Inr a, s) \<Rightarrow> k a s)"

text \<open>A step that only reads.\<close>

definition just :: "'e + 'a \<Rightarrow> 's \<Rightarrow> ('e + 'a) \<times> 's" where
  "just r s = (r, s)"

section \<open>What is read from the request first\<close>

definition header_true :: "headers \<Rightarrow> string \<Rightarrow> bool" where
  "header_true hs name =
     (case map_of hs name of
        None \<Rightarrow> False
      | Some v \<Rightarrow> list_all visible_ascii v \<and> eq_ignore_case (trim v) ''true'')"

definition should_skip_affinity :: "headers \<Rightarrow> bool" where
  "should_skip_affinity hs = header_true hs ''x-session-lb''"

definition should_skip_logging :: "headers \<Rightarrow> bool" where
  "should_skip_logging hs = header_true hs ''x-no-log''"

record chat_call =
  cl_user :: user
  cl_headers :: headers
  cl_received :: nat
  cl_attribution :: attribution
  cl_directives :: cache_directives
  cl_binding :: "binding option"
  cl_skip_log :: bool
  cl_write_prompt :: bool
  cl_storage :: storage_config
  cl_requested_model :: string
  cl_model :: string
  cl_logged_model :: string
  cl_stream :: bool

definition cl_bound :: "chat_call \<Rightarrow> bool" where
  "cl_bound c \<longleftrightarrow> cl_binding c \<noteq> None"

definition retains_content :: "binding option \<Rightarrow> bool" where
  "retains_content b = (case b of Some x \<Rightarrow> bd_retain_content x | None \<Rightarrow> False)"

definition effective_storage :: "storage_config \<Rightarrow> bool \<Rightarrow> storage_config" where
  "effective_storage sc retain =
     (if retain then sc\<lparr>sc_store_prompts := True, sc_store_prompt_content := True\<rparr> else sc)"

text \<open>The overlay of a binding, or the complexity downgrade.\<close>

definition dispatched_model :: "'w chat_env \<Rightarrow> binding option \<Rightarrow> string \<Rightarrow> json \<Rightarrow> string" where
  "dispatched_model env b requested body =
     (case b of
        Some x \<Rightarrow> (case map_of (bd_overlay x) requested of Some m \<Rightarrow> m | None \<Rightarrow> requested)
      | None \<Rightarrow> maybe_downgrade (ev_complexity env) requested (messages_of body))"

definition make_call ::
  "'w chat_env \<Rightarrow> user \<Rightarrow> headers \<Rightarrow> json \<Rightarrow> attribution \<Rightarrow> cache_directives \<Rightarrow> binding option \<Rightarrow> 'w chat_state \<Rightarrow> chat_call" where
  "make_call env u hs body a d b s =
     (let no_log = should_skip_logging hs; retain = retains_content b;
          requested = (case as_str (jget body ''model'') of
                         Some m \<Rightarrow> m | None \<Rightarrow> default_model (routing (router_of s)));
          model = dispatched_model env b requested body
      in \<lparr>cl_user = u, cl_headers = hs, cl_received = millis_now env s, cl_attribution = a, cl_directives = d,
          cl_binding = b, cl_skip_log = (no_log \<or> \<not> sc_store_prompts (ev_storage env)),
          cl_write_prompt = (\<not> no_log \<and> (sc_store_prompts (ev_storage env) \<or> retain)),
          cl_storage = effective_storage (ev_storage env) retain,
          cl_requested_model = requested, cl_model = model,
          cl_logged_model = (if b \<noteq> None then requested else model), cl_stream = wants_stream body\<rparr>)"

text \<open>\<open>None\<close>: binding panicked.\<close>

definition read_request ::
  "'w chat_env \<Rightarrow> user \<Rightarrow> headers \<Rightarrow> json \<Rightarrow> 'w chat_state \<Rightarrow> (api_error + chat_call) option" where
  "read_request env u hs body s =
     (case attribution_error (attribution_extract (ev_parse env) (ev_print env) body hs) of
        Inl e \<Rightarrow> Some (Inl e)
      | Inr a \<Rightarrow>
          (case directives_from_headers hs of
             Inl m \<Rightarrow> Some (Inl (InvalidRequest m))
           | Inr d \<Rightarrow>
               map_option
                 (\<lambda>r. case r of Inl e \<Rightarrow> Inl (bind_error_response e) | Inr b \<Rightarrow> Inr (make_call env u hs body a d b s))
                 (bind_experiment (ev_experiments env) hs body (at_correlation_id a) (user_id u) (int (unix_now env s)))))"

section \<open>The gates\<close>

definition fire_hooks :: "(lifecycle_hook \<times> json) list \<Rightarrow> 'w chat_state \<Rightarrow> 'w chat_state" where
  "fire_hooks fs s = s\<lparr>ch_books := fire_all fs (ch_books s)\<rparr>"

definition fire_request_received_hooks ::
  "'w chat_env \<Rightarrow> string \<Rightarrow> string \<Rightarrow> json \<Rightarrow> 'w chat_state \<Rightarrow> 'w chat_state" where
  "fire_request_received_hooks env name model body s =
     fire_hooks
       (map (\<lambda>h. (h, request_received_payload name model (length (messages_of body)) (timestamp env s)))
            (hooks_for (ev_lifecycle env) ''on_request_received'')) s"

text \<open>\<open>Inr True\<close>: admitted, and a permit is held.\<close>

definition enforce_policy ::
  "'w chat_env \<Rightarrow> user \<Rightarrow> string \<Rightarrow> 'w chat_state \<Rightarrow> (api_error + bool) \<times> 'w chat_state" where
  "enforce_policy env u model s =
     (let cfg = ev_gateway env;
          (r, db) = policy_check (gc_parse_list cfg) (gc_policy cfg) (ab_db (ch_books s)) u model;
          s = s\<lparr>ch_books := (ch_books s)\<lparr>ab_db := db\<rparr>\<rparr>
      in case r of
           Inl e \<Rightarrow> (Inl Internal, s)
         | Inr (Allow (Some mx)) \<Rightarrow>
             (let (got, c) = try_acquire (ch_concurrency s) (user_id u) mx; s = s\<lparr>ch_concurrency := c\<rparr>
              in if got then (Inr True, s)
                 else (Inl (PolicyDenied ''concurrent request limit exceeded'' 429), s))
         | Inr (Allow None) \<Rightarrow> (Inr False, s)
         | Inr (Deny why status ctx) \<Rightarrow>
             (Inl (PolicyDenied why status),
              case ctx of
                None \<Rightarrow> s
              | Some b \<Rightarrow>
                  fire_hooks
                    (map (\<lambda>h. (h, budget_exceeded_payload (user_name u) model (bc_limit_usd b) (bc_spent_usd b) (bc_window b)))
                         (hooks_for (ev_lifecycle env) ''on_budget_exceeded'')) s))"

definition session_gate :: "'w chat_env \<Rightarrow> json \<Rightarrow> 'w chat_state \<Rightarrow> (api_error + unit) \<times> 'w chat_state" where
  "session_gate env body s =
     (case check_session_rate_limit (unix_now env s) (ch_sessions s) body of
        (None, l) \<Rightarrow> (Inr (), s\<lparr>ch_sessions := l\<rparr>)
      | (Some (why, status), l) \<Rightarrow> (Inl (PolicyDenied why status), s\<lparr>ch_sessions := l\<rparr>))"

definition guard_context :: "chat_call \<Rightarrow> json \<Rightarrow> guardrail_context" where
  "guard_context c body =
     \<lparr>gx_messages = jget body ''messages'', gx_model = cl_model c, gx_user_id = user_id (cl_user c)\<rparr>"

text \<open>A replacement of the request is not supported and admits it.\<close>

definition request_guardrails ::
  "'w chat_env \<Rightarrow> guardrail_context \<Rightarrow> 'w chat_state \<Rightarrow> (api_error + unit) \<times> 'w chat_state" where
  "request_guardrails env ctx s =
     (let (d, w) = check_request (ev_guardrails env) ctx (world_of s)
      in (case d of GuardBlock why \<Rightarrow> Inl (PolicyDenied why 400) | _ \<Rightarrow> Inr (), set_world w s))"

definition with_session_window :: "user \<Rightarrow> json \<Rightarrow> json" where
  "with_session_window u body =
     (case body of
        JObj m \<Rightarrow> JObj (bt_insert ''_mr_session_window_secs''
                     (jint (case session_window_secs u of Some n \<Rightarrow> n | None \<Rightarrow> 28800)) m)
      | _ \<Rightarrow> body)"

definition pre_request_hooks ::
  "'w chat_env \<Rightarrow> user \<Rightarrow> json \<Rightarrow> 'w chat_state \<Rightarrow> (api_error + json) \<times> 'w chat_state" where
  "pre_request_hooks env u body s =
     (let st = \<lparr>hs_permissions = hs_permissions (ch_hooks s), hs_metrics = hs_metrics (ch_hooks s),
                hs_down = hs_down (ch_hooks s), hs_world = world_of s\<rparr>;
          (r, st) = run_pre_request (ev_hooks env) (ev_pipeline env) (with_session_window u body) st;
          s = (set_world (hs_world st) s)\<lparr>ch_hooks := (ch_hooks s)\<lparr>hs_metrics := hs_metrics st\<rparr>\<rparr>
      in (case r of Inl e \<Rightarrow> Inl Internal | Inr b \<Rightarrow> Inr b, s))"

section \<open>Routing\<close>

definition pool_bound_msg :: "string \<Rightarrow> string" where
  "pool_bound_msg model =
     quoted model @ '' is a load balancer pool; experiments must pin a concrete provider/model''"

definition pool_disabled_msg :: "string \<Rightarrow> string" where
  "pool_disabled_msg model =
     ''every model in load balancer pool '' @ quoted model @ '' has been disabled by an administrator''"

definition resolve_provider_and_model ::
  "bool \<Rightarrow> string \<Rightarrow> 'w chat_state \<Rightarrow> (api_error + string \<times> string) \<times> 'w chat_state" where
  "resolve_provider_and_model bound model s =
     (let r = router_of s;
          (choice, lb) = (if bound then (None, ch_balancer s)
                          else resolve_available (ch_balancer s) model (\<lambda>pm. router_is_available r (fst pm) (snd pm)));
          s = s\<lparr>ch_balancer := lb\<rparr>
      in case choice of
           Some pm \<Rightarrow> (Inr pm, s)
         | None \<Rightarrow>
             if is_pool lb model
             then (Inl (if bound then InvalidRequest (pool_bound_msg model) else Disabled (pool_disabled_msg model)), s)
             else case guard_model_substitution r model of
                    Inl e \<Rightarrow> (Inl e, s)
                  | Inr _ \<Rightarrow> (Inr (resolve r model), s))"

definition apply_session_affinity ::
  "'w chat_env \<Rightarrow> headers \<Rightarrow> string option \<Rightarrow> string \<times> string \<Rightarrow> 'w chat_state \<Rightarrow> (string \<times> string) \<times> 'w chat_state" where
  "apply_session_affinity env hs session_id pm s =
     (case session_id of
        None \<Rightarrow> (pm, s)
      | Some sid \<Rightarrow>
          (let now = unix_now env s;
               (pin, a) = (if should_skip_affinity hs then (None, ch_affinity s) else affinity_get now (ch_affinity s) sid);
               (p, m, update) = resolve_with_pin pin (fst pm) (snd pm)
           in ((p, m), s\<lparr>ch_affinity := (if update then affinity_set now a sid p m else a)\<rparr>)))"

definition disabled_gate :: "string \<times> string \<Rightarrow> 'w chat_state \<Rightarrow> api_error + unit" where
  "disabled_gate pm s =
     (case check_available (router_of s) (fst pm) (snd pm) of
        Inl why \<Rightarrow> Inl (Disabled (unavailable_message why))
      | Inr _ \<Rightarrow> Inr ())"

definition route ::
  "'w chat_env \<Rightarrow> chat_call \<Rightarrow> json \<Rightarrow> 'w chat_state \<Rightarrow> (api_error + string \<times> string) \<times> 'w chat_state" where
  "route env c body s =
     then_ok (resolve_provider_and_model (cl_bound c) (cl_model c) s) (\<lambda>pm s.
       let session = (if cl_bound c then None else as_str (jget body ''session_id''));
           (pm, s) = apply_session_affinity env (cl_headers c) session pm s
       in then_ok (just (disabled_gate pm s) s) (\<lambda>_ s.
          then_ok (just (ensure_tools_supported (wo_registry (ev_ops env)) body (fst pm) (snd pm)) s) (\<lambda>_ s.
          (Inr pm, s))))"

section \<open>The response cache\<close>

text \<open>A body, an event stream as replayed, or a live stream still to be read through its ledger.\<close>

datatype chat_response =
    PlainBody json string
  | Replay string string
  | LiveStream stream_ctx "(anyhow + string) list" "string option"

definition chat_cache_plan :: "'w chat_env \<Rightarrow> chat_call \<Rightarrow> json \<Rightarrow> string \<Rightarrow> 'w chat_state \<Rightarrow> cache_plan" where
  "chat_cache_plan env c body canonical s =
     (if \<not> cl_bound c \<and> cache_enabled (gc_policy (ev_gateway env)) (cl_user c) canonical
      then completion_plan (ch_cache s) (mode (cl_directives c)) body
      else Skip)"

definition chat_cache_key :: "'w chat_env \<Rightarrow> cache_plan \<Rightarrow> json \<Rightarrow> string \<Rightarrow> string option" where
  "chat_cache_key env plan body canonical =
     (if plan_store plan then Some (completion_cache_key (ev_sha env) (ev_print env) canonical body) else None)"

definition messages_json :: "'w chat_env \<Rightarrow> json \<Rightarrow> string" where
  "messages_json env body = ev_print env (JArr (messages_of body))"

definition call_project :: "chat_call \<Rightarrow> string option" where
  "call_project c = project_or (cl_attribution c) (api_key_project (cl_user c))"

definition hit_context :: "'w chat_env \<Rightarrow> chat_call \<Rightarrow> json \<Rightarrow> string \<times> string \<Rightarrow> rat \<Rightarrow> cache_hit_ctx" where
  "hit_context env c body pm avoided =
     \<lparr>hx_user_id = user_id (cl_user c), hx_api_key_id = user_api_key_id (cl_user c),
      hx_user_project = call_project c, hx_request_model = cl_model c, hx_canonical_model = snd pm,
      hx_provider = fst pm, hx_messages_json = messages_json env body, hx_avoided_cost = avoided,
      hx_skip_log = cl_skip_log c, hx_attribution = cl_attribution c\<rparr>"

definition request_for :: "'w chat_env \<Rightarrow> chat_call \<Rightarrow> json \<Rightarrow> string \<Rightarrow> 'w chat_state \<Rightarrow> normalized_request" where
  "request_for env c body canonical s =
     build_normalized_request body canonical (cl_model c) (gc_capabilities (ev_gateway env)) (learned_of (ch_gateway s))"

definition new_request_id :: "'w chat_env \<Rightarrow> 'w chat_state \<Rightarrow> string \<times> 'w chat_state" where
  "new_request_id env s =
     (let (u, w) = ev_uuid env (world_of s) in (''chatcmpl-mr-'' @ u, set_world w s))"

definition hit_meta ::
  "'w chat_env \<Rightarrow> chat_call \<Rightarrow> json \<Rightarrow> string \<times> string \<Rightarrow> completion_result \<Rightarrow> rat \<Rightarrow> 'w chat_state \<Rightarrow> router_meta" where
  "hit_meta env c body pm cached avoided s =
     (let req = request_for env c body (snd pm) s
      in \<lparr>rm_requested_model = cl_requested_model c, rm_model = snd pm, rm_provider = fst pm,
          rm_settings = (case wo_registry (ev_ops env) (fst pm) of
                           Inr ad \<Rightarrow> completion_settings (ad_effective_settings ad req) req body
                         | Inl _ \<Rightarrow> JNull),
          rm_tokens = Some (completion_tokens_meta cached), rm_results = None, rm_cost = cost_of_hit avoided,
          rm_timing = \<lparr>tg_total_ms = int (millis_now env s - cl_received c), tg_latency_ms = 0, tg_provider_ms = None,
                       tg_ttft_ms = None, tg_attempts = 0, tg_fallbacks = 0\<rparr>\<rparr>)"

definition hit_response ::
  "'w chat_env \<Rightarrow> json \<Rightarrow> string \<Rightarrow> completion_result \<Rightarrow> router_meta \<Rightarrow> 'w chat_state \<Rightarrow> chat_response option" where
  "hit_response env body rid cached m s =
     (if wants_stream body
      then map_option (\<lambda>sse. Replay sse ''HIT'')
             (replay_completion_stream (ev_print env) rid cached m (int (unix_now env s)) (int (unix_now env s)))
      else map_option (\<lambda>v. PlainBody v ''HIT'') (build_openai_response rid cached m))"

text \<open>\<open>Some (None, s)\<close> is a miss; \<open>None\<close> a panic while the answer is built.\<close>

definition try_serve_cached_completion ::
  "'w chat_env \<Rightarrow> chat_call \<Rightarrow> json \<Rightarrow> string \<times> string \<Rightarrow> string \<Rightarrow> 'w chat_state
     \<Rightarrow> (chat_response option \<times> 'w chat_state) option" where
  "try_serve_cached_completion env c body pm key s =
     (let (found, rc) = get_completion (ev_result_of env) (int (unix_now env s)) (ch_cache s) key (snd pm) (cl_directives c);
          s = s\<lparr>ch_cache := rc\<rparr>
      in case found of
           None \<Rightarrow> Some (None, s)
         | Some cached \<Rightarrow>
             (let (avoided, calc) = calculate_with_cache (ch_calc s) (snd pm) (prompt_tokens cached)
                    (completion_tokens cached) (cache_read_tokens cached) (cache_write_tokens cached);
                  s = s\<lparr>ch_calc := calc, ch_tasks := ch_tasks s @ [LogHit (hit_context env c body pm avoided) cached]\<rparr>;
                  (rid, s) = new_request_id env s
              in map_option (\<lambda>resp. (Some resp, s))
                   (hit_response env body rid cached (hit_meta env c body pm cached avoided s) s)))"

section \<open>The streamed dispatch\<close>

definition set_learned_caps :: "learned \<Rightarrow> 'w chat_state \<Rightarrow> 'w chat_state" where
  "set_learned_caps l s = s\<lparr>ch_gateway := set_learned l (ch_gateway s)\<rparr>"

text \<open>The call, and the one retry without \<open>temperature\<close>.\<close>

definition stream_call ::
  "'w chat_env \<Rightarrow> 'w adapter \<Rightarrow> normalized_request \<Rightarrow> 'w chat_state \<Rightarrow> (anyhow + (anyhow + string) list) \<times> 'w chat_state" where
  "stream_call env ad req s =
     (let (r, w) = ad_stream ad req (world_of s)
      in case r of
           Inr ok \<Rightarrow> (Inr ok, set_world w s)
         | Inl e \<Rightarrow>
             (case temperature_rejection_retry req e of
                None \<Rightarrow> (Inl e, set_world w s)
              | Some again \<Rightarrow>
                  (let (l, w) = record_temperature_rejection (wo_upsert (ev_ops env)) (wo_timestamp (ev_ops env) w)
                                  (learned_of (ch_gateway s)) w (nr_model req) e;
                       (r, w) = ad_stream ad again w
                   in (r, set_world w (set_learned_caps l s)))))"

definition set_breaker :: "circuit_breaker \<Rightarrow> 'w chat_state \<Rightarrow> 'w chat_state" where
  "set_breaker cb s = s\<lparr>ch_gateway := (ch_gateway s)\<lparr>gw_breaker := cb\<rparr>\<rparr>"

definition live_context ::
  "'w chat_env \<Rightarrow> chat_call \<Rightarrow> json \<Rightarrow> string \<times> string \<Rightarrow> string \<Rightarrow> string option \<Rightarrow> json \<Rightarrow> stream_ctx" where
  "live_context env c body pm rid key settings =
     \<lparr>sx_request_id = rid, sx_requested_model = cl_requested_model c, sx_settings = settings,
      sx_user_id = user_id (cl_user c), sx_api_key_id = user_api_key_id (cl_user c),
      sx_user_project = call_project c, sx_user_name = user_name (cl_user c), sx_model = cl_logged_model c,
      sx_canonical_model = snd pm, sx_provider = fst pm, sx_messages_json = messages_json env body,
      sx_write_prompt = cl_write_prompt c, sx_storage = cl_storage c, sx_attribution = cl_attribution c,
      sx_experiment_id = map_option bd_experiment_id (cl_binding c),
      sx_experiment_variant = map_option bd_variant (cl_binding c), sx_cache_key = key,
      sx_cache_directives = cl_directives c\<rparr>"

definition serve_stream ::
  "'w chat_env \<Rightarrow> chat_call \<Rightarrow> json \<Rightarrow> string \<times> string \<Rightarrow> cache_plan \<Rightarrow> string option \<Rightarrow> normalized_request \<Rightarrow> string
     \<Rightarrow> 'w chat_state \<Rightarrow> (api_error + chat_response) \<times> 'w chat_state" where
  "serve_stream env c body pm plan key req rid s =
     (let provider = fst pm;
          (opened, cb) = is_open (millis_now env s) (gw_breaker (ch_gateway s)) provider;
          s = set_breaker cb s
      in if opened then (Inl (ProviderError (circuit_open_error provider)), s)
         else case wo_registry (ev_ops env) provider of
                Inl e \<Rightarrow> (Inl (ProviderError e), s)
              | Inr ad \<Rightarrow>
                  (let s = set_learned_caps (note_learned_temperature_strip (learned_of (ch_gateway s)) body req) s
                   in case stream_call env ad req s of
                        (Inl e, s) \<Rightarrow>
                          (Inl (ProviderError e),
                           set_breaker (record_provider_failure (millis_now env s) (gw_breaker (ch_gateway s)) provider e) s)
                      | (Inr yields, s) \<Rightarrow>
                          (Inr (LiveStream
                                 (live_context env c body pm rid key
                                   (completion_settings (ad_effective_settings ad req) req body))
                                 yields (miss_header plan)),
                           set_breaker (record_success (gw_breaker (ch_gateway s)) provider) s)))"

section \<open>The plain dispatch\<close>

definition completion_log_of ::
  "'w chat_env \<Rightarrow> chat_call \<Rightarrow> json \<Rightarrow> provider_call_outcome \<Rightarrow> completion_result \<Rightarrow> rat \<Rightarrow> int \<Rightarrow> completion_log" where
  "completion_log_of env c body po r cost latency =
     \<lparr>lc_user_id = user_id (cl_user c), lc_api_key_id = user_api_key_id (cl_user c), lc_user_project = call_project c,
      lc_user_name = user_name (cl_user c), lc_model = cl_logged_model c, lc_canonical_model = po_model po,
      lc_provider = po_provider po, lc_messages_json = messages_json env body, lc_response = content r,
      lc_finish_reason = finish_reason r, lc_prompt_tokens = prompt_tokens r,
      lc_completion_tokens = completion_tokens r, lc_cache_read_tokens = cache_read_tokens r,
      lc_cache_write_tokens = cache_write_tokens r, lc_ttft_ms = ttft_ms r,
      lc_attempts = max (int (po_attempts po)) 1, lc_cost = cost, lc_latency_ms = latency,
      lc_write_prompt = cl_write_prompt c, lc_skip_log = cl_skip_log c, lc_storage = cl_storage c,
      lc_correlation_id = at_correlation_id (cl_attribution c),
      lc_attribution_tags = tags_json (ev_print env) (cl_attribution c),
      lc_experiment_id = map_option bd_experiment_id (cl_binding c),
      lc_experiment_variant = map_option bd_variant (cl_binding c)\<rparr>"

definition plain_meta ::
  "chat_call \<Rightarrow> provider_call_outcome \<Rightarrow> completion_result \<Rightarrow> rat \<Rightarrow> int \<Rightarrow> int \<Rightarrow> router_meta" where
  "plain_meta c po r cost latency total_ms =
     \<lparr>rm_requested_model = cl_requested_model c, rm_model = po_model po, rm_provider = po_provider po,
      rm_settings = po_settings po, rm_tokens = Some (completion_tokens_meta r), rm_results = None,
      rm_cost = spent cost,
      rm_timing = \<lparr>tg_total_ms = total_ms, tg_latency_ms = latency, tg_provider_ms = Some (int (po_provider_ms po)),
                   tg_ttft_ms = ttft_ms r, tg_attempts = max (int (po_attempts po)) 1,
                   tg_fallbacks = int (po_fallbacks po)\<rparr>\<rparr>"

definition store_answer ::
  "'w chat_env \<Rightarrow> chat_call \<Rightarrow> string option \<Rightarrow> string \<Rightarrow> completion_result \<Rightarrow> rat \<Rightarrow> 'w chat_state \<Rightarrow> 'w chat_state" where
  "store_answer env c key canonical r cost s =
     (case key of
        None \<Rightarrow> s
      | Some k \<Rightarrow>
          s\<lparr>ch_cache := put_completion (ev_result_value env) (int (unix_now env s)) (ch_cache s) k canonical r cost
                          (cl_directives c)\<rparr>)"

text \<open>What follows the provider's answer: guardrails, price, log, cache, response.\<close>

definition answer_plain ::
  "'w chat_env \<Rightarrow> chat_call \<Rightarrow> json \<Rightarrow> guardrail_context \<Rightarrow> string \<Rightarrow> cache_plan \<Rightarrow> string option \<Rightarrow> string \<Rightarrow> nat
     \<Rightarrow> provider_call_outcome \<Rightarrow> 'w chat_state \<Rightarrow> ((api_error + chat_response) \<times> 'w chat_state) option" where
  "answer_plain env c body gctx canonical plan key rid start po s =
     (let (d, w) = check_response (ev_guardrails env) gctx (content (po_result po)) (world_of s); s = set_world w s
      in case (case d of
                 GuardAllow \<Rightarrow> Inr (po_result po)
               | GuardBlock why \<Rightarrow> Inl (PolicyDenied why 400)
               | GuardReplace text \<Rightarrow> Inr ((po_result po)\<lparr>content := text\<rparr>)) of
           Inl e \<Rightarrow> Some (Inl e, s)
         | Inr r \<Rightarrow>
             (let latency = int (millis_now env s - start);
                  (cost, calc) = calculate_with_cache (ch_calc s) (po_model po) (prompt_tokens r)
                    (completion_tokens r) (cache_read_tokens r) (cache_write_tokens r);
                  s = s\<lparr>ch_calc := calc,
                        ch_tasks := ch_tasks s @ [LogCompletion (completion_log_of env c body po r cost latency)]\<rparr>;
                  s = store_answer env c key canonical r cost s;
                  m = plain_meta c po r cost latency (int (millis_now env s - cl_received c))
              in map_option
                   (\<lambda>v. (Inr (PlainBody v (case miss_header plan of Some h \<Rightarrow> h | None \<Rightarrow> ''MISS'')), s))
                   (build_openai_response rid r m)))"

definition serve_plain ::
  "'w chat_env \<Rightarrow> chat_call \<Rightarrow> json \<Rightarrow> guardrail_context \<Rightarrow> string \<times> string \<Rightarrow> cache_plan \<Rightarrow> string option \<Rightarrow> string
     \<Rightarrow> 'w chat_state \<Rightarrow> ((api_error + chat_response) \<times> 'w chat_state) option" where
  "serve_plain env c body gctx pm plan key rid s =
     (let start = millis_now env s
      in Option.bind
           (complete_with_retry_and_fallback (ev_ops env) (ev_gateway env) (ab_db (ch_books s)) (cl_user c) body
              (cl_bound c) pm (cl_model c) (ch_gateway s))
           (\<lambda>(r, g).
              let s = s\<lparr>ch_gateway := g\<rparr>
              in case r of
                   Inl e \<Rightarrow> Some (Inl e, s)
                 | Inr po \<Rightarrow> answer_plain env c body gctx (snd pm) plan key rid start po s))"

section \<open>The handler\<close>

definition dispatch ::
  "'w chat_env \<Rightarrow> chat_call \<Rightarrow> json \<Rightarrow> guardrail_context \<Rightarrow> string \<times> string \<Rightarrow> cache_plan \<Rightarrow> string option
     \<Rightarrow> 'w chat_state \<Rightarrow> ((api_error + chat_response) \<times> 'w chat_state) option" where
  "dispatch env c body gctx pm plan key s =
     (let req = request_for env c body (snd pm) s; (rid, s) = new_request_id env s
      in if cl_stream c then Some (serve_stream env c body pm plan key req rid s)
         else serve_plain env c body gctx pm plan key rid s)"

text \<open>Behind the gates: the cache, then a provider.\<close>

definition serve ::
  "'w chat_env \<Rightarrow> chat_call \<Rightarrow> json \<Rightarrow> guardrail_context \<Rightarrow> string \<times> string \<Rightarrow> 'w chat_state
     \<Rightarrow> ((api_error + chat_response) \<times> 'w chat_state) option" where
  "serve env c body gctx pm s =
     (let plan = chat_cache_plan env c body (snd pm) s; key = chat_cache_key env plan body (snd pm)
      in case key of
           Some k \<Rightarrow>
             if plan_lookup plan
             then Option.bind (try_serve_cached_completion env c body pm k s) (\<lambda>(hit, s).
                    case hit of
                      Some resp \<Rightarrow> Some (Inr resp, s)
                    | None \<Rightarrow> dispatch env c body gctx pm plan key s)
             else dispatch env c body gctx pm plan key s
         | None \<Rightarrow> dispatch env c body gctx pm plan key s)"

text \<open>The gates behind the policy check; the body comes out as the pipeline hooks leave it.\<close>

definition admit ::
  "'w chat_env \<Rightarrow> chat_call \<Rightarrow> json \<Rightarrow> 'w chat_state \<Rightarrow> (api_error + json \<times> string \<times> string) \<times> 'w chat_state" where
  "admit env c body s =
     then_ok (just (validate_tool_choice_requires_tools body) s) (\<lambda>_ s.
     then_ok (session_gate env body s) (\<lambda>_ s.
     then_ok (request_guardrails env (guard_context c body) s) (\<lambda>_ s.
     then_ok (pre_request_hooks env (cl_user c) body s) (\<lambda>body s.
     then_ok (route env c body s) (\<lambda>pm s. (Inr (body, pm), s))))))"

definition release_if :: "bool \<Rightarrow> user \<Rightarrow> 'w chat_state \<Rightarrow> 'w chat_state" where
  "release_if held u s = (if held then s\<lparr>ch_concurrency := release_permit (ch_concurrency s) (user_id u)\<rparr> else s)"

text \<open>The permit is a local of the handler, so it is back when the handler returns.\<close>

definition admit_and_serve ::
  "'w chat_env \<Rightarrow> chat_call \<Rightarrow> json \<Rightarrow> 'w chat_state \<Rightarrow> ((api_error + chat_response) \<times> 'w chat_state) option" where
  "admit_and_serve env c body s =
     (case admit env c body s of
        (Inl e, s) \<Rightarrow> Some (Inl e, s)
      | (Inr (body', pm), s) \<Rightarrow> serve env c body' (guard_context c body) pm s)"

definition chat_completions_inner ::
  "'w chat_env \<Rightarrow> user \<Rightarrow> headers \<Rightarrow> json \<Rightarrow> 'w chat_state \<Rightarrow> ((api_error + chat_response) \<times> 'w chat_state) option" where
  "chat_completions_inner env u hs body s =
     Option.bind (read_request env u hs body s) (\<lambda>r.
       case r of
         Inl e \<Rightarrow> Some (Inl e, s)
       | Inr c \<Rightarrow>
           (let s = fire_request_received_hooks env (user_name u) (cl_model c) body s
            in case enforce_policy env u (cl_model c) s of
                 (Inl e, s) \<Rightarrow> Some (Inl e, s)
               | (Inr held, s) \<Rightarrow> map_option (apsnd (release_if held u)) (admit_and_serve env c body s)))"

definition note_failure :: "'w chat_env \<Rightarrow> failure_context \<Rightarrow> nat \<Rightarrow> api_error \<Rightarrow> 'w chat_state \<Rightarrow> 'w chat_state" where
  "note_failure env ctx started e s =
     s\<lparr>ch_books := (ch_books s)\<lparr>ab_failures :=
        record_failure_row (timestamp env s) (ab_failures (ch_books s))
          (ctx\<lparr>fc_latency_ms := Some (int (millis_now env s - started))\<rparr>) e\<rparr>\<rparr>"

definition chat_completions ::
  "'w chat_env \<Rightarrow> user \<Rightarrow> headers \<Rightarrow> json \<Rightarrow> 'w chat_state \<Rightarrow> ((api_error + chat_response) \<times> 'w chat_state) option" where
  "chat_completions env u hs body s =
     Option.bind
       (context_from_request (ev_parse env) (ev_print env) (router_of s) (ev_experiments env) (int (unix_now env s))
          ''/v1/chat/completions'' u hs body)
       (\<lambda>ctx. map_option
          (\<lambda>(r, s'). (r, case r of Inl e \<Rightarrow> note_failure env ctx (millis_now env s) e s' | Inr _ \<Rightarrow> s'))
          (chat_completions_inner env u hs body s))"

text \<open>A spawned task, run when the runtime gets to it.\<close>

definition run_task :: "'w chat_env \<Rightarrow> string \<Rightarrow> chat_task \<Rightarrow> accounting \<Rightarrow> accounting" where
  "run_task env now t b =
     (case t of
        LogCompletion c \<Rightarrow> spawn_completion_logging (ev_parse env) (ev_storage env) (ev_lifecycle env) now c b
      | LogHit h r \<Rightarrow> record_cache_hit (ev_print env) (ev_storage env) now h r b)"

end
