(* ===== verification/Chat_Findings.thy ===== *)
theory Chat_Findings
  imports Chat_Completions
begin

text \<open>
  What the handler does where it departs from what its comments and documents say: cached prompt tokens,
  answers a guardrail blocks, answers of a fallback in the cache, pins behind an alias, lists of models.
\<close>

section \<open>Money\<close>

text \<open>
  A provider that counts cached tokens in \<open>prompt_tokens\<close> (the OpenAI shape): the plain path hands both
  counts to \<open>calculate_with_cache\<close>, the streamed path takes the cached tokens out first. The same usage
  costs more by the full input rate of every cached token.
\<close>

lemma cached_tokens_charged_twice:
  assumes "resolve_price calc model = Some p" and "cached \<le> prompt"
  shows "fst (calculate_with_cache calc model prompt completion cached 0)
    = fst (calculate_with_cache calc model (prompt - cached) completion cached 0)
      + of_nat cached / 1000000 * input_per_million p"
proof -
  have "(of_nat (prompt - cached) :: rat) = of_nat prompt - of_nat cached" using assms(2) by (simp add: of_nat_diff)
  then show ?thesis using assms(1) by (simp add: calculate_with_cache_def price_of_def field_simps)
qed

text \<open>An answer that a response guardrail blocks was paid for, but nothing books it.\<close>

lemma blocked_answer_is_not_booked:
  assumes "check_response (ev_guardrails env) gctx (content (po_result po)) (world_of s) = (GuardBlock why, w)"
  shows "answer_plain env c body gctx canonical plan key rid start po s = Some (Inl (PolicyDenied why 400), set_world w s)"
    and "ch_tasks (set_world w s) = ch_tasks s" and "ch_books (set_world w s) = ch_books s"
  using assms by (simp_all add: answer_plain_def set_world_def)

text \<open>
  The cache entry of an answer stands under the pair that was resolved, whichever pair answered: its key and
  its model do not depend on the outcome's model.
\<close>

lemma fallback_answer_stored_as_resolved:
  assumes "answer_plain env c body gctx canonical plan (Some k) rid start po s = Some (Inr resp, s')"
  shows "\<exists>r now cost. ch_cache s' = put_completion (ev_result_value env) now (ch_cache s) k canonical r cost (cl_directives c)"
proof -
  obtain d w where d: "check_response (ev_guardrails env) gctx (content (po_result po)) (world_of s) = (d, w)" by fastforce
  let ?r = "case d of GuardAllow \<Rightarrow> Inr (po_result po) | GuardBlock why \<Rightarrow> Inl (PolicyDenied why 400)
    | GuardReplace text \<Rightarrow> Inr ((po_result po)\<lparr>content := text\<rparr>)"
  obtain x where x: "?r = Inr x" using assms d by (cases ?r) (auto simp: answer_plain_def Let_def)
  obtain cost calc where k: "calculate_with_cache (ch_calc (set_world w s)) (po_model po) (prompt_tokens x)
      (completion_tokens x) (cache_read_tokens x) (cache_write_tokens x) = (cost, calc)" by fastforce
  have "\<exists>now. ch_cache s' = put_completion (ev_result_value env) now (ch_cache s) k canonical x cost (cl_directives c)"
    using assms d x k by (auto simp: answer_plain_def Let_def store_answer_def set_world_def)
  then show ?thesis by blast
qed

section \<open>Names\<close>

text \<open>
  A pin is resolved again on every request. An alias whose name is a pin sends the bound traffic of an
  active experiment elsewhere.
\<close>

lemma pin_redirected_by_alias:
  assumes "db_aliases r pinned = Some goal" and "alias_map r goal = None"
    and "after_shortcut (routing r) pinned = pinned" and "split_once CHR ''/'' goal = Some (q, n)"
  shows "resolve r pinned = (q, n)"
proof -
  have "alias_map r pinned = Some goal" using assms(1) by (simp add: alias_map_def)
  then have "chase 10 (alias_map r) pinned = goal"
    using chase_fixed [of "alias_map r" goal 9] assms(2) by (simp add: eval_nat_numeral)
  then show ?thesis using assms(3,4) by (simp add: resolve_def resolve_inner_spec resolution_spec_def)
qed

text \<open>The lists of a rule are compared with the name the caller sent: a provider prefix slips past a denial.\<close>

lemma denial_is_by_name:
  assumes "parsed_list parse (model_allow r) = []" and "parsed_list parse (model_deny r) = [m]" and "CHR ''/'' \<notin> set m"
  shows "check_model_lists_denial parse r m \<noteq> None"
    and "check_model_lists_denial parse r (p @ ''/'' @ m) = None"
    and "alias_map rt (p @ ''/'' @ m) = None \<Longrightarrow> CHR ''/'' \<notin> set p \<Longrightarrow>
      after_shortcut (routing rt) (p @ ''/'' @ m) = p @ ''/'' @ m \<Longrightarrow> resolve rt (p @ ''/'' @ m) = (p, m)"
proof -
  show "check_model_lists_denial parse r m \<noteq> None" "check_model_lists_denial parse r (p @ ''/'' @ m) = None"
    using assms by (auto simp: check_model_lists_denial_def Let_def)
  assume a: "alias_map rt (p @ ''/'' @ m) = None" "CHR ''/'' \<notin> set p"
    "after_shortcut (routing rt) (p @ ''/'' @ m) = p @ ''/'' @ m"
  have "split_once CHR ''/'' (p @ CHR ''/'' # m) = Some (p, m)" using a(2) by (simp add: split_once_Some)
  with a show "resolve rt (p @ ''/'' @ m) = (p, m)"
    by (simp add: resolve_def resolve_inner_spec resolution_spec_def chase_fixed)
qed

section \<open>Client errors and the breaker\<close>

text \<open>
  The status of a rejected request is looked for after \<open>500\<close>, \<open>502\<close> and \<open>503\<close> anywhere in the text: a 400
  that quotes such digits of the request is retried as a server error and counts against the provider.
\<close>

definition echoed_limit_error :: string where
  "echoed_limit_error = ''Anthropic returned 400 Bad Request: max_tokens 5000 exceeds 4096''"

lemma quoted_digits_count_as_outage:
  "classify echoed_limit_error = ServerError 500"
  "counts_toward_circuit_breaker (classify echoed_limit_error)"
  by code_simp+

end
