(* ===== verification/Anthropic_Request.thy ===== *)
theory Anthropic_Request
  imports Chat_Request Chat_Replay
begin

text \<open>
  The Anthropic adapter (\<open>src/src/providers/anthropic.rs\<close>), without its stream: OpenAI-shaped messages,
  images, tools and reasoning controls to the Messages dialect, and a Messages answer back. The JSON parser
  and printer and the HTTP client are parameters.
\<close>

section \<open>Content blocks\<close>

text \<open>\<open>v["type"] == t\<close>.\<close>

definition has_type :: "string \<Rightarrow> json \<Rightarrow> bool" where
  "has_type t v \<longleftrightarrow> jget v ''type'' = JStr t"

text \<open>\<open>v["content"] = x\<close>, only reached where \<open>v["content"]\<close> is an array and so \<open>v\<close> an object.\<close>

definition with_content :: "json \<Rightarrow> json \<Rightarrow> json" where
  "with_content v x = (case v of JObj m \<Rightarrow> JObj (bt_insert ''content'' x m) | _ \<Rightarrow> v)"

definition image_block :: "json \<Rightarrow> json" where
  "image_block source = jobj [(''type'', JStr ''image''), (''source'', source)]"

definition image_source :: "string \<Rightarrow> json option" where
  "image_source url =
     (case strip_prefix ''data:'' url of
        None \<Rightarrow> Some (jobj [(''type'', JStr ''url''), (''url'', JStr url)])
      | Some rest \<Rightarrow>
          Option.bind (split_once CHR '','' rest) (\<lambda>(meta, dat).
          map_option
            (\<lambda>media. jobj [(''type'', JStr ''base64''), (''media_type'', JStr media), (''data'', JStr dat)])
            (strip_suffix '';base64'' meta)))"

definition translate_image_part :: "json \<Rightarrow> json" where
  "translate_image_part part =
     (case (case as_str (jget (jget part ''image_url'') ''url'') of
              Some u \<Rightarrow> Some u | None \<Rightarrow> as_str (jget part ''image_url'')) of
        None \<Rightarrow> part
      | Some url \<Rightarrow> (case image_source url of Some src \<Rightarrow> image_block src | None \<Rightarrow> part))"

lemma size_map_of: "map_of m k = Some x \<Longrightarrow> size x < size (JObj m)"
proof (induction m)
  case (Cons p m)
  then show ?case by (cases p) (auto split: if_splits)
qed simp

lemma size_jget_array: "jget v k = JArr xs \<Longrightarrow> x \<in> set xs \<Longrightarrow> size x < size v"
proof -
  assume v: "jget v k = JArr xs" and x: "x \<in> set xs"
  from v obtain m where m: "v = JObj m" "map_of m k = Some (JArr xs)"
    by (cases v) (auto simp: jget_def jget_opt_def split: option.splits)
  have "size x < size (JArr xs)" using x by (induction xs) auto
  then show ?thesis using size_map_of [OF m(2)] m(1) by simp
qed

function translate_content_block :: "json \<Rightarrow> json" where
  "translate_content_block part =
     (if has_type ''image_url'' part \<or> has_type ''input_image'' part then translate_image_part part
      else if has_type ''input_text'' part
      then (case jget part ''text'' of
              JStr t \<Rightarrow> jobj [(''type'', JStr ''text''), (''text'', JStr t)] | _ \<Rightarrow> part)
      else if has_type ''tool_result'' part
      then (case jget part ''content'' of
              JArr xs \<Rightarrow> with_content part (JArr (map translate_content_block xs)) | _ \<Rightarrow> part)
      else part)"
  by pat_completeness auto
termination
  by (relation "measure size") (auto dest: size_jget_array)

declare translate_content_block.simps [simp del]

definition translate_content_blocks :: "json list \<Rightarrow> json list" where
  "translate_content_blocks parts = map translate_content_block parts"

definition with_translated :: "json \<Rightarrow> json list \<Rightarrow> json" where
  "with_translated m parts = with_content m (JArr (translate_content_blocks parts))"

text \<open>The passthrough of \<open>/v1/messages\<close>.\<close>

definition translate_native_messages :: "json list \<Rightarrow> json list" where
  "translate_native_messages ms =
     map (\<lambda>m. case jget m ''content'' of JArr xs \<Rightarrow> with_translated m xs | _ \<Rightarrow> m) ms"

function url_in_blocks :: "json list \<Rightarrow> string option" where
  "url_in_blocks blocks =
     find_map (\<lambda>b.
       if has_type ''image'' b \<and> has_type ''url'' (jget b ''source'')
       then Some (str_or [] (jget (jget b ''source'') ''url''))
       else case jget b ''content'' of JArr nested \<Rightarrow> url_in_blocks nested | _ \<Rightarrow> None) blocks"
  by pat_completeness auto
termination
proof (relation "measure (size_list size)")
  fix blocks b nested
  assume b: "b \<in> set blocks" and n: "jget b ''content'' = JArr nested"
  from n obtain m where m: "b = JObj m" "map_of m ''content'' = Some (JArr nested)"
    by (cases b) (auto simp: jget_def jget_opt_def split: option.splits)
  have "size_list size nested < size b" using size_map_of [OF m(2)] m(1) by simp
  also have "size b \<le> size_list size blocks" using b by (induction blocks) auto
  finally show "(nested, blocks) \<in> measure (size_list size)" by simp
qed simp

declare url_in_blocks.simps [simp del]

definition find_url_image_source :: "json list \<Rightarrow> string option" where
  "find_url_image_source ms =
     find_map (\<lambda>m. case jget m ''content'' of JArr blocks \<Rightarrow> url_in_blocks blocks | _ \<Rightarrow> None) ms"

section \<open>Messages\<close>

definition has_role :: "string \<Rightarrow> json \<Rightarrow> bool" where
  "has_role r m \<longleftrightarrow> as_str (jget m ''role'') = Some r"

definition system_part :: "json \<Rightarrow> string option" where
  "system_part m =
     (if \<not> has_role ''system'' m then None
      else case jget m ''content'' of
             JStr s \<Rightarrow> Some s
           | JArr arr \<Rightarrow>
               (let t = join_lines (List.map_filter (\<lambda>b. as_str (jget b ''text''))
                          (filter (\<lambda>b. has_type ''text'' b \<or> has_type ''input_text'' b) arr))
                in if t \<noteq> [] then Some t else None)
           | _ \<Rightarrow> None)"

definition system_text :: "json list \<Rightarrow> string option" where
  "system_text ms =
     (case List.map_filter system_part ms of [] \<Rightarrow> None | parts \<Rightarrow> Some (join_lines parts))"

text \<open>A user or assistant turn that is passed on.\<close>

definition plain_turn :: "json \<Rightarrow> json option" where
  "plain_turn m =
     (case jget m ''content'' of
        JStr s \<Rightarrow> Some m
      | JArr arr \<Rightarrow> Some (with_translated m arr)
      | _ \<Rightarrow> None)"

definition tool_use :: "(string \<Rightarrow> json option) \<Rightarrow> json \<Rightarrow> json" where
  "tool_use parse call =
     (let f = jget call ''function'';
          input = (case Option.bind (as_str (jget f ''arguments'')) parse of
                     Some (JObj m) \<Rightarrow> JObj m | _ \<Rightarrow> jobj [])
      in jobj [(''type'', JStr ''tool_use''), (''id'', jget call ''id''), (''name'', jget f ''name''), (''input'', input)])"

definition text_block :: "string \<Rightarrow> json" where
  "text_block t = jobj [(''type'', JStr ''text''), (''text'', JStr t)]"

definition assistant_blocks :: "json \<Rightarrow> json list" where
  "assistant_blocks c =
     (case c of
        JStr t \<Rightarrow> if t \<noteq> [] then [text_block t] else []
      | JArr arr \<Rightarrow> translate_content_blocks arr
      | _ \<Rightarrow> [])"

definition turn :: "string \<Rightarrow> json list \<Rightarrow> json" where
  "turn role blocks = jobj [(''role'', JStr role), (''content'', JArr blocks)]"

definition assistant_turn :: "(string \<Rightarrow> json option) \<Rightarrow> json \<Rightarrow> json option" where
  "assistant_turn parse m =
     (case array_items (jget m ''tool_calls'') of
        [] \<Rightarrow> plain_turn m
      | calls \<Rightarrow> Some (turn ''assistant'' (assistant_blocks (jget m ''content'') @ map (tool_use parse) calls)))"

definition tool_result :: "(json \<Rightarrow> string) \<Rightarrow> json \<Rightarrow> json" where
  "tool_result pr m =
     jobj [(''type'', JStr ''tool_result''), (''tool_use_id'', jget m ''tool_call_id''),
           (''content'', case jget m ''content'' of
                           JStr s \<Rightarrow> JStr s
                         | JArr arr \<Rightarrow> JArr (translate_content_blocks arr)
                         | JNull \<Rightarrow> JStr []
                         | v \<Rightarrow> JStr (pr v))]"

text \<open>A user turn that holds tool results only; the empty array counts.\<close>

definition results_only :: "json \<Rightarrow> bool" where
  "results_only prev \<longleftrightarrow>
     jget prev ''role'' = JStr ''user''
     \<and> (case jget prev ''content'' of JArr arr \<Rightarrow> list_all (has_type ''tool_result'') arr | _ \<Rightarrow> False)"

definition push_tool_result :: "json \<Rightarrow> json list \<Rightarrow> json list" where
  "push_tool_result block translated =
     (if translated \<noteq> [] \<and> results_only (last translated)
      then butlast translated
             @ [with_content (last translated) (JArr (array_items (jget (last translated) ''content'') @ [block]))]
      else translated @ [turn ''user'' [block]])"

definition push_turn :: "json option \<Rightarrow> json list \<Rightarrow> json list" where
  "push_turn t translated = (case t of Some m \<Rightarrow> translated @ [m] | None \<Rightarrow> translated)"

definition translate_message ::
  "(string \<Rightarrow> json option) \<Rightarrow> (json \<Rightarrow> string) \<Rightarrow> json \<Rightarrow> json list \<Rightarrow> json list" where
  "translate_message parse pr m translated =
     (if has_role ''user'' m then push_turn (plain_turn m) translated
      else if has_role ''assistant'' m then push_turn (assistant_turn parse m) translated
      else if has_role ''tool'' m then push_tool_result (tool_result pr m) translated
      else translated)"

definition translate_messages ::
  "(string \<Rightarrow> json option) \<Rightarrow> (json \<Rightarrow> string) \<Rightarrow> json list \<Rightarrow> string option \<times> json list" where
  "translate_messages parse pr ms = (system_text ms, fold (translate_message parse pr) ms [])"

section \<open>Tools and the answer's content\<close>

definition translate_tool :: "json \<Rightarrow> json option" where
  "translate_tool t =
     (let f = (if is_object (jget t ''function'') then jget t ''function'' else t)
      in map_option
           (\<lambda>name. jobj ([(''name'', JStr name),
                          (''input_schema'',
                             if is_object (jget f ''parameters'') then jget f ''parameters''
                             else jobj [(''type'', JStr ''object''), (''properties'', jobj [])])]
                         @ (case as_str (jget f ''description'') of Some d \<Rightarrow> [(''description'', JStr d)] | None \<Rightarrow> [])))
           (as_str (jget f ''name'')))"

definition translate_tools :: "json list \<Rightarrow> json list" where
  "translate_tools tools = List.map_filter translate_tool tools"

definition translate_tool_choice :: "json \<Rightarrow> json option" where
  "translate_tool_choice tc =
     (case tc of
        JStr s \<Rightarrow>
          if s = ''auto'' then Some (jobj [(''type'', JStr ''auto'')])
          else if s = ''required'' then Some (jobj [(''type'', JStr ''any'')])
          else if s = ''none'' then Some (jobj [(''type'', JStr ''none'')])
          else None
      | _ \<Rightarrow>
          map_option (\<lambda>name. jobj [(''type'', JStr ''tool''), (''name'', JStr name)])
            (as_str (jget (jget tc ''function'') ''name'')))"

definition text_from_content :: "json \<Rightarrow> string" where
  "text_from_content c =
     concat (List.map_filter (\<lambda>b. as_str (jget b ''text'')) (filter (has_type ''text'') (array_items c)))"

definition openai_call :: "(json \<Rightarrow> string) \<Rightarrow> json \<Rightarrow> json" where
  "openai_call pr b =
     jobj [(''id'', jget b ''id''), (''type'', JStr ''function''),
           (''function'', jobj [(''name'', jget b ''name''), (''arguments'', JStr (pr (jget b ''input'')))])]"

definition tool_calls_from_content :: "(json \<Rightarrow> string) \<Rightarrow> json \<Rightarrow> json option" where
  "tool_calls_from_content pr c =
     (case map (openai_call pr) (filter (has_type ''tool_use'') (array_items c)) of
        [] \<Rightarrow> None | calls \<Rightarrow> Some (JArr calls))"

definition map_stop_reason :: "string \<Rightarrow> string" where
  "map_stop_reason r = (if r = ''tool_use'' then ''tool_calls'' else r)"

end
