(* ===== verification/Http_Client.thy ===== *)
theory Http_Client
  imports Chat_Request
begin

text \<open>
  What the provider adapters share: the HTTP client as a parameter that acts on a world \<open>'w\<close>, the check of
  the status, the decoding of fixed-width fields, and the timeout by tier (\<open>src/src/config/schema.rs\<close>).
\<close>

section \<open>The client\<close>

record http_call =
  hc_url :: string
  hc_headers :: "(string \<times> string) list"
  hc_timeout_secs :: nat
  hc_body :: json

text \<open>
  A reply whose headers are in: the status and how it is displayed, the milliseconds it took, the whole body
  (\<open>None\<close>: reading it failed), the body as the network delivers it, and what the client says when a body is
  not the JSON asked for.
\<close>

record http_reply =
  hr_status :: nat
  hr_shown :: string
  hr_elapsed_ms :: int
  hr_text :: "string option"
  hr_chunks :: "(string + string) list"
  hr_decode_error :: string

type_synonym 'w http_send = "http_call \<Rightarrow> 'w \<Rightarrow> (string + http_reply) \<times> 'w"

definition is_success :: "http_reply \<Rightarrow> bool" where
  "is_success r \<longleftrightarrow> 200 \<le> hr_status r \<and> hr_status r < 300"

text \<open>Sending, and the error a reply without success becomes.\<close>

definition send_checked ::
  "'w http_send \<Rightarrow> string \<Rightarrow> string \<Rightarrow> http_call \<Rightarrow> 'w \<Rightarrow> (anyhow + http_reply) \<times> 'w" where
  "send_checked http sending who call w =
     (case http call w of
        (Inl e, w) \<Rightarrow> (Inl (with_context sending (error_msg e)), w)
      | (Inr r, w) \<Rightarrow>
          (if is_success r then Inr r
           else Inl (error_msg (who @ '' returned '' @ hr_shown r @ '': ''
                     @ (case hr_text r of Some t \<Rightarrow> t | None \<Rightarrow> []))), w))"

text \<open>\<open>resp.json().await.context(..)\<close>.\<close>

definition decode_body ::
  "(string \<Rightarrow> json option) \<Rightarrow> (json \<Rightarrow> 'a option) \<Rightarrow> string \<Rightarrow> http_reply \<Rightarrow> anyhow + 'a" where
  "decode_body parse decode failing r =
     (case Option.bind (Option.bind (hr_text r) parse) decode of
        Some x \<Rightarrow> Inr x
      | None \<Rightarrow> Inl (with_context failing (error_msg (hr_decode_error r))))"

definition body_chunks :: "http_reply \<Rightarrow> (anyhow + string) list" where
  "body_chunks r =
     map (\<lambda>c. case c of Inl e \<Rightarrow> Inl (error_msg (''Stream error: '' @ e)) | Inr b \<Rightarrow> Inr b) (hr_chunks r)"

section \<open>Decoding structs\<close>

text \<open>
  A \<open>u32\<close> field, one with a default, an \<open>Option\<close> field; the outer \<open>None\<close> is a decode error. An array in
  the place of a struct, which \<open>serde\<close> would read field by field, is an error here; a field that is given twice,
  which \<open>serde\<close> refuses, counts as its last value.
\<close>

definition u32_of :: "json \<Rightarrow> nat option" where
  "u32_of v = (case as_u64 v of Some n \<Rightarrow> if n < 2 ^ 32 then Some n else None | None \<Rightarrow> None)"

definition u32_or_0 :: "json option \<Rightarrow> nat option" where
  "u32_or_0 v = (case v of None \<Rightarrow> Some 0 | Some x \<Rightarrow> u32_of x)"

definition opt_u32 :: "json option \<Rightarrow> nat option option" where
  "opt_u32 v = (case v of None \<Rightarrow> Some None | Some JNull \<Rightarrow> Some None | Some x \<Rightarrow> map_option Some (u32_of x))"

definition opt_string :: "json option \<Rightarrow> string option option" where
  "opt_string v =
     (case v of None \<Rightarrow> Some None | Some JNull \<Rightarrow> Some None | Some x \<Rightarrow> map_option Some (as_str x))"

lemma u32_of_bound: "u32_of v = Some n \<Longrightarrow> n < 2 ^ 32"
  by (auto simp: u32_of_def split: option.splits if_splits)

lemma u32_or_0_bound: "u32_or_0 v = Some n \<Longrightarrow> n < 2 ^ 32"
  by (auto simp: u32_or_0_def dest: u32_of_bound split: option.splits)

section \<open>Timeouts by tier\<close>

record tier_timeouts =
  tt_fast :: nat
  tt_balanced :: nat
  tt_deep :: nat

definition resolve_timeout :: "tier_timeouts \<Rightarrow> string \<Rightarrow> nat \<Rightarrow> nat" where
  "resolve_timeout t request_model default_secs =
     (if request_model = ''fast'' then tt_fast t
      else if request_model = ''balanced'' then tt_balanced t
      else if request_model = ''deep'' then tt_deep t
      else default_secs)"

record provider_settings =
  pv_api_key :: string
  pv_api_base :: "string option"
  pv_timeout_secs :: nat

text \<open>An adapter for a wire dialect, as \<open>new\<close> builds it.\<close>

record dialect_adapter =
  da_api_key :: string
  da_api_base :: string
  da_default_timeout_secs :: nat
  da_tier_timeouts :: tier_timeouts

definition new_adapter :: "string \<Rightarrow> provider_settings \<Rightarrow> tier_timeouts \<Rightarrow> dialect_adapter" where
  "new_adapter base cfg tiers =
     \<lparr>da_api_key = pv_api_key cfg, da_api_base = (case pv_api_base cfg of Some b \<Rightarrow> b | None \<Rightarrow> base),
      da_default_timeout_secs = pv_timeout_secs cfg, da_tier_timeouts = tiers\<rparr>"

definition call_timeout :: "dialect_adapter \<Rightarrow> normalized_request \<Rightarrow> nat" where
  "call_timeout a req = resolve_timeout (da_tier_timeouts a) (nr_request_model req) (da_default_timeout_secs a)"

end
