(* ===== verification/Anthropic_Adapter.thy ===== *)
theory Anthropic_Adapter
  imports Anthropic_Request Http_Client
begin

text \<open>
  The Anthropic adapter as the router calls it (\<open>src/src/providers/anthropic.rs\<close>): the request body, the
  answer of a plain call, and the translation of a stream line by line into OpenAI chunks.
\<close>

section \<open>The request\<close>

definition default_max_tokens :: nat where
  "default_max_tokens = 4096"

definition anthropic_api_url :: string where
  "anthropic_api_url = ''https://api.anthropic.com/v1/messages''"

definition anthropic_version :: string where
  "anthropic_version = ''2023-06-01''"

definition new_anthropic :: "provider_settings \<Rightarrow> tier_timeouts \<Rightarrow> dialect_adapter" where
  "new_anthropic = new_adapter ''https://api.anthropic.com/v1''"

text \<open>\<open>body[key] = x\<close> on the body, which is an object throughout.\<close>

definition put :: "string \<Rightarrow> json \<Rightarrow> json \<Rightarrow> json" where
  "put k x v = (case v of JObj m \<Rightarrow> JObj (bt_insert k x m) | _ \<Rightarrow> v)"

definition put_some :: "string \<Rightarrow> ('a \<Rightarrow> json) \<Rightarrow> 'a option \<Rightarrow> json \<Rightarrow> json" where
  "put_some k f x v = (case x of Some y \<Rightarrow> put k (f y) v | None \<Rightarrow> v)"

definition apply_tools :: "normalized_request \<Rightarrow> json \<Rightarrow> json" where
  "apply_tools req body =
     (case nr_tools req of
        None \<Rightarrow> body
      | Some tools \<Rightarrow>
          put_some ''tool_choice'' id (Option.bind (nr_tool_choice req) translate_tool_choice)
            (put ''tools'' (JArr (translate_tools tools)) body))"

definition apply_reasoning :: "normalized_request \<Rightarrow> json \<Rightarrow> json" where
  "apply_reasoning req body =
     (case nr_reasoning req of
        None \<Rightarrow> body
      | Some r \<Rightarrow>
          put_some ''output_config'' (\<lambda>e. jobj [(''effort'', JStr e)]) (effort r)
            (if disable_thinking r then put ''thinking'' (jobj [(''type'', JStr ''disabled'')]) body else body))"

definition anthropic_max_tokens :: "normalized_request \<Rightarrow> nat" where
  "anthropic_max_tokens req = (case nr_max_tokens req of Some n \<Rightarrow> n | None \<Rightarrow> default_max_tokens)"

definition build_body ::
  "(string \<Rightarrow> json option) \<Rightarrow> (json \<Rightarrow> string) \<Rightarrow> normalized_request \<Rightarrow> bool \<Rightarrow> json" where
  "build_body parse pr req stream =
     (let (system, ms) = translate_messages parse pr (nr_messages req);
          body = jobj [(''model'', JStr (nr_model req)), (''messages'', JArr ms), (''stream'', JBool stream),
                       (''max_tokens'', jnat (anthropic_max_tokens req))];
          body = put_some ''system'' JStr system body;
          body = put_some ''temperature'' jrat (nr_temperature req) body
      in apply_reasoning req (apply_tools req body))"

section \<open>A plain call\<close>

record anthropic_usage =
  au_input_tokens :: nat
  au_output_tokens :: nat
  au_cache_creation :: nat
  au_cache_read :: nat
  au_output_details :: json

record anthropic_response =
  ar_content :: json
  ar_usage :: anthropic_usage
  ar_stop_reason :: "string option"

definition decode_anthropic_usage :: "json \<Rightarrow> anthropic_usage option" where
  "decode_anthropic_usage u =
     (if \<not> is_object u then None
      else Option.bind (u32_of (jget u ''input_tokens'')) (\<lambda>i.
           Option.bind (u32_of (jget u ''output_tokens'')) (\<lambda>out.
           Option.bind (u32_or_0 (jget_opt u ''cache_creation_input_tokens'')) (\<lambda>cw.
           Option.bind (u32_or_0 (jget_opt u ''cache_read_input_tokens'')) (\<lambda>cr.
             Some \<lparr>au_input_tokens = i, au_output_tokens = out, au_cache_creation = cw, au_cache_read = cr,
                   au_output_details = jget u ''output_tokens_details''\<rparr>)))))"

definition decode_anthropic :: "json \<Rightarrow> anthropic_response option" where
  "decode_anthropic v =
     Option.bind (jget_opt v ''content'') (\<lambda>c.
     Option.bind (decode_anthropic_usage (jget v ''usage'')) (\<lambda>u.
     Option.bind (opt_string (jget_opt v ''stop_reason'')) (\<lambda>s.
       Some \<lparr>ar_content = c, ar_usage = u, ar_stop_reason = s\<rparr>)))"

definition anthropic_call ::
  "(string \<Rightarrow> json option) \<Rightarrow> (json \<Rightarrow> string) \<Rightarrow> dialect_adapter \<Rightarrow> bool \<Rightarrow> normalized_request \<Rightarrow> http_call" where
  "anthropic_call parse pr a stream req =
     \<lparr>hc_url = anthropic_api_url,
      hc_headers = [(''x-api-key'', da_api_key a), (''anthropic-version'', anthropic_version),
                    (''Content-Type'', ''application/json'')],
      hc_timeout_secs = call_timeout a req, hc_body = build_body parse pr req stream\<rparr>"

definition anthropic_result :: "(json \<Rightarrow> string) \<Rightarrow> int \<Rightarrow> anthropic_response \<Rightarrow> completion_result" where
  "anthropic_result pr elapsed p =
     (let u = ar_usage p
      in \<lparr>content = text_from_content (ar_content p), prompt_tokens = au_input_tokens u,
          completion_tokens = au_output_tokens u,
          finish_reason = map_stop_reason (case ar_stop_reason p of Some r \<Rightarrow> r | None \<Rightarrow> ''end_turn''),
          cache_read_tokens = au_cache_read u, cache_write_tokens = au_cache_creation u,
          reasoning_tokens = map_option as_u32 (as_u64 (jget (au_output_details u) ''thinking_tokens'')),
          ttft_ms = Some elapsed, tool_calls = tool_calls_from_content pr (ar_content p)\<rparr>)"

definition anthropic_complete ::
  "'w http_send \<Rightarrow> (string \<Rightarrow> json option) \<Rightarrow> (json \<Rightarrow> string) \<Rightarrow> dialect_adapter
     \<Rightarrow> normalized_request \<Rightarrow> 'w \<Rightarrow> (anyhow + completion_result) \<times> 'w" where
  "anthropic_complete http parse pr a req w =
     (case send_checked http ''Failed to send request to Anthropic'' ''Anthropic'' (anthropic_call parse pr a False req) w of
        (Inl e, w) \<Rightarrow> (Inl e, w)
      | (Inr r, w) \<Rightarrow>
          (case decode_body parse decode_anthropic ''Failed to parse Anthropic response'' r of
             Inl e \<Rightarrow> Inl e
           | Inr p \<Rightarrow> Inr (anthropic_result pr (hr_elapsed_ms r) p), w))"

definition anthropic_effective_settings :: "dialect_adapter \<Rightarrow> normalized_request \<Rightarrow> effective_settings" where
  "anthropic_effective_settings a req =
     \<lparr>es_temperature = nr_temperature req, es_max_tokens = Some (anthropic_max_tokens req),
      es_timeout_secs = Some (call_timeout a req), es_reasoning = nr_reasoning req\<rparr>"

section \<open>The stream\<close>

record sse_translator =
  at_input_tokens :: nat
  at_cache_read :: nat
  at_output_tokens :: nat
  at_thinking_tokens :: "nat option"
  at_saw_usage :: bool
  at_tool_indices :: "nat \<Rightarrow> nat option"
  at_next_tool_index :: nat

definition new_translator :: sse_translator where
  "new_translator =
     \<lparr>at_input_tokens = 0, at_cache_read = 0, at_output_tokens = 0, at_thinking_tokens = None,
      at_saw_usage = False, at_tool_indices = Map.empty, at_next_tool_index = 0\<rparr>"

definition thinking_tokens_from_usage :: "json \<Rightarrow> nat option" where
  "thinking_tokens_from_usage usage =
     map_option as_u32 (as_u64 (jget (jget usage ''output_tokens_details'') ''thinking_tokens''))"

definition u32_or :: "nat \<Rightarrow> json \<Rightarrow> nat" where
  "u32_or d v = (case as_u64 v of Some n \<Rightarrow> as_u32 n | None \<Rightarrow> d)"

definition absorb_usage :: "json \<Rightarrow> sse_translator \<Rightarrow> sse_translator" where
  "absorb_usage usage t =
     (if \<not> is_object usage then t
      else t\<lparr>at_saw_usage := True,
             at_input_tokens := u32_or (at_input_tokens t) (jget usage ''input_tokens''),
             at_cache_read := u32_or (at_cache_read t) (jget usage ''cache_read_input_tokens''),
             at_output_tokens := u32_or (at_output_tokens t) (jget usage ''output_tokens''),
             at_thinking_tokens := (case thinking_tokens_from_usage usage of
                                      Some n \<Rightarrow> Some n | None \<Rightarrow> at_thinking_tokens t)\<rparr>)"

definition stream_chunk :: "json \<Rightarrow> json \<Rightarrow> json" where
  "stream_chunk delta fin =
     jobj [(''id'', JStr ''chatcmpl-stream''), (''object'', JStr ''chat.completion.chunk''),
           (''choices'', JArr [jobj [(''index'', jnat 0), (''delta'', delta), (''finish_reason'', fin)]])]"

definition tool_delta :: "(string \<times> json) list \<Rightarrow> json" where
  "tool_delta kvs = jobj [(''tool_calls'', JArr [jobj kvs])]"

definition block_started :: "json \<Rightarrow> sse_translator \<Rightarrow> json option \<times> sse_translator" where
  "block_started v t =
     (let block = jget v ''content_block''
      in if \<not> has_type ''tool_use'' block then (None, t)
         else (Some (stream_chunk
                 (tool_delta [(''index'', jnat (at_next_tool_index t)), (''id'', jget block ''id''),
                              (''type'', JStr ''function''),
                              (''function'', jobj [(''name'', jget block ''name''), (''arguments'', JStr [])])])
                 JNull),
               t\<lparr>at_next_tool_index := at_next_tool_index t + 1,
                 at_tool_indices := (at_tool_indices t)(u64_or_0 (jget v ''index'') \<mapsto> at_next_tool_index t)\<rparr>))"

definition block_delta :: "json \<Rightarrow> sse_translator \<Rightarrow> json option" where
  "block_delta v t =
     (let delta = jget v ''delta''
      in if has_type ''text_delta'' delta
         then map_option (\<lambda>s. stream_chunk (jobj [(''content'', JStr s)]) JNull) (as_str (jget delta ''text''))
         else if has_type ''input_json_delta'' delta
         then Option.bind (at_tool_indices t (u64_or_0 (jget v ''index''))) (\<lambda>i.
                map_option
                  (\<lambda>s. stream_chunk
                         (tool_delta [(''index'', jnat i), (''function'', jobj [(''arguments'', JStr s)])]) JNull)
                  (as_str (jget delta ''partial_json'')))
         else None)"

text \<open>The figures are \<open>u32\<close>s and their sums wrap.\<close>

definition final_usage :: "sse_translator \<Rightarrow> json" where
  "final_usage t =
     (let prompt = as_u32 (at_input_tokens t + at_cache_read t)
      in put_some ''completion_tokens_details'' (\<lambda>n. jobj [(''reasoning_tokens'', jnat n)]) (at_thinking_tokens t)
           (jobj [(''prompt_tokens'', jnat prompt), (''completion_tokens'', jnat (at_output_tokens t)),
                  (''total_tokens'', jnat (as_u32 (prompt + at_output_tokens t))),
                  (''prompt_tokens_details'', jobj [(''cached_tokens'', jnat (at_cache_read t))])]))"

definition final_chunk :: "json \<Rightarrow> sse_translator \<Rightarrow> json" where
  "final_chunk v t =
     (let fin = (if as_str (jget (jget v ''delta'') ''stop_reason'') = Some ''tool_use'' then ''tool_calls'' else ''stop'');
          chunk = stream_chunk (jobj []) (JStr fin)
      in if at_saw_usage t then put ''usage'' (final_usage t) chunk else chunk)"

text \<open>A chunk for the client, or the last one, which \<open>[DONE]\<close> follows.\<close>

datatype emitted = Chunk json | Final json

definition translate_event :: "json \<Rightarrow> sse_translator \<Rightarrow> emitted option \<times> sse_translator" where
  "translate_event v t =
     (case as_str (jget v ''type'') of
        None \<Rightarrow> (None, t)
      | Some k \<Rightarrow>
          if k = ''message_start'' then (None, absorb_usage (jget (jget v ''message'') ''usage'') t)
          else if k = ''content_block_start'' then apfst (map_option Chunk) (block_started v t)
          else if k = ''content_block_delta'' then (map_option Chunk (block_delta v t), t)
          else if k = ''message_delta''
          then (let t = absorb_usage (jget v ''usage'') t in (Some (Final (final_chunk v t)), t))
          else (None, t))"

definition emitted_text :: "(json \<Rightarrow> string) \<Rightarrow> emitted \<Rightarrow> string" where
  "emitted_text pr e = (case e of Chunk v \<Rightarrow> sse_event pr v | Final v \<Rightarrow> sse_event pr v @ done_event)"

definition translate_line ::
  "(string \<Rightarrow> json option) \<Rightarrow> (json \<Rightarrow> string) \<Rightarrow> string \<Rightarrow> sse_translator \<Rightarrow> string option \<times> sse_translator" where
  "translate_line parse pr line t =
     (case Option.bind (strip_prefix ''data: '' line) parse of
        None \<Rightarrow> (None, t)
      | Some v \<Rightarrow> apfst (map_option (emitted_text pr)) (translate_event v t))"

fun translate_lines ::
  "(string \<Rightarrow> json option) \<Rightarrow> (json \<Rightarrow> string) \<Rightarrow> string list \<Rightarrow> sse_translator \<Rightarrow> string \<times> sse_translator" where
  "translate_lines parse pr [] t = ([], t)"
| "translate_lines parse pr (l # ls) t =
     (let (x, t) = translate_line parse pr l t; (out, t) = translate_lines parse pr ls t
      in ((case x of Some s \<Rightarrow> s | None \<Rightarrow> []) @ out, t))"

text \<open>
  The stream of the client, item by item: an error is passed on, a chunk becomes what its completed lines
  translate to. What is emitted is text already, so decoding it again changes nothing.
\<close>

fun translate_sse_stream ::
  "(string \<Rightarrow> json option) \<Rightarrow> (json \<Rightarrow> string) \<Rightarrow> sse_translator \<Rightarrow> string
     \<Rightarrow> (anyhow + string) list \<Rightarrow> (anyhow + string) list" where
  "translate_sse_stream parse pr t pending [] = []"
| "translate_sse_stream parse pr t pending (Inl e # xs) = Inl e # translate_sse_stream parse pr t pending xs"
| "translate_sse_stream parse pr t pending (Inr c # xs) =
     (let (ls, pending) = sse_push pending c; (out, t) = translate_lines parse pr ls t
      in Inr out # translate_sse_stream parse pr t pending xs)"

definition anthropic_stream ::
  "'w http_send \<Rightarrow> (string \<Rightarrow> json option) \<Rightarrow> (json \<Rightarrow> string) \<Rightarrow> dialect_adapter
     \<Rightarrow> normalized_request \<Rightarrow> 'w \<Rightarrow> (anyhow + (anyhow + string) list) \<times> 'w" where
  "anthropic_stream http parse pr a req w =
     (case send_checked http ''Failed to send streaming request to Anthropic'' ''Anthropic''
             (anthropic_call parse pr a True req) w of
        (Inl e, w) \<Rightarrow> (Inl e, w)
      | (Inr r, w) \<Rightarrow> (Inr (translate_sse_stream parse pr new_translator [] (body_chunks r)), w))"

text \<open>The adapter, as it stands in the registry.\<close>

definition anthropic_adapter ::
  "'w http_send \<Rightarrow> (string \<Rightarrow> json option) \<Rightarrow> (json \<Rightarrow> string) \<Rightarrow> dialect_adapter \<Rightarrow> 'w adapter" where
  "anthropic_adapter http parse pr a =
     \<lparr>ad_complete = anthropic_complete http parse pr a, ad_stream = anthropic_stream http parse pr a,
      ad_supports_tools = (\<lambda>model. True), ad_effective_settings = anthropic_effective_settings a\<rparr>"

end
