(* ===== verification/Openai_Compat.thy ===== *)
theory Openai_Compat
  imports Anthropic_Adapter
begin

text \<open>
  The adapter for OpenAI-compatible providers (\<open>src/src/providers/openai_compat.rs\<close>): the body is passed on,
  a plain answer is decoded, a stream is handed through byte for byte.
\<close>

definition new_openai_compat :: "provider_settings \<Rightarrow> tier_timeouts \<Rightarrow> dialect_adapter" where
  "new_openai_compat = new_adapter ''https://api.openai.com/v1''"

section \<open>The request\<close>

text \<open>The optional fields of both bodies.\<close>

definition forward_fields :: "normalized_request \<Rightarrow> json \<Rightarrow> json" where
  "forward_fields req body =
     put_some ''tool_choice'' id (nr_tool_choice req)
       (put_some ''tools'' JArr (nr_tools req)
         (put_some ''max_tokens'' jnat (nr_max_tokens req)
           (put_some ''temperature'' jrat (nr_temperature req) body)))"

definition openai_body :: "normalized_request \<Rightarrow> bool \<Rightarrow> json" where
  "openai_body req stream =
     forward_fields req
       (jobj ([(''model'', JStr (nr_model req)), (''messages'', JArr (nr_messages req)), (''stream'', JBool stream)]
              @ (if stream then [(''stream_options'', jobj [(''include_usage'', JBool True)])] else [])))"

definition openai_call_of :: "dialect_adapter \<Rightarrow> bool \<Rightarrow> normalized_request \<Rightarrow> http_call" where
  "openai_call_of a stream req =
     \<lparr>hc_url = da_api_base a @ ''/chat/completions'',
      hc_headers = [(''Authorization'', ''Bearer '' @ da_api_key a), (''Content-Type'', ''application/json'')],
      hc_timeout_secs = call_timeout a req, hc_body = openai_body req stream\<rparr>"

section \<open>The answer\<close>

record openai_choice =
  oc_content :: "string option"
  oc_tool_calls :: "json option"
  oc_finish_reason :: "string option"

record openai_usage_of =
  ou_prompt_tokens :: nat
  ou_completion_tokens :: nat
  ou_cached_tokens :: nat
  ou_reasoning_tokens :: "nat option"

definition decode_choice :: "json \<Rightarrow> openai_choice option" where
  "decode_choice c =
     (if \<not> is_object c \<or> \<not> is_object (jget c ''message'') then None
      else let m = jget c ''message''
           in Option.bind (opt_string (jget_opt m ''content'')) (\<lambda>t.
              Option.bind (opt_string (jget_opt c ''finish_reason'')) (\<lambda>f.
                Some \<lparr>oc_content = t,
                      oc_tool_calls = (if jget m ''tool_calls'' = JNull then None else Some (jget m ''tool_calls'')),
                      oc_finish_reason = f\<rparr>)))"

text \<open>A details struct with a default: absent is empty, anything but an object is an error.\<close>

definition details_of :: "json option \<Rightarrow> json option" where
  "details_of v = (case v of None \<Rightarrow> Some (jobj []) | Some d \<Rightarrow> if is_object d then Some d else None)"

definition decode_openai_usage :: "json \<Rightarrow> openai_usage_of option" where
  "decode_openai_usage u =
     (if \<not> is_object u then None
      else Option.bind (u32_of (jget u ''prompt_tokens'')) (\<lambda>p.
           Option.bind (u32_of (jget u ''completion_tokens'')) (\<lambda>q.
           Option.bind (details_of (jget_opt u ''prompt_tokens_details'')) (\<lambda>pd.
           Option.bind (u32_or_0 (jget_opt pd ''cached_tokens'')) (\<lambda>cached.
           Option.bind (details_of (jget_opt u ''completion_tokens_details'')) (\<lambda>cd.
           Option.bind (opt_u32 (jget_opt cd ''reasoning_tokens'')) (\<lambda>thought.
             Some \<lparr>ou_prompt_tokens = p, ou_completion_tokens = q, ou_cached_tokens = cached,
                   ou_reasoning_tokens = thought\<rparr>)))))))"

definition decode_openai :: "json \<Rightarrow> (openai_choice list \<times> openai_usage_of) option" where
  "decode_openai v =
     Option.bind (as_array (jget v ''choices'')) (\<lambda>cs.
     Option.bind (those (map decode_choice cs)) (\<lambda>choices.
     map_option (Pair choices) (decode_openai_usage (jget v ''usage''))))"

definition openai_result :: "int \<Rightarrow> openai_choice \<Rightarrow> openai_usage_of \<Rightarrow> completion_result" where
  "openai_result elapsed c u =
     \<lparr>content = (case oc_content c of Some t \<Rightarrow> t | None \<Rightarrow> []), prompt_tokens = ou_prompt_tokens u,
      completion_tokens = ou_completion_tokens u,
      finish_reason = (case oc_finish_reason c of Some r \<Rightarrow> r | None \<Rightarrow> ''stop''),
      cache_read_tokens = ou_cached_tokens u, cache_write_tokens = 0,
      reasoning_tokens = ou_reasoning_tokens u, ttft_ms = Some elapsed, tool_calls = oc_tool_calls c\<rparr>"

definition openai_complete ::
  "'w http_send \<Rightarrow> (string \<Rightarrow> json option) \<Rightarrow> dialect_adapter \<Rightarrow> normalized_request \<Rightarrow> 'w
     \<Rightarrow> (anyhow + completion_result) \<times> 'w" where
  "openai_complete http parse a req w =
     (case send_checked http ''Failed to send request to OpenAI-compat provider'' ''Provider'' (openai_call_of a False req) w of
        (Inl e, w) \<Rightarrow> (Inl e, w)
      | (Inr r, w) \<Rightarrow>
          (case decode_body parse decode_openai ''Failed to parse OpenAI response'' r of
             Inl e \<Rightarrow> Inl e
           | Inr ([], u) \<Rightarrow> Inl (error_msg ''No choices in response'')
           | Inr (c # cs, u) \<Rightarrow> Inr (openai_result (hr_elapsed_ms r) c u), w))"

definition openai_stream ::
  "'w http_send \<Rightarrow> dialect_adapter \<Rightarrow> normalized_request \<Rightarrow> 'w \<Rightarrow> (anyhow + (anyhow + string) list) \<times> 'w" where
  "openai_stream http a req w =
     apfst (map_sum id body_chunks)
       (send_checked http ''Failed to send streaming request to OpenAI-compat provider'' ''Provider''
          (openai_call_of a True req) w)"

definition openai_effective_settings :: "dialect_adapter \<Rightarrow> normalized_request \<Rightarrow> effective_settings" where
  "openai_effective_settings a req =
     \<lparr>es_temperature = nr_temperature req, es_max_tokens = nr_max_tokens req,
      es_timeout_secs = Some (call_timeout a req), es_reasoning = None\<rparr>"

definition openai_adapter ::
  "'w http_send \<Rightarrow> (string \<Rightarrow> json option) \<Rightarrow> dialect_adapter \<Rightarrow> 'w adapter" where
  "openai_adapter http parse a =
     \<lparr>ad_complete = openai_complete http parse a, ad_stream = openai_stream http a,
      ad_supports_tools = (\<lambda>model. True), ad_effective_settings = openai_effective_settings a\<rparr>"

section \<open>Catalogs\<close>

record catalog_model =
  cm_provider :: string
  cm_name :: string
  cm_display_name :: "string option"

type_synonym 'w http_get = "string \<Rightarrow> (string \<times> string) list \<Rightarrow> 'w \<Rightarrow> (string + http_reply) \<times> 'w"

definition read_catalog ::
  "(string \<Rightarrow> json option) \<Rightarrow> (json \<Rightarrow> catalog_model option) \<Rightarrow> (string + http_reply) \<times> 'w
     \<Rightarrow> (anyhow + catalog_model list) \<times> 'w" where
  "read_catalog parse model_of r =
     (case r of
        (Inl e, w) \<Rightarrow> (Inl (error_msg (''catalog request failed: '' @ e)), w)
      | (Inr reply, w) \<Rightarrow>
          (if \<not> is_success reply
           then Inl (error_msg (''catalog returned '' @ hr_shown reply @ '': ''
                      @ (case hr_text reply of Some t \<Rightarrow> t | None \<Rightarrow> [])))
           else case Option.bind (hr_text reply) parse of
                  None \<Rightarrow> Inl (error_msg (hr_decode_error reply))
                | Some body \<Rightarrow> Inr (List.map_filter model_of (array_items (jget body ''data''))), w))"

definition anthropic_list_models ::
  "'w http_get \<Rightarrow> (string \<Rightarrow> json option) \<Rightarrow> dialect_adapter \<Rightarrow> 'w \<Rightarrow> (anyhow + catalog_model list) \<times> 'w" where
  "anthropic_list_models get parse a w =
     read_catalog parse
       (\<lambda>m. map_option
          (\<lambda>i. \<lparr>cm_provider = ''anthropic'', cm_name = i, cm_display_name = as_str (jget m ''display_name'')\<rparr>)
          (as_str (jget m ''id'')))
       (get (da_api_base a @ ''/models'')
          [(''x-api-key'', da_api_key a), (''anthropic-version'', anthropic_version)] w)"

definition openai_list_models ::
  "'w http_get \<Rightarrow> (string \<Rightarrow> json option) \<Rightarrow> dialect_adapter \<Rightarrow> 'w \<Rightarrow> (anyhow + catalog_model list) \<times> 'w" where
  "openai_list_models get parse a w =
     read_catalog parse
       (\<lambda>m. map_option (\<lambda>i. \<lparr>cm_provider = [], cm_name = i, cm_display_name = None\<rparr>) (as_str (jget m ''id'')))
       (get (da_api_base a @ ''/models'') [(''Authorization'', ''Bearer '' @ da_api_key a)] w)"

end
