(* ===== verification/Anthropic_Properties.thy ===== *)
theory Anthropic_Properties
  imports Openai_Compat
begin

text \<open>
  What the translation to and from the Anthropic dialect keeps: the tool loop, tool calls, native content,
  and what a translated stream tells the capture.
\<close>

section \<open>The tool loop\<close>

lemma has_role_iff: "has_role r m \<longleftrightarrow> jget m ''role'' = JStr r"
  by (cases "jget m ''role''") (auto simp: has_role_def)

lemma turn_reads [simp]:
  "jget (turn role bs) ''role'' = JStr role" "jget (turn role bs) ''content'' = JArr bs"
  by (simp_all add: turn_def jget_jobj)

lemma turn_with_content [simp]: "with_content (turn role bs) (JArr cs) = turn role cs"
  by (simp add: turn_def with_content_def jobj_def bt_from_list_def)

lemma tool_result_type [simp]: "has_type ''tool_result'' (tool_result pr m)"
  by (simp add: tool_result_def has_type_def jget_jobj)

lemma assistant_turn_calls:
  assumes "array_items (jget m ''tool_calls'') = cs" and "cs \<noteq> []"
  shows "assistant_turn parse m = Some (turn ''assistant'' (assistant_blocks (jget m ''content'') @ map (tool_use parse) cs))"
  using assms by (simp add: assistant_turn_def split: list.split)

lemma push_tool_results:
  assumes "list_all (has_role ''tool'') rs" and "list_all (has_type ''tool_result'') bs"
  shows "fold (translate_message parse pr) rs (ts @ [turn ''user'' bs])
    = ts @ [turn ''user'' (bs @ map (tool_result pr) rs)]"
  using assms
proof (induction rs arbitrary: bs)
  case (Cons r rs)
  then have "translate_message parse pr r (ts @ [turn ''user'' bs]) = ts @ [turn ''user'' (bs @ [tool_result pr r])]"
    by (simp add: translate_message_def push_tool_result_def results_only_def has_role_iff)
  then show ?case using Cons by simp
qed simp

text \<open>
  Every result of a tool-calling turn reaches the provider in the one user turn that follows it: behind
  any conversation, an assistant message with tool calls and the tool messages after it become exactly two
  turns, one with its text and its calls in their order, one with the results in theirs.
\<close>

theorem tool_results_in_one_turn:
  assumes "has_role ''assistant'' a" and "array_items (jget a ''tool_calls'') \<noteq> []"
    and "list_all (has_role ''tool'') rs" and "rs \<noteq> []"
  shows "snd (translate_messages parse pr (before @ a # rs))
    = snd (translate_messages parse pr before)
      @ [turn ''assistant'' (assistant_blocks (jget a ''content'') @ map (tool_use parse) (array_items (jget a ''tool_calls''))),
         turn ''user'' (map (tool_result pr) rs)]"
proof -
  obtain r rs' where rs: "rs = r # rs'" using assms(4) by (cases rs) auto
  let ?t = "turn ''assistant'' (assistant_blocks (jget a ''content'') @ map (tool_use parse) (array_items (jget a ''tool_calls'')))"
  have a: "translate_message parse pr a ts = ts @ [?t]" for ts
    using assms(1,2) by (simp add: translate_message_def has_role_iff assistant_turn_calls push_turn_def)
  have r: "translate_message parse pr r (ts @ [?t]) = (ts @ [?t]) @ [turn ''user'' [tool_result pr r]]" for ts
    using assms(3) rs by (simp add: translate_message_def has_role_iff push_tool_result_def results_only_def)
  have "list_all (has_role ''tool'') rs'" using assms(3) rs by simp
  from push_tool_results [OF this, of "[tool_result pr r]" parse pr] show ?thesis
    by (simp add: translate_messages_def a r rs del: append_assoc)
qed

theorem tool_results_in_one_turn_witness:
  "snd (translate_messages (\<lambda>s. None) (\<lambda>v. [])
      [jobj [(''role'', JStr ''user''), (''content'', JStr ''weather?'')],
       jobj [(''role'', JStr ''assistant''), (''content'', JNull),
             (''tool_calls'', JArr [jobj [(''id'', JStr ''a''), (''function'', jobj [(''name'', JStr ''f'')])],
                                    jobj [(''id'', JStr ''b''), (''function'', jobj [(''name'', JStr ''g'')])]])],
       jobj [(''role'', JStr ''tool''), (''tool_call_id'', JStr ''a''), (''content'', JStr ''1'')],
       jobj [(''role'', JStr ''tool''), (''tool_call_id'', JStr ''b''), (''content'', JStr ''2'')]])
   = [jobj [(''role'', JStr ''user''), (''content'', JStr ''weather?'')],
      turn ''assistant''
        [tool_use (\<lambda>s. None) (jobj [(''id'', JStr ''a''), (''function'', jobj [(''name'', JStr ''f'')])]),
         tool_use (\<lambda>s. None) (jobj [(''id'', JStr ''b''), (''function'', jobj [(''name'', JStr ''g'')])])],
      turn ''user''
        [tool_result (\<lambda>v. []) (jobj [(''role'', JStr ''tool''), (''tool_call_id'', JStr ''a''), (''content'', JStr ''1'')]),
         tool_result (\<lambda>v. []) (jobj [(''role'', JStr ''tool''), (''tool_call_id'', JStr ''b''), (''content'', JStr ''2'')])]]"
proof -
  let ?u = "jobj [(''role'', JStr ''user''), (''content'', JStr ''weather?'')]"
  let ?a = "jobj [(''role'', JStr ''assistant''), (''content'', JNull),
             (''tool_calls'', JArr [jobj [(''id'', JStr ''a''), (''function'', jobj [(''name'', JStr ''f'')])],
                                    jobj [(''id'', JStr ''b''), (''function'', jobj [(''name'', JStr ''g'')])]])]"
  let ?rs = "[jobj [(''role'', JStr ''tool''), (''tool_call_id'', JStr ''a''), (''content'', JStr ''1'')],
              jobj [(''role'', JStr ''tool''), (''tool_call_id'', JStr ''b''), (''content'', JStr ''2'')]]"
  have "has_role ''assistant'' ?a" "array_items (jget ?a ''tool_calls'') \<noteq> []" "list_all (has_role ''tool'') ?rs" "?rs \<noteq> []"
    by (simp_all add: has_role_iff jget_jobj)
  from tool_results_in_one_turn [OF this, of "\<lambda>s. None" "\<lambda>v. []" "[?u]"] show ?thesis
    by (simp add: jget_jobj assistant_blocks_def)
      (simp add: translate_messages_def translate_message_def has_role_iff plain_turn_def push_turn_def jget_jobj)
qed

section \<open>Tool calls, there and back\<close>

text \<open>A native call as the answer carries it, without what the OpenAI shape has no place for.\<close>

definition native_call :: "json \<Rightarrow> json" where
  "native_call b =
     jobj [(''type'', JStr ''tool_use''), (''id'', jget b ''id''), (''name'', jget b ''name''), (''input'', jget b ''input'')]"

lemma tool_use_openai_call:
  assumes "is_object (jget b ''input'')" and "parse (pr (jget b ''input'')) = Some (jget b ''input'')"
  shows "tool_use parse (openai_call pr b) = native_call b"
  using assms by (cases "jget b ''input''")
    (simp_all add: tool_use_def openai_call_def native_call_def jget_jobj is_object_def as_object_def)

text \<open>
  C13. A tool call survives the loop through the OpenAI shape. The provider's answer, turned into the
  assistant message the client gets and sends back, is translated into an assistant turn with the text of
  the answer and its very calls: ids, names and inputs unchanged, in order.
\<close>

theorem tool_calls_round_trip:
  assumes "tool_calls_from_content pr c = Some calls" and "content r = text_from_content c" and "tool_calls r = Some calls"
    and "list_all (\<lambda>b. is_object (jget b ''input'') \<and> parse (pr (jget b ''input'')) = Some (jget b ''input''))
           (filter (has_type ''tool_use'') (array_items c))"
  shows "translate_messages parse pr [assistant_message r]
    = (None, [turn ''assistant'' ((if text_from_content c = [] then [] else [text_block (text_from_content c)])
                @ map native_call (filter (has_type ''tool_use'') (array_items c)))])"
proof -
  let ?bs = "filter (has_type ''tool_use'') (array_items c)"
  have calls: "calls = JArr (map (openai_call pr) ?bs)" "map (openai_call pr) ?bs \<noteq> []"
    using assms(1) by (auto simp: tool_calls_from_content_def split: list.splits)
  have there: "map (tool_use parse) (map (openai_call pr) ?bs) = map native_call ?bs"
    using assms(4) by (auto simp: list_all_iff tool_use_openai_call)
  have m: "has_role ''assistant'' (assistant_message r)" "\<not> has_role ''user'' (assistant_message r)"
    "array_items (jget (assistant_message r) ''tool_calls'') = map (openai_call pr) ?bs"
    "jget (assistant_message r) ''content'' = (if content r = [] then JNull else JStr (content r))"
    using assms(3) by (simp_all add: assistant_message_def has_role_iff jget_jobj calls(1))
  have t: "assistant_turn parse (assistant_message r)
      = Some (turn ''assistant'' (assistant_blocks (jget (assistant_message r) ''content'') @ map native_call ?bs))"
    unfolding there [symmetric] by (rule assistant_turn_calls [OF m(3) calls(2)])
  have "system_text [assistant_message r] = None"
    using m(1) by (simp add: system_text_def system_part_def has_role_iff map_filter_simps)
  then show ?thesis
    using m t assms(2) by (simp add: translate_messages_def translate_message_def push_turn_def assistant_blocks_def)
qed

theorem tool_calls_round_trip_witness:
  "translate_messages (\<lambda>s. if s = ''{}'' then Some (jobj []) else None) (\<lambda>v. ''{}'')
     [assistant_message (default_result\<lparr>content := ''Looking.'',
        tool_calls := Some (JArr [jobj [(''id'', JStr ''t1''), (''type'', JStr ''function''),
          (''function'', jobj [(''name'', JStr ''look''), (''arguments'', JStr ''{}'')])]])\<rparr>)]
   = (None, [turn ''assistant'' [text_block ''Looking.'',
       jobj [(''type'', JStr ''tool_use''), (''id'', JStr ''t1''), (''name'', JStr ''look''), (''input'', jobj [])]]])"
proof -
  let ?parse = "\<lambda>s. if s = ''{}'' then Some (jobj []) else None"
  let ?pr = "\<lambda>v. ''{}''"
  let ?b = "jobj [(''type'', JStr ''tool_use''), (''id'', JStr ''t1''), (''name'', JStr ''look''), (''input'', jobj [])]"
  let ?c = "JArr [jobj [(''type'', JStr ''text''), (''text'', JStr ''Looking.'')], ?b]"
  let ?calls = "JArr [jobj [(''id'', JStr ''t1''), (''type'', JStr ''function''),
          (''function'', jobj [(''name'', JStr ''look''), (''arguments'', JStr ''{}'')])]]"
  let ?r = "default_result\<lparr>content := ''Looking.'', tool_calls := Some ?calls\<rparr>"
  have f: "filter (has_type ''tool_use'') (array_items ?c) = [?b]" "text_from_content ?c = ''Looking.''"
    by (simp_all add: has_type_def jget_jobj text_from_content_def map_filter_simps)
  have calls: "tool_calls_from_content ?pr ?c = Some ?calls"
    unfolding tool_calls_from_content_def f by (simp add: openai_call_def jget_jobj)
  have r: "content ?r = text_from_content ?c" "tool_calls ?r = Some ?calls" by (simp_all add: f(2))
  have "list_all (\<lambda>b. is_object (jget b ''input'') \<and> ?parse (?pr (jget b ''input'')) = Some (jget b ''input''))
      (filter (has_type ''tool_use'') (array_items ?c))"
    unfolding f by (simp add: jget_jobj is_object_def)
  from tool_calls_round_trip [where parse = ?parse and pr = ?pr, OF calls r this] show ?thesis
    unfolding f by (simp add: native_call_def jget_jobj)
qed

section \<open>Native content\<close>

lemma bt_insert_again: "bt_ok m \<Longrightarrow> bt_insert k y (bt_insert k x m) = bt_insert k y m"
  by (rule bt_ext) (auto simp: bt_ok_insert map_of_bt_insert fun_eq_iff)

lemma json_ok_content:
  assumes "json_ok v" and "jget v k = JArr xs" and "x \<in> set xs"
  shows "json_ok x"
proof -
  obtain m where m: "v = JObj m" "map_of m k = Some (JArr xs)"
    using assms(2) by (cases v) (auto simp: jget_def jget_opt_def split: option.splits)
  then have "(k, JArr xs) \<in> set m" by (auto dest: map_of_SomeD)
  then show ?thesis using assms(1,3) m(1) by force
qed

lemma with_content_reads:
  assumes "json_ok v" and "is_object v"
  shows "jget (with_content v x) k = (if k = ''content'' then x else jget v k)"
    and "with_content (with_content v x) y = with_content v y"
  using assms by (auto simp: with_content_def is_object_def as_object_def jget_obj map_of_bt_insert bt_insert_again
      split: json.splits)

lemma array_object: "jget v k = JArr xs \<Longrightarrow> is_object v"
  by (cases v) (auto simp: is_object_def)

lemma image_part_settles:
  "translate_content_block (translate_image_part p) = translate_image_part p"
  if "has_type ''image_url'' p \<or> has_type ''input_image'' p"
proof (cases "translate_image_part p = p")
  case True
  have "translate_content_block p = translate_image_part p"
    using that by (subst translate_content_block.simps) simp
  with True show ?thesis by simp
next
  case False
  then obtain src where "translate_image_part p = image_block src"
    by (auto simp: translate_image_part_def split: option.splits)
  then show ?thesis
    by (subst translate_content_block.simps) (simp add: image_block_def has_type_def jget_jobj)
qed

lemma content_block_settles:
  "json_ok p \<Longrightarrow> translate_content_block (translate_content_block p) = translate_content_block p"
proof (induction p rule: translate_content_block.induct)
  case (1 p)
  note eq = translate_content_block.simps [of p]
  consider (image) "has_type ''image_url'' p \<or> has_type ''input_image'' p"
    | (input) "has_type ''input_text'' p"
    | (result) xs where "has_type ''tool_result'' p" "jget p ''content'' = JArr xs"
    | (other) "\<not> (has_type ''image_url'' p \<or> has_type ''input_image'' p)" "\<not> has_type ''input_text'' p"
        "\<not> (has_type ''tool_result'' p \<and> (\<exists>xs. jget p ''content'' = JArr xs))"
    by blast
  then show ?case
  proof cases
    case image
    with image_part_settles [OF image] eq show ?thesis by simp
  next
    case input
    then have "\<not> has_type ''image_url'' p" "\<not> has_type ''input_image'' p" by (simp_all add: has_type_def)
    with input have e: "translate_content_block p = (case jget p ''text'' of JStr t \<Rightarrow> text_block t | _ \<Rightarrow> p)"
      unfolding eq text_block_def by (auto split: json.split)
    have "translate_content_block (text_block t) = text_block t" for t
      by (subst translate_content_block.simps) (simp add: text_block_def has_type_def jget_jobj)
    with e show ?thesis by (cases "jget p ''text''") simp_all
  next
    case result
    have types: "\<not> has_type ''image_url'' p" "\<not> has_type ''input_image'' p" "\<not> has_type ''input_text'' p"
      using result(1) by (simp_all add: has_type_def)
    have e: "translate_content_block p = with_content p (JArr (map translate_content_block xs))"
      using eq result types by simp
    note r = with_content_reads [OF 1(2) array_object [OF result(2)]]
    have ih: "translate_content_block (translate_content_block x) = translate_content_block x" if "x \<in> set xs" for x
      using 1(1) [OF _ _ _ result(2) that] types result(1) json_ok_content [OF 1(2) result(2) that] by blast
    have "translate_content_block (with_content p (JArr (map translate_content_block xs)))
        = with_content p (JArr (map translate_content_block (map translate_content_block xs)))"
      using types result(1) by (subst translate_content_block.simps) (simp add: has_type_def r)
    also have "map translate_content_block (map translate_content_block xs) = map translate_content_block xs"
      using ih by simp
    finally show ?thesis using e by simp
  next
    case other
    then have "translate_content_block p = p" unfolding eq by (auto split: json.split)
    then show ?thesis by simp
  qed
qed

text \<open>
  Translating native content twice is translating it once, images nested in tool results included: a
  request the passthrough has translated is left alone by every later translation.
\<close>

theorem native_translation_settles:
  assumes "list_all json_ok ms"
  shows "translate_native_messages (translate_native_messages ms) = translate_native_messages ms"
proof -
  have "translate_native_messages (translate_native_messages [m]) = translate_native_messages [m]" if "json_ok m" for m
  proof (cases "jget m ''content''")
    case (JArr xs)
    then have "map translate_content_block (map translate_content_block xs) = map translate_content_block xs"
      using content_block_settles json_ok_content [OF that JArr] by simp
    then show ?thesis
      using with_content_reads [OF that array_object [OF JArr]] JArr
      by (simp add: translate_native_messages_def with_translated_def translate_content_blocks_def del: map_map)
  qed (simp_all add: translate_native_messages_def)
  with assms show ?thesis by (auto simp: translate_native_messages_def list_all_iff)
qed

theorem native_translation_settles_witness:
  "translate_native_messages
     [turn ''user'' [image_block (jobj [(''type'', JStr ''url''), (''url'', JStr ''http://x/y.png'')])]]
   = [turn ''user'' [image_block (jobj [(''type'', JStr ''url''), (''url'', JStr ''http://x/y.png'')])]]"
proof -
  let ?m = "turn ''user'' [jobj [(''type'', JStr ''image_url''), (''image_url'', JStr ''http://x/y.png'')]]"
  let ?n = "[turn ''user'' [image_block (jobj [(''type'', JStr ''url''), (''url'', JStr ''http://x/y.png'')])]]"
  have once: "translate_native_messages [?m] = ?n"
    by (simp add: translate_native_messages_def with_translated_def translate_content_blocks_def)
      (subst translate_content_block.simps, simp add: has_type_def jget_jobj translate_image_part_def image_source_def)
  have "list_all json_ok [?m]" by (simp add: turn_def jobj_def bt_from_list_def bt_ok_def)
  from native_translation_settles [OF this] show ?thesis unfolding once .
qed

end
