(* ===== verification/Anthropic_Stream.thy ===== *)
theory Anthropic_Stream
  imports Anthropic_Properties Messages_Replay
begin

text \<open>
  A Claude answer streamed through the router: what the response capture reads out of the translated stream
  is what the provider's events say, whatever the network does to the bytes.
\<close>

section \<open>What the events say\<close>

definition event_is :: "string \<Rightarrow> json \<Rightarrow> bool" where
  "event_is k v \<longleftrightarrow> as_str (jget v ''type'') = Some k"

definition event_index :: "json \<Rightarrow> nat" where
  "event_index v = u64_or_0 (jget v ''index'')"

definition tool_start :: "json \<Rightarrow> bool" where
  "tool_start v \<longleftrightarrow> event_is ''content_block_start'' v \<and> has_type ''tool_use'' (jget v ''content_block'')"

definition json_delta :: "json \<Rightarrow> bool" where
  "json_delta v \<longleftrightarrow> event_is ''content_block_delta'' v \<and> has_type ''input_json_delta'' (jget v ''delta'')"

definition delta_text :: "json \<Rightarrow> string" where
  "delta_text v =
     (if event_is ''content_block_delta'' v \<and> has_type ''text_delta'' (jget v ''delta'')
      then str_or [] (jget (jget v ''delta'') ''text'') else [])"

definition delta_json :: "nat \<Rightarrow> json \<Rightarrow> string" where
  "delta_json i v =
     (if json_delta v \<and> event_index v = i then str_or [] (jget (jget v ''delta'') ''partial_json'') else [])"

definition tool_starts :: "json list \<Rightarrow> json list" where
  "tool_starts evs = filter tool_start evs"

definition tool_indexes :: "json list \<Rightarrow> nat list" where
  "tool_indexes evs = map event_index (tool_starts evs)"

definition acc_of :: "json list \<Rightarrow> json \<Rightarrow> tool_call_acc" where
  "acc_of evs s =
     (let b = jget s ''content_block''
      in \<lparr>acc_id = as_str (jget b ''id''), acc_name = str_or [] (jget b ''name''),
          acc_arguments = concat (map (delta_json (event_index s)) evs)\<rparr>)"

text \<open>
  An event that may follow: one end of the message, the tool blocks under indexes of their own with an id,
  arguments for blocks that were opened.
\<close>

definition event_ok :: "json list \<Rightarrow> json \<Rightarrow> bool" where
  "event_ok before v \<longleftrightarrow>
     \<not> event_is ''message_delta'' v
     \<and> (if tool_start v
        then as_str (jget (jget v ''content_block'') ''id'') \<noteq> None \<and> event_index v \<notin> set (tool_indexes before)
        else if json_delta v then event_index v \<in> set (tool_indexes before) else True)"

fun reversed_ok :: "json list \<Rightarrow> bool" where
  "reversed_ok [] = True"
| "reversed_ok (v # before) = (event_ok (rev before) v \<and> reversed_ok before)"

definition events_ok :: "json list \<Rightarrow> bool" where
  "events_ok evs = reversed_ok (rev evs)"

lemma events_ok_simps [simp]:
  "events_ok []" "events_ok (evs @ [v]) \<longleftrightarrow> event_ok evs v \<and> events_ok evs"
  by (simp_all add: events_ok_def)

lemma tool_starts_simps [simp]:
  "tool_starts [] = []" "tool_starts (evs @ [v]) = tool_starts evs @ (if tool_start v then [v] else [])"
  "tool_indexes [] = []" "tool_indexes (evs @ [v]) = tool_indexes evs @ (if tool_start v then [event_index v] else [])"
  by (simp_all add: tool_starts_def tool_indexes_def)

lemma tool_indexes_distinct: "events_ok evs \<Longrightarrow> distinct (tool_indexes evs)"
  by (induction evs rule: rev_induct) (auto simp: event_ok_def)

lemma deltas_are_opened: "events_ok evs \<Longrightarrow> e \<in> set evs \<Longrightarrow> json_delta e \<Longrightarrow> event_index e \<in> set (tool_indexes evs)"
  by (induction evs rule: rev_induct) (auto simp: event_ok_def split: if_splits)

lemma unopened_arguments: "events_ok evs \<Longrightarrow> i \<notin> set (tool_indexes evs) \<Longrightarrow> concat (map (delta_json i) evs) = []"
  using deltas_are_opened by (fastforce simp: delta_json_def)

section \<open>Running the translator over events\<close>

fun translate_events :: "json list \<Rightarrow> sse_translator \<Rightarrow> emitted list \<times> sse_translator" where
  "translate_events [] t = ([], t)"
| "translate_events (v # vs) t =
     (let (x, t) = translate_event v t; (xs, t) = translate_events vs t
      in ((case x of Some e \<Rightarrow> [e] | None \<Rightarrow> []) @ xs, t))"

lemma translate_events_append:
  "translate_events (xs @ ys) t =
     (let (a, t) = translate_events xs t; (b, t) = translate_events ys t in (a @ b, t))"
  by (induction xs arbitrary: t) (auto simp: split_beta Let_def)

text \<open>On the lines of an event stream, the translator is \<open>translate_events\<close>, printed.\<close>

lemma other_line: "strip_prefix ''data: '' line = None \<Longrightarrow> translate_line P pr line t = (None, t)"
  by (simp add: translate_line_def)

lemma data_line:
  "P (pr v) = Some v \<Longrightarrow> translate_line P pr (''data: '' @ pr v) t = apfst (map_option (emitted_text pr)) (translate_event v t)"
  by (simp add: translate_line_def del: append_Cons)

lemma translate_lines_append:
  "translate_lines P pr (xs @ ys) t =
     (let (a, t) = translate_lines P pr xs t; (b, t) = translate_lines P pr ys t in (a @ b, t))"
  by (induction xs arbitrary: t) (auto simp: split_beta Let_def)

lemma translate_named_lines:
  assumes "list_all (\<lambda>e. P (pr e) = Some e) evs"
  shows "translate_lines P pr (concat (map (\<lambda>e. [''event: '' @ jtype e, ''data: '' @ pr e, []]) evs)) t
    = apfst (\<lambda>xs. concat (map (emitted_text pr) xs)) (translate_events evs t)"
  using assms
proof (induction evs arbitrary: t)
  case (Cons v vs)
  have n: "strip_prefix ''data: '' (''event: '' @ jtype v) = None" "strip_prefix ''data: '' [] = None"
    by simp_all
  obtain x u where x: "translate_event v t = (x, u)" by fastforce
  have p: "P (pr v) = Some v" using Cons.prems by simp
  note lines = other_line [OF n(1)] other_line [OF n(2)] data_line [of P pr v, OF p]
  have three: "translate_lines P pr [''event: '' @ jtype v, ''data: '' @ pr v, []] t
      = ((case x of Some e \<Rightarrow> emitted_text pr e | None \<Rightarrow> []), u)"
    by (cases x) (simp_all add: lines x del: append_Cons)
  have "translate_lines P pr ([''event: '' @ jtype v, ''data: '' @ pr v, []]
        @ concat (map (\<lambda>e. [''event: '' @ jtype e, ''data: '' @ pr e, []]) vs)) t
      = apfst (\<lambda>xs. concat (map (emitted_text pr) xs)) (translate_events (v # vs) t)"
    unfolding translate_lines_append three using Cons
    by (cases x) (auto simp: x split_beta Let_def apfst_def map_prod_def)
  then show ?case by simp
qed simp

text \<open>Whatever the chunks, what is sent on is the translation of the lines of the whole.\<close>

lemma sse_push_rest: "nl \<notin> set (snd (sse_push p c))"
proof (cases "nl \<in> set (p @ c)")
  case True
  then obtain a r where "p @ c = a @ nl # r" "nl \<notin> set r" by (rule split_last_nl)
  then show ?thesis by (simp add: sse_push_lines)
qed (simp add: sse_push_none)

lemma stream_is_translation:
  "\<exists>outs. translate_sse_stream P pr t pending (map Inr cs) = map Inr outs
     \<and> concat outs = fst (translate_lines P pr (fst (sse_push pending (concat cs))) t) \<and> length outs = length cs"
  if "nl \<notin> set pending"
  using that
proof (induction cs arbitrary: t pending)
  case Nil
  then have "sse_push pending [] = ([], pending)" by (simp add: sse_push_none)
  then show ?case by simp
next
  case (Cons c cs)
  obtain ls b where p: "sse_push pending c = (ls, b)" by fastforce
  obtain out u where o: "translate_lines P pr ls t = (out, u)" by fastforce
  have b: "nl \<notin> set b" using sse_push_rest [of pending c] by (simp add: p)
  from Cons.IH [OF b, of u] obtain outs where ih: "translate_sse_stream P pr u b (map Inr cs) = map Inr outs"
    "concat outs = fst (translate_lines P pr (fst (sse_push b (concat cs))) u)" "length outs = length cs"
    by blast
  have "fst (sse_push pending (c @ concat cs)) = ls @ fst (sse_push b (concat cs))"
    using sse_push_assoc [of pending c "concat cs"] by (simp add: p split_beta)
  then show ?case
    using ih by (intro exI [of _ "out # outs"]) (simp add: p o translate_lines_append split_beta Let_def)
qed

section \<open>The translator and the capture, event by event\<close>

lemma take_stream_chunk:
  "take_chunk (stream_chunk d fin) c =
     c\<lparr>cc_content := cc_content c @ str_or [] (jget d ''content''),
       cc_tool_calls := fold add_call (array_items (jget d ''tool_calls'')) (cc_tool_calls c),
       cc_finish_reason := (case as_str fin of Some r \<Rightarrow> Some r | None \<Rightarrow> cc_finish_reason c)\<rparr>"
  by (simp add: take_chunk_def stream_chunk_def jget_jobj take_choice_def Let_def note_usage_def is_object_def)

lemma clean_stream_chunk [simp]: "clean_chunk (stream_chunk d fin)"
  by (simp add: clean_chunk_def stream_chunk_def jget_jobj jget_opt_jobj chunk_error_def u64_or_0_def)

lemma bt_insert_zip:
  "length accs = n \<Longrightarrow> k < n \<Longrightarrow> bt_insert (i + k) v (zip [i..<i + n] accs) = zip [i..<i + n] (accs[k := v])"
proof (induction accs arbitrary: i k n)
  case (Cons a accs)
  then obtain m where n: "n = Suc m" by (cases n) auto
  have u: "[i..<i + n] = i # [Suc i..<Suc i + m]" using n by (simp add: upt_conv_Cons)
  show ?case
  proof (cases k)
    case (Suc j)
    with Cons.IH [of m j "Suc i"] Cons.prems n show ?thesis unfolding u by simp
  qed (simp add: u)
qed simp

lemma add_call_opened:
  assumes "as_u64 (jget call ''index'') = Some n" and "length accs = n"
  shows "add_call call (zip [0..<n] accs)
    = zip [0..<Suc n] (accs @ [\<lparr>acc_id = as_str (jget call ''id''), acc_name = str_or [] (jget (jget call ''function'') ''name''),
        acc_arguments = str_or [] (jget (jget call ''function'') ''arguments'')\<rparr>])"
proof -
  let ?m = "zip [0..<n] accs"
  have below: "\<forall>k \<in> fst ` set ?m. k < n" by (auto dest: set_zip_leftD)
  then have none: "map_of ?m n = None" by (force simp: map_of_eq_None_iff)
  show ?thesis
    unfolding add_call_def u64_or_0_def Let_def assms(1) option.case none bt_insert_last [OF below] empty_acc_def
    by (simp add: assms(2) split: option.split)
qed

lemma add_call_arguments:
  assumes "as_u64 (jget call ''index'') = Some k" and "length accs = n" and "k < n"
    and "as_str (jget call ''id'') = None" and "as_str (jget (jget call ''function'') ''name'') = None"
  shows "add_call call (zip [0..<n] accs)
    = zip [0..<n] (accs[k := (accs ! k)\<lparr>acc_arguments := acc_arguments (accs ! k)
        @ str_or [] (jget (jget call ''function'') ''arguments'')\<rparr>])"
proof -
  have "map_of (zip [0..<n] accs) ([0..<n] ! k) = Some (accs ! k)"
    by (rule map_of_zip_nth) (use assms(2,3) in simp_all)
  moreover have "[0..<n] ! k = k" using assms(3) by simp
  ultimately have old: "map_of (zip [0..<n] accs) k = Some (accs ! k)" by metis
  have "str_or [] (jget (jget call ''function'') ''name'') = []" using assms(5) by (simp add: str_or_def)
  then show ?thesis
    using bt_insert_zip [OF assms(2,3), of 0]
    by (cases "accs ! k") (simp add: add_call_def u64_or_0_def Let_def assms(1,4) old)
qed

definition told :: "json list \<Rightarrow> sse_translator \<Rightarrow> chat_capture \<Rightarrow> bool" where
  "told evs t c \<longleftrightarrow>
     at_next_tool_index t = length (tool_starts evs)
     \<and> at_tool_indices t = map_of (zip (tool_indexes evs) [0..<length (tool_starts evs)])
     \<and> cc_content c = concat (map delta_text evs)
     \<and> cc_tool_calls c = zip [0..<length (tool_starts evs)] (map (acc_of evs) (tool_starts evs))
     \<and> cc_finish_reason c = None"

lemma told_new: "told [] new_translator chat_new"
  by (simp add: told_def new_translator_def chat_new_def)

lemma acc_of_other: "delta_json (event_index s) v = [] \<Longrightarrow> acc_of (evs @ [v]) s = acc_of evs s"
  by (simp add: acc_of_def)

text \<open>An event that says nothing about text or tools.\<close>

lemma told_silent:
  assumes "told evs t c" and "\<not> tool_start v" and "\<And>i. delta_json i v = []" and "delta_text v = []"
    and "at_next_tool_index t' = at_next_tool_index t" and "at_tool_indices t' = at_tool_indices t"
  shows "told (evs @ [v]) t' c"
proof -
  have "acc_of (evs @ [v]) = acc_of evs" by (auto simp: acc_of_other assms(3))
  with assms show ?thesis by (simp add: told_def)
qed

lemma told_text:
  assumes "told evs t c" and "event_is ''content_block_delta'' v" and "has_type ''text_delta'' (jget v ''delta'')"
    and "as_str (jget (jget v ''delta'') ''text'') = Some s"
  shows "told (evs @ [v]) t (take_chunk (stream_chunk (jobj [(''content'', JStr s)]) JNull) c)"
proof -
  have j: "\<not> json_delta v" "\<not> tool_start v"
    using assms(2,3) by (auto simp: json_delta_def tool_start_def event_is_def has_type_def)
  then have "acc_of (evs @ [v]) = acc_of evs" by (auto simp: acc_of_other delta_json_def)
  moreover have "delta_text v = s" using assms by (simp add: delta_text_def str_or_def)
  ultimately show ?thesis
    using assms(1) j by (simp add: told_def take_stream_chunk jget_jobj str_or_def del: take_chunk_fields)
qed

lemma told_start:
  assumes "told evs t c" and "events_ok evs" and "tool_start v" and "event_ok evs v"
  shows "told (evs @ [v]) (snd (block_started v t)) (take_chunk (the (fst (block_started v t))) c)"
proof -
  have v: "event_is ''content_block_start'' v" "has_type ''tool_use'' (jget v ''content_block'')"
    using assms(3) by (simp_all add: tool_start_def)
  have new: "event_index v \<notin> set (tool_indexes evs)" using assms(3,4) by (simp add: event_ok_def)
  have j: "\<not> json_delta v" using v(1) by (simp add: json_delta_def event_is_def)
  then have dj: "delta_json i v = []" for i by (simp add: delta_json_def)
  have dt: "delta_text v = []" using v(1) by (simp add: delta_text_def event_is_def)
  have old: "map (acc_of (evs @ [v])) xs = map (acc_of evs) xs" for xs by (simp add: acc_of_other dj)
  have acc: "acc_of (evs @ [v]) v = \<lparr>acc_id = as_str (jget (jget v ''content_block'') ''id''),
      acc_name = str_or [] (jget (jget v ''content_block'') ''name''), acc_arguments = []\<rparr>"
    using unopened_arguments [OF assms(2) new] by (simp add: acc_of_def Let_def dj)
  let ?n = "length (tool_starts evs)"
  have n: "length (tool_indexes evs) = ?n" by (simp add: tool_indexes_def)
  have upd: "[event_index v \<mapsto> ?n] ++ map_of (zip (tool_indexes evs) [0..<?n])
      = (map_of (zip (tool_indexes evs) [0..<?n]))(event_index v \<mapsto> ?n)"
    using new by (auto simp: map_add_def fun_eq_iff split: option.split dest!: map_of_SomeD dest: set_zip_leftD)
  show ?thesis
    using assms(1,3) v(2)
      add_call_opened [of "jobj [(''index'', jnat ?n), (''id'', jget (jget v ''content_block'') ''id''),
        (''type'', JStr ''function''), (''function'', jobj [(''name'', jget (jget v ''content_block'') ''name''),
        (''arguments'', JStr [])])]" ?n "map (acc_of evs) (tool_starts evs)"]
    by (simp add: told_def block_started_def Let_def take_stream_chunk tool_delta_def jget_jobj str_or_null dt old acc
        n upd event_index_def [symmetric] zip_append str_or_def [of _ "JStr []"] del: take_chunk_fields)
qed

lemma told_index:
  assumes "told evs t c" and "events_ok evs" and "i \<in> set (tool_indexes evs)"
  obtains k where "k < length (tool_starts evs)" and "tool_indexes evs ! k = i" and "at_tool_indices t i = Some k"
proof -
  let ?n = "length (tool_starts evs)"
  have n: "length (tool_indexes evs) = ?n" by (simp add: tool_indexes_def)
  obtain k where k: "k < ?n" "tool_indexes evs ! k = i" using assms(3) n by (auto simp: in_set_conv_nth)
  have "map_of (zip (tool_indexes evs) [0..<?n]) (tool_indexes evs ! k) = Some ([0..<?n] ! k)"
    by (rule map_of_zip_nth) (use n k(1) tool_indexes_distinct [OF assms(2)] in simp_all)
  with assms(1) k that show ?thesis by (simp add: told_def)
qed

lemma told_arguments:
  assumes "told evs t c" and "events_ok evs" and "json_delta v" and "event_index v \<in> set (tool_indexes evs)"
    and "as_str (jget (jget v ''delta'') ''partial_json'') = Some s"
  shows "\<exists>d. block_delta v t = Some (stream_chunk d JNull) \<and> told (evs @ [v]) t (take_chunk (stream_chunk d JNull) c)"
proof -
  let ?n = "length (tool_starts evs)" and ?xs = "tool_starts evs"
  have n: "length (tool_indexes evs) = ?n" by (simp add: tool_indexes_def)
  obtain k where k: "k < ?n" "tool_indexes evs ! k = event_index v" and ix: "at_tool_indices t (event_index v) = Some k"
    by (rule told_index [OF assms(1,2,4)])
  have dist: "distinct (tool_indexes evs)" by (rule tool_indexes_distinct [OF assms(2)])
  have v: "has_type ''input_json_delta'' (jget v ''delta'')" "\<not> has_type ''text_delta'' (jget v ''delta'')"
    "event_is ''content_block_delta'' v" "\<not> tool_start v"
    using assms(3) by (auto simp: json_delta_def has_type_def tool_start_def event_is_def)
  let ?call = "jobj [(''index'', jnat k), (''function'', jobj [(''arguments'', JStr s)])]"
  let ?d = "tool_delta [(''index'', jnat k), (''function'', jobj [(''arguments'', JStr s)])]"
  have b: "block_delta v t = Some (stream_chunk ?d JNull)"
    using v(1,2) ix assms(5) by (simp add: block_delta_def Let_def event_index_def [symmetric])
  have dj: "delta_json i v = (if i = event_index v then s else [])" for i
    using assms(3,5) by (simp add: delta_json_def str_or_def)
  have accs: "map (acc_of (evs @ [v])) ?xs
      = (map (acc_of evs) ?xs)[k := (map (acc_of evs) ?xs ! k)\<lparr>acc_arguments := acc_arguments (map (acc_of evs) ?xs ! k) @ s\<rparr>]"
  proof (rule nth_equalityI)
    fix j assume "j < length (map (acc_of (evs @ [v])) ?xs)"
    then have j: "j < ?n" by simp
    have "event_index (?xs ! j) = event_index v \<longleftrightarrow> j = k"
      using nth_eq_iff_index_eq [OF dist, of j k] j k n by (simp add: tool_indexes_def)
    then show "map (acc_of (evs @ [v])) ?xs ! j = (map (acc_of evs) ?xs)[k := (map (acc_of evs) ?xs ! k)
        \<lparr>acc_arguments := acc_arguments (map (acc_of evs) ?xs ! k) @ s\<rparr>] ! j"
      using j k(1) by (cases "j = k") (simp_all add: acc_of_def Let_def dj)
  qed simp
  have call: "as_u64 (jget ?call ''index'') = Some k" "as_str (jget ?call ''id'') = None"
    "as_str (jget (jget ?call ''function'') ''name'') = None" "jget (jget ?call ''function'') ''arguments'' = JStr s"
    by (simp_all add: jget_jobj)
  have dt: "delta_text v = []" using v by (simp add: delta_text_def)
  have "told (evs @ [v]) t (take_chunk (stream_chunk ?d JNull) c)"
    using assms(1) v(4) add_call_arguments [OF call(1) _ k(1) call(2,3), of "map (acc_of evs) ?xs"]
    by (simp add: told_def take_stream_chunk jget_jobj tool_delta_def accs dt str_or_null call(4)
        str_or_def [of _ "JStr s"] del: take_chunk_fields)
  with b show ?thesis by blast
qed

lemma told_step:
  assumes "told evs t c" and "events_ok evs" and "event_ok evs v"
  obtains (silent) "translate_event v t = (None, snd (translate_event v t))" "told (evs @ [v]) (snd (translate_event v t)) c"
    | (chunk) d where "translate_event v t = (Some (Chunk d), snd (translate_event v t))" "clean_chunk d"
        "cc_usage (take_chunk d c) = cc_usage c" "told (evs @ [v]) (snd (translate_event v t)) (take_chunk d c)"
proof -
  have usage: "cc_usage (take_chunk (stream_chunk d f) c) = cc_usage c" for d f
    by (simp add: stream_chunk_def jget_jobj is_object_def)
  show ?thesis
  proof (cases "tool_start v")
    case True
    then have e: "as_str (jget v ''type'') = Some ''content_block_start''" "has_type ''tool_use'' (jget v ''content_block'')"
      by (simp_all add: tool_start_def event_is_def)
    obtain d where d: "fst (block_started v t) = Some (stream_chunk d JNull)"
      using e(2) by (simp add: block_started_def Let_def)
    have "translate_event v t = (Some (Chunk (stream_chunk d JNull)), snd (block_started v t))"
      using e(1) d by (cases "block_started v t") (simp add: translate_event_def)
    with told_start [OF assms(1,2) True assms(3)] d show ?thesis 
      by (intro chunk [of "stream_chunk d JNull"]) (simp_all add: usage del: take_chunk_fields)
  next
    case start: False
    show ?thesis
    proof (cases "event_is ''content_block_delta'' v \<and> block_delta v t \<noteq> None")
      case False
      have t: "at_next_tool_index (snd (translate_event v t)) = at_next_tool_index t"
        "at_tool_indices (snd (translate_event v t)) = at_tool_indices t" "fst (translate_event v t) = None"
        using start False assms(3)
        by (auto simp: translate_event_def event_is_def tool_start_def event_ok_def block_started_def absorb_usage_def Let_def
            split: option.split)
      have "delta_text v = []"
        using False by (auto simp: delta_text_def block_delta_def Let_def str_or_def event_is_def split: option.splits)
      moreover have "delta_json i v = []" for i
      proof (cases "json_delta v")
        case True
        then have e: "event_is ''content_block_delta'' v" "event_index v \<in> set (tool_indexes evs)"
          "has_type ''input_json_delta'' (jget v ''delta'')" "\<not> has_type ''text_delta'' (jget v ''delta'')"
          using start assms(3) by (auto simp: json_delta_def event_ok_def has_type_def)
        obtain k where "at_tool_indices t (event_index v) = Some k" by (rule told_index [OF assms(1,2) e(2)])
        with False e have "as_str (jget (jget v ''delta'') ''partial_json'') = None"
          by (auto simp: block_delta_def Let_def event_index_def)
        then show ?thesis by (simp add: delta_json_def str_or_def)
      qed (simp add: delta_json_def)
      ultimately have "told (evs @ [v]) (snd (translate_event v t)) c"
        by (intro told_silent [OF assms(1) start]) (simp_all add: t)
      with t(3) show ?thesis by (intro silent) (simp_all add: prod_eq_iff)
    next
      case True
      then have e: "translate_event v t = (map_option Chunk (block_delta v t), t)"
        by (simp add: translate_event_def event_is_def)
      have "\<exists>d. block_delta v t = Some (stream_chunk d JNull) \<and> told (evs @ [v]) t (take_chunk (stream_chunk d JNull) c)"
      proof (cases "has_type ''text_delta'' (jget v ''delta'')")
        case t: True
        then obtain s where s: "as_str (jget (jget v ''delta'') ''text'') = Some s"
          using True by (auto simp: block_delta_def Let_def)
        with told_text [OF assms(1) _ t s] True t show ?thesis by (auto simp: block_delta_def Let_def)
      next
        case t: False
        then obtain s where s: "json_delta v" "as_str (jget (jget v ''delta'') ''partial_json'') = Some s"
          using True by (auto simp: block_delta_def Let_def json_delta_def bind_eq_Some_conv split: if_splits)
        moreover have "event_index v \<in> set (tool_indexes evs)" using assms(3) start s(1) by (simp add: event_ok_def)
        ultimately show ?thesis by (intro told_arguments [OF assms(1,2)])
      qed
      then obtain d where "block_delta v t = Some (stream_chunk d JNull)"
        "told (evs @ [v]) t (take_chunk (stream_chunk d JNull) c)" by blast
      with e show ?thesis by (intro chunk [of "stream_chunk d JNull"]) (simp_all add: usage del: take_chunk_fields)
    qed
  qed
qed

section \<open>Usage\<close>

definition usage_of_event :: "json \<Rightarrow> json" where
  "usage_of_event v =
     (if event_is ''message_start'' v then jget (jget v ''message'') ''usage''
      else if event_is ''message_delta'' v then jget v ''usage'' else JNull)"

definition usages :: "json list \<Rightarrow> json list" where
  "usages evs = filter is_object (map usage_of_event evs)"

text \<open>The last figure reported under a key, 0 if there is none; the last figure for thinking.\<close>

definition reported :: "string \<Rightarrow> json list \<Rightarrow> nat" where
  "reported k us =
     (let ns = List.map_filter (\<lambda>u. as_u64 (jget u k)) us in if ns = [] then 0 else as_u32 (last ns))"

definition reported_thinking :: "json list \<Rightarrow> nat option" where
  "reported_thinking us =
     (let ns = List.map_filter thinking_tokens_from_usage us in if ns = [] then None else Some (last ns))"

lemma reported_snoc: "reported k (us @ [u]) = u32_or (reported k us) (jget u k)"
  by (cases "as_u64 (jget u k)") (simp_all add: reported_def u32_or_def map_filter_append map_filter_simps)

lemma reported_thinking_snoc:
  "reported_thinking (us @ [u]) = (case thinking_tokens_from_usage u of Some n \<Rightarrow> Some n | None \<Rightarrow> reported_thinking us)"
  by (cases "thinking_tokens_from_usage u") (simp_all add: reported_thinking_def map_filter_append map_filter_simps)

definition figures :: "json list \<Rightarrow> sse_translator \<Rightarrow> bool" where
  "figures us t \<longleftrightarrow>
     at_input_tokens t = reported ''input_tokens'' us \<and> at_cache_read t = reported ''cache_read_input_tokens'' us
     \<and> at_output_tokens t = reported ''output_tokens'' us \<and> at_thinking_tokens t = reported_thinking us
     \<and> at_saw_usage t = (us \<noteq> [])"

lemma figures_new: "figures [] new_translator"
  by (simp add: figures_def new_translator_def reported_def reported_thinking_def map_filter_simps)

lemma figures_absorb: "figures us t \<Longrightarrow> figures (us @ filter is_object [u]) (absorb_usage u t)"
  by (auto simp: figures_def absorb_usage_def reported_snoc reported_thinking_snoc split: option.split)

lemma snd_translate_event:
  "snd (translate_event v t)
    = (if event_is ''content_block_start'' v then snd (block_started v t) else absorb_usage (usage_of_event v) t)"
proof -
  have "absorb_usage JNull t = t" by (simp add: absorb_usage_def is_object_def)
  then show ?thesis
    by (cases "as_str (jget v ''type'')") (auto simp: translate_event_def event_is_def usage_of_event_def Let_def)
qed

lemma figures_step:
  assumes "figures (usages evs) t"
  shows "figures (usages (evs @ [v])) (snd (translate_event v t))"
proof (cases "event_is ''content_block_start'' v")
  case True
  then have "usages (evs @ [v]) = usages evs"
    by (simp add: usages_def usage_of_event_def event_is_def is_object_def)
  then show ?thesis using assms True by (simp add: snd_translate_event figures_def block_started_def Let_def)
next
  case False
  have "usages (evs @ [v]) = usages evs @ filter is_object [usage_of_event v]" by (simp add: usages_def)
  then show ?thesis using figures_absorb [OF assms] False by (simp add: snd_translate_event)
qed

lemma reported_u32: "reported k us < 2 ^ 32"
  by (simp add: reported_def Let_def as_u32_def)

lemma reported_thinking_u32: "reported_thinking us = Some n \<Longrightarrow> as_u32 n = n"
proof -
  assume "reported_thinking us = Some n"
  then have "n \<in> set (List.map_filter thinking_tokens_from_usage us)"
    using last_in_set by (auto simp: reported_thinking_def Let_def split: if_splits)
  then show "as_u32 n = n" by (auto simp: map_filter_def thinking_tokens_from_usage_def as_u32_def)
qed

section \<open>The whole stream\<close>

lemma told_events:
  assumes "events_ok evs"
  shows "\<exists>ds t. translate_events evs new_translator = (map Chunk ds, t) \<and> list_all clean_chunk ds
    \<and> told evs t (fold take_chunk ds chat_new) \<and> figures (usages evs) t"
  using assms
proof (induction evs rule: rev_induct)
  case Nil
  show ?case using told_new figures_new by (intro exI [of _ "[]"]) (simp add: usages_def)
next
  case (snoc v evs)
  then obtain ds t where ih: "translate_events evs new_translator = (map Chunk ds, t)" "list_all clean_chunk ds"
    "told evs t (fold take_chunk ds chat_new)" "figures (usages evs) t" by auto
  have ok: "events_ok evs" "event_ok evs v" using snoc.prems by simp_all
  note fig = figures_step [OF ih(4), of v]
  show ?case
  proof (cases rule: told_step [OF ih(3) ok])
    case 1
    then show ?thesis using ih fig
      by (intro exI [of _ ds] exI [of _ "snd (translate_event v t)"])
        (simp add: translate_events_append split_beta prod_eq_iff)
  next
    case (2 d)
    then show ?thesis using ih fig
      by (intro exI [of _ "ds @ [d]"] exI [of _ "snd (translate_event v t)"])
        (simp add: translate_events_append split_beta prod_eq_iff del: take_chunk_fields)
  qed
qed

lemma rest_is_silent:
  "list_all (\<lambda>v. event_is ''message_stop'' v \<or> event_is ''ping'' v) rest \<Longrightarrow> translate_events rest t = ([], t)"
  by (induction rest) (auto simp: translate_event_def event_is_def)

lemma final_usage_reads:
  "is_object (final_usage t)"
  "jget (final_usage t) ''prompt_tokens'' = jnat (as_u32 (at_input_tokens t + at_cache_read t))"
  "jget (final_usage t) ''completion_tokens'' = jnat (at_output_tokens t)"
  "jget (jget (final_usage t) ''prompt_tokens_details'') ''cached_tokens'' = jnat (at_cache_read t)"
  "jget (jget (final_usage t) ''completion_tokens_details'') ''reasoning_tokens'' = jopt jnat (at_thinking_tokens t)"
  by (cases "at_thinking_tokens t";
      simp add: final_usage_def Let_def put_some_def put_def jobj_def is_object_def jget_obj map_of_bt_insert
        map_of_bt_from_list jopt_def)+

lemma take_final_chunk:
  assumes "at_saw_usage t"
  shows "take_chunk (final_chunk v t) c = c\<lparr>cc_usage := Some (final_usage t),
    cc_finish_reason := Some (if as_str (jget (jget v ''delta'') ''stop_reason'') = Some ''tool_use'' then ''tool_calls'' else ''stop'')\<rparr>"
    and "clean_chunk (final_chunk v t)"
proof -
  let ?fin = "if as_str (jget (jget v ''delta'') ''stop_reason'') = Some ''tool_use'' then ''tool_calls'' else ''stop''"
  have reads: "jget (final_chunk v t) ''usage'' = final_usage t" "jget_opt (final_chunk v t) ''error'' = None"
    "jget (final_chunk v t) ''choices'' = JArr [jobj [(''index'', jnat 0), (''delta'', jobj []), (''finish_reason'', JStr ?fin)]]"
    using assms by (simp_all add: final_chunk_def Let_def stream_chunk_def put_def jobj_def jget_obj jget_opt_def
        map_of_bt_insert map_of_bt_from_list)
  show "take_chunk (final_chunk v t) c = c\<lparr>cc_usage := Some (final_usage t), cc_finish_reason := Some ?fin\<rparr>"
    by (simp add: take_chunk_def reads note_usage_def final_usage_reads(1) take_choice_def Let_def jget_jobj str_or_null)
  show "clean_chunk (final_chunk v t)"
    by (simp add: clean_chunk_def chunk_error_def reads jget_jobj u64_or_0_def)
qed

definition emitted_value :: "emitted \<Rightarrow> json" where
  "emitted_value e = (case e of Chunk v \<Rightarrow> v | Final v \<Rightarrow> v)"

definition call_value :: "tool_call_acc \<Rightarrow> json" where
  "call_value a =
     jobj [(''id'', JStr (the (acc_id a))), (''type'', JStr ''function''),
           (''function'', jobj [(''name'', JStr (acc_name a)), (''arguments'', JStr (acc_arguments a))])]"

definition streamed_calls :: "json list \<Rightarrow> json option" where
  "streamed_calls evs =
     (if tool_starts evs = [] then None else Some (JArr (map (call_value \<circ> acc_of evs) (tool_starts evs))))"

lemma start_ids: "events_ok evs \<Longrightarrow> s \<in> set (tool_starts evs) \<Longrightarrow> acc_id (acc_of evs' s) \<noteq> None"
  by (induction evs rule: rev_induct) (auto simp: event_ok_def acc_of_def Let_def split: if_splits)

lemma call_list_ids: "\<forall>a \<in> set as. acc_id a \<noteq> None \<Longrightarrow> call_list as = Some (map call_value as)"
  by (induction as) (auto simp: call_json_def call_value_def)

lemma streamed_calls_assembled:
  assumes "events_ok evs"
  shows "assembled_calls (zip [0..<length (tool_starts evs)] (map (acc_of evs) (tool_starts evs))) = Some (streamed_calls evs)"
proof -
  have "call_list (map (acc_of evs) (tool_starts evs)) = Some (map call_value (map (acc_of evs) (tool_starts evs)))"
    by (rule call_list_ids) (use start_ids [OF assms] in auto)
  then show ?thesis by (auto simp: assembled_calls_def streamed_calls_def)
qed

text \<open>The answer the events of a message give, in the shape of a plain call.\<close>

definition streamed_result :: "json list \<Rightarrow> json \<Rightarrow> completion_result" where
  "streamed_result evs fin =
     (let us = usages (evs @ [fin])
      in \<lparr>content = concat (map delta_text evs),
          prompt_tokens = as_u32 (reported ''input_tokens'' us + reported ''cache_read_input_tokens'' us),
          completion_tokens = reported ''output_tokens'' us,
          finish_reason = (if as_str (jget (jget fin ''delta'') ''stop_reason'') = Some ''tool_use'' then ''tool_calls'' else ''stop''),
          cache_read_tokens = reported ''cache_read_input_tokens'' us, cache_write_tokens = 0,
          reasoning_tokens = reported_thinking us, ttft_ms = None, tool_calls = streamed_calls evs\<rparr>)"

lemma captured_events:
  assumes ok: "events_ok evs" and fin: "event_is ''message_delta'' fin" and us: "usages (evs @ [fin]) \<noteq> []"
    and w: "list_all (wire_ok P pr) (map emitted_value (fst (translate_events (evs @ [fin]) new_translator)))"
  shows "chat_finish (chat_feed P (concat (map (emitted_text pr) (fst (translate_events (evs @ [fin]) new_translator)))) chat_new)
    = Some (streamed_result evs fin)"
proof -
  from told_events [OF ok] obtain ds t where t: "translate_events evs new_translator = (map Chunk ds, t)"
    "list_all clean_chunk ds" "told evs t (fold take_chunk ds chat_new)" "figures (usages evs) t" by blast
  let ?t = "absorb_usage (jget fin ''usage'') t"
  have e: "translate_event fin t = (Some (Final (final_chunk fin ?t)), ?t)"
    using fin by (simp add: translate_event_def event_is_def Let_def)
  then have all: "fst (translate_events (evs @ [fin]) new_translator) = map Chunk ds @ [Final (final_chunk fin ?t)]"
    by (simp add: translate_events_append t(1))
  have fig: "figures (usages (evs @ [fin])) ?t" using figures_step [OF t(4), of fin] e by simp
  then have saw: "at_saw_usage ?t" using us by (simp add: figures_def)
  let ?vs = "ds @ [final_chunk fin ?t]"
  have vs: "list_all (wire_ok P pr) ?vs" "list_all clean_chunk ?vs"
    using w t(2) take_final_chunk(2) [OF saw] by (simp_all add: all emitted_value_def comp_def)
  have printed: "concat (map (emitted_text pr) (map Chunk ds @ [Final (final_chunk fin ?t)]))
      = concat (map (sse_event pr) ?vs) @ done_event"
    by (simp add: emitted_text_def comp_def)
  let ?c = "fold take_chunk ds chat_new"
  have flags: "\<not> cc_unusable ?c" by (simp add: chat_new_def)
  have re: "map_option as_u32 (as_u64 (jopt jnat (reported_thinking us))) = reported_thinking us" for us
    using reported_thinking_u32 [of us] by (cases "reported_thinking us") (simp_all add: jopt_def)
  have small: "as_u32 (reported k us) = reported k us" for k us by (rule as_u32_id [OF reported_u32])
  have twice: "as_u32 (as_u32 n) = as_u32 n" for n by (rule as_u32_id [OF as_u32_bound])
  show ?thesis
    unfolding all printed chat_feed_events [OF vs]
    by (rule trans [OF chat_finish_built [where u = "final_usage ?t" and r = "streamed_result evs fin"]])
      (use t(3) fig flags streamed_calls_assembled [OF ok] in
        \<open>simp_all add: take_final_chunk(1) [OF saw] has_partial_line_def final_usage_reads streamed_result_def Let_def
          told_def figures_def re small twice u64_or_0_def del: fold_take_chunk_fields\<close>)
qed

text \<open>
  C14. A streamed Claude answer is captured as what its events say. However the network cuts the provider's
  event stream, the translated stream read back by the router's capture is one result: the text of the text
  deltas, every tool call with its id, name and collected arguments in the order the blocks were opened, and
  the last figures reported for input, cache and output.
\<close>

theorem streamed_answer_is_captured:
  assumes "events_ok evs" and "event_is ''message_delta'' fin" and "usages (evs @ [fin]) \<noteq> []"
    and "list_all (\<lambda>v. event_is ''message_stop'' v \<or> event_is ''ping'' v) rest"
    and "list_all (\<lambda>e. wire_ok parse pr e \<and> jtype e \<in> set event_types) (evs @ fin # rest)"
    and "list_all (wire_ok parse pr) (map emitted_value (fst (translate_events (evs @ [fin]) new_translator)))"
    and "concat cs = concat (map (named_event pr) (evs @ fin # rest))"
  shows "\<exists>outs. translate_sse_stream parse pr new_translator [] (map Inr cs) = map Inr outs
    \<and> chat_finish (fold (chat_feed parse) outs chat_new) = Some (streamed_result evs fin)"
proof -
  let ?all = "evs @ fin # rest"
  obtain outs where outs: "translate_sse_stream parse pr new_translator [] (map Inr cs) = map Inr outs"
    "concat outs = fst (translate_lines parse pr (fst (sse_push [] (concat cs))) new_translator)" "length outs = length cs"
    using stream_is_translation [of "[]" parse pr new_translator cs] by auto
  have lines: "fst (sse_push [] (concat cs)) = concat (map (\<lambda>e. [''event: '' @ jtype e, ''data: '' @ pr e, []]) ?all)"
    unfolding assms(7) by (simp only: sse_push_all_named [OF assms(5)] fst_conv)
  have p: "list_all (\<lambda>e. parse (pr e) = Some e) ?all" using assms(5) by (auto simp: list_all_iff wire_ok_def)
  have tail: "fst (translate_events ?all new_translator) = fst (translate_events (evs @ [fin]) new_translator)"
    using translate_events_append [of "evs @ [fin]" rest new_translator] rest_is_silent [OF assms(4)]
    by (simp add: split_beta Let_def)
  have whole: "concat outs = concat (map (emitted_text pr) (fst (translate_events (evs @ [fin]) new_translator)))"
    unfolding outs(2) lines translate_named_lines [OF p] tail [symmetric] by (simp add: apfst_def map_prod_def split_beta)
  have "concat cs \<noteq> []" unfolding assms(7) by (simp add: named_event_def)
  then have "outs \<noteq> []" using outs(3) by auto
  then have "fold (chat_feed parse) outs chat_new = chat_feed parse (concat outs) chat_new" by (rule chat_feed_chunking)
  then show ?thesis
    using outs(1) captured_events [OF assms(1-3,6)] by (auto simp: whole)
qed

definition sample_message_events :: "json list" where
  "sample_message_events =
     [jobj [(''type'', JStr ''message_start''), (''message'', jobj [(''usage'', jobj [(''input_tokens'', jnat 3)])])],
      jobj [(''type'', JStr ''content_block_delta''), (''index'', jnat 0),
            (''delta'', jobj [(''type'', JStr ''text_delta''), (''text'', JStr ''hi'')])],
      jobj [(''type'', JStr ''content_block_start''), (''index'', jnat 1),
            (''content_block'', jobj [(''type'', JStr ''tool_use''), (''id'', JStr ''t1''), (''name'', JStr ''look'')])],
      jobj [(''type'', JStr ''content_block_delta''), (''index'', jnat 1),
            (''delta'', jobj [(''type'', JStr ''input_json_delta''), (''partial_json'', JStr ''{}'')])]]"

definition sample_message_end :: json where
  "sample_message_end =
     jobj [(''type'', JStr ''message_delta''), (''delta'', jobj [(''stop_reason'', JStr ''tool_use'')]),
           (''usage'', jobj [(''output_tokens'', jnat 5)])]"

definition sample_stream_table :: "(string \<times> json) list" where
  "sample_stream_table =
     zip [''{1}'', ''{2}'', ''{3}'', ''{4}'', ''{5}'', ''{6}'', ''{7}'', ''{8}'', ''{9}'']
       (sample_message_events @ [sample_message_end]
        @ map emitted_value (fst (translate_events (sample_message_events @ [sample_message_end]) new_translator)))"

definition sample_stream_parse :: "string \<Rightarrow> json option" where
  "sample_stream_parse = map_of sample_stream_table"

definition sample_stream_print :: "json \<Rightarrow> string" where
  "sample_stream_print v = (case filter (\<lambda>p. snd p = v) sample_stream_table of p # _ \<Rightarrow> fst p | [] \<Rightarrow> ''{}'')"

definition sample_stream_wire :: string where
  "sample_stream_wire = concat (map (named_event sample_stream_print) (sample_message_events @ [sample_message_end]))"

theorem streamed_answer_is_captured_witness:
  "\<exists>outs. translate_sse_stream sample_stream_parse sample_stream_print new_translator []
       (map Inr [take 50 sample_stream_wire, drop 50 sample_stream_wire]) = map Inr outs
    \<and> chat_finish (fold (chat_feed sample_stream_parse) outs chat_new)
      = Some (streamed_result sample_message_events sample_message_end)"
proof (rule streamed_answer_is_captured [where rest = "[]"])
  show "events_ok sample_message_events" by code_simp
  show "event_is ''message_delta'' sample_message_end" by code_simp
  show "usages (sample_message_events @ [sample_message_end]) \<noteq> []" by code_simp
  show "list_all (\<lambda>e. wire_ok sample_stream_parse sample_stream_print e \<and> jtype e \<in> set event_types)
      (sample_message_events @ [sample_message_end])" by code_simp
  show "list_all (wire_ok sample_stream_parse sample_stream_print)
      (map emitted_value (fst (translate_events (sample_message_events @ [sample_message_end]) new_translator)))"
    by code_simp
  show "concat [take 50 sample_stream_wire, drop 50 sample_stream_wire]
      = concat (map (named_event sample_stream_print) (sample_message_events @ [sample_message_end]))"
    by (simp only: concat.simps append_Nil2 append_take_drop_id sample_stream_wire_def)
qed simp

end
