(* ===== verification/Provider_Registry.thy ===== *)
theory Provider_Registry
  imports Openai_Compat
begin

text \<open>
  The registry of provider adapters (\<open>src/src/providers/registry.rs\<close>): which adapter a provider name gets,
  built on first use and kept. The adapters of Azure, Vertex, Foundry and Bedrock are constructors given as
  parameters; whether the last three are compiled in is a switch each.
\<close>

record provider_config =
  pc_settings :: provider_settings
  pc_generic_chat :: bool

text \<open>The adapters by name; the list is in the iteration order of the map.\<close>

record 'w provider_registry =
  rg_adapters :: "(string \<times> 'w adapter) list"
  rg_configs :: "string \<Rightarrow> provider_config option"
  rg_tier_timeouts :: tier_timeouts

record 'w registry_build =
  rb_vertex :: bool
  rb_bedrock :: bool
  rb_foundry :: bool
  rb_new_azure :: "provider_config \<Rightarrow> tier_timeouts \<Rightarrow> anyhow + 'w adapter"
  rb_new_vertex :: "provider_config \<Rightarrow> tier_timeouts \<Rightarrow> anyhow + 'w adapter"
  rb_new_foundry :: "provider_config \<Rightarrow> tier_timeouts \<Rightarrow> anyhow + 'w adapter"
  rb_new_bedrock :: "provider_config \<Rightarrow> 'w adapter"
  rb_http :: "'w http_send"
  rb_parse :: "string \<Rightarrow> json option"
  rb_print :: "json \<Rightarrow> string"

definition new_registry :: "(string \<Rightarrow> provider_config option) \<Rightarrow> tier_timeouts \<Rightarrow> 'w provider_registry" where
  "new_registry configs tiers = \<lparr>rg_adapters = [], rg_configs = configs, rg_tier_timeouts = tiers\<rparr>"

definition unknown_provider_msg :: "string \<Rightarrow> string" where
  "unknown_provider_msg name = ''Unknown provider: '' @ name"

definition not_generic_msg :: "string \<Rightarrow> string" where
  "not_generic_msg name =
     ''Unknown provider: '' @ name @ '' (configured, but not enabled for /v1/chat/completions)''"

definition without_feature_msg :: "string \<Rightarrow> string" where
  "without_feature_msg name =
     ''provider '' @ [CHR 0x22] @ name @ [CHR 0x22] @ '' is configured, but this binary was built without the `''
       @ name @ ''` cargo feature '' @ [CHR 0xE2, CHR 0x80, CHR 0x94]
       @ '' rebuild with `cargo build --release --features '' @ name @ ''`''"

text \<open>The adapter for a configured name that has none yet.\<close>

definition build_adapter ::
  "'w registry_build \<Rightarrow> tier_timeouts \<Rightarrow> string \<Rightarrow> provider_config \<Rightarrow> anyhow + 'w adapter" where
  "build_adapter b tiers name cfg =
     (if name = ''vertex'' \<and> \<not> rb_vertex b \<or> name = ''bedrock'' \<and> \<not> rb_bedrock b \<or> name = ''foundry'' \<and> \<not> rb_foundry b
      then Inl (error_msg (without_feature_msg name))
      else if name = ''anthropic''
      then Inr (anthropic_adapter (rb_http b) (rb_parse b) (rb_print b) (new_anthropic (pc_settings cfg) tiers))
      else if name = ''azure'' then rb_new_azure b cfg tiers
      else if name = ''vertex'' then rb_new_vertex b cfg tiers
      else if name = ''foundry'' then rb_new_foundry b cfg tiers
      else if name = ''bedrock'' then Inr (rb_new_bedrock b cfg)
      else if \<not> pc_generic_chat cfg then Inl (error_msg (not_generic_msg name))
      else Inr (openai_adapter (rb_http b) (rb_parse b) (new_openai_compat (pc_settings cfg) tiers)))"

definition registry_get ::
  "'w registry_build \<Rightarrow> string \<Rightarrow> 'w provider_registry \<Rightarrow> (anyhow + 'w adapter) \<times> 'w provider_registry" where
  "registry_get b name rg =
     (case map_of (rg_adapters rg) name of
        Some ad \<Rightarrow> (Inr ad, rg)
      | None \<Rightarrow>
          if rg_configs rg = Map.empty \<and> rg_adapters rg \<noteq> [] then (Inr (snd (hd (rg_adapters rg))), rg)
          else case rg_configs rg name of
                 None \<Rightarrow> (Inl (error_msg (unknown_provider_msg name)), rg)
               | Some cfg \<Rightarrow>
                   (case build_adapter b (rg_tier_timeouts rg) name cfg of
                      Inl e \<Rightarrow> (Inl e, rg)
                    | Inr ad \<Rightarrow> (Inr ad, rg\<lparr>rg_adapters := (name, ad) # rg_adapters rg\<rparr>)))"

text \<open>The registry of the other theories: a function of the name.\<close>

definition registry_of :: "'w registry_build \<Rightarrow> 'w provider_registry \<Rightarrow> 'w registry" where
  "registry_of b rg name = fst (registry_get b name rg)"

section \<open>What a name gets\<close>

definition registry_ok :: "'w registry_build \<Rightarrow> 'w provider_registry \<Rightarrow> bool" where
  "registry_ok b rg \<longleftrightarrow>
     (\<forall>name ad. map_of (rg_adapters rg) name = Some ad \<longrightarrow>
        (\<exists>cfg. rg_configs rg name = Some cfg \<and> build_adapter b (rg_tier_timeouts rg) name cfg = Inr ad))"

lemma registry_ok_new: "registry_ok b (new_registry configs tiers)"
  by (simp add: registry_ok_def new_registry_def)

lemma registry_get_frame:
  "rg_configs (snd (registry_get b name rg)) = rg_configs rg"
  "rg_tier_timeouts (snd (registry_get b name rg)) = rg_tier_timeouts rg"
  by (auto simp: registry_get_def split: option.split sum.split)

text \<open>In a registry that only \<open>get\<close> has filled, the cache is invisible.\<close>

lemma registry_get_built:
  assumes "registry_ok b rg"
  shows "fst (registry_get b name rg)
    = (case rg_configs rg name of
         None \<Rightarrow> Inl (error_msg (unknown_provider_msg name))
       | Some cfg \<Rightarrow> build_adapter b (rg_tier_timeouts rg) name cfg)"
proof (cases "map_of (rg_adapters rg) name")
  case (Some ad)
  with assms obtain cfg where "rg_configs rg name = Some cfg" "build_adapter b (rg_tier_timeouts rg) name cfg = Inr ad"
    by (auto simp: registry_ok_def)
  with Some show ?thesis by (simp add: registry_get_def)
next
  case None
  have "rg_adapters rg = []" if "rg_configs rg = Map.empty"
  proof (rule ccontr)
    assume "rg_adapters rg \<noteq> []"
    then obtain n ad rest where "rg_adapters rg = (n, ad) # rest" by (metis list.exhaust surj_pair)
    then have "map_of (rg_adapters rg) n = Some ad" by simp
    with assms that show False by (auto simp: registry_ok_def)
  qed
  with None show ?thesis by (auto simp: registry_get_def split: option.split sum.split)
qed

lemma registry_ok_get: "registry_ok b rg \<Longrightarrow> registry_ok b (snd (registry_get b name rg))"
  by (auto simp: registry_ok_def registry_get_def split: option.split sum.split if_splits)

fun get_all :: "'w registry_build \<Rightarrow> string list \<Rightarrow> 'w provider_registry \<Rightarrow> 'w provider_registry" where
  "get_all b [] rg = rg"
| "get_all b (n # ns) rg = get_all b ns (snd (registry_get b n rg))"

lemma get_all_ok: "registry_ok b rg \<Longrightarrow> registry_ok b (get_all b ns rg) \<and> rg_configs (get_all b ns rg) = rg_configs rg
    \<and> rg_tier_timeouts (get_all b ns rg) = rg_tier_timeouts rg"
  by (induction ns arbitrary: rg) (auto simp: registry_ok_get registry_get_frame)

text \<open>
  A name gets the same adapter for good, and never a stranger's. Whatever lookups came before, in whatever
  order, a name is answered from its own configuration alone; a provider that is not configured, that needs a
  feature the binary lacks, or that is configured for a dedicated route only is refused, so that no request of
  its is sent to the OpenAI-compatible default; and \<open>anthropic\<close> is the Anthropic adapter.
\<close>

theorem registry_answers_from_configuration:
  "case rg_configs (new_registry configs tiers) name of
     None \<Rightarrow> registry_of b (get_all b ns (new_registry configs tiers)) name = Inl (error_msg (unknown_provider_msg name))
   | Some cfg \<Rightarrow>
       registry_of b (get_all b ns (new_registry configs tiers)) name
         = (if name = ''vertex'' \<and> \<not> rb_vertex b \<or> name = ''bedrock'' \<and> \<not> rb_bedrock b \<or> name = ''foundry'' \<and> \<not> rb_foundry b
            then Inl (error_msg (without_feature_msg name))
            else if name \<in> {''azure'', ''vertex'', ''foundry'', ''bedrock''}
            then build_adapter b tiers name cfg
            else if name = ''anthropic''
            then Inr (anthropic_adapter (rb_http b) (rb_parse b) (rb_print b) (new_anthropic (pc_settings cfg) tiers))
            else if pc_generic_chat cfg
            then Inr (openai_adapter (rb_http b) (rb_parse b) (new_openai_compat (pc_settings cfg) tiers))
            else Inl (error_msg (not_generic_msg name)))"
proof -
  let ?rg = "get_all b ns (new_registry configs tiers)"
  have ok: "registry_ok b ?rg" "rg_configs ?rg = configs" "rg_tier_timeouts ?rg = tiers"
    using get_all_ok [OF registry_ok_new [of b configs tiers], of ns] by (simp_all add: new_registry_def)
  have get: "registry_of b ?rg name
      = (case configs name of None \<Rightarrow> Inl (error_msg (unknown_provider_msg name)) | Some cfg \<Rightarrow> build_adapter b tiers name cfg)"
    unfolding registry_of_def registry_get_built [OF ok(1)] ok(2,3) ..
  have c: "rg_configs (new_registry configs tiers) = configs" by (simp add: new_registry_def)
  show ?thesis
  proof (cases "configs name")
    case None
    then show ?thesis by (simp add: c get)
  next
    case (Some cfg)
    show ?thesis unfolding c get Some option.case by (simp add: build_adapter_def)
  qed
qed

end
