(* ===== verification/Messages_Route.thy ===== *)
theory Messages_Route
  imports Chat_Completions Messages_Replay Anthropic_Adapter
begin

text \<open>
  \<open>POST /v1/messages\<close> (\<open>src/src/api/routes/messages.rs\<close>): the native Anthropic surface. The caller's body is
  passed on to Anthropic with the resolved model, the answer is passed back, and what is spent is booked by
  tasks of its own. A handler that panics is \<open>None\<close>.
\<close>

section \<open>What is logged\<close>

record message_log =
  ml_user_id :: int
  ml_api_key_id :: "int option"
  ml_project :: "string option"
  ml_user_name :: string
  ml_model :: string
  ml_canonical_model :: string
  ml_messages_json :: string
  ml_response :: "string option"
  ml_finish_reason :: "string option"
  ml_prompt_tokens :: nat
  ml_completion_tokens :: nat
  ml_cache_read_tokens :: nat
  ml_cache_write_tokens :: nat
  ml_attribution :: attribution

definition anthropic_name :: string where
  "anthropic_name = ''anthropic''"

definition message_prompt :: "(json \<Rightarrow> string) \<Rightarrow> message_log \<Rightarrow> rat \<Rightarrow> int \<Rightarrow> new_prompt" where
  "message_prompt pr l cost latency =
     \<lparr>np_user_id = ml_user_id l, np_session_id = None, np_request_model = ml_model l,
      np_routed_model = ml_canonical_model l, np_provider = anthropic_name, np_messages = ml_messages_json l,
      np_response = ml_response l, np_finish_reason = ml_finish_reason l,
      np_prompt_tokens = int (ml_prompt_tokens l), np_completion_tokens = int (ml_completion_tokens l),
      np_cache_read_tokens = int (ml_cache_read_tokens l), np_cache_write_tokens = int (ml_cache_write_tokens l),
      np_cost_usd = cost, np_latency_ms = Some latency, np_ttft_ms = None, np_attempts = None, np_tags = ''[]'',
      np_project = ml_project l, np_correlation_id = at_correlation_id (ml_attribution l),
      np_attribution_tags = tags_json pr (ml_attribution l), np_experiment_id = None, np_experiment_variant = None\<rparr>"

definition message_ledger :: "(json \<Rightarrow> string) \<Rightarrow> message_log \<Rightarrow> rat \<Rightarrow> int option \<Rightarrow> new_ledger_entry" where
  "message_ledger pr l cost prompt =
     \<lparr>ne_user_id = ml_user_id l, ne_prompt_id = prompt, ne_model = ml_canonical_model l,
      ne_provider = anthropic_name, ne_project = ml_project l, ne_tokens_in = int (ml_prompt_tokens l),
      ne_tokens_out = int (ml_completion_tokens l), ne_cost_usd = cost, ne_api_key_id = ml_api_key_id l,
      ne_correlation_id = at_correlation_id (ml_attribution l), ne_attribution_tags = tags_json pr (ml_attribution l),
      ne_experiment_id = None, ne_experiment_variant = None, ne_tokens_estimated = False\<rparr>"

text \<open>The optional prompt row; what fails is logged and dropped.\<close>

definition store_message_prompt ::
  "(json \<Rightarrow> string) \<Rightarrow> storage_config \<Rightarrow> string \<Rightarrow> message_log \<Rightarrow> rat \<Rightarrow> int \<Rightarrow> accounting \<Rightarrow> int option \<times> accounting" where
  "store_message_prompt pr live now l cost latency b =
     (case apply_storage_policy live (message_prompt pr l cost latency) of
        None \<Rightarrow> (None, b)
      | Some p \<Rightarrow>
          (case create_prompt now (ab_prompts b) p of
             (Inr saved, prompts) \<Rightarrow> (Some (pr_id saved), b\<lparr>ab_prompts := prompts\<rparr>)
           | (Inl e, prompts) \<Rightarrow> (None, b\<lparr>ab_prompts := prompts\<rparr>)))"

definition message_sent_hooks :: "lifecycle_hook list \<Rightarrow> message_log \<Rightarrow> rat \<Rightarrow> int \<Rightarrow> accounting \<Rightarrow> accounting" where
  "message_sent_hooks hooks l cost latency b =
     fire_all
       (map (\<lambda>h. (h, response_sent_payload (ml_user_name l) (ml_model l) (ml_canonical_model l) cost latency))
            (hooks_for hooks ''on_response_sent''))
       b"

definition log_messages_cost ::
  "(json \<Rightarrow> string) \<Rightarrow> storage_config \<Rightarrow> lifecycle_hook list \<Rightarrow> string \<Rightarrow> message_log \<Rightarrow> rat \<Rightarrow> int \<Rightarrow> accounting \<Rightarrow> accounting" where
  "log_messages_cost pr live hooks now l cost latency b =
     (let (prompt, b) = store_message_prompt pr live now l cost latency b;
          b = book_cost now (message_ledger pr l cost prompt) b
      in message_sent_hooks hooks l cost latency b)"

definition message_event ::
  "(string \<Rightarrow> json option) \<Rightarrow> int option \<Rightarrow> message_log \<Rightarrow> rat \<Rightarrow> int \<Rightarrow> callback_event" where
  "message_event parse stored l cost latency =
     \<lparr>ce_trace_id = (case stored of Some i \<Rightarrow> show_int i | None \<Rightarrow> ''0''), ce_user_id = ml_user_id l,
      ce_model = ml_canonical_model l, ce_provider_name = anthropic_name,
      ce_input = (case parse (ml_messages_json l) of Some v \<Rightarrow> v | None \<Rightarrow> JNull),
      ce_output = (case ml_response l of Some r \<Rightarrow> r | None \<Rightarrow> []), ce_prompt_tokens = ml_prompt_tokens l,
      ce_completion_tokens = ml_completion_tokens l, ce_cost_usd = cost, ce_latency_ms = latency\<rparr>"

text \<open>The task of a plain answer: the same rows, and an event for the observability backends.\<close>

definition log_plain_message ::
  "(string \<Rightarrow> json option) \<Rightarrow> (json \<Rightarrow> string) \<Rightarrow> storage_config \<Rightarrow> lifecycle_hook list \<Rightarrow> string \<Rightarrow> message_log
     \<Rightarrow> rat \<Rightarrow> int \<Rightarrow> accounting \<Rightarrow> accounting" where
  "log_plain_message parse pr live hooks now l cost latency b =
     (let (prompt, b) = store_message_prompt pr live now l cost latency b;
          b = book_cost now (message_ledger pr l cost prompt) b;
          b = b\<lparr>ab_callbacks := ab_callbacks b @ [redact_callback_content live (message_event parse prompt l cost latency)]\<rparr>
      in message_sent_hooks hooks l cost latency b)"

section \<open>Environment and state\<close>

datatype messages_task =
    LogMessage message_log rat int
  | LogStreamedMessage message_log nat

record 'w messages_env =
  mv_chat :: "'w chat_env"
  mv_anthropic :: "provider_settings option"
  mv_tier_timeouts :: tier_timeouts
  mv_http :: "'w http_send"

record 'w messages_state =
  mg_chat :: "'w chat_state"
  mg_tasks :: "messages_task list"

text \<open>A JSON body, a replayed event stream, or a stream to be relayed while a capture reads along.\<close>

datatype messages_response =
    MessageBody json "string option"
  | MessageReplay string string
  | MessageStream "(string + string) list" "string option" "string option"

definition on_chat :: "('w chat_state \<Rightarrow> 'w chat_state) \<Rightarrow> 'w messages_state \<Rightarrow> 'w messages_state" where
  "on_chat f s = s\<lparr>mg_chat := f (mg_chat s)\<rparr>"

section \<open>The upstream request\<close>

text \<open>
  \<open>upstream["model"] = ..\<close> panics on a body that is neither an object nor null; looking at
  \<open>upstream["messages"]\<close> mutably enters a missing key as null.
\<close>

definition build_upstream_body :: "json \<Rightarrow> string \<Rightarrow> json option" where
  "build_upstream_body body canonical =
     Option.bind (jset body ''model'' (JStr canonical)) (\<lambda>u.
       jset u ''messages''
         (case jget u ''messages'' of JArr ms \<Rightarrow> JArr (translate_native_messages ms) | v \<Rightarrow> v))"

definition trim_end_slashes :: "string \<Rightarrow> string" where
  "trim_end_slashes s = rev (dropWhile (\<lambda>c. c = CHR ''/'') (rev s))"

definition upstream_call :: "provider_settings \<Rightarrow> tier_timeouts \<Rightarrow> string \<Rightarrow> json \<Rightarrow> http_call" where
  "upstream_call cfg tiers model upstream =
     \<lparr>hc_url = trim_end_slashes (case pv_api_base cfg of Some b \<Rightarrow> b | None \<Rightarrow> ''https://api.anthropic.com'')
                 @ ''/v1/messages'',
      hc_headers = [(''x-api-key'', pv_api_key cfg), (''anthropic-version'', ''2023-06-01''),
                    (''content-type'', ''application/json'')],
      hc_timeout_secs = resolve_timeout tiers model (pv_timeout_secs cfg), hc_body = upstream\<rparr>"

text \<open>The circuit, the call, and what its outcome does to the circuit.\<close>

definition call_anthropic ::
  "'w messages_env \<Rightarrow> http_call \<Rightarrow> 'w chat_state \<Rightarrow> (api_error + http_reply) \<times> 'w chat_state" where
  "call_anthropic mv call s =
     (let env = mv_chat mv; breaker = (\<lambda>s. gw_breaker (ch_gateway s));
          (opened, cb) = is_open (millis_now env s) (breaker s) anthropic_name;
          s = set_breaker cb s
      in if opened then (Inl (ProviderError (error_msg ''circuit breaker open for anthropic'')), s)
         else let (r, w) = mv_http mv call (world_of s); s = set_world w s
              in case r of
                   Inl e \<Rightarrow>
                     (Inl (ProviderError (error_msg e)),
                      set_breaker (record_failure (millis_now env s) (breaker s) anthropic_name) s)
                 | Inr reply \<Rightarrow>
                     if is_success reply
                     then (Inr reply, set_breaker (record_success (breaker s) anthropic_name) s)
                     else (Inl (ProviderError (error_msg
                             (''Anthropic API error '' @ show_nat (hr_status reply) @ '': ''
                              @ (case hr_text reply of Some t \<Rightarrow> t | None \<Rightarrow> ''upstream error'')))),
                           set_breaker
                             (record_upstream_status (millis_now env s) (breaker s) anthropic_name (hr_status reply)) s))"

section \<open>Routing and the cache\<close>

text \<open>The provider of a pool entry or of an alias is resolved and checked, but the call goes to Anthropic.\<close>

definition messages_pair :: "string \<Rightarrow> 'w chat_state \<Rightarrow> (api_error + string \<times> string) \<times> 'w chat_state" where
  "messages_pair model s =
     (let r = router_of s;
          (choice, lb) = resolve_available (ch_balancer s) model (\<lambda>pm. router_is_available r (fst pm) (snd pm));
          s = s\<lparr>ch_balancer := lb\<rparr>
      in case choice of
           Some pm \<Rightarrow> (Inr pm, s)
         | None \<Rightarrow>
             if is_pool lb model then (Inl (Disabled (pool_disabled_msg model)), s)
             else (Inr (resolve r model), s))"

record messages_call =
  mc_user :: user
  mc_attribution :: attribution
  mc_directives :: cache_directives
  mc_requested_body :: json
  mc_dispatched :: string
  mc_stream :: bool

definition message_hit_context :: "'w chat_env \<Rightarrow> messages_call \<Rightarrow> string \<Rightarrow> rat \<Rightarrow> cache_hit_ctx" where
  "message_hit_context env c canonical avoided =
     \<lparr>hx_user_id = user_id (mc_user c), hx_api_key_id = user_api_key_id (mc_user c),
      hx_user_project = project_or (mc_attribution c) (api_key_project (mc_user c)),
      hx_request_model = mc_dispatched c, hx_canonical_model = canonical, hx_provider = anthropic_name,
      hx_messages_json = messages_json env (mc_requested_body c), hx_avoided_cost = avoided, hx_skip_log = False,
      hx_attribution = mc_attribution c\<rparr>"

definition serve_cached_message ::
  "'w chat_env \<Rightarrow> messages_call \<Rightarrow> string \<Rightarrow> json \<Rightarrow> 'w chat_state \<Rightarrow> (messages_response \<times> 'w chat_state) option" where
  "serve_cached_message env c canonical message s =
     (let usage = message_as_completion message;
          (avoided, calc) = calculate_with_cache (ch_calc s) canonical (prompt_tokens usage) (completion_tokens usage)
            (cache_read_tokens usage) (cache_write_tokens usage);
          s = s\<lparr>ch_calc := calc, ch_tasks := ch_tasks s @ [LogHit (message_hit_context env c canonical avoided) usage]\<rparr>;
          (u, w) = ev_uuid env (world_of s); s = set_world w s
      in Option.bind (jset message ''id'' (JStr (''msg_mr_'' @ u))) (\<lambda>m.
           if mc_stream c
           then map_option (\<lambda>sse. (MessageReplay sse ''HIT'', s)) (messages_replay_sse (ev_print env) m)
           else Some (MessageBody m (Some ''HIT''), s)))"

definition messages_plan :: "'w chat_env \<Rightarrow> messages_call \<Rightarrow> string \<Rightarrow> 'w chat_state \<Rightarrow> cache_plan" where
  "messages_plan env c canonical s =
     (if cache_enabled (gc_policy (ev_gateway env)) (mc_user c) canonical
      then completion_plan (ch_cache s) (mode (mc_directives c)) (mc_requested_body c)
      else Skip)"

section \<open>Answers\<close>

definition log_of_call :: "'w chat_env \<Rightarrow> messages_call \<Rightarrow> string \<Rightarrow> message_log" where
  "log_of_call env c canonical =
     \<lparr>ml_user_id = user_id (mc_user c), ml_api_key_id = user_api_key_id (mc_user c), ml_project = None,
      ml_user_name = user_name (mc_user c), ml_model = mc_dispatched c, ml_canonical_model = canonical,
      ml_messages_json = messages_json env (mc_requested_body c), ml_response = None, ml_finish_reason = None,
      ml_prompt_tokens = 0, ml_completion_tokens = 0, ml_cache_read_tokens = 0, ml_cache_write_tokens = 0,
      ml_attribution = mc_attribution c\<rparr>"

text \<open>A plain answer is priced by its own usage, stored, logged and returned as it came.\<close>

definition plain_message_log :: "'w chat_env \<Rightarrow> messages_call \<Rightarrow> string \<Rightarrow> json \<Rightarrow> message_log" where
  "plain_message_log env c canonical answer =
     (let tokens = (\<lambda>k. as_u32 (u64_or_0 (jget (jget answer ''usage'') k)))
      in (log_of_call env c canonical)
           \<lparr>ml_project := api_key_project (mc_user c), ml_response := Some (ev_print env answer),
            ml_finish_reason := Some (str_or ''end_turn'' (jget answer ''stop_reason'')),
            ml_prompt_tokens := tokens ''input_tokens'', ml_completion_tokens := tokens ''output_tokens'',
            ml_cache_read_tokens := tokens ''cache_read_input_tokens'',
            ml_cache_write_tokens := tokens ''cache_creation_input_tokens''\<rparr>)"

definition answer_message ::
  "'w chat_env \<Rightarrow> messages_call \<Rightarrow> string \<Rightarrow> cache_plan \<Rightarrow> string option \<Rightarrow> int \<Rightarrow> json \<Rightarrow> 'w messages_state
     \<Rightarrow> messages_response \<times> 'w messages_state" where
  "answer_message env c canonical plan key latency answer s =
     (let l = plain_message_log env c canonical answer;
          (cost, calc) = calculate_with_cache (ch_calc (mg_chat s)) canonical (ml_prompt_tokens l)
            (ml_completion_tokens l) (ml_cache_read_tokens l) (ml_cache_write_tokens l);
          store = (\<lambda>cs. case key of
             None \<Rightarrow> cs
           | Some k \<Rightarrow> cs\<lparr>ch_cache := put_message (int (unix_now env cs)) (ch_cache cs) k canonical answer cost (mc_directives c)\<rparr>);
          s = on_chat (\<lambda>cs. store (cs\<lparr>ch_calc := calc\<rparr>)) s
      in (MessageBody answer (miss_header plan), s\<lparr>mg_tasks := mg_tasks s @ [LogMessage l cost latency]\<rparr>))"

text \<open>A stream is booked by an estimate of the prompt, nothing of the answer.\<close>

definition stream_message_log :: "'w chat_env \<Rightarrow> messages_call \<Rightarrow> string \<Rightarrow> message_log" where
  "stream_message_log env c canonical =
     (log_of_call env c canonical)
       \<lparr>ml_project := project_or (mc_attribution c) (api_key_project (mc_user c)),
        ml_prompt_tokens := as_u32 (char_count (messages_json env (mc_requested_body c)) div 4)\<rparr>"

definition dispatch_message ::
  "'w messages_env \<Rightarrow> messages_call \<Rightarrow> string \<Rightarrow> cache_plan \<Rightarrow> string option \<Rightarrow> 'w messages_state
     \<Rightarrow> ((api_error + messages_response) \<times> 'w messages_state) option" where
  "dispatch_message mv c canonical plan key s =
     (let env = mv_chat mv
      in case mv_anthropic mv of
           None \<Rightarrow> Some (Inl (ProviderError (error_msg (''No '' @ quoted ''anthropic'' @ '' provider configured''))), s)
         | Some cfg \<Rightarrow>
             Option.bind (build_upstream_body (mc_requested_body c) canonical) (\<lambda>upstream.
             let start = millis_now env (mg_chat s);
                 (r, cs) = call_anthropic mv (upstream_call cfg (mv_tier_timeouts mv) (mc_dispatched c) upstream) (mg_chat s);
                 s = s\<lparr>mg_chat := cs\<rparr>
             in case r of
                  Inl e \<Rightarrow> Some (Inl e, s)
                | Inr reply \<Rightarrow>
                    if mc_stream c
                    then Some (Inr (MessageStream (hr_chunks reply) key (miss_header plan)),
                               s\<lparr>mg_tasks := mg_tasks s @ [LogStreamedMessage (stream_message_log env c canonical) start]\<rparr>)
                    else case Option.bind (hr_text reply) (ev_parse env) of
                           None \<Rightarrow> Some (Inl (ProviderError (error_msg (hr_decode_error reply))), s)
                         | Some answer \<Rightarrow>
                             Some (apfst Inr (answer_message env c canonical plan key
                                     (int (millis_now env cs - start)) answer s))))"

definition serve_message ::
  "'w messages_env \<Rightarrow> messages_call \<Rightarrow> string \<Rightarrow> 'w messages_state
     \<Rightarrow> ((api_error + messages_response) \<times> 'w messages_state) option" where
  "serve_message mv c canonical s =
     (let env = mv_chat mv; plan = messages_plan env c canonical (mg_chat s);
          key = (if plan_store plan
                 then Some (messages_cache_key (ev_sha env) (ev_print env) canonical (mc_requested_body c)) else None)
      in case (if plan_lookup plan then key else None) of
           None \<Rightarrow> dispatch_message mv c canonical plan key s
         | Some k \<Rightarrow>
             (let (found, rc) = get_message (int (unix_now env (mg_chat s))) (ch_cache (mg_chat s)) k canonical (mc_directives c);
                  s = on_chat (\<lambda>cs. cs\<lparr>ch_cache := rc\<rparr>) s
              in case found of
                   None \<Rightarrow> dispatch_message mv c canonical plan key s
                 | Some message \<Rightarrow>
                     map_option (\<lambda>(resp, cs). (Inr resp, s\<lparr>mg_chat := cs\<rparr>))
                       (serve_cached_message env c canonical message (mg_chat s))))"

section \<open>The handler\<close>

definition read_message_request :: "'w chat_env \<Rightarrow> user \<Rightarrow> headers \<Rightarrow> json \<Rightarrow> 'w chat_state \<Rightarrow> api_error + messages_call" where
  "read_message_request env u hs body s =
     (case reject_header hs of
        Inl e \<Rightarrow> Inl (bind_error_response e)
      | Inr _ \<Rightarrow>
          (case directives_from_headers hs of
             Inl m \<Rightarrow> Inl (InvalidRequest m)
           | Inr d \<Rightarrow>
               (case attribution_error (attribution_extract (ev_parse env) (ev_print env) body hs) of
                  Inl e \<Rightarrow> Inl e
                | Inr a \<Rightarrow>
                    Inr \<lparr>mc_user = u, mc_attribution = a, mc_directives = d, mc_requested_body = body,
                         mc_dispatched = maybe_downgrade (ev_complexity env)
                           (case as_str (jget body ''model'') of
                              Some m \<Rightarrow> m | None \<Rightarrow> default_model (routing (router_of s)))
                           (messages_of body),
                         mc_stream = wants_stream body\<rparr>)))"

definition route_message :: "messages_call \<Rightarrow> 'w chat_state \<Rightarrow> (api_error + string) \<times> 'w chat_state" where
  "route_message c s =
     then_ok (messages_pair (mc_dispatched c) s) (\<lambda>pm s.
     then_ok (just (disabled_gate pm s) s) (\<lambda>_ s. (Inr (snd pm), s)))"

definition route_and_serve ::
  "'w messages_env \<Rightarrow> messages_call \<Rightarrow> 'w messages_state \<Rightarrow> ((api_error + messages_response) \<times> 'w messages_state) option" where
  "route_and_serve mv c s =
     (case route_message c (mg_chat s) of
        (Inl e, cs) \<Rightarrow> Some (Inl e, s\<lparr>mg_chat := cs\<rparr>)
      | (Inr canonical, cs) \<Rightarrow> serve_message mv c canonical (s\<lparr>mg_chat := cs\<rparr>))"

definition anthropic_messages ::
  "'w messages_env \<Rightarrow> user \<Rightarrow> headers \<Rightarrow> json \<Rightarrow> 'w messages_state
     \<Rightarrow> ((api_error + messages_response) \<times> 'w messages_state) option" where
  "anthropic_messages mv u hs body s =
     (let env = mv_chat mv
      in case read_message_request env u hs body (mg_chat s) of
           Inl e \<Rightarrow> Some (Inl e, s)
         | Inr c \<Rightarrow>
             (case enforce_policy env u (mc_dispatched c) (mg_chat s) of
                (Inl e, cs) \<Rightarrow> Some (Inl e, s\<lparr>mg_chat := cs\<rparr>)
              | (Inr held, cs) \<Rightarrow>
                  map_option (apsnd (on_chat (release_if held u))) (route_and_serve mv c (s\<lparr>mg_chat := cs\<rparr>))))"

section \<open>What runs afterwards\<close>

text \<open>The relayed stream: every chunk is passed on; a capture that reaches its end is handed over once.\<close>

fun relay_message ::
  "(string \<Rightarrow> json option) \<Rightarrow> messages_capture option \<Rightarrow> (string + string) list
     \<Rightarrow> ((string + string) list \<times> messages_capture option) option" where
  "relay_message parse cap [] = Some ([], None)"
| "relay_message parse cap (Inl e # xs) = map_option (apfst ((#) (Inl e))) (relay_message parse None xs)"
| "relay_message parse None (Inr b # xs) = map_option (apfst ((#) (Inr b))) (relay_message parse None xs)"
| "relay_message parse (Some cap) (Inr b # xs) =
     Option.bind (messages_feed parse b cap) (\<lambda>cap.
       if ms_done cap
       then map_option (\<lambda>(outs, _). (Inr b # outs, Some cap)) (relay_message parse None xs)
       else map_option (apfst ((#) (Inr b))) (relay_message parse (Some cap) xs))"

definition store_streamed_message ::
  "'w chat_env \<Rightarrow> string \<Rightarrow> string \<Rightarrow> messages_capture \<Rightarrow> cache_directives \<Rightarrow> 'w chat_state \<Rightarrow> 'w chat_state option" where
  "store_streamed_message env key canonical cap d s =
     (case messages_finish (ev_parse env) cap of
        Panicked \<Rightarrow> None
      | Refused \<Rightarrow> Some s
      | Fine message \<Rightarrow>
          (let usage = message_as_completion message;
               (cost, calc) = calculate_with_cache (ch_calc s) canonical (prompt_tokens usage) (completion_tokens usage)
                 (cache_read_tokens usage) (cache_write_tokens usage)
           in Some (s\<lparr>ch_calc := calc,
                      ch_cache := put_message (int (unix_now env s)) (ch_cache s) key canonical message cost d\<rparr>)))"

definition run_messages_task ::
  "'w chat_env \<Rightarrow> string \<Rightarrow> nat \<Rightarrow> messages_task \<Rightarrow> cost_calculator \<times> accounting \<Rightarrow> cost_calculator \<times> accounting" where
  "run_messages_task env now now_ms t cb =
     (case t of
        LogMessage l cost latency \<Rightarrow>
          (fst cb, log_plain_message (ev_parse env) (ev_print env) (ev_storage env) (ev_lifecycle env) now l cost latency (snd cb))
      | LogStreamedMessage l start \<Rightarrow>
          (let (cost, calc) = calculate (fst cb) (ml_canonical_model l) (ml_prompt_tokens l) 0
           in (calc, log_messages_cost (ev_print env) (ev_storage env) (ev_lifecycle env) now l cost
                       (int (now_ms - start)) (snd cb))))"

end
