(* ===== verification/Chat_Properties.thy ===== *)
theory Chat_Properties
  imports Chat_Completions
begin

text \<open>
  What holds of a whole chat request: what a refusal leaves alone, which pair an answer may come from,
  what a request bound to an experiment never touches, that what the caller is told is what is booked,
  and that a failure is recorded once.
\<close>

section \<open>Steps\<close>

lemma then_ok_simps [simp]: "then_ok (Inl e, s) k = (Inl e, s)" "then_ok (Inr a, s) k = k a s"
  by (simp_all add: then_ok_def)

lemma then_ok_just [simp]: "then_ok (just r s) k = (case r of Inl e \<Rightarrow> (Inl e, s) | Inr a \<Rightarrow> k a s)"
  by (simp add: just_def then_ok_def split: sum.split)

lemma then_ok_split:
  "P (then_ok rs k) \<longleftrightarrow> (\<forall>e s. rs = (Inl e, s) \<longrightarrow> P (Inl e, s)) \<and> (\<forall>a s. rs = (Inr a, s) \<longrightarrow> P (k a s))"
  by (cases rs; cases "fst rs") (auto simp: then_ok_def)

section \<open>What the gates and the routing leave alone\<close>

text \<open>
  \<open>later s s'\<close>: no row was written apart from rate counters, the routing is as it was, and no permit
  changed hands.
\<close>

definition later :: "'w chat_state \<Rightarrow> 'w chat_state \<Rightarrow> bool" where
  "later s s' \<longleftrightarrow>
     cost_ledger (ab_db (ch_books s')) = cost_ledger (ab_db (ch_books s))
     \<and> ab_prompts (ch_books s') = ab_prompts (ch_books s) \<and> ab_failures (ch_books s') = ab_failures (ch_books s)
     \<and> ab_callbacks (ch_books s') = ab_callbacks (ch_books s)"

text \<open>What the gates change of the rest: limiter, hook metrics, world, balancer, affinity.\<close>

definition same_service :: "'w chat_state \<Rightarrow> 'w chat_state \<Rightarrow> bool" where
  "same_service s s' \<longleftrightarrow>
     router_of s' = router_of s \<and> gw_breaker (ch_gateway s') = gw_breaker (ch_gateway s)
     \<and> ch_cache s' = ch_cache s \<and> ch_calc s' = ch_calc s \<and> ch_tasks s' = ch_tasks s"

definition same_adaptive :: "'w chat_state \<Rightarrow> 'w chat_state \<Rightarrow> bool" where
  "same_adaptive s s' \<longleftrightarrow>
     ch_balancer s' = ch_balancer s \<and> ch_affinity s' = ch_affinity s \<and> ch_cache s' = ch_cache s"

lemmas frame_defs = later_def same_service_def same_adaptive_def router_of_def set_world_def fire_hooks_def

lemma frames_refl [simp]: "later s s" "same_service s s" "same_adaptive s s"
  by (simp_all add: frame_defs)

lemma frames_trans:
  "later a b \<Longrightarrow> later b c \<Longrightarrow> later a c"
  "same_service a b \<Longrightarrow> same_service b c \<Longrightarrow> same_service a c"
  "same_adaptive a b \<Longrightarrow> same_adaptive b c \<Longrightarrow> same_adaptive a c"
  by (simp_all add: frame_defs)

lemma rules_loop_rows: "same_rows db (snd (rules_loop parse pe u model rs mn db))"
proof (induction rs arbitrary: mn db)
  case (Cons r rs)
  have rl: "same_rows db (snd (check_rate_limit pe u r db))"
    by (auto simp: check_rate_limit_def same_rows_def increment_and_get_count_def Let_def
        split: option.splits prod.splits sum.splits if_splits)
  show ?case
    using rl Cons.IH by (auto intro: same_rows_trans split: option.splits prod.splits sum.splits)
qed simp

lemma policy_check_rows: "same_rows db (snd (policy_check parse pe db u model))"
proof -
  have "same_rows db (snd (rules_loop parse pe u model rules None db))" for rules by (rule rules_loop_rows)
  then show ?thesis
    by (auto simp: policy_check_def split: sum.splits option.splits prod.splits) (metis snd_conv)+
qed

lemma fire_hooks_frame: "later s (fire_hooks fs s)" "same_service s (fire_hooks fs s)" "same_adaptive s (fire_hooks fs s)"
  "ch_concurrency (fire_hooks fs s) = ch_concurrency s" "ab_db (ch_books (fire_hooks fs s)) = ab_db (ch_books s)"
  "ch_gateway (fire_hooks fs s) = ch_gateway s" "ch_sessions (fire_hooks fs s) = ch_sessions s"
  "ch_hooks (fire_hooks fs s) = ch_hooks s"
  by (simp_all add: frame_defs)

text \<open>What the policy gate does, from the decision.\<close>

lemma enforce_policy_frame:
  assumes "enforce_policy env u model s = (r, s')"
  shows "later s s'" and "same_service s s'" and "same_adaptive s s'" and "ch_gateway s' = ch_gateway s"
    and "ch_sessions s' = ch_sessions s" and "ch_hooks s' = ch_hooks s"
proof -
  obtain d db where d: "policy_check (gc_parse_list (ev_gateway env)) (gc_policy (ev_gateway env))
      (ab_db (ch_books s)) u model = (d, db)" by fastforce
  have rows: "cost_ledger db = cost_ledger (ab_db (ch_books s))"
    using policy_check_rows [of "ab_db (ch_books s)" "gc_parse_list (ev_gateway env)" "gc_policy (ev_gateway env)" u model] d
    by (simp add: same_rows_def)
  from assms d rows
  show "later s s'" and "same_service s s'" and "same_adaptive s s'" and "ch_gateway s' = ch_gateway s"
    and "ch_sessions s' = ch_sessions s" and "ch_hooks s' = ch_hooks s"
    by (auto simp: enforce_policy_def frame_defs Let_def split: sum.splits policy_decision.splits option.splits prod.splits if_splits)
qed

lemma session_gate_frame:
  assumes "session_gate env body s = (r, s')"
  shows "later s s'" and "same_service s s'" and "same_adaptive s s'" and "ch_concurrency s' = ch_concurrency s"
  using assms by (auto simp: session_gate_def frame_defs split: option.splits prod.splits)

lemma request_guardrails_frame:
  assumes "request_guardrails env ctx s = (r, s')"
  shows "later s s'" and "same_service s s'" and "same_adaptive s s'" and "ch_concurrency s' = ch_concurrency s"
  using assms by (auto simp: request_guardrails_def frame_defs Let_def split: prod.splits)

lemma pre_request_hooks_frame:
  assumes "pre_request_hooks env u body s = (r, s')"
  shows "later s s'" and "same_service s s'" and "same_adaptive s s'" and "ch_concurrency s' = ch_concurrency s"
  using assms by (auto simp: pre_request_hooks_def frame_defs Let_def split: prod.splits)

lemma resolve_provider_frame:
  assumes "resolve_provider_and_model bound model s = (r, s')"
  shows "later s s'" and "same_service s s'" and "ch_concurrency s' = ch_concurrency s"
    and "ch_affinity s' = ch_affinity s" and "bound \<Longrightarrow> same_adaptive s s' \<and> (\<forall>pm. r = Inr pm \<longrightarrow> pm = resolve (router_of s) model)"
  using assms
  by (auto simp: resolve_provider_and_model_def frame_defs Let_def split: option.splits prod.splits sum.splits if_splits)

lemma affinity_frame:
  assumes "apply_session_affinity env hs sid pm s = (pm', s')"
  shows "later s s'" and "same_service s s'" and "ch_concurrency s' = ch_concurrency s"
    and "sid = None \<Longrightarrow> s' = s" and "pm' = pm"
  using assms
  by (auto simp: apply_session_affinity_def frame_defs resolve_with_pin_eq Let_def
      split: option.splits prod.splits if_splits)

text \<open>
  Routing: what it lets through is available and can carry the tools; for a bound request it is the
  resolved pin, and nothing adaptive was consulted.
\<close>

lemma route_facts:
  assumes "route env c body s = (r, s')"
  shows "later s s'" and "same_service s s'" and "ch_concurrency s' = ch_concurrency s"
    and "cl_bound c \<Longrightarrow> same_adaptive s s' \<and> (\<forall>pm. r = Inr pm \<longrightarrow> pm = resolve (router_of s) (cl_model c))"
    and "r = Inr pm \<Longrightarrow> router_is_available (router_of s) (fst pm) (snd pm)
      \<and> (request_has_tools body \<longrightarrow> candidate_forwards_tools (wo_registry (ev_ops env)) (fst pm) (snd pm))"
proof -
  obtain r1 s1 where 1: "resolve_provider_and_model (cl_bound c) (cl_model c) s = (r1, s1)" by fastforce
  note f1 = resolve_provider_frame [OF 1]
  have "later s s' \<and> same_service s s' \<and> ch_concurrency s' = ch_concurrency s
    \<and> (cl_bound c \<longrightarrow> same_adaptive s s' \<and> (\<forall>pm. r = Inr pm \<longrightarrow> pm = resolve (router_of s) (cl_model c)))
    \<and> (\<forall>pm. r = Inr pm \<longrightarrow> router_is_available (router_of s) (fst pm) (snd pm)
      \<and> (request_has_tools body \<longrightarrow> candidate_forwards_tools (wo_registry (ev_ops env)) (fst pm) (snd pm)))"
  proof (cases r1)
    case (Inl e)
    with assms 1 f1 show ?thesis by (auto simp: route_def)
  next
    case (Inr q)
    let ?sid = "if cl_bound c then None else as_str (jget body ''session_id'')"
    obtain pm s2 where 2: "apply_session_affinity env (cl_headers c) ?sid q s1 = (pm, s2)" by fastforce
    note f2 = affinity_frame [OF 2]
    have s': "s' = s2" using assms 1 2 Inr by (auto simp: route_def Let_def split: sum.splits)
    have rt: "router_of s2 = router_of s" using f1(2) f2(2) by (simp add: same_service_def)
    have ok: "r = Inr p \<Longrightarrow> p = q \<and> disabled_gate q s2 = Inr () \<and>
        ensure_tools_supported (wo_registry (ev_ops env)) body (fst q) (snd q) = Inr ()" for p
      using assms 1 2 Inr f2(5) by (auto simp: route_def Let_def split: sum.splits)
    have "disabled_gate q s2 = Inr () \<Longrightarrow> router_is_available (router_of s) (fst q) (snd q)"
      by (auto simp: disabled_gate_def rt router_is_available_def check_available_def is_available_def split: sum.splits)
    moreover have "ensure_tools_supported (wo_registry (ev_ops env)) body (fst q) (snd q) = Inr () \<Longrightarrow>
        request_has_tools body \<Longrightarrow> candidate_forwards_tools (wo_registry (ev_ops env)) (fst q) (snd q)"
      by (auto simp: ensure_tools_supported_def candidate_forwards_tools_def split: sum.splits if_splits)
    moreover have "cl_bound c \<Longrightarrow> s2 = s1" using f2(4) by simp
    ultimately show ?thesis
      using ok s' f1 f2(1-3) Inr frames_trans(1) [of s s1 s2] frames_trans(2) [of s s1 s2] by auto
  qed
  then show "later s s'" and "same_service s s'" and "ch_concurrency s' = ch_concurrency s"
    and "cl_bound c \<Longrightarrow> same_adaptive s s' \<and> (\<forall>pm. r = Inr pm \<longrightarrow> pm = resolve (router_of s) (cl_model c))"
    and "r = Inr pm \<Longrightarrow> router_is_available (router_of s) (fst pm) (snd pm)
      \<and> (request_has_tools body \<longrightarrow> candidate_forwards_tools (wo_registry (ev_ops env)) (fst pm) (snd pm))"
    by blast+
qed

lemma admit_facts:
  assumes "admit env c body s = (r, s')"
  shows "later s s' \<and> same_service s s' \<and> ch_concurrency s' = ch_concurrency s
    \<and> (cl_bound c \<longrightarrow> same_adaptive s s')
    \<and> (\<forall>body' pm. r = Inr (body', pm) \<longrightarrow>
         router_is_available (router_of s) (fst pm) (snd pm)
         \<and> (request_has_tools body' \<longrightarrow> candidate_forwards_tools (wo_registry (ev_ops env)) (fst pm) (snd pm))
         \<and> (cl_bound c \<longrightarrow> pm = resolve (router_of s) (cl_model c)))"
proof (cases "validate_tool_choice_requires_tools body")
  case (Inl e)
  with assms show ?thesis by (auto simp: admit_def)
next
  case (Inr u)
  obtain r1 s1 where 1: "session_gate env body s = (r1, s1)" by fastforce
  obtain r2 s2 where 2: "request_guardrails env (guard_context c body) s1 = (r2, s2)" by fastforce
  obtain r3 s3 where 3: "pre_request_hooks env (cl_user c) body s2 = (r3, s3)" by fastforce
  note f1 = session_gate_frame [OF 1] and f2 = request_guardrails_frame [OF 2] and f3 = pre_request_hooks_frame [OF 3]
  have f12: "later s s2 \<and> same_service s s2 \<and> same_adaptive s s2 \<and> ch_concurrency s2 = ch_concurrency s"
    using f1 f2 frames_trans by metis
  have f13: "later s s3 \<and> same_service s s3 \<and> same_adaptive s s3 \<and> ch_concurrency s3 = ch_concurrency s"
    using f12 f3 frames_trans by metis
  show ?thesis
  proof (cases r1)
    case e1: (Inl e)
    with assms Inr 1 f1 show ?thesis by (auto simp: admit_def)
  next
    case o1: (Inr u1)
    show ?thesis
    proof (cases r2)
      case e2: (Inl e)
      with assms Inr 1 2 o1 f12 show ?thesis by (auto simp: admit_def)
    next
      case o2: (Inr u2)
      show ?thesis
      proof (cases r3)
        case e3: (Inl e)
        with assms Inr 1 2 3 o1 o2 f13 show ?thesis by (auto simp: admit_def)
      next
        case o3: (Inr body')
        obtain r4 s4 where 4: "route env c body' s3 = (r4, s4)" by fastforce
        note f4 = route_facts [OF 4]
        have rs: "s' = s4 \<and> r = (case r4 of Inl e \<Rightarrow> Inl e | Inr pm \<Rightarrow> Inr (body', pm))"
          using assms Inr 1 2 3 4 o1 o2 o3 by (cases r4) (auto simp: admit_def)
        have rt: "router_of s3 = router_of s" using f13 by (simp add: same_service_def)
        have "later s s4" "same_service s s4" "ch_concurrency s4 = ch_concurrency s"
          "cl_bound c \<longrightarrow> same_adaptive s s4"
          using f13 f4(1-4) frames_trans by (metis, metis, metis, metis)
        then show ?thesis using rs f4(4,5) rt by (auto split: sum.splits)
      qed
    qed
  qed
qed

section \<open>What an answer says\<close>

text \<open>The pair an answer names.\<close>

definition answers_from :: "'w chat_env \<Rightarrow> chat_response \<Rightarrow> string \<times> string \<Rightarrow> bool" where
  "answers_from env resp pm \<longleftrightarrow>
     (case resp of
        PlainBody v h \<Rightarrow>
          jget (jget v ''x_router'') ''provider'' = JStr (fst pm) \<and> jget (jget v ''x_router'') ''model'' = JStr (snd pm)
      | Replay sse h \<Rightarrow>
          (\<exists>rid cached m t. replay_completion_stream (ev_print env) rid cached m t t = Some sse
             \<and> rm_provider m = fst pm \<and> rm_model m = snd pm)
      | LiveStream ctx yields h \<Rightarrow> sx_provider ctx = fst pm \<and> sx_canonical_model ctx = snd pm)"

text \<open>The figures of a body are those of the task that books it.\<close>

definition reports :: "json \<Rightarrow> chat_task \<Rightarrow> bool" where
  "reports v t \<longleftrightarrow>
     (let u = jget v ''usage''
      in case t of
           LogCompletion l \<Rightarrow>
             jget u ''cost_usd'' = jrat (lc_cost l) \<and> jget u ''saved_usd'' = JNull
             \<and> jget u ''prompt_tokens'' = jnat (lc_prompt_tokens l) \<and> jget u ''completion_tokens'' = jnat (lc_completion_tokens l)
             \<and> jget v ''model'' = JStr (lc_canonical_model l)
         | LogHit h r \<Rightarrow>
             jget u ''cost_usd'' = jrat 0 \<and> jget u ''saved_usd'' = jrat (hx_avoided_cost h)
             \<and> jget u ''prompt_tokens'' = jnat (prompt_tokens r) \<and> jget u ''completion_tokens'' = jnat (completion_tokens r)
             \<and> jget v ''model'' = JStr (hx_canonical_model h))"

definition booked :: "'w chat_state \<Rightarrow> 'w chat_state \<Rightarrow> chat_response \<Rightarrow> bool" where
  "booked s s' resp \<longleftrightarrow>
     (case resp of
        PlainBody v h \<Rightarrow> (\<exists>t. ch_tasks s' = ch_tasks s @ [t] \<and> reports v t)
      | Replay sse h \<Rightarrow> (\<exists>hit r. ch_tasks s' = ch_tasks s @ [LogHit hit r])
      | LiveStream ctx yields h \<Rightarrow> ch_tasks s' = ch_tasks s)"

lemma meta_value_reads:
  "jget (to_value m) ''provider'' = JStr (rm_provider m)" "jget (to_value m) ''model'' = JStr (rm_model m)"
  by (simp_all add: to_value_def jget_jobj split: option.split)

lemma openai_response_reads:
  assumes "build_openai_response rid r m = Some v" and "rm_tokens m = Some t"
  shows "openai_usage t (rm_cost m) = Some (jget v ''usage'')" and "jget v ''x_router'' = to_value m"
    and "jget v ''model'' = JStr (rm_model m)"
  using assms
  by (auto simp: build_openai_response_def attach_def bind_eq_Some_conv jobj_def jset_obj jget_obj
      map_of_bt_insert map_of_bt_from_list)

lemma openai_response_usage:
  assumes "build_openai_response rid r m = Some v" and "rm_tokens m = Some (completion_tokens_meta x)"
  shows "jget (jget v ''usage'') ''cost_usd'' = jrat (mc_cost_usd (rm_cost m))"
    and "jget (jget v ''usage'') ''saved_usd'' = jopt jrat (mc_saved_usd (rm_cost m))"
    and "jget (jget v ''usage'') ''prompt_tokens'' = jnat (prompt_tokens x)"
    and "jget (jget v ''usage'') ''completion_tokens'' = jnat (completion_tokens x)"
proof -
  obtain u where u: "openai_usage (completion_tokens_meta x) (rm_cost m) = Some u"
    "jget u ''cost_usd'' = jrat (mc_cost_usd (rm_cost m))" "jget u ''saved_usd'' = jopt jrat (mc_saved_usd (rm_cost m))"
    "jget u ''prompt_tokens'' = jnat (prompt_tokens x)" "jget u ''completion_tokens'' = jnat (completion_tokens x)"
    by (rule openai_usage_reads [of "completion_tokens_meta x" "rm_cost m"]) (simp add: meta_of_result)
  have "jget v ''usage'' = u" using openai_response_reads(1) [OF assms] u(1) by simp
  with u(2-5) show "jget (jget v ''usage'') ''cost_usd'' = jrat (mc_cost_usd (rm_cost m))"
    "jget (jget v ''usage'') ''saved_usd'' = jopt jrat (mc_saved_usd (rm_cost m))"
    "jget (jget v ''usage'') ''prompt_tokens'' = jnat (prompt_tokens x)"
    "jget (jget v ''usage'') ''completion_tokens'' = jnat (completion_tokens x)" by simp_all
qed

section \<open>The three ways to answer\<close>

lemma new_request_id_frame:
  assumes "new_request_id env s = (rid, s')"
  shows "later s s'" and "same_service s s'" and "same_adaptive s s'" and "ch_concurrency s' = ch_concurrency s"
  using assms by (auto simp: new_request_id_def frame_defs Let_def split: prod.splits)

lemma hit_facts:
  assumes "try_serve_cached_completion env c body pm k s = Some (x, s')"
  shows "later s s' \<and> ch_concurrency s' = ch_concurrency s \<and> router_of s' = router_of s"
    and "x = None \<Longrightarrow> same_service s (s'\<lparr>ch_cache := ch_cache s\<rparr>) \<and> ch_gateway s' = ch_gateway s"
    and "x = Some resp \<Longrightarrow> answers_from env resp pm \<and> booked s s' resp"
proof -
  obtain found rc where f: "get_completion (ev_result_of env) (int (unix_now env s)) (ch_cache s) k (snd pm)
      (cl_directives c) = (found, rc)" by fastforce
  let ?s1 = "s\<lparr>ch_cache := rc\<rparr>"
  have "later s s' \<and> ch_concurrency s' = ch_concurrency s \<and> router_of s' = router_of s
    \<and> (x = None \<longrightarrow> same_service s (s'\<lparr>ch_cache := ch_cache s\<rparr>) \<and> ch_gateway s' = ch_gateway s)
    \<and> (\<forall>resp. x = Some resp \<longrightarrow> answers_from env resp pm \<and> booked s s' resp)"
  proof (cases found)
    case None
    with assms f show ?thesis by (auto simp: try_serve_cached_completion_def frame_defs)
  next
    case (Some cached)
    obtain avoided calc where a: "calculate_with_cache (ch_calc ?s1) (snd pm) (prompt_tokens cached)
        (completion_tokens cached) (cache_read_tokens cached) (cache_write_tokens cached) = (avoided, calc)" by fastforce
    let ?h = "hit_context env c body pm avoided"
    let ?s2 = "?s1\<lparr>ch_calc := calc, ch_tasks := ch_tasks s @ [LogHit ?h cached]\<rparr>"
    obtain rid s3 where n: "new_request_id env ?s2 = (rid, s3)" by fastforce
    let ?m = "hit_meta env c body pm cached avoided s3"
    obtain resp where r: "hit_response env body rid cached ?m s3 = Some resp" "x = Some resp" "s' = s3"
      using assms f Some a n by (auto simp: try_serve_cached_completion_def Let_def)
    have fr: "later s s3" "ch_concurrency s3 = ch_concurrency s" "router_of s3 = router_of s"
      "ch_tasks s3 = ch_tasks s @ [LogHit ?h cached]"
      using new_request_id_frame [OF n] by (auto simp: frame_defs)
    have m: "rm_provider ?m = fst pm" "rm_model ?m = snd pm" "rm_tokens ?m = Some (completion_tokens_meta cached)"
      "rm_cost ?m = cost_of_hit avoided" by (simp_all add: hit_meta_def Let_def)
    have "answers_from env resp pm \<and> booked s s3 resp"
    proof (cases "wants_stream body")
      case True
      with r(1) obtain sse where "resp = Replay sse ''HIT''"
        "replay_completion_stream (ev_print env) rid cached ?m (int (unix_now env s3)) (int (unix_now env s3)) = Some sse"
        by (auto simp: hit_response_def)
      with m fr(4) show ?thesis by (auto simp: answers_from_def booked_def)
    next
      case False
      with r(1) obtain v where v: "resp = PlainBody v ''HIT''" "build_openai_response rid cached ?m = Some v"
        by (auto simp: hit_response_def)
      note reads = openai_response_reads [OF v(2) m(3)] openai_response_usage [OF v(2) m(3)]
      have "reports v (LogHit ?h cached)"
        using reads m by (simp add: reports_def cost_of_hit_def hit_context_def jopt_def)
      with v(1) reads(2) m fr(4) show ?thesis by (auto simp: answers_from_def booked_def meta_value_reads)
    qed
    with r fr show ?thesis by auto
  qed
  then show "later s s' \<and> ch_concurrency s' = ch_concurrency s \<and> router_of s' = router_of s"
    and "x = None \<Longrightarrow> same_service s (s'\<lparr>ch_cache := ch_cache s\<rparr>) \<and> ch_gateway s' = ch_gateway s"
    and "x = Some resp \<Longrightarrow> answers_from env resp pm \<and> booked s s' resp"
    by blast+
qed

text \<open>What a dispatch may do: fail with nothing booked, or answer from \<open>pm\<close> or a permitted substitute.\<close>

definition dispatched ::
  "'w chat_env \<Rightarrow> chat_call \<Rightarrow> string \<times> string \<Rightarrow> 'w chat_state \<Rightarrow> api_error + chat_response \<Rightarrow> 'w chat_state \<Rightarrow> bool" where
  "dispatched env c pm s r s' \<longleftrightarrow>
     later s s' \<and> ch_concurrency s' = ch_concurrency s
     \<and> (cl_bound c \<longrightarrow> ch_balancer s' = ch_balancer s \<and> ch_affinity s' = ch_affinity s)
     \<and> (case r of
          Inl e \<Rightarrow> ch_tasks s' = ch_tasks s
        | Inr resp \<Rightarrow>
            booked s s' resp
            \<and> (\<exists>q. answers_from env resp q
                 \<and> (q = pm \<or> \<not> cl_bound c \<and> router_is_available (router_of s) (fst q) (snd q))))"

lemmas state_setters = set_breaker_def set_learned_caps_def set_learned_def

lemma stream_call_frame:
  assumes "stream_call env ad req s = (r, s')"
  shows "later s s' \<and> ch_concurrency s' = ch_concurrency s \<and> ch_tasks s' = ch_tasks s \<and> same_adaptive s s'"
  using assms
  by (auto simp: stream_call_def frame_defs state_setters Let_def split: prod.splits sum.splits option.splits)

lemma serve_stream_facts:
  assumes "serve_stream env c body pm plan key req rid s = (r, s')"
  shows "dispatched env c pm s r s' \<and> same_adaptive s s'"
proof -
  obtain opened cb where b: "is_open (millis_now env s) (gw_breaker (ch_gateway s)) (fst pm) = (opened, cb)" by fastforce
  let ?s1 = "set_breaker cb s"
  have f1: "later s ?s1 \<and> ch_concurrency ?s1 = ch_concurrency s \<and> ch_tasks ?s1 = ch_tasks s \<and> same_adaptive s ?s1"
    by (simp add: frame_defs state_setters)
  show ?thesis
  proof (cases "opened \<or> isl (wo_registry (ev_ops env) (fst pm))")
    case True
    with assms b f1 show ?thesis
      by (auto simp: serve_stream_def Let_def dispatched_def same_adaptive_def split: sum.splits if_splits)
  next
    case False
    then obtain ad where ad: "wo_registry (ev_ops env) (fst pm) = Inr ad"
      by (cases "wo_registry (ev_ops env) (fst pm)") auto
    let ?s2 = "set_learned_caps (note_learned_temperature_strip (learned_of (ch_gateway ?s1)) body req) ?s1"
    obtain x s3 where x: "stream_call env ad req ?s2 = (x, s3)" by fastforce
    have "later s ?s2 \<and> ch_concurrency ?s2 = ch_concurrency s \<and> ch_tasks ?s2 = ch_tasks s \<and> same_adaptive s ?s2"
      using f1 by (simp add: frame_defs state_setters)
    with stream_call_frame [OF x]
    have f3: "later s s3 \<and> ch_concurrency s3 = ch_concurrency s \<and> ch_tasks s3 = ch_tasks s \<and> same_adaptive s s3"
      using frames_trans by metis
    have f4: "later s (set_breaker cb' s3) \<and> ch_concurrency (set_breaker cb' s3) = ch_concurrency s
        \<and> ch_tasks (set_breaker cb' s3) = ch_tasks s \<and> same_adaptive s (set_breaker cb' s3)" for cb'
      using f3 by (simp add: frame_defs state_setters)
    show ?thesis
      using assms b False ad x f4
      by (cases x) (auto simp: serve_stream_def Let_def dispatched_def answers_from_def booked_def live_context_def
          same_adaptive_def)
  qed
qed

lemma answer_plain_facts:
  assumes "answer_plain env c body gctx canonical plan key rid start po s = Some (r, s')"
  shows "later s s' \<and> ch_concurrency s' = ch_concurrency s
    \<and> ch_balancer s' = ch_balancer s \<and> ch_affinity s' = ch_affinity s \<and> (key = None \<longrightarrow> ch_cache s' = ch_cache s)
    \<and> (case r of
         Inl e \<Rightarrow> ch_tasks s' = ch_tasks s
       | Inr resp \<Rightarrow> booked s s' resp \<and> answers_from env resp (po_provider po, po_model po)
           \<and> (\<exists>v. resp = PlainBody v (case miss_header plan of Some h \<Rightarrow> h | None \<Rightarrow> ''MISS'')))"
proof -
  obtain d w where d: "check_response (ev_guardrails env) gctx (content (po_result po)) (world_of s) = (d, w)" by fastforce
  let ?s1 = "set_world w s"
  let ?r = "case d of GuardAllow \<Rightarrow> Inr (po_result po) | GuardBlock why \<Rightarrow> Inl (PolicyDenied why 400)
    | GuardReplace text \<Rightarrow> Inr ((po_result po)\<lparr>content := text\<rparr>)"
  show ?thesis
  proof (cases ?r)
    case (Inl e)
    with assms d show ?thesis by (auto simp: answer_plain_def Let_def frame_defs)
  next
    case (Inr x)
    let ?latency = "int (millis_now env ?s1 - start)"
    obtain cost calc where k: "calculate_with_cache (ch_calc ?s1) (po_model po) (prompt_tokens x)
        (completion_tokens x) (cache_read_tokens x) (cache_write_tokens x) = (cost, calc)" by fastforce
    let ?l = "completion_log_of env c body po x cost ?latency"
    let ?s2 = "?s1\<lparr>ch_calc := calc, ch_tasks := ch_tasks ?s1 @ [LogCompletion ?l]\<rparr>"
    let ?s3 = "store_answer env c key canonical x cost ?s2"
    let ?m = "plain_meta c po x cost ?latency (int (millis_now env ?s3 - cl_received c))"
    obtain v where v: "build_openai_response rid x ?m = Some v" "s' = ?s3"
      "r = Inr (PlainBody v (case miss_header plan of Some h \<Rightarrow> h | None \<Rightarrow> ''MISS''))"
      using assms d Inr k unfolding answer_plain_def by (auto simp: Let_def)
    have m: "rm_provider ?m = po_provider po" "rm_model ?m = po_model po"
      "rm_tokens ?m = Some (completion_tokens_meta x)" "rm_cost ?m = spent cost" by (simp_all add: plain_meta_def)
    have fr: "later s ?s3" "ch_concurrency ?s3 = ch_concurrency s" "ch_tasks ?s3 = ch_tasks s @ [LogCompletion ?l]"
      "ch_balancer ?s3 = ch_balancer s" "ch_affinity ?s3 = ch_affinity s" "key = None \<longrightarrow> ch_cache ?s3 = ch_cache s"
      by (simp_all add: store_answer_def frame_defs split: option.split)
    note reads = openai_response_reads [OF v(1) m(3)] openai_response_usage [OF v(1) m(3)]
    have "reports v (LogCompletion ?l)"
      using reads m by (simp add: reports_def spent_def completion_log_of_def jopt_def)
    with fr v(2,3) reads(2) m show ?thesis by (auto simp: booked_def answers_from_def meta_value_reads)
  qed
qed

lemma serve_plain_facts:
  assumes "serve_plain env c body gctx pm plan key rid s = Some (r, s')"
  shows "dispatched env c pm s r s' \<and> (key = None \<longrightarrow> ch_cache s' = ch_cache s)"
proof -
  obtain x g where x: "complete_with_retry_and_fallback (ev_ops env) (ev_gateway env) (ab_db (ch_books s)) (cl_user c) body
      (cl_bound c) pm (cl_model c) (ch_gateway s) = Some (x, g)"
    using assms by (auto simp: serve_plain_def bind_eq_Some_conv)
  let ?s1 = "s\<lparr>ch_gateway := g\<rparr>"
  have f1: "later s ?s1" by (simp add: later_def)
  have out: "case x of Inr out \<Rightarrow> outcome_ok (ev_ops env) (ev_gateway env) (router_of s) (ab_db (ch_books s)) (cl_user c)
      body (cl_bound c) (cl_model c) pm 0 out | Inl e \<Rightarrow> \<exists>err. e = ProviderError err"
    unfolding router_of_def by (rule failover_outcome [OF x [unfolded complete_with_retry_and_fallback_def]])
  show ?thesis
  proof (cases x)
    case (Inl e)
    with assms x show ?thesis by (auto simp: serve_plain_def Let_def dispatched_def later_def)
  next
    case (Inr po)
    with assms x have a: "answer_plain env c body gctx (snd pm) plan key rid (millis_now env s) po ?s1 = Some (r, s')"
      by (auto simp: serve_plain_def Let_def)
    note f2 = answer_plain_facts [OF a]
    have q: "(po_provider po, po_model po) = pm \<or> \<not> cl_bound c
        \<and> router_is_available (router_of s) (po_provider po) (po_model po)"
      using out Inr by (auto simp: outcome_ok_def candidate_ok_def Let_def split: if_splits)
    have "later s s'" using f1 f2 frames_trans(1) by blast
    then show ?thesis
      using f2 q by (auto simp: dispatched_def booked_def split: sum.splits chat_response.splits)
  qed
qed

lemma dispatched_from:
  assumes "dispatched env c pm s1 r s'" and "later s s1" and "ch_concurrency s1 = ch_concurrency s"
    and "ch_tasks s1 = ch_tasks s" and "router_of s1 = router_of s"
    and "cl_bound c \<Longrightarrow> ch_balancer s1 = ch_balancer s \<and> ch_affinity s1 = ch_affinity s"
  shows "dispatched env c pm s r s'"
  using assms frames_trans(1) [of s s1 s']
  by (auto simp: dispatched_def booked_def split: sum.splits chat_response.splits)

lemma dispatch_facts:
  assumes "dispatch env c body gctx pm plan key s = Some (r, s')"
  shows "dispatched env c pm s r s' \<and> (key = None \<longrightarrow> ch_cache s' = ch_cache s)"
proof -
  obtain rid s1 where n: "new_request_id env s = (rid, s1)" by fastforce
  note f = new_request_id_frame [OF n]
  have "dispatched env c pm s1 r s' \<and> (key = None \<longrightarrow> ch_cache s' = ch_cache s1)"
    using assms n serve_stream_facts [of env c body pm plan key "request_for env c body (snd pm) s" rid s1 r s']
      serve_plain_facts [of env c body gctx pm plan key rid s1 r s']
    by (cases "cl_stream c") (auto simp: dispatch_def Let_def same_adaptive_def)
  moreover have "dispatched env c pm s r s'" if "dispatched env c pm s1 r s'"
    by (rule dispatched_from [OF that]) (use f in \<open>simp_all add: frame_defs\<close>)
  ultimately show ?thesis using f(3) by (simp add: same_adaptive_def)
qed

lemma serve_facts:
  assumes "serve env c body gctx pm s = Some (r, s')"
  shows "dispatched env c pm s r s' \<and> (cl_bound c \<longrightarrow> ch_cache s' = ch_cache s)"
proof -
  let ?plan = "chat_cache_plan env c body (snd pm) s"
  let ?key = "chat_cache_key env ?plan body (snd pm)"
  have bound: "cl_bound c \<Longrightarrow> ?key = None" by (simp add: chat_cache_plan_def chat_cache_key_def plan_store_def)
  show ?thesis
  proof (cases "?key = None \<or> \<not> plan_lookup ?plan")
    case True
    with assms have "dispatch env c body gctx pm ?plan ?key s = Some (r, s')"
      by (auto simp: serve_def Let_def split: option.splits if_splits)
    from dispatch_facts [OF this] bound show ?thesis by simp
  next
    case False
    then obtain k where k: "?key = Some k" "plan_lookup ?plan" by auto
    with assms obtain x s1 where x: "try_serve_cached_completion env c body pm k s = Some (x, s1)"
      and rest: "case x of Some resp \<Rightarrow> r = Inr resp \<and> s' = s1
        | None \<Rightarrow> dispatch env c body gctx pm ?plan ?key s1 = Some (r, s')"
      by (auto simp: serve_def Let_def bind_eq_Some_conv split: option.splits)
    note f = hit_facts [OF x]
    have nb: "\<not> cl_bound c" using bound k by auto
    show ?thesis
    proof (cases x)
      case (Some resp)
      with rest have r: "r = Inr resp" "s' = s1" by simp_all
      have "booked s s1 resp \<and> (\<exists>q. answers_from env resp q
          \<and> (q = pm \<or> \<not> cl_bound c \<and> router_is_available (router_of s) (fst q) (snd q)))"
        using f(3) [OF Some] by blast
      with f(1) nb r show ?thesis by (simp add: dispatched_def)
    next
      case None
      with rest have "dispatch env c body gctx pm ?plan ?key s1 = Some (r, s')" by simp
      then have "dispatched env c pm s1 r s'" using dispatch_facts by blast
      then have "dispatched env c pm s r s'"
        by (rule dispatched_from) (use f(1) f(2) [OF None] nb in \<open>simp_all add: same_service_def\<close>)
      with nb show ?thesis by simp
    qed
  qed
qed

section \<open>The handler\<close>

lemma release_frame [simp]:
  "later s (release_if held u s') = later s s'" "same_adaptive s (release_if held u s') = same_adaptive s s'" "ch_tasks (release_if held u s) = ch_tasks s"
  "ch_gateway (release_if held u s) = ch_gateway s" "ch_books (release_if held u s) = ch_books s"
  "ch_balancer (release_if held u s) = ch_balancer s" "ch_affinity (release_if held u s) = ch_affinity s"
  "ch_cache (release_if held u s) = ch_cache s"
  by (simp_all add: release_if_def later_def same_adaptive_def)

lemma booked_release [simp]: "booked s (release_if held u s') resp = booked s s' resp"
  by (simp add: booked_def split: chat_response.split)

text \<open>What the whole handler does, for a request that was read as the call \<open>c\<close>.\<close>

lemma inner_facts:
  assumes "chat_completions_inner env u hs body s = Some (r, s')" and "read_request env u hs body s = Some (Inr c)"
  shows "later s s'"
    and "cl_bound c \<Longrightarrow> same_adaptive s s'"
    and "case r of Inl e \<Rightarrow> ch_tasks s' = ch_tasks s
      | Inr resp \<Rightarrow> booked s s' resp
          \<and> (\<exists>q. answers_from env resp q \<and> router_is_available (router_of s) (fst q) (snd q)
               \<and> (cl_bound c \<longrightarrow> q = resolve (router_of s) (cl_model c)))"
proof -
  let ?s1 = "fire_request_received_hooks env (user_name u) (cl_model c) body s"
  have f1: "later s ?s1" "same_service s ?s1" "same_adaptive s ?s1"
    unfolding fire_request_received_hooks_def by (rule fire_hooks_frame)+
  obtain p s2 where p: "enforce_policy env u (cl_model c) ?s1 = (p, s2)" by fastforce
  note f2 = enforce_policy_frame [OF p]
  have g2: "later s s2" "same_service s s2" "same_adaptive s s2" using f1 f2 frames_trans by metis+
  have "later s s' \<and> (cl_bound c \<longrightarrow> same_adaptive s s')
    \<and> (case r of Inl e \<Rightarrow> ch_tasks s' = ch_tasks s
      | Inr resp \<Rightarrow> booked s s' resp
          \<and> (\<exists>q. answers_from env resp q \<and> router_is_available (router_of s) (fst q) (snd q)
               \<and> (cl_bound c \<longrightarrow> q = resolve (router_of s) (cl_model c))))"
  proof (cases p)
    case (Inl e)
    with assms p have "r = Inl e" "s' = s2" by (auto simp: chat_completions_inner_def Let_def)
    with g2 show ?thesis by (simp add: same_service_def)
  next
    case (Inr held)
    with assms p obtain s3 where x: "admit_and_serve env c body s2 = Some (r, s3)" and s': "s' = release_if held u s3"
      by (auto simp: chat_completions_inner_def Let_def)
    obtain a s4 where a: "admit env c body s2 = (a, s4)" by fastforce
    note fa = admit_facts [OF a]
    have g4: "later s s4" "same_service s s4" "cl_bound c \<longrightarrow> same_adaptive s s4"
      using g2 fa frames_trans by (metis, metis, metis)
    have rt: "router_of s2 = router_of s" "router_of s4 = router_of s" "ch_tasks s4 = ch_tasks s"
      using g2(2) g4(2) by (simp_all add: same_service_def)
    show ?thesis
    proof (cases a)
      case (Inl e)
      with x a have "r = Inl e" "s3 = s4" by (auto simp: admit_and_serve_def)
      with g4 rt s' show ?thesis by (simp add: same_adaptive_def)
    next
      case q: (Inr bp)
      obtain body' pm where bp: "bp = (body', pm)" by (cases bp)
      with x a q have "serve env c body' (guard_context c body) pm s4 = Some (r, s3)" by (simp add: admit_and_serve_def)
      note fs = serve_facts [OF this]
      have av: "router_is_available (router_of s) (fst pm) (snd pm)" "cl_bound c \<longrightarrow> pm = resolve (router_of s) (cl_model c)"
        using fa q bp rt(1) by (cases pm, auto)+
      have "later s s3" using g4(1) fs frames_trans(1) by (auto simp: dispatched_def)
      moreover have "cl_bound c \<longrightarrow> same_adaptive s s3" using g4(3) fs by (auto simp: dispatched_def same_adaptive_def)
      moreover have "booked s s3 resp" if "booked s4 s3 resp" for resp
        using that rt(3) by (simp add: booked_def split: chat_response.splits)
      moreover have "case r of Inl e \<Rightarrow> ch_tasks s3 = ch_tasks s
        | Inr resp \<Rightarrow> booked s s3 resp \<and> (\<exists>q. answers_from env resp q
            \<and> router_is_available (router_of s) (fst q) (snd q)
            \<and> (cl_bound c \<longrightarrow> q = resolve (router_of s) (cl_model c)))"
      proof (cases r)
        case (Inl e)
        with fs rt(3) show ?thesis by (simp add: dispatched_def)
      next
        case o: (Inr resp)
        with fs obtain q where "booked s4 s3 resp" "answers_from env resp q"
          "q = pm \<or> \<not> cl_bound c \<and> router_is_available (router_of s) (fst q) (snd q)"
          unfolding dispatched_def rt(2) by (simp only: sum.case) blast
        with av \<open>\<And>resp. booked s4 s3 resp \<Longrightarrow> booked s s3 resp\<close> show ?thesis
          unfolding o sum.case by blast
      qed
      ultimately show ?thesis unfolding s' release_frame booked_release by blast
    qed
  qed
  then show "later s s'" and "cl_bound c \<Longrightarrow> same_adaptive s s'"
    and "case r of Inl e \<Rightarrow> ch_tasks s' = ch_tasks s
      | Inr resp \<Rightarrow> booked s s' resp
          \<and> (\<exists>q. answers_from env resp q \<and> router_is_available (router_of s) (fst q) (snd q)
               \<and> (cl_bound c \<longrightarrow> q = resolve (router_of s) (cl_model c)))"
    by blast+
qed

lemma outer_inner:
  assumes "chat_completions env u hs body s = Some (r, s')"
  obtains s1 ctx where "chat_completions_inner env u hs body s = Some (r, s1)"
    and "s' = (case r of Inl e \<Rightarrow> note_failure env ctx (millis_now env s) e s1 | Inr _ \<Rightarrow> s1)"
  using assms by (auto simp: chat_completions_def bind_eq_Some_conv)

lemma inner_reads:
  assumes "chat_completions_inner env u hs body s = Some (Inr resp, s')"
  obtains c where "read_request env u hs body s = Some (Inr c)"
proof -
  obtain x where x: "read_request env u hs body s = Some x"
    using assms by (auto simp: chat_completions_inner_def bind_eq_Some_conv)
  with assms that show thesis by (cases x) (auto simp: chat_completions_inner_def)
qed

lemma call_fields:
  assumes "read_request env u hs body s = Some (Inr c)"
  shows "cl_model c = dispatched_model env (cl_binding c) (cl_requested_model c) body" and "cl_user c = u"
proof -
  have "\<exists>a d b. c = make_call env u hs body a d b s"
    using assms by (auto simp: read_request_def split: sum.splits) (metis old.sum.exhaust)
  then show "cl_model c = dispatched_model env (cl_binding c) (cl_requested_model c) body" and "cl_user c = u"
    by (auto simp: make_call_def Let_def)
qed

lemma note_failure_frame [simp]:
  "same_adaptive s (note_failure env ctx t e s') = same_adaptive s s'"
  "ch_tasks (note_failure env ctx t e s) = ch_tasks s" "ch_concurrency (note_failure env ctx t e s) = ch_concurrency s"
  "ab_failures (ch_books (note_failure env ctx t e s)) = record_failure_row (timestamp env s) (ab_failures (ch_books s))
     (ctx\<lparr>fc_latency_ms := Some (int (millis_now env s - t))\<rparr>) e"
  by (simp_all add: note_failure_def same_adaptive_def)

section \<open>Properties\<close>

text \<open>
  C1. Whoever answers was allowed to. Every answer of the handler - plain, streamed, replayed or served
  from the cache - names a pair that the operator has not disabled, by the availability and aliases the
  request found when it came in; failover, load balancing, affinity, hooks and the cache included.
\<close>

theorem answer_is_of_an_enabled_pair:
  assumes "chat_completions env u hs body s = Some (Inr resp, s')"
  shows "\<exists>p m. answers_from env resp (p, m) \<and> router_is_available (router_of s) p m"
proof -
  obtain s1 where i: "chat_completions_inner env u hs body s = Some (Inr resp, s1)" by (rule outer_inner [OF assms])
  obtain c where "read_request env u hs body s = Some (Inr c)" by (rule inner_reads [OF i])
  from inner_facts(3) [OF i this] obtain q where "answers_from env resp q" "router_is_available (router_of s) (fst q) (snd q)"
    unfolding sum.case by blast
  then show ?thesis by (intro exI [of _ "fst q"] exI [of _ "snd q"]) simp
qed

text \<open>
  C4. A request bound to an experiment measures its variant. It leaves the load balancer, the session
  pins and the response cache exactly as they were, whatever becomes of it, and an answer to it is from
  what the variant's pin for the requested model resolves to, never a substitute.
\<close>

theorem bound_request_is_isolated:
  assumes "chat_completions env u hs body s = Some (r, s')" and "read_request env u hs body s = Some (Inr c)"
    and "cl_binding c = Some b" and "map_of (bd_overlay b) (cl_requested_model c) = Some pinned"
  shows "ch_balancer s' = ch_balancer s \<and> ch_affinity s' = ch_affinity s \<and> ch_cache s' = ch_cache s
    \<and> (case r of Inl e \<Rightarrow> ch_tasks s' = ch_tasks s | Inr resp \<Rightarrow> answers_from env resp (resolve (router_of s) pinned))"
proof -
  obtain s1 ctx where i: "chat_completions_inner env u hs body s = Some (r, s1)"
    and s': "s' = (case r of Inl e \<Rightarrow> note_failure env ctx (millis_now env s) e s1 | Inr _ \<Rightarrow> s1)"
    by (rule outer_inner [OF assms(1)])
  have "cl_bound c" by (simp add: cl_bound_def assms(3))
  moreover have "cl_model c = pinned" using call_fields(1) [OF assms(2)] assms(3,4) by (simp add: dispatched_model_def)
  ultimately show ?thesis
    using inner_facts(2,3) [OF i assms(2)] s' by (cases r) (auto simp: same_adaptive_def note_failure_def)
qed

text \<open>
  C2. The caller reads what the ledger holds. A plain answer, from a provider or the cache, spawns exactly
  one task, and when that task runs on a working database it adds exactly one ledger row, whose cost, saving,
  tokens and model are those the body reports.
\<close>

theorem caller_reads_the_ledger_row:
  assumes "chat_completions env u hs body s = Some (Inr (PlainBody v h), s')"
    and "\<not> faults (ab_db b) CreateCost" and "\<not> faults (ab_db b) CreateCacheHit" and "\<not> store_refuses (ab_prompts b)"
  shows "\<exists>t row. ch_tasks s' = ch_tasks s @ [t]
    \<and> cost_ledger (ab_db (run_task env now t b)) = cost_ledger (ab_db b) @ [row]
    \<and> jget (jget v ''usage'') ''cost_usd'' = jrat (cost_usd row)
    \<and> jget (jget v ''usage'') ''saved_usd'' = (if cache_hit row then jrat (saved_usd row) else JNull)
    \<and> jget (jget v ''usage'') ''prompt_tokens'' = jnat (nat (tokens_in row))
    \<and> jget (jget v ''usage'') ''completion_tokens'' = jnat (nat (tokens_out row))
    \<and> jget v ''model'' = JStr (le_model row)"
proof -
  obtain s1 where i: "chat_completions_inner env u hs body s = Some (Inr (PlainBody v h), s1)" and s': "s' = s1"
    by (rule outer_inner [OF assms(1)]) simp
  obtain c where "read_request env u hs body s = Some (Inr c)" by (rule inner_reads [OF i])
  from inner_facts(3) [OF i this] obtain t where t: "ch_tasks s' = ch_tasks s @ [t]" "reports v t"
    by (auto simp: booked_def s')
  show ?thesis
  proof (cases t)
    case (LogCompletion l)
    obtain prompt where "cost_ledger (ab_db (run_task env now t b)) = cost_ledger (ab_db b)
        @ [ledger_row (next_id (map le_id (cost_ledger (ab_db b)))) now (completion_ledger l prompt)]"
      using completion_logging_ledger [of "ev_parse env" "ev_storage env" "ev_lifecycle env" now l b] assms(2,4) LogCompletion
      by (auto simp: run_task_def)
    with t LogCompletion show ?thesis
      by (intro exI conjI) (assumption, assumption, simp_all add: reports_def ledger_row_def completion_ledger_def Let_def)
  next
    case (LogHit x r)
    obtain prompt where "cost_ledger (ab_db (run_task env now t b)) = cost_ledger (ab_db b)
        @ [(ledger_row (next_id (map le_id (cost_ledger (ab_db b)))) now (hit_ledger (ev_print env) x r prompt))
              \<lparr>cost_usd := 0, cache_hit := True, saved_usd := hx_avoided_cost x\<rparr>]"
      using cache_hit_books_saving [of "ev_print env" "ev_storage env" now x r b] assms(3) LogHit by (auto simp: run_task_def)
    with t LogHit show ?thesis
      by (intro exI conjI) (assumption, assumption, simp_all add: reports_def ledger_row_def hit_ledger_def Let_def)
  qed
qed

text \<open>
  C3. A request the policy engine does not admit reaches nothing: it ends with an error, and providers,
  circuits, session limits, guardrails, hooks, balancer, pins, cache, ledger, prompts and permits are as before.
\<close>

theorem refused_request_reaches_nothing:
  assumes "read_request env u hs body s = Some (Inr c)"
    and "policy_check (gc_parse_list (ev_gateway env)) (gc_policy (ev_gateway env)) (ab_db (ch_books s)) u (cl_model c) = (d, db)"
    and "\<And>mx. d \<noteq> Inr (Allow mx)"
  shows "\<exists>e s'. chat_completions_inner env u hs body s = Some (Inl e, s')
    \<and> ch_gateway s' = ch_gateway s \<and> ch_sessions s' = ch_sessions s \<and> ch_hooks s' = ch_hooks s
    \<and> ch_concurrency s' = ch_concurrency s \<and> ch_balancer s' = ch_balancer s \<and> ch_affinity s' = ch_affinity s
    \<and> ch_cache s' = ch_cache s \<and> ch_calc s' = ch_calc s \<and> ch_tasks s' = ch_tasks s
    \<and> cost_ledger (ab_db (ch_books s')) = cost_ledger (ab_db (ch_books s)) \<and> ab_prompts (ch_books s') = ab_prompts (ch_books s)
    \<and> e = (case d of Inr (Deny why status ctx) \<Rightarrow> PolicyDenied why status | _ \<Rightarrow> Internal)"
proof -
  let ?s1 = "fire_request_received_hooks env (user_name u) (cl_model c) body s"
  have f1: "later s ?s1" "same_service s ?s1" "same_adaptive s ?s1" "ch_concurrency ?s1 = ch_concurrency s"
    "ab_db (ch_books ?s1) = ab_db (ch_books s)" "ch_gateway ?s1 = ch_gateway s" "ch_sessions ?s1 = ch_sessions s"
    "ch_hooks ?s1 = ch_hooks s"
    unfolding fire_request_received_hooks_def by (rule fire_hooks_frame)+
  obtain r s2 where p: "enforce_policy env u (cl_model c) ?s1 = (r, s2)" by fastforce
  note f2 = enforce_policy_frame [OF p]
  obtain e where e: "e = (case d of Inr (Deny why status ctx) \<Rightarrow> PolicyDenied why status | _ \<Rightarrow> Internal)" by blast
  have r: "r = Inl e \<and> ch_concurrency s2 = ch_concurrency ?s1"
    using p assms(2,3) f1(5) e
    by (auto simp: enforce_policy_def Let_def fire_hooks_def split: sum.splits policy_decision.splits option.splits)
  have "chat_completions_inner env u hs body s = Some (Inl e, s2)"
    using assms(1) p r by (simp add: chat_completions_inner_def Let_def)
  with r f1 f2 e show ?thesis by (simp add: frame_defs)
qed

lemma admit_and_serve_permits: "admit_and_serve env c body s = Some (r, s') \<Longrightarrow> ch_concurrency s' = ch_concurrency s"
proof -
  assume a: "admit_and_serve env c body s = Some (r, s')"
  obtain x s1 where x: "admit env c body s = (x, s1)" by fastforce
  have "ch_concurrency s1 = ch_concurrency s" using admit_facts [OF x] by blast
  moreover have "ch_concurrency s' = ch_concurrency s1"
  proof (cases x)
    case (Inl e)
    with a x show ?thesis by (simp add: admit_and_serve_def)
  next
    case (Inr bp)
    with a x have "serve env c (fst bp) (guard_context c body) (snd bp) s1 = Some (r, s')"
      by (simp add: admit_and_serve_def split_beta)
    from serve_facts [OF this] show ?thesis by (auto simp: dispatched_def)
  qed
  ultimately show ?thesis by simp
qed

lemma acquire_release:
  assumes "try_acquire cl uid mx = (got, cl')"
  shows "(if got then release_permit cl' uid else cl') = cl
    \<or> (if got then release_permit cl' uid else cl') = cl(uid \<mapsto> semaphore_of cl uid mx)"
  using assms by (auto simp: try_acquire_def release_permit_def Let_def split: if_splits)


lemma context_fields:
  "\<forall>ctx. context_from_request parse pr r reg now endpoint u hs body = Some ctx \<longrightarrow>
     fc_endpoint ctx = endpoint \<and> fc_user_id ctx = Some (user_id u)"
  by (auto simp: context_from_request_def Let_def split_beta)

text \<open>
  C29. A failure is recorded once. A request that is answered writes no failure row; one that is refused
  writes exactly one, with the status and the stage of its error and the caller as its user, unless the
  table cannot be written.
\<close>

theorem failure_recorded_once:
  "case chat_completions env u hs body s of
     None \<Rightarrow> True
   | Some (Inr resp, s') \<Rightarrow> ab_failures (ch_books s') = ab_failures (ch_books s)
   | Some (Inl e, s') \<Rightarrow>
       if fd_down (ab_failures (ch_books s)) then ab_failures (ch_books s') = ab_failures (ch_books s)
       else \<exists>row. fd_rows (ab_failures (ch_books s')) = fd_rows (ab_failures (ch_books s)) @ [row]
              \<and> nf_status_code row = Some (status_for e) \<and> nf_user_id row = Some (user_id u)
              \<and> nf_endpoint row = ''/v1/chat/completions'' \<and> nf_stage row = stage_for e"
proof (cases "chat_completions env u hs body s")
  case (Some rs)
  obtain r s' where rs: "rs = (r, s')" by (cases rs)
  obtain ctx s1 where c: "context_from_request (ev_parse env) (ev_print env) (router_of s) (ev_experiments env)
      (int (unix_now env s)) ''/v1/chat/completions'' u hs body = Some ctx"
    and i: "chat_completions_inner env u hs body s = Some (r, s1)"
    and s': "s' = (case r of Inl e \<Rightarrow> note_failure env ctx (millis_now env s) e s1 | Inr _ \<Rightarrow> s1)"
    using Some rs by (auto simp: chat_completions_def bind_eq_Some_conv)
  have ctx: "fc_endpoint ctx = ''/v1/chat/completions''" "fc_user_id ctx = Some (user_id u)"
    using context_fields c by blast+
  have same: "ab_failures (ch_books s1) = ab_failures (ch_books s)"
  proof -
    obtain x where x: "read_request env u hs body s = Some x"
      using i by (auto simp: chat_completions_inner_def bind_eq_Some_conv)
    show ?thesis
    proof (cases x)
      case (Inl e)
      with i x show ?thesis by (simp add: chat_completions_inner_def)
    next
      case (Inr c)
      with inner_facts(1) [OF i] x show ?thesis by (simp add: later_def)
    qed
  qed
  show ?thesis
  proof (cases r)
    case (Inr resp)
    with Some rs s' same show ?thesis by simp
  next
    case (Inl e)
    with Some rs s' same ctx show ?thesis
      by (auto simp: record_failure_row_def create_failure_def failure_record_def new_request_failure.defs Let_def)
  qed
qed simp

end
