(* ===== verification/Chat_Witnesses.thy ===== *)
theory Chat_Witnesses
  imports Chat_Properties
begin

text \<open>
  A small gateway on which the properties of \<open>Chat_Properties\<close> are exercised, and what the handler does
  in the cases the findings are about.
\<close>

section \<open>A small gateway\<close>

text \<open>One declarative rule: the named models may be used, nothing is cached.\<close>

definition sample_policy_rule :: policy_rule where
  "sample_policy_rule =
     \<lparr>pr_name = ''some'', condition = \<lparr>pc_tag = None, pc_user_id = None, pc_model = None\<rparr>,
      allow_models = [''b/y'', ''p/x''], budget_usd = None, pr_window = ''daily'', priority = 0, pr_cache = Some False\<rparr>"

definition sample_env :: "unit chat_env" where
  "sample_env =
     \<lparr>ev_ops = sample_ops,
      ev_gateway = (sample_gateway_config [])\<lparr>gc_policy := sample_engine\<lparr>pe_rules := Some [sample_policy_rule]\<rparr>\<rparr>,
      ev_experiments = snapshot_from [sample_experiment], ev_storage = default_storage, ev_complexity = None,
      ev_lifecycle = [], ev_pipeline = [],
      ev_hooks = \<lparr>ho_run = (\<lambda>_ _ _ w. (HookTimedOut, w)), ho_parse = (\<lambda>_. Inl ''bad''), ho_now_ms = (\<lambda>_. 0),
                  ho_timestamp = (\<lambda>_. ''t'')\<rparr>,
      ev_guardrails = [], ev_parse = (\<lambda>_. None), ev_print = (\<lambda>_. ''{}''), ev_sha = (\<lambda>s. s),
      ev_result_value = (\<lambda>_. None), ev_result_of = (\<lambda>_. None), ev_unix = (\<lambda>_. 7), ev_uuid = (\<lambda>w. (''u'', w))\<rparr>"

definition small_cache :: response_cache where
  "small_cache =
     new_cache
       \<lparr>cf_enabled = True, cf_backend = ''memory'', cf_redis_url = [], cf_namespace = ''mr'', cf_max_entries = 3,
        cf_ttl_seconds = 6,
        cf_completions = \<lparr>cc_enabled = True, cc_max_temperature = 0, cc_assumed_temperature = 1, cc_ttl_seconds = None\<rparr>,
        cf_search = \<lparr>sc_enabled = True, sc_ttl_seconds = 9\<rparr>, cf_allow_header_opt_in = True,
        cf_max_ttl_seconds = 9, cf_namespaces = Map.empty\<rparr>"

definition sample_state :: "unit chat_state" where
  "sample_state =
     \<lparr>ch_gateway = sample_gateway, ch_books = sample_accounting,
      ch_hooks = \<lparr>hs_permissions = [], hs_metrics = [], hs_down = False, hs_world = ()\<rparr>,
      ch_concurrency = Map.empty, ch_sessions = new_session_limiter 0 0, ch_balancer = Map.empty,
      ch_affinity = new_affinity 60, ch_cache = small_cache, ch_calc = free_calc, ch_tasks = []\<rparr>"

definition caller :: user where
  "caller = sample_user\<lparr>session_window_secs := Some 5\<rparr>"

definition sample_body :: "string \<Rightarrow> json" where
  "sample_body m = jobj [(''model'', JStr m)]"

definition bound_headers :: headers where
  "bound_headers = [(experiment_header, ''1:a''), (correlation_header, ''c'')]"

definition sample_call :: "string \<Rightarrow> chat_call" where
  "sample_call m =
     make_call sample_env caller [] (sample_body m) default_attribution default_directives None sample_state"

text \<open>The binding of \<open>bound_headers\<close>: variant \<open>a\<close>, which pins \<open>m\<close> to \<open>p/x\<close>.\<close>

definition sample_binding :: binding where
  "sample_binding =
     \<lparr>bd_experiment_id = 1, bd_variant = ''a'', bd_overlay = [(''m'', ''p/x'')], bd_retain_content = False\<rparr>"

definition bound_call :: chat_call where
  "bound_call =
     make_call sample_env caller bound_headers (sample_body ''m'') (default_attribution\<lparr>at_correlation_id := Some ''c''\<rparr>)
       default_directives (Some sample_binding) sample_state"

declare failover.simps [code]

lemma no_directives:
  "map_of hs mode_header = None \<Longrightarrow> map_of hs ttl_header = None \<Longrightarrow> map_of hs namespace_header = None \<Longrightarrow>
     directives_from_headers hs = Inr default_directives"
  by (simp add: directives_from_headers_def parse_mode_def parse_ttl_def parse_namespace_header_def header_str_def
      default_directives_def)

lemma sample_bind:
  "bind_experiment (ev_experiments sample_env) [] (sample_body m) None uid now = Some (Inr None)"
  by (simp add: bind_experiment_def parse_experiment_header_def header_values_def)

lemma sample_attribution:
  "attribution_extract (ev_parse sample_env) (ev_print sample_env) (sample_body m) [] = Inr default_attribution"
  by (simp add: attribution_extract_def attribution_body_def fill_correlation_def fill_tags_def fill_project_def
      attr_header_str_def sample_body_def jget_opt_jobj default_attribution_def)

lemma sample_read: "read_request sample_env caller [] (sample_body m) sample_state = Some (Inr (sample_call m))"
  by (simp add: read_request_def sample_attribution attribution_error_def no_directives sample_call_def
      default_attribution_def sample_bind)

lemma bound_attribution:
  "attribution_extract (ev_parse sample_env) (ev_print sample_env) (sample_body ''m'') bound_headers
     = Inr (default_attribution\<lparr>at_correlation_id := Some ''c''\<rparr>)"
  by code_simp

lemma bound_bind:
  "bind_experiment (ev_experiments sample_env) bound_headers (sample_body ''m'') (Some ''c'') 1 7
     = Some (Inr (Some sample_binding))"
proof -
  have "show_nat 1 = ''1''" by code_simp
  with parse_i64_show [of 1] have i: "parse_i64 ''1'' = Some 1" by simp
  have "split_once CHR '':'' ''1:a'' = Some (''1'', ''a'')" by code_simp
  then have l: "parse_id_label ''1:a'' = Inr (1, Some ''a'')"
    using i by (simp add: parse_id_label_def max_label_len_def)
  have t: "trim ''1:a'' = ''1:a''" "list_all visible_ascii ''1:a''" "list_all (\<lambda>b. is_label_byte b \<or> b = CHR '':'') ''1:a''"
    by code_simp+
  have v: "header_values bound_headers experiment_header = [''1:a'']" by code_simp
  have h: "parse_experiment_header bound_headers = Inr (Some (1, Some ''a''))"
    unfolding parse_experiment_header_def v using t by (simp add: l max_header_len_def)
  have r: "ev_experiments sample_env 1 = Some (snapshot_of sample_experiment)"
    by (simp add: sample_env_def snapshot_from_def sample_experiment_def)
  have "case snapshot_of sample_experiment of s \<Rightarrow>
      sn_status s = ExpActive \<and> sn_expires_at s = 0 \<and> sn_allowed_user_ids s = [] \<and> sn_labels s \<noteq> []
      \<and> map_of (sn_overlays s) ''a'' = Some [(''m'', ''p/x'')] \<and> \<not> sn_retain_content s"
    by code_simp
  moreover have "trim ''c'' = ''c''" by code_simp
  ultimately show ?thesis
    by (simp add: bind_experiment_def h r bind_to_def choose_variant_def sample_binding_def)
qed

lemma bound_read:
  "read_request sample_env caller bound_headers (sample_body ''m'') sample_state = Some (Inr bound_call)"
proof -
  have "directives_from_headers bound_headers = Inr default_directives"
    by (rule no_directives) (simp_all add: bound_headers_def experiment_header_def correlation_header_def
        mode_header_def ttl_header_def namespace_header_def)
  moreover have "int (unix_now sample_env sample_state) = 7" "user_id caller = 1"
    by (simp_all add: unix_now_def sample_env_def caller_def)
  ultimately show ?thesis
    by (simp add: read_request_def bound_attribution attribution_error_def bound_call_def bound_bind
        default_attribution_def)
qed

section \<open>Runs\<close>

definition plain_answer :: "((api_error + chat_response) \<times> 'w chat_state) option \<Rightarrow> bool" where
  "plain_answer r \<longleftrightarrow> (case r of Some (Inr (PlainBody v h), s') \<Rightarrow> True | _ \<Rightarrow> False)"

lemma plain_answerE:
  assumes "plain_answer r"
  obtains v h s' where "r = Some (Inr (PlainBody v h), s')"
proof -
  obtain x where x: "r = Some x" using assms by (cases r) (simp add: plain_answer_def)
  obtain y s' where y: "x = (y, s')" by (cases x)
  obtain z where z: "y = Inr z" using assms x y by (cases y) (simp_all add: plain_answer_def)
  show thesis using assms that x y z by (cases z) (simp_all add: plain_answer_def)
qed

text \<open>The request behind the policy gate, and the two runs behind it.\<close>

definition gate_of :: "chat_call \<Rightarrow> json \<Rightarrow> (api_error + bool) \<times> unit chat_state" where
  "gate_of c body =
     enforce_policy sample_env caller (cl_model c)
       (fire_request_received_hooks sample_env (user_name caller) (cl_model c) body sample_state)"

lemma sample_gate: "fst (gate_of (sample_call ''b/y'') (sample_body ''b/y'')) = Inr False"
  by code_simp

lemma bound_gate: "fst (gate_of bound_call (sample_body ''m'')) = Inr False"
  by code_simp

lemma sample_serves:
  "plain_answer (admit_and_serve sample_env (sample_call ''b/y'') (sample_body ''b/y'')
     (snd (gate_of (sample_call ''b/y'') (sample_body ''b/y''))))"
  by code_simp

lemma bound_serves:
  "plain_answer (admit_and_serve sample_env bound_call (sample_body ''m'') (snd (gate_of bound_call (sample_body ''m''))))"
  by code_simp

lemma run_answers:
  assumes "read_request sample_env caller hs body sample_state = Some (Inr c)"
    and "fst (gate_of c body) = Inr held" and "plain_answer (admit_and_serve sample_env c body (snd (gate_of c body)))"
  obtains v h s' where "chat_completions sample_env caller hs body sample_state = Some (Inr (PlainBody v h), s')"
proof -
  obtain s0 where g: "gate_of c body = (Inr held, s0)" using assms(2) by (cases "gate_of c body") simp
  with assms(3) obtain v h s1 where a: "admit_and_serve sample_env c body s0 = Some (Inr (PlainBody v h), s1)"
    by (auto elim: plain_answerE)
  have i: "chat_completions_inner sample_env caller hs body sample_state
      = Some (Inr (PlainBody v h), release_if held caller s1)"
    using assms(1) g a by (simp add: chat_completions_inner_def Let_def gate_of_def)
  have "bind_experiment (ev_experiments sample_env) hs body cid uid now \<noteq> None" for cid uid now
    using binding_total [of "[sample_experiment]"] by (simp add: sample_env_def)
  then have "context_from_request (ev_parse sample_env) (ev_print sample_env) (router_of sample_state)
      (ev_experiments sample_env) (int (unix_now sample_env sample_state)) ''/v1/chat/completions'' caller hs body \<noteq> None"
    by (simp add: context_from_request_def Let_def)
  then obtain ctx where "context_from_request (ev_parse sample_env) (ev_print sample_env) (router_of sample_state)
      (ev_experiments sample_env) (int (unix_now sample_env sample_state)) ''/v1/chat/completions'' caller hs body = Some ctx"
    by (rule not_None_eq [THEN iffD1, THEN exE])
  with i that show thesis by (simp add: chat_completions_def)
qed

section \<open>Witnesses\<close>

theorem answer_is_of_an_enabled_pair_witness:
  "\<exists>v h s' p m. chat_completions sample_env caller [] (sample_body ''b/y'') sample_state = Some (Inr (PlainBody v h), s')
     \<and> answers_from sample_env (PlainBody v h) (p, m) \<and> router_is_available (router_of sample_state) p m"
proof -
  obtain v h s' where r: "chat_completions sample_env caller [] (sample_body ''b/y'') sample_state
      = Some (Inr (PlainBody v h), s')"
    by (rule run_answers [OF sample_read sample_gate sample_serves])
  from answer_is_of_an_enabled_pair [OF r] r show ?thesis by blast
qed

theorem bound_request_is_isolated_witness:
  "\<exists>v h s'. chat_completions sample_env caller bound_headers (sample_body ''m'') sample_state = Some (Inr (PlainBody v h), s')
     \<and> ch_cache s' = ch_cache sample_state
     \<and> answers_from sample_env (PlainBody v h) (resolve (router_of sample_state) ''p/x'')"
proof -
  obtain v h s' where r: "chat_completions sample_env caller bound_headers (sample_body ''m'') sample_state
      = Some (Inr (PlainBody v h), s')"
    by (rule run_answers [OF bound_read bound_gate bound_serves])
  have b: "cl_binding bound_call = Some sample_binding"
    by (simp add: bound_call_def make_call_def Let_def)
  have q: "cl_requested_model bound_call = ''m''"
    by (simp add: bound_call_def make_call_def Let_def sample_body_def jget_jobj)
  have "map_of (bd_overlay sample_binding) (cl_requested_model bound_call) = Some ''p/x''"
    by (simp add: q sample_binding_def)
  from bound_request_is_isolated [OF r bound_read b this] r show ?thesis by auto
qed

theorem caller_reads_the_ledger_row_witness:
  "\<exists>v h s' t row. chat_completions sample_env caller [] (sample_body ''b/y'') sample_state = Some (Inr (PlainBody v h), s')
     \<and> ch_tasks s' = ch_tasks sample_state @ [t]
     \<and> cost_ledger (ab_db (run_task sample_env ''now'' t sample_accounting)) = cost_ledger (ab_db sample_accounting) @ [row]
     \<and> jget (jget v ''usage'') ''cost_usd'' = jrat (cost_usd row)"
proof -
  obtain v h s' where r: "chat_completions sample_env caller [] (sample_body ''b/y'') sample_state
      = Some (Inr (PlainBody v h), s')"
    by (rule run_answers [OF sample_read sample_gate sample_serves])
  have "\<not> faults (ab_db sample_accounting) CreateCost" "\<not> faults (ab_db sample_accounting) CreateCacheHit"
    "\<not> store_refuses (ab_prompts sample_accounting)"
    by (simp_all add: sample_accounting_def empty_db_def store_refuses_def)
  from caller_reads_the_ledger_row [OF r this] r show ?thesis by blast
qed

theorem refused_request_reaches_nothing_witness:
  "\<exists>why s'. chat_completions_inner sample_env caller [] (sample_body ''z'') sample_state = Some (Inl (PolicyDenied why 403), s')
     \<and> ch_gateway s' = ch_gateway sample_state \<and> ch_tasks s' = []"
proof -
  let ?pol = "policy_check (gc_parse_list (ev_gateway sample_env)) (gc_policy (ev_gateway sample_env))
     (ab_db (ch_books sample_state)) caller (cl_model (sample_call ''z''))"
  have d: "case fst ?pol of Inr (Deny why st ctx) \<Rightarrow> st = 403 | _ \<Rightarrow> False" by code_simp
  then obtain why ctx where w: "fst ?pol = Inr (Deny why 403 ctx)"
    by (cases "fst ?pol"; cases "projr (fst ?pol)") auto
  then have p: "?pol = (Inr (Deny why 403 ctx), snd ?pol)" by (metis prod.collapse)
  have t: "ch_tasks sample_state = []" by (simp add: sample_state_def)
  from refused_request_reaches_nothing [OF sample_read p] t show ?thesis by auto
qed

end
