(* ===== verification/Messages_Properties.thy ===== *)
theory Messages_Properties
  imports Messages_Route Chat_Witnesses
begin

text \<open>
  What \<open>POST /v1/messages\<close> guarantees: the body that is sent on, the one task that accounts for every answer,
  the permit, and the stream that is passed on untouched.
\<close>

section \<open>The upstream body\<close>

lemma build_upstream_body_reads:
  assumes "json_ok body" and "build_upstream_body body canonical = Some up"
  shows "jget up k =
    (if k = ''messages'' then (case jget body ''messages'' of JArr ms \<Rightarrow> JArr (translate_native_messages ms) | v \<Rightarrow> v)
     else if k = ''model'' then JStr canonical else jget body k)"
proof -
  obtain v where v: "jset body ''model'' (JStr canonical) = Some v"
    and u: "jset v ''messages''
      (case jget v ''messages'' of JArr ms \<Rightarrow> JArr (translate_native_messages ms) | w \<Rightarrow> w) = Some up"
    using assms(2) by (auto simp: build_upstream_body_def bind_eq_Some_conv)
  note rv = jset_reads [OF v assms(1)]
  have "json_ok v" by (rule jset_keeps_ok [OF v assms(1)]) simp
  from jset_reads(1) [OF u this] rv(1) show ?thesis by simp
qed

section \<open>The tasks\<close>

definition same_tasks :: "'w messages_state \<Rightarrow> 'w messages_state \<Rightarrow> bool" where
  "same_tasks s s' \<longleftrightarrow> mg_tasks s' = mg_tasks s \<and> ch_tasks (mg_chat s') = ch_tasks (mg_chat s)"

definition same_permits :: "'w messages_state \<Rightarrow> 'w messages_state \<Rightarrow> bool" where
  "same_permits s s' \<longleftrightarrow> ch_concurrency (mg_chat s') = ch_concurrency (mg_chat s)"

lemmas message_frames = same_tasks_def same_permits_def on_chat_def set_breaker_def set_world_def

text \<open>The one task an answer leaves behind: the answer's own tokens, or an estimate for a stream, or a hit.\<close>

definition accounted ::
  "'w chat_env \<Rightarrow> messages_call \<Rightarrow> messages_response \<Rightarrow> 'w messages_state \<Rightarrow> 'w messages_state \<Rightarrow> bool" where
  "accounted env c resp s s' \<longleftrightarrow>
     (case resp of
        MessageBody v h \<Rightarrow>
          (\<exists>canonical cost latency.
             mg_tasks s' = mg_tasks s @ [LogMessage (plain_message_log env c canonical v) cost latency]
             \<and> ch_tasks (mg_chat s') = ch_tasks (mg_chat s))
          \<or> (h = Some ''HIT'' \<and> mg_tasks s' = mg_tasks s
             \<and> (\<exists>canonical avoided us. ch_tasks (mg_chat s')
                  = ch_tasks (mg_chat s) @ [LogHit (message_hit_context env c canonical avoided) us]))
      | MessageReplay sse h \<Rightarrow>
          mg_tasks s' = mg_tasks s
          \<and> (\<exists>canonical avoided us. ch_tasks (mg_chat s')
               = ch_tasks (mg_chat s) @ [LogHit (message_hit_context env c canonical avoided) us])
      | MessageStream cks key h \<Rightarrow>
          (\<exists>canonical start. mg_tasks s' = mg_tasks s @ [LogStreamedMessage (stream_message_log env c canonical) start])
          \<and> ch_tasks (mg_chat s') = ch_tasks (mg_chat s))"

text \<open>What one stage of the handler says of its outcome.\<close>

definition settled ::
  "'w chat_env \<Rightarrow> messages_call \<Rightarrow> 'w messages_state \<Rightarrow> api_error + messages_response \<Rightarrow> 'w messages_state \<Rightarrow> bool" where
  "settled env c s r s' \<longleftrightarrow>
     same_permits s s' \<and> (case r of Inl e \<Rightarrow> same_tasks s s' | Inr resp \<Rightarrow> accounted env c resp s s')"

lemma settled_from:
  assumes "settled env c t r s'"
    and "mg_tasks t = mg_tasks s" and "ch_tasks (mg_chat t) = ch_tasks (mg_chat s)"
    and "ch_concurrency (mg_chat t) = ch_concurrency (mg_chat s)"
  shows "settled env c s r s'"
  using assms(1) unfolding settled_def same_permits_def same_tasks_def accounted_def assms(2-4) .

lemma call_anthropic_frame:
  assumes "call_anthropic mv call cs = (r, cs')"
  shows "ch_tasks cs' = ch_tasks cs" and "ch_concurrency cs' = ch_concurrency cs"
  using assms
  by (auto simp: call_anthropic_def message_frames Let_def split: prod.splits if_splits sum.splits)

lemma answer_message_facts:
  assumes "answer_message env c canonical plan key latency answer s = (resp, s')"
  shows "same_permits s s' \<and> accounted env c resp s s'"
  using assms
  by (auto simp: answer_message_def message_frames accounted_def Let_def split: prod.splits option.splits)

lemma dispatch_message_facts:
  assumes "dispatch_message mv c canonical plan key s = Some (r, s')"
  shows "settled (mv_chat mv) c s r s'"
proof (cases "mv_anthropic mv")
  case None
  with assms show ?thesis by (auto simp: dispatch_message_def settled_def message_frames)
next
  case (Some cfg)
  with assms obtain up where up: "build_upstream_body (mc_requested_body c) canonical = Some up"
    by (auto simp: dispatch_message_def Let_def bind_eq_Some_conv)
  obtain q cs where q: "call_anthropic mv (upstream_call cfg (mv_tier_timeouts mv) (mc_dispatched c) up) (mg_chat s)
      = (q, cs)" by fastforce
  note f = call_anthropic_frame [OF q]
  show ?thesis
  proof (cases q)
    case (Inl e)
    with assms Some up q f show ?thesis by (auto simp: dispatch_message_def settled_def message_frames)
  next
    case reply: (Inr reply)
    show ?thesis
    proof (cases "mc_stream c")
      case True
      with assms Some up q f reply show ?thesis
        by (auto simp: dispatch_message_def settled_def message_frames accounted_def Let_def)
    next
      case False
      show ?thesis
      proof (cases "Option.bind (hr_text reply) (ev_parse (mv_chat mv))")
        case None
        with assms Some up q f reply False show ?thesis
          by (auto simp: dispatch_message_def settled_def message_frames)
      next
        case answer: (Some answer)
        obtain resp s1 where a: "answer_message (mv_chat mv) c canonical plan key
            (int (millis_now (mv_chat mv) cs - millis_now (mv_chat mv) (mg_chat s))) answer (s\<lparr>mg_chat := cs\<rparr>) = (resp, s1)"
          by fastforce
        with assms Some up q reply False answer have "r = Inr resp" "s' = s1"
          by (simp_all add: dispatch_message_def)
        with answer_message_facts [OF a] have "settled (mv_chat mv) c (s\<lparr>mg_chat := cs\<rparr>) r s'" by (simp add: settled_def)
        then show ?thesis by (rule settled_from) (simp_all add: f)
      qed
    qed
  qed
qed

lemma serve_cached_message_facts:
  assumes "serve_cached_message env c canonical message cs = Some (resp, cs')" and "mg_chat s = cs"
  shows "settled env c s (Inr resp) (s\<lparr>mg_chat := cs'\<rparr>)"
  using assms
  by (auto simp: serve_cached_message_def settled_def message_frames accounted_def Let_def bind_eq_Some_conv
      split: prod.splits if_splits) blast+

lemma serve_message_facts:
  assumes "serve_message mv c canonical s = Some (r, s')"
  shows "settled (mv_chat mv) c s r s'"
proof -
  let ?env = "mv_chat mv" and ?cs = "mg_chat s"
  define plan where "plan = messages_plan ?env c canonical ?cs"
  define key where "key = (if plan_store plan
    then Some (messages_cache_key (ev_sha ?env) (ev_print ?env) canonical (mc_requested_body c)) else None)"
  define probe where "probe = (if plan_lookup plan then key else None)"
  define got where "got k = get_message (int (unix_now ?env ?cs)) (ch_cache ?cs) k canonical (mc_directives c)" for k
  have un: "serve_message mv c canonical s = (case probe of
      None \<Rightarrow> dispatch_message mv c canonical plan key s
    | Some k \<Rightarrow> (case got k of (found, rc) \<Rightarrow>
        (case found of
           None \<Rightarrow> dispatch_message mv c canonical plan key (on_chat (\<lambda>cs. cs\<lparr>ch_cache := rc\<rparr>) s)
         | Some message \<Rightarrow>
             map_option (\<lambda>(resp, cs). (Inr resp, (on_chat (\<lambda>cs. cs\<lparr>ch_cache := rc\<rparr>) s)\<lparr>mg_chat := cs\<rparr>))
               (serve_cached_message ?env c canonical message (mg_chat (on_chat (\<lambda>cs. cs\<lparr>ch_cache := rc\<rparr>) s))))))"
    unfolding serve_message_def Let_def probe_def key_def plan_def got_def by (rule refl)
  show ?thesis
  proof (cases probe)
    case None
    with assms have "dispatch_message mv c canonical plan key s = Some (r, s')"
      by (simp add: un)
    then show ?thesis by (rule dispatch_message_facts)
  next
    case (Some k)
    obtain found rc where g: "got k = (found, rc)" by fastforce
    let ?s = "s\<lparr>mg_chat := ?cs\<lparr>ch_cache := rc\<rparr>\<rparr>"
    have carry: "settled ?env c ?s r s' \<Longrightarrow> settled ?env c s r s'"
      by (erule settled_from) simp_all
    show ?thesis
    proof (cases found)
      case None
      with assms Some g have "dispatch_message mv c canonical plan key ?s = Some (r, s')"
        by (simp add: un on_chat_def)
      then show ?thesis by (rule dispatch_message_facts [THEN carry])
    next
      case hit: (Some message)
      with assms Some g obtain resp cs where x: "serve_cached_message ?env c canonical message (?cs\<lparr>ch_cache := rc\<rparr>) = Some (resp, cs)"
          and r: "r = Inr resp" "s' = ?s\<lparr>mg_chat := cs\<rparr>"
        by (auto simp: un on_chat_def)
      show ?thesis unfolding r by (rule carry [unfolded r], rule serve_cached_message_facts [OF x]) simp
    qed
  qed
qed

lemma route_message_frame:
  assumes "route_message c s = (r, s')"
  shows "ch_tasks s' = ch_tasks s" and "ch_concurrency s' = ch_concurrency s"
  using assms
  by (auto simp: route_message_def messages_pair_def then_ok_def just_def Let_def
      split: prod.splits sum.splits option.splits if_splits)

lemma route_and_serve_facts:
  assumes "route_and_serve mv c s = Some (r, s')"
  shows "settled (mv_chat mv) c s r s'"
proof -
  obtain x cs where x: "route_message c (mg_chat s) = (x, cs)" by fastforce
  note f = route_message_frame [OF x]
  show ?thesis
  proof (cases x)
    case (Inl e)
    with assms x f show ?thesis by (auto simp: route_and_serve_def settled_def message_frames)
  next
    case (Inr canonical)
    with assms x have "serve_message mv c canonical (s\<lparr>mg_chat := cs\<rparr>) = Some (r, s')" by (simp add: route_and_serve_def)
    from serve_message_facts [OF this] show ?thesis by (rule settled_from) (simp_all add: f)
  qed
qed

section \<open>The handler's outcome\<close>

lemma policy_permit:
  assumes "enforce_policy env u model s = (p, s')"
  shows "\<exists>mx. ch_concurrency (release_if (case p of Inr held \<Rightarrow> held | Inl e \<Rightarrow> False) u s')
      \<in> {ch_concurrency s, (ch_concurrency s)(user_id u \<mapsto> semaphore_of (ch_concurrency s) (user_id u) mx)}"
  using assms
  by (auto dest!: acquire_release simp: enforce_policy_def release_if_def fire_hooks_def Let_def
      split: sum.splits policy_decision.splits option.splits prod.splits if_splits)

lemma release_on_chat [simp]:
  "mg_tasks (on_chat (release_if held u) s) = mg_tasks s"
  "ch_tasks (mg_chat (on_chat (release_if held u) s)) = ch_tasks (mg_chat s)"
  by (simp_all add: on_chat_def)

lemma handler_facts:
  assumes "anthropic_messages mv u hs body s = Some (r, s')"
  shows "(case r of Inl e \<Rightarrow> same_tasks s s'
           | Inr resp \<Rightarrow> (\<exists>c. read_message_request (mv_chat mv) u hs body (mg_chat s) = Inr c
                            \<and> accounted (mv_chat mv) c resp s s'))
    \<and> (\<exists>mx. ch_concurrency (mg_chat s') \<in> {ch_concurrency (mg_chat s),
          (ch_concurrency (mg_chat s))(user_id u \<mapsto> semaphore_of (ch_concurrency (mg_chat s)) (user_id u) mx)})"
proof (cases "read_message_request (mv_chat mv) u hs body (mg_chat s)")
  case (Inl e)
  with assms show ?thesis by (auto simp: anthropic_messages_def same_tasks_def)
next
  case c: (Inr c)
  obtain p cs where p: "enforce_policy (mv_chat mv) u (mc_dispatched c) (mg_chat s) = (p, cs)" by fastforce
  from enforce_policy_frame(2) [OF p] have t: "ch_tasks cs = ch_tasks (mg_chat s)" by (simp add: same_service_def)
  note permit = policy_permit [OF p]
  show ?thesis
  proof (cases p)
    case (Inl e)
    with assms c p t permit show ?thesis by (auto simp: anthropic_messages_def same_tasks_def release_if_def)
  next
    case (Inr held)
    with assms c p obtain s1 where x: "route_and_serve mv c (s\<lparr>mg_chat := cs\<rparr>) = Some (r, s1)"
        and s': "s' = on_chat (release_if held u) s1"
      by (auto simp: anthropic_messages_def)
    from route_and_serve_facts [OF x] t have facts:
      "ch_concurrency (mg_chat s1) = ch_concurrency cs"
      "case r of Inl e \<Rightarrow> same_tasks s s' | Inr resp \<Rightarrow> accounted (mv_chat mv) c resp s s'"
      by (auto simp: settled_def same_tasks_def same_permits_def accounted_def s' split: sum.splits messages_response.splits)
    have "ch_concurrency (mg_chat s') = ch_concurrency (release_if held u cs)"
      using facts(1) by (simp add: s' on_chat_def release_if_def)
    with facts(2) permit Inr c show ?thesis by (auto split: sum.splits)
  qed
qed

section \<open>Properties\<close>

text \<open>What the caller's body becomes on its way out: only the model and image parts of messages differ.\<close>

definition passed_on :: "provider_settings \<Rightarrow> json \<Rightarrow> http_call \<Rightarrow> bool" where
  "passed_on cfg body call \<longleftrightarrow>
     hc_url call = trim_end_slashes (case pv_api_base cfg of Some b \<Rightarrow> b | None \<Rightarrow> ''https://api.anthropic.com'')
                     @ ''/v1/messages''
     \<and> map_of (hc_headers call) ''x-api-key'' = Some (pv_api_key cfg)
     \<and> (\<exists>canonical. jget (hc_body call) ''model'' = JStr canonical)
     \<and> jget (hc_body call) ''messages''
         = (case jget body ''messages'' of JArr ms \<Rightarrow> JArr (translate_native_messages ms) | v \<Rightarrow> v)
     \<and> (\<forall>k. k \<noteq> ''model'' \<longrightarrow> k \<noteq> ''messages'' \<longrightarrow> jget (hc_body call) k = jget body k)"

lemma call_anthropic_cong:
  assumes "f call = g call"
  shows "call_anthropic (mv\<lparr>mv_http := f\<rparr>) call = call_anthropic (mv\<lparr>mv_http := g\<rparr>) call"
  by (rule ext) (auto simp: call_anthropic_def Let_def assms split: prod.split sum.split)

lemma dispatch_message_cong:
  assumes "json_ok (mc_requested_body c)"
    and "\<And>cfg call. mv_anthropic mv = Some cfg \<Longrightarrow> passed_on cfg (mc_requested_body c) call \<Longrightarrow> f call = g call"
  shows "dispatch_message (mv\<lparr>mv_http := f\<rparr>) c canonical plan key s = dispatch_message (mv\<lparr>mv_http := g\<rparr>) c canonical plan key s"
proof (cases "mv_anthropic mv")
  case None
  then show ?thesis by (simp add: dispatch_message_def)
next
  case (Some cfg)
  have "call_anthropic (mv\<lparr>mv_http := f\<rparr>) (upstream_call cfg (mv_tier_timeouts mv) (mc_dispatched c) up)
      = call_anthropic (mv\<lparr>mv_http := g\<rparr>) (upstream_call cfg (mv_tier_timeouts mv) (mc_dispatched c) up)"
    if "build_upstream_body (mc_requested_body c) canonical = Some up" for up
    by (rule call_anthropic_cong, rule assms(2) [OF Some])
      (simp add: passed_on_def upstream_call_def build_upstream_body_reads [OF assms(1) that])
  then show ?thesis
    by (cases "build_upstream_body (mc_requested_body c) canonical") (simp_all add: dispatch_message_def Let_def Some)
qed

lemma serve_message_cong:
  assumes "\<And>plan key s. dispatch_message (mv\<lparr>mv_http := f\<rparr>) c canonical plan key s
      = dispatch_message (mv\<lparr>mv_http := g\<rparr>) c canonical plan key s"
  shows "serve_message (mv\<lparr>mv_http := f\<rparr>) c canonical s = serve_message (mv\<lparr>mv_http := g\<rparr>) c canonical s"
proof -
  have eq: "dispatch_message (mv\<lparr>mv_http := f\<rparr>) c canonical = dispatch_message (mv\<lparr>mv_http := g\<rparr>) c canonical"
    by (intro ext) (rule assms)
  show ?thesis unfolding serve_message_def eq by simp
qed

lemma read_message_request_body: "read_message_request env u hs body cs = Inr c \<Longrightarrow> mc_requested_body c = body"
  by (auto simp: read_message_request_def split: sum.splits)


definition sample_messages_env :: "unit messages_env" where
  "sample_messages_env =
     \<lparr>mv_chat = sample_env,
      mv_anthropic = Some \<lparr>pv_api_key = ''k'', pv_api_base = Some ''http://a/'', pv_timeout_secs = 9\<rparr>,
      mv_tier_timeouts = \<lparr>tt_fast = 1, tt_balanced = 2, tt_deep = 3\<rparr>,
      mv_http = (\<lambda>_ w. (Inl ''down'', w))\<rparr>"

definition sample_messages_state :: "unit messages_state" where
  "sample_messages_state = \<lparr>mg_chat = sample_state, mg_tasks = []\<rparr>"


text \<open>
  C9. Every message is accounted for once, or not at all when it failed. An error spawns no logging task; a plain
  answer spawns exactly the task that books that answer, a stream exactly the one that books its
  estimate, and an answer from the cache exactly the one that books the hit, never spend.
\<close>

theorem every_message_accounted_once:
  "case anthropic_messages mv u hs body s of
     None \<Rightarrow> True
   | Some (Inl e, s') \<Rightarrow> mg_tasks s' = mg_tasks s \<and> ch_tasks (mg_chat s') = ch_tasks (mg_chat s)
   | Some (Inr resp, s') \<Rightarrow>
       (\<exists>c. read_message_request (mv_chat mv) u hs body (mg_chat s) = Inr c \<and> accounted (mv_chat mv) c resp s s')"
  using handler_facts [of mv u hs body s]
  by (auto simp: same_tasks_def split: option.splits prod.splits sum.splits)

text \<open>No permit outlives the handler; a relayed stream holds none.\<close>

lemma message_permit_is_returned:
  assumes "anthropic_messages mv u hs body s = Some (r, s')"
  shows "\<exists>mx. ch_concurrency (mg_chat s') \<in> {ch_concurrency (mg_chat s),
    (ch_concurrency (mg_chat s))(user_id u \<mapsto> semaphore_of (ch_concurrency (mg_chat s)) (user_id u) mx)}"
  using handler_facts [OF assms] by blast

section \<open>The ledger row and the relayed stream\<close>

lemma store_message_prompt_ledger:
  "store_message_prompt pr live now l cost latency b = (p, b') \<Longrightarrow> ab_db b' = ab_db b"
  by (auto simp: store_message_prompt_def split: option.splits prod.splits sum.splits)

definition task_log :: "messages_task \<Rightarrow> message_log" where
  "task_log t = (case t of LogMessage l cost latency \<Rightarrow> l | LogStreamedMessage l start \<Rightarrow> l)"

text \<open>The row does not depend on what became of the prompt row.\<close>

lemma message_row_is_booked:
  assumes "\<not> faults (ab_db b) CreateCost"
  obtains row where "cost_ledger (ab_db (snd (run_messages_task env now now_ms t (calc, b)))) = cost_ledger (ab_db b) @ [row]"
    and "le_user_id row = ml_user_id (task_log t)" and "tokens_in row = int (ml_prompt_tokens (task_log t))"
    and "tokens_out row = int (ml_completion_tokens (task_log t))" and "le_provider row = anthropic_name"
    and "tokens_estimated row = False"
proof -
  have "\<exists>p cost. cost_ledger (ab_db (snd (run_messages_task env now now_ms t (calc, b))))
      = cost_ledger (ab_db b) @ [ledger_row (next_id (map le_id (cost_ledger (ab_db b)))) now
          (message_ledger (ev_print env) (task_log t) cost p)]"
    using assms
    by (cases t; auto dest!: store_message_prompt_ledger simp: run_messages_task_def task_log_def log_plain_message_def log_messages_cost_def message_sent_hooks_def
        fire_all_def book_cost_def create_cost_def Let_def split: prod.splits; blast)
  with that show thesis by (auto simp: ledger_row_def message_ledger_def)
qed

lemma relay_passes_on: "relay_message parse cap xs = Some (outs, done) \<Longrightarrow> outs = xs"
  by (induction parse cap xs arbitrary: outs "done" rule: relay_message.induct) (fastforce simp: bind_eq_Some_conv split: if_splits)+

section \<open>What the disable gate looks at\<close>

text \<open>
  The pair that is resolved is checked, while the call goes to Anthropic with the model of the pair: an
  operator who disables Anthropic does not stop traffic of names that resolve to another provider.
\<close>

definition anthropic_disabled :: "unit chat_state" where
  "anthropic_disabled =
     sample_state\<lparr>ch_gateway := sample_gateway
       \<lparr>gw_router := (gw_router sample_gateway)
          \<lparr>availability := \<lparr>disabled_models = Map.empty,
                             disabled_providers = [anthropic_name \<mapsto> \<lparr>reason = None, disabled_by = None, disabled_at = None\<rparr>]\<rparr>\<rparr>\<rparr>\<rparr>"

definition sample_message_call :: messages_call where
  "sample_message_call =
     \<lparr>mc_user = caller, mc_attribution = default_attribution, mc_directives = default_directives,
      mc_requested_body = sample_body ''b/y'', mc_dispatched = ''b/y'', mc_stream = False\<rparr>"

lemma gate_checks_another_provider:
  "\<not> router_is_available (router_of anthropic_disabled) anthropic_name ''y''"
  "fst (route_message sample_message_call anthropic_disabled) = Inr ''y''"
  by code_simp+

end
