(* ===== verification/Model_Registry.thy ===== *)
theory Model_Registry
  imports Ordered_Maps
begin

text \<open>
  The model registry of the database (\<open>src/src/db/sqlite/models.rs\<close>, \<open>aliases.rs\<close>, \<open>audit.rs\<close> and the
  migrations 016, 025, 026): registered models, provider states, aliases, failover chains and the audit log.
  Each statement may fail; the list of faults says which of the statements to come do.
\<close>

section \<open>Rows\<close>

record model_row =
  md_id :: int
  md_provider :: string
  md_name :: string
  md_alias :: "string option"
  md_enabled :: bool
  md_created_at :: string
  md_disabled_reason :: "string option"
  md_disabled_by :: "string option"
  md_disabled_at :: "string option"

record provider_state =
  ps_provider :: string
  ps_enabled :: bool
  ps_disabled_reason :: "string option"
  ps_disabled_by :: "string option"
  ps_disabled_at :: "string option"
  ps_updated_at :: string

record alias_row =
  al_alias :: string
  al_target :: string
  al_created_by :: "string option"
  al_created_at :: string
  al_updated_at :: string

record failover_row =
  fo_id :: int
  fo_primary :: string
  fo_fallback :: string
  fo_priority :: nat

record audit_entry =
  au_actor_id :: "int option"
  au_actor_name :: string
  au_action :: string
  au_target :: "string option"
  au_before :: "string option"
  au_after :: "string option"

record registry_tables =
  rt_models :: "model_row list"
  rt_last_model :: int
  rt_providers :: "provider_state list"
  rt_aliases :: "alias_row list"
  rt_failovers :: "failover_row list"
  rt_last_failover :: int
  rt_audit :: "audit_entry list"
  rt_faults :: "bool list"

text \<open>Run one statement: whether it fails. A failure of any kind is the same error to the callers.\<close>

definition statement :: "registry_tables \<Rightarrow> bool \<times> registry_tables" where
  "statement t = (case rt_faults t of [] \<Rightarrow> (False, t) | b # bs \<Rightarrow> (b, t\<lparr>rt_faults := bs\<rparr>))"

definition sql_failed :: string where
  "sql_failed = ''database error''"

definition query :: "(registry_tables \<Rightarrow> 'a) \<Rightarrow> registry_tables \<Rightarrow> (string + 'a) \<times> registry_tables" where
  "query f t = (case statement t of (bad, t) \<Rightarrow> (if bad then Inl sql_failed else Inr (f t), t))"

definition execute :: "(registry_tables \<Rightarrow> registry_tables) \<Rightarrow> registry_tables \<Rightarrow> (string + unit) \<times> registry_tables" where
  "execute f t = (case statement t of (bad, t) \<Rightarrow> if bad then (Inl sql_failed, t) else (Inr (), f t))"

section \<open>Models\<close>

text \<open>\<open>alias\<close> is \<open>UNIQUE\<close>: a second row with the alias of another is refused.\<close>

definition alias_taken :: "model_row list \<Rightarrow> string option \<Rightarrow> bool" where
  "alias_taken ms a \<longleftrightarrow> a \<noteq> None \<and> list_ex (\<lambda>m. md_alias m = a) ms"

definition find_model :: "int \<Rightarrow> registry_tables \<Rightarrow> model_row option" where
  "find_model i t = find (\<lambda>m. md_id m = i) (rt_models t)"

definition get_model :: "int \<Rightarrow> registry_tables \<Rightarrow> (string + model_row option) \<times> registry_tables" where
  "get_model i = query (find_model i)"

definition create_model ::
  "string \<Rightarrow> string \<Rightarrow> string \<Rightarrow> string option \<Rightarrow> registry_tables \<Rightarrow> (string + model_row) \<times> registry_tables" where
  "create_model now provider name a t =
     (case statement t of
        (bad, t) \<Rightarrow>
          if bad \<or> alias_taken (rt_models t) a then (Inl sql_failed, t)
          else let made = \<lparr>md_id = rt_last_model t + 1, md_provider = provider, md_name = name, md_alias = a,
                           md_enabled = True, md_created_at = now, md_disabled_reason = None,
                           md_disabled_by = None, md_disabled_at = None\<rparr>
               in query (\<lambda>_. made) (t\<lparr>rt_models := rt_models t @ [made], rt_last_model := rt_last_model t + 1\<rparr>))"

definition list_models :: "registry_tables \<Rightarrow> (string + model_row list) \<times> registry_tables" where
  "list_models = query (\<lambda>t. sort_key md_provider (sort_key md_name (rt_models t)))"

definition set_enabled :: "string \<Rightarrow> bool \<Rightarrow> string option \<Rightarrow> string option \<Rightarrow> model_row \<Rightarrow> model_row" where
  "set_enabled now enabled why who m =
     (if enabled
      then m\<lparr>md_enabled := True, md_disabled_reason := None, md_disabled_by := None, md_disabled_at := None\<rparr>
      else m\<lparr>md_enabled := False, md_disabled_reason := why, md_disabled_by := who, md_disabled_at := Some now\<rparr>)"

definition set_model_enabled_with_reason ::
  "string \<Rightarrow> int \<Rightarrow> bool \<Rightarrow> string option \<Rightarrow> string option \<Rightarrow> registry_tables \<Rightarrow> (string + unit) \<times> registry_tables" where
  "set_model_enabled_with_reason now i enabled why who =
     execute (\<lambda>t. t\<lparr>rt_models := map (\<lambda>m. if md_id m = i then set_enabled now enabled why who m else m) (rt_models t)\<rparr>)"

definition delete_model :: "int \<Rightarrow> registry_tables \<Rightarrow> (string + bool) \<times> registry_tables" where
  "delete_model i t =
     (case execute (\<lambda>t. t\<lparr>rt_models := filter (\<lambda>m. md_id m \<noteq> i) (rt_models t)\<rparr>) t of
        (Inl e, t') \<Rightarrow> (Inl e, t')
      | (Inr _, t') \<Rightarrow> (Inr (list_ex (\<lambda>m. md_id m = i) (rt_models t)), t'))"

section \<open>Provider states\<close>

definition list_provider_states :: "registry_tables \<Rightarrow> (string + provider_state list) \<times> registry_tables" where
  "list_provider_states = query (\<lambda>t. sort_key ps_provider (rt_providers t))"

definition get_provider_state :: "string \<Rightarrow> registry_tables \<Rightarrow> (string + provider_state option) \<times> registry_tables" where
  "get_provider_state p = query (\<lambda>t. find (\<lambda>s. ps_provider s = p) (rt_providers t))"

text \<open>Insert, or on a conflict of the primary key replace in place.\<close>

definition upsert :: "('r \<Rightarrow> bool) \<Rightarrow> ('r \<Rightarrow> 'r) \<Rightarrow> 'r \<Rightarrow> 'r list \<Rightarrow> 'r list" where
  "upsert hit change new rows = (if list_ex hit rows then map (\<lambda>r. if hit r then change r else r) rows else rows @ [new])"

definition provider_row :: "string \<Rightarrow> string \<Rightarrow> bool \<Rightarrow> string option \<Rightarrow> string option \<Rightarrow> provider_state" where
  "provider_row now p enabled why who =
     \<lparr>ps_provider = p, ps_enabled = enabled, ps_disabled_reason = (if enabled then None else why),
      ps_disabled_by = (if enabled then None else who), ps_disabled_at = (if enabled then None else Some now),
      ps_updated_at = now\<rparr>"

definition set_provider_enabled ::
  "string \<Rightarrow> string \<Rightarrow> bool \<Rightarrow> string option \<Rightarrow> string option \<Rightarrow> registry_tables \<Rightarrow> (string + unit) \<times> registry_tables" where
  "set_provider_enabled now p enabled why who =
     execute (\<lambda>t. t\<lparr>rt_providers :=
       upsert (\<lambda>s. ps_provider s = p) (\<lambda>_. provider_row now p enabled why who) (provider_row now p enabled why who)
         (rt_providers t)\<rparr>)"

section \<open>Aliases\<close>

definition list_aliases :: "registry_tables \<Rightarrow> (string + alias_row list) \<times> registry_tables" where
  "list_aliases = query (\<lambda>t. sort_key al_alias (rt_aliases t))"

definition find_alias :: "string \<Rightarrow> registry_tables \<Rightarrow> alias_row option" where
  "find_alias a t = find (\<lambda>r. al_alias r = a) (rt_aliases t)"

definition get_alias :: "string \<Rightarrow> registry_tables \<Rightarrow> (string + alias_row option) \<times> registry_tables" where
  "get_alias a = query (find_alias a)"

definition upsert_alias ::
  "string \<Rightarrow> string \<Rightarrow> string \<Rightarrow> string option \<Rightarrow> registry_tables \<Rightarrow> (string + alias_row) \<times> registry_tables" where
  "upsert_alias now a dest who t =
     (case execute (\<lambda>t. t\<lparr>rt_aliases :=
             upsert (\<lambda>r. al_alias r = a) (\<lambda>r. r\<lparr>al_target := dest, al_updated_at := now\<rparr>)
               \<lparr>al_alias = a, al_target = dest, al_created_by = who, al_created_at = now, al_updated_at = now\<rparr>
               (rt_aliases t)\<rparr>) t of
        (Inl e, t) \<Rightarrow> (Inl e, t)
      | (Inr _, t) \<Rightarrow>
          (case query (find_alias a) t of
             (Inr (Some r), t) \<Rightarrow> (Inr r, t)
           | (_, t) \<Rightarrow> (Inl sql_failed, t)))"

definition delete_alias :: "string \<Rightarrow> registry_tables \<Rightarrow> (string + bool) \<times> registry_tables" where
  "delete_alias a t =
     (case execute (\<lambda>t. t\<lparr>rt_aliases := filter (\<lambda>r. al_alias r \<noteq> a) (rt_aliases t)\<rparr>) t of
        (Inl e, t') \<Rightarrow> (Inl e, t')
      | (Inr _, t') \<Rightarrow> (Inr (find_alias a t \<noteq> None), t'))"

section \<open>Failover chains\<close>

text \<open>\<open>(primary, fallback)\<close> is \<open>UNIQUE\<close>. The statements run one by one, not as a transaction.\<close>

definition insert_failover :: "string \<Rightarrow> nat \<Rightarrow> string \<Rightarrow> registry_tables \<Rightarrow> (string + unit) \<times> registry_tables" where
  "insert_failover primary i fallback t =
     (case statement t of
        (bad, t) \<Rightarrow>
          if bad \<or> list_ex (\<lambda>f. fo_primary f = primary \<and> fo_fallback f = fallback) (rt_failovers t) then (Inl sql_failed, t)
          else (Inr (), t\<lparr>rt_failovers := rt_failovers t
                            @ [\<lparr>fo_id = rt_last_failover t + 1, fo_primary = primary, fo_fallback = fallback, fo_priority = i\<rparr>],
                          rt_last_failover := rt_last_failover t + 1\<rparr>))"

fun insert_failovers :: "string \<Rightarrow> nat \<Rightarrow> string list \<Rightarrow> registry_tables \<Rightarrow> (string + unit) \<times> registry_tables" where
  "insert_failovers primary i [] t = (Inr (), t)"
| "insert_failovers primary i (f # fs) t =
     (case insert_failover primary i f t of
        (Inl e, t) \<Rightarrow> (Inl e, t)
      | (Inr _, t) \<Rightarrow> insert_failovers primary (i + 1) fs t)"

definition set_failovers :: "string \<Rightarrow> string list \<Rightarrow> registry_tables \<Rightarrow> (string + unit) \<times> registry_tables" where
  "set_failovers primary fallbacks t =
     (case execute (\<lambda>t. t\<lparr>rt_failovers := filter (\<lambda>f. fo_primary f \<noteq> primary) (rt_failovers t)\<rparr>) t of
        (Inl e, t) \<Rightarrow> (Inl e, t)
      | (Inr _, t) \<Rightarrow> insert_failovers primary 0 fallbacks t)"

definition list_failovers :: "string \<Rightarrow> registry_tables \<Rightarrow> (string + failover_row list) \<times> registry_tables" where
  "list_failovers primary =
     query (\<lambda>t. sort_key fo_priority (filter (\<lambda>f. fo_primary f = primary) (rt_failovers t)))"

definition list_all_failovers :: "registry_tables \<Rightarrow> (string + failover_row list) \<times> registry_tables" where
  "list_all_failovers = query (\<lambda>t. sort_key fo_primary (sort_key fo_priority (rt_failovers t)))"

section \<open>The audit log\<close>

text \<open>An entry that cannot be written is logged and dropped; reading the new row back may fail too.\<close>

definition audit :: "audit_entry \<Rightarrow> registry_tables \<Rightarrow> registry_tables" where
  "audit e t =
     (case execute (\<lambda>t. t\<lparr>rt_audit := rt_audit t @ [e]\<rparr>) t of
        (Inl x, t) \<Rightarrow> t
      | (Inr _, t) \<Rightarrow> snd (statement t))"

section \<open>With a working database\<close>

definition healthy :: "registry_tables \<Rightarrow> bool" where
  "healthy t \<longleftrightarrow> rt_faults t = []"

lemma statement_healthy [simp]: "healthy t \<Longrightarrow> statement t = (False, t)"
  by (simp add: healthy_def statement_def)

lemma query_healthy [simp]: "healthy t \<Longrightarrow> query f t = (Inr (f t), t)"
  by (simp add: query_def)

lemma execute_healthy [simp]: "healthy t \<Longrightarrow> execute f t = (Inr (), f t)"
  by (simp add: execute_def)

text \<open>A statement consumes a fault and changes nothing else.\<close>

lemma statement_frame:
  "statement t = (bad, t') \<Longrightarrow> rt_models t' = rt_models t \<and> rt_providers t' = rt_providers t
     \<and> rt_aliases t' = rt_aliases t \<and> rt_failovers t' = rt_failovers t \<and> rt_audit t' = rt_audit t"
  by (auto simp: statement_def split: list.splits)

lemma audit_healthy [simp]: "healthy t \<Longrightarrow> audit e t = t\<lparr>rt_audit := rt_audit t @ [e]\<rparr>"
  by (simp add: audit_def healthy_def statement_def)

lemma audit_frame: "rt_models (audit e t) = rt_models t \<and> rt_providers (audit e t) = rt_providers t
    \<and> rt_aliases (audit e t) = rt_aliases t \<and> rt_failovers (audit e t) = rt_failovers t"
  by (auto simp: audit_def execute_def statement_def split: list.splits)

end
