(* ===== verification/Registry_Admin.thy ===== *)
theory Registry_Admin
  imports Model_Registry Engine Fallback Json Sse_Lines
begin

text \<open>
  The administration of aliases, models, providers and failover chains (\<open>src/src/api/admin/aliases.rs\<close>,
  \<open>models.rs\<close>): what is written to the database and published to the live router. The catalog of the
  providers, the JSON printer and the iteration order of hash maps are parameters.
\<close>

section \<open>What the tables say\<close>

definition enabled_alias :: "model_row \<Rightarrow> (string \<times> string) option" where
  "enabled_alias m =
     (if md_enabled m then map_option (\<lambda>a. (a, md_provider m @ ''/'' @ md_name m)) (md_alias m) else None)"

definition insert_all :: "('k \<times> 'v) list \<Rightarrow> ('k \<rightharpoonup> 'v) \<Rightarrow> ('k \<rightharpoonup> 'v)" where
  "insert_all kvs m = foldl (\<lambda>m (k, v). m(k \<mapsto> v)) m kvs"

text \<open>A listing that fails counts as an empty one.\<close>

definition listed :: "(string + 'a list) \<times> registry_tables \<Rightarrow> 'a list \<times> registry_tables" where
  "listed r = (case fst r of Inl e \<Rightarrow> [] | Inr xs \<Rightarrow> xs, snd r)"

definition build_db_alias_map :: "registry_tables \<Rightarrow> (string \<rightharpoonup> string) \<times> registry_tables" where
  "build_db_alias_map t =
     (let (models, t) = listed (list_models t);
          m = insert_all (List.map_filter enabled_alias models) Map.empty;
          (rows, t) = listed (list_aliases t)
      in (insert_all (map (\<lambda>r. (al_alias r, al_target r)) rows) m, t))"

definition disabled_entry :: "model_row \<Rightarrow> (string \<times> disable_info) option" where
  "disabled_entry m =
     (if md_enabled m then None
      else Some (md_provider m @ ''/'' @ md_name m,
                 \<lparr>reason = md_disabled_reason m, disabled_by = md_disabled_by m, disabled_at = md_disabled_at m\<rparr>))"

definition disabled_provider :: "provider_state \<Rightarrow> (string \<times> disable_info) option" where
  "disabled_provider p =
     (if ps_enabled p then None
      else Some (ps_provider p,
                 \<lparr>reason = ps_disabled_reason p, disabled_by = ps_disabled_by p, disabled_at = ps_disabled_at p\<rparr>))"

definition build_availability_map :: "registry_tables \<Rightarrow> availability_map \<times> registry_tables" where
  "build_availability_map t =
     (let (models, t) = listed (list_models t);
          (ps, t) = listed (list_provider_states t)
      in (\<lparr>disabled_models = insert_all (List.map_filter disabled_entry models) Map.empty,
           disabled_providers = insert_all (List.map_filter disabled_provider ps) Map.empty\<rparr>, t))"

section \<open>State\<close>

record admin_state =
  as_tables :: registry_tables
  as_router :: request_router
  as_fallback :: fallback_chain
  as_catalogs :: "json list"

text \<open>
  \<open>as_catalogs\<close> are the answers of \<open>cached_catalog\<close> to come; the configuration names the providers.
\<close>

record admin_env =
  ae_providers :: "string list"
  ae_print :: "json \<Rightarrow> string"
  ae_order :: "chains \<Rightarrow> chains"
  ae_now :: string

record admin_session =
  se_sub :: int
  se_name :: string

datatype dashboard_error =
    DashTemplate string
  | DashUnauthorized
  | DashForbidden
  | DashBadRequest string
  | DashNotFound string
  | DashInternal

definition refresh_router_aliases :: "admin_state \<Rightarrow> admin_state" where
  "refresh_router_aliases s =
     (let (m, t) = build_db_alias_map (as_tables s)
      in s\<lparr>as_tables := t, as_router := update_db_aliases (as_router s) m\<rparr>)"

definition refresh_router_state :: "admin_state \<Rightarrow> admin_state" where
  "refresh_router_state s =
     (let s = refresh_router_aliases s; (am, t) = build_availability_map (as_tables s)
      in s\<lparr>as_tables := t, as_router := update_availability (as_router s) am\<rparr>)"

text \<open>Rows grouped by primary, each chain in the order of the rows.\<close>

fun push_chain :: "string \<Rightarrow> string \<Rightarrow> chains \<Rightarrow> chains" where
  "push_chain p f [] = [(p, [f])]"
| "push_chain p f ((q, fs) # cs) = (if q = p then (q, fs @ [f]) # cs else (q, fs) # push_chain p f cs)"

definition chains_of :: "failover_row list \<Rightarrow> chains" where
  "chains_of rows = foldl (\<lambda>cs r. push_chain (fo_primary r) (fo_fallback r) cs) [] rows"

definition refresh_router_failovers :: "admin_env \<Rightarrow> admin_state \<Rightarrow> admin_state" where
  "refresh_router_failovers env s =
     (case list_all_failovers (as_tables s) of
        (Inl e, t) \<Rightarrow> s\<lparr>as_tables := t\<rparr>
      | (Inr rows, t) \<Rightarrow> s\<lparr>as_tables := t, as_fallback := update_db_chains (as_fallback s) (ae_order env (chains_of rows))\<rparr>)"

text \<open>What the server does once when it starts.\<close>

definition seed_router :: "admin_env \<Rightarrow> admin_state \<Rightarrow> admin_state" where
  "seed_router env s = refresh_router_failovers env (refresh_router_state s)"

definition run :: "(registry_tables \<Rightarrow> 'a \<times> registry_tables) \<Rightarrow> admin_state \<Rightarrow> 'a \<times> admin_state" where
  "run f s = (case f (as_tables s) of (r, t) \<Rightarrow> (r, s\<lparr>as_tables := t\<rparr>))"

definition audited ::
  "admin_session \<Rightarrow> string \<Rightarrow> string \<Rightarrow> string option \<Rightarrow> string option \<Rightarrow> admin_state \<Rightarrow> admin_state" where
  "audited sess action tgt before after s =
     s\<lparr>as_tables := audit
         \<lparr>au_actor_id = Some (se_sub sess), au_actor_name = se_name sess, au_action = action, au_target = Some tgt,
          au_before = before, au_after = after\<rparr> (as_tables s)\<rparr>"

section \<open>Checking an alias\<close>

fun cycle_walk :: "nat \<Rightarrow> (string \<rightharpoonup> string) \<Rightarrow> string \<Rightarrow> string \<Rightarrow> bool" where
  "cycle_walk 0 m a cur = True"
| "cycle_walk (Suc n) m a cur =
     (if cur = a then True
      else case m cur of Some nxt \<Rightarrow> cycle_walk n m a nxt | None \<Rightarrow> False)"

definition would_cycle :: "(string \<rightharpoonup> string) \<Rightarrow> string \<Rightarrow> string \<Rightarrow> bool" where
  "would_cycle m a dest = cycle_walk max_alias_depth m a dest"

definition cached_catalog :: "admin_state \<Rightarrow> json \<times> admin_state" where
  "cached_catalog s =
     (case as_catalogs s of [] \<Rightarrow> (JNull, s) | c # cs \<Rightarrow> (c, s\<lparr>as_catalogs := cs\<rparr>))"

definition catalog_id :: "json \<Rightarrow> string option" where
  "catalog_id m =
     (case (Option.bind (jget_opt m ''provider'') as_str, Option.bind (jget_opt m ''name'') as_str) of
        (Some p, Some n) \<Rightarrow> Some (p @ ''/'' @ n)
      | _ \<Rightarrow> None)"

definition provider_ids :: "json \<Rightarrow> string list" where
  "provider_ids entry =
     (case Option.bind (jget_opt entry ''models'') as_array of
        None \<Rightarrow> []
      | Some ms \<Rightarrow> List.map_filter catalog_id ms)"

definition available_model_ids :: "json \<Rightarrow> string list option" where
  "available_model_ids catalog =
     Option.bind (Option.bind (jget_opt catalog ''providers'') as_object) (\<lambda>ps.
       let ids = concat (map (\<lambda>(_, entry). provider_ids entry) ps)
       in if ids = [] then None else Some ids)"

text \<open>The provider of the target is listed, but has no models or an error.\<close>

definition provider_degraded :: "string \<Rightarrow> json \<Rightarrow> bool" where
  "provider_degraded dest catalog =
     (case Option.bind (Option.bind (jget_opt catalog ''providers'') as_object)
             (\<lambda>ps. map_of ps (takeWhile (\<lambda>c. c \<noteq> CHR ''/'') dest)) of
        None \<Rightarrow> False
      | Some entry \<Rightarrow> jget_opt entry ''models'' = None \<or> jget_opt entry ''error'' \<noteq> None)"

definition not_in_catalog_msg :: "string \<Rightarrow> string" where
  "not_in_catalog_msg dest =
     ''model '' @ quoted dest @ '' not found in provider catalogs ''
       @ [CHR 0xE2, CHR 0x80, CHR 0x94] @ '' validation can be bypassed when catalog is unavailable''"

definition validate_alias_against_catalog :: "string \<Rightarrow> admin_state \<Rightarrow> (string + unit) \<times> admin_state" where
  "validate_alias_against_catalog dest s =
     (let (catalog, s) = cached_catalog s
      in case available_model_ids catalog of
           None \<Rightarrow> (Inr (), s)
         | Some ids \<Rightarrow>
             if dest \<in> set ids then (Inr (), s)
             else if CHR ''/'' \<in> set dest
             then let (again, s) = cached_catalog s
                  in (if provider_degraded dest again then Inr () else Inl (not_in_catalog_msg dest), s)
             else (Inl (not_in_catalog_msg dest), s))"

definition alias_required_msg :: string where
  "alias_required_msg = ''alias and target are required''"

definition alias_reserved_msg :: string where
  "alias_reserved_msg =
     ''aliases may not start with '' @ quoted '':'' @ '' '' @ [CHR 0xE2, CHR 0x80, CHR 0x94]
       @ '' that prefix is reserved for routing shortcuts''"

definition alias_self_msg :: "string \<Rightarrow> string" where
  "alias_self_msg a = ''alias '' @ quoted a @ '' cannot point at itself''"

definition alias_cycle_msg :: "string \<Rightarrow> string \<Rightarrow> string" where
  "alias_cycle_msg a dest = ''alias '' @ quoted a @ '' -> '' @ quoted dest @ '' would create an alias cycle''"

text \<open>The map a new target is walked in: the database without the alias, and the configuration below it.\<close>

definition validation_map :: "(string \<rightharpoonup> string) \<Rightarrow> (string \<rightharpoonup> string) \<Rightarrow> string \<Rightarrow> (string \<rightharpoonup> string)" where
  "validation_map cfg db a = cfg ++ db(a := None)"

definition validate_alias :: "string \<Rightarrow> string \<Rightarrow> admin_state \<Rightarrow> (string + string \<times> string) \<times> admin_state" where
  "validate_alias a0 d0 s =
     (let a = trim a0; d = trim d0
      in if a = [] \<or> d = [] then (Inl alias_required_msg, s)
         else if starts_with '':'' a then (Inl alias_reserved_msg, s)
         else if a = d then (Inl (alias_self_msg a), s)
         else let (db, s) = run build_db_alias_map s
              in if would_cycle (validation_map (model_aliases (routing (as_router s))) db a) a d
                 then (Inl (alias_cycle_msg a d), s)
                 else case validate_alias_against_catalog d s of
                        (Inl e, s) \<Rightarrow> (Inl e, s)
                      | (Inr _, s) \<Rightarrow> (Inr (a, d), s))"

section \<open>Aliases\<close>

definition target_json :: "admin_env \<Rightarrow> string \<Rightarrow> string" where
  "target_json env d = ae_print env (jobj [(''target'', JStr d)])"

text \<open>What both ways to set an alias do once it is checked.\<close>

definition store_alias ::
  "admin_env \<Rightarrow> admin_session \<Rightarrow> string \<Rightarrow> string \<Rightarrow> admin_state \<Rightarrow> (unit + alias_row) \<times> admin_state" where
  "store_alias env sess a d s =
     (case run (get_alias a) s of
        (Inl e, s) \<Rightarrow> (Inl (), s)
      | (Inr before, s) \<Rightarrow>
          (case run (upsert_alias (ae_now env) a d (Some (se_name sess))) s of
             (Inl e, s) \<Rightarrow> (Inl (), s)
           | (Inr saved, s) \<Rightarrow>
               (Inr saved,
                audited sess (if before \<noteq> None then ''alias.update'' else ''alias.create'') (''alias:'' @ a)
                  (map_option (\<lambda>b. target_json env (al_target b)) before) (Some (target_json env d))
                  (refresh_router_aliases s))))"

definition upsert_alias_api ::
  "admin_env \<Rightarrow> admin_session \<Rightarrow> string \<Rightarrow> string \<Rightarrow> admin_state \<Rightarrow> (api_error + alias_row) \<times> admin_state" where
  "upsert_alias_api env sess a0 d0 s =
     (case validate_alias a0 d0 s of
        (Inl m, s) \<Rightarrow> (Inl (InvalidRequest m), s)
      | (Inr (a, d), s) \<Rightarrow> apfst (map_sum (\<lambda>_. Internal) id) (store_alias env sess a d s))"

definition no_such_alias_msg :: "string \<Rightarrow> string" where
  "no_such_alias_msg a = ''no such alias: '' @ a"

definition delete_alias_api ::
  "admin_env \<Rightarrow> admin_session \<Rightarrow> string \<Rightarrow> admin_state \<Rightarrow> (api_error + json) \<times> admin_state" where
  "delete_alias_api env sess a s =
     (case run (get_alias a) s of
        (Inl e, s) \<Rightarrow> (Inl Internal, s)
      | (Inr before, s) \<Rightarrow>
          (case run (delete_alias a) s of
             (Inl e, s) \<Rightarrow> (Inl Internal, s)
           | (Inr False, s) \<Rightarrow> (Inl (InvalidRequest (no_such_alias_msg a)), s)
           | (Inr True, s) \<Rightarrow>
               (Inr (jobj [(''ok'', JBool True), (''alias'', JStr a)]),
                audited sess ''alias.delete'' (''alias:'' @ a) (map_option (\<lambda>b. target_json env (al_target b)) before) None
                  (refresh_router_aliases s))))"

text \<open>The dashboard's forms; the first result is the alert, the second the saved pair of the page.\<close>

definition post_set_alias ::
  "admin_env \<Rightarrow> admin_session \<Rightarrow> string \<Rightarrow> string \<Rightarrow> admin_state
     \<Rightarrow> (dashboard_error + (string + string \<times> string)) \<times> admin_state" where
  "post_set_alias env sess a0 d0 s =
     (case validate_alias a0 d0 s of
        (Inl m, s) \<Rightarrow> (Inr (Inl m), s)
      | (Inr (a, d), s) \<Rightarrow> apfst (map_sum (\<lambda>_. DashInternal) (\<lambda>_. Inr (a, d))) (store_alias env sess a d s))"

definition post_delete_alias ::
  "admin_env \<Rightarrow> admin_session \<Rightarrow> string \<Rightarrow> admin_state \<Rightarrow> (dashboard_error + string) \<times> admin_state" where
  "post_delete_alias env sess a s =
     (case run (get_alias a) s of
        (Inl e, s) \<Rightarrow> (Inl DashInternal, s)
      | (Inr before, s) \<Rightarrow>
          (case run (delete_alias a) s of
             (Inl e, s) \<Rightarrow> (Inl DashInternal, s)
           | (Inr _, s) \<Rightarrow>
               (Inr [],
                audited sess ''alias.delete'' (''alias:'' @ a) (map_option (\<lambda>b. target_json env (al_target b)) before) None
                  (refresh_router_aliases s))))"

section \<open>Models and providers\<close>

definition clean_reason :: "string option \<Rightarrow> string option" where
  "clean_reason r = (case map_option trim r of Some x \<Rightarrow> if x = [] then None else Some x | None \<Rightarrow> None)"

definition enabled_json :: "admin_env \<Rightarrow> bool \<Rightarrow> string option \<Rightarrow> string" where
  "enabled_json env enabled why =
     ae_print env (jobj [(''enabled'', JBool enabled), (''reason'', case why of Some w \<Rightarrow> JStr w | None \<Rightarrow> JNull)])"

text \<open>Toggling a model, for both surfaces; \<open>Inl None\<close> is an internal error, \<open>Inl (Some _)\<close> an unknown model.\<close>

definition toggle_model ::
  "admin_env \<Rightarrow> admin_session \<Rightarrow> int \<Rightarrow> bool \<Rightarrow> string option \<Rightarrow> admin_state \<Rightarrow> (unit option + model_row option) \<times> admin_state" where
  "toggle_model env sess i enabled why s =
     (case run (get_model i) s of
        (Inl e, s) \<Rightarrow> (Inl None, s)
      | (Inr None, s) \<Rightarrow> (Inl (Some ()), s)
      | (Inr (Some before), s) \<Rightarrow>
          (case run (set_model_enabled_with_reason (ae_now env) i enabled why (Some (se_name sess))) s of
             (Inl e, s) \<Rightarrow> (Inl None, s)
           | (Inr _, s) \<Rightarrow>
               (case run (get_model i)
                       (audited sess (if enabled then ''model.enable'' else ''model.disable'')
                          (''model:'' @ md_provider before @ ''/'' @ md_name before)
                          (Some (ae_print env (jobj [(''enabled'', JBool (md_enabled before))])))
                          (Some (enabled_json env enabled why)) (refresh_router_state s)) of
                  (Inl e, s) \<Rightarrow> (Inl None, s)
                | (Inr after, s) \<Rightarrow> (Inr after, s))))"

definition set_model_enabled_api ::
  "admin_env \<Rightarrow> admin_session \<Rightarrow> int \<Rightarrow> bool \<Rightarrow> string option \<Rightarrow> admin_state \<Rightarrow> (api_error + model_row) \<times> admin_state" where
  "set_model_enabled_api env sess i enabled why s =
     (case toggle_model env sess i enabled (clean_reason why) s of
        (Inl None, s) \<Rightarrow> (Inl Internal, s)
      | (Inl (Some _), s) \<Rightarrow> (Inl (InvalidRequest (''no such model: '' @ show_int i)), s)
      | (Inr None, s) \<Rightarrow> (Inl Internal, s)
      | (Inr (Some m), s) \<Rightarrow> (Inr m, s))"

definition set_model_from_dashboard ::
  "admin_env \<Rightarrow> admin_session \<Rightarrow> int \<Rightarrow> bool \<Rightarrow> string option \<Rightarrow> admin_state \<Rightarrow> (dashboard_error + model_row) \<times> admin_state" where
  "set_model_from_dashboard env sess i enabled why s =
     (case toggle_model env sess i enabled why s of
        (Inl None, s) \<Rightarrow> (Inl DashInternal, s)
      | (Inl (Some _), s) \<Rightarrow> (Inl (DashNotFound (''model '' @ show_int i)), s)
      | (Inr None, s) \<Rightarrow> (Inl (DashNotFound (''model '' @ show_int i)), s)
      | (Inr (Some m), s) \<Rightarrow> (Inr m, s))"

definition toggle_provider ::
  "admin_env \<Rightarrow> admin_session \<Rightarrow> string \<Rightarrow> bool \<Rightarrow> string option \<Rightarrow> admin_state
     \<Rightarrow> (unit + provider_state option) \<times> admin_state" where
  "toggle_provider env sess p enabled why s =
     (case run (set_provider_enabled (ae_now env) p enabled why (Some (se_name sess))) s of
        (Inl e, s) \<Rightarrow> (Inl (), s)
      | (Inr _, s) \<Rightarrow>
          apfst (map_sum (\<lambda>_. ()) id)
            (run (get_provider_state p)
               (audited sess (if enabled then ''provider.enable'' else ''provider.disable'') (''provider:'' @ p) None
                  (Some (enabled_json env enabled why)) (refresh_router_state s))))"

definition set_provider_enabled_api ::
  "admin_env \<Rightarrow> admin_session \<Rightarrow> string \<Rightarrow> bool \<Rightarrow> string option \<Rightarrow> admin_state
     \<Rightarrow> (api_error + string \<times> bool \<times> provider_state option) \<times> admin_state" where
  "set_provider_enabled_api env sess p enabled why s =
     (if p \<notin> set (ae_providers env) then (Inl (InvalidRequest (''unknown provider: '' @ p)), s)
      else apfst (map_sum (\<lambda>_. Internal) (\<lambda>st. (p, enabled, st))) (toggle_provider env sess p enabled (clean_reason why) s))"

definition set_provider_from_dashboard ::
  "admin_env \<Rightarrow> admin_session \<Rightarrow> string \<Rightarrow> bool \<Rightarrow> string option \<Rightarrow> admin_state
     \<Rightarrow> (dashboard_error + provider_state option) \<times> admin_state" where
  "set_provider_from_dashboard env sess p enabled why s =
     (if p \<notin> set (ae_providers env) then (Inl (DashNotFound (''provider '' @ p)), s)
      else apfst (map_sum (\<lambda>_. DashInternal) id) (toggle_provider env sess p enabled why s))"

text \<open>Registering and deleting a model; \<open>Inr None\<close> is the form's own error.\<close>

definition post_create_model ::
  "admin_env \<Rightarrow> admin_session \<Rightarrow> string \<Rightarrow> string \<Rightarrow> string option \<Rightarrow> admin_state
     \<Rightarrow> (dashboard_error + model_row option) \<times> admin_state" where
  "post_create_model env sess p0 n0 a0 s =
     (let p = trim p0; n = trim n0; a = clean_reason a0
      in if p = [] \<or> n = [] then (Inr None, s)
         else case run (create_model (ae_now env) p n a) s of
                (Inl e, s) \<Rightarrow> (Inl DashInternal, s)
              | (Inr m, s) \<Rightarrow>
                  (Inr (Some m),
                   refresh_router_aliases
                     (audited sess ''model.create'' (''model:'' @ show_int (md_id m)) None
                        (Some (ae_print env (jobj [(''provider'', JStr p), (''name'', JStr n),
                                                   (''alias'', case a of Some x \<Rightarrow> JStr x | None \<Rightarrow> JNull)]))) s)))"

definition post_delete_model ::
  "admin_env \<Rightarrow> admin_session \<Rightarrow> int \<Rightarrow> admin_state \<Rightarrow> (dashboard_error + string) \<times> admin_state" where
  "post_delete_model env sess i s =
     (case run (delete_model i) s of
        (Inl e, s) \<Rightarrow> (Inl DashInternal, s)
      | (Inr _, s) \<Rightarrow>
          (Inr [], audited sess ''model.delete'' (''model:'' @ show_int i) None None (refresh_router_aliases s)))"

section \<open>Failover chains\<close>

definition parse_fallbacks :: "string \<Rightarrow> string list" where
  "parse_fallbacks text0 =
     filter (\<lambda>x. x \<noteq> []) (map trim (concat (map (split_on CHR 0x0A) (split_on CHR '','' text0))))"

definition post_set_failovers ::
  "admin_env \<Rightarrow> admin_session \<Rightarrow> string \<Rightarrow> string \<Rightarrow> admin_state \<Rightarrow> (dashboard_error + string list) \<times> admin_state" where
  "post_set_failovers env sess primary form s =
     (let fs = parse_fallbacks form
      in case run (set_failovers primary fs) s of
           (Inl e, s) \<Rightarrow> (Inl DashInternal, s)
         | (Inr _, s) \<Rightarrow>
             (Inr fs,
              refresh_router_failovers env
                (audited sess ''model.failover.set'' (''model:'' @ primary) None
                   (Some (ae_print env (jobj [(''fallbacks'', JArr (map JStr fs))]))) s)))"

section \<open>Listings and rendering\<close>

text \<open>The providers page: configured providers and any with a state of their own, by name.\<close>

definition provider_names :: "admin_env \<Rightarrow> provider_state list \<Rightarrow> string list" where
  "provider_names env states =
     sort (foldl (\<lambda>names s. if ps_provider s \<in> set names then names else names @ [ps_provider s]) (ae_providers env) states)"

definition opt_str_json :: "string option \<Rightarrow> json" where
  "opt_str_json x = (case x of Some v \<Rightarrow> JStr v | None \<Rightarrow> JNull)"

definition provider_view :: "provider_state list \<Rightarrow> string \<Rightarrow> json" where
  "provider_view states name =
     (let st = find (\<lambda>s. ps_provider s = name) states
      in jobj [(''provider'', JStr name),
               (''enabled'', JBool (case st of Some r \<Rightarrow> ps_enabled r | None \<Rightarrow> True)),
               (''disabled_reason'', opt_str_json (Option.bind st ps_disabled_reason)),
               (''disabled_by'', opt_str_json (Option.bind st ps_disabled_by)),
               (''disabled_at'', opt_str_json (Option.bind st ps_disabled_at))])"

definition provider_views :: "admin_env \<Rightarrow> registry_tables \<Rightarrow> (string + json list) \<times> registry_tables" where
  "provider_views env t =
     (case list_provider_states t of
        (Inl e, t) \<Rightarrow> (Inl e, t)
      | (Inr states, t) \<Rightarrow> (Inr (map (provider_view states) (provider_names env states)), t))"

text \<open>\<open>he\<close>: what a table cell shows of a text.\<close>

definition escape_char :: "char \<Rightarrow> string" where
  "escape_char c =
     (if c = CHR ''&'' then ''&amp;'' else if c = CHR ''<'' then ''&lt;'' else if c = CHR ''>'' then ''&gt;''
      else if c = CHR 0x22 then ''&quot;'' else [c])"

definition he :: "string \<Rightarrow> string" where
  "he s = concat (map escape_char s)"

definition sanitize_id :: "string \<Rightarrow> string" where
  "sanitize_id a = map (\<lambda>c. if is_alnum c then c else CHR ''-'') a"

end
