(* ===== verification/Registry_Properties.thy ===== *)
theory Registry_Properties
  imports Registry_Admin
begin

text \<open>
  What the administration of the registry guarantees: keys stay unique, an accepted alias resolves and closes
  no cycle, and the live router is what the tables say.
\<close>

section \<open>The alias map of the tables\<close>

lemma healthy_updates [simp]:
  "healthy (t\<lparr>rt_models := a\<rparr>) = healthy t" "healthy (t\<lparr>rt_providers := b\<rparr>) = healthy t"
  "healthy (t\<lparr>rt_aliases := c\<rparr>) = healthy t" "healthy (t\<lparr>rt_failovers := d\<rparr>) = healthy t"
  "healthy (t\<lparr>rt_audit := e\<rparr>) = healthy t" "healthy (t\<lparr>rt_last_model := f\<rparr>) = healthy t"
  "healthy (t\<lparr>rt_last_failover := g\<rparr>) = healthy t"
  by (simp_all add: healthy_def)

definition alias_pairs :: "registry_tables \<Rightarrow> (string \<times> string) list" where
  "alias_pairs t = map (\<lambda>r. (al_alias r, al_target r)) (rt_aliases t)"

definition model_aliases_of :: "registry_tables \<Rightarrow> (string \<rightharpoonup> string)" where
  "model_aliases_of t = insert_all (List.map_filter enabled_alias (sort_key md_provider (sort_key md_name (rt_models t)))) Map.empty"

definition effective :: "registry_tables \<Rightarrow> (string \<rightharpoonup> string)" where
  "effective t = model_aliases_of t ++ map_of (alias_pairs t)"

definition availability_of :: "registry_tables \<Rightarrow> availability_map" where
  "availability_of t = fst (build_availability_map (t\<lparr>rt_faults := []\<rparr>))"

lemma db_alias_map_of: "insert_all kvs m = m ++ map_of (rev kvs)"
  unfolding insert_all_def by (induction kvs arbitrary: m) auto

lemma map_of_same_set:
  "distinct (map fst xs) \<Longrightarrow> distinct (map fst ys) \<Longrightarrow> set xs = set ys \<Longrightarrow> map_of xs = map_of ys"
  by (simp add: map_of_inject_set)

text \<open>The keys of the schema.\<close>

definition tables_ok :: "registry_tables \<Rightarrow> bool" where
  "tables_ok t \<longleftrightarrow>
     distinct (map al_alias (rt_aliases t)) \<and> distinct (map ps_provider (rt_providers t))
     \<and> distinct (map md_id (rt_models t)) \<and> (\<forall>m \<in> set (rt_models t). md_id m \<le> rt_last_model t)
     \<and> distinct (map md_alias (filter (\<lambda>m. md_alias m \<noteq> None) (rt_models t)))
     \<and> distinct (map (\<lambda>f. (fo_primary f, fo_fallback f)) (rt_failovers t))"

lemma build_db_alias_map_healthy:
  assumes "healthy t" and "tables_ok t"
  shows "build_db_alias_map t = (effective t, t)"
proof -
  let ?f = "\<lambda>r. (al_alias r, al_target r)"
  let ?sorted = "sort_key al_alias (rt_aliases t)"
  have d: "distinct (map al_alias (rt_aliases t))" using assms(2) by (simp add: tables_ok_def)
  have "distinct (map al_alias ?sorted)" using d by (simp add: distinct_map)
  then have "map_of (rev (map ?f ?sorted)) = map_of (alias_pairs t)"
    using d by (intro map_of_same_set) (simp_all add: alias_pairs_def rev_map [symmetric] comp_def)
  then show ?thesis
    using assms(1)
    by (simp add: build_db_alias_map_def list_models_def list_aliases_def listed_def effective_def model_aliases_of_def
        db_alias_map_of [of "map ?f ?sorted"])
qed

lemma availability_of_built:
  assumes "healthy t"
  shows "build_availability_map t = (availability_of t, t)"
proof -
  have "t\<lparr>rt_faults := []\<rparr> = t" using assms by (simp add: healthy_def)
  then show ?thesis
    using assms by (simp add: availability_of_def build_availability_map_def listed_def list_models_def list_provider_states_def)
qed

lemma map_of_upsert:
  assumes "\<And>r. fst (f r) = key r" and "\<And>r. key r = k \<Longrightarrow> f (ch r) = (k, v)" and "f new = (k, v)"
  shows "map_of (map f (upsert (\<lambda>r. key r = k) ch new rows)) = (map_of (map f rows))(k \<mapsto> v)"
proof -
  have changed: "map_of (map f (map (\<lambda>r. if key r = k then ch r else r) rows)) x
      = (if x = k \<and> (\<exists>r \<in> set rows. key r = k) then Some v else map_of (map f rows) x)" for x
  proof (induction rows)
    case (Cons r rows)
    obtain y where y: "f r = (key r, y)" using assms(1) by (metis prod.collapse)
    show ?case
    proof (cases "key r = k")
      case True
      with assms(2) have "f (ch r) = (k, v)" by blast
      with True Cons.IH y show ?thesis by simp
    next
      case False
      with Cons.IH y show ?thesis by auto
    qed
  qed simp
  have fresh: "map_of (map f rows) k = None" if "\<not> list_ex (\<lambda>r. key r = k) rows"
    using that
  proof (induction rows)
    case (Cons r rows)
    obtain y where y: "f r = (key r, y)" using assms(1) by (metis prod.collapse)
    from Cons show ?case by (auto simp: y)
  qed simp
  show ?thesis
  proof (rule ext)
    fix x
    show "map_of (map f (upsert (\<lambda>r. key r = k) ch new rows)) x = ((map_of (map f rows))(k \<mapsto> v)) x"
      using changed [of x] fresh assms(3)
      by (cases "list_ex (\<lambda>r. key r = k) rows") (auto simp: upsert_def list_ex_iff map_add_def split: option.splits)
  qed
qed

lemma upsert_keys:
  assumes "\<And>r. key r = k \<Longrightarrow> key (ch r) = k" and "key new = k" and "distinct (map key rows)"
  shows "distinct (map key (upsert (\<lambda>r. key r = k) ch new rows))"
proof -
  have same: "map key (map (\<lambda>r. if key r = k then ch r else r) rows) = map key rows" using assms(1) by auto
  show ?thesis
  proof (cases "list_ex (\<lambda>r. key r = k) rows")
    case True
    then show ?thesis using assms(3) by (simp only: upsert_def if_True same)
  next
    case False
    then show ?thesis using assms(2,3) by (auto simp: upsert_def list_ex_iff)
  qed
qed

section \<open>Walking aliases\<close>

lemma alias_path_avoids:
  assumes "alias_path m k x e" and "\<not> cycle_walk n m a x" and "m e = None" and "k < n"
  shows "alias_path (m(a \<mapsto> d)) k x e \<and> e \<noteq> a"
  using assms
proof (induction arbitrary: n rule: alias_path.induct)
  case (here s)
  then show ?case by (cases n) (auto intro: alias_path.here split: if_splits)
next
  case (hop s t k u)
  then obtain n' where n: "n = Suc n'" by (cases n) auto
  with hop.prems hop.hyps(1) have "s \<noteq> a" "\<not> cycle_walk n' m a t" by (auto split: if_splits)
  with hop n show ?case by (auto intro: alias_path.hop)
qed

lemma walk_ends:
  assumes "\<not> cycle_walk n m a x"
  obtains k e where "alias_path m k x e" and "m e = None" and "k < n"
  using assms
proof (induction n arbitrary: x thesis)
  case (Suc n)
  show ?case
  proof (cases "m x")
    case None
    show ?thesis by (rule Suc.prems(1) [of 0 x]) (use None in \<open>auto intro: alias_path.here\<close>)
  next
    case (Some y)
    with Suc.prems(2) have "\<not> cycle_walk n m a y" by (auto split: if_splits)
    then obtain k e where "alias_path m k y e" "m e = None" "k < n" using Suc.IH by blast
    with Some show ?thesis by (intro Suc.prems(1) [of "Suc k" e]) (auto intro: alias_path.hop)
  qed
qed simp

text \<open>The walk from a name comes to an end.\<close>

definition ends :: "(string \<rightharpoonup> string) \<Rightarrow> string \<Rightarrow> bool" where
  "ends m x \<longleftrightarrow> (\<exists>k e. alias_path m k x e \<and> m e = None)"

lemma ends_hop: "m x = Some y \<Longrightarrow> ends m x = ends m y"
  unfolding ends_def by (auto intro: alias_path.hop elim!: alias_path.cases [of m _ x]) blast

lemma ends_here: "m x = None \<Longrightarrow> ends m x"
  unfolding ends_def by (auto intro: alias_path.here)

text \<open>Redirecting one name to a target whose own walk ends elsewhere keeps every walk finite.\<close>

lemma ends_redirect:
  assumes "ends m' a" and "\<And>x. x \<noteq> a \<Longrightarrow> m' x = m x" and "ends m x"
  shows "ends m' x"
proof -
  obtain k e where "alias_path m k x e" "m e = None" using assms(3) by (auto simp: ends_def)
  then show ?thesis
  proof (induction rule: alias_path.induct)
    case (here s)
    then show ?case using assms(1,2) by (cases "s = a") (auto intro: ends_here)
  next
    case (hop s t k u)
    then show ?case using assms(1,2) ends_hop [of m' s t] by (cases "s = a") auto
  qed
qed

section \<open>One step of an administrator\<close>

text \<open>
  The operations that publish what they write, each as a step; deleting a model is left out: it does not
  publish the disable snapshot (see below).
\<close>

inductive admin_step :: "admin_env \<Rightarrow> admin_state \<Rightarrow> admin_state \<Rightarrow> bool" for env where
  set_alias: "upsert_alias_api env sess a d s = (r, s') \<Longrightarrow> admin_step env s s'"
| set_alias_form: "post_set_alias env sess a d s = (r', s') \<Longrightarrow> admin_step env s s'"
| drop_alias: "delete_alias_api env sess a s = (q, s') \<Longrightarrow> admin_step env s s'"
| drop_alias_form: "post_delete_alias env sess a s = (q', s') \<Longrightarrow> admin_step env s s'"
| toggle: "set_model_enabled_api env sess i on why s = (m, s') \<Longrightarrow> admin_step env s s'"
| toggle_form: "set_model_from_dashboard env sess i on why s = (m', s') \<Longrightarrow> admin_step env s s'"
| switch: "set_provider_enabled_api env sess p on why s = (ps, s') \<Longrightarrow> admin_step env s s'"
| switch_form: "set_provider_from_dashboard env sess p on why s = (ps', s') \<Longrightarrow> admin_step env s s'"
| register: "post_create_model env sess p n al s = (c, s') \<Longrightarrow> admin_step env s s'"
| chain: "post_set_failovers env sess p form s = (f, s') \<Longrightarrow> admin_step env s s'"

definition published :: "admin_state \<Rightarrow> bool" where
  "published s \<longleftrightarrow>
     healthy (as_tables s) \<and> tables_ok (as_tables s)
     \<and> db_aliases (as_router s) = effective (as_tables s)
     \<and> availability (as_router s) = availability_of (as_tables s)"

lemma effective_other_tables [simp]:
  "effective (t\<lparr>rt_audit := x\<rparr>) = effective t" "effective (t\<lparr>rt_providers := y\<rparr>) = effective t"
  "effective (t\<lparr>rt_failovers := z\<rparr>) = effective t" "effective (t\<lparr>rt_last_failover := w\<rparr>) = effective t"
  by (simp_all add: effective_def model_aliases_of_def alias_pairs_def)

lemma availability_other_tables [simp]:
  "availability_of (t\<lparr>rt_audit := x\<rparr>) = availability_of t" "availability_of (t\<lparr>rt_aliases := y\<rparr>) = availability_of t"
  "availability_of (t\<lparr>rt_failovers := z\<rparr>) = availability_of t" "availability_of (t\<lparr>rt_last_failover := w\<rparr>) = availability_of t"
  by (simp_all add: availability_of_def build_availability_map_def listed_def list_models_def list_provider_states_def
      query_def statement_def)

lemma tables_ok_audit [simp]: "tables_ok (t\<lparr>rt_audit := x\<rparr>) = tables_ok t"
  by (simp add: tables_ok_def)

lemmas tables_simps = healthy_updates effective_other_tables availability_other_tables tables_ok_audit

lemma publish_aliases:
  assumes "healthy (as_tables s)" and "tables_ok (as_tables s)"
  shows "refresh_router_aliases s = s\<lparr>as_router := (as_router s)\<lparr>db_aliases := effective (as_tables s)\<rparr>\<rparr>"
  using assms by (simp add: refresh_router_aliases_def build_db_alias_map_healthy update_db_aliases_def)

lemma publish_state:
  assumes "healthy (as_tables s)" and "tables_ok (as_tables s)"
  shows "refresh_router_state s = s\<lparr>as_router := (as_router s)\<lparr>db_aliases := effective (as_tables s),
    availability := availability_of (as_tables s)\<rparr>\<rparr>"
  using assms by (simp add: refresh_router_state_def publish_aliases availability_of_built update_availability_def)

lemma run_healthy:
  "healthy (as_tables s) \<Longrightarrow> run (query f) s = (Inr (f (as_tables s)), s)"
  "healthy (as_tables s) \<Longrightarrow> run (execute g) s = (Inr (), s\<lparr>as_tables := g (as_tables s)\<rparr>)"
  by (simp_all add: run_def)

text \<open>The checks of an alias write only consume catalog answers.\<close>

lemma validate_alias_frame:
  assumes "validate_alias a0 d0 s = (r, s')" and "healthy (as_tables s)" and "tables_ok (as_tables s)"
  shows "as_tables s' = as_tables s" and "as_router s' = as_router s" and "as_fallback s' = as_fallback s"
    and "r = Inr (a, d) \<Longrightarrow> a = trim a0 \<and> d = trim d0 \<and> a \<noteq> d \<and> \<not> starts_with '':'' a
      \<and> \<not> would_cycle (validation_map (model_aliases (routing (as_router s))) (effective (as_tables s)) a) a d"
  using assms
  by (auto simp: validate_alias_def Let_def run_def build_db_alias_map_healthy validate_alias_against_catalog_def
      cached_catalog_def split: if_splits option.splits prod.splits sum.splits list.splits)

definition alias_written :: "admin_env \<Rightarrow> admin_session \<Rightarrow> string \<Rightarrow> string \<Rightarrow> registry_tables \<Rightarrow> registry_tables" where
  "alias_written env sess a d t =
     t\<lparr>rt_aliases := upsert (\<lambda>r. al_alias r = a) (\<lambda>r. r\<lparr>al_target := d, al_updated_at := ae_now env\<rparr>)
         \<lparr>al_alias = a, al_target = d, al_created_by = Some (se_name sess), al_created_at = ae_now env,
          al_updated_at = ae_now env\<rparr> (rt_aliases t)\<rparr>"

lemma alias_written_facts:
  assumes "healthy t" and "tables_ok t"
  shows "healthy (alias_written env sess a d t)" and "tables_ok (alias_written env sess a d t)"
    and "effective (alias_written env sess a d t) = (effective t)(a \<mapsto> d)"
    and "availability_of (alias_written env sess a d t) = availability_of t"
    and "find_alias a (alias_written env sess a d t) \<noteq> None"
proof -
  let ?ch = "\<lambda>r. r\<lparr>al_target := d, al_updated_at := ae_now env\<rparr>"
  let ?new = "\<lparr>al_alias = a, al_target = d, al_created_by = Some (se_name sess), al_created_at = ae_now env,
    al_updated_at = ae_now env\<rparr>"
  show "healthy (alias_written env sess a d t)" using assms(1) by (simp add: alias_written_def)
  have "distinct (map al_alias (upsert (\<lambda>r. al_alias r = a) ?ch ?new (rt_aliases t)))"
    by (rule upsert_keys) (use assms(2) in \<open>simp_all add: tables_ok_def\<close>)
  then show "tables_ok (alias_written env sess a d t)" using assms(2) by (simp add: alias_written_def tables_ok_def)
  have "map_of (map (\<lambda>r. (al_alias r, al_target r)) (upsert (\<lambda>r. al_alias r = a) ?ch ?new (rt_aliases t)))
      = (map_of (alias_pairs t))(a \<mapsto> d)"
    unfolding alias_pairs_def by (rule map_of_upsert) simp_all
  then show "effective (alias_written env sess a d t) = (effective t)(a \<mapsto> d)"
    by (simp add: effective_def alias_written_def alias_pairs_def [of "t\<lparr>rt_aliases := _\<rparr>"] model_aliases_of_def)
  show "availability_of (alias_written env sess a d t) = availability_of t" by (simp add: alias_written_def)
  show "find_alias a (alias_written env sess a d t) \<noteq> None"
    by (auto simp: find_alias_def alias_written_def upsert_def find_None_iff list_ex_iff)
qed

lemma store_alias_healthy:
  assumes "healthy (as_tables s)" and "tables_ok (as_tables s)"
  obtains saved e where "store_alias env sess a d s =
    (Inr saved, s\<lparr>as_router := (as_router s)\<lparr>db_aliases := (effective (as_tables s))(a \<mapsto> d)\<rparr>,
       as_tables := (alias_written env sess a d (as_tables s))\<lparr>rt_audit := rt_audit (as_tables s) @ [e]\<rparr>\<rparr>)"
proof -
  let ?t = "alias_written env sess a d (as_tables s)"
  note w = alias_written_facts [OF assms, where env = env and sess = sess and a = a and d = d]
  obtain saved where f: "find_alias a ?t = Some saved" using w(5) by blast
  have up: "run (upsert_alias (ae_now env) a d (Some (se_name sess))) s = (Inr saved, s\<lparr>as_tables := ?t\<rparr>)"
    using assms(1) w(1) f by (simp add: run_def upsert_alias_def alias_written_def)
  have g: "run (get_alias a) s = (Inr (find_alias a (as_tables s)), s)"
    using assms(1) by (simp add: get_alias_def run_healthy)
  have a: "rt_audit ?t = rt_audit (as_tables s)" by (simp add: alias_written_def)
  have p: "refresh_router_aliases (s\<lparr>as_tables := ?t\<rparr>)
      = s\<lparr>as_tables := ?t, as_router := (as_router s)\<lparr>db_aliases := (effective (as_tables s))(a \<mapsto> d)\<rparr>\<rparr>"
    using publish_aliases [of "s\<lparr>as_tables := ?t\<rparr>"] w by simp
  show thesis
    by (rule that [of saved "\<lparr>au_actor_id = Some (se_sub sess), au_actor_name = se_name sess,
          au_action = (if find_alias a (as_tables s) \<noteq> None then ''alias.update'' else ''alias.create''),
          au_target = Some (''alias:'' @ a),
          au_before = map_option (\<lambda>b. target_json env (al_target b)) (find_alias a (as_tables s)),
          au_after = Some (target_json env d)\<rparr>"])
      (simp add: store_alias_def g up p audited_def w(1) a)
qed

text \<open>The other writes.\<close>

lemma availability_of_disabled:
  "availability_of t =
     \<lparr>disabled_models = insert_all (map (the \<circ> disabled_entry)
        (sort_key md_provider (sort_key md_name (filter (\<lambda>m. \<not> md_enabled m) (rt_models t))))) Map.empty,
      disabled_providers = insert_all (List.map_filter disabled_provider (sort_key ps_provider (rt_providers t))) Map.empty\<rparr>"
proof -
  have "List.map_filter disabled_entry xs = map (the \<circ> disabled_entry) (filter (\<lambda>m. \<not> md_enabled m) xs)" for xs
    unfolding List.map_filter_def by (intro arg_cong2 [where f = map] filter_cong) (auto simp: disabled_entry_def)
  then show ?thesis
    by (simp add: availability_of_def build_availability_map_def listed_def list_models_def list_provider_states_def
        query_def statement_def filter_sort)
qed

lemma register_keeps_availability: "md_enabled m \<Longrightarrow> availability_of (t\<lparr>rt_models := rt_models t @ [m], rt_last_model := i\<rparr>) = availability_of t"
  by (simp add: availability_of_disabled)

lemma distinct_map_filter_filter: "distinct (map f (filter P xs)) \<Longrightarrow> distinct (map f (filter (\<lambda>x. Q x \<and> P x) xs))"
  by (induction xs) (auto split: if_splits)

lemma tables_ok_delete:
  assumes "tables_ok t"
  shows "tables_ok (t\<lparr>rt_aliases := filter P (rt_aliases t)\<rparr>)" and "tables_ok (t\<lparr>rt_models := filter Q (rt_models t)\<rparr>)"
    and "tables_ok (t\<lparr>rt_failovers := filter R (rt_failovers t)\<rparr>)"
  using assms by (simp_all add: tables_ok_def distinct_map_filter distinct_map_filter_filter)

lemma tables_ok_toggle:
  assumes "tables_ok t"
  shows "tables_ok (t\<lparr>rt_models := map (\<lambda>m. if md_id m = i then set_enabled now on why who m else m) (rt_models t)\<rparr>)"
proof -
  let ?g = "\<lambda>m. if md_id m = i then set_enabled now on why who m else m"
  have e: "md_id (set_enabled now on why who m) = md_id m" for m by (simp add: set_enabled_def)
  have g: "md_id (?g m) = md_id m" "md_alias (?g m) = md_alias m" for m by (simp_all add: set_enabled_def)
  have k: "map md_id (map ?g ms) = map md_id ms" "map md_alias (filter (\<lambda>m. md_alias m \<noteq> None) (map ?g ms))
      = map md_alias (filter (\<lambda>m. md_alias m \<noteq> None) ms)" for ms
    by (induction ms) (simp_all add: g)
  have "distinct (map md_id (map ?g (rt_models t)))"
    and "distinct (map md_alias (filter (\<lambda>m. md_alias m \<noteq> None) (map ?g (rt_models t))))"
    using assms by (simp_all only: k tables_ok_def)
  moreover have "\<forall>m \<in> set (map ?g (rt_models t)). md_id m \<le> rt_last_model t"
    using assms by (auto simp: tables_ok_def e)
  ultimately show ?thesis using assms by (simp add: tables_ok_def)
qed

lemma tables_ok_provider:
  assumes "tables_ok t"
  shows "tables_ok (t\<lparr>rt_providers := upsert (\<lambda>s. ps_provider s = p) (\<lambda>_. provider_row now p on why who)
      (provider_row now p on why who) (rt_providers t)\<rparr>)"
proof -
  have "distinct (map ps_provider (upsert (\<lambda>s. ps_provider s = p) (\<lambda>_. provider_row now p on why who)
      (provider_row now p on why who) (rt_providers t)))"
    by (rule upsert_keys) (use assms in \<open>simp_all add: tables_ok_def provider_row_def\<close>)
  then show ?thesis using assms by (simp add: tables_ok_def)
qed

lemma create_model_healthy:
  assumes "create_model now p n a t = (r, t')" and "healthy t" and "tables_ok t"
  shows "healthy t' \<and> tables_ok t' \<and> availability_of t' = availability_of t \<and> (\<forall>e. r = Inl e \<longrightarrow> t' = t)"
proof (cases "alias_taken (rt_models t) a")
  case True
  then show ?thesis using assms by (simp add: create_model_def)
next
  case False
  let ?m = "\<lparr>md_id = rt_last_model t + 1, md_provider = p, md_name = n, md_alias = a, md_enabled = True,
    md_created_at = now, md_disabled_reason = None, md_disabled_by = None, md_disabled_at = None\<rparr>"
  let ?t = "t\<lparr>rt_models := rt_models t @ [?m], rt_last_model := rt_last_model t + 1\<rparr>"
  have "rt_last_model t + 1 \<notin> md_id ` set (rt_models t)" using assms(3) by (fastforce simp: tables_ok_def)
  then have "tables_ok ?t"
    using assms(3) False by (fastforce simp: tables_ok_def alias_taken_def list_ex_iff)
  moreover have "t' = ?t" "r = Inr ?m" using assms(1,2) False by (simp_all add: create_model_def Let_def)
  ultimately show ?thesis using assms(2) register_keeps_availability [where m = ?m and t = t] by simp
qed

lemma set_failovers_healthy:
  assumes "set_failovers p fs t = (r, t')" and "healthy t" and "tables_ok t"
  shows "healthy t' \<and> tables_ok t' \<and> availability_of t' = availability_of t \<and> effective t' = effective t"
proof -
  have ins: "insert_failovers p i fs t = (r, t') \<Longrightarrow> healthy t \<Longrightarrow> tables_ok t \<Longrightarrow>
      healthy t' \<and> tables_ok t' \<and> availability_of t' = availability_of t \<and> effective t' = effective t" for i t
  proof (induction fs arbitrary: i t)
    case (Cons f fs)
    show ?case
    proof (cases "list_ex (\<lambda>x. fo_primary x = p \<and> fo_fallback x = f) (rt_failovers t)")
      case True
      then show ?thesis using Cons.prems by (simp add: insert_failover_def)
    next
      case False
      let ?t = "t\<lparr>rt_failovers := rt_failovers t @ [\<lparr>fo_id = rt_last_failover t + 1, fo_primary = p, fo_fallback = f,
        fo_priority = i\<rparr>], rt_last_failover := rt_last_failover t + 1\<rparr>"
      have "tables_ok ?t" using False Cons.prems(3) by (fastforce simp: tables_ok_def list_ex_iff)
      moreover have "insert_failovers p (i + 1) fs ?t = (r, t')"
        using Cons.prems(1,2) False by (simp add: insert_failover_def)
      ultimately show ?thesis using Cons.IH [of "i + 1" ?t] Cons.prems(2) by simp
    qed
  qed simp
  let ?t = "t\<lparr>rt_failovers := filter (\<lambda>f. fo_primary f \<noteq> p) (rt_failovers t)\<rparr>"
  have "insert_failovers p 0 fs ?t = (r, t')" using assms(1,2) by (simp add: set_failovers_def)
  from ins [OF this] show ?thesis using assms(2) tables_ok_delete [OF assms(3)] by simp
qed

section \<open>Every step publishes what it writes\<close>

lemma publishedI:
  assumes "healthy (as_tables s')" and "tables_ok (as_tables s')"
    and "db_aliases (as_router s') = effective (as_tables s')"
    and "availability (as_router s') = availability_of (as_tables s')"
  shows "published s'"
  using assms by (simp add: published_def)

lemma published_validated:
  assumes "validate_alias a d s = (r, s')" and "published s"
  shows "published s'"
  using validate_alias_frame(1,2) [OF assms(1)] assms(2) by (simp add: published_def)

lemma published_store:
  assumes "store_alias env sess a d s = (r, s')" and "published s"
  shows "published s'"
proof -
  have h: "healthy (as_tables s)" "tables_ok (as_tables s)" using assms(2) by (simp_all add: published_def)
  obtain saved e where "store_alias env sess a d s =
      (Inr saved, s\<lparr>as_router := (as_router s)\<lparr>db_aliases := (effective (as_tables s))(a \<mapsto> d)\<rparr>,
         as_tables := (alias_written env sess a d (as_tables s))\<lparr>rt_audit := rt_audit (as_tables s) @ [e]\<rparr>\<rparr>)"
    by (rule store_alias_healthy [OF h])
  with assms show ?thesis
    using alias_written_facts [OF h, where env = env and sess = sess and a = a and d = d]
    by (auto simp: published_def)
qed

lemma published_set_alias: "upsert_alias_api env sess a d s = (r, s') \<Longrightarrow> published s \<Longrightarrow> published s'"
  unfolding upsert_alias_api_def
  by (auto simp: apfst_def map_prod_def split: prod.splits sum.splits dest: published_validated published_store)

lemma published_set_alias_form: "post_set_alias env sess a d s = (r, s') \<Longrightarrow> published s \<Longrightarrow> published s'"
  unfolding post_set_alias_def
  by (auto simp: apfst_def map_prod_def split: prod.splits sum.splits dest: published_validated published_store)

text \<open>A write, the refresh of the aliases, an audit entry.\<close>

lemma published_after_aliases:
  assumes "published s" and "healthy t" and "tables_ok t" and "availability_of t = availability_of (as_tables s)"
  shows "published (audited sess act tgt bf af (refresh_router_aliases (s\<lparr>as_tables := t\<rparr>)))"
  using assms by (simp add: published_def publish_aliases audited_def)

lemma published_after_state:
  assumes "healthy t" and "tables_ok t"
  shows "published (audited sess act tgt bf af (refresh_router_state (s\<lparr>as_tables := t\<rparr>)))"
  using assms by (simp add: published_def publish_state audited_def)

lemma published_drop_alias:
  assumes "published s"
  shows "delete_alias_api env sess a s = (r, s') \<Longrightarrow> published s'"
    and "post_delete_alias env sess a s = (r', s') \<Longrightarrow> published s'"
proof -
  let ?t = "(as_tables s)\<lparr>rt_aliases := filter (\<lambda>r. al_alias r \<noteq> a) (rt_aliases (as_tables s))\<rparr>"
  have h: "healthy (as_tables s)" "tables_ok (as_tables s)" using assms by (simp_all add: published_def)
  have g: "run (get_alias a) s = (Inr (find_alias a (as_tables s)), s)" using h by (simp add: get_alias_def run_healthy)
  have d: "run (delete_alias a) s = (Inr (find_alias a (as_tables s) \<noteq> None), s\<lparr>as_tables := ?t\<rparr>)"
    using h by (simp add: run_def delete_alias_def)
  have p: "published (audited sess act tgt bf af (refresh_router_aliases (s\<lparr>as_tables := ?t\<rparr>)))" for act tgt bf af
    by (rule published_after_aliases [OF assms]) (use h tables_ok_delete(1) [OF h(2)] in simp_all)
  have same: "published (s\<lparr>as_tables := ?t\<rparr>)" if "find_alias a (as_tables s) = None"
  proof -
    have "filter (\<lambda>r. al_alias r \<noteq> a) (rt_aliases (as_tables s)) = rt_aliases (as_tables s)"
      using that by (auto simp: find_alias_def find_None_iff filter_id_conv)
    with assms show ?thesis by simp
  qed
  show "delete_alias_api env sess a s = (r, s') \<Longrightarrow> published s'"
    using p same by (auto simp: delete_alias_api_def g d split: bool.splits)
  show "post_delete_alias env sess a s = (r', s') \<Longrightarrow> published s'"
    using p by (auto simp: post_delete_alias_def g d)
qed

lemma published_run:
  assumes "published s"
  shows "run (get_model i) s = (x, s') \<Longrightarrow> published s'" and "run (get_provider_state p) s = (y, s') \<Longrightarrow> published s'"
  using assms by (auto simp: published_def run_healthy get_model_def get_provider_state_def)

lemma published_toggle:
  assumes "toggle_model env sess i on why s = (r, s')" and "published s"
  shows "published s'"
proof -
  let ?t = "(as_tables s)\<lparr>rt_models := map (\<lambda>m. if md_id m = i then set_enabled (ae_now env) on why (Some (se_name sess)) m else m)
    (rt_models (as_tables s))\<rparr>"
  have h: "healthy (as_tables s)" "tables_ok (as_tables s)" using assms(2) by (simp_all add: published_def)
  have g: "run (get_model i) s = (Inr (find_model i (as_tables s)), s)" using h by (simp add: get_model_def run_healthy)
  have d: "run (set_model_enabled_with_reason (ae_now env) i on why (Some (se_name sess))) s = (Inr (), s\<lparr>as_tables := ?t\<rparr>)"
    using h by (simp add: set_model_enabled_with_reason_def run_healthy)
  have p: "published (audited sess act tgt bf af (refresh_router_state (s\<lparr>as_tables := ?t\<rparr>)))" for act tgt bf af
    by (rule published_after_state) (use h tables_ok_toggle [OF h(2)] in simp_all)
  show ?thesis
  proof (cases "find_model i (as_tables s)")
    case None
    with assms show ?thesis by (simp add: toggle_model_def g)
  next
    case (Some before)
    with assms(1) show ?thesis
      by (auto simp: toggle_model_def g d dest: published_run(1) [OF p] split: prod.splits sum.splits)
  qed
qed

lemma published_toggle_provider:
  assumes "toggle_provider env sess p on why s = (r, s')" and "published s"
  shows "published s'"
proof -
  let ?row = "provider_row (ae_now env) p on why (Some (se_name sess))"
  let ?t = "(as_tables s)\<lparr>rt_providers := upsert (\<lambda>x. ps_provider x = p) (\<lambda>_. ?row) ?row (rt_providers (as_tables s))\<rparr>"
  have h: "healthy (as_tables s)" "tables_ok (as_tables s)" using assms(2) by (simp_all add: published_def)
  have d: "run (set_provider_enabled (ae_now env) p on why (Some (se_name sess))) s = (Inr (), s\<lparr>as_tables := ?t\<rparr>)"
    using h by (simp add: set_provider_enabled_def run_healthy)
  have p: "published (audited sess act tgt bf af (refresh_router_state (s\<lparr>as_tables := ?t\<rparr>)))" for act tgt bf af
    by (rule published_after_state) (use h tables_ok_provider [OF h(2)] in simp_all)
  from assms(1) show ?thesis
    by (auto simp: toggle_provider_def d apfst_def map_prod_def dest: published_run(2) [OF p] split: prod.splits)
qed

lemma published_register:
  assumes "post_create_model env sess p n a s = (r, s')" and "published s"
  shows "published s'"
proof (cases "trim p = [] \<or> trim n = []")
  case True
  with assms show ?thesis by (auto simp: post_create_model_def)
next
  case False
  obtain c t where c: "create_model (ae_now env) (trim p) (trim n) (clean_reason a) (as_tables s) = (c, t)" by fastforce
  have h: "healthy t" "tables_ok t" "availability_of t = availability_of (as_tables s)" "\<forall>e. c = Inl e \<longrightarrow> t = as_tables s"
    using create_model_healthy [OF c] assms(2) by (simp_all add: published_def)
  then have "published (refresh_router_aliases (audited sess act tgt bf af (s\<lparr>as_tables := t\<rparr>)))" for act tgt bf af
    using assms(2) by (simp add: published_def publish_aliases audited_def)
  with assms False c h(4) show ?thesis
    by (auto simp: post_create_model_def run_def Let_def split: sum.splits)
qed

lemma published_chain:
  assumes "post_set_failovers env sess p form s = (r, s')" and "published s"
  shows "published s'"
proof -
  obtain c t where c: "set_failovers p (parse_fallbacks form) (as_tables s) = (c, t)" by fastforce
  have h: "published (s\<lparr>as_tables := t\<rparr>)" using set_failovers_healthy [OF c] assms(2) by (simp add: published_def)
  then have "published (refresh_router_failovers env (audited sess act tgt bf af (s\<lparr>as_tables := t\<rparr>)))" for act tgt bf af
    by (simp add: published_def refresh_router_failovers_def list_all_failovers_def audited_def)
  with assms(1) c h show ?thesis by (auto simp: post_set_failovers_def run_def Let_def split: sum.splits)
qed

lemma admin_step_published: "admin_step env s s' \<Longrightarrow> published s \<Longrightarrow> published s'"
proof (induction rule: admin_step.induct)
  case (toggle sess i on why s m s')
  then show ?case
    by (auto simp: set_model_enabled_api_def dest: published_toggle split: prod.splits sum.splits option.splits)
next
  case (toggle_form sess i on why s m' s')
  then show ?case
    by (auto simp: set_model_from_dashboard_def dest: published_toggle split: prod.splits sum.splits option.splits)
next
  case (switch sess p on why s ps s')
  then show ?case
    by (auto simp: set_provider_enabled_api_def apfst_def map_prod_def dest: published_toggle_provider split: prod.splits if_splits)
next
  case (switch_form sess p on why s ps' s')
  then show ?case
    by (auto simp: set_provider_from_dashboard_def apfst_def map_prod_def dest: published_toggle_provider split: prod.splits if_splits)
qed (erule (1) published_set_alias published_set_alias_form published_drop_alias [rotated] published_register published_chain)+

section \<open>Properties\<close>

lemma seed_published:
  assumes "healthy (as_tables s)" and "tables_ok (as_tables s)"
  shows "published (seed_router env s)"
  using assms by (simp add: seed_router_def publish_state refresh_router_failovers_def list_all_failovers_def published_def)


definition sample_tables :: registry_tables where
  "sample_tables =
     \<lparr>rt_models = [\<lparr>md_id = 1, md_provider = ''a'', md_name = ''x'', md_alias = None, md_enabled = True,
                     md_created_at = ''t'', md_disabled_reason = None, md_disabled_by = None, md_disabled_at = None\<rparr>],
      rt_last_model = 1, rt_providers = [], rt_aliases = [], rt_failovers = [], rt_last_failover = 0, rt_audit = [],
      rt_faults = []\<rparr>"

definition sample_admin :: admin_state where
  "sample_admin =
     \<lparr>as_tables = sample_tables, as_router = new_router Engine.sample_config, as_fallback = new_fallback [], as_catalogs = []\<rparr>"

definition sample_admin_env :: admin_env where
  "sample_admin_env = \<lparr>ae_providers = [''a''], ae_print = (\<lambda>_. ''{}''), ae_order = id, ae_now = ''t''\<rparr>"

definition root_session :: admin_session where
  "root_session = \<lparr>se_sub = 1, se_name = ''root''\<rparr>"

lemma sample_tables_ok: "healthy (as_tables sample_admin)" "tables_ok (as_tables sample_admin)"
  by (simp_all add: sample_admin_def sample_tables_def healthy_def tables_ok_def)


lemma alias_map_after:
  assumes "db_aliases r' = (db_aliases r)(a \<mapsto> d)" and "routing r' = routing r"
  shows "alias_map r' = (alias_map r)(a \<mapsto> d)"
  using assms by (simp add: alias_map_def)

lemma stored_alias:
  assumes "upsert_alias_api env sess a0 d0 s = (Inr saved, s')" and "published s"
  shows "alias_map (as_router s') = (alias_map (as_router s))(trim a0 \<mapsto> trim d0)"
    and "routing (as_router s') = routing (as_router s)"
    and "\<not> starts_with '':'' (trim a0)"
    and "\<not> cycle_walk 10 (alias_map (as_router s)) (trim a0) (trim d0)"
proof -
  have h: "healthy (as_tables s)" "tables_ok (as_tables s)" using assms(2) by (simp_all add: published_def)
  let ?a = "trim a0" and ?d = "trim d0"
  obtain x s1 where v0: "validate_alias a0 d0 s = (x, s1)" by fastforce
  obtain a d where x: "x = Inr (a, d)" using assms(1) v0 by (cases x) (auto simp: upsert_alias_api_def)
  with validate_alias_frame(4) [OF v0 h, of a d] have ad: "a = ?a" "d = ?d" by simp_all
  have v: "validate_alias a0 d0 s = (Inr (?a, ?d), s1)" using v0 x ad by simp
  obtain y s2 where y: "store_alias env sess ?a ?d s1 = (y, s2)" by fastforce
  have st: "store_alias env sess ?a ?d s1 = (Inr saved, s')"
    using assms(1) v y by (cases y) (simp_all add: upsert_alias_api_def)
  note f = validate_alias_frame [OF v h]
  have h1: "healthy (as_tables s1)" "tables_ok (as_tables s1)" using h f(1) by simp_all
  have r: "as_router s' = (as_router s)\<lparr>db_aliases := (effective (as_tables s))(?a \<mapsto> ?d)\<rparr>"
    by (rule store_alias_healthy [OF h1, of env sess ?a ?d]) (use st f(1,2) in simp)
  have sync: "db_aliases (as_router s) = effective (as_tables s)" using assms(2) by (simp add: published_def)
  show "alias_map (as_router s') = (alias_map (as_router s))(?a \<mapsto> ?d)" "routing (as_router s') = routing (as_router s)"
    by (simp_all add: r alias_map_def sync)
  have checked: "\<not> starts_with '':'' ?a"
    "\<not> cycle_walk 10 (validation_map (model_aliases (routing (as_router s))) (effective (as_tables s)) ?a) ?a ?d"
    using f(4) [of ?a ?d] by (simp_all add: would_cycle_def max_alias_depth_def)
  have same: "cycle_walk n (validation_map (model_aliases (routing (as_router s))) (effective (as_tables s)) ?a) ?a x
      = cycle_walk n (alias_map (as_router s)) ?a x" for n x
    by (induction n arbitrary: x) (auto simp: validation_map_def alias_map_def sync map_add_def split: option.splits)
  show "\<not> starts_with '':'' ?a" "\<not> cycle_walk 10 (alias_map (as_router s)) ?a ?d" using checked same by simp_all
qed


lemma sample_published: "published (seed_router sample_admin_env sample_admin)"
  by (rule seed_published [OF sample_tables_ok])

lemma answered: "fst r = Inr x \<Longrightarrow> r = (Inr x, snd r)"
  by (cases r) simp


text \<open>What disabling a model leaves in its row, and so in the snapshot of the router.\<close>

lemma disabled_in_table:
  assumes "m \<in> set (rt_models t)" and "\<not> md_enabled m"
  shows "disabled_models (availability_of t) (md_provider m @ ''/'' @ md_name m) \<noteq> None"
proof -
  let ?ms = "sort_key md_provider (sort_key md_name (filter (\<lambda>m. \<not> md_enabled m) (rt_models t)))"
  have "m \<in> set ?ms" using assms by simp
  then have "md_provider m @ ''/'' @ md_name m \<in> fst ` set (rev (map (the \<circ> disabled_entry) ?ms))"
    using assms(2) by (force simp: disabled_entry_def image_iff)
  then show ?thesis
    by (simp add: availability_of_disabled db_alias_map_of map_of_eq_None_iff)
qed

lemma find_member: "find P xs = Some x \<Longrightarrow> x \<in> set xs \<and> P x"
  by (induction xs) (auto split: if_splits)

lemma toggled_row:
  assumes "published s" and "toggle_model env sess i False why s = (Inr (Some m), s')"
  shows "find_model i (as_tables s') = Some m" and "\<not> md_enabled m"
proof -
  let ?new = "\<lambda>m. if md_id m = i then set_enabled (ae_now env) False why (Some (se_name sess)) m else m"
  let ?t = "(as_tables s)\<lparr>rt_models := map ?new (rt_models (as_tables s))\<rparr>"
  have h: "healthy (as_tables s)" "tables_ok (as_tables s)" using assms(1) by (simp_all add: published_def)
  have g: "run (get_model i) s = (Inr (find_model i (as_tables s)), s)" using h by (simp add: get_model_def run_healthy)
  have d: "run (set_model_enabled_with_reason (ae_now env) i False why (Some (se_name sess))) s = (Inr (), s\<lparr>as_tables := ?t\<rparr>)"
    using h by (simp add: set_model_enabled_with_reason_def run_healthy)
  define after where "after act tgt bf af = audited sess act tgt bf af (refresh_router_state (s\<lparr>as_tables := ?t\<rparr>))" for act tgt bf af
  have t: "healthy ?t" "tables_ok ?t" using h tables_ok_toggle [OF h(2)] by simp_all
  have a: "healthy (as_tables (after act tgt bf af))" "rt_models (as_tables (after act tgt bf af)) = rt_models ?t" for act tgt bf af
    using t by (simp_all add: after_def publish_state audited_def)
  have last: "run (get_model i) (after act tgt bf af) = (Inr (find_model i ?t), after act tgt bf af)" for act tgt bf af
    using a [of act tgt bf af] by (simp add: get_model_def run_healthy find_model_def)
  obtain before where b: "find_model i (as_tables s) = Some before" using assms(2) g by (cases "find_model i (as_tables s)") (simp_all add: toggle_model_def)
  have "(Inr (find_model i ?t), s') = (Inr (Some m) :: unit option + model_row option, s')"
    and "rt_models (as_tables s') = rt_models ?t"
    using assms(2) a(2) by (auto simp: toggle_model_def g b d after_def [symmetric] last)
  then show f: "find_model i (as_tables s') = Some m" by (simp add: find_model_def)
  from find_member [OF this [unfolded find_model_def]] have mem: "m \<in> set (rt_models ?t) \<and> md_id m = i"
    by (simp only: \<open>rt_models (as_tables s') = rt_models ?t\<close>)
  have eq: "rt_models ?t = map ?new (rt_models (as_tables s))" by simp
  have "m \<in> set (map ?new (rt_models (as_tables s)))" using conjunct1 [OF mem] unfolding eq .
  then have "m \<in> ?new ` set (rt_models (as_tables s))" by (simp only: set_map)
  then obtain m0 where m0: "m = ?new m0" by (rule imageE)
  show "\<not> md_enabled m"
  proof (cases "md_id m0 = i")
    case True
    then show ?thesis by (simp add: m0 set_enabled_def)
  next
    case False
    with m0 conjunct2 [OF mem] show ?thesis by simp
  qed
qed



section \<open>Where the registry and the router part\<close>

text \<open>Deleting a model does not publish the disable snapshot: a disabled model that is deleted stays disabled.\<close>

lemma deleted_model_stays_disabled:
  "availability (as_router (snd (post_delete_model env sess i s))) = availability (as_router s)"
  by (simp add: post_delete_model_def run_def refresh_router_aliases_def update_db_aliases_def audited_def Let_def
      split: prod.split sum.split)

text \<open>A listing that fails while the snapshot is built lifts every disable, and drops every alias.\<close>

lemma failed_listing_enables_everything:
  assumes "rt_faults (as_tables s) = [True, True, True, True]"
  shows "router_is_available (as_router (refresh_router_state s)) p m"
    and "db_aliases (as_router (refresh_router_state s)) = Map.empty"
  using assms
  by (simp_all add: refresh_router_state_def refresh_router_aliases_def build_db_alias_map_def build_availability_map_def
      listed_def list_models_def list_aliases_def list_provider_states_def query_def statement_def insert_all_def
      update_db_aliases_def update_availability_def router_is_available_def is_available_def check_def Let_def)

text \<open>What \<open>he\<close> removes, and what it leaves.\<close>

lemma he_no_markup: "CHR ''<'' \<notin> set (he s) \<and> CHR ''>'' \<notin> set (he s) \<and> CHR 0x22 \<notin> set (he s)"
  by (auto simp: he_def escape_char_def split: if_splits)

lemma he_keeps_apostrophe: "he [CHR 0x27] = [CHR 0x27]"
  by (simp add: he_def escape_char_def)

text \<open>
  A fallback named twice: the old chain is gone, a prefix of the new one is stored, the caller is told of an
  error, and the live chains are left as they were.
\<close>

definition chained_admin :: admin_state where
  "chained_admin =
     sample_admin\<lparr>as_tables := sample_tables\<lparr>rt_failovers :=
       [\<lparr>fo_id = 1, fo_primary = ''p'', fo_fallback = ''old'', fo_priority = 0\<rparr>], rt_last_failover := 1\<rparr>\<rparr>"

lemma repeated_fallback_truncates:
  "fst (post_set_failovers sample_admin_env root_session ''p'' ''b,c,b,d'' chained_admin) = Inl DashInternal"
  "map fo_fallback (rt_failovers (as_tables (snd (post_set_failovers sample_admin_env root_session ''p'' ''b,c,b,d'' chained_admin))))
     = [''b'', ''c'']"
  "as_fallback (snd (post_set_failovers sample_admin_env root_session ''p'' ''b,c,b,d'' chained_admin)) = as_fallback chained_admin"
  by code_simp+

text \<open>
  Deleting an alias is not checked: it can uncover a configured alias that closes a cycle with one that was
  accepted in the meantime.
\<close>

definition cyclic_admin :: admin_state where
  "cyclic_admin =
     sample_admin
       \<lparr>as_router := new_router (Engine.sample_config\<lparr>model_aliases := [''u'' \<mapsto> ''v'']\<rparr>),
        as_tables := sample_tables\<lparr>rt_aliases :=
          [\<lparr>al_alias = ''u'', al_target = ''a/x'', al_created_by = None, al_created_at = ''t'', al_updated_at = ''t''\<rparr>]\<rparr>\<rparr>"

lemma delete_uncovers_a_cycle:
  "let (r, s) = upsert_alias_api sample_admin_env root_session ''v'' ''u'' (seed_router sample_admin_env cyclic_admin);
       r' = as_router (snd (delete_alias_api sample_admin_env root_session ''u'' s))
   in (case r of Inr x \<Rightarrow> True | Inl e \<Rightarrow> False) \<and> alias_map r' ''u'' = Some ''v'' \<and> alias_map r' ''v'' = Some ''u''"
  by code_simp

end
