(* ===== verification/Ledger_Analytics.thy ===== *)
theory Ledger_Analytics
  imports Ledger "HOL-Library.Product_Lexorder" "HOL-Library.Option_ord" "HOL-Library.Multiset"
begin

text \<open>
  What the dashboards, the CLI and the experiment results read from the ledger
  (\<open>src/src/db/sqlite/costs.rs\<close>, the types in \<open>src/src/db/repositories/costs.rs\<close>): grouped sums over the rows of
  a window, an arm of a comparison or an experiment. A \<open>GROUP BY\<close> is \<open>group_by\<close>, whose groups come in the
  order of their keys. Where a query orders by a sum alone, SQLite leaves the order of ties open; here they
  keep the order of their keys. SQLite's \<open>strftime('%Y-%m-%d', _)\<close>, \<open>json_extract\<close> and \<open>json_each\<close> are the
  parameters \<open>day\<close>, \<open>extract\<close> and \<open>keys_of\<close>.
\<close>

section \<open>Grouping\<close>

definition group_by :: "('r \<Rightarrow> 'k::linorder) \<Rightarrow> 'r list \<Rightarrow> ('k \<times> 'r list) list" where
  "group_by f rs = map (\<lambda>k. (k, filter (\<lambda>r. f r = k) rs)) (sort (remdups (map f rs)))"

text \<open>\<open>ORDER BY key DESC\<close>, ties in the order they had.\<close>

definition sort_desc :: "('r \<Rightarrow> 'k::linorder) \<Rightarrow> 'r list \<Rightarrow> 'r list" where
  "sort_desc f rs = rev (sort_key f (rev rs))"

text \<open>\<open>LIMIT n OFFSET m\<close>: a negative limit is no limit, a negative offset is none.\<close>

definition limit_offset :: "int \<Rightarrow> int \<Rightarrow> 'r list \<Rightarrow> 'r list" where
  "limit_offset n m rs = (let rest = drop (nat m) rs in if n < 0 then rest else take (nat n) rest)"

text \<open>
  A column of an aggregate query: nothing for no rows, and rows add up. What the breakdowns promise of a
  column follows from this.
\<close>

locale aggregate =
  fixes per :: "'r \<Rightarrow> 'a::comm_monoid_add" and agg :: "'r list \<Rightarrow> 'a"
  assumes agg_Nil: "agg [] = 0" and agg_Cons: "agg (r # rs) = per r + agg rs"
begin

lemma is_sum: "agg rs = sum_list (map per rs)"
  by (induction rs) (simp_all add: agg_Nil agg_Cons)

lemma split_rows: "agg rs = agg (filter p rs) + agg (filter (\<lambda>r. \<not> p r) rs)"
  by (induction rs) (simp_all add: agg_Nil agg_Cons ac_simps)

lemma over_keys:
  assumes "finite K" and "f ` set rs \<subseteq> K"
  shows "(\<Sum>k\<in>K. agg (filter (\<lambda>r. f r = k) rs)) = agg rs"
  using assms(2)
proof (induction rs)
  case (Cons r rs)
  have "(\<Sum>k\<in>K. agg (filter (\<lambda>r. f r = k) (r # rs)))
      = (\<Sum>k\<in>K. (if f r = k then per r else 0) + agg (filter (\<lambda>r. f r = k) rs))"
    by (rule sum.cong) (simp_all add: agg_Cons)
  with Cons assms(1) show ?case by (simp add: sum.distrib agg_Cons)
qed (simp add: agg_Nil)

text \<open>A breakdown of the rows adds up to their total.\<close>

lemma groups: "sum_list (map (\<lambda>g. agg (snd g)) (group_by f rs)) = agg rs"
proof -
  have "sum_list (map (\<lambda>g. agg (snd g)) (group_by f rs))
      = sum_list (map (\<lambda>k. agg (filter (\<lambda>r. f r = k) rs)) (sort (remdups (map f rs))))"
    by (simp add: group_by_def comp_def)
  also have "\<dots> = (\<Sum>k\<in>f ` set rs. agg (filter (\<lambda>r. f r = k) rs))"
    by (subst sum_list_distinct_conv_sum_set) simp_all
  also have "\<dots> = agg rs" by (rule over_keys) simp_all
  finally show ?thesis .
qed

end

section \<open>Columns\<close>

definition request_count :: "'r list \<Rightarrow> int" where
  "request_count rs = int (length rs)"

definition cost_total :: "ledger_entry list \<Rightarrow> rat" where
  "cost_total rs = sum_list (map cost_usd rs)"

definition saved_total :: "ledger_entry list \<Rightarrow> rat" where
  "saved_total rs = sum_list (map saved_usd rs)"

definition tokens_in_total :: "ledger_entry list \<Rightarrow> int" where
  "tokens_in_total rs = sum_list (map tokens_in rs)"

definition tokens_out_total :: "ledger_entry list \<Rightarrow> int" where
  "tokens_out_total rs = sum_list (map tokens_out rs)"

definition hit_total :: "ledger_entry list \<Rightarrow> int" where
  "hit_total rs = sum_list (map (\<lambda>e. of_bool (cache_hit e)) rs)"

definition estimated_total :: "ledger_entry list \<Rightarrow> int" where
  "estimated_total rs = sum_list (map (\<lambda>e. of_bool (tokens_estimated e)) rs)"

interpretation requests: aggregate "\<lambda>_. 1" request_count
  by unfold_locales (simp_all add: request_count_def)

interpretation cost: aggregate cost_usd cost_total
  by unfold_locales (simp_all add: cost_total_def)

interpretation saved: aggregate saved_usd saved_total
  by unfold_locales (simp_all add: saved_total_def)

interpretation tokens_in: aggregate tokens_in tokens_in_total
  by unfold_locales (simp_all add: tokens_in_total_def)

interpretation tokens_out: aggregate tokens_out tokens_out_total
  by unfold_locales (simp_all add: tokens_out_total_def)

interpretation hits: aggregate "\<lambda>e. of_bool (cache_hit e)" hit_total
  by unfold_locales (simp_all add: hit_total_def)

interpretation estimated: aggregate "\<lambda>e. of_bool (tokens_estimated e)" estimated_total
  by unfold_locales (simp_all add: estimated_total_def)

text \<open>\<open>TOTALS_SELECT\<close> and \<open>AttributionTotals\<close>: spend and savings of one slice of the ledger.\<close>

datatype attribution_totals =
  AttributionTotals (at_cost_usd: rat) (at_saved_usd: rat) (at_uncached_cost_usd: rat)
    (at_tokens_in: int) (at_tokens_out: int) (at_requests: int) (at_cache_hits: int)

instantiation attribution_totals :: comm_monoid_add
begin

definition zero_attribution_totals :: attribution_totals where
  "0 = AttributionTotals 0 0 0 0 0 0 0"

definition plus_attribution_totals :: "attribution_totals \<Rightarrow> attribution_totals \<Rightarrow> attribution_totals" where
  "t + u =
     AttributionTotals (at_cost_usd t + at_cost_usd u) (at_saved_usd t + at_saved_usd u)
       (at_uncached_cost_usd t + at_uncached_cost_usd u) (at_tokens_in t + at_tokens_in u)
       (at_tokens_out t + at_tokens_out u) (at_requests t + at_requests u) (at_cache_hits t + at_cache_hits u)"

instance
  by standard (simp_all add: zero_attribution_totals_def plus_attribution_totals_def ac_simps)

end

definition totals_of :: "ledger_entry list \<Rightarrow> attribution_totals" where
  "totals_of rs =
     AttributionTotals (cost_total rs) (saved_total rs) (cost_total rs + saved_total rs)
       (tokens_in_total rs) (tokens_out_total rs) (request_count rs) (hit_total rs)"

interpretation totals: aggregate "\<lambda>e. totals_of [e]" totals_of
  by unfold_locales
    (simp_all add: totals_of_def zero_attribution_totals_def plus_attribution_totals_def request_count_def
      cost.agg_Nil saved.agg_Nil tokens_in.agg_Nil tokens_out.agg_Nil hits.agg_Nil
      cost.agg_Cons saved.agg_Cons tokens_in.agg_Cons tokens_out.agg_Cons hits.agg_Cons)

text \<open>\<open>hit_rate\<close> of both summaries: 0 when there were no requests.\<close>

definition usage_hit_rate :: "int \<Rightarrow> int \<Rightarrow> rat" where
  "usage_hit_rate hs requests = (if requests = 0 then 0 else of_int hs / of_int requests)"

definition totals_hit_rate :: "attribution_totals \<Rightarrow> rat" where
  "totals_hit_rate t = usage_hit_rate (at_cache_hits t) (at_requests t)"


section \<open>Filters\<close>

datatype attribution_filter = CorrelationIdIs string | TagIs string string

definition tag_json_path :: "string \<Rightarrow> string" where
  "tag_json_path key = ''$.'' @ [CHR 0x22] @ key @ [CHR 0x22]"

definition attribution_label :: "attribution_filter \<Rightarrow> string" where
  "attribution_label f =
     (case f of CorrelationIdIs v \<Rightarrow> ''correlation_id='' @ v | TagIs key v \<Rightarrow> key @ ''='' @ v)"

datatype arm_filter =
    ArmModel string
  | ArmProvider string
  | ArmAttribution attribution_filter
  | ArmVariant int string

definition arm_label :: "arm_filter \<Rightarrow> string" where
  "arm_label f =
     (case f of
        ArmModel m \<Rightarrow> ''model='' @ m
      | ArmProvider p \<Rightarrow> ''provider='' @ p
      | ArmAttribution a \<Rightarrow> attribution_label a
      | ArmVariant i v \<Rightarrow> ''experiment='' @ show_int i @ '':'' @ v)"

text \<open>
  What an arm looks at in a row of any of the three tables that carry these columns; the first field is the
  \<open>model_column\<close> of the table.
\<close>

record arm_columns =
  ac_model :: "string option"
  ac_provider :: "string option"
  ac_correlation_id :: "string option"
  ac_tags :: string
  ac_experiment_id :: "int option"
  ac_variant :: "string option"

definition attribution_predicate ::
  "(string \<Rightarrow> string \<Rightarrow> string option) \<Rightarrow> attribution_filter \<Rightarrow> arm_columns \<Rightarrow> bool" where
  "attribution_predicate extract f c \<longleftrightarrow>
     (case f of
        CorrelationIdIs v \<Rightarrow> ac_correlation_id c = Some v
      | TagIs key v \<Rightarrow> extract (ac_tags c) (tag_json_path key) = Some v)"

definition variant_predicate :: "int \<Rightarrow> string \<Rightarrow> arm_columns \<Rightarrow> bool" where
  "variant_predicate i v c \<longleftrightarrow> ac_experiment_id c = Some i \<and> ac_variant c = Some v"

definition arm_predicate :: "(string \<Rightarrow> string \<Rightarrow> string option) \<Rightarrow> arm_filter \<Rightarrow> arm_columns \<Rightarrow> bool" where
  "arm_predicate extract f c \<longleftrightarrow>
     (case f of
        ArmModel m \<Rightarrow> ac_model c = Some m
      | ArmProvider p \<Rightarrow> ac_provider c = Some p
      | ArmAttribution a \<Rightarrow> attribution_predicate extract a c
      | ArmVariant i v \<Rightarrow> variant_predicate i v c)"

definition ledger_columns :: "ledger_entry \<Rightarrow> arm_columns" where
  "ledger_columns e =
     \<lparr>ac_model = Some (le_model e), ac_provider = Some (le_provider e),
      ac_correlation_id = attribution_correlation_id e, ac_tags = attribution_tags e,
      ac_experiment_id = le_experiment_id e, ac_variant = le_experiment_variant e\<rparr>"

text \<open>The rows a dashboard filter keeps: users, project, key and model, each optional.\<close>

record usage_filter =
  uf_user_ids :: "int list option"
  uf_project :: "string option"
  uf_api_key_id :: "int option"
  uf_model :: "string option"

definition usage_matches :: "usage_filter \<Rightarrow> ledger_entry \<Rightarrow> bool" where
  "usage_matches f e \<longleftrightarrow>
     (case uf_project f of None \<Rightarrow> True | Some p \<Rightarrow> le_project e = Some p)
     \<and> (case uf_api_key_id f of None \<Rightarrow> True | Some k \<Rightarrow> le_api_key_id e = Some k)
     \<and> (case uf_user_ids f of None \<Rightarrow> True | Some ids \<Rightarrow> le_user_id e \<in> set ids)
     \<and> (case uf_model f of None \<Rightarrow> True | Some m \<Rightarrow> le_model e = m)"

text \<open>A filter that names no user at all yields no rows, and no statement is run.\<close>

definition unless_no_users :: "usage_filter \<Rightarrow> string + 'a list \<Rightarrow> string + 'a list" where
  "unless_no_users f rows = (if uf_user_ids f = Some [] then Inr [] else rows)"

section \<open>Usage queries\<close>

definition rows_since :: "string \<Rightarrow> database \<Rightarrow> ledger_entry list" where
  "rows_since t db = filter (since t) (cost_ledger db)"

definition rows_between :: "string \<Rightarrow> string \<Rightarrow> database \<Rightarrow> ledger_entry list" where
  "rows_between t u db = filter (between t u) (cost_ledger db)"

record cache_usage_summary =
  cu_hits :: int
  cu_requests :: int
  cu_saved_usd :: rat

definition cache_usage :: "ledger_entry list \<Rightarrow> cache_usage_summary" where
  "cache_usage rs = \<lparr>cu_hits = hit_total rs, cu_requests = request_count rs, cu_saved_usd = saved_total rs\<rparr>"

definition cache_hit_rate :: "cache_usage_summary \<Rightarrow> rat" where
  "cache_hit_rate c = usage_hit_rate (cu_hits c) (cu_requests c)"

definition cache_summary_since :: "database \<Rightarrow> string option \<Rightarrow> string \<Rightarrow> string + cache_usage_summary" where
  "cache_summary_since db m t =
     repo db CacheSummary
       (cache_usage (filter (\<lambda>e. case m of None \<Rightarrow> True | Some n \<Rightarrow> le_model e = n) (rows_since t db)))"

definition cache_daily_series ::
  "(string \<Rightarrow> string) \<Rightarrow> database \<Rightarrow> string \<Rightarrow> string \<Rightarrow> string + (string \<times> int \<times> int) list" where
  "cache_daily_series day db t u =
     repo db CacheDaily
       (map (\<lambda>(d, rs). (d, hit_total rs, request_count rs)) (group_by (\<lambda>e. day (le_created_at e)) (rows_between t u db)))"

definition cache_summary_by_model_since :: "database \<Rightarrow> string \<Rightarrow> string + (string \<times> cache_usage_summary) list" where
  "cache_summary_by_model_since db t =
     repo db CacheByModel
       (map (\<lambda>(m, rs). (m, cache_usage rs)) (sort_desc (\<lambda>g. hit_total (snd g)) (group_by le_model (rows_since t db))))"

text \<open>The grouping of the cost page: user, model, project and key.\<close>

definition usage_key :: "ledger_entry \<Rightarrow> int \<times> string \<times> string option \<times> int option" where
  "usage_key e = (le_user_id e, le_model e, le_project e, le_api_key_id e)"

definition cache_rows_grouped ::
  "database \<Rightarrow> usage_filter \<Rightarrow> string \<Rightarrow> string + ((int \<times> string \<times> string option \<times> int option) \<times> cache_usage_summary) list" where
  "cache_rows_grouped db f t =
     unless_no_users f
       (repo db CacheRows
         (map (\<lambda>(k, rs). (k, cache_usage rs)) (group_by usage_key (filter (usage_matches f) (rows_since t db)))))"

definition worth_listing :: "'k \<times> ledger_entry list \<Rightarrow> bool" where
  "worth_listing g \<longleftrightarrow> 0 < cost_total (snd g) \<or> snd g \<noteq> []"

text \<open>Per user: cost, tokens in and out, requests, and the cost had nothing come from the cache.\<close>

definition cost_stats_grouped ::
  "database \<Rightarrow> usage_filter \<Rightarrow> string \<Rightarrow> string + (int \<times> rat \<times> int \<times> int \<times> int \<times> rat) list" where
  "cost_stats_grouped db f t =
     unless_no_users f
       (repo db CostStats
         (map (\<lambda>(u, rs). (u, cost_total rs, tokens_in_total rs, tokens_out_total rs, request_count rs,
                           cost_total rs + saved_total rs))
            (filter worth_listing (group_by le_user_id (filter (usage_matches (f\<lparr>uf_model := None\<rparr>)) (rows_since t db))))))"

definition user_cost_stats_since :: "database \<Rightarrow> int \<Rightarrow> string \<Rightarrow> string + rat \<times> int \<times> int \<times> int" where
  "user_cost_stats_since db u t =
     repo db UserStats
       (let rs = filter (\<lambda>e. le_user_id e = u) (rows_since t db)
        in (cost_total rs, tokens_in_total rs, tokens_out_total rs, request_count rs))"

definition list_daily_spend ::
  "(string \<Rightarrow> string) \<Rightarrow> database \<Rightarrow> usage_filter \<Rightarrow> string \<Rightarrow> string \<Rightarrow> string + (string \<times> rat) list" where
  "list_daily_spend day db f t u =
     unless_no_users f
       (repo db DailySpend
         (map (\<lambda>(d, rs). (d, cost_total rs))
            (group_by (\<lambda>e. day (le_created_at e)) (filter (usage_matches (f\<lparr>uf_api_key_id := None\<rparr>)) (rows_between t u db)))))"

record model_summary_row =
  ms_model :: string
  ms_total_cost_usd :: rat
  ms_tokens_in :: int
  ms_tokens_out :: int
  ms_request_count :: int
  ms_uncached_cost_usd :: rat

definition summarize_by_model :: "database \<Rightarrow> usage_filter \<Rightarrow> string \<Rightarrow> string + model_summary_row list" where
  "summarize_by_model db f t =
     unless_no_users f
       (repo db SummaryByModel
         (map (\<lambda>(m, rs).
              \<lparr>ms_model = m, ms_total_cost_usd = cost_total rs, ms_tokens_in = tokens_in_total rs,
               ms_tokens_out = tokens_out_total rs, ms_request_count = request_count rs,
               ms_uncached_cost_usd = cost_total rs + saved_total rs\<rparr>)
            (sort_desc (\<lambda>g. cost_total (snd g))
              (filter worth_listing
                (group_by le_model (filter (usage_matches (f\<lparr>uf_api_key_id := None\<rparr>)) (rows_since t db)))))))"

definition cost_rows_grouped ::
  "database \<Rightarrow> usage_filter \<Rightarrow> string
     \<Rightarrow> string + ((int \<times> string \<times> string option \<times> int option) \<times> rat \<times> int \<times> int \<times> int) list" where
  "cost_rows_grouped db f t =
     unless_no_users f
       (repo db CostRows
         (map (\<lambda>(k, rs). (k, cost_total rs, tokens_in_total rs, tokens_out_total rs, request_count rs))
            (sort_desc (\<lambda>g. cost_total (snd g))
              (filter worth_listing (group_by usage_key (filter (usage_matches f) (rows_since t db)))))))"

section \<open>Distinct values\<close>

definition distinct_sorted :: "('r \<Rightarrow> 'k::linorder option) \<Rightarrow> 'r list \<Rightarrow> 'k list" where
  "distinct_sorted f rs = sort (remdups (List.map_filter f rs))"

definition distinct_projects_in_ledger :: "database \<Rightarrow> string + string list" where
  "distinct_projects_in_ledger db = repo db DistinctProjects (distinct_sorted le_project (cost_ledger db))"

definition distinct_models_in_ledger :: "database \<Rightarrow> string + string list" where
  "distinct_models_in_ledger db = repo db DistinctModels (distinct_sorted (\<lambda>e. Some (le_model e)) (cost_ledger db))"

definition distinct_providers_in_ledger :: "database \<Rightarrow> string + string list" where
  "distinct_providers_in_ledger db = repo db DistinctProviders (distinct_sorted (\<lambda>e. Some (le_provider e)) (cost_ledger db))"

text \<open>\<open>MIN\<close> and \<open>MAX\<close> of the timestamps of a group, which has at least one row.\<close>

definition first_at :: "ledger_entry list \<Rightarrow> string" where
  "first_at rs = hd (sort (map le_created_at rs))"

definition last_at :: "ledger_entry list \<Rightarrow> string" where
  "last_at rs = last (sort (map le_created_at rs))"

definition distinct_recent_correlation_ids :: "database \<Rightarrow> int \<Rightarrow> string + string list" where
  "distinct_recent_correlation_ids db n =
     repo db RecentCorrelations
       (limit_offset n 0
         (List.map_filter fst
           (sort_desc (\<lambda>g. last_at (snd g))
             (group_by attribution_correlation_id
               (filter (\<lambda>e. attribution_correlation_id e \<noteq> None \<and> attribution_correlation_id e \<noteq> Some [])
                 (cost_ledger db))))))"

definition distinct_attribution_tag_keys :: "(string \<Rightarrow> string list) \<Rightarrow> database \<Rightarrow> string + string list" where
  "distinct_attribution_tag_keys keys_of db =
     repo db TagKeys
       (sort (remdups (concat (map (\<lambda>e. keys_of (attribution_tags e))
         (filter (\<lambda>e. attribution_tags e \<noteq> ''{}'') (cost_ledger db))))))"

definition distinct_attribution_values ::
  "(string \<Rightarrow> string \<Rightarrow> string option) \<Rightarrow> database \<Rightarrow> string option \<Rightarrow> int \<Rightarrow> string + string list" where
  "distinct_attribution_values extract db key n =
     repo db AttributionValues
       (limit_offset n 0
         (distinct_sorted
           (\<lambda>e. case key of
                  None \<Rightarrow> attribution_correlation_id e
                | Some k \<Rightarrow> extract (attribution_tags e) (tag_json_path k)) (cost_ledger db)))"

section \<open>Comparison arms\<close>

definition arm_rows ::
  "(string \<Rightarrow> string \<Rightarrow> string option) \<Rightarrow> arm_filter \<Rightarrow> string \<Rightarrow> string \<Rightarrow> database \<Rightarrow> ledger_entry list" where
  "arm_rows extract f t u db = filter (\<lambda>e. arm_predicate extract f (ledger_columns e)) (rows_between t u db)"

definition arm_totals ::
  "(string \<Rightarrow> string \<Rightarrow> string option) \<Rightarrow> database \<Rightarrow> arm_filter \<Rightarrow> string \<Rightarrow> string \<Rightarrow> string + attribution_totals" where
  "arm_totals extract db f t u = repo db ArmTotals (totals_of (arm_rows extract f t u db))"

definition arm_by_model ::
  "(string \<Rightarrow> string \<Rightarrow> string option) \<Rightarrow> database \<Rightarrow> arm_filter \<Rightarrow> string \<Rightarrow> string
     \<Rightarrow> string + (string \<times> attribution_totals) list" where
  "arm_by_model extract db f t u =
     repo db ArmByModel
       (map (\<lambda>(m, rs). (m, totals_of rs))
         (sort_desc (\<lambda>g. cost_total (snd g)) (group_by le_model (arm_rows extract f t u db))))"

definition arm_by_day ::
  "(string \<Rightarrow> string) \<Rightarrow> (string \<Rightarrow> string \<Rightarrow> string option) \<Rightarrow> database \<Rightarrow> arm_filter \<Rightarrow> string \<Rightarrow> string
     \<Rightarrow> string + (string \<times> attribution_totals) list" where
  "arm_by_day day extract db f t u =
     repo db ArmByDay
       (map (\<lambda>(d, rs). (d, totals_of rs)) (group_by (\<lambda>e. day (le_created_at e)) (arm_rows extract f t u db)))"

definition attribution_totals_between ::
  "(string \<Rightarrow> string \<Rightarrow> string option) \<Rightarrow> database \<Rightarrow> attribution_filter \<Rightarrow> string \<Rightarrow> string \<Rightarrow> string + attribution_totals" where
  "attribution_totals_between extract db f = arm_totals extract db (ArmAttribution f)"

definition attribution_by_model ::
  "(string \<Rightarrow> string \<Rightarrow> string option) \<Rightarrow> database \<Rightarrow> attribution_filter \<Rightarrow> string \<Rightarrow> string
     \<Rightarrow> string + (string \<times> attribution_totals) list" where
  "attribution_by_model extract db f = arm_by_model extract db (ArmAttribution f)"

definition attribution_by_day ::
  "(string \<Rightarrow> string) \<Rightarrow> (string \<Rightarrow> string \<Rightarrow> string option) \<Rightarrow> database \<Rightarrow> attribution_filter \<Rightarrow> string \<Rightarrow> string
     \<Rightarrow> string + (string \<times> attribution_totals) list" where
  "attribution_by_day day extract db f = arm_by_day day extract db (ArmAttribution f)"

section \<open>Experiments\<close>

text \<open>
  A run is every row that shares its user and correlation id. Its variant is that of its earliest stamped row,
  by time of creation and then by id.
\<close>

record run_stamp =
  rs_experiment_id :: "int option"
  rs_experiment_variant :: "string option"

definition of_run :: "int \<Rightarrow> string \<Rightarrow> ledger_entry \<Rightarrow> bool" where
  "of_run u c e \<longleftrightarrow> le_user_id e = u \<and> attribution_correlation_id e = Some c"

definition run_stamp_of :: "database \<Rightarrow> int \<Rightarrow> string \<Rightarrow> string + run_stamp option" where
  "run_stamp_of db u c =
     repo db RunStamp
       (case sort_key (\<lambda>e. (le_experiment_id e = None, le_created_at e, le_id e)) (filter (of_run u c) (cost_ledger db)) of
          [] \<Rightarrow> None
        | e # _ \<Rightarrow> Some \<lparr>rs_experiment_id = le_experiment_id e, rs_experiment_variant = le_experiment_variant e\<rparr>)"

definition stamped :: "int \<Rightarrow> ledger_entry \<Rightarrow> bool" where
  "stamped i e \<longleftrightarrow> le_experiment_id e = Some i"

text \<open>\<open>COALESCE(_, '')\<close> over a text column.\<close>

definition or_empty :: "string option \<Rightarrow> string" where
  "or_empty x = (case x of Some v \<Rightarrow> v | None \<Rightarrow> [])"

record variant_totals =
  xt_variant :: string
  xt_requests :: int
  xt_cost_usd :: rat
  xt_saved_usd :: rat
  xt_tokens_in :: int
  xt_tokens_out :: int
  xt_estimated_rows :: int

definition variant_totals_of :: "string \<Rightarrow> ledger_entry list \<Rightarrow> variant_totals" where
  "variant_totals_of v rs =
     \<lparr>xt_variant = v, xt_requests = request_count rs, xt_cost_usd = cost_total rs, xt_saved_usd = saved_total rs,
      xt_tokens_in = tokens_in_total rs, xt_tokens_out = tokens_out_total rs, xt_estimated_rows = estimated_total rs\<rparr>"

definition experiment_variant_totals :: "database \<Rightarrow> int \<Rightarrow> string + variant_totals list" where
  "experiment_variant_totals db i =
     repo db VariantTotals
       (map (\<lambda>(v, rs). variant_totals_of (or_empty v) rs)
         (group_by le_experiment_variant (filter (stamped i) (cost_ledger db))))"

record variant_model_row = variant_totals +
  xm_model :: string

text \<open>Within a variant the largest spend comes first, then the name.\<close>

definition experiment_variant_models :: "database \<Rightarrow> int \<Rightarrow> string + variant_model_row list" where
  "experiment_variant_models db i =
     repo db VariantModels
       (map (\<lambda>((v, m), rs). variant_totals.extend (variant_totals_of (or_empty v) rs) \<lparr>xm_model = m\<rparr>)
         (sort_key (\<lambda>g. (fst (fst g), - cost_total (snd g), snd (fst g)))
           (group_by (\<lambda>e. (le_experiment_variant e, le_model e)) (filter (stamped i) (cost_ledger db)))))"

text \<open>\<open>RUN_ROWS_WHERE\<close> and the key such rows are grouped by.\<close>

definition run_rows :: "int \<Rightarrow> database \<Rightarrow> ledger_entry list" where
  "run_rows i db = filter (\<lambda>e. stamped i e \<and> attribution_correlation_id e \<noteq> None) (cost_ledger db)"

definition run_key :: "ledger_entry \<Rightarrow> int \<times> string" where
  "run_key e = (le_user_id e, or_empty (attribution_correlation_id e))"

text \<open>\<open>RUN_VARIANT_SUBQUERY\<close>.\<close>

definition run_variant :: "int \<Rightarrow> database \<Rightarrow> int \<times> string \<Rightarrow> string" where
  "run_variant i db k =
     (case sort_key (\<lambda>e. (le_created_at e, le_id e))
             (filter (\<lambda>e. stamped i e \<and> of_run (fst k) (snd k) e) (cost_ledger db)) of
        [] \<Rightarrow> []
      | e # _ \<Rightarrow> or_empty (le_experiment_variant e))"

definition variant_count :: "ledger_entry list \<Rightarrow> int" where
  "variant_count rs = int (length (remdups (List.map_filter le_experiment_variant rs)))"

record run_row =
  rr_user_id :: int
  rr_correlation_id :: string
  rr_variant :: string
  rr_variant_count :: int
  rr_requests :: int
  rr_cost_usd :: rat
  rr_saved_usd :: rat
  rr_tokens_in :: int
  rr_tokens_out :: int
  rr_estimated_rows :: int
  rr_first_at :: string
  rr_last_at :: string

definition run_row_of :: "int \<Rightarrow> database \<Rightarrow> (int \<times> string) \<times> ledger_entry list \<Rightarrow> run_row" where
  "run_row_of i db g =
     (let (k, rs) = g
      in \<lparr>rr_user_id = fst k, rr_correlation_id = snd k, rr_variant = run_variant i db k,
          rr_variant_count = variant_count rs, rr_requests = request_count rs, rr_cost_usd = cost_total rs,
          rr_saved_usd = saved_total rs, rr_tokens_in = tokens_in_total rs, rr_tokens_out = tokens_out_total rs,
          rr_estimated_rows = estimated_total rs, rr_first_at = first_at rs, rr_last_at = last_at rs\<rparr>)"

definition row_mixed :: "run_row \<Rightarrow> bool" where
  "row_mixed r \<longleftrightarrow> 1 < rr_variant_count r"

definition experiment_runs :: "database \<Rightarrow> int \<Rightarrow> int \<Rightarrow> int \<Rightarrow> string + run_row list" where
  "experiment_runs db i n m =
     repo db ExperimentRuns
       (limit_offset n m
         (map (run_row_of i db) (sort_desc (\<lambda>g. last_at (snd g)) (group_by run_key (run_rows i db)))))"

record run_key_row =
  rk_user_id :: int
  rk_correlation_id :: string
  rk_variant :: string
  rk_mixed :: bool
  rk_requests :: int
  rk_first_at :: string
  rk_last_at :: string

definition run_key_row_of :: "int \<Rightarrow> database \<Rightarrow> (int \<times> string) \<times> ledger_entry list \<Rightarrow> run_key_row" where
  "run_key_row_of i db g =
     (let (k, rs) = g
      in \<lparr>rk_user_id = fst k, rk_correlation_id = snd k, rk_variant = run_variant i db k,
          rk_mixed = (1 < variant_count rs), rk_requests = request_count rs,
          rk_first_at = first_at rs, rk_last_at = last_at rs\<rparr>)"

definition experiment_run_keys :: "database \<Rightarrow> int \<Rightarrow> string + run_key_row list" where
  "experiment_run_keys db i = repo db RunKeys (map (run_key_row_of i db) (group_by run_key (run_rows i db)))"

record unbound_row =
  ub_user_id :: int
  ub_correlation_id :: string
  ub_requests :: int

definition experiment_unbound_requests :: "database \<Rightarrow> int \<Rightarrow> string + unbound_row list" where
  "experiment_unbound_requests db i =
     repo db UnboundRequests
       (map (\<lambda>((u, c), rs). \<lparr>ub_user_id = u, ub_correlation_id = c, ub_requests = request_count rs\<rparr>)
         (group_by run_key
           (filter (\<lambda>e. le_experiment_id e = None \<and> attribution_correlation_id e \<noteq> None
                     \<and> list_ex (\<lambda>b. stamped i b \<and> le_user_id b = le_user_id e
                                   \<and> attribution_correlation_id b = attribution_correlation_id e) (cost_ledger db))
             (cost_ledger db))))"

section \<open>Facts\<close>

lemma mset_sort_desc [simp]: "mset (sort_desc f rs) = mset rs"
  by (simp add: sort_desc_def)

lemma set_sort_desc [simp]: "set (sort_desc f rs) = set rs"
  by (simp add: sort_desc_def)

lemma length_sort_desc [simp]: "length (sort_desc f rs) = length rs"
  by (simp add: sort_desc_def)

text \<open>A sum does not see the order of its summands.\<close>

lemma sum_list_reordered:
  fixes h :: "'a \<Rightarrow> 'b::comm_monoid_add"
  assumes "mset xs = mset ys"
  shows "sum_list (map h xs) = sum_list (map h ys)"
  by (metis assms mset_map sum_mset_sum_list)

lemma fst_group_by: "map fst (group_by f rs) = sort (remdups (map f rs))"
  by (simp add: group_by_def comp_def)

lemma distinct_groups: "distinct (map fst (group_by f rs))"
  by (simp add: fst_group_by)

lemma group_by_member: "(k, g) \<in> set (group_by f rs) \<longleftrightarrow> k \<in> f ` set rs \<and> g = filter (\<lambda>r. f r = k) rs"
  by (auto simp: group_by_def)

lemma group_nonempty: "(k, g) \<in> set (group_by f rs) \<Longrightarrow> g \<noteq> []"
  by (auto simp: group_by_member filter_empty_conv)

text \<open>The row a stable sort puts first is one that comes before every other.\<close>

lemma first_of_sort:
  assumes "rs \<noteq> []"
  shows "\<exists>e es. sort_key f rs = e # es \<and> e \<in> set rs \<and> (\<forall>x\<in>set rs. f e \<le> f x)"
proof -
  obtain e es where s: "sort_key f rs = e # es" using assms by (metis length_0_conv length_sort neq_Nil_conv)
  have "sorted (map f (e # es))" unfolding s [symmetric] by simp
  moreover have "set (e # es) = set rs" unfolding s [symmetric] by simp
  ultimately show ?thesis using s by auto
qed

section \<open>Properties\<close>

text \<open>
  C18. Every breakdown of an arm adds up to the arm, whatever the rows: the models of a window and its days each
  sum, column by column, to the totals reported for that window; and cutting the window in two at any moment
  cuts the totals in two, because a window holds its start and not its end.
\<close>

theorem breakdowns_add_up:
  assumes "arm_totals extract db f t u = Inr tot"
    and "arm_by_model extract db f t u = Inr models" and "arm_by_day day extract db f t u = Inr days"
    and "t \<le> mid" and "mid \<le> u"
  shows "sum_list (map snd models) = tot \<and> sum_list (map snd days) = tot
    \<and> (\<exists>early late. arm_totals extract db f t mid = Inr early \<and> arm_totals extract db f mid u = Inr late \<and> early + late = tot)"
proof -
  let ?rs = "arm_rows extract f t u db"
  have tot: "tot = totals_of ?rs" and up: "\<not> faults db ArmTotals" using assms(1) by (simp_all add: arm_totals_def)
  have "sum_list (map snd models)
      = sum_list (map (\<lambda>g. totals_of (snd g)) (sort_desc (\<lambda>g. cost_total (snd g)) (group_by le_model ?rs)))"
    using assms(2) by (simp add: arm_by_model_def comp_def split_beta)
  also have "\<dots> = sum_list (map (\<lambda>g. totals_of (snd g)) (group_by le_model ?rs))"
    by (rule sum_list_reordered) simp
  also have "\<dots> = tot" unfolding tot by (rule totals.groups)
  finally have m: "sum_list (map snd models) = tot" .
  have d: "sum_list (map snd days) = tot"
    using assms(3) by (simp add: arm_by_day_def comp_def split_beta tot totals.groups)
  have "filter (\<lambda>e. le_created_at e < mid) ?rs = arm_rows extract f t mid db"
    "filter (\<lambda>e. \<not> le_created_at e < mid) ?rs = arm_rows extract f mid u db"
    unfolding arm_rows_def rows_between_def filter_filter
    by (rule filter_cong; use assms(4,5) in \<open>auto simp: between_def\<close>)+
  then have "tot = totals_of (arm_rows extract f t mid db) + totals_of (arm_rows extract f mid u db)"
    unfolding tot by (metis totals.split_rows)
  then show ?thesis using m d up by (simp add: arm_totals_def)
qed

definition hit_entry :: ledger_entry where
  "hit_entry = (ledger_row 2 ''2026-01-02'' sample_entry)\<lparr>cost_usd := 0, cache_hit := True, saved_usd := 3\<rparr>"

definition two_days :: database where
  "two_days = empty_db\<lparr>cost_ledger := [ledger_row 1 ''2026-01-01'' sample_entry, hit_entry]\<rparr>"

theorem breakdowns_add_up_witness:
  "\<exists>early late. arm_totals (\<lambda>_ _. None) two_days (ArmModel ''m'') ''2026-01-01'' ''2026-01-02'' = Inr early
     \<and> arm_totals (\<lambda>_ _. None) two_days (ArmModel ''m'') ''2026-01-02'' ''2026-01-03'' = Inr late
     \<and> early + late = AttributionTotals 3 3 6 20 10 2 1"
proof -
  have up: "\<not> faults two_days op" for op by (simp add: two_days_def empty_db_def)
  have "totals_of (arm_rows (\<lambda>_ _. None) (ArmModel ''m'') ''2026-01-01'' ''2026-01-03'' two_days)
      = AttributionTotals 3 3 6 20 10 2 1"
    by code_simp
  then have t: "arm_totals (\<lambda>_ _. None) two_days (ArmModel ''m'') ''2026-01-01'' ''2026-01-03''
      = Inr (AttributionTotals 3 3 6 20 10 2 1)"
    by (simp add: arm_totals_def up)
  have le: "''2026-01-01'' \<le> ''2026-01-02''" "''2026-01-02'' \<le> ''2026-01-03''" by code_simp+
  show ?thesis
    using breakdowns_add_up [OF t _ _ le, where day = "\<lambda>d. d"] up by (simp add: arm_by_model_def arm_by_day_def)
qed

text \<open>
  The run-level figures and the stamp given to feedback follow one rule: of a run whose stamped rows are all of
  one experiment, \<open>run_stamp\<close> names that experiment and the variant that the experiment's results show for it.
\<close>

lemma run_stamp_is_run_variant:
  assumes "run_stamp_of db u c = Inr s"
    and "\<exists>e\<in>set (cost_ledger db). of_run u c e \<and> stamped i e"
    and "\<forall>e\<in>set (cost_ledger db). of_run u c e \<longrightarrow> le_experiment_id e \<in> {None, Some i}"
    and "distinct (map le_id (cost_ledger db))"
  shows "\<exists>v. s = Some \<lparr>rs_experiment_id = Some i, rs_experiment_variant = v\<rparr> \<and> or_empty v = run_variant i db (u, c)"
proof -
  let ?f = "\<lambda>e. (le_experiment_id e = None, le_created_at e, le_id e)"
  let ?run = "filter (of_run u c) (cost_ledger db)" and ?st = "filter (\<lambda>e. stamped i e \<and> of_run u c e) (cost_ledger db)"
  have ne: "?run \<noteq> []" "?st \<noteq> []" using assms(2) by (auto simp: filter_empty_conv)
  obtain e es where e: "sort_key ?f ?run = e # es" "e \<in> set ?run" "\<forall>x\<in>set ?run. ?f e \<le> ?f x"
    using first_of_sort [OF ne(1)] by blast
  obtain b bs where b: "sort_key (\<lambda>e. (le_created_at e, le_id e)) ?st = b # bs" "b \<in> set ?st"
      "\<forall>x\<in>set ?st. (le_created_at b, le_id b) \<le> (le_created_at x, le_id x)"
    using first_of_sort [OF ne(2)] by blast
  have run: "b \<in> set ?run" and bi: "le_experiment_id b = Some i" using b(2) by (auto simp: stamped_def)
  have ei: "le_experiment_id e = Some i" using bspec [OF e(3) run] bi assms(3) e(2) by (auto simp: less_eq_prod_def)
  then have "(le_created_at e, le_id e) \<le> (le_created_at b, le_id b)"
    using bspec [OF e(3) run] bi by (auto simp: less_eq_prod_def)
  moreover have "(le_created_at b, le_id b) \<le> (le_created_at e, le_id e)"
    using bspec [OF b(3), of e] e(2) ei by (auto simp: stamped_def)
  ultimately have "le_id e = le_id b" by (metis order_antisym prod.inject)
  then have "e = b" using assms(4) e(2) run by (auto simp: distinct_map inj_on_def)
  then show ?thesis using assms(1) e(1) b(1) ei by (auto simp: run_stamp_of_def run_variant_def)
qed

end
