(* ===== verification/Archival.thy ===== *)
theory Archival
  imports Ledger_Analytics Prompt_Log
begin

text \<open>
  Moving old ledger rows to an object store (\<open>src/src/archival/mod.rs\<close>, \<open>s3.rs\<close>, and the two ledger operations
  it uses in \<open>src/src/db/sqlite/costs.rs\<close>). The store is a map from URLs to contents in which a \<open>PUT\<close> replaces
  what was there; whether a \<open>PUT\<close> succeeds is an input. The clock gives the cutoff and its day as text; the
  JSON text of a row is the parameter \<open>print\<close>.
\<close>

section \<open>The ledger's side\<close>

definition archive_limit :: nat where
  "archive_limit = 10000"

definition list_cost_entries_before :: "database \<Rightarrow> string \<Rightarrow> string + ledger_entry list" where
  "list_cost_entries_before db cutoff =
     repo db ListBefore
       (take archive_limit (sort_key le_created_at (filter (\<lambda>e. le_created_at e < cutoff) (cost_ledger db))))"

definition delete_chunk :: nat where
  "delete_chunk = 500"

text \<open>
  One \<open>DELETE\<close> per chunk of ids, each a statement of its own: \<open>bad\<close> says which of them fail. The chunks before
  a failing one are gone.
\<close>

fun delete_ids :: "bool list \<Rightarrow> int list list \<Rightarrow> database \<Rightarrow> (string + unit) \<times> database" where
  "delete_ids bad [] db = (Inr (), db)"
| "delete_ids bad (ids # rest) db =
     (if bad \<noteq> [] \<and> hd bad then (Inl db_error, db)
      else delete_ids (tl bad) rest (db\<lparr>cost_ledger := filter (\<lambda>e. le_id e \<notin> set ids) (cost_ledger db)\<rparr>))"

definition delete_cost_entries_by_ids :: "bool list \<Rightarrow> int list \<Rightarrow> database \<Rightarrow> (string + unit) \<times> database" where
  "delete_cost_entries_by_ids bad ids db = delete_ids bad (chunks delete_chunk ids) db"

section \<open>The job\<close>

record archival_config =
  av_enabled :: bool
  av_after_days :: nat
  av_endpoint :: string
  av_bucket :: string
  av_prefix :: string

record archive_state =
  as_db :: database
  as_store :: "string \<rightharpoonup> string"

text \<open>What one run meets: the cutoff, its day, whether the upload is accepted, which deletions fail.\<close>

record archive_round =
  rd_cutoff :: string
  rd_day :: string
  rd_put_ok :: bool
  rd_delete_bad :: "bool list"

definition rows_to_ndjson :: "(ledger_entry \<Rightarrow> string) \<Rightarrow> ledger_entry list \<Rightarrow> string" where
  "rows_to_ndjson print rs = join_lines (map print rs)"

definition object_url :: "archival_config \<Rightarrow> string \<Rightarrow> string" where
  "object_url cfg key = av_endpoint cfg @ ''/'' @ av_bucket cfg @ ''/'' @ key"

definition object_key :: "archival_config \<Rightarrow> string \<Rightarrow> string" where
  "object_key cfg day = av_prefix cfg @ ''/'' @ day @ ''.ndjson''"

definition upload_ndjson ::
  "archival_config \<Rightarrow> bool \<Rightarrow> string \<Rightarrow> string \<Rightarrow> (string \<rightharpoonup> string) \<Rightarrow> (string + unit) \<times> (string \<rightharpoonup> string)" where
  "upload_ndjson cfg ok key txt store =
     (if ok then (Inr (), store(object_url cfg key \<mapsto> txt)) else (Inl ''S3 upload failed'', store))"

definition run_once ::
  "(ledger_entry \<Rightarrow> string) \<Rightarrow> archival_config \<Rightarrow> archive_round \<Rightarrow> archive_state \<Rightarrow> (string + nat) \<times> archive_state" where
  "run_once print cfg rd s =
     (case list_cost_entries_before (as_db s) (rd_cutoff rd) of
        Inl e \<Rightarrow> (Inl e, s)
      | Inr rs \<Rightarrow>
          if rs = [] then (Inr 0, s)
          else (case upload_ndjson cfg (rd_put_ok rd) (object_key cfg (rd_day rd)) (rows_to_ndjson print rs) (as_store s) of
                  (Inl e, store) \<Rightarrow> (Inl e, s\<lparr>as_store := store\<rparr>)
                | (Inr _, store) \<Rightarrow>
                    (case delete_cost_entries_by_ids (rd_delete_bad rd) (map le_id rs) (as_db s) of
                       (Inl e, db) \<Rightarrow> (Inl e, \<lparr>as_db = db, as_store = store\<rparr>)
                     | (Inr _, db) \<Rightarrow> (Inr (length rs), \<lparr>as_db = db, as_store = store\<rparr>))))"

text \<open>The background task: rounds one after the other, errors only logged.\<close>

definition archival_task :: "(ledger_entry \<Rightarrow> string) \<Rightarrow> archival_config \<Rightarrow> archive_round list \<Rightarrow> archive_state \<Rightarrow> archive_state" where
  "archival_task print cfg rounds s = fold (\<lambda>rd s. snd (run_once print cfg rd s)) rounds s"

section \<open>Facts\<close>

lemma concat_chunks: "concat (chunks n xs) = xs"
  by (induction n xs rule: chunks.induct) simp_all

lemma delete_ids_all:
  "delete_ids bad idss db = (Inr (), db')
    \<Longrightarrow> cost_ledger db' = filter (\<lambda>e. le_id e \<notin> set (concat idss)) (cost_ledger db)"
  by (induction bad idss db rule: delete_ids.induct) (auto split: if_splits intro!: filter_cong)

lemma delete_ids_some:
  "delete_ids bad idss db = (r, db') \<Longrightarrow> e \<in> set (cost_ledger db) \<Longrightarrow> le_id e \<notin> set (concat idss) \<Longrightarrow> e \<in> set (cost_ledger db')"
  by (induction bad idss db rule: delete_ids.induct) (auto split: if_splits)

lemma deleted_all:
  "delete_cost_entries_by_ids bad ids db = (Inr (), db')
    \<Longrightarrow> cost_ledger db' = filter (\<lambda>e. le_id e \<notin> set ids) (cost_ledger db)"
  unfolding delete_cost_entries_by_ids_def by (drule delete_ids_all) (simp only: concat_chunks)

lemma deleted_some:
  "delete_cost_entries_by_ids bad ids db = (r, db') \<Longrightarrow> e \<in> set (cost_ledger db) \<Longrightarrow> le_id e \<notin> set ids
    \<Longrightarrow> e \<in> set (cost_ledger db')"
  unfolding delete_cost_entries_by_ids_def by (drule (1) delete_ids_some) (simp_all only: concat_chunks not_False_eq_True)

lemma before_rows:
  assumes "list_cost_entries_before db c = Inr rs"
  shows "set rs \<subseteq> set (cost_ledger db) \<and> (\<forall>e\<in>set rs. le_created_at e < c)"
proof -
  have "set rs \<subseteq> set (sort_key le_created_at (filter (\<lambda>e. le_created_at e < c) (cost_ledger db)))"
    using assms by (auto simp: list_cost_entries_before_def dest: in_set_takeD)
  then show ?thesis by auto
qed

lemma same_id_same_row:
  "distinct (map le_id rs) \<Longrightarrow> e \<in> set rs \<Longrightarrow> x \<in> set rs \<Longrightarrow> le_id e = le_id x \<Longrightarrow> e = x"
  by (auto simp: distinct_map inj_on_def)

text \<open>A run either leaves the ledger as it is, or has uploaded the rows it goes on to delete.\<close>

lemma run_once_cases:
  assumes "run_once print cfg rd s = (r, s')"
  obtains (idle) "as_db s' = as_db s" and "\<forall>n. r = Inr n \<longrightarrow> n = 0"
  | (moved) rs x db where "list_cost_entries_before (as_db s) (rd_cutoff rd) = Inr rs" and "rd_put_ok rd"
      and "delete_cost_entries_by_ids (rd_delete_bad rd) (map le_id rs) (as_db s) = (x, db)"
      and "s' = \<lparr>as_db = db, as_store = (as_store s)(object_url cfg (object_key cfg (rd_day rd)) \<mapsto> rows_to_ndjson print rs)\<rparr>"
      and "r = (case x of Inl e \<Rightarrow> Inl e | Inr _ \<Rightarrow> Inr (length rs))"
proof (cases "list_cost_entries_before (as_db s) (rd_cutoff rd)")
  case (Inl e)
  then show thesis using assms by (intro idle) (auto simp: run_once_def)
next
  case (Inr rs)
  show thesis
  proof (cases "rs = [] \<or> \<not> rd_put_ok rd")
    case True
    then show thesis using assms Inr by (intro idle) (auto simp: run_once_def upload_ndjson_def split: if_splits)
  next
    case False
    obtain x db where d: "delete_cost_entries_by_ids (rd_delete_bad rd) (map le_id rs) (as_db s) = (x, db)" by fastforce
    show thesis
      by (rule moved [OF Inr _ d]) (use assms Inr False d in \<open>simp_all add: run_once_def upload_ndjson_def split: sum.splits\<close>)
  qed
qed

section \<open>Properties\<close>

text \<open>
  C19. A row leaves the ledger only after it is in the store. Whatever fails in a run of the job, each row that is
  no longer in the ledger was older than the cutoff and is in the object this run has uploaded; a run whose
  upload is refused deletes nothing; a run that succeeds has deleted exactly the rows it uploaded.
\<close>

theorem archived_before_deleted:
  assumes "run_once print cfg rd s = (r, s')" and "distinct (map le_id (cost_ledger (as_db s)))"
    and "e \<in> set (cost_ledger (as_db s))"
  shows "(e \<notin> set (cost_ledger (as_db s')) \<longrightarrow>
      (\<exists>rs. e \<in> set rs \<and> rd_put_ok rd \<and> le_created_at e < rd_cutoff rd
         \<and> as_store s' (object_url cfg (object_key cfg (rd_day rd))) = Some (rows_to_ndjson print rs)))
    \<and> (\<forall>n. r = Inr n \<longrightarrow> (\<exists>rs. length rs = n \<and> set rs \<subseteq> set (cost_ledger (as_db s))
         \<and> cost_ledger (as_db s') = filter (\<lambda>x. x \<notin> set rs) (cost_ledger (as_db s))))"
  using assms(1)
proof (cases rule: run_once_cases)
  case (idle)
  then show ?thesis using assms(3) by (auto intro: exI [of _ "[]"])
next
  case (moved rs x db)
  note old = before_rows [OF moved(1)]
  have ids: "le_id y \<in> set (map le_id rs) \<longleftrightarrow> y \<in> set rs" if "y \<in> set (cost_ledger (as_db s))" for y
    using same_id_same_row [OF assms(2) that] old by auto
  have "e \<in> set rs" if "e \<notin> set (cost_ledger db)"
    using deleted_some [OF moved(3) assms(3)] that ids [OF assms(3)] by blast
  then have left: "e \<notin> set (cost_ledger (as_db s')) \<longrightarrow>
      (\<exists>rs. e \<in> set rs \<and> rd_put_ok rd \<and> le_created_at e < rd_cutoff rd
         \<and> as_store s' (object_url cfg (object_key cfg (rd_day rd))) = Some (rows_to_ndjson print rs))"
    using old moved(2,4) by (metis archive_state.select_convs map_upd_Some_unfold)
  have "cost_ledger db = filter (\<lambda>y. y \<notin> set rs) (cost_ledger (as_db s))" if "x = Inr ()"
    unfolding deleted_all [OF moved(3) [unfolded that]] using ids by (intro filter_cong) simp_all
  moreover have "x = Inr () \<and> n = length rs" if "r = Inr n" for n
    using moved(5) that by (cases x) simp_all
  ultimately show ?thesis using left old moved(4) by (metis archive_state.select_convs(1))
qed

definition sample_archive :: archival_config where
  "sample_archive = \<lparr>av_enabled = True, av_after_days = 90, av_endpoint = ''http://s3'', av_bucket = ''b'', av_prefix = ''cost''\<rparr>"

definition dated_entry :: "int \<Rightarrow> string \<Rightarrow> ledger_entry" where
  "dated_entry i t = ledger_row i t sample_entry"

definition print_id :: "ledger_entry \<Rightarrow> string" where
  "print_id e = show_int (le_id e)"

definition ledger_at :: "ledger_entry list \<Rightarrow> archive_state" where
  "ledger_at rs = \<lparr>as_db = empty_db\<lparr>cost_ledger := rs\<rparr>, as_store = Map.empty\<rparr>"

definition round_at :: "string \<Rightarrow> archive_round" where
  "round_at t = \<lparr>rd_cutoff = t, rd_day = take 10 t, rd_put_ok = True, rd_delete_bad = []\<rparr>"

text \<open>One run over two rows, the first of which may have been archived before.\<close>

lemma one_round:
  "run_once print_id sample_archive (round_at t) \<lparr>as_db = empty_db\<lparr>cost_ledger := [dated_entry i u]\<rparr>, as_store = st\<rparr>
   = (if u < t
      then (Inr 1, \<lparr>as_db = empty_db\<lparr>cost_ledger := []\<rparr>,
                    as_store = st(object_url sample_archive (object_key sample_archive (take 10 t)) \<mapsto> show_int i)\<rparr>)
      else (Inr 0, \<lparr>as_db = empty_db\<lparr>cost_ledger := [dated_entry i u]\<rparr>, as_store = st\<rparr>))"
  by (simp add: run_once_def list_cost_entries_before_def repo_def empty_db_def upload_ndjson_def round_at_def
      delete_cost_entries_by_ids_def archive_limit_def delete_chunk_def dated_entry_def ledger_row_def
      rows_to_ndjson_def join_lines_def print_id_def)

theorem archived_before_deleted_witness:
  "\<exists>rs. dated_entry 1 ''2026-01-02T05'' \<in> set rs
     \<and> as_store (snd (run_once print_id sample_archive (round_at ''2026-01-02T06'') (ledger_at [dated_entry 1 ''2026-01-02T05''])))
         ''http://s3/b/cost/2026-01-02.ndjson'' = Some (rows_to_ndjson print_id rs)"
proof -
  let ?s = "ledger_at [dated_entry 1 ''2026-01-02T05'']" and ?rd = "round_at ''2026-01-02T06''"
  let ?out = "run_once print_id sample_archive ?rd ?s"
  have d: "distinct (map le_id (cost_ledger (as_db ?s)))" by (simp add: ledger_at_def empty_db_def)
  have m: "dated_entry 1 ''2026-01-02T05'' \<in> set (cost_ledger (as_db ?s))" by (simp add: ledger_at_def empty_db_def)
  obtain r s' where out: "?out = (r, s')" by fastforce
  have old: "''2026-01-02T05'' < ''2026-01-02T06''" by code_simp
  have gone: "cost_ledger (as_db s') = []"
    using out by (auto simp: ledger_at_def one_round old)
  have url: "object_url sample_archive (object_key sample_archive (rd_day ?rd)) = ''http://s3/b/cost/2026-01-02.ndjson''"
    by (simp add: object_url_def object_key_def sample_archive_def round_at_def)
  from archived_before_deleted [OF out d m] gone show ?thesis unfolding url out by auto
qed

text \<open>
  The next run of the same day replaces the object of the one before, whose rows are already deleted: the job
  runs every six hours and names its object by the day of the cutoff alone.
\<close>

lemma second_archive_of_a_day_loses_rows:
  assumes "first = dated_entry 1 ''2026-01-02T05''" and "second = dated_entry 2 ''2026-01-02T11''"
    and "run_once print_id sample_archive (round_at ''2026-01-02T06'') (ledger_at [first]) = (r1, s1)"
    and "run_once print_id sample_archive (round_at ''2026-01-02T12'')
           (s1\<lparr>as_db := (as_db s1)\<lparr>cost_ledger := cost_ledger (as_db s1) @ [second]\<rparr>\<rparr>) = (r2, s2)"
  shows "r1 = Inr 1 \<and> r2 = Inr 1 \<and> cost_ledger (as_db s2) = []
    \<and> as_store s2 = [''http://s3/b/cost/2026-01-02.ndjson'' \<mapsto> ''2'']"
proof -
  have t: "''2026-01-02T05'' < ''2026-01-02T06''" "''2026-01-02T11'' < ''2026-01-02T12''" by code_simp+
  have u: "object_url sample_archive (object_key sample_archive ''2026-01-02'') = ''http://s3/b/cost/2026-01-02.ndjson''"
    by (simp add: object_url_def object_key_def sample_archive_def)
  have one: "r1 = Inr 1" "s1 = \<lparr>as_db = empty_db\<lparr>cost_ledger := []\<rparr>,
      as_store = [''http://s3/b/cost/2026-01-02.ndjson'' \<mapsto> show_int 1]\<rparr>"
    using assms(3) by (simp_all add: assms(1) ledger_at_def one_round t(1) u)
  have "show_int 2 = ''2''" by code_simp
  then show ?thesis using assms(4) by (auto simp: one assms(2) one_round t(2) u)
qed

end
