(* ===== verification/Run_Reports.thy ===== *)
theory Run_Reports
  imports Ledger_Analytics Prompt_Log Api_Failures
begin

text \<open>
  The reports over the two other tables that carry an experiment's stamp: latency and attempts over the prompt
  log (\<open>src/src/db/sqlite/prompts.rs\<close>) and failures per run (\<open>src/src/db/sqlite/failures.rs\<close>), each for one arm of a
  comparison or for the runs of an experiment.
\<close>

section \<open>The prompt log\<close>

text \<open>A model arm matches the model that served the request.\<close>

definition prompt_columns :: "prompt_row \<Rightarrow> arm_columns" where
  "prompt_columns p =
     \<lparr>ac_model = Some (np_routed_model p), ac_provider = Some (np_provider p), ac_correlation_id = np_correlation_id p,
      ac_tags = np_attribution_tags p, ac_experiment_id = np_experiment_id p, ac_variant = np_experiment_variant p\<rparr>"

definition arm_prompts ::
  "(string \<Rightarrow> string \<Rightarrow> string option) \<Rightarrow> arm_filter \<Rightarrow> string \<Rightarrow> string \<Rightarrow> prompt_row list \<Rightarrow> prompt_row list" where
  "arm_prompts extract f start before ps =
     filter (\<lambda>p. arm_predicate extract f (prompt_columns p) \<and> start \<le> pr_created_at p \<and> pr_created_at p < before) ps"

definition arm_latency ::
  "(string \<Rightarrow> string \<Rightarrow> string option) \<Rightarrow> arm_filter \<Rightarrow> string \<Rightarrow> string \<Rightarrow> prompt_row list \<Rightarrow> latency_summary" where
  "arm_latency extract f = prompt_latency_summary (\<lambda>p. arm_predicate extract f (prompt_columns p))"

definition arm_ttft ::
  "(string \<Rightarrow> string \<Rightarrow> string option) \<Rightarrow> arm_filter \<Rightarrow> string \<Rightarrow> string \<Rightarrow> prompt_row list \<Rightarrow> latency_summary" where
  "arm_ttft extract f = prompt_ttft_summary (\<lambda>p. arm_predicate extract f (prompt_columns p))"

record attempts_summary =
  am_requests_tracked :: int
  am_attempts :: int
  am_retried_requests :: int

definition attempts_summary_of ::
  "(string \<Rightarrow> string \<Rightarrow> string option) \<Rightarrow> arm_filter \<Rightarrow> string \<Rightarrow> string \<Rightarrow> prompt_row list \<Rightarrow> attempts_summary" where
  "attempts_summary_of extract f start before ps =
     (let tries = List.map_filter np_attempts (arm_prompts extract f start before ps)
      in \<lparr>am_requests_tracked = int (length tries), am_attempts = sum_list tries,
          am_retried_requests = int (length (filter (\<lambda>n. 1 < n) tries))\<rparr>)"

record run_latency_row =
  rl_user_id :: int
  rl_correlation_id :: string
  rl_samples :: nat
  rl_mean_ms :: "rat option"

definition prompt_run_key :: "prompt_row \<Rightarrow> int \<times> string" where
  "prompt_run_key p = (np_user_id p, or_empty (np_correlation_id p))"

text \<open>Only rows with a positive latency are grouped, so that every group has a mean.\<close>

definition experiment_run_latency :: "prompt_row list \<Rightarrow> int \<Rightarrow> run_latency_row list" where
  "experiment_run_latency ps i =
     map (\<lambda>((u, c), rs).
         \<lparr>rl_user_id = u, rl_correlation_id = c, rl_samples = length rs,
          rl_mean_ms = Some (of_int (sum_list (List.map_filter np_latency_ms rs)) / of_nat (length rs))\<rparr>)
       (group_by prompt_run_key
         (filter (\<lambda>p. np_experiment_id p = Some i \<and> np_correlation_id p \<noteq> None
                    \<and> (case np_latency_ms p of Some n \<Rightarrow> 0 < n | None \<Rightarrow> False)) ps))"

section \<open>The failure log\<close>

text \<open>A request that failed before it was routed counts for the model it asked for.\<close>

definition failure_columns :: "request_failure \<Rightarrow> arm_columns" where
  "failure_columns f =
     \<lparr>ac_model = (case nf_routed_model f of Some m \<Rightarrow> Some m | None \<Rightarrow> Some (nf_request_model f)),
      ac_provider = nf_provider f, ac_correlation_id = nf_correlation_id f, ac_tags = nf_attribution_tags f,
      ac_experiment_id = nf_experiment_id f, ac_variant = nf_experiment_variant f\<rparr>"

definition count_for_arm ::
  "(string \<Rightarrow> string \<Rightarrow> string option) \<Rightarrow> failure_db \<Rightarrow> arm_filter \<Rightarrow> string \<Rightarrow> string \<Rightarrow> string + nat" where
  "count_for_arm extract db f start before =
     (if fd_down db then Inl db_error
      else Inr (length (filter (\<lambda>r. arm_predicate extract f (failure_columns r)
                                  \<and> start \<le> rf_created_at r \<and> rf_created_at r < before) (fd_rows db))))"

definition has_rows_for_user :: "failure_db \<Rightarrow> int \<Rightarrow> string \<Rightarrow> string + bool" where
  "has_rows_for_user db u c =
     (if fd_down db then Inl db_error
      else Inr (list_ex (\<lambda>r. nf_user_id r = Some u \<and> nf_correlation_id r = Some c) (fd_rows db)))"

record run_failures_row =
  fr_user_id :: int
  fr_correlation_id :: string
  fr_variant :: "string option"
  fr_failures :: int
  fr_first_at :: string
  fr_last_at :: string

definition run_failure :: "int \<Rightarrow> request_failure \<Rightarrow> bool" where
  "run_failure i f \<longleftrightarrow> nf_experiment_id f = Some i \<and> nf_user_id f \<noteq> None \<and> nf_correlation_id f \<noteq> None"

definition failure_key :: "request_failure \<Rightarrow> (int \<times> string) \<times> string option" where
  "failure_key f =
     ((case nf_user_id f of Some u \<Rightarrow> u | None \<Rightarrow> 0, or_empty (nf_correlation_id f)), nf_experiment_variant f)"

definition experiment_run_failures :: "failure_db \<Rightarrow> int \<Rightarrow> string + run_failures_row list" where
  "experiment_run_failures db i =
     (if fd_down db then Inl db_error
      else Inr (map (\<lambda>(((u, c), v), rs).
          \<lparr>fr_user_id = u, fr_correlation_id = c, fr_variant = v, fr_failures = request_count rs,
           fr_first_at = hd (sort (map rf_created_at rs)), fr_last_at = last (sort (map rf_created_at rs))\<rparr>)
        (group_by failure_key (filter (run_failure i) (fd_rows db)))))"

end
