(* ===== verification/Experiment_Results.thy ===== *)
theory Experiment_Results
  imports Run_Reports Retention Experiment_Admin
begin

text \<open>
  The results document of an experiment (\<open>src/src/api/admin/experiments.rs\<close>, from \<open>RunPage\<close> to
  \<open>get_experiment_results_api\<close>). The builder issues its reads as statements of their own; what each of them
  returned is the record \<open>results_reads\<close>, from which \<open>build_results\<close> assembles the document the way the code
  does, map by map. Hash maps are functions; where the code iterates over one, the order is the parameter
  \<open>order\<close>. The milliseconds between two RFC 3339 timestamps (\<open>None\<close> when one does not parse) are the
  parameter \<open>elapsed\<close>. Figures are exact rationals where the code has \<open>f64\<close>.
\<close>

section \<open>Pages\<close>

definition default_run_limit :: int where
  "default_run_limit = 200"

definition max_run_limit :: int where
  "max_run_limit = 1000"

record run_page =
  pg_limit :: int
  pg_offset :: int

definition parse_bounded :: "string option \<Rightarrow> int \<Rightarrow> (int \<Rightarrow> bool) \<Rightarrow> string \<Rightarrow> string + int" where
  "parse_bounded raw default_value ok msg =
     (case map_option trim raw of
        None \<Rightarrow> Inr default_value
      | Some [] \<Rightarrow> Inr default_value
      | Some s \<Rightarrow> (case parse_i64 s of Some n \<Rightarrow> if ok n then Inr n else Inl msg | None \<Rightarrow> Inl msg))"

definition parse_run_page :: "string option \<Rightarrow> string option \<Rightarrow> string + run_page" where
  "parse_run_page limit offset =
     (case parse_bounded limit default_run_limit (\<lambda>n. 1 \<le> n \<and> n \<le> max_run_limit)
             (''limit must be an integer between 1 and '' @ show_int max_run_limit) of
        Inl e \<Rightarrow> Inl e
      | Inr l \<Rightarrow>
          (case parse_bounded offset 0 (\<lambda>n. 0 \<le> n) ''offset must be an integer of at least 0'' of
             Inl e \<Rightarrow> Inl e
           | Inr m \<Rightarrow> Inr \<lparr>pg_limit = l, pg_offset = m\<rparr>))"

datatype results_error = ResultsInvalid string | ResultsDb string

definition results_api_error :: "results_error \<Rightarrow> api_error" where
  "results_api_error e = (case e of ResultsInvalid m \<Rightarrow> InvalidRequest m | ResultsDb _ \<Rightarrow> Internal)"

section \<open>The document\<close>

record token_totals =
  tk_prompt :: int
  tk_completion :: int
  tk_total :: int

definition token_totals_new :: "int \<Rightarrow> int \<Rightarrow> token_totals" where
  "token_totals_new p c = \<lparr>tk_prompt = p, tk_completion = c, tk_total = p + c\<rparr>"

definition add_tokens :: "token_totals \<Rightarrow> token_totals \<Rightarrow> token_totals" where
  "add_tokens t u =
     \<lparr>tk_prompt = tk_prompt t + tk_prompt u, tk_completion = tk_completion t + tk_completion u,
      tk_total = tk_total t + tk_total u\<rparr>"

record run_latency =
  ry_samples :: nat
  ry_mean_ms :: rat

record outcome_stats =
  os_reported :: int
  os_success :: int
  os_failure :: int
  os_success_rate :: "rat option"
  os_mean_score :: "rat option"
  os_score_samples :: int
  os_mean_rating :: "rat option"
  os_rating_samples :: int

definition no_outcomes :: outcome_stats where
  "no_outcomes =
     \<lparr>os_reported = 0, os_success = 0, os_failure = 0, os_success_rate = None, os_mean_score = None,
      os_score_samples = 0, os_mean_rating = None, os_rating_samples = 0\<rparr>"

definition running_mean :: "rat option \<Rightarrow> int \<Rightarrow> rat \<Rightarrow> rat" where
  "running_mean mean n v = (let m = (case mean of Some m \<Rightarrow> m | None \<Rightarrow> 0) in m + (v - m) / (of_int n + 1))"

definition add_outcome :: "outcome_stats \<Rightarrow> 'a new_run_outcome_scheme \<Rightarrow> outcome_stats" where
  "add_outcome s r =
     (let s = s\<lparr>os_reported := os_reported s + 1\<rparr>;
          s = (if ro_outcome r = ''success'' then s\<lparr>os_success := os_success s + 1\<rparr>
               else s\<lparr>os_failure := os_failure s + 1\<rparr>);
          s = (case ro_score r of
                 None \<Rightarrow> s
               | Some x \<Rightarrow> s\<lparr>os_mean_score := Some (running_mean (os_mean_score s) (os_score_samples s) x),
                             os_score_samples := os_score_samples s + 1\<rparr>);
          s = (case ro_rating r of
                 None \<Rightarrow> s
               | Some x \<Rightarrow> s\<lparr>os_mean_rating := Some (running_mean (os_mean_rating s) (os_rating_samples s) (of_int x)),
                             os_rating_samples := os_rating_samples s + 1\<rparr>)
      in s\<lparr>os_success_rate := Some (of_int (os_success s) / of_int (os_reported s))\<rparr>)"

record variant_model_metrics =
  vm_model :: string
  vm_requests :: int
  vm_cost_usd :: rat
  vm_saved_usd :: rat
  vm_uncached_cost_usd :: rat
  vm_tokens :: token_totals
  vm_estimated_rows :: int
  vm_unpriced :: bool

record per_run_figures =
  pn_turns :: rat
  pn_cost_usd :: rat
  pn_uncached_cost_usd :: rat
  pn_tokens :: rat
  pn_span_secs :: rat

record per_request_figures =
  pq_cost_usd :: rat
  pq_uncached_cost_usd :: rat
  pq_tokens_in :: rat
  pq_tokens_out :: rat

text \<open>Both structs of the code have these figures; \<open>VariantResults\<close> adds its own to them.\<close>

record experiment_totals =
  vr_runs :: int
  vr_mixed_runs :: int
  vr_requests :: int
  vr_unbound_requests :: int
  vr_turns :: int
  vr_cost_usd :: rat
  vr_saved_usd :: rat
  vr_uncached_cost_usd :: rat
  vr_tokens :: token_totals
  vr_estimated_rows :: int
  vr_failures :: int
  vr_latency_samples :: nat
  vr_ttft_samples :: nat
  vr_attempts_tracked :: int
  vr_attempts :: int
  vr_retried_requests :: int
  vr_outcomes :: outcome_stats

record variant_results = experiment_totals +
  vr_label :: string
  vr_latency :: "latency_summary option"
  vr_ttft :: "latency_summary option"
  vr_per_run :: "per_run_figures option"
  vr_per_request :: "per_request_figures option"
  vr_models :: "variant_model_metrics list"
  vr_unpriced :: bool
  vr_unpriced_models :: "string list"
  vr_span_secs :: rat

definition no_totals :: experiment_totals where
  "no_totals =
     \<lparr>vr_runs = 0, vr_mixed_runs = 0, vr_requests = 0, vr_unbound_requests = 0, vr_turns = 0, vr_cost_usd = 0,
      vr_saved_usd = 0, vr_uncached_cost_usd = 0, vr_tokens = token_totals_new 0 0, vr_estimated_rows = 0,
      vr_failures = 0, vr_latency_samples = 0, vr_ttft_samples = 0, vr_attempts_tracked = 0, vr_attempts = 0,
      vr_retried_requests = 0, vr_outcomes = no_outcomes\<rparr>"

definition empty_variant :: "string \<Rightarrow> variant_results" where
  "empty_variant label =
     experiment_totals.extend no_totals
       \<lparr>vr_label = label, vr_latency = None, vr_ttft = None, vr_per_run = None, vr_per_request = None, vr_models = [],
        vr_unpriced = False, vr_unpriced_models = [], vr_span_secs = 0\<rparr>"

definition finish_variant :: "variant_results \<Rightarrow> variant_results" where
  "finish_variant v =
     (let n = of_int (vr_runs v); q = of_int (vr_requests v)
      in v\<lparr>vr_per_run :=
             (if 0 < vr_runs v
              then Some \<lparr>pn_turns = of_int (vr_turns v) / n, pn_cost_usd = vr_cost_usd v / n,
                         pn_uncached_cost_usd = vr_uncached_cost_usd v / n,
                         pn_tokens = of_int (tk_total (vr_tokens v)) / n, pn_span_secs = vr_span_secs v / n\<rparr>
              else None),
           vr_per_request :=
             (if 0 < vr_requests v
              then Some \<lparr>pq_cost_usd = vr_cost_usd v / q, pq_uncached_cost_usd = vr_uncached_cost_usd v / q,
                         pq_tokens_in = of_int (tk_prompt (vr_tokens v)) / q,
                         pq_tokens_out = of_int (tk_completion (vr_tokens v)) / q\<rparr>
              else None),
           vr_unpriced := (vr_unpriced_models v \<noteq> [])\<rparr>)"

record run_outcome_view =
  rv_outcome :: string
  rv_score :: "rat option"
  rv_rating :: "int option"
  rv_note :: "string option"
  rv_reported_at :: string

definition outcome_view :: "run_outcome \<Rightarrow> run_outcome_view" where
  "outcome_view r =
     \<lparr>rv_outcome = ro_outcome r, rv_score = ro_score r, rv_rating = ro_rating r, rv_note = ro_note r,
      rv_reported_at = ro_updated_at r\<rparr>"

record run_result =
  rt_user_id :: int
  rt_correlation_id :: string
  rt_variant :: string
  rt_mixed :: bool
  rt_requests :: int
  rt_unbound_requests :: int
  rt_turns :: int
  rt_cost_usd :: rat
  rt_saved_usd :: rat
  rt_uncached_cost_usd :: rat
  rt_tokens :: token_totals
  rt_estimated_rows :: int
  rt_failures :: int
  rt_latency :: "run_latency option"
  rt_latency_samples :: nat
  rt_span_secs :: rat
  rt_first_at :: string
  rt_last_at :: string
  rt_outcome :: "run_outcome_view option"

record experiment_results =
  er_experiment :: experiment_row
  er_computed_at :: string
  er_variants :: "variant_results list"
  er_totals :: experiment_totals
  er_retained_content_bytes :: "nat option"
  er_total_runs :: int
  er_limit :: int
  er_offset :: int
  er_items :: "run_result list"

section \<open>What is read\<close>

record variant_reads =
  vd_latency :: latency_summary
  vd_ttft :: latency_summary
  vd_attempts :: attempts_summary

record results_reads =
  re_experiment :: "string + experiment_row option"
  re_variant_totals :: "string + variant_totals list"
  re_variant_models :: "string + variant_model_row list"
  re_run_keys :: "string + run_key_row list"
  re_page_rows :: "string + run_row list"
  re_unbound :: "string + unbound_row list"
  re_failures :: "string + run_failures_row list"
  re_outcomes :: "string + run_outcome list"
  re_run_latency :: "string + run_latency_row list"
  re_content_bytes :: "string + nat"
  re_variant :: "string \<Rightarrow> string + variant_reads"

section \<open>The index of runs\<close>

record run_index =
  ix_variant :: string
  ix_mixed :: bool
  ix_requests :: int
  ix_first_at :: string
  ix_last_at :: string
  ix_in_ledger :: bool

type_synonym run_map = "((int \<times> string) \<times> run_index) list"

definition index_key_row :: "run_key_row \<Rightarrow> (int \<times> string) \<times> run_index" where
  "index_key_row k =
     ((rk_user_id k, rk_correlation_id k),
      \<lparr>ix_variant = rk_variant k, ix_mixed = rk_mixed k, ix_requests = rk_requests k,
       ix_first_at = rk_first_at k, ix_last_at = rk_last_at k, ix_in_ledger = True\<rparr>)"

definition failure_run :: "run_failures_row \<Rightarrow> int \<times> string" where
  "failure_run f = (fr_user_id f, fr_correlation_id f)"

text \<open>A run with ledger rows stays as it is; one known from failures alone grows with each variant group.\<close>

definition index_failure :: "run_failures_row \<Rightarrow> run_map \<Rightarrow> run_map" where
  "index_failure f ix =
     (case map_of ix (failure_run f) of
        Some run \<Rightarrow>
          if ix_in_ledger run then ix
          else let run = (if fr_first_at f < ix_first_at run
                          then run\<lparr>ix_first_at := fr_first_at f, ix_variant := or_empty (fr_variant f)\<rparr> else run);
                   run = (if ix_last_at run < fr_last_at f then run\<lparr>ix_last_at := fr_last_at f\<rparr> else run)
               in bt_insert (failure_run f) (run\<lparr>ix_mixed := True\<rparr>) ix
      | None \<Rightarrow>
          bt_insert (failure_run f)
            \<lparr>ix_variant = or_empty (fr_variant f), ix_mixed = False, ix_requests = 0,
             ix_first_at = fr_first_at f, ix_last_at = fr_last_at f, ix_in_ledger = False\<rparr> ix)"

definition run_index_of :: "run_key_row list \<Rightarrow> run_failures_row list \<Rightarrow> run_map" where
  "run_index_of ks fs = fold index_failure fs (bt_from_list (map index_key_row ks))"

text \<open>\<open>*entry(key).or_default() += n\<close> on a hash map and on a tree map.\<close>

definition bump :: "'k \<Rightarrow> int \<Rightarrow> ('k \<rightharpoonup> int) \<Rightarrow> ('k \<rightharpoonup> int)" where
  "bump k n m = m(k \<mapsto> (case m k of Some x \<Rightarrow> x | None \<Rightarrow> 0) + n)"

definition bt_bump :: "'k::linorder \<Rightarrow> int \<Rightarrow> ('k \<times> int) list \<Rightarrow> ('k \<times> int) list" where
  "bt_bump k n m = bt_insert k ((case map_of m k of Some x \<Rightarrow> x | None \<Rightarrow> 0) + n) m"

definition failures_by_key :: "run_failures_row list \<Rightarrow> (int \<times> string \<rightharpoonup> int)" where
  "failures_by_key fs = fold (\<lambda>f. bump (failure_run f) (fr_failures f)) fs Map.empty"

definition failures_by_variant :: "run_failures_row list \<Rightarrow> (string \<times> int) list" where
  "failures_by_variant fs = fold (\<lambda>f. bt_bump (or_empty (fr_variant f)) (fr_failures f)) fs []"

definition unbound_by_key :: "unbound_row list \<Rightarrow> (int \<times> string \<rightharpoonup> int)" where
  "unbound_by_key us = map_of (rev (map (\<lambda>u. ((ub_user_id u, ub_correlation_id u), ub_requests u)) us))"

definition latency_by_key :: "run_latency_row list \<Rightarrow> (int \<times> string \<rightharpoonup> run_latency)" where
  "latency_by_key ls =
     map_of (rev (map (\<lambda>l. ((rl_user_id l, rl_correlation_id l),
                          \<lparr>ry_samples = rl_samples l,
                           ry_mean_ms = (case rl_mean_ms l of Some m \<Rightarrow> m | None \<Rightarrow> 0)\<rparr>))
       (filter (\<lambda>l. 0 < rl_samples l) ls)))"

text \<open>The entries of \<open>outcomes_by_key\<close>, one per key, the last row of a key winning.\<close>

definition outcomes_by_key :: "run_outcome list \<Rightarrow> ((int \<times> string) \<times> run_outcome) list" where
  "outcomes_by_key rs = bt_from_list (map (\<lambda>r. ((ro_user_id r, ro_correlation_id r), r)) rs)"

section \<open>The variants\<close>

type_synonym variant_map = "(string \<times> variant_results) list"

text \<open>\<open>slot\<close>: the variant under a label, created empty on first sight, with an update applied to it.\<close>

definition in_slot :: "string \<Rightarrow> (variant_results \<Rightarrow> variant_results) \<Rightarrow> variant_map \<Rightarrow> variant_map" where
  "in_slot label f vs =
     bt_insert label (f (case map_of vs label of Some v \<Rightarrow> v | None \<Rightarrow> empty_variant label)) vs"

definition declared_variants :: "experiment_row \<Rightarrow> variant_map" where
  "declared_variants e = bt_from_list (map (\<lambda>(label, _). (label, empty_variant label)) (ex_variants e))"

text \<open>What each pass of the builder adds to the variant a row goes to.\<close>

definition add_variant_totals :: "variant_totals \<Rightarrow> variant_results \<Rightarrow> variant_results" where
  "add_variant_totals t v =
       v\<lparr>vr_requests := vr_requests v + xt_requests t, vr_cost_usd := vr_cost_usd v + xt_cost_usd t,
         vr_saved_usd := vr_saved_usd v + xt_saved_usd t,
         vr_uncached_cost_usd := vr_uncached_cost_usd v + (xt_cost_usd t + xt_saved_usd t),
         vr_tokens := add_tokens (vr_tokens v) (token_totals_new (xt_tokens_in t) (xt_tokens_out t)),
         vr_estimated_rows := vr_estimated_rows v + xt_estimated_rows t\<rparr>"

definition add_variant_model :: "(string \<Rightarrow> bool) \<Rightarrow> variant_model_row \<Rightarrow> variant_results \<Rightarrow> variant_results" where
  "add_variant_model priced m v =
      (let unpriced = \<not> priced (xm_model m);
           v = (if unpriced \<and> xm_model m \<notin> set (vr_unpriced_models v)
                then v\<lparr>vr_unpriced_models := vr_unpriced_models v @ [xm_model m]\<rparr> else v)
       in v\<lparr>vr_models := vr_models v @
              [\<lparr>vm_model = xm_model m, vm_requests = xt_requests m, vm_cost_usd = xt_cost_usd m,
                vm_saved_usd = xt_saved_usd m, vm_uncached_cost_usd = xt_cost_usd m + xt_saved_usd m,
                vm_tokens = token_totals_new (xt_tokens_in m) (xt_tokens_out m),
                vm_estimated_rows = xt_estimated_rows m, vm_unpriced = unpriced\<rparr>]\<rparr>)"

definition add_failures :: "int \<Rightarrow> variant_results \<Rightarrow> variant_results" where
  "add_failures n v = v\<lparr>vr_failures := vr_failures v + n\<rparr>"

definition span_secs :: "(string \<Rightarrow> string \<Rightarrow> int option) \<Rightarrow> string \<Rightarrow> string \<Rightarrow> rat" where
  "span_secs elapsed a b = (case elapsed a b of Some ms \<Rightarrow> of_int (max ms 0) / 1000 | None \<Rightarrow> 0)"

definition add_run ::
  "(string \<Rightarrow> string \<Rightarrow> int option) \<Rightarrow> (int \<times> string \<rightharpoonup> int) \<Rightarrow> (int \<times> string) \<times> run_index \<Rightarrow> variant_results \<Rightarrow> variant_results" where
  "add_run elapsed unbound kr v =
       v\<lparr>vr_runs := vr_runs v + 1, vr_mixed_runs := vr_mixed_runs v + of_bool (ix_mixed (snd kr)),
         vr_turns := vr_turns v + ix_requests (snd kr),
         vr_unbound_requests := vr_unbound_requests v + (case unbound (fst kr) of Some n \<Rightarrow> n | None \<Rightarrow> 0),
         vr_span_secs := vr_span_secs v + span_secs elapsed (ix_first_at (snd kr)) (ix_last_at (snd kr))\<rparr>"

definition outcome_label :: "run_map \<Rightarrow> (int \<times> string) \<times> run_outcome \<Rightarrow> string" where
  "outcome_label ix ko =
     (case map_of ix (fst ko) of Some run \<Rightarrow> ix_variant run | None \<Rightarrow> or_empty (ro_experiment_variant (snd ko)))"

definition add_reported :: "run_outcome \<Rightarrow> variant_results \<Rightarrow> variant_results" where
  "add_reported r v = v\<lparr>vr_outcomes := add_outcome (vr_outcomes v) r\<rparr>"

definition with_summaries :: "variant_reads \<Rightarrow> variant_results \<Rightarrow> variant_results" where
  "with_summaries d v =
     finish_variant
       (v\<lparr>vr_latency_samples := ls_samples (vd_latency d),
          vr_latency := (if 0 < ls_samples (vd_latency d) then Some (vd_latency d) else None),
          vr_ttft_samples := ls_samples (vd_ttft d),
          vr_ttft := (if 0 < ls_samples (vd_ttft d) then Some (vd_ttft d) else None),
          vr_attempts_tracked := am_requests_tracked (vd_attempts d), vr_attempts := am_attempts (vd_attempts d),
          vr_retried_requests := am_retried_requests (vd_attempts d)\<rparr>)"

text \<open>\<open>try_join_all\<close> over the labels: the summaries of all, or the first error.\<close>

fun summarize_variants :: "(string \<Rightarrow> string + variant_reads) \<Rightarrow> variant_map \<Rightarrow> string + variant_map" where
  "summarize_variants rd [] = Inr []"
| "summarize_variants rd ((label, v) # vs) =
     (case rd label of
        Inl e \<Rightarrow> Inl e
      | Inr d \<Rightarrow> (case summarize_variants rd vs of Inl e \<Rightarrow> Inl e | Inr ws \<Rightarrow> Inr ((label, with_summaries d v) # ws)))"

definition add_to_totals :: "variant_results \<Rightarrow> experiment_totals \<Rightarrow> experiment_totals" where
  "add_to_totals v t =
     t\<lparr>vr_runs := vr_runs t + vr_runs v, vr_mixed_runs := vr_mixed_runs t + vr_mixed_runs v,
       vr_requests := vr_requests t + vr_requests v, vr_unbound_requests := vr_unbound_requests t + vr_unbound_requests v,
       vr_turns := vr_turns t + vr_turns v, vr_cost_usd := vr_cost_usd t + vr_cost_usd v,
       vr_saved_usd := vr_saved_usd t + vr_saved_usd v,
       vr_uncached_cost_usd := vr_uncached_cost_usd t + vr_uncached_cost_usd v,
       vr_tokens := add_tokens (vr_tokens t) (vr_tokens v), vr_estimated_rows := vr_estimated_rows t + vr_estimated_rows v,
       vr_failures := vr_failures t + vr_failures v, vr_latency_samples := vr_latency_samples t + vr_latency_samples v,
       vr_ttft_samples := vr_ttft_samples t + vr_ttft_samples v,
       vr_attempts_tracked := vr_attempts_tracked t + vr_attempts_tracked v, vr_attempts := vr_attempts t + vr_attempts v,
       vr_retried_requests := vr_retried_requests t + vr_retried_requests v\<rparr>"

section \<open>The builder\<close>

record results_env =
  rn_order :: "((int \<times> string) \<times> run_outcome) list \<Rightarrow> ((int \<times> string) \<times> run_outcome) list"
  rn_elapsed :: "string \<Rightarrow> string \<Rightarrow> int option"
  rn_priced :: "string \<Rightarrow> bool"
  rn_now :: string

text \<open>The maps the reads are joined into before anything is added up.\<close>

record results_join =
  jn_index :: run_map
  jn_failures :: "int \<times> string \<rightharpoonup> int"
  jn_failures_by_variant :: "(string \<times> int) list"
  jn_unbound :: "int \<times> string \<rightharpoonup> int"
  jn_latency :: "int \<times> string \<rightharpoonup> run_latency"
  jn_outcomes :: "((int \<times> string) \<times> run_outcome) list"

definition join_reads ::
  "run_key_row list \<Rightarrow> unbound_row list \<Rightarrow> run_failures_row list \<Rightarrow> run_outcome list \<Rightarrow> run_latency_row list \<Rightarrow> results_join" where
  "join_reads ks us fs os ls =
     \<lparr>jn_index = run_index_of ks fs, jn_failures = failures_by_key fs, jn_failures_by_variant = failures_by_variant fs,
      jn_unbound = unbound_by_key us, jn_latency = latency_by_key ls, jn_outcomes = outcomes_by_key os\<rparr>"

definition variants_of ::
  "results_env \<Rightarrow> experiment_row \<Rightarrow> variant_totals list \<Rightarrow> variant_model_row list \<Rightarrow> results_join \<Rightarrow> variant_map" where
  "variants_of env e ts ms j =
     fold (\<lambda>ko. in_slot (outcome_label (jn_index j) ko) (add_reported (snd ko))) (rn_order env (jn_outcomes j))
       (fold (\<lambda>kr. in_slot (ix_variant (snd kr)) (add_run (rn_elapsed env) (jn_unbound j) kr)) (jn_index j)
         (fold (\<lambda>lf. in_slot (fst lf) (add_failures (snd lf))) (jn_failures_by_variant j)
           (fold (\<lambda>m. in_slot (xt_variant m) (add_variant_model (rn_priced env) m)) ms
             (fold (\<lambda>t. in_slot (xt_variant t) (add_variant_totals t)) ts (declared_variants e)))))"

definition totals_of_variants :: "results_env \<Rightarrow> results_join \<Rightarrow> variant_map \<Rightarrow> experiment_totals" where
  "totals_of_variants env j vs =
     (fold add_to_totals (map snd vs) no_totals)
       \<lparr>vr_outcomes := fold (\<lambda>ko s. add_outcome s (snd ko)) (rn_order env (jn_outcomes j)) no_outcomes\<rparr>"

definition run_result_of ::
  "results_env \<Rightarrow> results_join \<Rightarrow> (int \<times> string) \<times> run_index \<Rightarrow> run_row option \<Rightarrow> run_result" where
  "run_result_of env j kr prow =
     (let (k, run) = kr
      in \<lparr>rt_user_id = fst k, rt_correlation_id = snd k, rt_variant = ix_variant run, rt_mixed = ix_mixed run,
          rt_requests = ix_requests run,
          rt_unbound_requests = (case jn_unbound j k of Some n \<Rightarrow> n | None \<Rightarrow> 0),
          rt_turns = ix_requests run,
          rt_cost_usd = (case prow of Some r \<Rightarrow> rr_cost_usd r | None \<Rightarrow> 0),
          rt_saved_usd = (case prow of Some r \<Rightarrow> rr_saved_usd r | None \<Rightarrow> 0),
          rt_uncached_cost_usd = (case prow of Some r \<Rightarrow> rr_cost_usd r + rr_saved_usd r | None \<Rightarrow> 0),
          rt_tokens = (case prow of Some r \<Rightarrow> token_totals_new (rr_tokens_in r) (rr_tokens_out r)
                                 | None \<Rightarrow> token_totals_new 0 0),
          rt_estimated_rows = (case prow of Some r \<Rightarrow> rr_estimated_rows r | None \<Rightarrow> 0),
          rt_failures = (case jn_failures j k of Some n \<Rightarrow> n | None \<Rightarrow> 0),
          rt_latency = jn_latency j k,
          rt_latency_samples = (case jn_latency j k of Some l \<Rightarrow> ry_samples l | None \<Rightarrow> 0),
          rt_span_secs = span_secs (rn_elapsed env) (ix_first_at run) (ix_last_at run),
          rt_first_at = ix_first_at run, rt_last_at = ix_last_at run,
          rt_outcome = map_option outcome_view (map_of (jn_outcomes j) k)\<rparr>)"

text \<open>A page row whose run is not in the index, because it landed between the reads, describes itself.\<close>

definition row_index :: "run_row \<Rightarrow> run_index" where
  "row_index r =
     \<lparr>ix_variant = rr_variant r, ix_mixed = row_mixed r, ix_requests = rr_requests r,
      ix_first_at = rr_first_at r, ix_last_at = rr_last_at r, ix_in_ledger = True\<rparr>"

definition page_item :: "results_env \<Rightarrow> results_join \<Rightarrow> run_row \<Rightarrow> run_result" where
  "page_item env j r =
     (let k = (rr_user_id r, rr_correlation_id r)
      in run_result_of env j (k, case map_of (jn_index j) k of Some run \<Rightarrow> run | None \<Rightarrow> row_index r) (Some r))"

definition failure_only :: "results_join \<Rightarrow> run_map" where
  "failure_only j = sort_desc (\<lambda>kr. ix_last_at (snd kr)) (filter (\<lambda>kr. \<not> ix_in_ledger (snd kr)) (jn_index j))"

definition page_items :: "results_env \<Rightarrow> results_join \<Rightarrow> int \<Rightarrow> run_row list \<Rightarrow> run_page \<Rightarrow> run_result list" where
  "page_items env j ledger_total rows page =
     (let items = map (page_item env j) rows;
          room = nat (max (pg_limit page - int (length items)) 0)
      in if 0 < room
         then items @ map (\<lambda>kr. run_result_of env j kr None)
                (take room (drop (nat (max (pg_offset page - ledger_total) 0)) (failure_only j)))
         else items)"

text \<open>\<open>?\<close> on a failed read.\<close>

definition read_ok :: "string + 'a \<Rightarrow> ('a \<Rightarrow> results_error + 'b) \<Rightarrow> results_error + 'b" where
  "read_ok x f = (case x of Inl e \<Rightarrow> Inl (ResultsDb e) | Inr v \<Rightarrow> f v)"

definition build_results ::
  "results_env \<Rightarrow> int \<Rightarrow> run_page \<Rightarrow> results_reads \<Rightarrow> results_error + experiment_results" where
  "build_results env i page rd =
     read_ok (re_experiment rd) (\<lambda>found.
       case found of
         None \<Rightarrow> Inl (ResultsInvalid (''no experiment with id '' @ show_int i))
       | Some e \<Rightarrow>
           read_ok (re_variant_totals rd) (\<lambda>ts. read_ok (re_variant_models rd) (\<lambda>ms.
           read_ok (re_run_keys rd) (\<lambda>ks. read_ok (re_page_rows rd) (\<lambda>rows. read_ok (re_unbound rd) (\<lambda>us.
           read_ok (re_failures rd) (\<lambda>fs. read_ok (re_outcomes rd) (\<lambda>os. read_ok (re_run_latency rd) (\<lambda>ls.
           read_ok (if ex_retain_content e then map_sum id Some (re_content_bytes rd) else Inr None) (\<lambda>bytes.
             let j = join_reads ks us fs os ls; ledger_total = int (length ks)
             in read_ok (summarize_variants (re_variant rd) (variants_of env e ts ms j)) (\<lambda>vs.
                  Inr \<lparr>er_experiment = e, er_computed_at = rn_now env, er_variants = map snd vs,
                       er_totals = totals_of_variants env j vs, er_retained_content_bytes = bytes,
                       er_total_runs = ledger_total + int (length (failure_only j)),
                       er_limit = pg_limit page, er_offset = pg_offset page,
                       er_items = page_items env j ledger_total rows page\<rparr>)))))))))))"

section \<open>The endpoint\<close>

definition parse_experiment_id :: "string \<Rightarrow> api_error + int" where
  "parse_experiment_id s =
     (case parse_i64 s of
        Some i \<Rightarrow> if 0 < i then Inr i else Inl (InvalidRequest (''invalid experiment id: '' @ s))
      | None \<Rightarrow> Inl (InvalidRequest (''invalid experiment id: '' @ s)))"

definition all_time_start :: string where
  "all_time_start = ''1970-01-01T00:00:00Z''"

definition all_time_end :: string where
  "all_time_end = ''9999-12-31T23:59:59Z''"

text \<open>What the reads return when nothing is written meanwhile.\<close>

record results_tables =
  rq_experiments :: experiment_table
  rq_ledger :: database
  rq_failures :: failure_db
  rq_outcomes :: outcome_db
  rq_prompts :: "prompt_row list"

definition read_tables ::
  "(string \<Rightarrow> string \<Rightarrow> string option) \<Rightarrow> results_tables \<Rightarrow> int \<Rightarrow> run_page \<Rightarrow> results_reads" where
  "read_tables extract q i page =
     \<lparr>re_experiment = Inr (get_experiment (rq_experiments q) i),
      re_variant_totals = experiment_variant_totals (rq_ledger q) i,
      re_variant_models = experiment_variant_models (rq_ledger q) i,
      re_run_keys = experiment_run_keys (rq_ledger q) i,
      re_page_rows = experiment_runs (rq_ledger q) i (pg_limit page) (pg_offset page),
      re_unbound = experiment_unbound_requests (rq_ledger q) i,
      re_failures = experiment_run_failures (rq_failures q) i,
      re_outcomes = Inr (outcomes_for_experiment (rq_outcomes q) i),
      re_run_latency = Inr (experiment_run_latency (rq_prompts q) i),
      re_content_bytes = Inr (sum_list (map (\<lambda>p. length (np_messages p)
        + (case np_response p of Some r \<Rightarrow> length r | None \<Rightarrow> 0)) (filter (\<lambda>p. np_experiment_id p = Some i) (rq_prompts q)))),
      re_variant = (\<lambda>label.
        Inr \<lparr>vd_latency = arm_latency extract (ArmVariant i label) all_time_start all_time_end (rq_prompts q),
             vd_ttft = arm_ttft extract (ArmVariant i label) all_time_start all_time_end (rq_prompts q),
             vd_attempts = attempts_summary_of extract (ArmVariant i label) all_time_start all_time_end (rq_prompts q)\<rparr>)\<rparr>"

definition get_experiment_results_api ::
  "results_env \<Rightarrow> (int \<Rightarrow> run_page \<Rightarrow> results_reads) \<Rightarrow> string \<Rightarrow> string option \<Rightarrow> string option
     \<Rightarrow> api_error + experiment_results" where
  "get_experiment_results_api env reads path limit offset =
     (case parse_experiment_id path of
        Inl e \<Rightarrow> Inl e
      | Inr i \<Rightarrow>
          (case parse_run_page limit offset of
             Inl m \<Rightarrow> Inl (InvalidRequest m)
           | Inr page \<Rightarrow> map_sum results_api_error id (build_results env i page (reads i page))))"

end
