(* ===== verification/Results_Properties.thy ===== *)
theory Results_Properties
  imports Experiment_Results
begin

text \<open>
  What the results document promises (\<open>src/src/api/admin/experiments.rs\<close>): its figures are those of the ledger, the
  failure log and the outcomes, its pages cut one list of runs, and its means are arithmetic means.
\<close>

section \<open>Sums over the entries of a tree map\<close>

definition map_total :: "('v \<Rightarrow> 'a::comm_monoid_add) \<Rightarrow> ('k \<times> 'v) list \<Rightarrow> 'a" where
  "map_total g m = sum_list (map (\<lambda>kv. g (snd kv)) m)"

lemma map_total_insert_new: "k \<notin> fst ` set m \<Longrightarrow> map_total g (bt_insert k v m) = map_total g m + g v"
  by (induction k v m rule: bt_insert.induct) (auto simp: map_total_def ac_simps)

lemma map_total_update:
  "bt_ok m \<Longrightarrow> map_of m k = Some w \<Longrightarrow> g v = g w + d \<Longrightarrow> map_total g (bt_insert k v m) = map_total g m + d"
proof (induction k v m rule: bt_insert.induct)
  case (2 k v k' v' m)
  show ?case
  proof (cases "k = k'")
    case True
    with 2 show ?thesis by (simp add: map_total_def ac_simps)
  next
    case False
    with 2(3) have "map_of m k = Some w" by simp
    then have "k \<in> fst ` set m" by (force dest: map_of_SomeD)
    with 2(2) have "k' < k" by (auto simp: bt_ok_Cons)
    with 2 False show ?thesis by (auto simp: map_total_def bt_ok_Cons ac_simps)
  qed
qed simp

text \<open>Inserting what adds \<open>d\<close> to what the key had, or to nothing when it had nothing, adds \<open>d\<close> to the total.\<close>

lemma map_total_insert:
  assumes "bt_ok m" and "g v = (case map_of m k of Some w \<Rightarrow> g w | None \<Rightarrow> 0) + d"
  shows "map_total g (bt_insert k v m) = map_total g m + d"
proof (cases "map_of m k")
  case None
  then have "g v = d" using assms(2) by (simp del: map_of_eq_None_iff)
  then show ?thesis using None map_total_insert_new [of k m g v] by (simp add: map_of_eq_None_iff)
next
  case (Some w)
  then show ?thesis using map_total_update [OF assms(1) Some] assms(2) by simp
qed

section \<open>Figures\<close>

text \<open>
  A figure of the variants: what of a variant is summed into the totals. It starts at nothing, and a pass of
  the builder over some rows adds up whatever each row adds to the slot it goes to.
\<close>

locale figure =
  fixes fig :: "variant_results \<Rightarrow> 'a::comm_monoid_add" and of_totals :: "variant_totals \<Rightarrow> 'a"
    and of_failures :: "int \<Rightarrow> 'a" and of_run :: "(int \<times> string) \<times> run_index \<Rightarrow> 'a" and of_outcome :: "run_outcome \<Rightarrow> 'a"
  assumes at_empty: "fig (empty_variant l) = 0"
    and at_totals: "fig (add_variant_totals t v) = fig v + of_totals t"
    and at_model: "fig (add_variant_model priced m v) = fig v"
    and at_failures: "fig (add_failures n v) = fig v + of_failures n"
    and at_run: "fig (add_run elapsed unbound kr v) = fig v + of_run kr"
    and at_outcome: "fig (add_reported r v) = fig v + of_outcome r"
    and at_summary: "fig (with_summaries d v) = fig v"
begin

lemma in_slot_total:
  assumes "bt_ok vs" and "\<And>v. fig (f v) = fig v + d"
  shows "map_total fig (in_slot label f vs) = map_total fig vs + d"
  unfolding in_slot_def
  by (rule map_total_insert [OF assms(1)]) (simp add: assms(2) at_empty split: option.split)

lemma pass_total:
  assumes "bt_ok vs" and "\<And>x v. fig (f x v) = fig v + d x"
  shows "map_total fig (fold (\<lambda>x. in_slot (lab x) (f x)) xs vs) = map_total fig vs + sum_list (map d xs)
    \<and> bt_ok (fold (\<lambda>x. in_slot (lab x) (f x)) xs vs)"
  using assms(1)
proof (induction xs arbitrary: vs)
  case (Cons x xs)
  have "bt_ok (in_slot (lab x) (f x) vs)" using Cons.prems by (simp add: in_slot_def bt_ok_insert)
  moreover have "map_total fig (in_slot (lab x) (f x) vs) = map_total fig vs + d x"
    by (rule in_slot_total [OF Cons.prems assms(2)])
  ultimately show ?case using Cons.IH [of "in_slot (lab x) (f x) vs"] by (simp add: add.assoc)
qed simp

lemma declared_ok: "bt_ok (declared_variants e)"
  by (simp add: declared_variants_def)

lemma declared_total: "map_total fig (declared_variants e) = 0"
proof -
  have zero: "\<forall>kv\<in>set (bt_from_list kvs). fig (snd kv) = 0" if "\<forall>kv\<in>set kvs. fig (snd kv) = 0" for kvs :: variant_map
  proof
    fix kv assume "kv \<in> set (bt_from_list kvs)"
    then have "map_of (bt_from_list kvs) (fst kv) = Some (snd kv)" by (simp add: bt_ok_distinct)
    then have "(fst kv, snd kv) \<in> set (rev kvs)" unfolding map_of_bt_from_list by (rule map_of_SomeD)
    then show "fig (snd kv) = 0" using that by auto
  qed
  have "\<forall>kv\<in>set (declared_variants e). fig (snd kv) = 0"
    unfolding declared_variants_def by (rule zero) (auto simp: at_empty)
  then show ?thesis by (simp add: map_total_def cong: map_cong)
qed

lemma summarized_total: "summarize_variants rd vs = Inr ws \<Longrightarrow> map_total fig ws = map_total fig vs"
  by (induction rd vs arbitrary: ws rule: summarize_variants.induct)
    (auto simp: map_total_def at_summary split: sum.splits)

lemma built_total:
  "map_total fig (variants_of env e ts ms j)
   = sum_list (map of_totals ts) + sum_list (map (\<lambda>lf. of_failures (snd lf)) (jn_failures_by_variant j))
     + sum_list (map of_run (jn_index j)) + sum_list (map (\<lambda>ko. of_outcome (snd ko)) (rn_order env (jn_outcomes j)))"
proof -
  let ?ok = "\<lambda>vs n. bt_ok vs \<and> map_total fig vs = n"
  let ?v1 = "fold (\<lambda>t. in_slot (xt_variant t) (add_variant_totals t)) ts (declared_variants e)"
  let ?v2 = "fold (\<lambda>m. in_slot (xt_variant m) (add_variant_model (rn_priced env) m)) ms ?v1"
  let ?v3 = "fold (\<lambda>lf. in_slot (fst lf) (add_failures (snd lf))) (jn_failures_by_variant j) ?v2"
  let ?v4 = "fold (\<lambda>kr. in_slot (ix_variant (snd kr)) (add_run (rn_elapsed env) (jn_unbound j) kr)) (jn_index j) ?v3"
  let ?n1 = "sum_list (map of_totals ts)" and ?n3 = "sum_list (map (\<lambda>lf. of_failures (snd lf)) (jn_failures_by_variant j))"
  have 1: "?ok ?v1 ?n1"
    using pass_total [where f = add_variant_totals, OF declared_ok at_totals] by (simp add: declared_total)
  then have 2: "?ok ?v2 ?n1"
    using pass_total [where f = "add_variant_model (rn_priced env)" and d = "\<lambda>_. 0", of ?v1 xt_variant ms]
    by (simp add: at_model)
  then have 3: "?ok ?v3 (?n1 + ?n3)"
    using pass_total [where f = "\<lambda>lf. add_failures (snd lf)" and d = "\<lambda>lf. of_failures (snd lf)",
        of ?v2 fst "jn_failures_by_variant j"] by (simp add: at_failures)
  then have 4: "?ok ?v4 (?n1 + ?n3 + sum_list (map of_run (jn_index j)))"
    using pass_total [where f = "add_run (rn_elapsed env) (jn_unbound j)" and d = of_run,
        of ?v3 "\<lambda>kr. ix_variant (snd kr)" "jn_index j"] by (simp add: at_run)
  then show ?thesis
    using pass_total [where f = "\<lambda>ko. add_reported (snd ko)" and d = "\<lambda>ko. of_outcome (snd ko)",
        of ?v4 "outcome_label (jn_index j)" "rn_order env (jn_outcomes j)"]
    unfolding variants_of_def by (simp add: at_outcome)
qed

end

lemma empty_variant_figures:
  "vr_requests (empty_variant l) = 0" "vr_cost_usd (empty_variant l) = 0" "vr_saved_usd (empty_variant l) = 0"
  "vr_uncached_cost_usd (empty_variant l) = 0" "vr_tokens (empty_variant l) = token_totals_new 0 0"
  "vr_estimated_rows (empty_variant l) = 0" "vr_failures (empty_variant l) = 0" "vr_runs (empty_variant l) = 0"
  "vr_mixed_runs (empty_variant l) = 0" "vr_turns (empty_variant l) = 0" "vr_outcomes (empty_variant l) = no_outcomes"
  by (simp_all add: empty_variant_def experiment_totals.defs no_totals_def)

lemma reported_add_outcome: "os_reported (add_outcome s r) = os_reported s + 1"
  by (simp add: add_outcome_def Let_def split: option.split)

lemmas pass_defs = add_variant_totals_def add_variant_model_def add_failures_def add_run_def add_reported_def
  with_summaries_def finish_variant_def Let_def empty_variant_figures token_totals_new_def add_tokens_def

interpretation requests_figure: figure vr_requests xt_requests "\<lambda>_. 0" "\<lambda>_. 0" "\<lambda>_. 0"
  by unfold_locales (simp_all add: pass_defs)

interpretation cost_figure: figure vr_cost_usd xt_cost_usd "\<lambda>_. 0" "\<lambda>_. 0" "\<lambda>_. 0"
  by unfold_locales (simp_all add: pass_defs)

interpretation saved_figure: figure vr_saved_usd xt_saved_usd "\<lambda>_. 0" "\<lambda>_. 0" "\<lambda>_. 0"
  by unfold_locales (simp_all add: pass_defs)

interpretation uncached_figure:
    figure vr_uncached_cost_usd "\<lambda>t. xt_cost_usd t + xt_saved_usd t" "\<lambda>_. 0" "\<lambda>_. 0" "\<lambda>_. 0"
  by unfold_locales (simp_all add: pass_defs)

interpretation prompt_figure: figure "\<lambda>v. tk_prompt (vr_tokens v)" xt_tokens_in "\<lambda>_. 0" "\<lambda>_. 0" "\<lambda>_. 0"
  by unfold_locales (simp_all add: pass_defs)

interpretation completion_figure: figure "\<lambda>v. tk_completion (vr_tokens v)" xt_tokens_out "\<lambda>_. 0" "\<lambda>_. 0" "\<lambda>_. 0"
  by unfold_locales (simp_all add: pass_defs)

interpretation estimated_figure: figure vr_estimated_rows xt_estimated_rows "\<lambda>_. 0" "\<lambda>_. 0" "\<lambda>_. 0"
  by unfold_locales (simp_all add: pass_defs)

interpretation failures_figure: figure vr_failures "\<lambda>_. 0" "\<lambda>n. n" "\<lambda>_. 0" "\<lambda>_. 0"
  by unfold_locales (simp_all add: pass_defs)

interpretation runs_figure: figure vr_runs "\<lambda>_. 0" "\<lambda>_. 0" "\<lambda>_. 1" "\<lambda>_. 0"
  by unfold_locales (simp_all add: pass_defs)

interpretation turns_figure: figure vr_turns "\<lambda>_. 0" "\<lambda>_. 0" "\<lambda>kr. ix_requests (snd kr)" "\<lambda>_. 0"
  by unfold_locales (simp_all add: pass_defs)

interpretation reported_figure: figure "\<lambda>v. os_reported (vr_outcomes v)" "\<lambda>_. 0" "\<lambda>_. 0" "\<lambda>_. 0" "\<lambda>_. 1"
  by unfold_locales (simp_all add: pass_defs no_outcomes_def reported_add_outcome)

text \<open>The totals are the sums of the variants' figures.\<close>

lemma add_to_totals_sums:
  "vr_requests (fold add_to_totals vs t) = vr_requests t + sum_list (map vr_requests vs)"
  "vr_cost_usd (fold add_to_totals vs t) = vr_cost_usd t + sum_list (map vr_cost_usd vs)"
  "vr_saved_usd (fold add_to_totals vs t) = vr_saved_usd t + sum_list (map vr_saved_usd vs)"
  "vr_uncached_cost_usd (fold add_to_totals vs t) = vr_uncached_cost_usd t + sum_list (map vr_uncached_cost_usd vs)"
  "tk_prompt (vr_tokens (fold add_to_totals vs t)) = tk_prompt (vr_tokens t) + sum_list (map (\<lambda>v. tk_prompt (vr_tokens v)) vs)"
  "tk_completion (vr_tokens (fold add_to_totals vs t))
    = tk_completion (vr_tokens t) + sum_list (map (\<lambda>v. tk_completion (vr_tokens v)) vs)"
  "vr_estimated_rows (fold add_to_totals vs t) = vr_estimated_rows t + sum_list (map vr_estimated_rows vs)"
  "vr_failures (fold add_to_totals vs t) = vr_failures t + sum_list (map vr_failures vs)"
  "vr_runs (fold add_to_totals vs t) = vr_runs t + sum_list (map vr_runs vs)"
  "vr_turns (fold add_to_totals vs t) = vr_turns t + sum_list (map vr_turns vs)"
  by (induction vs arbitrary: t) (simp_all add: add_to_totals_def add_tokens_def)

section \<open>The index of runs\<close>

lemma index_failure_ok: "bt_ok ix \<Longrightarrow> bt_ok (index_failure f ix)"
  by (auto simp: index_failure_def Let_def bt_ok_insert split: option.split)

text \<open>A failure row neither adds nor removes a run of the ledger, and adds no request.\<close>

lemma index_failure_total:
  assumes "bt_ok ix"
  shows "map_total (\<lambda>r. of_bool (ix_in_ledger r) :: int) (index_failure f ix) = map_total (\<lambda>r. of_bool (ix_in_ledger r)) ix
    \<and> map_total ix_requests (index_failure f ix) = map_total ix_requests ix"
proof (cases "map_of ix (failure_run f)")
  case None
  show ?thesis unfolding index_failure_def None
    by (auto intro!: map_total_insert [OF assms, where d = 0, simplified] simp: None)
next
  case (Some run)
  show ?thesis
  proof (cases "ix_in_ledger run")
    case True
    then show ?thesis by (simp add: index_failure_def Some)
  next
    case False
    then show ?thesis unfolding index_failure_def Some
      by (auto simp: Let_def Some intro!: map_total_update [OF assms Some, where d = 0, simplified])
  qed
qed

lemma map_total_from_list:
  assumes "distinct (map fst kvs)"
  shows "map_total g (bt_from_list kvs) = sum_list (map (\<lambda>kv. g (snd kv)) kvs)"
proof -
  have "map_total g (fold (\<lambda>(k, v). bt_insert k v) kvs m) = map_total g m + sum_list (map (\<lambda>kv. g (snd kv)) kvs)"
    if "fst ` set m \<inter> fst ` set kvs = {}" for m using assms that
  proof (induction kvs arbitrary: m)
    case (Cons kv kvs)
    then have "map_total g (bt_insert (fst kv) (snd kv) m) = map_total g m + g (snd kv)"
      by (intro map_total_insert_new) auto
    with Cons.IH [of "bt_insert (fst kv) (snd kv) m"] Cons.prems show ?case
      by (auto simp: keys_bt_insert split_beta add.assoc)
  qed simp
  from this [of "[]"] show ?thesis by (simp add: bt_from_list_def map_total_def)
qed

lemma run_index_totals:
  assumes "distinct (map fst (map index_key_row ks))"
  shows "map_total (\<lambda>r. of_bool (ix_in_ledger r) :: int) (run_index_of ks fs) = int (length ks)
    \<and> map_total ix_requests (run_index_of ks fs) = sum_list (map rk_requests ks)"
proof -
  have "bt_ok ix \<Longrightarrow> map_total (\<lambda>r. of_bool (ix_in_ledger r) :: int) (fold index_failure fs ix) = map_total (\<lambda>r. of_bool (ix_in_ledger r)) ix
      \<and> map_total ix_requests (fold index_failure fs ix) = map_total ix_requests ix" for ix
    by (induction fs arbitrary: ix) (simp_all add: index_failure_total index_failure_ok)
  from this [of "bt_from_list (map index_key_row ks)"] show ?thesis
    unfolding run_index_of_def
    by (simp add: map_total_from_list [OF assms] comp_def index_key_row_def sum_list_triv)
qed

lemma map_total_count: "map_total (\<lambda>_. 1 :: int) m = int (length m)"
  by (simp add: map_total_def sum_list_triv)

lemma index_length:
  "int (length m) = map_total (\<lambda>r. of_bool (ix_in_ledger r)) m + int (length (filter (\<lambda>kr. \<not> ix_in_ledger (snd kr)) m))"
  by (induction m) (auto simp: map_total_def)

lemma failures_by_variant_total:
  "sum_list (map snd (failures_by_variant fs)) = sum_list (map fr_failures fs)"
proof -
  have "bt_ok m \<Longrightarrow> map_total (\<lambda>n. n) (fold (\<lambda>f. bt_bump (or_empty (fr_variant f)) (fr_failures f)) fs m)
      = map_total (\<lambda>n. n) m + sum_list (map fr_failures fs)" for m
  proof (induction fs arbitrary: m)
    case (Cons f fs)
    have "map_total (\<lambda>n. n) (bt_bump (or_empty (fr_variant f)) (fr_failures f) m) = map_total (\<lambda>n. n) m + fr_failures f"
      unfolding bt_bump_def by (rule map_total_insert [OF Cons.prems]) (simp split: option.split)
    with Cons.IH [of "bt_bump (or_empty (fr_variant f)) (fr_failures f) m"] Cons.prems show ?case
      by (simp add: bt_bump_def bt_ok_insert)
  qed simp
  from this [of "[]"] show ?thesis by (simp add: failures_by_variant_def map_total_def)
qed

section \<open>What the reads add up to\<close>

lemma variant_totals_sums:
  assumes "experiment_variant_totals db i = Inr ts"
  shows "sum_list (map xt_requests ts) = request_count (filter (stamped i) (cost_ledger db))
    \<and> sum_list (map xt_cost_usd ts) = cost_total (filter (stamped i) (cost_ledger db))
    \<and> sum_list (map xt_saved_usd ts) = saved_total (filter (stamped i) (cost_ledger db))
    \<and> sum_list (map xt_tokens_in ts) = tokens_in_total (filter (stamped i) (cost_ledger db))
    \<and> sum_list (map xt_tokens_out ts) = tokens_out_total (filter (stamped i) (cost_ledger db))
    \<and> sum_list (map xt_estimated_rows ts) = estimated_total (filter (stamped i) (cost_ledger db))"
proof -
  let ?gs = "group_by le_experiment_variant (filter (stamped i) (cost_ledger db))"
  have ts: "ts = map (\<lambda>g. variant_totals_of (or_empty (fst g)) (snd g)) ?gs"
    using assms by (simp add: experiment_variant_totals_def split_beta)
  show ?thesis
    unfolding ts
    by (simp add: comp_def variant_totals_of_def requests.groups cost.groups saved.groups tokens_in.groups
        tokens_out.groups estimated.groups)
qed

lemma run_keys_facts:
  assumes "experiment_run_keys db i = Inr ks"
  shows "distinct (map fst (map index_key_row ks)) \<and> length ks = length (group_by run_key (run_rows i db))
    \<and> sum_list (map rk_requests ks) = request_count (run_rows i db)"
proof -
  let ?gs = "group_by run_key (run_rows i db)"
  have ks: "ks = map (run_key_row_of i db) ?gs" using assms by (simp add: experiment_run_keys_def)
  have "map fst (map index_key_row ks) = map fst ?gs"
    unfolding ks by (simp add: index_key_row_def run_key_row_of_def split_beta)
  moreover have "sum_list (map rk_requests ks) = sum_list (map (\<lambda>g. request_count (snd g)) ?gs)"
    unfolding ks by (simp add: run_key_row_of_def split_beta comp_def)
  ultimately show ?thesis using distinct_groups [of run_key "run_rows i db"] by (simp only: requests.groups) (simp add: ks)
qed

lemma run_failures_sum:
  assumes "experiment_run_failures fdb i = Inr fs"
  shows "sum_list (map fr_failures fs) = request_count (filter (run_failure i) (fd_rows fdb))"
proof -
  let ?gs = "group_by failure_key (filter (run_failure i) (fd_rows fdb))"
  have "map fr_failures fs = map (\<lambda>g. request_count (snd g)) ?gs"
    using assms by (auto simp: experiment_run_failures_def split_beta split: if_splits)
  then show ?thesis by (simp only: requests.groups)
qed

text \<open>Failures never change what the index says of a run with ledger rows.\<close>

lemma index_failure_keeps:
  assumes "bt_ok ix" and "map_of ix k = Some run" and "ix_in_ledger run"
  shows "map_of (index_failure f ix) k = Some run"
  using assms by (cases "failure_run f = k") (auto simp: index_failure_def Let_def map_of_bt_insert split: option.split)

lemma index_failures_keep:
  "bt_ok ix \<Longrightarrow> map_of ix k = Some run \<Longrightarrow> ix_in_ledger run \<Longrightarrow> map_of (fold index_failure fs ix) k = Some run"
  by (induction fs arbitrary: ix) (simp_all add: index_failure_keeps index_failure_ok)

lemma index_of_ledger_run:
  assumes "experiment_run_keys db i = Inr ks" and "e \<in> set (run_rows i db)"
  shows "\<exists>run. map_of (run_index_of ks fs) (run_key e) = Some run \<and> ix_variant run = run_variant i db (run_key e)"
proof -
  let ?g = "(run_key e, filter (\<lambda>r. run_key r = run_key e) (run_rows i db))"
  have "?g \<in> set (group_by run_key (run_rows i db))" using assms(2) by (auto simp: group_by_member)
  then have m: "index_key_row (run_key_row_of i db ?g) \<in> set (map index_key_row ks)"
    using assms(1) by (auto simp: experiment_run_keys_def)
  define run where "run = snd (index_key_row (run_key_row_of i db ?g))"
  have g: "index_key_row (run_key_row_of i db ?g) = (run_key e, run)" "ix_in_ledger run" "ix_variant run = run_variant i db (run_key e)"
    by (simp_all add: run_def index_key_row_def run_key_row_of_def)
  have d: "distinct (map fst (rev (map index_key_row ks)))"
    using run_keys_facts [OF assms(1)] by (simp only: rev_map [symmetric] distinct_rev)
  have "map_of (bt_from_list (map index_key_row ks)) (run_key e) = Some run"
    unfolding map_of_bt_from_list using m g(1) by (intro map_of_is_SomeI [OF d]) simp
  from index_failures_keep [OF bt_ok_from_list this g(2), of fs] g(3) show ?thesis unfolding run_index_of_def by blast
qed

section \<open>A finished document\<close>

lemma read_ok_Inr: "read_ok x f = Inr y \<longleftrightarrow> (\<exists>v. x = Inr v \<and> f v = Inr y)"
  by (auto simp: read_ok_def split: sum.split)

lemma build_results_Inr:
  assumes "build_results env i page rd = Inr r"
  obtains e ts ms ks rows us fs os ls bytes vs where
    "re_experiment rd = Inr (Some e)" "re_variant_totals rd = Inr ts" "re_variant_models rd = Inr ms"
    "re_run_keys rd = Inr ks" "re_page_rows rd = Inr rows" "re_unbound rd = Inr us" "re_failures rd = Inr fs"
    "re_outcomes rd = Inr os" "re_run_latency rd = Inr ls"
    "summarize_variants (re_variant rd) (variants_of env e ts ms (join_reads ks us fs os ls)) = Inr vs"
    "r = \<lparr>er_experiment = e, er_computed_at = rn_now env, er_variants = map snd vs,
          er_totals = totals_of_variants env (join_reads ks us fs os ls) vs, er_retained_content_bytes = bytes,
          er_total_runs = int (length ks) + int (length (failure_only (join_reads ks us fs os ls))),
          er_limit = pg_limit page, er_offset = pg_offset page,
          er_items = page_items env (join_reads ks us fs os ls) (int (length ks)) rows page\<rparr>"
proof -
  from assms obtain found where found: "re_experiment rd = Inr found"
    by (auto simp: build_results_def read_ok_Inr)
  with assms obtain e where e: "found = Some e" by (cases found) (auto simp: build_results_def read_ok_Inr)
  from assms show thesis
    unfolding build_results_def found e read_ok_Inr Let_def option.case
    using that [OF found [unfolded e]] by (force simp: read_ok_Inr)
qed

lemma outcome_keys:
  assumes "distinct (map (\<lambda>r. (ro_user_id r, ro_correlation_id r)) (od_rows db))"
  shows "distinct (map fst (map (\<lambda>r. ((ro_user_id r, ro_correlation_id r), r)) (outcomes_for_experiment db i)))"
proof -
  have "distinct (map (\<lambda>r. (ro_user_id r, ro_correlation_id r)) (filter (\<lambda>r. ro_experiment_id r = Some i) (od_rows db)))"
    by (rule distinct_map_filter [OF assms])
  then have "distinct (map (\<lambda>r. (ro_user_id r, ro_correlation_id r)) (outcomes_for_experiment db i))"
    unfolding outcomes_for_experiment_def by (simp add: distinct_map)
  then show ?thesis by (simp add: comp_def)
qed

lemma outcomes_by_key_length:
  assumes "distinct (map (\<lambda>r. (ro_user_id r, ro_correlation_id r)) (od_rows db))"
  shows "length (outcomes_by_key (outcomes_for_experiment db i)) = length (outcomes_for_experiment db i)"
  using map_total_from_list [OF outcome_keys [OF assms, of i], of "\<lambda>_. 1 :: int"]
    map_total_count [of "outcomes_by_key (outcomes_for_experiment db i)"]
  by (simp add: outcomes_by_key_def comp_def sum_list_triv)

lemma os_reported_fold: "os_reported (fold (\<lambda>ko s. add_outcome s (snd ko)) kos s) = os_reported s + int (length kos)"
  by (induction kos arbitrary: s) (simp_all add: reported_add_outcome)

section \<open>Properties\<close>

text \<open>
  C15. The totals are the ledger's, the failure log's and the feedback's own. Over tables nobody writes to meanwhile,
  every figure of the document equals the one counted directly over the rows stamped with the experiment:
  requests, spend, savings, tokens and estimated rows over the ledger, turns over the rows with a correlation id,
  failures over the failed requests of known runs, and one report per outcome; the number of runs is that of the
  page; and the request-level columns of the variants add up to the same figures.
\<close>

theorem results_agree_with_tables:
  assumes "build_results env i page (read_tables extract q i page) = Inr r"
    and "\<And>xs. mset (rn_order env xs) = mset xs"
    and "distinct (map (\<lambda>r. (ro_user_id r, ro_correlation_id r)) (od_rows (rq_outcomes q)))"
  shows "let t = er_totals r; rows = filter (stamped i) (cost_ledger (rq_ledger q))
    in vr_requests t = request_count rows \<and> vr_cost_usd t = cost_total rows \<and> vr_saved_usd t = saved_total rows
      \<and> vr_uncached_cost_usd t = cost_total rows + saved_total rows
      \<and> tk_prompt (vr_tokens t) = tokens_in_total rows \<and> tk_completion (vr_tokens t) = tokens_out_total rows
      \<and> vr_estimated_rows t = estimated_total rows
      \<and> vr_turns t = request_count (run_rows i (rq_ledger q))
      \<and> vr_failures t = request_count (filter (run_failure i) (fd_rows (rq_failures q)))
      \<and> os_reported (vr_outcomes t) = request_count (outcomes_for_experiment (rq_outcomes q) i)
      \<and> vr_runs t = er_total_runs r
      \<and> sum_list (map vr_requests (er_variants r)) = request_count rows
      \<and> sum_list (map vr_cost_usd (er_variants r)) = cost_total rows"
proof -
  obtain e ts ms ks prows us fs os ls bytes vs where b:
    "re_variant_totals (read_tables extract q i page) = Inr ts" "re_run_keys (read_tables extract q i page) = Inr ks"
    "re_failures (read_tables extract q i page) = Inr fs" "re_outcomes (read_tables extract q i page) = Inr os"
    "summarize_variants (re_variant (read_tables extract q i page)) (variants_of env e ts ms (join_reads ks us fs os ls)) = Inr vs"
    and r: "er_variants r = map snd vs" "er_totals r = totals_of_variants env (join_reads ks us fs os ls) vs"
      "er_total_runs r = int (length ks) + int (length (failure_only (join_reads ks us fs os ls)))"
    by (rule build_results_Inr [OF assms(1)]) force
  let ?j = "join_reads ks us fs os ls"
  from b(1) have ts: "experiment_variant_totals (rq_ledger q) i = Inr ts" by (simp add: read_tables_def)
  from b(2) have ks: "experiment_run_keys (rq_ledger q) i = Inr ks" by (simp add: read_tables_def)
  from b(3) have fs: "experiment_run_failures (rq_failures q) i = Inr fs" by (simp add: read_tables_def)
  from b(4) have os: "os = outcomes_for_experiment (rq_outcomes q) i" by (simp add: read_tables_def)
  note sums = variant_totals_sums [OF ts] and keys = run_keys_facts [OF ks]
  have j: "jn_index ?j = run_index_of ks fs" "jn_failures_by_variant ?j = failures_by_variant fs"
    "jn_outcomes ?j = outcomes_by_key os"
    by (simp_all add: join_reads_def)
  note ix = run_index_totals [of ks fs, OF conjunct1 [OF keys]]
  have count: "length (rn_order env (jn_outcomes ?j)) = length os"
    using arg_cong [OF assms(2), of size "jn_outcomes ?j"] outcomes_by_key_length [OF assms(3), of i, folded os] by (simp add: j)
  have runs: "sum_list (map (\<lambda>_. 1) (run_index_of ks fs)) = er_total_runs r"
    using index_length [of "run_index_of ks fs"] conjunct1 [OF ix] by (simp add: r(3) failure_only_def j sum_list_triv)
  have turns: "sum_list (map (\<lambda>kr. ix_requests (snd kr)) (run_index_of ks fs)) = request_count (run_rows i (rq_ledger q))"
    using conjunct2 [OF ix] keys by (simp add: map_total_def)
  let ?rows = "filter (stamped i) (cost_ledger (rq_ledger q))"
  have requests: "sum_list (map vr_requests (map snd vs)) = request_count ?rows"
    using requests_figure.summarized_total [OF b(5), unfolded requests_figure.built_total]
    by (simp add: map_total_def comp_def sums)
  have cost: "sum_list (map vr_cost_usd (map snd vs)) = cost_total ?rows"
    using cost_figure.summarized_total [OF b(5), unfolded cost_figure.built_total]
    by (simp add: map_total_def comp_def sums)
  have saved: "sum_list (map vr_saved_usd (map snd vs)) = saved_total ?rows"
    using saved_figure.summarized_total [OF b(5), unfolded saved_figure.built_total]
    by (simp add: map_total_def comp_def sums)
  have uncached: "sum_list (map vr_uncached_cost_usd (map snd vs)) = cost_total ?rows + saved_total ?rows"
    using uncached_figure.summarized_total [OF b(5), unfolded uncached_figure.built_total]
    by (simp add: map_total_def comp_def sum_list_addf sums)
  have prompt: "sum_list (map (\<lambda>v. tk_prompt (vr_tokens v)) (map snd vs)) = tokens_in_total ?rows"
    using prompt_figure.summarized_total [OF b(5), unfolded prompt_figure.built_total]
    by (simp add: map_total_def comp_def sums)
  have completion: "sum_list (map (\<lambda>v. tk_completion (vr_tokens v)) (map snd vs)) = tokens_out_total ?rows"
    using completion_figure.summarized_total [OF b(5), unfolded completion_figure.built_total]
    by (simp add: map_total_def comp_def sums)
  have estimated: "sum_list (map vr_estimated_rows (map snd vs)) = estimated_total ?rows"
    using estimated_figure.summarized_total [OF b(5), unfolded estimated_figure.built_total]
    by (simp add: map_total_def comp_def sums)
  have failures_by: "sum_list (map vr_failures (map snd vs)) = request_count (filter (run_failure i) (fd_rows (rq_failures q)))"
    using failures_figure.summarized_total [OF b(5), unfolded failures_figure.built_total]
    by (simp add: map_total_def comp_def j failures_by_variant_total run_failures_sum [OF fs])
  have runs_by: "sum_list (map vr_runs (map snd vs)) = er_total_runs r"
    using runs_figure.summarized_total [OF b(5), unfolded runs_figure.built_total]
    by (simp add: map_total_def comp_def j runs)
  have turns_by: "sum_list (map vr_turns (map snd vs)) = request_count (run_rows i (rq_ledger q))"
    using turns_figure.summarized_total [OF b(5), unfolded turns_figure.built_total]
    by (simp add: map_total_def comp_def j turns)
  show ?thesis
    unfolding Let_def r(1,2) totals_of_variants_def
    by (simp add: add_to_totals_sums no_totals_def token_totals_new_def os_reported_fold no_outcomes_def count [unfolded os] os
        request_count_def [of "outcomes_for_experiment (rq_outcomes q) i"]
        requests cost saved uncached prompt completion estimated failures_by turns_by runs_by del: map_map)
qed

lemma page_items_slice:
  assumes "0 \<le> m" and "0 \<le> n"
  shows "page_items env j (int (length all)) (limit_offset n m all) \<lparr>pg_limit = n, pg_offset = m\<rparr>
    = limit_offset n m (map (page_item env j) all @ map (\<lambda>kr. run_result_of env j kr None) (failure_only j))"
proof -
  obtain N M where n: "n = int N" "m = int M" using assms by (metis nat_0_le)
  have room: "nat (max (int N - int k) 0) = N - k" "nat (max (int M - int k) 0) = M - k" for k by linarith+
  show ?thesis
    by (simp add: page_items_def Let_def limit_offset_def n room take_map drop_map)
qed

text \<open>
  C16. The pages cut one list. Whatever limit and offset are asked for, the page holds exactly that slice of the list
  a page large enough for everything would hold: the runs of the ledger, newest activity first, and then the runs
  known from failures alone, none left out and none repeated; and the announced total is that list's length.
\<close>

theorem run_pages_tile:
  assumes "build_results env i \<lparr>pg_limit = n, pg_offset = m\<rparr> (read_tables extract q i \<lparr>pg_limit = n, pg_offset = m\<rparr>) = Inr r"
    and "build_results env i \<lparr>pg_limit = big, pg_offset = 0\<rparr> (read_tables extract q i \<lparr>pg_limit = big, pg_offset = 0\<rparr>) = Inr whole"
    and "0 \<le> n" and "0 \<le> m" and "er_total_runs whole \<le> big"
  shows "er_items r = take (nat n) (drop (nat m) (er_items whole))
    \<and> er_total_runs r = int (length (er_items whole)) \<and> er_total_runs whole = int (length (er_items whole))"
proof -
  let ?db = "rq_ledger q"
  let ?all = "map (run_row_of i ?db) (sort_desc (\<lambda>g. last_at (snd g)) (group_by run_key (run_rows i ?db)))"
  have one: "\<exists>j. er_items x = limit_offset l k (map (page_item env j) ?all @ map (\<lambda>kr. run_result_of env j kr None) (failure_only j))
      \<and> er_total_runs x = int (length ?all) + int (length (failure_only j))
      \<and> (\<exists>ks us fs os ls. j = join_reads ks us fs os ls \<and> experiment_run_keys ?db i = Inr ks
          \<and> experiment_unbound_requests ?db i = Inr us \<and> experiment_run_failures (rq_failures q) i = Inr fs
          \<and> os = outcomes_for_experiment (rq_outcomes q) i \<and> ls = experiment_run_latency (rq_prompts q) i)"
    if x: "build_results env i \<lparr>pg_limit = l, pg_offset = k\<rparr> (read_tables extract q i \<lparr>pg_limit = l, pg_offset = k\<rparr>) = Inr x"
      and "0 \<le> l" "0 \<le> k" for x l k
  proof -
    let ?rd = "read_tables extract q i \<lparr>pg_limit = l, pg_offset = k\<rparr>"
    obtain ks us fs os ls rows where b: "re_run_keys ?rd = Inr ks" "re_page_rows ?rd = Inr rows" "re_unbound ?rd = Inr us"
      "re_failures ?rd = Inr fs" "re_outcomes ?rd = Inr os" "re_run_latency ?rd = Inr ls"
      and xr: "er_total_runs x = int (length ks) + int (length (failure_only (join_reads ks us fs os ls)))"
        "er_items x = page_items env (join_reads ks us fs os ls) (int (length ks)) rows \<lparr>pg_limit = l, pg_offset = k\<rparr>"
      by (rule build_results_Inr [OF x]) force
    have ks: "experiment_run_keys ?db i = Inr ks" and rows: "rows = limit_offset l k ?all"
      using b(1,2) by (simp_all add: read_tables_def experiment_runs_def)
    have len: "length ks = length ?all" using run_keys_facts [OF ks] by simp
    show ?thesis
      using b(3-6) ks xr page_items_slice [OF \<open>0 \<le> k\<close> \<open>0 \<le> l\<close>, of env "join_reads ks us fs os ls" ?all]
      unfolding len rows by (intro exI [of _ "join_reads ks us fs os ls"]) (auto simp: read_tables_def)
  qed
  have "er_total_runs whole \<ge> 0"
    by (rule build_results_Inr [OF assms(2)]) simp
  then have big: "0 \<le> big" using assms(5) by simp
  from one [OF assms(1,3,4)] one [OF assms(2) big] obtain j where
    "er_items r = limit_offset n m (map (page_item env j) ?all @ map (\<lambda>kr. run_result_of env j kr None) (failure_only j))"
    "er_items whole = limit_offset big 0 (map (page_item env j) ?all @ map (\<lambda>kr. run_result_of env j kr None) (failure_only j))"
    "er_total_runs r = int (length ?all) + int (length (failure_only j))"
    "er_total_runs whole = int (length ?all) + int (length (failure_only j))"
    by auto
  then show ?thesis using assms(3,4,5) big by (auto simp: limit_offset_def)
qed

definition mean_of :: "rat list \<Rightarrow> rat option" where
  "mean_of xs = (if xs = [] then None else Some (sum_list xs / of_nat (length xs)))"

lemma running_mean_exact: "Some (running_mean (mean_of xs) (int (length xs)) x) = mean_of (xs @ [x])"
  by (simp add: running_mean_def mean_of_def Let_def field_simps)

lemma running_mean_map:
  "Some (running_mean (mean_of (map f xs)) (int (length xs)) (f x)) = mean_of (map f (xs @ [x]))"
  using running_mean_exact [of "map f xs" "f x"] by simp

lemma map_filter_snoc: "List.map_filter f (xs @ [x]) = List.map_filter f xs @ (case f x of Some y \<Rightarrow> [y] | None \<Rightarrow> [])"
  by (simp add: List.map_filter_def split: option.split)

text \<open>
  The running means are arithmetic means. Adding the outcomes one by one, in whatever order the hash map yields
  them, gives the statistics one would compute from all of them at once, and none where nothing was reported.
\<close>

theorem outcome_stats_are_means:
  "fold (\<lambda>r s. add_outcome s r) rs no_outcomes
   = (let good = filter (\<lambda>r. ro_outcome r = ''success'') rs; scores = List.map_filter ro_score rs;
          ratings = map rat_of_int (List.map_filter ro_rating rs)
      in \<lparr>os_reported = int (length rs), os_success = int (length good), os_failure = int (length rs) - int (length good),
          os_success_rate = (if rs = [] then None else Some (of_nat (length good) / of_nat (length rs))),
          os_mean_score = mean_of scores, os_score_samples = int (length scores),
          os_mean_rating = mean_of ratings, os_rating_samples = int (length ratings)\<rparr>)"
proof (induction rs rule: rev_induct)
  case Nil
  then show ?case by (simp add: no_outcomes_def mean_of_def List.map_filter_def)
next
  case (snoc r rs)
  obtain s where s: "s = fold (\<lambda>r s. add_outcome s r) rs no_outcomes" by simp
  let ?ss = "List.map_filter ro_score rs" and ?rs = "List.map_filter ro_rating rs"
  let ?good = "filter (\<lambda>r. ro_outcome r = ''success'') rs"
  have now: "os_reported s = int (length rs)" "os_success s = int (length ?good)"
    "os_failure s = int (length rs) - int (length ?good)" "os_mean_score s = mean_of ?ss" "os_score_samples s = int (length ?ss)"
    "os_mean_rating s = mean_of (map rat_of_int ?rs)" "os_rating_samples s = int (length ?rs)"
    unfolding s snoc.IH by (simp_all add: Let_def)
  have last: "fold (\<lambda>r s. add_outcome s r) (rs @ [r]) no_outcomes = add_outcome s r" by (simp add: s)
  show ?case
    unfolding last
    by (cases s; cases "ro_score r"; cases "ro_rating r"; cases "ro_outcome r = ''success''")
      (use now in \<open>simp_all add: add_outcome_def Let_def map_filter_snoc running_mean_exact running_mean_map add.commute del: map_append\<close>)
qed

section \<open>Witnesses\<close>

definition sample_experiment :: experiment_row where
  "sample_experiment =
     \<lparr>ex_id = 7, ex_name = ''e'', ex_variants = [(''a'', []), (''b'', [])], ex_allowed_user_ids = [], ex_status = ExpActive,
      ex_feed_learning = False, ex_expires_at = 0, ex_created_at = ''t'', ex_closed_at = None, ex_retain_content = False,
      ex_content_retention_days = 0\<rparr>"

definition stamped_entry :: "int \<Rightarrow> string \<Rightarrow> string \<Rightarrow> ledger_entry" where
  "stamped_entry n run variant =
     (ledger_row n ''2026-01-01'' sample_entry)\<lparr>attribution_correlation_id := Some run, le_experiment_id := Some 7,
        le_experiment_variant := Some variant\<rparr>"

definition sample_results_tables :: results_tables where
  "sample_results_tables =
     \<lparr>rq_experiments = \<lparr>et_rows = [sample_experiment], et_last_id = 7\<rparr>,
      rq_ledger = empty_db\<lparr>cost_ledger := [stamped_entry 1 ''r'' ''a'', stamped_entry 2 ''s'' ''b'']\<rparr>,
      rq_failures = \<lparr>fd_rows = [], fd_last_id = 0, fd_down = False\<rparr>,
      rq_outcomes = \<lparr>od_rows = [], od_faults = []\<rparr>, rq_prompts = []\<rparr>"

definition sample_results_env :: results_env where
  "sample_results_env = \<lparr>rn_order = (\<lambda>xs. xs), rn_elapsed = (\<lambda>_ _. Some 0), rn_priced = (\<lambda>_. True), rn_now = ''t''\<rparr>"

definition sample_document :: "int \<Rightarrow> int \<Rightarrow> results_error + experiment_results" where
  "sample_document n m =
     build_results sample_results_env 7 \<lparr>pg_limit = n, pg_offset = m\<rparr>
       (read_tables (\<lambda>_ _. None) sample_results_tables 7 \<lparr>pg_limit = n, pg_offset = m\<rparr>)"

lemma sample_built:
  "case sample_document 1 1 of Inr r \<Rightarrow> er_total_runs r = 2 \<and> length (er_items r) = 1 | Inl _ \<Rightarrow> False"
  "case sample_document 2 0 of Inr r \<Rightarrow> er_total_runs r = 2 | Inl _ \<Rightarrow> False"
  by code_simp+

lemma sample_built_Inr:
  obtains r whole where "sample_document 1 1 = Inr r" and "sample_document 2 0 = Inr whole" and "er_total_runs whole = 2"
    and "length (er_items r) = 1"
  using sample_built by (auto split: sum.splits)

theorem results_agree_with_tables_witness:
  "\<exists>r. sample_document 1 1 = Inr r \<and> vr_requests (er_totals r) = 2 \<and> vr_cost_usd (er_totals r) = 6"
proof -
  obtain r whole where r: "sample_document 1 1 = Inr r" by (rule sample_built_Inr)
  have "request_count (filter (stamped 7) (cost_ledger (rq_ledger sample_results_tables))) = 2"
    "cost_total (filter (stamped 7) (cost_ledger (rq_ledger sample_results_tables))) = 6"
    by code_simp+
  moreover have "distinct (map (\<lambda>r. (ro_user_id r, ro_correlation_id r)) (od_rows (rq_outcomes sample_results_tables)))"
    by (simp add: sample_results_tables_def)
  moreover have "mset (rn_order sample_results_env xs) = mset xs" for xs by (simp add: sample_results_env_def)
  ultimately show ?thesis
    using results_agree_with_tables [OF r [unfolded sample_document_def]] r by (auto simp: Let_def)
qed

theorem run_pages_tile_witness:
  "\<exists>r whole. sample_document 1 1 = Inr r \<and> sample_document 2 0 = Inr whole
     \<and> length (er_items r) = 1 \<and> er_items r = drop 1 (er_items whole)"
proof -
  obtain r whole where r: "sample_document 1 1 = Inr r" "sample_document 2 0 = Inr whole" "er_total_runs whole = 2"
    "length (er_items r) = 1"
    by (rule sample_built_Inr)
  have "er_items r = take (nat 1) (drop (nat 1) (er_items whole)) \<and> er_total_runs whole = int (length (er_items whole))"
    using run_pages_tile [OF r(1,2) [unfolded sample_document_def]] r(3) by simp
  then have "er_items r = drop 1 (er_items whole)" using r(3) by simp
  then show ?thesis using r by blast
qed

end
