(* ===== verification/Feedback.thy ===== *)
theory Feedback
  imports Results_Properties
begin

text \<open>
  Feedback on a run (\<open>src/src/api/routes/feedback.rs\<close>): the caller reports how a run ended, and the report is
  stored under the experiment and variant the ledger names for that run.
\<close>

section \<open>The body\<close>

definition outcome_names :: "string list" where
  "outcome_names = [''success'', ''failure'']"

definition max_note_len :: nat where
  "max_note_len = 1024"

definition feedback_run_id :: "json option \<Rightarrow> string + string" where
  "feedback_run_id v =
     (case v of
        None \<Rightarrow> Inl ''correlation_id is required''
      | Some JNull \<Rightarrow> Inl ''correlation_id is required''
      | Some (JStr s) \<Rightarrow> validate_correlation_id_field ''correlation_id'' s
      | Some _ \<Rightarrow> Inl ''correlation_id must be a string'')"

definition feedback_outcome :: "json option \<Rightarrow> string + string" where
  "feedback_outcome v =
     (let wrong = ''outcome must be one of: success, failure''
      in case v of
           None \<Rightarrow> Inl ''outcome is required''
         | Some JNull \<Rightarrow> Inl ''outcome is required''
         | Some (JStr s) \<Rightarrow> if s \<in> set outcome_names then Inr s else Inl wrong
         | Some _ \<Rightarrow> Inl wrong)"

definition feedback_score :: "json option \<Rightarrow> string + rat option" where
  "feedback_score v =
     (case v of
        None \<Rightarrow> Inr None
      | Some JNull \<Rightarrow> Inr None
      | Some x \<Rightarrow>
          (case as_f64 x of
             Some f \<Rightarrow> if 0 \<le> f \<and> f \<le> 1 then Inr (Some f) else Inl ''score must be a number between 0 and 1''
           | None \<Rightarrow> Inl ''score must be a number between 0 and 1''))"

definition feedback_rating :: "json option \<Rightarrow> string + int option" where
  "feedback_rating v =
     (case v of
        None \<Rightarrow> Inr None
      | Some JNull \<Rightarrow> Inr None
      | Some x \<Rightarrow>
          (case as_i64 x of
             Some n \<Rightarrow> if 1 \<le> n \<and> n \<le> 5 then Inr (Some n) else Inl ''rating must be an integer between 1 and 5''
           | None \<Rightarrow> Inl ''rating must be an integer between 1 and 5''))"

definition feedback_note :: "json option \<Rightarrow> string + string option" where
  "feedback_note v =
     (case v of
        None \<Rightarrow> Inr None
      | Some JNull \<Rightarrow> Inr None
      | Some (JStr s) \<Rightarrow>
          if char_count s \<le> max_note_len then Inr (Some s)
          else Inl (''note must be at most '' @ show_nat max_note_len @ '' characters'')
      | Some _ \<Rightarrow> Inl ''note must be a string'')"

record feedback =
  fb_correlation_id :: string
  fb_outcome :: string
  fb_score :: "rat option"
  fb_rating :: "int option"
  fb_note :: "string option"

text \<open>The fields are read in this order; the first that is wrong is named.\<close>

definition parse_feedback :: "json \<Rightarrow> string + feedback" where
  "parse_feedback body =
     (case as_object body of
        None \<Rightarrow> Inl ''body must be a JSON object''
      | Some obj \<Rightarrow>
          (case feedback_run_id (map_of obj ''correlation_id'') of Inl e \<Rightarrow> Inl e | Inr cid \<Rightarrow>
          (case feedback_outcome (map_of obj ''outcome'') of Inl e \<Rightarrow> Inl e | Inr oc \<Rightarrow>
          (case feedback_score (map_of obj ''score'') of Inl e \<Rightarrow> Inl e | Inr sc \<Rightarrow>
          (case feedback_rating (map_of obj ''rating'') of Inl e \<Rightarrow> Inl e | Inr rt \<Rightarrow>
          (case feedback_note (map_of obj ''note'') of Inl e \<Rightarrow> Inl e | Inr nt \<Rightarrow>
             Inr \<lparr>fb_correlation_id = cid, fb_outcome = oc, fb_score = sc, fb_rating = rt, fb_note = nt\<rparr>))))))"

section \<open>The handler\<close>

record feedback_state =
  fs_ledger :: database
  fs_failures :: failure_db
  fs_outcomes :: outcome_db

definition unrecorded_run_msg :: "string \<Rightarrow> string" where
  "unrecorded_run_msg c =
     ''correlation_id '' @ quoted c @ '' has no recorded requests under this API key yet; ''
     @ ''requests are logged asynchronously, so retry shortly if the run just finished''"

text \<open>
  The stamp of the caller's run: that of its ledger rows, or none for a run of which only failures are on record.
\<close>

definition feedback_stamp :: "feedback_state \<Rightarrow> int \<Rightarrow> string \<Rightarrow> api_error + run_stamp" where
  "feedback_stamp s uid c =
     (case run_stamp_of (fs_ledger s) uid c of
        Inl _ \<Rightarrow> Inl Internal
      | Inr (Some st) \<Rightarrow> Inr st
      | Inr None \<Rightarrow>
          (case has_rows_for_user (fs_failures s) uid c of
             Inl _ \<Rightarrow> Inl Internal
           | Inr failed \<Rightarrow>
               if \<not> failed then Inl (InvalidRequest (unrecorded_run_msg c))
               else Inr \<lparr>rs_experiment_id = None, rs_experiment_variant = None\<rparr>))"

definition feedback_row :: "int \<Rightarrow> feedback \<Rightarrow> run_stamp \<Rightarrow> new_run_outcome" where
  "feedback_row uid f st =
     \<lparr>ro_user_id = uid, ro_correlation_id = fb_correlation_id f, ro_outcome = fb_outcome f, ro_score = fb_score f,
      ro_rating = fb_rating f, ro_note = fb_note f, ro_experiment_id = rs_experiment_id st,
      ro_experiment_variant = rs_experiment_variant st\<rparr>"

text \<open>\<open>fetch_one\<close> finds the row just written; not to find it would be a database error.\<close>

definition post_feedback :: "string \<Rightarrow> user \<Rightarrow> headers \<Rightarrow> json \<Rightarrow> feedback_state \<Rightarrow> (api_error + run_outcome) \<times> feedback_state" where
  "post_feedback now u hs body s =
     (case reject_header hs of
        Inl e \<Rightarrow> (Inl (bind_error_response e), s)
      | Inr _ \<Rightarrow>
          (case parse_feedback body of
             Inl m \<Rightarrow> (Inl (InvalidRequest m), s)
           | Inr f \<Rightarrow>
               (case feedback_stamp s (user_id u) (fb_correlation_id f) of
                  Inl e \<Rightarrow> (Inl e, s)
                | Inr st \<Rightarrow>
                    (let (r, od) = upsert_outcome now (fs_outcomes s) (feedback_row (user_id u) f st); s = s\<lparr>fs_outcomes := od\<rparr>
                     in (case r of Inr (Some stored) \<Rightarrow> Inr stored | _ \<Rightarrow> Inl Internal, s)))))"

section \<open>Facts\<close>

lemma sql_outcome_rows: "sql_outcome db = (bad, db') \<Longrightarrow> od_rows db' = od_rows db"
  by (auto simp: sql_outcome_def split: list.splits)

definition outcome_key :: "'a new_run_outcome_scheme \<Rightarrow> int \<times> string" where
  "outcome_key r = (ro_user_id r, ro_correlation_id r)"

text \<open>The table keeps one row per user and run, and a report leaves the rows of every other run alone.\<close>

lemma upsert_rows_unique:
  assumes "distinct (map outcome_key rs)"
  shows "distinct (map outcome_key (upsert_rows now x rs))"
proof -
  have same: "outcome_key (if same_run (ro_user_id x) (ro_correlation_id x) r
      then new_run_outcome.extend x \<lparr>ro_created_at = ro_created_at r, ro_updated_at = now\<rparr> else r) = outcome_key r" for r
    by (simp add: outcome_key_def same_run_def new_run_outcome.defs)
  show ?thesis
  proof (cases "list_ex (same_run (ro_user_id x) (ro_correlation_id x)) rs")
    case True
    with assms show ?thesis by (simp add: upsert_rows_def comp_def same)
  next
    case False
    then have "outcome_key x \<notin> outcome_key ` set rs" by (auto simp: list_ex_iff same_run_def outcome_key_def)
    with assms False show ?thesis
      by (simp add: upsert_rows_def) (simp add: outcome_key_def new_run_outcome.defs)
  qed
qed

lemma upsert_rows_others:
  assumes "\<And>r. keep r \<Longrightarrow> \<not> same_run (ro_user_id x) (ro_correlation_id x) r"
  shows "filter keep (upsert_rows now x rs) = filter keep rs"
proof -
  let ?new = "\<lambda>c. new_run_outcome.extend x \<lparr>ro_created_at = c, ro_updated_at = now\<rparr>"
  have new: "\<not> keep (?new c)" for c using assms [of "?new c"] by (auto simp: same_run_def new_run_outcome.defs)
  have "filter keep (map (\<lambda>r. if same_run (ro_user_id x) (ro_correlation_id x) r then ?new (ro_created_at r) else r) rs)
      = filter keep rs"
    by (induction rs) (use assms new in auto)
  then show ?thesis using new by (simp add: upsert_rows_def)
qed

lemma upserted_is_found:
  "\<exists>c. find (same_run (ro_user_id x) (ro_correlation_id x)) (upsert_rows now x rs)
     = Some (new_run_outcome.extend x \<lparr>ro_created_at = c, ro_updated_at = now\<rparr>)"
proof (cases "list_ex (same_run (ro_user_id x) (ro_correlation_id x)) rs")
  case True
  then show ?thesis
    unfolding upsert_rows_def by (simp, induction rs) (auto simp: same_run_def new_run_outcome.defs)
next
  case False
  then have "find (same_run (ro_user_id x) (ro_correlation_id x)) rs = None"
    by (auto simp: find_None_iff list_ex_iff)
  then have "find (same_run (ro_user_id x) (ro_correlation_id x)) (rs @ [y]) = Some y"
    if "same_run (ro_user_id x) (ro_correlation_id x) y" for y
    using that by (induction rs) (auto split: if_splits)
  with False show ?thesis by (auto simp: upsert_rows_def same_run_def new_run_outcome.defs)
qed

section \<open>What an accepted report is\<close>

definition feedback_ok :: "feedback \<Rightarrow> bool" where
  "feedback_ok f \<longleftrightarrow>
     fb_outcome f \<in> {''success'', ''failure''}
     \<and> (case fb_score f of Some x \<Rightarrow> 0 \<le> x \<and> x \<le> 1 | None \<Rightarrow> True)
     \<and> (case fb_rating f of Some n \<Rightarrow> 1 \<le> n \<and> n \<le> 5 | None \<Rightarrow> True)
     \<and> (case fb_note f of Some t \<Rightarrow> char_count t \<le> max_note_len | None \<Rightarrow> True)"

lemma feedback_outcome_ok: "feedback_outcome v = Inr s \<Longrightarrow> s \<in> {''success'', ''failure''}"
  by (auto simp: feedback_outcome_def outcome_names_def Let_def split: option.splits json.splits if_splits)

lemma feedback_score_ok: "feedback_score v = Inr (Some x) \<Longrightarrow> 0 \<le> x \<and> x \<le> 1"
  by (auto simp: feedback_score_def split: option.splits json.splits if_splits)

lemma feedback_rating_ok: "feedback_rating v = Inr (Some n) \<Longrightarrow> 1 \<le> n \<and> n \<le> 5"
  by (auto simp: feedback_rating_def split: option.splits json.splits if_splits)

lemma feedback_note_ok: "feedback_note v = Inr (Some t) \<Longrightarrow> char_count t \<le> max_note_len"
  by (auto simp: feedback_note_def split: option.splits json.splits if_splits)

lemma parse_feedback_ok: "parse_feedback body = Inr f \<Longrightarrow> feedback_ok f"
  by (auto simp: parse_feedback_def feedback_ok_def split: option.splits sum.splits
      dest!: feedback_outcome_ok feedback_score_ok feedback_rating_ok feedback_note_ok)

text \<open>The caller's run is on record: a ledger row of it, or a failure.\<close>

definition recorded_run :: "feedback_state \<Rightarrow> int \<Rightarrow> string \<Rightarrow> bool" where
  "recorded_run s uid c \<longleftrightarrow>
     list_ex (of_run uid c) (cost_ledger (fs_ledger s))
     \<or> list_ex (\<lambda>f. nf_user_id f = Some uid \<and> nf_correlation_id f = Some c) (fd_rows (fs_failures s))"

lemma feedback_stamp_recorded:
  assumes "feedback_stamp s uid c = Inr st"
  shows "recorded_run s uid c
    \<and> (run_stamp_of (fs_ledger s) uid c = Inr (Some st)
       \<or> run_stamp_of (fs_ledger s) uid c = Inr None \<and> st = \<lparr>rs_experiment_id = None, rs_experiment_variant = None\<rparr>)"
proof -
  have "filter (of_run uid c) (cost_ledger (fs_ledger s)) \<noteq> []" if "run_stamp_of (fs_ledger s) uid c = Inr (Some x)" for x
    using that by (auto simp: run_stamp_of_def split: list.splits)
  then have "list_ex (of_run uid c) (cost_ledger (fs_ledger s))" if "run_stamp_of (fs_ledger s) uid c = Inr (Some x)" for x
    using that by (auto simp: filter_empty_conv list_ex_iff)
  with assms show ?thesis
    by (auto simp: feedback_stamp_def recorded_run_def has_rows_for_user_def split: sum.splits option.splits if_splits)
qed

lemma upsert_outcome_frame:
  assumes "upsert_outcome now db x = (r, db')"
  shows "(od_rows db' = od_rows db \<or> od_rows db' = upsert_rows now x (od_rows db))
    \<and> (\<forall>y. r = Inr (Some y) \<longrightarrow> od_rows db' = upsert_rows now x (od_rows db)
         \<and> (\<exists>c. y = new_run_outcome.extend x \<lparr>ro_created_at = c, ro_updated_at = now\<rparr>) \<and> y \<in> set (od_rows db'))"
proof -
  obtain b1 d1 where d1: "sql_outcome db = (b1, d1)" by fastforce
  obtain b2 d2 where d2: "sql_outcome (d1\<lparr>od_rows := upsert_rows now x (od_rows d1)\<rparr>) = (b2, d2)" by fastforce
  have rows: "od_rows d1 = od_rows db" "od_rows d2 = upsert_rows now x (od_rows db)"
    using sql_outcome_rows [OF d1] sql_outcome_rows [OF d2] by simp_all
  obtain c where c: "get_outcome d2 (ro_user_id x) (ro_correlation_id x)
      = Some (new_run_outcome.extend x \<lparr>ro_created_at = c, ro_updated_at = now\<rparr>)"
    using upserted_is_found [of x now "od_rows db"] by (auto simp: get_outcome_def rows)
  have "new_run_outcome.extend x \<lparr>ro_created_at = c, ro_updated_at = now\<rparr> \<in> set (od_rows d2)"
    using c by (auto simp: get_outcome_def find_Some_iff)
  moreover have "db' = (if b1 then d1 else d2)"
    "r = (if b1 \<or> b2 then Inl db_error else Inr (get_outcome d2 (ro_user_id x) (ro_correlation_id x)))"
    using assms by (auto simp: upsert_outcome_def Let_def d1 d2 split: if_splits)
  ultimately show ?thesis using c rows by auto
qed

text \<open>A report is refused and changes nothing, or is written, whether or not the caller is told so.\<close>

lemma post_feedback_cases:
  assumes "post_feedback now u hs body s = (r, s')"
  obtains (refused) "s' = s" and "\<forall>y. r \<noteq> Inr y"
  | (written) f st od where "s' = s\<lparr>fs_outcomes := od\<rparr>" and "parse_feedback body = Inr f"
      and "feedback_stamp s (user_id u) (fb_correlation_id f) = Inr st" and "\<forall>m. r \<noteq> Inl (InvalidRequest m)"
      and "od_rows od = od_rows (fs_outcomes s) \<or> od_rows od = upsert_rows now (feedback_row (user_id u) f st) (od_rows (fs_outcomes s))"
      and "\<forall>y. r = Inr y \<longrightarrow> y \<in> set (od_rows od) \<and> ro_user_id y = user_id u \<and> ro_correlation_id y = fb_correlation_id f
             \<and> y = new_run_outcome.extend (feedback_row (user_id u) f st) \<lparr>ro_created_at = ro_created_at y, ro_updated_at = now\<rparr>"
proof (cases "\<exists>f st. reject_header hs = Inr () \<and> parse_feedback body = Inr f
    \<and> feedback_stamp s (user_id u) (fb_correlation_id f) = Inr st")
  case False
  then show thesis using assms by (intro refused) (auto simp: post_feedback_def split: sum.splits)
next
  case True
  then obtain f st where f: "reject_header hs = Inr ()" "parse_feedback body = Inr f"
    and st: "feedback_stamp s (user_id u) (fb_correlation_id f) = Inr st" by blast
  obtain x od where x: "upsert_outcome now (fs_outcomes s) (feedback_row (user_id u) f st) = (x, od)" by fastforce
  have s': "s' = s\<lparr>fs_outcomes := od\<rparr>" and r: "r = (case x of Inr (Some stored) \<Rightarrow> Inr stored | _ \<Rightarrow> Inl Internal)"
    using assms by (simp_all add: post_feedback_def f st x)
  note up = upsert_outcome_frame [OF x]
  show thesis
  proof (rule written [OF s' f(2) st])
    show "\<forall>m. r \<noteq> Inl (InvalidRequest m)" unfolding r by (auto split: sum.splits option.splits)
    show "\<forall>y. r = Inr y \<longrightarrow> y \<in> set (od_rows od) \<and> ro_user_id y = user_id u \<and> ro_correlation_id y = fb_correlation_id f
        \<and> y = new_run_outcome.extend (feedback_row (user_id u) f st) \<lparr>ro_created_at = ro_created_at y, ro_updated_at = now\<rparr>"
      using up unfolding r by (auto simp: feedback_row_def new_run_outcome.defs split: sum.splits option.splits)
  qed (use up in blast)
qed

section \<open>Properties\<close>

text \<open>
  C17. A report lands on the caller's own run or nowhere. Whatever the request, the outcomes of every other run and
  user, the ledger and the failure log stay as they were, and a refused report changes nothing; an accepted one
  is well formed, is about a run of which the caller has a request on record, and is stored under the experiment
  and variant the ledger gives for that run.
\<close>

theorem feedback_lands_on_own_run:
  assumes "post_feedback now u hs body s = (r, s')"
  shows "fs_ledger s' = fs_ledger s \<and> fs_failures s' = fs_failures s
    \<and> (\<forall>k. (\<forall>f. parse_feedback body = Inr f \<longrightarrow> k \<noteq> (user_id u, fb_correlation_id f)) \<longrightarrow>
        filter (\<lambda>y. outcome_key y = k) (od_rows (fs_outcomes s')) = filter (\<lambda>y. outcome_key y = k) (od_rows (fs_outcomes s)))
    \<and> (\<forall>m. r = Inl (InvalidRequest m) \<longrightarrow> s' = s)
    \<and> (\<forall>y. r = Inr y \<longrightarrow>
        y \<in> set (od_rows (fs_outcomes s')) \<and> ro_user_id y = user_id u \<and> recorded_run s (user_id u) (ro_correlation_id y)
        \<and> (\<exists>f st. parse_feedback body = Inr f \<and> feedback_ok f
             \<and> feedback_stamp s (user_id u) (ro_correlation_id y) = Inr st
             \<and> y = new_run_outcome.extend (feedback_row (user_id u) f st)
                     \<lparr>ro_created_at = ro_created_at y, ro_updated_at = now\<rparr>))"
  using assms
proof (cases rule: post_feedback_cases)
  case (refused)
  then show ?thesis by simp
next
  case (written f st od)
  have "filter (\<lambda>y. outcome_key y = k) (upsert_rows now (feedback_row (user_id u) f st) (od_rows (fs_outcomes s)))
      = filter (\<lambda>y. outcome_key y = k) (od_rows (fs_outcomes s))" if "k \<noteq> (user_id u, fb_correlation_id f)" for k
    by (rule upsert_rows_others) (use that in \<open>auto simp: same_run_def outcome_key_def feedback_row_def\<close>)
  then have "filter (\<lambda>y. outcome_key y = k) (od_rows od) = filter (\<lambda>y. outcome_key y = k) (od_rows (fs_outcomes s))"
    if "k \<noteq> (user_id u, fb_correlation_id f)" for k using written(5) that by metis
  then show ?thesis
    using written feedback_stamp_recorded [OF written(3)] parse_feedback_ok [OF written(2)] by auto
qed

text \<open>
  A report counts where its run counts. For a run whose stamped requests are all of one experiment, an accepted
  report is stored under that experiment, and the results document of the experiment adds it to the variant it is
  stored under, which is the variant of the run's earliest stamped request.
\<close>

theorem report_counts_for_its_variant:
  assumes "post_feedback now u hs body s = (Inr y, s')"
    and "\<exists>e\<in>set (cost_ledger (fs_ledger s)). of_run (user_id u) (ro_correlation_id y) e \<and> stamped i e"
    and "\<forall>e\<in>set (cost_ledger (fs_ledger s)). of_run (user_id u) (ro_correlation_id y) e \<longrightarrow> le_experiment_id e \<in> {None, Some i}"
    and "distinct (map le_id (cost_ledger (fs_ledger s)))"
    and "experiment_run_keys (fs_ledger s) i = Inr ks"
  shows "ro_experiment_id y = Some i
    \<and> outcome_label (run_index_of ks fs) (outcome_key y, y) = or_empty (ro_experiment_variant y)
    \<and> or_empty (ro_experiment_variant y) = run_variant i (fs_ledger s) (outcome_key y)"
proof -
  let ?u = "user_id u" and ?c = "ro_correlation_id y"
  obtain f st where u: "ro_user_id y = ?u" and st: "feedback_stamp s ?u ?c = Inr st"
    and y: "y = new_run_outcome.extend (feedback_row ?u f st) \<lparr>ro_created_at = ro_created_at y, ro_updated_at = now\<rparr>"
    using assms(1) by (cases rule: post_feedback_cases) auto
  obtain e where e: "e \<in> set (cost_ledger (fs_ledger s))" "of_run ?u ?c e" "stamped i e" using assms(2) by blast
  have key: "outcome_key y = (?u, ?c)" by (simp add: outcome_key_def u)
  have "run_stamp_of (fs_ledger s) ?u ?c \<noteq> Inr None"
    using e(1,2) by (auto simp: run_stamp_of_def filter_empty_conv split: list.splits dest: arg_cong [of _ _ set])
  then have "run_stamp_of (fs_ledger s) ?u ?c = Inr (Some st)" using feedback_stamp_recorded [OF st] by blast
  from run_stamp_is_run_variant [OF this assms(2,3,4)] obtain v where
    v: "st = \<lparr>rs_experiment_id = Some i, rs_experiment_variant = v\<rparr>" "or_empty v = run_variant i (fs_ledger s) (?u, ?c)" by blast
  have stored: "ro_experiment_id y = Some i" "ro_experiment_variant y = v"
    by (subst y; simp add: new_run_outcome.defs feedback_row_def v(1))+
  have "e \<in> set (run_rows i (fs_ledger s))" "run_key e = (?u, ?c)"
    using e by (auto simp: run_rows_def of_run_def run_key_def or_empty_def)
  from index_of_ledger_run [OF assms(5) this(1), of fs] this(2) show ?thesis
    by (auto simp: outcome_label_def key stored v(2))
qed

section \<open>Witnesses\<close>

definition reporter :: user where
  "reporter =
     \<lparr>user_id = 1, user_name = ''n'', email = None, enabled = True, user_created_at = ''t'', metadata = ''{}'',
      user_api_key_id = None, spend_reset_at = None, api_key_project = None, session_window_secs = None\<rparr>"

definition sample_feedback_state :: feedback_state where
  "sample_feedback_state =
     \<lparr>fs_ledger = empty_db\<lparr>cost_ledger := [stamped_entry 1 ''r'' ''a'']\<rparr>,
      fs_failures = \<lparr>fd_rows = [], fd_last_id = 0, fd_down = False\<rparr>,
      fs_outcomes = \<lparr>od_rows = [], od_faults = []\<rparr>\<rparr>"

definition sample_report :: json where
  "sample_report = JObj [(''correlation_id'', JStr ''r''), (''outcome'', JStr ''success'')]"

definition stored_report :: run_outcome where
  "stored_report =
     \<lparr>ro_user_id = 1, ro_correlation_id = ''r'', ro_outcome = ''success'', ro_score = None, ro_rating = None, ro_note = None,
      ro_experiment_id = Some 7, ro_experiment_variant = Some ''a'', ro_created_at = ''t'', ro_updated_at = ''t''\<rparr>"

lemma sample_reported:
  "post_feedback ''t'' reporter [] sample_report sample_feedback_state
   = (Inr stored_report, sample_feedback_state\<lparr>fs_outcomes := \<lparr>od_rows = [stored_report], od_faults = []\<rparr>\<rparr>)"
proof -
  have "fst (post_feedback ''t'' reporter [] sample_report sample_feedback_state) = Inr stored_report"
    "fs_outcomes (snd (post_feedback ''t'' reporter [] sample_report sample_feedback_state)) = \<lparr>od_rows = [stored_report], od_faults = []\<rparr>"
    by code_simp+
  then show ?thesis
    by (cases "post_feedback ''t'' reporter [] sample_report sample_feedback_state" rule: prod.exhaust)
      (auto elim!: post_feedback_cases)
qed

theorem feedback_lands_on_own_run_witness:
  "recorded_run sample_feedback_state 1 ''r'' \<and> stored_report \<in> set [stored_report]"
  using feedback_lands_on_own_run [OF sample_reported] by (auto simp: stored_report_def reporter_def)

theorem report_counts_for_its_variant_witness:
  "ro_experiment_id stored_report = Some 7 \<and> run_variant 7 (fs_ledger sample_feedback_state) (1, ''r'') = ''a''"
proof -
  have l: "cost_ledger (fs_ledger sample_feedback_state) = [stamped_entry 1 ''r'' ''a'']"
    by (simp add: sample_feedback_state_def empty_db_def)
  have e: "of_run 1 ''r'' (stamped_entry 1 ''r'' ''a'')" "stamped 7 (stamped_entry 1 ''r'' ''a'')"
    "le_experiment_id (stamped_entry 1 ''r'' ''a'') = Some 7"
    by (simp_all add: of_run_def stamped_def stamped_entry_def ledger_row_def sample_entry_def)
  have f: "user_id reporter = 1" "ro_correlation_id stored_report = ''r''" by (simp_all add: reporter_def stored_report_def)
  obtain ks where ks: "experiment_run_keys (fs_ledger sample_feedback_state) 7 = Inr ks"
    by (simp add: experiment_run_keys_def repo_def sample_feedback_state_def empty_db_def)
  show ?thesis
    using report_counts_for_its_variant [OF sample_reported _ _ _ ks, unfolded f l] e
    by (simp add: outcome_key_def stored_report_def or_empty_def)
qed

end
