(* ===== verification/Access_Tables.thy ===== *)
theory Access_Tables
  imports Model_Registry Ledger
begin

text \<open>
  The tables that say who may call the router and who may administer it (\<open>src/src/db/sqlite/users.rs\<close>,
  \<open>api_keys.rs\<close>, \<open>admin_users.rs\<close>, \<open>sessions.rs\<close>, \<open>groups.rs\<close>, \<open>audit.rs\<close> and the writes of \<open>budgets.rs\<close>),
  with the constraints of the schema: \<open>UNIQUE\<close> columns, foreign keys (switched on by \<open>SqliteDb::connect\<close>)
  and \<open>AUTOINCREMENT\<close> keys, which are never given out twice.

  \<open>ad_faults\<close> says, statement by statement, which of the statements to come fail (the database is
  unreachable or times out). A statement that fails changes nothing. \<open>now\<close> is the clock a call reads.
\<close>

record api_key =
  ak_id :: int
  ak_user_id :: int
  ak_hash :: string
  ak_label :: "string option"
  ak_enabled :: bool
  ak_created_at :: string
  ak_expires_at :: "string option"
  ak_project :: "string option"
  ak_disabled_at :: "string option"
  ak_session_window :: "int option"

record new_api_key =
  nk_user_id :: int
  nk_hash :: string
  nk_label :: "string option"
  nk_expires_at :: "string option"
  nk_project :: "string option"
  nk_session_window :: "int option"

record admin_user =
  ad_id :: int
  ad_name :: string
  ad_password_hash :: string
  ad_role :: string
  ad_enabled :: bool
  ad_created_at :: string
  ad_last_login :: "string option"
  ad_oidc_subject :: "string option"
  ad_email :: "string option"

record session_row =
  sn_id :: int
  sn_user_id :: int
  sn_external_id :: "string option"
  sn_project :: "string option"
  sn_created_at :: string
  sn_last_seen :: string

record group_row =
  gr_id :: int
  gr_name :: string
  gr_priority :: int
  gr_enabled :: bool
  gr_created_at :: string

record member_row =
  mb_id :: int
  mb_group_id :: int
  mb_user_id :: int
  mb_joined_at :: string
  mb_disabled_at :: "string option"

record audit_row = audit_entry +
  au_id :: int
  au_created_at :: string

record access_db =
  ax_users :: "user list"
  ax_last_user :: int
  ax_keys :: "api_key list"
  ax_last_key :: int
  ax_admins :: "admin_user list"
  ax_last_admin :: int
  ax_sessions :: "session_row list"
  ax_last_session :: int
  ax_groups :: "group_row list"
  ax_last_group :: int
  ax_members :: "member_row list"
  ax_last_member :: int
  ax_rules :: "budget_rule list"
  ax_last_rule :: int
  ax_audit :: "audit_row list"
  ax_last_audit :: int
  ax_faults :: "bool list"

section \<open>Statements and their composition\<close>

type_synonym ('e, 'a) db_act = "access_db \<Rightarrow> ('e + 'a) \<times> access_db"

definition stmt :: "access_db \<Rightarrow> bool \<times> access_db" where
  "stmt d = (case ax_faults d of [] \<Rightarrow> (False, d) | b # bs \<Rightarrow> (b, d\<lparr>ax_faults := bs\<rparr>))"

definition fetch :: "(access_db \<Rightarrow> 'a) \<Rightarrow> (string, 'a) db_act" where
  "fetch f d = (case stmt d of (bad, d) \<Rightarrow> (if bad then Inl sql_failed else Inr (f d), d))"

text \<open>A write that the constraints refuse when \<open>ok\<close> does not hold.\<close>

definition write_if :: "(access_db \<Rightarrow> bool) \<Rightarrow> (access_db \<Rightarrow> access_db) \<Rightarrow> (string, unit) db_act" where
  "write_if ok f d = (case stmt d of (bad, d) \<Rightarrow> if bad \<or> \<not> ok d then (Inl sql_failed, d) else (Inr (), f d))"

definition and_then :: "('e, 'a) db_act \<Rightarrow> ('a \<Rightarrow> ('e, 'b) db_act) \<Rightarrow> ('e, 'b) db_act" where
  "and_then m f d = (case m d of (Inl e, d) \<Rightarrow> (Inl e, d) | (Inr x, d) \<Rightarrow> f x d)"

definition give :: "'a \<Rightarrow> ('e, 'a) db_act" where
  "give x d = (Inr x, d)"

definition reject :: "'e \<Rightarrow> ('e, 'a) db_act" where
  "reject e d = (Inl e, d)"

text \<open>\<open>map_err(|_| e)\<close> and \<open>ok_or(e)\<close>.\<close>

definition err_as :: "'e \<Rightarrow> (string, 'a) db_act \<Rightarrow> ('e, 'a) db_act" where
  "err_as e m d = (case m d of (Inl _, d) \<Rightarrow> (Inl e, d) | (Inr x, d) \<Rightarrow> (Inr x, d))"

definition need :: "'e \<Rightarrow> 'a option \<Rightarrow> ('e, 'a) db_act" where
  "need e x = (case x of None \<Rightarrow> reject e | Some y \<Rightarrow> give y)"

definition require :: "'e \<Rightarrow> bool \<Rightarrow> ('e, unit) db_act" where
  "require e b = (if b then give () else reject e)"

lemmas act_defs = and_then_def give_def reject_def err_as_def need_def require_def

text \<open>What a completed action went through.\<close>

lemma and_then_Inr: "and_then m f d = (Inr y, d') \<longleftrightarrow> (\<exists>x d1. m d = (Inr x, d1) \<and> f x d1 = (Inr y, d'))"
  by (auto simp: and_then_def split: prod.splits sum.splits)

lemma err_as_Inr: "err_as e m d = (Inr x, d') \<longleftrightarrow> m d = (Inr x, d')"
  by (auto simp: err_as_def split: prod.splits sum.splits)

lemma give_Inr: "give x d = (Inr y, d') \<longleftrightarrow> y = x \<and> d' = d"
  by (auto simp: give_def)

lemma reject_Inr: "reject e d = (Inr y, d') \<longleftrightarrow> False"
  by (simp add: reject_def)

lemma need_Inr: "need e x d = (Inr y, d') \<longleftrightarrow> x = Some y \<and> d' = d"
  by (auto simp: need_def give_def reject_def split: option.splits)

lemma require_Inr: "require e b d = (Inr y, d') \<longleftrightarrow> b \<and> d' = d"
  by (auto simp: require_def give_def reject_def)

lemma fetch_Inr: "fetch f d = (Inr x, d') \<longleftrightarrow> \<not> fst (stmt d) \<and> d' = snd (stmt d) \<and> x = f d'"
  by (auto simp: fetch_def split: prod.splits)

lemma write_if_Inr: "write_if ok f d = (Inr u, d') \<longleftrightarrow> \<not> fst (stmt d) \<and> ok (snd (stmt d)) \<and> d' = f (snd (stmt d))"
  by (auto simp: write_if_def split: prod.splits)

lemmas done_simps = and_then_Inr err_as_Inr give_Inr reject_Inr need_Inr require_Inr fetch_Inr write_if_Inr

text \<open>A statement leaves the tables alone.\<close>

lemma stmt_tables [simp]:
  "ax_users (snd (stmt d)) = ax_users d" "ax_last_user (snd (stmt d)) = ax_last_user d"
  "ax_keys (snd (stmt d)) = ax_keys d" "ax_last_key (snd (stmt d)) = ax_last_key d"
  "ax_admins (snd (stmt d)) = ax_admins d" "ax_last_admin (snd (stmt d)) = ax_last_admin d"
  "ax_sessions (snd (stmt d)) = ax_sessions d" "ax_last_session (snd (stmt d)) = ax_last_session d"
  "ax_groups (snd (stmt d)) = ax_groups d" "ax_last_group (snd (stmt d)) = ax_last_group d"
  "ax_members (snd (stmt d)) = ax_members d" "ax_last_member (snd (stmt d)) = ax_last_member d"
  "ax_rules (snd (stmt d)) = ax_rules d" "ax_last_rule (snd (stmt d)) = ax_last_rule d"
  "ax_audit (snd (stmt d)) = ax_audit d" "ax_last_audit (snd (stmt d)) = ax_last_audit d"
  by (auto simp: stmt_def split: list.splits)

text \<open>With no fault to come, statements succeed and there is still none to come.\<close>

lemma stmt_calm [simp]: "ax_faults d = [] \<Longrightarrow> stmt d = (False, d)"
  by (simp add: stmt_def)

section \<open>Shared listings\<close>

text \<open>\<open>ORDER BY enabled DESC, created_at DESC\<close>.\<close>

definition by_recency :: "('a \<Rightarrow> bool) \<Rightarrow> ('a \<Rightarrow> string) \<Rightarrow> 'a list \<Rightarrow> 'a list" where
  "by_recency en created xs =
     (let ys = rev (sort_key created (rev xs)) in filter en ys @ filter (\<lambda>x. \<not> en x) ys)"

lemma set_by_recency [simp]: "set (by_recency en created xs) = set xs"
  by (auto simp: by_recency_def Let_def)

section \<open>Users\<close>

definition user_with :: "int \<Rightarrow> access_db \<Rightarrow> user option" where
  "user_with i d = find (\<lambda>u. user_id u = i) (ax_users d)"

definition user_named :: "string \<Rightarrow> access_db \<Rightarrow> user option" where
  "user_named n d = find (\<lambda>u. user_name u = n) (ax_users d)"

definition find_user_by_name :: "string \<Rightarrow> (string, user option) db_act" where
  "find_user_by_name n = fetch (user_named n)"

definition find_user_by_id :: "int \<Rightarrow> (string, user option) db_act" where
  "find_user_by_id i = fetch (user_with i)"

definition list_users_db :: "(string, user list) db_act" where
  "list_users_db = fetch (\<lambda>d. by_recency enabled user_created_at (ax_users d))"

definition fresh_user :: "string \<Rightarrow> string \<Rightarrow> string option \<Rightarrow> access_db \<Rightarrow> user" where
  "fresh_user now n mail d =
     \<lparr>user_id = ax_last_user d + 1, user_name = n, email = mail, enabled = True, user_created_at = now,
      metadata = ''{}'', user_api_key_id = None, spend_reset_at = None, api_key_project = None,
      session_window_secs = None\<rparr>"

definition create_user_db :: "string \<Rightarrow> string \<Rightarrow> string option \<Rightarrow> (string, user) db_act" where
  "create_user_db now n mail d =
     (let u = fresh_user now n mail d
      in and_then
           (write_if (\<lambda>d. user_named n d = None)
              (\<lambda>d. d\<lparr>ax_users := ax_users d @ [u], ax_last_user := ax_last_user d + 1\<rparr>))
           (\<lambda>_. fetch (\<lambda>_. u)) d)"

definition on_users :: "(user \<Rightarrow> user) \<Rightarrow> int \<Rightarrow> access_db \<Rightarrow> access_db" where
  "on_users f i d = d\<lparr>ax_users := map (\<lambda>u. if user_id u = i then f u else u) (ax_users d)\<rparr>"

definition set_user_enabled :: "int \<Rightarrow> bool \<Rightarrow> (string, unit) db_act" where
  "set_user_enabled i b = write_if (\<lambda>_. True) (on_users (\<lambda>u. u\<lparr>enabled := b\<rparr>) i)"

definition reset_spend :: "string \<Rightarrow> int \<Rightarrow> (string, unit) db_act" where
  "reset_spend now i = write_if (\<lambda>_. True) (on_users (\<lambda>u. u\<lparr>spend_reset_at := Some now\<rparr>) i)"

section \<open>API keys\<close>

definition key_with_hash :: "string \<Rightarrow> access_db \<Rightarrow> api_key option" where
  "key_with_hash h d = find (\<lambda>k. ak_hash k = h \<and> ak_enabled k) (ax_keys d)"

definition find_api_key_by_hash :: "string \<Rightarrow> (string, api_key option) db_act" where
  "find_api_key_by_hash h = fetch (key_with_hash h)"

definition list_api_keys_for_user :: "int \<Rightarrow> (string, api_key list) db_act" where
  "list_api_keys_for_user i = fetch (\<lambda>d. sort_key ak_id (filter (\<lambda>k. ak_user_id k = i) (ax_keys d)))"

definition fresh_key :: "string \<Rightarrow> new_api_key \<Rightarrow> access_db \<Rightarrow> api_key" where
  "fresh_key now n d =
     \<lparr>ak_id = ax_last_key d + 1, ak_user_id = nk_user_id n, ak_hash = nk_hash n, ak_label = nk_label n,
      ak_enabled = True, ak_created_at = now, ak_expires_at = nk_expires_at n, ak_project = nk_project n,
      ak_disabled_at = None, ak_session_window = nk_session_window n\<rparr>"

definition key_fits :: "new_api_key \<Rightarrow> access_db \<Rightarrow> bool" where
  "key_fits n d \<longleftrightarrow> list_ex (\<lambda>u. user_id u = nk_user_id n) (ax_users d) \<and> \<not> list_ex (\<lambda>k. ak_hash k = nk_hash n) (ax_keys d)"

definition create_api_key :: "string \<Rightarrow> new_api_key \<Rightarrow> (string, api_key) db_act" where
  "create_api_key now n d =
     (let k = fresh_key now n d
      in and_then
           (write_if (key_fits n) (\<lambda>d. d\<lparr>ax_keys := ax_keys d @ [k], ax_last_key := ax_last_key d + 1\<rparr>))
           (\<lambda>_. fetch (\<lambda>_. k)) d)"

definition on_keys :: "(api_key \<Rightarrow> api_key) \<Rightarrow> (api_key \<Rightarrow> bool) \<Rightarrow> access_db \<Rightarrow> access_db" where
  "on_keys f sel d = d\<lparr>ax_keys := map (\<lambda>k. if sel k then f k else k) (ax_keys d)\<rparr>"

definition revoke_api_key :: "int \<Rightarrow> (string, unit) db_act" where
  "revoke_api_key i = write_if (\<lambda>_. True) (on_keys (\<lambda>k. k\<lparr>ak_enabled := False\<rparr>) (\<lambda>k. ak_id k = i))"

definition list_all_api_keys :: "(string, api_key list) db_act" where
  "list_all_api_keys = fetch (\<lambda>d. by_recency ak_enabled ak_created_at (ax_keys d))"

definition set_key_enabled :: "int \<Rightarrow> bool \<Rightarrow> (string, unit) db_act" where
  "set_key_enabled i b = write_if (\<lambda>_. True) (on_keys (\<lambda>k. k\<lparr>ak_enabled := b\<rparr>) (\<lambda>k. ak_id k = i))"

definition disable_all_keys_for_user :: "int \<Rightarrow> (string, unit) db_act" where
  "disable_all_keys_for_user i =
     write_if (\<lambda>_. True) (on_keys (\<lambda>k. k\<lparr>ak_enabled := False\<rparr>) (\<lambda>k. ak_user_id k = i))"

definition in_key_group :: "int \<Rightarrow> string option \<Rightarrow> api_key \<Rightarrow> bool" where
  "in_key_group i p k \<longleftrightarrow> ak_user_id k = i \<and> ak_project k = p"

definition find_key_by_user_project :: "int \<Rightarrow> string option \<Rightarrow> (string, api_key option) db_act" where
  "find_key_by_user_project i p = fetch (\<lambda>d. find (in_key_group i p) (ax_keys d))"

definition disable_key :: "string \<Rightarrow> int \<Rightarrow> (string, unit) db_act" where
  "disable_key now i =
     write_if (\<lambda>_. True) (on_keys (\<lambda>k. k\<lparr>ak_enabled := False, ak_disabled_at := Some now\<rparr>) (\<lambda>k. ak_id k = i))"

definition list_keys_for_group :: "int \<Rightarrow> string option \<Rightarrow> (string, api_key list) db_act" where
  "list_keys_for_group i p =
     fetch (\<lambda>d. by_recency ak_enabled ak_created_at (filter (in_key_group i p) (ax_keys d)))"

section \<open>Administrators\<close>

definition admin_named :: "string \<Rightarrow> access_db \<Rightarrow> admin_user option" where
  "admin_named n d = find (\<lambda>a. ad_name a = n) (ax_admins d)"

definition find_admin_by_name :: "string \<Rightarrow> (string, admin_user option) db_act" where
  "find_admin_by_name n = fetch (admin_named n)"

definition find_admin_by_id :: "int \<Rightarrow> (string, admin_user option) db_act" where
  "find_admin_by_id i = fetch (\<lambda>d. find (\<lambda>a. ad_id a = i) (ax_admins d))"

definition list_admins_db :: "(string, admin_user list) db_act" where
  "list_admins_db = fetch (\<lambda>d. sort_key ad_id (ax_admins d))"

definition insert_admin :: "(access_db \<Rightarrow> bool) \<Rightarrow> (access_db \<Rightarrow> admin_user) \<Rightarrow> (string, admin_user) db_act" where
  "insert_admin ok mk d =
     (let a = mk d
      in and_then (write_if ok (\<lambda>d. d\<lparr>ax_admins := ax_admins d @ [a], ax_last_admin := ax_last_admin d + 1\<rparr>))
           (\<lambda>_. fetch (\<lambda>_. a)) d)"

definition create_admin_db :: "string \<Rightarrow> string \<Rightarrow> string \<Rightarrow> string \<Rightarrow> (string, admin_user) db_act" where
  "create_admin_db now n hash role =
     insert_admin (\<lambda>d. admin_named n d = None)
       (\<lambda>d. \<lparr>ad_id = ax_last_admin d + 1, ad_name = n, ad_password_hash = hash, ad_role = role, ad_enabled = True,
             ad_created_at = now, ad_last_login = None, ad_oidc_subject = None, ad_email = None\<rparr>)"

definition on_admins :: "(admin_user \<Rightarrow> admin_user) \<Rightarrow> int \<Rightarrow> access_db \<Rightarrow> access_db" where
  "on_admins f i d = d\<lparr>ax_admins := map (\<lambda>a. if ad_id a = i then f a else a) (ax_admins d)\<rparr>"

definition set_admin_enabled :: "int \<Rightarrow> bool \<Rightarrow> (string, unit) db_act" where
  "set_admin_enabled i b = write_if (\<lambda>_. True) (on_admins (\<lambda>a. a\<lparr>ad_enabled := b\<rparr>) i)"

text \<open>\<open>audit_log.actor_id\<close> references the administrator and cascades nothing: one who acted cannot go.\<close>

definition delete_admin_db :: "int \<Rightarrow> (string, unit) db_act" where
  "delete_admin_db i =
     write_if (\<lambda>d. \<not> list_ex (\<lambda>a. ad_id a = i) (ax_admins d) \<or> \<not> list_ex (\<lambda>r. au_actor_id r = Some i) (ax_audit d))
       (\<lambda>d. d\<lparr>ax_admins := filter (\<lambda>a. ad_id a \<noteq> i) (ax_admins d)\<rparr>)"

definition update_last_login :: "string \<Rightarrow> int \<Rightarrow> (string, unit) db_act" where
  "update_last_login now i = write_if (\<lambda>_. True) (on_admins (\<lambda>a. a\<lparr>ad_last_login := Some now\<rparr>) i)"

definition admin_with_subject :: "string \<Rightarrow> access_db \<Rightarrow> admin_user option" where
  "admin_with_subject s d = find (\<lambda>a. ad_oidc_subject a = Some s) (ax_admins d)"

definition find_by_oidc_subject :: "string \<Rightarrow> (string, admin_user option) db_act" where
  "find_by_oidc_subject s = fetch (admin_with_subject s)"

definition create_from_oidc ::
  "string \<Rightarrow> string \<Rightarrow> string \<Rightarrow> string \<Rightarrow> string \<Rightarrow> (string, admin_user) db_act" where
  "create_from_oidc now n mail subject role =
     insert_admin (\<lambda>d. admin_named n d = None \<and> admin_with_subject subject d = None)
       (\<lambda>d. \<lparr>ad_id = ax_last_admin d + 1, ad_name = n, ad_password_hash = [], ad_role = role, ad_enabled = True,
             ad_created_at = now, ad_last_login = None, ad_oidc_subject = Some subject, ad_email = Some mail\<rparr>)"

definition update_password_hash :: "int \<Rightarrow> string \<Rightarrow> (string, unit) db_act" where
  "update_password_hash i h = write_if (\<lambda>_. True) (on_admins (\<lambda>a. a\<lparr>ad_password_hash := h\<rparr>) i)"

section \<open>Sessions\<close>

definition find_session :: "int \<Rightarrow> string \<Rightarrow> access_db \<Rightarrow> session_row option" where
  "find_session i ext d = find (\<lambda>s. sn_user_id s = i \<and> sn_external_id s = Some ext) (ax_sessions d)"

definition insert_session :: "string \<Rightarrow> int \<Rightarrow> string option \<Rightarrow> string option \<Rightarrow> (string, session_row) db_act" where
  "insert_session now i ext p d =
     (let s = \<lparr>sn_id = ax_last_session d + 1, sn_user_id = i, sn_external_id = ext, sn_project = p,
               sn_created_at = now, sn_last_seen = now\<rparr>
      in and_then
           (write_if (\<lambda>d. list_ex (\<lambda>u. user_id u = i) (ax_users d))
              (\<lambda>d. d\<lparr>ax_sessions := ax_sessions d @ [s], ax_last_session := ax_last_session d + 1\<rparr>))
           (\<lambda>_. fetch (\<lambda>_. s)) d)"

definition find_or_create_session ::
  "string \<Rightarrow> int \<Rightarrow> string option \<Rightarrow> string option \<Rightarrow> (string, session_row) db_act" where
  "find_or_create_session now i ext p =
     and_then (case ext of None \<Rightarrow> give None | Some e \<Rightarrow> fetch (find_session i e))
       (\<lambda>found. case found of Some s \<Rightarrow> give s | None \<Rightarrow> insert_session now i ext p)"

definition update_last_seen :: "string \<Rightarrow> int \<Rightarrow> (string, unit) db_act" where
  "update_last_seen now i =
     write_if (\<lambda>_. True)
       (\<lambda>d. d\<lparr>ax_sessions := map (\<lambda>s. if sn_id s = i then s\<lparr>sn_last_seen := now\<rparr> else s) (ax_sessions d)\<rparr>)"

section \<open>Groups\<close>

definition list_groups :: "(string, group_row list) db_act" where
  "list_groups = fetch (\<lambda>d. sort_key (\<lambda>g. - gr_priority g) (sort_key gr_id (ax_groups d)))"

definition get_group :: "int \<Rightarrow> (string, group_row option) db_act" where
  "get_group i = fetch (\<lambda>d. find (\<lambda>g. gr_id g = i) (ax_groups d))"

definition group_named :: "string \<Rightarrow> access_db \<Rightarrow> group_row option" where
  "group_named n d = find (\<lambda>g. gr_name g = n) (ax_groups d)"

definition find_group_by_name :: "string \<Rightarrow> (string, group_row option) db_act" where
  "find_group_by_name n = fetch (group_named n)"

definition create_group :: "string \<Rightarrow> string \<Rightarrow> int \<Rightarrow> (string, group_row) db_act" where
  "create_group now n pri d =
     (let g = \<lparr>gr_id = ax_last_group d + 1, gr_name = n, gr_priority = pri, gr_enabled = True, gr_created_at = now\<rparr>
      in and_then
           (write_if (\<lambda>d. group_named n d = None)
              (\<lambda>d. d\<lparr>ax_groups := ax_groups d @ [g], ax_last_group := ax_last_group d + 1\<rparr>))
           (\<lambda>_. fetch (\<lambda>_. g)) d)"

text \<open>One transaction: the group, and with it (when it is switched off) its live memberships.\<close>

fun stmts :: "nat \<Rightarrow> access_db \<Rightarrow> bool \<times> access_db" where
  "stmts 0 d = (False, d)"
| "stmts (Suc n) d = (case stmt d of (bad, d) \<Rightarrow> if bad then (True, d) else stmts n d)"

definition group_switched :: "string \<Rightarrow> int \<Rightarrow> bool \<Rightarrow> access_db \<Rightarrow> access_db" where
  "group_switched now i b d =
     d\<lparr>ax_groups := map (\<lambda>g. if gr_id g = i then g\<lparr>gr_enabled := b\<rparr> else g) (ax_groups d),
       ax_members := (if b then ax_members d
                      else map (\<lambda>m. if mb_group_id m = i \<and> mb_disabled_at m = None then m\<lparr>mb_disabled_at := Some now\<rparr> else m)
                             (ax_members d))\<rparr>"

definition set_group_enabled :: "string \<Rightarrow> int \<Rightarrow> bool \<Rightarrow> (string, unit) db_act" where
  "set_group_enabled now i b d =
     (case stmts (if b then 3 else 4) d of
        (bad, d) \<Rightarrow> if bad then (Inl sql_failed, d) else (Inr (), group_switched now i b d))"

text \<open>The memberships are read joined with the names of their users.\<close>

definition joined :: "access_db \<Rightarrow> member_row list \<Rightarrow> (member_row \<times> string) list" where
  "joined d ms = List.map_filter (\<lambda>m. map_option (\<lambda>u. (m, user_name u)) (user_with (mb_user_id m) d)) ms"

definition list_memberships :: "int \<Rightarrow> (string, (member_row \<times> string) list) db_act" where
  "list_memberships i = fetch (\<lambda>d. joined d (sort_key mb_id (filter (\<lambda>m. mb_group_id m = i) (ax_members d))))"

definition active_member :: "int \<Rightarrow> int \<Rightarrow> member_row \<Rightarrow> bool" where
  "active_member g u m \<longleftrightarrow> mb_group_id m = g \<and> mb_user_id m = u \<and> mb_disabled_at m = None"

definition find_active_membership :: "int \<Rightarrow> int \<Rightarrow> (string, (member_row \<times> string) option) db_act" where
  "find_active_membership g u =
     fetch (\<lambda>d. case joined d (filter (active_member g u) (ax_members d)) of [] \<Rightarrow> None | m # _ \<Rightarrow> Some m)"

definition add_member :: "string \<Rightarrow> int \<Rightarrow> int \<Rightarrow> (string, member_row) db_act" where
  "add_member now g u d =
     (let m = \<lparr>mb_id = ax_last_member d + 1, mb_group_id = g, mb_user_id = u, mb_joined_at = now, mb_disabled_at = None\<rparr>
      in and_then
           (write_if (\<lambda>d. list_ex (\<lambda>x. gr_id x = g) (ax_groups d) \<and> list_ex (\<lambda>x. user_id x = u) (ax_users d))
              (\<lambda>d. d\<lparr>ax_members := ax_members d @ [m], ax_last_member := ax_last_member d + 1\<rparr>))
           (\<lambda>_. fetch (\<lambda>_. m)) d)"

definition disable_membership :: "string \<Rightarrow> int \<Rightarrow> (string, unit) db_act" where
  "disable_membership now i =
     write_if (\<lambda>_. True)
       (\<lambda>d. d\<lparr>ax_members := map (\<lambda>m. if mb_id m = i \<and> mb_disabled_at m = None then m\<lparr>mb_disabled_at := Some now\<rparr> else m)
                             (ax_members d)\<rparr>)"

definition set_group_priority :: "int \<Rightarrow> int \<Rightarrow> (string, unit) db_act" where
  "set_group_priority i pri =
     write_if (\<lambda>_. True)
       (\<lambda>d. d\<lparr>ax_groups := map (\<lambda>g. if gr_id g = i then g\<lparr>gr_priority := pri\<rparr> else g) (ax_groups d)\<rparr>)"

section \<open>Budget rules\<close>

definition all_rules :: "(string, budget_rule list) db_act" where
  "all_rules = fetch (\<lambda>d. sort_key br_id (ax_rules d))"

definition rules_in_scope :: "budget_scope \<Rightarrow> (string, budget_rule list) db_act" where
  "rules_in_scope s = fetch (\<lambda>d. sort_key br_id (filter (in_scope s) (ax_rules d)))"

definition rule_fits :: "budget_rule \<Rightarrow> access_db \<Rightarrow> bool" where
  "rule_fits r d \<longleftrightarrow>
     (case br_user_id r of None \<Rightarrow> True | Some i \<Rightarrow> list_ex (\<lambda>u. user_id u = i) (ax_users d)) \<and>
     (case br_api_key_id r of None \<Rightarrow> True | Some i \<Rightarrow> list_ex (\<lambda>k. ak_id k = i) (ax_keys d))"

definition create_rule :: "budget_rule \<Rightarrow> (string, budget_rule) db_act" where
  "create_rule r d =
     (let r = r\<lparr>br_id := ax_last_rule d + 1\<rparr>
      in and_then
           (write_if (rule_fits r) (\<lambda>d. d\<lparr>ax_rules := ax_rules d @ [r], ax_last_rule := ax_last_rule d + 1\<rparr>))
           (\<lambda>_. fetch (\<lambda>_. r)) d)"

definition delete_rule :: "int \<Rightarrow> (string, unit) db_act" where
  "delete_rule i = write_if (\<lambda>_. True) (\<lambda>d. d\<lparr>ax_rules := filter (\<lambda>r. br_id r \<noteq> i) (ax_rules d)\<rparr>)"

record rule_changes =
  ch_limit_usd :: "rat option"
  ch_limit_tokens :: "int option"
  ch_model_allow :: "string option"
  ch_model_deny :: "string option"
  ch_rate_rpm :: "int option"
  ch_max_concurrent :: "int option"
  ch_window_start :: "string option"
  ch_window_end :: "string option"

text \<open>\<open>COALESCE(?, column)\<close>: a missing change keeps the column.\<close>

definition coalesce :: "'a option \<Rightarrow> 'a option \<Rightarrow> 'a option" where
  "coalesce new old = (case new of None \<Rightarrow> old | Some _ \<Rightarrow> new)"

definition changed_rule :: "rule_changes \<Rightarrow> budget_rule \<Rightarrow> budget_rule" where
  "changed_rule c r =
     r\<lparr>limit_usd := coalesce (ch_limit_usd c) (limit_usd r), limit_tokens := coalesce (ch_limit_tokens c) (limit_tokens r),
       model_allow := (case ch_model_allow c of None \<Rightarrow> model_allow r | Some x \<Rightarrow> x),
       model_deny := (case ch_model_deny c of None \<Rightarrow> model_deny r | Some x \<Rightarrow> x),
       rate_rpm := coalesce (ch_rate_rpm c) (rate_rpm r), max_concurrent := coalesce (ch_max_concurrent c) (max_concurrent r),
       window_start := coalesce (ch_window_start c) (window_start r), window_end := coalesce (ch_window_end c) (window_end r)\<rparr>"

definition update_rule :: "int \<Rightarrow> rule_changes \<Rightarrow> (string, budget_rule option) db_act" where
  "update_rule i c =
     and_then
       (write_if (\<lambda>d. list_ex (\<lambda>r. br_id r = i) (ax_rules d))
          (\<lambda>d. d\<lparr>ax_rules := map (\<lambda>r. if br_id r = i then changed_rule c r else r) (ax_rules d)\<rparr>))
       (\<lambda>_. fetch (\<lambda>d. find (\<lambda>r. br_id r = i) (ax_rules d)))"

section \<open>The audit log\<close>

text \<open>An entry that cannot be written is logged and forgotten: the operation it describes stands.\<close>

definition audit_row_of :: "string \<Rightarrow> audit_entry \<Rightarrow> access_db \<Rightarrow> audit_row" where
  "audit_row_of now e d = audit_entry.extend e \<lparr>au_id = ax_last_audit d + 1, au_created_at = now\<rparr>"

definition actor_known :: "audit_entry \<Rightarrow> access_db \<Rightarrow> bool" where
  "actor_known e d \<longleftrightarrow> (case au_actor_id e of None \<Rightarrow> True | Some i \<Rightarrow> list_ex (\<lambda>a. ad_id a = i) (ax_admins d))"

definition create_audit :: "string \<Rightarrow> audit_entry \<Rightarrow> (string, audit_row) db_act" where
  "create_audit now e d =
     (let r = audit_row_of now e d
      in and_then
           (write_if (actor_known e) (\<lambda>d. d\<lparr>ax_audit := ax_audit d @ [r], ax_last_audit := ax_last_audit d + 1\<rparr>))
           (\<lambda>_. fetch (\<lambda>_. r)) d)"

definition note_audit :: "string \<Rightarrow> audit_entry \<Rightarrow> access_db \<Rightarrow> access_db" where
  "note_audit now e d = snd (create_audit now e d)"

definition list_audit :: "nat \<Rightarrow> nat \<Rightarrow> (string, audit_row list) db_act" where
  "list_audit limit offset = fetch (\<lambda>d. take limit (drop offset (rev (sort_key au_created_at (rev (ax_audit d))))))"

definition audit_by_actor :: "string \<Rightarrow> nat \<Rightarrow> (string, audit_row list) db_act" where
  "audit_by_actor n limit =
     fetch (\<lambda>d. take limit (rev (sort_key au_created_at (rev (filter (\<lambda>r. au_actor_name r = n) (ax_audit d))))))"

end
