(* ===== verification/Authentication.thy ===== *)
theory Authentication
  imports Access_Tables Cache_Request Registry_Admin
begin

text \<open>
  Who is calling: the API key of a client (\<open>src/src/api/auth.rs\<close>), the session token of an administrator
  (\<open>src/src/api/admin/auth.rs\<close>, the extractors and the login of \<open>dashboard.rs\<close> and \<open>routes.rs\<close>), the OIDC
  login (\<open>src/src/api/admin/oidc.rs\<close>) and the checks of the configured roles and secrets at startup
  (\<open>src/src/config/schema.rs\<close>).

  SHA-256, bcrypt, the JSON web tokens, the random generator and the identity provider are parameters
  (\<open>auth_env\<close>, \<open>oidc_world\<close>). \<open>ae_verify\<close> says of a password and a hash whether they match, or that the hash
  is malformed; \<open>ae_decode\<close> is the token library: given the time and the secret, the claims of a token whose
  signature is right and that has not expired.
\<close>

record admin_claims =
  ac_sub :: int
  ac_name :: string
  ac_role :: string
  ac_exp :: u64

record auth_env =
  ae_hash :: "string \<Rightarrow> string"
  ae_verify :: "string \<Rightarrow> string \<Rightarrow> bool option"
  ae_hash_password :: "string \<Rightarrow> string option"
  ae_encode :: "admin_claims \<Rightarrow> string \<Rightarrow> string option"
  ae_decode :: "int \<Rightarrow> string \<Rightarrow> string \<Rightarrow> admin_claims option"
  ae_json :: "json \<Rightarrow> string"
  ae_secret :: string
  ae_expiry_mins :: int

section \<open>API keys\<close>

definition text_header :: "headers \<Rightarrow> string \<Rightarrow> string option" where
  "text_header hs name =
     (case map_of hs name of None \<Rightarrow> None | Some v \<Rightarrow> if list_all visible_ascii v then Some v else None)"

definition bearer :: "headers \<Rightarrow> string option" where
  "bearer hs = Option.bind (text_header hs ''authorization'') (strip_prefix ''Bearer '')"

definition presented_key :: "headers \<Rightarrow> string option" where
  "presented_key hs = (case bearer hs of Some t \<Rightarrow> Some t | None \<Rightarrow> text_header hs ''x-api-key'')"

definition key_is_valid :: "string \<Rightarrow> api_key \<Rightarrow> bool" where
  "key_is_valid now k \<longleftrightarrow> ak_enabled k \<and> (case ak_expires_at k of None \<Rightarrow> True | Some e \<Rightarrow> now < e)"

definition as_caller :: "api_key \<Rightarrow> user \<Rightarrow> user" where
  "as_caller k u =
     u\<lparr>user_api_key_id := Some (ak_id k), api_key_project := ak_project k, session_window_secs := ak_session_window k\<rparr>"

definition authenticated_user :: "auth_env \<Rightarrow> headers \<Rightarrow> string \<Rightarrow> (api_error, user) db_act" where
  "authenticated_user env hs now =
     and_then (need Unauthorized (presented_key hs)) (\<lambda>token.
     and_then (err_as Internal (find_api_key_by_hash (ae_hash env token))) (\<lambda>found.
       case found of
         None \<Rightarrow> reject Unauthorized
       | Some k \<Rightarrow>
           and_then (err_as Internal (find_user_by_id (ak_user_id k))) (\<lambda>owner.
           and_then (need Unauthorized owner) (\<lambda>u.
             if \<not> key_is_valid now k \<or> \<not> enabled u then reject Unauthorized else give (as_caller k u)))))"

section \<open>Sessions of administrators\<close>

definition cookie_value :: "string \<Rightarrow> headers \<Rightarrow> string option" where
  "cookie_value name hs =
     Option.bind (text_header hs ''cookie'')
       (\<lambda>cs. case List.map_filter (\<lambda>c. strip_prefix (name @ ''='') (trim c)) (split_on CHR '';'' cs) of
               [] \<Rightarrow> None | v # _ \<Rightarrow> Some v)"

definition verify_jwt :: "auth_env \<Rightarrow> int \<Rightarrow> string \<Rightarrow> admin_claims option" where
  "verify_jwt env secs token = ae_decode env secs token (ae_secret env)"

definition admin_session_of :: "auth_env \<Rightarrow> int \<Rightarrow> headers \<Rightarrow> api_error + admin_claims" where
  "admin_session_of env secs hs =
     (case (case bearer hs of Some t \<Rightarrow> Some t | None \<Rightarrow> cookie_value ''admin_token'' hs) of
        None \<Rightarrow> Inl Unauthorized
      | Some t \<Rightarrow> (case verify_jwt env secs t of None \<Rightarrow> Inl Unauthorized | Some c \<Rightarrow> Inr c))"

definition super_admin_session :: "auth_env \<Rightarrow> int \<Rightarrow> headers \<Rightarrow> api_error + admin_claims" where
  "super_admin_session env secs hs =
     bind_sum (admin_session_of env secs hs) (\<lambda>c. if ac_role c \<noteq> ''superadmin'' then Inl Forbidden else Inr c)"

definition dashboard_session :: "auth_env \<Rightarrow> int \<Rightarrow> headers \<Rightarrow> dashboard_error + admin_claims" where
  "dashboard_session env secs hs =
     (case cookie_value ''mr_admin_session'' hs of
        None \<Rightarrow> Inl DashUnauthorized
      | Some t \<Rightarrow> (case verify_jwt env secs t of None \<Rightarrow> Inl DashUnauthorized | Some c \<Rightarrow> Inr c))"

definition super_dashboard_session :: "auth_env \<Rightarrow> int \<Rightarrow> headers \<Rightarrow> dashboard_error + admin_claims" where
  "super_dashboard_session env secs hs =
     bind_sum (dashboard_session env secs hs) (\<lambda>c. if ac_role c \<noteq> ''superadmin'' then Inl DashForbidden else Inr c)"

section \<open>Login with a password\<close>

definition session_claims :: "auth_env \<Rightarrow> int \<Rightarrow> admin_user \<Rightarrow> admin_claims" where
  "session_claims env secs a =
     \<lparr>ac_sub = ad_id a, ac_name = ad_name a, ac_role = ad_role a, ac_exp = word_of_int (secs + 60 * ae_expiry_mins env)\<rparr>"

definition issue_jwt :: "auth_env \<Rightarrow> admin_claims \<Rightarrow> string option" where
  "issue_jwt env c = ae_encode env c (ae_secret env)"

definition note_login :: "string \<Rightarrow> int \<Rightarrow> ('e, unit) db_act" where
  "note_login now i d = (Inr (), snd (update_last_login now i d))"

definition admin_login ::
  "auth_env \<Rightarrow> int \<Rightarrow> string \<Rightarrow> string \<Rightarrow> string \<Rightarrow> (api_error, string) db_act" where
  "admin_login env secs now n password =
     and_then (err_as Internal (find_admin_by_name n)) (\<lambda>found.
     and_then (need Unauthorized found) (\<lambda>a.
     and_then (require Unauthorized (ad_enabled a)) (\<lambda>_.
     and_then (need Internal (ae_verify env password (ad_password_hash a))) (\<lambda>valid.
     and_then (require Unauthorized valid) (\<lambda>_.
     and_then (need Internal (issue_jwt env (session_claims env secs a))) (\<lambda>token.
     and_then (note_login now (ad_id a)) (\<lambda>_. give token)))))))"

datatype login_page = LoggedIn string | LoginForm string

definition post_login :: "auth_env \<Rightarrow> int \<Rightarrow> string \<Rightarrow> string \<Rightarrow> string \<Rightarrow> access_db \<Rightarrow> login_page \<times> access_db" where
  "post_login env secs now n password d =
     (case and_then (err_as ''internal error'' (find_admin_by_name n)) (\<lambda>found.
           and_then (need ''invalid credentials'' found) (\<lambda>a.
           and_then (require ''account disabled'' (ad_enabled a)) (\<lambda>_.
           and_then (need ''internal error'' (ae_verify env password (ad_password_hash a))) (\<lambda>valid.
           and_then (require ''invalid credentials'' valid) (\<lambda>_.
           and_then (need ''internal error'' (issue_jwt env (session_claims env secs a))) (\<lambda>token.
           and_then (note_login now (ad_id a)) (\<lambda>_. give token))))))) d of
        (Inr token, d) \<Rightarrow> (LoggedIn (''mr_admin_session='' @ token @ ''; Path=/; HttpOnly; SameSite=Lax''), d)
      | (Inl msg, d) \<Rightarrow> (LoginForm msg, d))"

definition post_logout :: "string" where
  "post_logout = ''mr_admin_session=; Path=/; HttpOnly; SameSite=Lax; Max-Age=0''"

section \<open>Checks at startup\<close>

definition admin_role_vocabulary :: "string list" where
  "admin_role_vocabulary = [''superadmin'', ''viewer'']"

definition validate_role :: "string \<Rightarrow> bool" where
  "validate_role role \<longleftrightarrow> role \<in> set admin_role_vocabulary"

definition placeholder_jwt_secret :: string where
  "placeholder_jwt_secret = ''change-me-jwt-secret''"

definition validate_secret :: "string \<Rightarrow> bool" where
  "validate_secret s \<longleftrightarrow> trim s \<noteq> [] \<and> s \<noteq> placeholder_jwt_secret"

record admin_bootstrap =
  bs_name :: string
  bs_role :: string
  bs_password_hash :: string

definition validate_bootstrap :: "auth_env \<Rightarrow> admin_bootstrap \<Rightarrow> bool" where
  "validate_bootstrap env b \<longleftrightarrow>
     validate_role (bs_role b) \<and> starts_with ''$2'' (bs_password_hash b)
     \<and> ae_verify env ''_validation_probe_'' (bs_password_hash b) \<noteq> None"

definition bootstrap_apply :: "auth_env \<Rightarrow> string \<Rightarrow> admin_bootstrap \<Rightarrow> (string, unit) db_act" where
  "bootstrap_apply env now b =
     and_then (require ''refusing to start'' (validate_bootstrap env b)) (\<lambda>_.
     and_then (find_admin_by_name (bs_name b)) (\<lambda>found.
       case found of
         Some _ \<Rightarrow> give ()
       | None \<Rightarrow> and_then (create_admin_db now (bs_name b) (bs_password_hash b) (bs_role b)) (\<lambda>_. give ())))"

section \<open>OIDC: pending logins\<close>

text \<open>Instants in nanoseconds. \<open>elapsed\<close> saturates at zero.\<close>

record pending_oidc =
  po_verifier :: string
  po_created :: nat

type_synonym oidc_store = "string \<rightharpoonup> pending_oidc"

definition oidc_ttl :: nat where
  "oidc_ttl = 300 * 10 ^ 9"

definition cleanup_expired :: "nat \<Rightarrow> oidc_store \<Rightarrow> oidc_store" where
  "cleanup_expired t m =
     (\<lambda>s. case m s of None \<Rightarrow> None | Some p \<Rightarrow> if t - po_created p \<le> oidc_ttl then Some p else None)"

definition oidc_insert :: "nat \<Rightarrow> string \<Rightarrow> string \<Rightarrow> oidc_store \<Rightarrow> oidc_store" where
  "oidc_insert t s v m = (cleanup_expired t m)(s \<mapsto> \<lparr>po_verifier = v, po_created = t\<rparr>)"

definition oidc_take :: "nat \<Rightarrow> string \<Rightarrow> oidc_store \<Rightarrow> string option \<times> oidc_store" where
  "oidc_take t s m =
     (case m s of
        None \<Rightarrow> (None, m)
      | Some p \<Rightarrow> (if t - po_created p > oidc_ttl then None else Some (po_verifier p), m(s := None)))"

definition verify_pkce_challenge :: "(string \<Rightarrow> string) \<Rightarrow> string \<Rightarrow> string \<Rightarrow> bool" where
  "verify_pkce_challenge s256 verifier challenge \<longleftrightarrow> s256 verifier = challenge"

definition is_email_allowed :: "string \<Rightarrow> string list \<Rightarrow> string list \<Rightarrow> bool" where
  "is_email_allowed mail emails domains =
     (if emails = [] \<and> domains = [] then True
      else if mail \<in> set emails then True
      else case split_on CHR ''@'' mail of _ # domain # _ \<Rightarrow> domain \<in> set domains | _ \<Rightarrow> False)"

section \<open>OIDC: the two requests\<close>

record oidc_config =
  oc_enabled :: bool
  oc_issuer :: string
  oc_client_id :: string
  oc_redirect_uri :: string
  oc_allowed_emails :: "string list"
  oc_allowed_domains :: "string list"
  oc_auto_role :: string

record id_claims =
  ic_sub :: string
  ic_email :: "string option"
  ic_name :: "string option"

record discovery =
  dv_authorization :: string
  dv_token :: string
  dv_jwks :: string

text \<open>
  The identity provider as the code sees it: \<open>ow_discover\<close> (by issuer), \<open>ow_exchange\<close> (token endpoint, code,
  verifier, redirect URI), \<open>ow_validate\<close> (token, key set, client, issuer), \<open>ow_parses\<close> (whether an endpoint is
  a URL) and \<open>ow_challenge\<close> (the S256 transform).
\<close>

record oidc_world =
  ow_discover :: "string \<Rightarrow> discovery option"
  ow_exchange :: "string \<Rightarrow> string \<Rightarrow> string \<Rightarrow> string \<Rightarrow> string option"
  ow_validate :: "string \<Rightarrow> string \<Rightarrow> string \<Rightarrow> string \<Rightarrow> id_claims option"
  ow_parses :: "string \<Rightarrow> bool"
  ow_challenge :: "string \<Rightarrow> string"

datatype oidc_reply =
    OidcError nat string
  | OidcRedirect string "(string \<times> string) list"
  | OidcSession string

definition oidc_login ::
  "oidc_world \<Rightarrow> oidc_config \<Rightarrow> nat \<Rightarrow> string \<Rightarrow> string \<Rightarrow> oidc_store \<Rightarrow> oidc_reply \<times> oidc_store" where
  "oidc_login w cfg t verifier token m =
     (if \<not> oc_enabled cfg then (OidcError 404 ''OIDC not enabled'', m)
      else case ow_discover w (oc_issuer cfg) of
        None \<Rightarrow> (OidcError 502 ''OIDC discovery failed'', m)
      | Some dv \<Rightarrow>
          (if ow_parses w (dv_authorization dv)
           then OidcRedirect (dv_authorization dv)
                  [(''response_type'', ''code''), (''client_id'', oc_client_id cfg),
                   (''redirect_uri'', oc_redirect_uri cfg), (''scope'', ''openid email profile''),
                   (''state'', token), (''code_challenge'', ow_challenge w verifier),
                   (''code_challenge_method'', ''S256'')]
           else OidcError 502 ''Invalid authorization_endpoint'',
           oidc_insert t token verifier m))"

definition oidc_admin :: "string \<Rightarrow> oidc_config \<Rightarrow> id_claims \<Rightarrow> (oidc_reply, admin_user) db_act" where
  "oidc_admin now cfg c =
     (let mail = (case ic_email c of Some e \<Rightarrow> e | None \<Rightarrow> [])
      in and_then (err_as (OidcError 500 ''DB error'') (find_by_oidc_subject (ic_sub c))) (\<lambda>found.
           case found of
             Some a \<Rightarrow> give a
           | None \<Rightarrow>
               err_as (OidcError 500 ''Provisioning failed'')
                 (create_from_oidc now (case ic_name c of Some n \<Rightarrow> n | None \<Rightarrow> mail) mail (ic_sub c) (oc_auto_role cfg))))"

definition oidc_session ::
  "auth_env \<Rightarrow> oidc_config \<Rightarrow> int \<Rightarrow> string \<Rightarrow> id_claims \<Rightarrow> (oidc_reply, oidc_reply) db_act" where
  "oidc_session env cfg secs now c =
     and_then (require (OidcError 403 ''Email not permitted'')
                (is_email_allowed (case ic_email c of Some e \<Rightarrow> e | None \<Rightarrow> []) (oc_allowed_emails cfg) (oc_allowed_domains cfg))) (\<lambda>_.
     and_then (oidc_admin now cfg c) (\<lambda>a.
     and_then (require (OidcError 403 ''Account disabled'') (ad_enabled a)) (\<lambda>_.
     and_then (need (OidcError 500 ''Session error'') (issue_jwt env (session_claims env secs a))) (\<lambda>token.
     and_then (note_login now (ad_id a)) (\<lambda>_.
       give (OidcSession (''mr_admin_session='' @ token @ ''; Path=/; HttpOnly; SameSite=Lax'')))))))"

definition oidc_callback ::
  "oidc_world \<Rightarrow> auth_env \<Rightarrow> oidc_config \<Rightarrow> nat \<Rightarrow> int \<Rightarrow> string \<Rightarrow> string \<Rightarrow> string
     \<Rightarrow> oidc_store \<Rightarrow> access_db \<Rightarrow> oidc_reply \<times> oidc_store \<times> access_db" where
  "oidc_callback w env cfg t secs now code token m d =
     (if \<not> oc_enabled cfg then (OidcError 404 ''OIDC not enabled'', m, d)
      else case oidc_take t token m of
        (None, m) \<Rightarrow> (OidcError 400 ''Invalid or expired state'', m, d)
      | (Some verifier, m) \<Rightarrow>
          (case ow_discover w (oc_issuer cfg) of
             None \<Rightarrow> (OidcError 502 ''OIDC discovery failed'', m, d)
           | Some dv \<Rightarrow>
               (case ow_exchange w (dv_token dv) code verifier (oc_redirect_uri cfg) of
                  None \<Rightarrow> (OidcError 502 ''Token exchange failed'', m, d)
                | Some tok \<Rightarrow>
                    (case ow_validate w tok (dv_jwks dv) (oc_client_id cfg) (oc_issuer cfg) of
                       None \<Rightarrow> (OidcError 401 ''ID token validation failed'', m, d)
                     | Some c \<Rightarrow>
                         (case oidc_session env cfg secs now c d of
                            (Inl r, d) \<Rightarrow> (r, m, d)
                          | (Inr r, d) \<Rightarrow> (r, m, d))))))"

end
