(* ===== verification/Access_Admin.thy ===== *)
theory Access_Admin
  imports Authentication Router_Meta
begin

text \<open>
  The administration of users, keys, administrators, groups and budgets: the JSON API
  (\<open>src/src/api/admin/routes.rs\<close>) and the dashboard (\<open>dashboard.rs\<close>, \<open>groups.rs\<close>, \<open>budgets.rs\<close> under
  \<open>src/src/api/admin\<close>). A handler begins with its extractor, so a request without the right session
  runs no statement. What the dashboard renders is given as the data it renders from.
\<close>

text \<open>The request around a handler: its headers, the wall clock in seconds and as text.\<close>

record request_info =
  rq_headers :: headers
  rq_secs :: int
  rq_now :: string

definition from_sum :: "'e + 'a \<Rightarrow> ('e, 'a) db_act" where
  "from_sum r d = (r, d)"

lemma from_sum_Inr: "from_sum r d = (Inr x, d') \<longleftrightarrow> r = Inr x \<and> d' = d"
  by (auto simp: from_sum_def)

definition api_admin :: "auth_env \<Rightarrow> request_info \<Rightarrow> (api_error, admin_claims) db_act" where
  "api_admin env rq = from_sum (admin_session_of env (rq_secs rq) (rq_headers rq))"

definition api_super :: "auth_env \<Rightarrow> request_info \<Rightarrow> (api_error, admin_claims) db_act" where
  "api_super env rq = from_sum (super_admin_session env (rq_secs rq) (rq_headers rq))"

definition dash_admin :: "auth_env \<Rightarrow> request_info \<Rightarrow> (dashboard_error, admin_claims) db_act" where
  "dash_admin env rq = from_sum (dashboard_session env (rq_secs rq) (rq_headers rq))"

definition dash_super :: "auth_env \<Rightarrow> request_info \<Rightarrow> (dashboard_error, admin_claims) db_act" where
  "dash_super env rq = from_sum (super_dashboard_session env (rq_secs rq) (rq_headers rq))"

definition noted ::
  "request_info \<Rightarrow> admin_claims \<Rightarrow> string \<Rightarrow> string \<Rightarrow> string option \<Rightarrow> ('e, unit) db_act" where
  "noted rq c action tgt after d =
     (Inr (), note_audit (rq_now rq)
        \<lparr>au_actor_id = Some (ac_sub c), au_actor_name = ac_name c, au_action = action, au_target = Some tgt,
         au_before = None, au_after = after\<rparr> d)"

definition tagged :: "string \<Rightarrow> int \<Rightarrow> string" where
  "tagged kind i = kind @ CHR '':'' # show_int i"

section \<open>The JSON API: users\<close>

record user_view =
  uv_id :: int
  uv_name :: string
  uv_enabled :: bool
  uv_created_at :: string
  uv_metadata :: string

definition user_response :: "user \<Rightarrow> user_view" where
  "user_response u =
     \<lparr>uv_id = user_id u, uv_name = user_name u, uv_enabled = enabled u, uv_created_at = user_created_at u,
      uv_metadata = metadata u\<rparr>"

definition user_view_json :: "user_view \<Rightarrow> json" where
  "user_view_json v =
     JObj [(''id'', jint (uv_id v)), (''name'', JStr (uv_name v)), (''enabled'', JBool (uv_enabled v)),
           (''created_at'', JStr (uv_created_at v)), (''metadata'', JStr (uv_metadata v))]"

definition list_users :: "auth_env \<Rightarrow> request_info \<Rightarrow> (api_error, user_view list) db_act" where
  "list_users env rq =
     and_then (api_admin env rq) (\<lambda>_.
     and_then (err_as Internal list_users_db) (\<lambda>us. give (map user_response us)))"

definition create_user :: "auth_env \<Rightarrow> request_info \<Rightarrow> string \<Rightarrow> (api_error, user_view) db_act" where
  "create_user env rq n =
     and_then (api_super env rq) (\<lambda>c.
     and_then (err_as Internal (create_user_db (rq_now rq) n None)) (\<lambda>u.
     and_then (noted rq c ''user.create'' (tagged ''user'' (user_id u)) (Some (ae_json env (user_view_json (user_response u))))) (\<lambda>_.
       give (user_response u))))"

definition update_user :: "auth_env \<Rightarrow> request_info \<Rightarrow> int \<Rightarrow> bool option \<Rightarrow> (api_error, unit) db_act" where
  "update_user env rq i body =
     and_then (api_super env rq) (\<lambda>c.
       case body of
         None \<Rightarrow> give ()
       | Some b \<Rightarrow>
           and_then (err_as Internal (set_user_enabled i b)) (\<lambda>_.
             noted rq c (if b then ''user.enable'' else ''user.disable'') (tagged ''user'' i) None))"

section \<open>The JSON API: budgets\<close>

record create_budget_body =
  cb_user_id :: "int option"
  cb_group_name :: "string option"
  cb_api_key_id :: "int option"
  cb_window :: string
  cb_limit_usd :: "rat option"
  cb_limit_tokens :: "int option"
  cb_rate_rpm :: "int option"
  cb_model_allow :: "string list"
  cb_model_deny :: "string list"

definition names_json :: "auth_env \<Rightarrow> string list \<Rightarrow> string" where
  "names_json env ns = ae_json env (JArr (map JStr ns))"

definition api_rule :: "auth_env \<Rightarrow> create_budget_body \<Rightarrow> budget_rule" where
  "api_rule env b =
     \<lparr>br_id = 0, br_user_id = cb_user_id b, br_group_name = cb_group_name b, br_api_key_id = cb_api_key_id b,
      br_tag = None, br_window = cb_window b, limit_usd = cb_limit_usd b, limit_tokens = cb_limit_tokens b,
      model_allow = names_json env (cb_model_allow b), model_deny = names_json env (cb_model_deny b),
      rate_rpm = cb_rate_rpm b, max_concurrent = None, br_project = None, window_start = None, window_end = None\<rparr>"

definition list_budgets :: "auth_env \<Rightarrow> request_info \<Rightarrow> (api_error, budget_rule list) db_act" where
  "list_budgets env rq = and_then (api_admin env rq) (\<lambda>_. err_as Internal all_rules)"

text \<open>\<open>print_rule\<close> is the JSON text of the created row.\<close>

definition create_budget ::
  "auth_env \<Rightarrow> (budget_rule \<Rightarrow> string) \<Rightarrow> request_info \<Rightarrow> create_budget_body \<Rightarrow> (api_error, budget_rule) db_act" where
  "create_budget env print_rule rq b =
     and_then (api_super env rq) (\<lambda>c.
     and_then (require (InvalidRequest (''window must be '' @ quoted ''daily'' @ '', '' @ quoted ''weekly'' @ '', or '' @ quoted ''monthly''))
                 (cb_window b \<in> set [''daily'', ''weekly'', ''monthly''])) (\<lambda>_.
     and_then (err_as Internal (create_rule (api_rule env b))) (\<lambda>r.
     and_then (noted rq c ''budget.create'' (tagged ''budget'' (br_id r)) (Some (print_rule r))) (\<lambda>_. give r))))"

definition delete_budget :: "auth_env \<Rightarrow> request_info \<Rightarrow> int \<Rightarrow> (api_error, unit) db_act" where
  "delete_budget env rq i =
     and_then (api_super env rq) (\<lambda>c.
     and_then (err_as Internal (delete_rule i)) (\<lambda>_. noted rq c ''budget.delete'' (tagged ''budget'' i) None))"

section \<open>The JSON API: statistics and the log\<close>

text \<open>All-time cost of every user, from the ledger; a sum that fails counts as zero.\<close>

definition get_stats ::
  "auth_env \<Rightarrow> database \<Rightarrow> request_info \<Rightarrow> (api_error, (int \<times> string \<times> rat) list) db_act" where
  "get_stats env ledger rq =
     and_then (api_admin env rq) (\<lambda>_.
     and_then (err_as Internal list_users_db) (\<lambda>us.
       give (map (\<lambda>u. (user_id u, user_name u,
                       case sum_for_user_since ledger (user_id u) ''1970-01-01T00:00:00+00:00'' of Inr x \<Rightarrow> x | Inl _ \<Rightarrow> 0)) us)))"

definition get_audit :: "auth_env \<Rightarrow> request_info \<Rightarrow> (api_error, audit_row list) db_act" where
  "get_audit env rq = and_then (api_admin env rq) (\<lambda>_. err_as Internal (list_audit 100 0))"

section \<open>The JSON API: administrators\<close>

record admin_view =
  av_id :: int
  av_name :: string
  av_role :: string
  av_enabled :: bool
  av_created_at :: string
  av_last_login :: "string option"

definition admin_response :: "admin_user \<Rightarrow> admin_view" where
  "admin_response a =
     \<lparr>av_id = ad_id a, av_name = ad_name a, av_role = ad_role a, av_enabled = ad_enabled a,
      av_created_at = ad_created_at a, av_last_login = ad_last_login a\<rparr>"

definition list_admins :: "auth_env \<Rightarrow> request_info \<Rightarrow> (api_error, admin_view list) db_act" where
  "list_admins env rq =
     and_then (api_super env rq) (\<lambda>_.
     and_then (err_as Internal list_admins_db) (\<lambda>xs. give (map admin_response xs)))"

definition create_admin ::
  "auth_env \<Rightarrow> request_info \<Rightarrow> string \<Rightarrow> string \<Rightarrow> string option \<Rightarrow> (api_error, admin_user) db_act" where
  "create_admin env rq n password role0 =
     and_then (api_super env rq) (\<lambda>c.
       let role = (case role0 of None \<Rightarrow> ''viewer'' | Some r \<Rightarrow> r)
       in and_then (require (InvalidRequest (''role must be '' @ quoted ''superadmin'' @ '' or '' @ quoted ''viewer'')) (role \<in> set [''superadmin'', ''viewer''])) (\<lambda>_.
          and_then (need Internal (ae_hash_password env password)) (\<lambda>h.
          and_then (err_as Internal (create_admin_db (rq_now rq) n h role)) (\<lambda>a.
          and_then (noted rq c ''admin.create'' (tagged ''admin'' (ad_id a))
             (Some (ae_json env (jobj [(''id'', jint (ad_id a)), (''name'', JStr (ad_name a)), (''role'', JStr (ad_role a))])))) (\<lambda>_.
            give a)))))"

section \<open>The JSON API: keys\<close>

record api_key_view =
  kv_id :: int
  kv_user_id :: int
  kv_label :: "string option"
  kv_enabled :: bool
  kv_created_at :: string

definition api_key_response :: "api_key \<Rightarrow> api_key_view" where
  "api_key_response k =
     \<lparr>kv_id = ak_id k, kv_user_id = ak_user_id k, kv_label = ak_label k, kv_enabled = ak_enabled k,
      kv_created_at = ak_created_at k\<rparr>"

definition raw_key :: "string \<Rightarrow> string" where
  "raw_key uuid = ''mr-'' @ filter (\<lambda>c. c \<noteq> CHR ''-'') uuid"

definition list_user_api_keys :: "auth_env \<Rightarrow> request_info \<Rightarrow> int \<Rightarrow> (api_error, api_key_view list) db_act" where
  "list_user_api_keys env rq i =
     and_then (api_admin env rq) (\<lambda>_.
     and_then (err_as Internal (list_api_keys_for_user i)) (\<lambda>ks. give (map api_key_response ks)))"

definition debug_option :: "string option \<Rightarrow> string" where
  "debug_option x = (case x of None \<Rightarrow> ''None'' | Some s \<Rightarrow> ''Some('' @ debug_str s @ '')'')"

definition create_user_api_key ::
  "auth_env \<Rightarrow> request_info \<Rightarrow> string \<Rightarrow> int \<Rightarrow> string option \<Rightarrow> string option \<Rightarrow> int option
     \<Rightarrow> (api_error, api_key \<times> string) db_act" where
  "create_user_api_key env rq uuid i label project window =
     and_then (api_super env rq) (\<lambda>c.
     and_then (err_as Internal (create_api_key (rq_now rq)
                \<lparr>nk_user_id = i, nk_hash = ae_hash env (raw_key uuid), nk_label = label, nk_expires_at = None,
                 nk_project = project, nk_session_window = window\<rparr>)) (\<lambda>k.
     and_then (noted rq c ''create_api_key'' (tagged ''user'' i)
                (Some (''label:'' @ debug_option (ak_label k) @ '' project:'' @ debug_option (ak_project k)))) (\<lambda>_.
       give (k, raw_key uuid))))"

definition reset_user_spend :: "auth_env \<Rightarrow> request_info \<Rightarrow> int \<Rightarrow> (api_error, unit) db_act" where
  "reset_user_spend env rq i =
     and_then (api_super env rq) (\<lambda>_. err_as Internal (reset_spend (rq_now rq) i))"

definition revoke_api_key_handler :: "auth_env \<Rightarrow> request_info \<Rightarrow> int \<Rightarrow> (api_error, unit) db_act" where
  "revoke_api_key_handler env rq i =
     and_then (api_super env rq) (\<lambda>c.
     and_then (err_as Internal (revoke_api_key i)) (\<lambda>_. noted rq c ''revoke_api_key'' (tagged ''key'' i) None))"

section \<open>The dashboard: users\<close>

definition not_found_user :: "int \<Rightarrow> dashboard_error" where
  "not_found_user i = DashNotFound (''user '' @ show_int i @ '' not found'')"

definition shown_user :: "int \<Rightarrow> (dashboard_error, user) db_act" where
  "shown_user i = and_then (err_as DashInternal (find_user_by_id i)) (\<lambda>u. need (not_found_user i) u)"

definition post_disable_user :: "auth_env \<Rightarrow> request_info \<Rightarrow> int \<Rightarrow> (dashboard_error, user) db_act" where
  "post_disable_user env rq i =
     and_then (dash_super env rq) (\<lambda>c.
     and_then (err_as DashInternal (set_user_enabled i False)) (\<lambda>_.
     and_then (err_as DashInternal (disable_all_keys_for_user i)) (\<lambda>_.
     and_then (noted rq c ''user.disable'' (tagged ''user'' i) (Some (ae_json env (jobj [(''enabled'', JBool False)])))) (\<lambda>_.
       shown_user i))))"

definition post_enable_user :: "auth_env \<Rightarrow> request_info \<Rightarrow> int \<Rightarrow> (dashboard_error, user) db_act" where
  "post_enable_user env rq i =
     and_then (dash_super env rq) (\<lambda>c.
     and_then (err_as DashInternal (set_user_enabled i True)) (\<lambda>_.
     and_then (noted rq c ''user.enable'' (tagged ''user'' i) (Some (ae_json env (jobj [(''enabled'', JBool True)])))) (\<lambda>_.
       shown_user i)))"

definition post_create_user :: "auth_env \<Rightarrow> request_info \<Rightarrow> string \<Rightarrow> (dashboard_error, user) db_act" where
  "post_create_user env rq n0 =
     and_then (dash_super env rq) (\<lambda>c.
       let n = trim n0
       in and_then (require (DashBadRequest ''name is required'') (n \<noteq> [])) (\<lambda>_.
          and_then (err_as DashInternal (create_user_db (rq_now rq) n None)) (\<lambda>u.
          and_then (noted rq c ''user.create'' (tagged ''user'' (user_id u))
                     (Some (ae_json env (jobj [(''name'', JStr (user_name u))])))) (\<lambda>_. give u))))"

definition post_generate_user_key ::
  "auth_env \<Rightarrow> request_info \<Rightarrow> string \<Rightarrow> int \<Rightarrow> (dashboard_error, user \<times> string) db_act" where
  "post_generate_user_key env rq uuid i =
     and_then (dash_super env rq) (\<lambda>c.
     and_then (shown_user i) (\<lambda>u.
     and_then (err_as DashInternal (create_api_key (rq_now rq)
                \<lparr>nk_user_id = i, nk_hash = ae_hash env (raw_key uuid), nk_label = None, nk_expires_at = None,
                 nk_project = None, nk_session_window = None\<rparr>)) (\<lambda>k.
     and_then (noted rq c ''generate_api_key'' (tagged ''user'' i) (Some (''key_id:'' @ show_int (ak_id k)))) (\<lambda>_.
       give (u, raw_key uuid)))))"

section \<open>The dashboard: keys\<close>

definition blank_to_none :: "string \<Rightarrow> string option" where
  "blank_to_none s = (let t = trim s in if t = [] then None else Some t)"

record create_key_form =
  cf_user_name :: string
  cf_project :: string
  cf_label :: string
  cf_email :: "string option"
  cf_session_window :: "int option"

text \<open>The user of the form, created when there is none; a creation lost to another one is read again.\<close>

definition form_user :: "string \<Rightarrow> string \<Rightarrow> string option \<Rightarrow> (dashboard_error, user) db_act" where
  "form_user now n mail =
     and_then (err_as DashInternal (find_user_by_name n)) (\<lambda>found.
       case found of
         Some u \<Rightarrow> give u
       | None \<Rightarrow>
           (\<lambda>d. case create_user_db now n mail d of
                  (Inr u, d) \<Rightarrow> (Inr u, d)
                | (Inl _, d) \<Rightarrow> and_then (err_as DashInternal (find_user_by_name n)) (need DashInternal) d))"

datatype key_reply = KeyExists api_key | KeyMade user api_key string

definition post_create_key ::
  "auth_env \<Rightarrow> request_info \<Rightarrow> string \<Rightarrow> create_key_form \<Rightarrow> (dashboard_error, key_reply) db_act" where
  "post_create_key env rq uuid f =
     and_then (dash_super env rq) (\<lambda>c.
     and_then (require (DashBadRequest ''user_name is required'') (trim (cf_user_name f) \<noteq> [])) (\<lambda>_.
     and_then (form_user (rq_now rq) (trim (cf_user_name f)) (Option.bind (cf_email f) blank_to_none)) (\<lambda>u.
       let label = blank_to_none (cf_label f); project = blank_to_none (cf_project f)
       in and_then (err_as DashInternal (find_key_by_user_project (user_id u) project)) (\<lambda>old.
          case old of
            Some k \<Rightarrow> give (KeyExists k)
          | None \<Rightarrow>
              and_then (err_as DashInternal (create_api_key (rq_now rq)
                          \<lparr>nk_user_id = user_id u, nk_hash = ae_hash env (raw_key uuid), nk_label = label,
                           nk_expires_at = None, nk_project = project, nk_session_window = cf_session_window f\<rparr>)) (\<lambda>k.
              and_then (noted rq c ''key.create'' (tagged ''key'' (ak_id k))
                         (Some (ae_json env (jobj [(''user_id'', jint (user_id u)), (''project'', opt_str_json project),
                                                   (''label'', opt_str_json label)])))) (\<lambda>_.
                give (KeyMade u k (raw_key uuid))))))))"

definition find_key :: "int \<Rightarrow> (dashboard_error, api_key) db_act" where
  "find_key i =
     and_then (err_as DashInternal list_all_api_keys) (\<lambda>ks.
       need (DashNotFound (''key '' @ show_int i @ '' not found'')) (find (\<lambda>k. ak_id k = i) ks))"

text \<open>The rows of a group and the names to show with them: the live key heads it, the others follow.\<close>

definition key_group_view :: "api_key list \<Rightarrow> api_key option \<times> api_key list" where
  "key_group_view ks = (find ak_enabled ks, filter (\<lambda>k. \<not> ak_enabled k) ks)"

definition render_group ::
  "int \<Rightarrow> string option \<Rightarrow> (dashboard_error, api_key option \<times> api_key list) db_act" where
  "render_group i project =
     and_then (err_as DashInternal (list_keys_for_group i project)) (\<lambda>ks.
       if ks = [] then give (None, [])
       else and_then (err_as DashInternal list_users_db) (\<lambda>_. give (key_group_view ks)))"

definition post_disable_key ::
  "auth_env \<Rightarrow> request_info \<Rightarrow> int \<Rightarrow> (dashboard_error, api_key option \<times> api_key list) db_act" where
  "post_disable_key env rq i =
     and_then (dash_super env rq) (\<lambda>c.
     and_then (find_key i) (\<lambda>k.
     and_then (err_as DashInternal (disable_key (rq_now rq) i)) (\<lambda>_.
     and_then (noted rq c ''key.disable'' (tagged ''key'' i) (Some (ae_json env (jobj [(''enabled'', JBool False)])))) (\<lambda>_.
       render_group (ak_user_id k) (ak_project k)))))"

fun disable_keys :: "string \<Rightarrow> api_key list \<Rightarrow> (dashboard_error, unit) db_act" where
  "disable_keys now [] = give ()"
| "disable_keys now (k # ks) =
     and_then (err_as DashInternal (disable_key now (ak_id k))) (\<lambda>_. disable_keys now ks)"

definition post_rotate_key ::
  "auth_env \<Rightarrow> request_info \<Rightarrow> string \<Rightarrow> int \<Rightarrow> (dashboard_error, (api_key option \<times> api_key list) \<times> string) db_act" where
  "post_rotate_key env rq uuid i =
     and_then (dash_super env rq) (\<lambda>c.
     and_then (find_key i) (\<lambda>k.
     and_then (err_as DashInternal (list_keys_for_group (ak_user_id k) (ak_project k))) (\<lambda>ks.
     and_then (disable_keys (rq_now rq) (filter ak_enabled ks)) (\<lambda>_.
     and_then (err_as DashInternal (create_api_key (rq_now rq)
                \<lparr>nk_user_id = ak_user_id k, nk_hash = ae_hash env (raw_key uuid), nk_label = ak_label k,
                 nk_expires_at = None, nk_project = ak_project k, nk_session_window = ak_session_window k\<rparr>)) (\<lambda>made.
     and_then (noted rq c ''key.rotate'' (tagged ''key'' (ak_id made))
                (Some (ae_json env (jobj [(''user_id'', jint (ak_user_id k)), (''replaced_key_id'', jint i)])))) (\<lambda>_.
     and_then (err_as DashInternal (list_keys_for_group (ak_user_id k) (ak_project k))) (\<lambda>ks.
     and_then (err_as DashInternal list_users_db) (\<lambda>_.
       give (key_group_view ks, raw_key uuid)))))))))"

section \<open>The dashboard: administrators\<close>

definition get_admins :: "auth_env \<Rightarrow> request_info \<Rightarrow> (dashboard_error, admin_user list \<times> int) db_act" where
  "get_admins env rq =
     and_then (dash_super env rq) (\<lambda>c.
     and_then (err_as DashInternal list_admins_db) (\<lambda>xs. give (xs, ac_sub c)))"

definition post_create_admin ::
  "auth_env \<Rightarrow> request_info \<Rightarrow> string \<Rightarrow> string \<Rightarrow> string option \<Rightarrow> (dashboard_error, admin_user) db_act" where
  "post_create_admin env rq n password role =
     and_then (dash_super env rq) (\<lambda>c.
     and_then (need DashInternal (ae_hash_password env password)) (\<lambda>h.
     and_then (err_as DashInternal
                (create_admin_db (rq_now rq) n h (case role of None \<Rightarrow> ''viewer'' | Some r \<Rightarrow> r))) (\<lambda>a.
     and_then (noted rq c ''admin.create'' (tagged ''admin'' (ad_id a))
                (Some (ae_json env (jobj [(''id'', jint (ad_id a)), (''name'', JStr (ad_name a))])))) (\<lambda>_. give a))))"

text \<open>\<open>False\<close>: refused, administrators do not delete themselves.\<close>

definition post_delete_admin :: "auth_env \<Rightarrow> request_info \<Rightarrow> int \<Rightarrow> (dashboard_error, bool) db_act" where
  "post_delete_admin env rq i =
     and_then (dash_super env rq) (\<lambda>c.
       if i = ac_sub c then give False
       else and_then (err_as DashInternal (delete_admin_db i)) (\<lambda>_.
            and_then (noted rq c ''admin.delete'' (tagged ''admin'' i) None) (\<lambda>_. give True)))"

section \<open>The dashboard: groups\<close>

type_synonym group_card = "group_row \<times> (member_row \<times> string) list \<times> user list"

definition group_missing :: "int \<Rightarrow> dashboard_error" where
  "group_missing i = DashNotFound (''group '' @ show_int i)"

definition fetch_card_parts :: "int \<Rightarrow> (dashboard_error, group_card) db_act" where
  "fetch_card_parts i =
     and_then (err_as DashInternal (get_group i)) (\<lambda>g0.
     and_then (need (group_missing i) g0) (\<lambda>g.
     and_then (err_as DashInternal (list_memberships i)) (\<lambda>ms.
     and_then (err_as DashInternal list_users_db) (\<lambda>us. give (g, ms, us)))))"

text \<open>Who can still be added: enabled users without a live membership.\<close>

definition addable :: "group_card \<Rightarrow> user list" where
  "addable parts =
     (case parts of (g, ms, us) \<Rightarrow>
        filter (\<lambda>u. enabled u \<and> user_id u \<notin> set (map (\<lambda>(m, _). mb_user_id m) (filter (\<lambda>(m, _). mb_disabled_at m = None) ms))) us)"

fun cards :: "group_row list \<Rightarrow> user list \<Rightarrow> (dashboard_error, group_card list) db_act" where
  "cards [] us = give []"
| "cards (g # gs) us =
     and_then (err_as DashInternal (list_memberships (gr_id g))) (\<lambda>ms.
     and_then (cards gs us) (\<lambda>cs. give ((g, ms, us) # cs)))"

definition get_groups :: "auth_env \<Rightarrow> request_info \<Rightarrow> (dashboard_error, group_card list) db_act" where
  "get_groups env rq =
     and_then (dash_admin env rq) (\<lambda>_.
     and_then (err_as DashInternal list_groups) (\<lambda>gs.
     and_then (err_as DashInternal list_users_db) (\<lambda>us. cards gs us)))"

datatype group_reply = GroupNameTaken string | GroupMade group_card

definition post_create_group ::
  "auth_env \<Rightarrow> request_info \<Rightarrow> string \<Rightarrow> int option \<Rightarrow> (dashboard_error, group_reply) db_act" where
  "post_create_group env rq n0 pri =
     and_then (dash_super env rq) (\<lambda>c.
       let n = trim n0
       in and_then (require (DashBadRequest ''name is required'') (n \<noteq> [])) (\<lambda>_.
          and_then (err_as DashInternal (find_group_by_name n)) (\<lambda>old.
          if old \<noteq> None then give (GroupNameTaken n)
          else and_then (err_as DashInternal (create_group (rq_now rq) n (case pri of None \<Rightarrow> 0 | Some p \<Rightarrow> p))) (\<lambda>g.
               and_then (noted rq c ''group.create'' (tagged ''group'' (gr_id g))
                  (Some (ae_json env (jobj [(''name'', JStr (gr_name g)), (''priority'', jint (gr_priority g))])))) (\<lambda>_.
               and_then (err_as DashInternal list_users_db) (\<lambda>us. give (GroupMade (g, [], us))))))))"

definition switch_group ::
  "auth_env \<Rightarrow> request_info \<Rightarrow> int \<Rightarrow> bool \<Rightarrow> (dashboard_error, group_card) db_act" where
  "switch_group env rq i b =
     and_then (dash_super env rq) (\<lambda>c.
     and_then (err_as DashInternal (set_group_enabled (rq_now rq) i b)) (\<lambda>_.
     and_then (noted rq c (if b then ''group.enable'' else ''group.disable'') (tagged ''group'' i)
                (Some (if b then [CHR ''{'', CHR 0x22] @ ''enabled'' @ [CHR 0x22] @ '':true}''
                       else [CHR ''{'', CHR 0x22] @ ''enabled'' @ [CHR 0x22] @ '':false}''))) (\<lambda>_.
       fetch_card_parts i)))"

definition post_enable_group :: "auth_env \<Rightarrow> request_info \<Rightarrow> int \<Rightarrow> (dashboard_error, group_card) db_act" where
  "post_enable_group env rq i = switch_group env rq i True"

definition post_disable_group :: "auth_env \<Rightarrow> request_info \<Rightarrow> int \<Rightarrow> (dashboard_error, group_card) db_act" where
  "post_disable_group env rq i = switch_group env rq i False"

definition member_target :: "int \<Rightarrow> int \<Rightarrow> string" where
  "member_target g u = tagged ''group'' g @ '' '' @ tagged ''user'' u"

definition post_add_member :: "auth_env \<Rightarrow> request_info \<Rightarrow> int \<Rightarrow> int \<Rightarrow> (dashboard_error, group_card) db_act" where
  "post_add_member env rq i u =
     and_then (dash_super env rq) (\<lambda>c.
     and_then (err_as DashInternal (get_group i)) (\<lambda>g0.
     and_then (need (group_missing i) g0) (\<lambda>g.
     and_then (require (DashBadRequest ''cannot add members to a disabled group'') (gr_enabled g)) (\<lambda>_.
     and_then (err_as DashInternal (find_active_membership i u)) (\<lambda>old.
     and_then (require (DashBadRequest ''user is already an active member'') (old = None)) (\<lambda>_.
     and_then (err_as DashInternal (add_member (rq_now rq) i u)) (\<lambda>m.
     and_then (noted rq c ''group.member.add'' (member_target i u)
                (Some (ae_json env (jobj [(''membership_id'', jint (mb_id m))])))) (\<lambda>_.
       fetch_card_parts i))))))))"

definition post_disable_member :: "auth_env \<Rightarrow> request_info \<Rightarrow> int \<Rightarrow> int \<Rightarrow> (dashboard_error, group_card) db_act" where
  "post_disable_member env rq i u =
     and_then (dash_super env rq) (\<lambda>c.
     and_then (err_as DashInternal (find_active_membership i u)) (\<lambda>m0.
     and_then (need (DashNotFound ''active membership'') m0) (\<lambda>(m, _).
     and_then (err_as DashInternal (disable_membership (rq_now rq) (mb_id m))) (\<lambda>_.
     and_then (noted rq c ''group.member.disable'' (member_target i u)
                (Some (ae_json env (jobj [(''membership_id'', jint (mb_id m))])))) (\<lambda>_.
       fetch_card_parts i)))))"

definition post_set_group_priority :: "auth_env \<Rightarrow> request_info \<Rightarrow> int \<Rightarrow> int \<Rightarrow> (dashboard_error, group_card) db_act" where
  "post_set_group_priority env rq i pri =
     and_then (dash_super env rq) (\<lambda>_.
     and_then (err_as DashInternal (set_group_priority i pri)) (\<lambda>_. fetch_card_parts i))"

section \<open>The dashboard: budgets\<close>

text \<open>\<open>parse_f64\<close> and \<open>is_date\<close> (chrono's \<open>%Y-%m-%d\<close>) belong to the libraries.\<close>

record budget_form =
  bf_scope :: string
  bf_project :: "string option"
  bf_user_id :: "int option"
  bf_group_name :: "string option"
  bf_window :: string
  bf_limit_usd :: "string option"
  bf_limit_tokens :: "string option"
  bf_rate_rpm :: "string option"
  bf_max_concurrent :: "string option"
  bf_window_start :: "string option"
  bf_window_end :: "string option"
  bf_model_allow :: "string option"
  bf_model_deny :: "string option"

definition nonempty :: "string option \<Rightarrow> string option" where
  "nonempty x = (case x of Some (c # s) \<Rightarrow> Some (c # s) | _ \<Rightarrow> None)"

definition parse_opt_f64 :: "(string \<Rightarrow> rat option) \<Rightarrow> string option \<Rightarrow> rat option" where
  "parse_opt_f64 parse_f64 s = Option.bind (nonempty s) parse_f64"

definition parse_opt_i64 :: "string option \<Rightarrow> int option" where
  "parse_opt_i64 s = Option.bind (nonempty s) parse_i64"

definition date_ok :: "(string \<Rightarrow> bool) \<Rightarrow> string option \<Rightarrow> bool" where
  "date_ok is_date x = (case nonempty x of None \<Rightarrow> True | Some s \<Rightarrow> is_date s)"

datatype form_alert = LimitRequired | DateFormat | DateOrder | TargetOnlyForGroups | InvalidScope

definition validate_budget_form_constraints :: "(string \<Rightarrow> bool) \<Rightarrow> budget_form \<Rightarrow> form_alert + unit" where
  "validate_budget_form_constraints is_date f =
     (if bf_window f = ''total'' \<and> \<not> (date_ok is_date (bf_window_start f) \<and> date_ok is_date (bf_window_end f)) then Inl DateFormat
      else if bf_window f = ''total''
           \<and> (case (nonempty (bf_window_start f), nonempty (bf_window_end f)) of (Some s, Some e) \<Rightarrow> s \<ge> e | _ \<Rightarrow> False)
      then Inl DateOrder
      else if bf_window f = ''target'' \<and> bf_scope f \<noteq> ''group'' then Inl TargetOnlyForGroups
      else Inr ())"

definition form_scope :: "budget_form \<Rightarrow> budget_scope option" where
  "form_scope f =
     (if bf_scope f = ''global'' then Some GlobalScope
      else if bf_scope f = ''project'' then Some (ProjectScope (case bf_project f of Some p \<Rightarrow> p | None \<Rightarrow> []))
      else if bf_scope f = ''user'' then Some (UserScope (case bf_user_id f of Some i \<Rightarrow> i | None \<Rightarrow> 0))
      else if bf_scope f = ''group'' then Some (GroupScope (case bf_group_name f of Some g \<Rightarrow> g | None \<Rightarrow> []))
      else None)"

definition name_list :: "string option \<Rightarrow> string list" where
  "name_list x = filter (\<lambda>s. s \<noteq> []) (map trim (split_on CHR '','' (case x of Some s \<Rightarrow> s | None \<Rightarrow> [])))"

definition day_start :: "string option \<Rightarrow> string option" where
  "day_start x = map_option (\<lambda>s. s @ ''T00:00:00+00:00'') (nonempty x)"

definition day_end :: "string option \<Rightarrow> string option" where
  "day_end x = map_option (\<lambda>s. s @ ''T23:59:59+00:00'') (nonempty x)"

definition form_rule :: "auth_env \<Rightarrow> (string \<Rightarrow> rat option) \<Rightarrow> budget_form \<Rightarrow> budget_scope \<Rightarrow> budget_rule" where
  "form_rule env parse_f64 f s =
     \<lparr>br_id = 0,
      br_user_id = (case s of UserScope i \<Rightarrow> Some i | _ \<Rightarrow> None),
      br_group_name = (case s of GroupScope g \<Rightarrow> Some g | _ \<Rightarrow> None),
      br_api_key_id = None, br_tag = None, br_window = bf_window f,
      limit_usd = parse_opt_f64 parse_f64 (bf_limit_usd f), limit_tokens = parse_opt_i64 (bf_limit_tokens f),
      model_allow = names_json env (name_list (bf_model_allow f)), model_deny = names_json env (name_list (bf_model_deny f)),
      rate_rpm = parse_opt_i64 (bf_rate_rpm f), max_concurrent = parse_opt_i64 (bf_max_concurrent f),
      br_project = (case s of ProjectScope p \<Rightarrow> Some p | _ \<Rightarrow> None),
      window_start = day_start (bf_window_start f), window_end = day_end (bf_window_end f)\<rparr>"

text \<open>The card that is rendered again: the rules of the scope, and the user's name (which may fail to load).\<close>

definition render_scope_card :: "budget_scope \<Rightarrow> (dashboard_error, budget_rule list) db_act" where
  "render_scope_card s =
     and_then (err_as DashInternal (rules_in_scope s)) (\<lambda>rs.
       case s of UserScope i \<Rightarrow> (\<lambda>d. (Inr rs, snd (find_user_by_id i d))) | _ \<Rightarrow> give rs)"

datatype budget_reply = FormAlert form_alert | RuleExists "budget_rule list" | Card "budget_rule list"

definition post_create_budget ::
  "auth_env \<Rightarrow> (string \<Rightarrow> rat option) \<Rightarrow> (string \<Rightarrow> bool) \<Rightarrow> request_info \<Rightarrow> budget_form \<Rightarrow> (dashboard_error, budget_reply) db_act" where
  "post_create_budget env parse_f64 is_date rq f =
     and_then (dash_super env rq) (\<lambda>_.
       if parse_opt_f64 parse_f64 (bf_limit_usd f) = None \<and> parse_opt_i64 (bf_limit_tokens f) = None
       then give (FormAlert LimitRequired)
       else case validate_budget_form_constraints is_date f of
         Inl a \<Rightarrow> give (FormAlert a)
       | Inr _ \<Rightarrow>
           (case form_scope f of
              None \<Rightarrow> give (FormAlert InvalidScope)
            | Some s \<Rightarrow>
                and_then (err_as DashInternal (rules_in_scope s)) (\<lambda>existing.
                  if list_ex (\<lambda>r. br_window r = bf_window f) existing
                  then and_then (render_scope_card s) (\<lambda>rs. give (RuleExists rs))
                  else and_then (err_as DashInternal (create_rule (form_rule env parse_f64 f s))) (\<lambda>_.
                       and_then (render_scope_card s) (\<lambda>rs. give (Card rs))))))"

definition api_key_rule_msg :: string where
  "api_key_rule_msg =
     ''api_key-scoped budget rules cannot be edited via the admin UI '' @ [char_of (0xE2 :: nat), char_of (0x80 :: nat), char_of (0x94 :: nat)]
     @ '' use the CLI''"

definition scope_of_rule :: "budget_rule \<Rightarrow> dashboard_error + budget_scope" where
  "scope_of_rule r =
     (case br_user_id r of
        Some i \<Rightarrow> Inr (UserScope i)
      | None \<Rightarrow>
          (case br_group_name r of
             Some g \<Rightarrow> Inr (GroupScope g)
           | None \<Rightarrow>
               (case br_project r of
                  Some p \<Rightarrow> Inr (ProjectScope p)
                | None \<Rightarrow> if br_api_key_id r \<noteq> None then Inl (DashNotFound api_key_rule_msg) else Inr GlobalScope)))"

definition scope_for_rule_id :: "int \<Rightarrow> (dashboard_error, budget_scope) db_act" where
  "scope_for_rule_id i =
     and_then (err_as DashInternal all_rules) (\<lambda>rs.
     and_then (need (DashNotFound ''budget rule not found'') (find (\<lambda>r. br_id r = i) rs)) (\<lambda>r.
       from_sum (scope_of_rule r)))"

definition form_changes :: "(string \<Rightarrow> rat option) \<Rightarrow> budget_form \<Rightarrow> rule_changes" where
  "form_changes parse_f64 f =
     \<lparr>ch_limit_usd = parse_opt_f64 parse_f64 (bf_limit_usd f), ch_limit_tokens = parse_opt_i64 (bf_limit_tokens f),
      ch_model_allow = None, ch_model_deny = None, ch_rate_rpm = parse_opt_i64 (bf_rate_rpm f),
      ch_max_concurrent = parse_opt_i64 (bf_max_concurrent f), ch_window_start = day_start (bf_window_start f),
      ch_window_end = day_end (bf_window_end f)\<rparr>"

definition post_edit_budget ::
  "auth_env \<Rightarrow> (string \<Rightarrow> rat option) \<Rightarrow> request_info \<Rightarrow> int \<Rightarrow> budget_form \<Rightarrow> (dashboard_error, budget_rule list) db_act" where
  "post_edit_budget env parse_f64 rq i f =
     and_then (dash_super env rq) (\<lambda>_.
     and_then (err_as DashInternal (update_rule i (form_changes parse_f64 f))) (\<lambda>_.
     and_then (scope_for_rule_id i) (\<lambda>s. render_scope_card s)))"

definition post_delete_budget :: "auth_env \<Rightarrow> request_info \<Rightarrow> int \<Rightarrow> (dashboard_error, budget_rule list) db_act" where
  "post_delete_budget env rq i =
     and_then (dash_super env rq) (\<lambda>_.
     and_then (scope_for_rule_id i) (\<lambda>s.
     and_then (err_as DashInternal (delete_rule i)) (\<lambda>_. render_scope_card s)))"

section \<open>The command line: administrators\<close>

definition cli_audit :: "auth_env \<Rightarrow> string \<Rightarrow> string \<Rightarrow> int \<Rightarrow> json \<Rightarrow> ('e, unit) db_act" where
  "cli_audit env now action i after d =
     (Inr (), note_audit now
        \<lparr>au_actor_id = None, au_actor_name = ''cli'', au_action = action, au_target = Some (tagged ''admin'' i),
         au_before = None, au_after = Some (ae_json env after)\<rparr> d)"

definition admin_missing :: "string \<Rightarrow> string" where
  "admin_missing n = ''admin user '' @ quoted n @ '' not found''"

definition cli_create_admin ::
  "auth_env \<Rightarrow> string \<Rightarrow> string \<Rightarrow> string \<Rightarrow> string \<Rightarrow> string \<Rightarrow> (string, admin_user) db_act" where
  "cli_create_admin env now n role password confirm =
     and_then (find_admin_by_name n) (\<lambda>old.
     and_then (require (''admin user '' @ quoted n @ '' already exists'') (old = None)) (\<lambda>_.
     and_then (require ''passwords do not match'' (password = confirm)) (\<lambda>_.
     and_then (need ''bcrypt error'' (ae_hash_password env password)) (\<lambda>h.
     and_then (create_admin_db now n h role) (\<lambda>a.
     and_then (cli_audit env now ''admin.create'' (ad_id a) (jobj [(''name'', JStr (ad_name a)), (''role'', JStr (ad_role a))])) (\<lambda>_.
       give a))))))"

definition cli_reset_password :: "auth_env \<Rightarrow> string \<Rightarrow> string \<Rightarrow> string \<Rightarrow> (string, unit) db_act" where
  "cli_reset_password env now n password =
     and_then (find_admin_by_name n) (\<lambda>found.
     and_then (need (admin_missing n) found) (\<lambda>a.
     and_then (need ''bcrypt error'' (ae_hash_password env password)) (\<lambda>h.
     and_then (update_password_hash (ad_id a) h) (\<lambda>_.
       cli_audit env now ''admin.reset_password'' (ad_id a) (jobj [(''name'', JStr (ad_name a))])))))"

definition cli_switch_admin :: "auth_env \<Rightarrow> string \<Rightarrow> string \<Rightarrow> bool \<Rightarrow> (string, unit) db_act" where
  "cli_switch_admin env now n b =
     and_then (find_admin_by_name n) (\<lambda>found.
     and_then (need (admin_missing n) found) (\<lambda>a.
     and_then (set_admin_enabled (ad_id a) b) (\<lambda>_.
       cli_audit env now (if b then ''admin.enable'' else ''admin.disable'') (ad_id a)
         (jobj [(''name'', JStr (ad_name a)), (''enabled'', JBool b)]))))"

end
