(* ===== verification/Access_Histories.thy ===== *)
theory Access_Histories
  imports Access_Admin
begin

text \<open>
  Everything that can happen to the access tables, as one type of events, and the locale in which a relation
  between states is shown once for every handler from its laws for the statements the handlers are made of.
\<close>

section \<open>The calls of an administrator\<close>

record admin_libs =
  lb_print_rule :: "budget_rule \<Rightarrow> string"
  lb_parse_f64 :: "string \<Rightarrow> rat option"
  lb_is_date :: "string \<Rightarrow> bool"

datatype admin_call =
    ApiCreateUser string
  | ApiUpdateUser int "bool option"
  | ApiCreateBudget create_budget_body
  | ApiDeleteBudget int
  | ApiCreateAdmin string string "string option"
  | ApiCreateKey string int "string option" "string option" "int option"
  | ApiResetSpend int
  | ApiRevokeKey int
  | DashDisableUser int
  | DashEnableUser int
  | DashCreateUser string
  | DashGenerateKey string int
  | DashCreateKey string create_key_form
  | DashDisableKey int
  | DashRotateKey string int
  | DashCreateAdmin string string "string option"
  | DashDeleteAdmin int
  | DashCreateGroup string "int option"
  | DashEnableGroup int
  | DashDisableGroup int
  | DashAddMember int int
  | DashDisableMember int int
  | DashGroupPriority int int
  | DashCreateBudget budget_form
  | DashEditBudget int budget_form
  | DashDeleteBudget int

text \<open>The state after a call, whatever its answer.\<close>

fun perform :: "auth_env \<Rightarrow> admin_libs \<Rightarrow> request_info \<Rightarrow> admin_call \<Rightarrow> access_db \<Rightarrow> access_db" where
  "perform env L rq (ApiCreateUser n) d = snd (create_user env rq n d)"
| "perform env L rq (ApiUpdateUser i b) d = snd (update_user env rq i b d)"
| "perform env L rq (ApiCreateBudget b) d = snd (create_budget env (lb_print_rule L) rq b d)"
| "perform env L rq (ApiDeleteBudget i) d = snd (delete_budget env rq i d)"
| "perform env L rq (ApiCreateAdmin n pw r) d = snd (create_admin env rq n pw r d)"
| "perform env L rq (ApiCreateKey uuid i l p w) d = snd (create_user_api_key env rq uuid i l p w d)"
| "perform env L rq (ApiResetSpend i) d = snd (reset_user_spend env rq i d)"
| "perform env L rq (ApiRevokeKey i) d = snd (revoke_api_key_handler env rq i d)"
| "perform env L rq (DashDisableUser i) d = snd (post_disable_user env rq i d)"
| "perform env L rq (DashEnableUser i) d = snd (post_enable_user env rq i d)"
| "perform env L rq (DashCreateUser n) d = snd (post_create_user env rq n d)"
| "perform env L rq (DashGenerateKey uuid i) d = snd (post_generate_user_key env rq uuid i d)"
| "perform env L rq (DashCreateKey uuid f) d = snd (post_create_key env rq uuid f d)"
| "perform env L rq (DashDisableKey i) d = snd (post_disable_key env rq i d)"
| "perform env L rq (DashRotateKey uuid i) d = snd (post_rotate_key env rq uuid i d)"
| "perform env L rq (DashCreateAdmin n pw r) d = snd (post_create_admin env rq n pw r d)"
| "perform env L rq (DashDeleteAdmin i) d = snd (post_delete_admin env rq i d)"
| "perform env L rq (DashCreateGroup n p) d = snd (post_create_group env rq n p d)"
| "perform env L rq (DashEnableGroup i) d = snd (post_enable_group env rq i d)"
| "perform env L rq (DashDisableGroup i) d = snd (post_disable_group env rq i d)"
| "perform env L rq (DashAddMember i u) d = snd (post_add_member env rq i u d)"
| "perform env L rq (DashDisableMember i u) d = snd (post_disable_member env rq i u d)"
| "perform env L rq (DashGroupPriority i p) d = snd (post_set_group_priority env rq i p d)"
| "perform env L rq (DashCreateBudget f) d = snd (post_create_budget env (lb_parse_f64 L) (lb_is_date L) rq f d)"
| "perform env L rq (DashEditBudget i f) d = snd (post_edit_budget env (lb_parse_f64 L) rq i f d)"
| "perform env L rq (DashDeleteBudget i) d = snd (post_delete_budget env rq i d)"

section \<open>Everything else\<close>

datatype access_event =
    AdminCall request_info admin_call
  | KeyPresented headers string
  | PasswordLogin int string string string
  | DashboardLogin int string string string
  | OidcLogin oidc_config int string id_claims
  | Bootstrap string admin_bootstrap
  | CliCreateAdmin string string string string string
  | CliResetPassword string string string
  | CliSwitchAdmin string string bool

fun happen :: "auth_env \<Rightarrow> admin_libs \<Rightarrow> access_event \<Rightarrow> access_db \<Rightarrow> access_db" where
  "happen env L (AdminCall rq c) d = perform env L rq c d"
| "happen env L (KeyPresented hs now) d = snd (authenticated_user env hs now d)"
| "happen env L (PasswordLogin secs now n pw) d = snd (admin_login env secs now n pw d)"
| "happen env L (DashboardLogin secs now n pw) d = snd (post_login env secs now n pw d)"
| "happen env L (OidcLogin cfg secs now c) d = snd (oidc_session env cfg secs now c d)"
| "happen env L (Bootstrap now b) d = snd (bootstrap_apply env now b d)"
| "happen env L (CliCreateAdmin now n role pw pw2) d = snd (cli_create_admin env now n role pw pw2 d)"
| "happen env L (CliResetPassword now n pw) d = snd (cli_reset_password env now n pw d)"
| "happen env L (CliSwitchAdmin now n b) d = snd (cli_switch_admin env now n b d)"

definition access_history :: "auth_env \<Rightarrow> admin_libs \<Rightarrow> access_event list \<Rightarrow> access_db \<Rightarrow> access_db" where
  "access_history env L evs d = foldl (\<lambda>d e. happen env L e d) d evs"

text \<open>The roles an event may give: those it names, which only some events check.\<close>

fun roles_named :: "access_event \<Rightarrow> string set" where
  "roles_named (AdminCall rq (DashCreateAdmin n pw (Some r))) = {r}"
| "roles_named (OidcLogin cfg secs now c) = {oc_auto_role cfg}"
| "roles_named (CliCreateAdmin now n role pw pw2) = {role}"
| "roles_named e = {}"

section \<open>Relations every statement keeps\<close>

named_theorems keeps \<open>actions that keep a relation between the state before and after\<close>

text \<open>
  \<open>R before after\<close> is a relation the statements keep; \<open>fine\<close> the roles for which inserting an administrator
  keeps it. Adding a member is left to the two locales below.
\<close>

locale kept_steps =
  fixes R :: "access_db \<Rightarrow> access_db \<Rightarrow> bool"
    and fine :: "string \<Rightarrow> bool"
  assumes same: "R d d"
    and trans: "R d d' \<Longrightarrow> R d' d'' \<Longrightarrow> R d d''"
    and faults: "R d (d\<lparr>ax_faults := bs\<rparr>)"
    and vocabulary: "role \<in> set admin_role_vocabulary \<Longrightarrow> fine role"
    and insert_user: "user_named who d = None \<Longrightarrow>
        R d (d\<lparr>ax_users := ax_users d @ [fresh_user now who mail d], ax_last_user := ax_last_user d + 1\<rparr>)"
    and user_enabled: "R d (on_users (\<lambda>u. u\<lparr>enabled := flag\<rparr>) i d)"
    and user_reset: "R d (on_users (\<lambda>u. u\<lparr>spend_reset_at := Some now\<rparr>) i d)"
    and insert_key: "key_fits n d \<Longrightarrow> R d (d\<lparr>ax_keys := ax_keys d @ [fresh_key now n d], ax_last_key := ax_last_key d + 1\<rparr>)"
    and key_off: "R d (on_keys (\<lambda>k. k\<lparr>ak_enabled := False\<rparr>) sel d)"
    and key_disabled: "R d (on_keys (\<lambda>k. k\<lparr>ak_enabled := False, ak_disabled_at := Some now\<rparr>) sel d)"
    and insert_admin_row: "fine (ad_role a) \<Longrightarrow> ad_id a = ax_last_admin d + 1 \<Longrightarrow> admin_named (ad_name a) d = None \<Longrightarrow>
        (\<forall>s. ad_oidc_subject a = Some s \<longrightarrow> admin_with_subject s d = None) \<Longrightarrow>
        R d (d\<lparr>ax_admins := ax_admins d @ [a], ax_last_admin := ax_last_admin d + 1\<rparr>)"
    and admin_switched: "R d (on_admins (\<lambda>a. a\<lparr>ad_enabled := flag\<rparr>) i d)"
    and admin_logged_in: "R d (on_admins (\<lambda>a. a\<lparr>ad_last_login := Some now\<rparr>) i d)"
    and admin_password: "R d (on_admins (\<lambda>a. a\<lparr>ad_password_hash := h\<rparr>) i d)"
    and admin_deleted: "R d (d\<lparr>ax_admins := filter (\<lambda>a. ad_id a \<noteq> i) (ax_admins d)\<rparr>)"
    and insert_group: "gr_id g = ax_last_group d + 1 \<Longrightarrow> gr_enabled g \<Longrightarrow> group_named (gr_name g) d = None \<Longrightarrow>
        R d (d\<lparr>ax_groups := ax_groups d @ [g], ax_last_group := ax_last_group d + 1\<rparr>)"
    and switched: "R d (group_switched now i flag d)"
    and prioritised: "R d (d\<lparr>ax_groups := map (\<lambda>g. if gr_id g = i then g\<lparr>gr_priority := pri\<rparr> else g) (ax_groups d)\<rparr>)"
    and leave: "R d (d\<lparr>ax_members := map (\<lambda>m. if mb_id m = i \<and> mb_disabled_at m = None then m\<lparr>mb_disabled_at := Some now\<rparr> else m)
                                   (ax_members d)\<rparr>)"
    and insert_rule: "rule_fits r d \<Longrightarrow> R d (d\<lparr>ax_rules := ax_rules d @ [r], ax_last_rule := ax_last_rule d + 1\<rparr>)"
    and rule_deleted: "R d (d\<lparr>ax_rules := filter (\<lambda>r. br_id r \<noteq> i) (ax_rules d)\<rparr>)"
    and rule_edited: "R d (d\<lparr>ax_rules := map (\<lambda>r. if br_id r = i then changed_rule ch r else r) (ax_rules d)\<rparr>)"
    and insert_audit: "R d (d\<lparr>ax_audit := ax_audit d @ [e], ax_last_audit := ax_last_audit d + 1\<rparr>)"
begin

definition safe :: "('e, 'a) db_act \<Rightarrow> bool" where
  "safe m \<longleftrightarrow> (\<forall>d. R d (snd (m d)))"

lemma safeI: "(\<And>d. R d (snd (m d))) \<Longrightarrow> safe m"
  by (simp add: safe_def)

lemma safeD: "safe m \<Longrightarrow> R d (snd (m d))"
  by (simp add: safe_def)

lemma safe_and_then [keeps]: "safe m \<Longrightarrow> (\<And>x. safe (f x)) \<Longrightarrow> safe (and_then m f)"
  by (auto simp: safe_def and_then_def split: prod.splits sum.splits) (metis snd_conv trans)+

lemma safe_plain [keeps]: "safe (give x)" "safe (reject e)" "safe (from_sum r)"
  by (simp_all add: safe_def give_def reject_def from_sum_def same)

lemma safe_need [keeps]: "safe (need e x)"
  by (cases x) (simp_all add: need_def safe_plain)

lemma safe_require [keeps]: "safe (require e b)"
  by (simp add: require_def safe_plain)

lemma safe_err_as [keeps]: "safe m \<Longrightarrow> safe (err_as e m)"
  by (auto simp: safe_def err_as_def split: prod.splits sum.splits) (metis snd_conv)+

lemma safe_stmt: "R d (snd (stmt d))"
  by (auto simp: stmt_def same faults split: list.splits)

lemma safe_fetch [keeps]: "safe (fetch f)"
  using safe_stmt by (auto simp: safe_def fetch_def split: prod.splits) (metis snd_conv)

text \<open>A statement leaves the tables alone, so a row made from the state before an insertion still fits.\<close>

lemma stmt_shape: "stmt d = (bad, d1) \<Longrightarrow> \<exists>bs. d1 = d\<lparr>ax_faults := bs\<rparr>"
  by (cases d) (auto simp: stmt_def split: list.splits)

lemma write_keeps:
  assumes "\<And>bs. ok (d\<lparr>ax_faults := bs\<rparr>) \<Longrightarrow> R (d\<lparr>ax_faults := bs\<rparr>) (f (d\<lparr>ax_faults := bs\<rparr>))"
  shows "R d (snd (write_if ok f d))"
proof -
  obtain bad d1 where s: "stmt d = (bad, d1)" by fastforce
  then obtain bs where d1: "d1 = d\<lparr>ax_faults := bs\<rparr>" using stmt_shape by blast
  then have "R d d1" by (simp add: faults)
  with assms [of bs] trans show ?thesis by (auto simp: write_if_def s d1)
qed

lemma safe_write_if: "(\<And>d. ok d \<Longrightarrow> R d (f d)) \<Longrightarrow> safe (write_if ok f)"
  by (auto intro!: safeI write_keeps)

lemma then_keeps: "R d (snd (m d)) \<Longrightarrow> (\<And>x. safe (f x)) \<Longrightarrow> R d (snd (and_then m f d))"
  by (auto simp: safe_def and_then_def split: prod.splits sum.splits) (metis snd_conv trans)

section \<open>The repositories\<close>

lemma safe_reads [keeps]:
  "safe (find_user_by_name n)" "safe (find_user_by_id i)" "safe list_users_db" "safe (find_api_key_by_hash h)"
  "safe (list_api_keys_for_user i)" "safe list_all_api_keys" "safe (find_key_by_user_project i p)"
  "safe (list_keys_for_group i p)" "safe (find_admin_by_name n)" "safe (find_admin_by_id i)" "safe list_admins_db"
  "safe (find_by_oidc_subject n)" "safe list_groups" "safe (get_group i)" "safe (find_group_by_name n)"
  "safe (list_memberships i)" "safe (find_active_membership i j)" "safe all_rules" "safe (rules_in_scope sc)"
  "safe (list_audit a b)"
  by (simp_all add: keeps find_user_by_name_def find_user_by_id_def list_users_db_def find_api_key_by_hash_def
        list_api_keys_for_user_def list_all_api_keys_def find_key_by_user_project_def list_keys_for_group_def
        find_admin_by_name_def find_admin_by_id_def list_admins_db_def find_by_oidc_subject_def list_groups_def
        get_group_def find_group_by_name_def list_memberships_def find_active_membership_def all_rules_def
        rules_in_scope_def list_audit_def)

lemma safe_updates [keeps]:
  "safe (set_user_enabled i b)" "safe (reset_spend now i)" "safe (revoke_api_key i)"
  "safe (disable_all_keys_for_user i)" "safe (disable_key now i)" "safe (set_admin_enabled i b)"
  "safe (delete_admin_db i)" "safe (update_last_login now i)" "safe (update_password_hash i h)"
  "safe (disable_membership now i)" "safe (set_group_priority i p)" "safe (delete_rule i)"
  by (auto intro!: safe_write_if user_enabled user_reset key_off key_disabled admin_switched admin_logged_in
        admin_password admin_deleted leave prioritised rule_deleted
        simp: set_user_enabled_def reset_spend_def revoke_api_key_def disable_all_keys_for_user_def disable_key_def
        set_admin_enabled_def delete_admin_db_def update_last_login_def update_password_hash_def
        disable_membership_def set_group_priority_def delete_rule_def)

lemma safe_create_user_db [keeps]: "safe (create_user_db now n mail)"
proof (rule safeI)
  fix d
  have "fresh_user now n mail d = fresh_user now n mail (d\<lparr>ax_faults := bs\<rparr>)" for bs by (simp add: fresh_user_def)
  then show "R d (snd (create_user_db now n mail d))"
    unfolding create_user_db_def Let_def
    using insert_user [of n "d\<lparr>ax_faults := _\<rparr>" now mail] by (intro then_keeps write_keeps keeps) simp
qed

lemma safe_create_api_key [keeps]: "safe (create_api_key now n)"
proof (rule safeI)
  fix d
  have "fresh_key now n d = fresh_key now n (d\<lparr>ax_faults := bs\<rparr>)" for bs by (simp add: fresh_key_def)
  then show "R d (snd (create_api_key now n d))"
    unfolding create_api_key_def Let_def
    using insert_key [of n "d\<lparr>ax_faults := _\<rparr>" now] by (intro then_keeps write_keeps keeps) simp
qed

lemma safe_insert_admin:
  assumes "\<And>d. fine (ad_role (mk d)) \<and> ad_id (mk d) = ax_last_admin d + 1" and "\<And>d bs. mk (d\<lparr>ax_faults := bs\<rparr>) = mk d"
    and "\<And>d. ok d \<Longrightarrow> admin_named (ad_name (mk d)) d = None
            \<and> (\<forall>s. ad_oidc_subject (mk d) = Some s \<longrightarrow> admin_with_subject s d = None)"
  shows "safe (insert_admin ok mk)"
proof (rule safeI)
  fix d
  have "R (d\<lparr>ax_faults := bs\<rparr>) ((d\<lparr>ax_faults := bs\<rparr>)\<lparr>ax_admins := ax_admins (d\<lparr>ax_faults := bs\<rparr>) @ [mk d],
          ax_last_admin := ax_last_admin (d\<lparr>ax_faults := bs\<rparr>) + 1\<rparr>)" if "ok (d\<lparr>ax_faults := bs\<rparr>)" for bs
    using assms(1) [of "d\<lparr>ax_faults := bs\<rparr>"] assms(3) [OF that]
    by (intro insert_admin_row) (simp_all add: assms(2))
  then show "R d (snd (insert_admin ok mk d))"
    unfolding insert_admin_def Let_def by (intro then_keeps write_keeps keeps) simp
qed

lemma safe_create_admin_db [keeps]: "fine role \<Longrightarrow> safe (create_admin_db now n h role)"
  unfolding create_admin_db_def by (rule safe_insert_admin) simp_all

lemma safe_create_from_oidc [keeps]: "fine role \<Longrightarrow> safe (create_from_oidc now n mail subject role)"
  unfolding create_from_oidc_def by (rule safe_insert_admin) simp_all

lemma safe_create_group [keeps]: "safe (create_group now n pri)"
proof (rule safeI)
  fix d
  show "R d (snd (create_group now n pri d))"
    unfolding create_group_def Let_def
    using insert_group [of _ "d\<lparr>ax_faults := _\<rparr>"] by (intro then_keeps write_keeps keeps) simp
qed

lemma stmts_tables: "R d (snd (stmts n d))"
proof (induction n arbitrary: d)
  case (Suc n)
  obtain bad d1 where s: "stmt d = (bad, d1)" by fastforce
  with safe_stmt [of d] have "R d d1" by simp
  with Suc [of d1] trans show ?case by (auto simp: s)
qed (simp add: same)

lemma safe_set_group_enabled [keeps]: "safe (set_group_enabled now i b)"
proof (rule safeI)
  fix d
  have r: "R d (snd (stmts (if b then 3 else 4) d))" by (rule stmts_tables)
  then show "R d (snd (set_group_enabled now i b d))"
    using trans [OF r switched] by (auto simp: set_group_enabled_def split: prod.splits)
qed

lemma safe_create_rule [keeps]: "safe (create_rule r)"
proof (rule safeI)
  fix d
  show "R d (snd (create_rule r d))"
    unfolding create_rule_def Let_def
    using insert_rule [of _ "d\<lparr>ax_faults := _\<rparr>"] by (intro then_keeps write_keeps keeps) simp
qed

lemma safe_update_rule [keeps]: "safe (update_rule i ch)"
  unfolding update_rule_def by (intro keeps safe_write_if rule_edited)

lemma safe_create_audit [keeps]: "safe (create_audit now e)"
proof (rule safeI)
  fix d
  show "R d (snd (create_audit now e d))"
    unfolding create_audit_def Let_def
    using insert_audit [of "d\<lparr>ax_faults := _\<rparr>"] by (intro then_keeps write_keeps keeps) simp
qed

lemma safe_notes [keeps]: "safe (noted rq c action tgt after)" "safe (cli_audit env now action i v)" "safe (note_login now i)"
  using safe_create_audit safe_updates(8) by (simp_all add: safe_def noted_def cli_audit_def note_audit_def note_login_def)

section \<open>The handlers\<close>

lemma safe_sessions [keeps]: "safe (api_admin env rq)" "safe (api_super env rq)" "safe (dash_admin env rq)" "safe (dash_super env rq)"
  by (simp_all add: api_admin_def api_super_def dash_admin_def dash_super_def keeps)

lemma safe_steps [keeps]: "safe (shown_user i)" "safe (find_key i)" "safe (render_group i p)" "safe (fetch_card_parts i)"
  "safe (scope_for_rule_id i)"
  unfolding shown_user_def find_key_def render_group_def fetch_card_parts_def scope_for_rule_id_def
  by (auto intro!: keeps)

lemma safe_form_user [keeps]: "safe (form_user now n mail)"
proof -
  have s: "safe (\<lambda>d. case create_user_db now n mail d of
                (Inr u, d) \<Rightarrow> (Inr u, d)
              | (Inl _, d) \<Rightarrow> and_then (err_as DashInternal (find_user_by_name n)) (need DashInternal) d)"
  proof (rule safeI)
    fix d
    obtain r d1 where c: "create_user_db now n mail d = (r, d1)" by fastforce
    then have "R d d1" using safeD [OF safe_create_user_db, of d now n mail] by simp
    moreover have "R d1 (snd (and_then (err_as DashInternal (find_user_by_name n)) (need DashInternal) d1))"
      by (rule safeD) (intro keeps)
    ultimately show "R d (snd (case create_user_db now n mail d of
                (Inr u, d) \<Rightarrow> (Inr u, d)
              | (Inl _, d) \<Rightarrow> and_then (err_as DashInternal (find_user_by_name n)) (need DashInternal) d))"
      using trans by (auto simp: c split: sum.splits)
  qed
  show ?thesis unfolding form_user_def by (auto intro!: keeps s split: option.splits)
qed

lemma safe_disable_keys [keeps]: "safe (disable_keys now ks)"
  by (induction ks) (auto intro!: keeps)

lemma safe_render_scope_card [keeps]: "safe (render_scope_card sc)"
proof -
  have "safe (\<lambda>d. (Inr rs, snd (find_user_by_id i d)) :: ('e + 'b) \<times> access_db)" for rs :: 'b and i
    using safe_reads(2) by (simp add: safe_def)
  then show ?thesis unfolding render_scope_card_def by (cases sc) (auto intro!: keeps)
qed

lemma safe_api_handlers:
  "safe (create_user env rq n)" "safe (update_user env rq i flag)" "safe (create_budget env pr rq body)"
  "safe (delete_budget env rq i)" "safe (create_user_api_key env rq uuid i label project window)"
  "safe (reset_user_spend env rq i)" "safe (revoke_api_key_handler env rq i)"
  unfolding create_user_def update_user_def create_budget_def delete_budget_def create_user_api_key_def
    reset_user_spend_def revoke_api_key_handler_def
  by (auto intro!: keeps split: option.splits)

lemma safe_require_then: "(b \<Longrightarrow> safe (f ())) \<Longrightarrow> safe (and_then (require e b) f)"
  by (cases b) (simp_all add: safe_def and_then_def require_def give_def reject_def same)

lemma safe_create_admin: "safe (create_admin env rq n pw role0)"
proof -
  have "fine role" if "role \<in> set [''superadmin'', ''viewer'']" for role
    using that by (intro vocabulary) (simp add: admin_role_vocabulary_def)
  then show ?thesis
    unfolding create_admin_def Let_def
    by (intro safe_and_then safe_sessions safe_require_then) (auto intro!: keeps)
qed

lemma safe_dash_user_handlers:
  "safe (post_disable_user env rq i)" "safe (post_enable_user env rq i)" "safe (post_create_user env rq n)"
  "safe (post_generate_user_key env rq uuid i)" "safe (post_create_key env rq uuid form)"
  "safe (post_disable_key env rq i)" "safe (post_rotate_key env rq uuid i)"
  unfolding post_disable_user_def post_enable_user_def post_create_user_def post_generate_user_key_def
    post_create_key_def post_disable_key_def post_rotate_key_def Let_def
  by (auto intro!: keeps split: option.splits)

lemma safe_dash_admin_handlers:
  "fine (case role of None \<Rightarrow> ''viewer'' | Some r \<Rightarrow> r) \<Longrightarrow> safe (post_create_admin env rq n pw role)"
  "safe (post_delete_admin env rq i)"
  unfolding post_create_admin_def post_delete_admin_def by (auto intro!: keeps)

lemma safe_dash_group_handlers:
  "safe (post_create_group env rq n pri)" "safe (post_enable_group env rq i)" "safe (post_disable_group env rq i)"
  "safe (post_disable_member env rq i j)" "safe (post_set_group_priority env rq i p)"
  unfolding post_create_group_def post_enable_group_def post_disable_group_def Access_Admin.switch_group_def
    post_disable_member_def post_set_group_priority_def Let_def
  by (auto intro!: keeps split: prod.splits)

lemma safe_dash_budget_handlers:
  "safe (post_create_budget env pf dt rq f)" "safe (post_edit_budget env pf rq i f)" "safe (post_delete_budget env rq i)"
  unfolding post_create_budget_def post_edit_budget_def post_delete_budget_def
  by (auto intro!: keeps split: sum.splits option.splits)

section \<open>The other events\<close>

lemma safe_authenticated_user: "safe (authenticated_user env hs now)"
  unfolding authenticated_user_def by (auto intro!: keeps split: option.splits)

lemma safe_admin_login: "safe (Authentication.admin_login env secs now n pw)"
  unfolding admin_login_def by (intro keeps)

lemma post_login_keeps: "R d (snd (post_login env secs now n pw d))"
proof -
  let ?m = "and_then (err_as ''internal error'' (find_admin_by_name n)) (\<lambda>found.
            and_then (need ''invalid credentials'' found) (\<lambda>a.
            and_then (require ''account disabled'' (ad_enabled a)) (\<lambda>_.
            and_then (need ''internal error'' (ae_verify env pw (ad_password_hash a))) (\<lambda>valid.
            and_then (require ''invalid credentials'' valid) (\<lambda>_.
            and_then (need ''internal error'' (issue_jwt env (session_claims env secs a))) (\<lambda>token.
            and_then (note_login now (ad_id a)) (\<lambda>_. give token)))))))"
  have "R d (snd (?m d))" by (rule safeD) (intro keeps)
  then show ?thesis unfolding post_login_def by (auto split: prod.splits sum.splits)
qed

lemma safe_oidc_session: "fine (oc_auto_role cfg) \<Longrightarrow> safe (oidc_session env cfg secs now c)"
  unfolding oidc_session_def oidc_admin_def Let_def by (auto intro!: keeps split: option.splits)

lemma safe_bootstrap: "safe (bootstrap_apply env now b)"
proof (cases "validate_bootstrap env b")
  case True
  then have "fine (bs_role b)" by (intro vocabulary) (simp add: validate_bootstrap_def validate_role_def)
  then show ?thesis unfolding bootstrap_apply_def by (auto intro!: keeps split: option.splits)
next
  case False
  then show ?thesis by (simp add: safe_def bootstrap_apply_def require_def reject_def and_then_def same)
qed

lemma safe_cli: "fine role \<Longrightarrow> safe (cli_create_admin env now n role pw pw2)" "safe (cli_reset_password env now n pw)"
  "safe (cli_switch_admin env now n b)"
  unfolding cli_create_admin_def cli_reset_password_def cli_switch_admin_def by (auto intro!: keeps)

end

text \<open>Adding a member keeps \<open>R\<close> because of the checks of its handler.\<close>

locale kept = kept_steps +
  assumes join: "R d (snd (post_add_member env rq i j d))"
begin

lemma safe_post_add_member: "safe (post_add_member env rq i j)"
  by (rule safeI) (rule join)

lemma perform_keeps:
  assumes "\<And>n pw r. c = DashCreateAdmin n pw (Some r) \<Longrightarrow> fine r"
  shows "R d (perform env L rq c d)"
proof -
  have v: "fine ''viewer''" by (rule vocabulary) (simp add: admin_role_vocabulary_def)
  note h = safe_api_handlers safe_create_admin safe_dash_user_handlers safe_dash_admin_handlers(2)
    safe_dash_group_handlers safe_post_add_member safe_dash_budget_handlers
  show ?thesis
    using assms by (cases c) (auto intro!: safeD h safe_dash_admin_handlers(1) v split: option.splits)
qed

lemma happen_keeps:
  assumes "\<And>r. r \<in> roles_named e \<Longrightarrow> fine r"
  shows "R d (happen env L e d)"
proof (cases e)
  case (AdminCall rq c)
  then have "fine r" if "c = DashCreateAdmin n pw (Some r)" for n pw r using assms that by simp
  with AdminCall show ?thesis using perform_keeps by simp
qed (use assms in \<open>auto intro!: safeD safe_authenticated_user safe_admin_login safe_oidc_session safe_bootstrap safe_cli
       post_login_keeps\<close>)

theorem history_keeps:
  assumes "\<And>e r. e \<in> set evs \<Longrightarrow> r \<in> roles_named e \<Longrightarrow> fine r"
  shows "R d (access_history env L evs d)"
  using assms
proof (induction evs arbitrary: d)
  case (Cons e evs)
  then have "R d (happen env L e d)" by (auto intro: happen_keeps)
  moreover have "R (happen env L e d) (access_history env L evs (happen env L e d))" using Cons by auto
  ultimately show ?case by (auto simp: access_history_def intro: trans)
qed (simp add: access_history_def same)

end

text \<open>Or because the row it inserts does no harm.\<close>

locale kept_rows = kept_steps +
  assumes insert_member: "R d (d\<lparr>ax_members := ax_members d @ [m], ax_last_member := ax_last_member d + 1\<rparr>)"
begin

lemma safe_add_member: "safe (add_member now i j)"
proof (rule safeI)
  fix d
  show "R d (snd (add_member now i j d))"
    unfolding add_member_def Let_def
    using insert_member [of "d\<lparr>ax_faults := _\<rparr>"] by (intro then_keeps write_keeps keeps) simp
qed

lemma joins: "R d (snd (post_add_member env rq i j d))"
  unfolding post_add_member_def by (rule safeD) (auto intro!: keeps safe_add_member)

end

sublocale kept_rows \<subseteq> kept
  by unfold_locales (rule joins)

end
