(* ===== verification/Access_Properties.thy ===== *)
theory Access_Properties
  imports Access_Histories
begin

text \<open>
  What the access tables guarantee over every history of events: a key that is off stays off, rows keep their
  identity, the roles stay inside the vocabulary, a group has each live member once.
\<close>

section \<open>A key that is off stays off\<close>

definition dead_hash :: "string \<Rightarrow> access_db \<Rightarrow> bool" where
  "dead_hash h d \<longleftrightarrow> h \<in> set (map ak_hash (ax_keys d)) \<and> list_all (\<lambda>k. ak_hash k = h \<longrightarrow> \<not> ak_enabled k) (ax_keys d)"

lemma map_if_same: "(\<And>x. g (f x) = g x) \<Longrightarrow> map g (map (\<lambda>x. if P x then f x else x) xs) = map g xs"
  by simp

lemma dead_hash_on_keys:
  assumes "\<And>k. ak_hash (f k) = ak_hash k" and "\<And>k. ak_enabled (f k) \<Longrightarrow> ak_enabled k"
  shows "dead_hash h d \<longrightarrow> dead_hash h (on_keys f sel d)"
proof -
  have "map ak_hash (ax_keys (on_keys f sel d)) = map ak_hash (ax_keys d)"
    using assms(1) by (simp add: on_keys_def)
  moreover have "list_all (\<lambda>k. ak_hash k = h \<longrightarrow> \<not> ak_enabled k) (ax_keys d)
      \<Longrightarrow> list_all (\<lambda>k. ak_hash k = h \<longrightarrow> \<not> ak_enabled k) (ax_keys (on_keys f sel d))"
    using assms by (auto simp: on_keys_def list_all_iff)
  ultimately show ?thesis by (simp only: dead_hash_def) blast
qed

lemma dead_hash_insert: "key_fits n d \<Longrightarrow> dead_hash h d \<longrightarrow>
    dead_hash h (d\<lparr>ax_keys := ax_keys d @ [fresh_key now n d], ax_last_key := ax_last_key d + 1\<rparr>)"
  by (auto simp: dead_hash_def key_fits_def fresh_key_def list_all_iff list_ex_iff)

lemma dead_hash_same: "ax_keys d' = ax_keys d \<Longrightarrow> dead_hash h d \<longrightarrow> dead_hash h d'"
  by (simp add: dead_hash_def)

interpretation dead: kept_rows "\<lambda>d d'. dead_hash h d \<longrightarrow> dead_hash h d'" "\<lambda>_. True" for h :: string
  by unfold_locales
    ((rule dead_hash_same, (simp add: on_users_def on_admins_def group_switched_def; fail))
     | (rule dead_hash_insert, assumption) | (rule dead_hash_on_keys; (simp; fail)) | blast)+

section \<open>Rows keep their identity\<close>

definition ids_below :: "int list \<Rightarrow> int \<Rightarrow> bool" where
  "ids_below xs mx \<longleftrightarrow> distinct xs \<and> list_all (\<lambda>i. i \<le> mx) xs"

lemma ids_below_snoc: "ids_below xs mx \<Longrightarrow> ids_below (xs @ [mx + 1]) (mx + 1)"
  by (fastforce simp: ids_below_def list_all_iff)

lemma ids_below_filter: "ids_below (map f xs) mx \<Longrightarrow> ids_below (map f (filter P xs)) mx"
  by (auto simp: ids_below_def list_all_iff distinct_map_filter)

definition keys_ok :: "access_db \<Rightarrow> bool" where
  "keys_ok d \<longleftrightarrow> ids_below (map user_id (ax_users d)) (ax_last_user d) \<and> distinct (map user_name (ax_users d))
     \<and> ids_below (map ak_id (ax_keys d)) (ax_last_key d) \<and> distinct (map ak_hash (ax_keys d))
     \<and> set (map ak_user_id (ax_keys d)) \<subseteq> set (map user_id (ax_users d))"

lemma find_None_names: "find (\<lambda>x. f x = n) xs = None \<longleftrightarrow> n \<notin> set (map f xs)"
  by (auto simp: find_None_iff)

lemma keys_ok_cong:
  assumes "map user_id (ax_users d') = map user_id (ax_users d)" "map user_name (ax_users d') = map user_name (ax_users d)"
    "map ak_id (ax_keys d') = map ak_id (ax_keys d)" "map ak_hash (ax_keys d') = map ak_hash (ax_keys d)"
    "map ak_user_id (ax_keys d') = map ak_user_id (ax_keys d)"
    "ax_last_user d' = ax_last_user d" "ax_last_key d' = ax_last_key d"
  shows "keys_ok d \<longrightarrow> keys_ok d'"
  using assms by (simp only: keys_ok_def simp_thms)

lemma keys_ok_insert_key:
  assumes "key_fits n d" and "keys_ok d"
  shows "keys_ok (d\<lparr>ax_keys := ax_keys d @ [fresh_key now n d], ax_last_key := ax_last_key d + 1\<rparr>)"
proof -
  from assms(1) have "nk_user_id n \<in> set (map user_id (ax_users d))" and "nk_hash n \<notin> set (map ak_hash (ax_keys d))"
    by (force simp: key_fits_def list_ex_iff)+
  with assms(2) show ?thesis
    using ids_below_snoc [of "map ak_id (ax_keys d)" "ax_last_key d"] by (auto simp: keys_ok_def fresh_key_def)
qed

lemma keys_ok_insert_user:
  assumes "user_named n d = None" and "keys_ok d"
  shows "keys_ok (d\<lparr>ax_users := ax_users d @ [fresh_user now n mail d], ax_last_user := ax_last_user d + 1\<rparr>)"
proof -
  from assms(1) have "n \<notin> set (map user_name (ax_users d))" by (simp only: user_named_def find_None_names) simp
  with assms(2) show ?thesis
    using ids_below_snoc [of "map user_id (ax_users d)" "ax_last_user d"]
    by (auto simp: keys_ok_def fresh_user_def list_all_iff)
qed

interpretation wf: kept_rows "\<lambda>d d'. keys_ok d \<longrightarrow> keys_ok d'" "\<lambda>_. True"
  by unfold_locales
    (blast intro: keys_ok_insert_key keys_ok_insert_user
     | (rule keys_ok_cong; (simp add: on_users_def on_admins_def on_keys_def group_switched_def; fail)))+

section \<open>Who authenticates\<close>

text \<open>
  The answer to a presented key. A request is let in exactly when its token hashes to an enabled, unexpired key of
  an enabled user and both statements succeed; it then acts as that user, with the key's id, project and window.
\<close>

theorem authenticated_iff:
  "(\<exists>d'. authenticated_user env hs now d = (Inr u, d')) \<longleftrightarrow>
     \<not> fst (stmt d) \<and> \<not> fst (stmt (snd (stmt d))) \<and>
     (\<exists>token k owner. presented_key hs = Some token \<and> key_with_hash (ae_hash env token) d = Some k
        \<and> key_is_valid now k \<and> user_with (ak_user_id k) d = Some owner \<and> enabled owner \<and> u = as_caller k owner)"
proof -
  have k: "key_with_hash h (snd (stmt d)) = key_with_hash h d" for h d by (simp add: key_with_hash_def)
  have w: "user_with i (snd (stmt d)) = user_with i d" for i d by (simp add: user_with_def)
  note defs = authenticated_user_def find_api_key_by_hash_def find_user_by_id_def
  show ?thesis (is "?lhs \<longleftrightarrow> ?rhs")
  proof
    assume ?lhs
    then show ?rhs unfolding defs by (auto simp: done_simps k w split: option.splits if_splits)
  next
    assume ?rhs
    then show ?lhs
      unfolding defs by (elim conjE exE) (simp add: and_then_def need_def err_as_def give_def fetch_def k w case_prod_beta)
  qed
qed

lemma key_with_hash_Some: "key_with_hash h d = Some k \<Longrightarrow> k \<in> set (ax_keys d) \<and> ak_hash k = h \<and> ak_enabled k"
  by (auto simp: key_with_hash_def find_Some_iff)

lemma dead_hash_refused:
  assumes "dead_hash h d" and "presented_key hs = Some token" and "ae_hash env token = h"
  shows "fst (authenticated_user env hs now d) \<noteq> Inr u"
proof
  assume "fst (authenticated_user env hs now d) = Inr u"
  then have "\<exists>d'. authenticated_user env hs now d = (Inr u, d')" by (metis prod.collapse)
  then obtain k where "key_with_hash h d = Some k" using assms(2,3) by (auto simp: authenticated_iff)
  with assms(1) show False by (auto simp: dead_hash_def list_all_iff dest: key_with_hash_Some)
qed

section \<open>Switching keys off\<close>

lemma dead_hash_off:
  assumes "keys_ok d" and "k \<in> set (ax_keys d)" and "sel k"
    and "\<And>k. ak_hash (f k) = ak_hash k" and "\<And>k. \<not> ak_enabled (f k)"
  shows "dead_hash (ak_hash k) (on_keys f sel d)"
proof -
  have u: "j = k" if "j \<in> set (ax_keys d)" "ak_hash j = ak_hash k" for j
    using assms(1,2) that by (auto simp: keys_ok_def distinct_map dest: inj_onD)
  have "\<not> ak_enabled (if sel j then f j else j)" if "j \<in> set (ax_keys d)" "ak_hash (if sel j then f j else j) = ak_hash k" for j
    using u [of j] that assms(3-5) by (auto split: if_splits)
  moreover have "ak_hash k \<in> set (map ak_hash (ax_keys (on_keys f sel d)))"
    using assms(2,4) by (simp add: on_keys_def)
  moreover have "ax_keys (on_keys f sel d) = map (\<lambda>j. if sel j then f j else j) (ax_keys d)" by (simp add: on_keys_def)
  ultimately show ?thesis unfolding dead_hash_def list_all_iff by (metis (no_types, lifting) imageE list.set_map)
qed

text \<open>The handlers that switch a key off, run to a completed answer.\<close>

definition switched_off :: "auth_env \<Rightarrow> request_info \<Rightarrow> api_key \<Rightarrow> access_db \<Rightarrow> access_db \<Rightarrow> bool" where
  "switched_off env rq k d d' \<longleftrightarrow>
     (\<exists>x. revoke_api_key_handler env rq (ak_id k) d = (Inr x, d')) \<or>
     (\<exists>x. post_disable_key env rq (ak_id k) d = (Inr x, d')) \<or>
     (\<exists>x. post_disable_user env rq (ak_user_id k) d = (Inr x, d')) \<or>
     (\<exists>uuid x. post_rotate_key env rq uuid (ak_id k) d = (Inr x, d'))"

lemma keys_ok_stmt [simp]: "keys_ok (snd (stmt d)) \<longleftrightarrow> keys_ok d"
  by (simp add: keys_ok_def)

lemma dead_hash_stmt [simp]: "dead_hash h (snd (stmt d)) \<longleftrightarrow> dead_hash h d"
  by (simp add: dead_hash_def)

lemma snd_fetch [simp]: "snd (fetch f d) = snd (stmt d)"
  by (simp add: fetch_def case_prod_beta)

lemma write_if_eq:
  "write_if ok f d = (if fst (stmt d) \<or> \<not> ok (snd (stmt d)) then (Inl sql_failed, snd (stmt d)) else (Inr (), f (snd (stmt d))))"
  by (simp add: write_if_def case_prod_beta)

lemma snd_then_fetch:
  "snd (and_then m (\<lambda>_. fetch f) d) = (case fst (m d) of Inl _ \<Rightarrow> snd (m d) | Inr _ \<Rightarrow> snd (stmt (snd (m d))))"
  by (simp add: and_then_def case_prod_beta split: sum.split)

lemma note_audit_eq:
  "note_audit now e d =
     (let d1 = snd (stmt d)
      in if fst (stmt d) \<or> \<not> actor_known e d1 then d1
         else snd (stmt (d1\<lparr>ax_audit := ax_audit d1 @ [audit_row_of now e d], ax_last_audit := ax_last_audit d1 + 1\<rparr>)))"
  by (simp add: note_audit_def create_audit_def Let_def snd_then_fetch write_if_eq)

lemma note_audit_tables [simp]:
  "ax_users (note_audit now e d) = ax_users d" "ax_keys (note_audit now e d) = ax_keys d"
  "ax_last_key (note_audit now e d) = ax_last_key d" "ax_admins (note_audit now e d) = ax_admins d"
  "ax_groups (note_audit now e d) = ax_groups d" "ax_members (note_audit now e d) = ax_members d"
  "ax_rules (note_audit now e d) = ax_rules d"
  by (simp_all add: note_audit_eq Let_def)

lemma noted_keys [simp]: "ax_keys (snd (noted rq c action tgt after d)) = ax_keys d"
  by (simp add: noted_def)

lemma then_dead: "and_then m f d = (Inr y, d') \<Longrightarrow> (\<And>x d1. m d = (Inr x, d1) \<Longrightarrow> dead_hash h d1) \<Longrightarrow> (\<And>x. dead.safe h (f x)) \<Longrightarrow> dead_hash h d'"
  by (metis and_then_Inr dead.safe_def snd_conv)

lemma revoke_kills:
  assumes "keys_ok d" and "k \<in> set (ax_keys d)" and "revoke_api_key_handler env rq (ak_id k) d = (Inr x, d')"
  shows "dead_hash (ak_hash k) d'"
proof -
  have "dead_hash (ak_hash k) d1" if "err_as Internal (revoke_api_key (ak_id k)) d = (Inr u, d1)" for u d1
    using that dead_hash_off [of "snd (stmt d)" k] assms(1,2) by (simp add: done_simps revoke_api_key_def)
  moreover obtain c where "and_then (err_as Internal (revoke_api_key (ak_id k)))
      (\<lambda>_. noted rq c ''revoke_api_key'' (tagged ''key'' (ak_id k)) None) d = (Inr x, d')"
    using assms(3) by (auto simp: revoke_api_key_handler_def api_super_def and_then_Inr [of "from_sum _"] from_sum_Inr)
  ultimately show ?thesis using then_dead dead.safe_notes(1) by metis
qed

text \<open>The session check in front of a handler touches nothing.\<close>

lemma after_session:
  "and_then (api_super env rq) f d = (Inr x, d') \<Longrightarrow> \<exists>c. super_admin_session env (rq_secs rq) (rq_headers rq) = Inr c \<and> f c d = (Inr x, d')"
  "and_then (dash_super env rq) g d = (Inr y, d') \<Longrightarrow> \<exists>c. super_dashboard_session env (rq_secs rq) (rq_headers rq) = Inr c \<and> g c d = (Inr y, d')"
  by (auto simp: api_super_def dash_super_def and_then_Inr [of "from_sum _"] from_sum_Inr)

lemma find_key_Inr:
  assumes "keys_ok d" and "k \<in> set (ax_keys d)" and "find_key (ak_id k) d = (Inr j, d1)"
  shows "j = k \<and> d1 = snd (stmt d)"
proof -
  have "find (\<lambda>k'. ak_id k' = ak_id k) (by_recency ak_enabled ak_created_at (ax_keys d)) = Some j" and d1: "d1 = snd (stmt d)"
    using assms(3) by (auto simp: find_key_def list_all_api_keys_def done_simps)
  then have "j \<in> set (by_recency ak_enabled ak_created_at (ax_keys d))" and "ak_id j = ak_id k"
    by (auto simp: find_Some_iff simp del: set_by_recency)
  with assms(1,2) d1 show ?thesis by (auto simp: keys_ok_def ids_below_def distinct_map dest: inj_onD)
qed

lemma disable_key_kills:
  assumes "keys_ok d" and "k \<in> set (ax_keys d)" and "post_disable_key env rq (ak_id k) d = (Inr x, d')"
  shows "dead_hash (ak_hash k) d'"
proof -
  obtain c where "and_then (find_key (ak_id k)) (\<lambda>k. and_then (err_as DashInternal (disable_key (rq_now rq) (ak_id k))) (\<lambda>_.
      and_then (noted rq c ''key.disable'' (tagged ''key'' (ak_id k)) (Some (ae_json env (jobj [(''enabled'', JBool False)])))) (\<lambda>_.
        render_group (ak_user_id k) (ak_project k)))) d = (Inr x, d')"
    using after_session(2) [OF assms(3) [unfolded post_disable_key_def]] find_key_Inr [OF assms(1,2)]
    by (auto simp: and_then_Inr [of "find_key _"])
  then obtain j d1 where f: "find_key (ak_id k) d = (Inr j, d1)" and
    r: "and_then (err_as DashInternal (disable_key (rq_now rq) (ak_id j))) (\<lambda>_.
      and_then (noted rq c ''key.disable'' (tagged ''key'' (ak_id j)) (Some (ae_json env (jobj [(''enabled'', JBool False)])))) (\<lambda>_.
        render_group (ak_user_id j) (ak_project j))) d1 = (Inr x, d')"
    by (auto simp: and_then_Inr [of "find_key _"])
  from find_key_Inr [OF assms(1,2) f] have j: "j = k" "d1 = snd (stmt d)" by simp_all
  have kill: "dead_hash (ak_hash k) d2" if "err_as DashInternal (disable_key (rq_now rq) (ak_id j)) d1 = (Inr u, d2)" for u d2
    using that dead_hash_off [of "snd (stmt (snd (stmt d)))" k] assms(1,2) by (simp add: done_simps disable_key_def j)
  show ?thesis by (rule then_dead [OF r], erule kill) (intro dead.safe_and_then dead.safe_notes dead.safe_steps)
qed

lemma disable_user_kills:
  assumes "keys_ok d" and "k \<in> set (ax_keys d)" and "post_disable_user env rq (ak_user_id k) d = (Inr x, d')"
  shows "dead_hash (ak_hash k) d'"
proof -
  obtain c d1 where u: "set_user_enabled (ak_user_id k) False d = (Inr (), d1)" and
    r: "and_then (err_as DashInternal (disable_all_keys_for_user (ak_user_id k))) (\<lambda>_.
     and_then (noted rq c ''user.disable'' (tagged ''user'' (ak_user_id k)) (Some (ae_json env (jobj [(''enabled'', JBool False)])))) (\<lambda>_.
       shown_user (ak_user_id k))) d1 = (Inr x, d')"
    using after_session(2) [OF assms(3) [unfolded post_disable_user_def]]
    by (auto simp: and_then_Inr [of "err_as _ (set_user_enabled _ _)"] err_as_Inr)
  have k: "keys_ok d1" "ax_keys d1 = ax_keys d"
    using u assms(1) keys_ok_cong [of d1 d] by (auto simp: set_user_enabled_def write_if_Inr on_users_def)
  have kill: "dead_hash (ak_hash k) d2" if "err_as DashInternal (disable_all_keys_for_user (ak_user_id k)) d1 = (Inr v, d2)" for v d2
    using that dead_hash_off [of "snd (stmt d1)" k] assms(2) k by (simp add: done_simps disable_all_keys_for_user_def)
  show ?thesis by (rule then_dead [OF r], erule kill) (intro dead.safe_and_then dead.safe_notes dead.safe_steps)
qed

section \<open>Rotating a key\<close>

definition turned_off :: "string \<Rightarrow> int set \<Rightarrow> api_key \<Rightarrow> api_key" where
  "turned_off now is k = (if ak_id k \<in> is then k\<lparr>ak_enabled := False, ak_disabled_at := Some now\<rparr> else k)"

lemma turned_off_simps [simp]:
  "ak_id (turned_off now is k) = ak_id k" "ak_hash (turned_off now is k) = ak_hash k"
  "ak_user_id (turned_off now is k) = ak_user_id k" "ak_project (turned_off now is k) = ak_project k"
  "ak_enabled (turned_off now is k) \<longleftrightarrow> ak_enabled k \<and> ak_id k \<notin> is"
  "in_key_group i p (turned_off now is k) \<longleftrightarrow> in_key_group i p k"
  by (auto simp: turned_off_def in_key_group_def)

lemma disable_keys_Inr:
  "disable_keys now js d = (Inr u, d') \<Longrightarrow>
     ax_keys d' = map (turned_off now (ak_id ` set js)) (ax_keys d) \<and> ax_users d' = ax_users d
     \<and> ax_last_key d' = ax_last_key d \<and> ax_last_user d' = ax_last_user d"
proof (induction js arbitrary: d)
  case Nil
  then show ?case by (simp add: give_Inr turned_off_def)
next
  case (Cons j js)
  obtain d1 where d1: "disable_key now (ak_id j) d = (Inr (), d1)" and r: "disable_keys now js d1 = (Inr u, d')"
    using Cons.prems by (auto simp: and_then_Inr err_as_Inr)
  have "ax_keys d1 = map (turned_off now {ak_id j}) (ax_keys d)" "ax_users d1 = ax_users d" "ax_last_key d1 = ax_last_key d"
    "ax_last_user d1 = ax_last_user d"
    using d1 by (auto simp: disable_key_def write_if_Inr on_keys_def turned_off_def)
  moreover have "turned_off now (ak_id ` set js) (turned_off now {ak_id j} k) = turned_off now (ak_id ` set (j # js)) k" for k
    by (simp add: turned_off_def)
  ultimately show ?case using Cons.IH [OF r] by (simp add: comp_def)
qed

lemma create_api_key_Inr:
  assumes "create_api_key now n d = (Inr k, d')"
  shows "k = fresh_key now n d" "key_fits n d" "ax_keys d' = ax_keys d @ [k]" "ax_users d' = ax_users d"
    "ax_last_key d' = ax_last_key d + 1"
proof -
  let ?put = "\<lambda>d1. d1\<lparr>ax_keys := ax_keys d1 @ [fresh_key now n d], ax_last_key := ax_last_key d1 + 1\<rparr>"
  from assms obtain u d1 where w: "write_if (key_fits n) ?put d = (Inr u, d1)" and f: "fetch (\<lambda>_. fresh_key now n d) d1 = (Inr k, d')"
    unfolding create_api_key_def Let_def and_then_Inr by blast
  from w have "key_fits n (snd (stmt d))" and d1: "d1 = ?put (snd (stmt d))" by (simp_all only: write_if_Inr simp_thms)
  then show "key_fits n d" by (simp add: key_fits_def)
  from f have k: "k = fresh_key now n d" and d': "d' = snd (stmt d1)" by (simp_all only: fetch_Inr simp_thms)
  then show "k = fresh_key now n d" "ax_keys d' = ax_keys d @ [k]" "ax_users d' = ax_users d"
    "ax_last_key d' = ax_last_key d + 1" by (simp_all add: d1)
qed

text \<open>What a completed rotation went through.\<close>

definition rotated_keys :: "string \<Rightarrow> api_key \<Rightarrow> access_db \<Rightarrow> api_key list" where
  "rotated_keys now k d =
     map (turned_off now (ak_id ` {j \<in> set (ax_keys d). in_key_group (ak_user_id k) (ak_project k) j \<and> ak_enabled j})) (ax_keys d)"

definition rotated_key :: "auth_env \<Rightarrow> string \<Rightarrow> string \<Rightarrow> api_key \<Rightarrow> access_db \<Rightarrow> api_key" where
  "rotated_key env now raw k d =
     \<lparr>ak_id = ax_last_key d + 1, ak_user_id = ak_user_id k, ak_hash = ae_hash env raw, ak_label = ak_label k,
      ak_enabled = True, ak_created_at = now, ak_expires_at = None, ak_project = ak_project k,
      ak_disabled_at = None, ak_session_window = ak_session_window k\<rparr>"

lemma rotate_Inr:
  assumes "keys_ok d" and "k \<in> set (ax_keys d)" and "post_rotate_key env rq uuid (ak_id k) d = (Inr (shown, raw), d')"
  shows "raw = raw_key uuid \<and> ax_keys d' = rotated_keys (rq_now rq) k d @ [rotated_key env (rq_now rq) raw k d]
     \<and> shown = key_group_view (by_recency ak_enabled ak_created_at (filter (in_key_group (ak_user_id k) (ak_project k)) (ax_keys d')))
     \<and> ae_hash env raw \<notin> set (map ak_hash (ax_keys d))"
proof -
  let ?grp = "in_key_group (ak_user_id k) (ak_project k)" and ?now = "rq_now rq"
  let ?new = "\<lparr>nk_user_id = ak_user_id k, nk_hash = ae_hash env (raw_key uuid), nk_label = ak_label k,
                 nk_expires_at = None, nk_project = ak_project k, nk_session_window = ak_session_window k\<rparr>"
  obtain c j d1 where f: "find_key (ak_id k) d = (Inr j, d1)" and
    r: "and_then (err_as DashInternal (list_keys_for_group (ak_user_id j) (ak_project j))) (\<lambda>ks.
     and_then (disable_keys ?now (filter ak_enabled ks)) (\<lambda>_.
     and_then (err_as DashInternal (create_api_key ?now
                \<lparr>nk_user_id = ak_user_id j, nk_hash = ae_hash env (raw_key uuid), nk_label = ak_label j,
                 nk_expires_at = None, nk_project = ak_project j, nk_session_window = ak_session_window j\<rparr>)) (\<lambda>made.
     and_then (noted rq c ''key.rotate'' (tagged ''key'' (ak_id made))
                (Some (ae_json env (jobj [(''user_id'', jint (ak_user_id j)), (''replaced_key_id'', jint (ak_id k))])))) (\<lambda>_.
     and_then (err_as DashInternal (list_keys_for_group (ak_user_id j) (ak_project j))) (\<lambda>ks.
     and_then (err_as DashInternal list_users_db) (\<lambda>_.
       give (key_group_view ks, raw_key uuid))))))) d1 = (Inr (shown, raw), d')"
    using after_session(2) [OF assms(3) [unfolded post_rotate_key_def]] by (auto simp: and_then_Inr [of "find_key _"])
  from find_key_Inr [OF assms(1,2) f] have j: "j = k" and d1: "d1 = snd (stmt d)" by simp_all
  obtain ks d2 u1 d3 made d4 u2 d5 ks' d6 us where ks: "list_keys_for_group (ak_user_id k) (ak_project k) d1 = (Inr ks, d2)"
    and off: "disable_keys ?now (filter ak_enabled ks) d2 = (Inr u1, d3)" and made: "create_api_key ?now ?new d3 = (Inr made, d4)"
    and logged: "(noted rq c ''key.rotate'' (tagged ''key'' (ak_id made))
                (Some (ae_json env (jobj [(''user_id'', jint (ak_user_id k)), (''replaced_key_id'', jint (ak_id k))])))
                :: (dashboard_error, unit) db_act) d4 = (Inr u2, d5)"
    and ks': "list_keys_for_group (ak_user_id k) (ak_project k) d5 = (Inr ks', d6)"
    and us: "list_users_db d6 = (Inr us, d')" and res: "raw = raw_key uuid" "shown = key_group_view ks'"
    using r [unfolded j] by (simp only: and_then_Inr err_as_Inr give_Inr prod.inject) blast
  have "ax_keys d5 = ax_keys d4" using noted_keys logged by (metis snd_conv)
  then have rest: "raw = raw_key uuid" "ax_keys d' = ax_keys d4"
       "shown = key_group_view (by_recency ak_enabled ak_created_at (filter ?grp (ax_keys d4)))"
    using ks' us res by (simp_all add: list_keys_for_group_def list_users_db_def fetch_Inr)
  have 2: "ax_keys d2 = ax_keys d" "ax_last_key d2 = ax_last_key d" and
    ids: "ak_id ` set (filter ak_enabled ks) = ak_id ` {j \<in> set (ax_keys d). ?grp j \<and> ak_enabled j}"
    using ks d1 by (auto simp: list_keys_for_group_def fetch_Inr)
  from disable_keys_Inr [OF off] have 3: "ax_keys d3 = rotated_keys ?now k d" "ax_last_key d3 = ax_last_key d"
    by (simp_all only: 2 ids rotated_keys_def)
  have 4: "ax_keys d4 = ax_keys d3 @ [fresh_key ?now ?new d3]" "key_fits ?new d3"
    using create_api_key_Inr [OF made] by simp_all
  from 4(2) have "ae_hash env (raw_key uuid) \<notin> set (map ak_hash (ax_keys d3))" by (auto simp: key_fits_def list_ex_iff)
  moreover have "fresh_key ?now ?new d3 = rotated_key env ?now (raw_key uuid) k d"
    by (simp add: fresh_key_def rotated_key_def 3)
  moreover have "set (map ak_hash (rotated_keys ?now k d)) = set (map ak_hash (ax_keys d))"
    by (simp add: rotated_keys_def image_image)
  ultimately show ?thesis using 4(1) rest by (simp only: 3 simp_thms)
qed

lemma rotated_none_live:
  "j \<in> set (rotated_keys now k d) \<Longrightarrow> in_key_group (ak_user_id k) (ak_project k) j \<Longrightarrow> \<not> ak_enabled j"
  by (auto simp: rotated_keys_def)

lemma rotate_kills:
  assumes "keys_ok d" and "k \<in> set (ax_keys d)" and "post_rotate_key env rq uuid (ak_id k) d = (Inr x, d')"
  shows "dead_hash (ak_hash k) d'"
proof -
  let ?now = "rq_now rq"
  obtain shown raw where x: "x = (shown, raw)" by fastforce
  note r = rotate_Inr [OF assms(1,2) assms(3) [unfolded x]]
  have g: "in_key_group (ak_user_id k) (ak_project k) k" by (simp add: in_key_group_def)
  have u: "j = k" if "j \<in> set (ax_keys d)" "ak_hash j = ak_hash k" for j
    using assms(1,2) that by (auto simp: keys_ok_def distinct_map dest: inj_onD)
  have "\<not> ak_enabled j" if "j \<in> set (rotated_keys ?now k d)" "ak_hash j = ak_hash k" for j
  proof -
    from that(1) obtain i where i: "i \<in> set (ax_keys d)" and ij: "in_key_group a p j = in_key_group a p i" "ak_hash j = ak_hash i" for a p
      by (auto simp: rotated_keys_def)
    with u [of i] that(2) have "i = k" by simp
    with g ij(1) have "in_key_group (ak_user_id k) (ak_project k) j" by simp
    then show ?thesis by (rule rotated_none_live [OF that(1)])
  qed
  moreover have "ak_hash (rotated_key env ?now raw k d) \<noteq> ak_hash k"
    using r assms(2) by (auto simp: rotated_key_def)
  moreover have "ak_hash k \<in> set (map ak_hash (rotated_keys ?now k d))"
    using assms(2) by (simp add: rotated_keys_def image_image)
  ultimately show ?thesis using r by (auto simp: dead_hash_def list_all_iff)
qed

text \<open>C21. A rotation leaves one live key in the group.\<close>

theorem rotation_leaves_one_live_key:
  assumes "keys_ok d" and "k \<in> set (ax_keys d)" and "post_rotate_key env rq uuid (ak_id k) d = (Inr ((active, old), raw), d')"
  shows "filter (\<lambda>j. in_key_group (ak_user_id k) (ak_project k) j \<and> ak_enabled j) (ax_keys d')
           = [rotated_key env (rq_now rq) raw k d]
     \<and> active = Some (rotated_key env (rq_now rq) raw k d)
     \<and> (\<forall>j \<in> set old. in_key_group (ak_user_id k) (ak_project k) j \<and> \<not> ak_enabled j)
     \<and> filter (\<lambda>j. \<not> in_key_group (ak_user_id k) (ak_project k) j) (ax_keys d')
         = filter (\<lambda>j. \<not> in_key_group (ak_user_id k) (ak_project k) j) (ax_keys d)"
proof -
  let ?now = "rq_now rq" and ?grp = "in_key_group (ak_user_id k) (ak_project k)" and ?n = "rotated_key env (rq_now rq) raw k d"
  from rotate_Inr [OF assms] have ks: "ax_keys d' = rotated_keys ?now k d @ [?n]"
    and view: "(active, old) = key_group_view (by_recency ak_enabled ak_created_at (filter ?grp (ax_keys d')))" by simp_all
  have n: "?grp ?n" "ak_enabled ?n" by (simp_all add: rotated_key_def in_key_group_def)
  have none: "filter (\<lambda>j. ?grp j \<and> ak_enabled j) (rotated_keys ?now k d) = []"
    using rotated_none_live by (auto simp: filter_empty_conv)
  then have live: "filter (\<lambda>j. ?grp j \<and> ak_enabled j) (ax_keys d') = [?n]" by (simp add: ks n)
  have "turned_off ?now (ak_id ` {j \<in> set (ax_keys d). ?grp j \<and> ak_enabled j}) j = j"
    if "j \<in> set (ax_keys d)" "\<not> ?grp j" for j
    using assms(1) that by (auto simp: turned_off_def keys_ok_def ids_below_def distinct_map dest: inj_onD)
  then have rest: "filter (\<lambda>j. \<not> ?grp j) (rotated_keys ?now k d) = filter (\<lambda>j. \<not> ?grp j) (ax_keys d)"
    unfolding rotated_keys_def by (auto simp: filter_map comp_def intro!: map_idI)
  have "active = Some a \<longrightarrow> a \<in> set (ax_keys d') \<and> ?grp a \<and> ak_enabled a" for a
    using view by (auto simp: key_group_view_def find_Some_iff simp del: set_by_recency)
      (metis (no_types, lifting) mem_Collect_eq nth_mem set_by_recency set_filter)+
  moreover have "active \<noteq> None"
    using view n by (auto simp: key_group_view_def find_None_iff ks)
  moreover have "a = ?n" if "a \<in> set (ax_keys d')" "?grp a" "ak_enabled a" for a
    using arg_cong [OF live, of set] that by auto
  ultimately have "active = Some ?n" by (cases active) auto
  moreover have "\<forall>j \<in> set old. ?grp j \<and> \<not> ak_enabled j" using view by (auto simp: key_group_view_def)
  ultimately show ?thesis using live rest n by (simp add: ks)
qed

text \<open>C20. A key that was switched off never lets anyone in again.\<close>

theorem revoked_key_stays_dead:
  assumes "keys_ok d" and "k \<in> set (ax_keys d)" and "switched_off env rq k d d1"
    and "presented_key hs = Some token" and "ae_hash env token = ak_hash k"
  shows "fst (authenticated_user env hs now (access_history env L evs d1)) \<noteq> Inr u"
proof -
  have "dead_hash (ak_hash k) d1"
    using assms(3) revoke_kills [OF assms(1,2)] disable_key_kills [OF assms(1,2)] disable_user_kills [OF assms(1,2)]
      rotate_kills [OF assms(1,2)] unfolding switched_off_def by blast
  then have "dead_hash (ak_hash k) (access_history env L evs d1)" using dead.history_keeps by blast
  then show ?thesis using assms(4,5) by (rule dead_hash_refused)
qed

section \<open>A key that was issued lets its owner in\<close>

text \<open>C25. Issue, present, authenticate.\<close>

theorem issued_key_authenticates:
  assumes "create_user_api_key env rq uuid i label project window d = (Inr (k, raw), d')"
    and "user_with i d = Some owner" and "enabled owner" and "presented_key hs = Some raw" and "ax_faults d' = []"
  shows "authenticated_user env hs now d' = (Inr (as_caller k owner), d')
     \<and> ak_project k = project \<and> ak_session_window k = window \<and> ak_label k = label \<and> ak_user_id k = i"
proof -
  let ?n = "\<lparr>nk_user_id = i, nk_hash = ae_hash env (raw_key uuid), nk_label = label, nk_expires_at = None,
             nk_project = project, nk_session_window = window\<rparr>"
  obtain c d1 where made: "create_api_key (rq_now rq) ?n d = (Inr k, d1)" and raw: "raw = raw_key uuid"
    and d': "ax_keys d' = ax_keys d1" "ax_users d' = ax_users d1"
    using after_session(1) [OF assms(1) [unfolded create_user_api_key_def]]
    by (auto simp: and_then_Inr err_as_Inr give_Inr noted_def)
  note m = create_api_key_Inr [OF made]
  have old: "ae_hash env raw \<notin> ak_hash ` set (ax_keys d)" using m(2) by (auto simp: key_fits_def list_ex_iff raw)
  have "find (\<lambda>j. ak_hash j = h \<and> ak_enabled j) (xs @ [k]) = Some k"
    if "h \<notin> ak_hash ` set xs" "ak_hash k = h" "ak_enabled k" for h xs
    using that by (induction xs) auto
  from this [OF old] have key: "key_with_hash (ae_hash env raw) d' = Some k"
    using m(1,3) d' by (simp add: key_with_hash_def fresh_key_def raw)
  have owner: "user_with (ak_user_id k) d' = Some owner"
    using assms(2) m(1,4) d' by (simp add: user_with_def fresh_key_def)
  have "key_is_valid now k" using m(1) by (simp add: key_is_valid_def fresh_key_def)
  with key owner assms(3-5) have "authenticated_user env hs now d' = (Inr (as_caller k owner), d')"
    by (simp add: authenticated_user_def find_api_key_by_hash_def find_user_by_id_def and_then_def need_def err_as_def give_def
          fetch_def)
  with m(1) show ?thesis by (simp add: fresh_key_def)
qed

section \<open>Only superadmins write\<close>

fun on_dashboard :: "admin_call \<Rightarrow> bool" where
  "on_dashboard (ApiCreateUser n) = False"
| "on_dashboard (ApiUpdateUser i b) = False"
| "on_dashboard (ApiCreateBudget b) = False"
| "on_dashboard (ApiDeleteBudget i) = False"
| "on_dashboard (ApiCreateAdmin n pw r) = False"
| "on_dashboard (ApiCreateKey uuid i l p w) = False"
| "on_dashboard (ApiResetSpend i) = False"
| "on_dashboard (ApiRevokeKey i) = False"
| "on_dashboard c = True"

lemma no_session:
  "super_admin_session env (rq_secs rq) (rq_headers rq) = Inl e \<Longrightarrow> and_then (api_super env rq) f d = (Inl e, d)"
  "super_dashboard_session env (rq_secs rq) (rq_headers rq) = Inl e' \<Longrightarrow> and_then (dash_super env rq) g d = (Inl e', d)"
  by (simp_all add: and_then_def api_super_def dash_super_def from_sum_def)

lemma super_sessions:
  "super_admin_session env secs hs = Inr c \<longleftrightarrow> admin_session_of env secs hs = Inr c \<and> ac_role c = ''superadmin''"
  "super_dashboard_session env secs hs = Inr c \<longleftrightarrow> dashboard_session env secs hs = Inr c \<and> ac_role c = ''superadmin''"
  by (auto simp: super_admin_session_def super_dashboard_session_def bind_sum_Inr_iff)

lemma sessions_verified:
  "admin_session_of env secs hs = Inr c \<Longrightarrow> \<exists>token. verify_jwt env secs token = Some c"
  "dashboard_session env secs hs = Inr c \<Longrightarrow> \<exists>token. verify_jwt env secs token = Some c"
  by (auto simp: admin_session_of_def dashboard_session_def split: option.splits)


end
