(* ===== verification/Group_Properties.thy ===== *)
theory Group_Properties
  imports Access_Properties
begin

text \<open>
  Invariants of the groups, their memberships and the roles of the administrators, over every history of events:
  no user is twice a live member of a group, a group that is switched off has none, and a role outside the
  vocabulary is one that some event named. The last section holds what the dashboard lets through.
\<close>

section \<open>Live memberships\<close>

definition live :: "member_row \<Rightarrow> bool" where
  "live m \<longleftrightarrow> mb_disabled_at m = None"

definition live_pairs :: "access_db \<Rightarrow> (int \<times> int) list" where
  "live_pairs d = map (\<lambda>m. (mb_group_id m, mb_user_id m)) (filter live (ax_members d))"

definition group_open :: "access_db \<Rightarrow> int \<Rightarrow> bool" where
  "group_open d i \<longleftrightarrow> list_ex (\<lambda>g. gr_id g = i \<and> gr_enabled g) (ax_groups d)"

definition members_ok :: "access_db \<Rightarrow> bool" where
  "members_ok d \<longleftrightarrow> distinct (live_pairs d)
     \<and> list_all (\<lambda>(i, j). group_open d i \<and> j \<in> set (map user_id (ax_users d))) (live_pairs d)
     \<and> ids_below (map gr_id (ax_groups d)) (ax_last_group d)"

lemma members_ok_mono:
  assumes "live_pairs d' = live_pairs d" and "\<And>i. group_open d i \<Longrightarrow> group_open d' i"
    and "set (map user_id (ax_users d)) \<subseteq> set (map user_id (ax_users d'))"
    and "ids_below (map gr_id (ax_groups d)) (ax_last_group d) \<Longrightarrow> ids_below (map gr_id (ax_groups d')) (ax_last_group d')"
  shows "members_ok d \<longrightarrow> members_ok d'"
  using assms by (auto simp: members_ok_def list_all_iff)

lemma members_ok_same:
  "ax_members d' = ax_members d \<Longrightarrow> ax_groups d' = ax_groups d \<Longrightarrow> ax_last_group d' = ax_last_group d
     \<Longrightarrow> map user_id (ax_users d') = map user_id (ax_users d) \<Longrightarrow> members_ok d \<longrightarrow> members_ok d'"
  by (rule members_ok_mono) (simp_all add: live_pairs_def group_open_def)

lemma members_ok_shrink:
  assumes "\<And>m. f m = m \<or> \<not> live (f m)" and "\<And>i. i \<in> set (live_pairs (d\<lparr>ax_members := map f (ax_members d), ax_groups := gs\<rparr>)) \<Longrightarrow>
      group_open d (fst i) \<Longrightarrow> group_open (d\<lparr>ax_members := map f (ax_members d), ax_groups := gs\<rparr>) (fst i)"
    and "map gr_id gs = map gr_id (ax_groups d)"
  shows "members_ok d \<longrightarrow> members_ok (d\<lparr>ax_members := map f (ax_members d), ax_groups := gs\<rparr>)"
proof -
  have iff: "live (f m) \<longleftrightarrow> live m \<and> f m = m" for m using assms(1) [of m] by metis
  have "filter live (map f ms) = filter (\<lambda>m. live m \<and> f m = m) ms" for ms
    by (induction ms) (auto simp: iff)
  then have sub: "live_pairs (d\<lparr>ax_members := map f (ax_members d), ax_groups := gs\<rparr>)
      = map (\<lambda>m. (mb_group_id m, mb_user_id m)) (filter (\<lambda>m. f m = m) (filter live (ax_members d)))"
    by (simp add: live_pairs_def conj_commute)
  then have set_sub: "set (live_pairs (d\<lparr>ax_members := map f (ax_members d), ax_groups := gs\<rparr>)) \<subseteq> set (live_pairs d)"
    by (auto simp: live_pairs_def)
  have "distinct (live_pairs d) \<Longrightarrow> distinct (live_pairs (d\<lparr>ax_members := map f (ax_members d), ax_groups := gs\<rparr>))"
    unfolding sub by (simp only: live_pairs_def distinct_map_filter)
  then show ?thesis
    using assms(2,3) set_sub unfolding members_ok_def list_all_iff
    by (fastforce simp del: map_map)
qed

lemma members_ok_switched: "members_ok d \<longrightarrow> members_ok (group_switched now i flag d)"
proof -
  let ?gs = "map (\<lambda>g. if gr_id g = i then g\<lparr>gr_enabled := flag\<rparr> else g) (ax_groups d)"
  let ?f = "\<lambda>m. if \<not> flag \<and> mb_group_id m = i \<and> mb_disabled_at m = None then m\<lparr>mb_disabled_at := Some now\<rparr> else m"
  have eq: "group_switched now i flag d = d\<lparr>ax_members := map ?f (ax_members d), ax_groups := ?gs\<rparr>"
    by (cases flag) (simp_all add: group_switched_def)
  have o: "group_open (d\<lparr>ax_members := map ?f (ax_members d), ax_groups := ?gs\<rparr>) j \<longleftrightarrow>
      (if j = i then flag \<and> j \<in> gr_id ` set (ax_groups d) else group_open d j)" for j
  proof -
    have "list_ex (\<lambda>g. gr_id g = j \<and> gr_enabled g) (map (\<lambda>g. if gr_id g = i then g\<lparr>gr_enabled := flag\<rparr> else g) gs)
        \<longleftrightarrow> (if j = i then flag \<and> j \<in> gr_id ` set gs else list_ex (\<lambda>g. gr_id g = j \<and> gr_enabled g) gs)" for gs :: "group_row list"
      by (induction gs) auto
    then show ?thesis by (simp add: group_open_def)
  qed
  have "group_open (d\<lparr>ax_members := map ?f (ax_members d), ax_groups := ?gs\<rparr>) (fst p)"
    if "p \<in> set (live_pairs (d\<lparr>ax_members := map ?f (ax_members d), ax_groups := ?gs\<rparr>))" "group_open d (fst p)" for p
  proof (cases "fst p = i")
    case True
    have imp: "live (?f m) \<Longrightarrow> mb_group_id (?f m) = i \<Longrightarrow> flag" for m by (auto simp: live_def split: if_splits)
    have "ax_members (d\<lparr>ax_members := map ?f (ax_members d), ax_groups := ?gs\<rparr>) = map ?f (ax_members d)" by simp
    with that(1) obtain m where "live (?f m)" "p = (mb_group_id (?f m), mb_user_id (?f m))"
      unfolding live_pairs_def by (auto simp only: set_map set_filter)
    with imp True have flag by (metis fst_conv)
    with that(2) True show ?thesis unfolding o by (force simp: group_open_def list_ex_iff)
  next
    case False
    with that(2) show ?thesis unfolding o by simp
  qed
  then show ?thesis unfolding eq by (intro members_ok_shrink) (auto simp: live_def)
qed

lemma members_ok_leave:
  "members_ok d \<longrightarrow> members_ok (d\<lparr>ax_members := map (\<lambda>m. if mb_id m = i \<and> mb_disabled_at m = None then m\<lparr>mb_disabled_at := Some now\<rparr> else m)
                                   (ax_members d)\<rparr>)"
proof -
  let ?f = "\<lambda>m. if mb_id m = i \<and> mb_disabled_at m = None then m\<lparr>mb_disabled_at := Some now\<rparr> else m"
  have "d\<lparr>ax_members := map ?f (ax_members d)\<rparr> = d\<lparr>ax_members := map ?f (ax_members d), ax_groups := ax_groups d\<rparr>" by simp
  then show ?thesis using members_ok_shrink [where f = ?f and d = d and gs = "ax_groups d"] by (simp add: live_def group_open_def)
qed

lemma members_ok_group:
  assumes "gr_id g = ax_last_group d + 1"
  shows "members_ok d \<longrightarrow> members_ok (d\<lparr>ax_groups := ax_groups d @ [g], ax_last_group := ax_last_group d + 1\<rparr>)"
  by (rule members_ok_mono)
    (use assms ids_below_snoc [of "map gr_id (ax_groups d)" "ax_last_group d"] in
      \<open>auto simp: live_pairs_def group_open_def list_ex_iff\<close>)

lemma members_ok_priority:
  "members_ok d \<longrightarrow> members_ok (d\<lparr>ax_groups := map (\<lambda>g. if gr_id g = i then g\<lparr>gr_priority := pri\<rparr> else g) (ax_groups d)\<rparr>)"
proof -
  have "list_ex (\<lambda>g. gr_id g = j \<and> gr_enabled g) (map (\<lambda>g. if gr_id g = i then g\<lparr>gr_priority := pri\<rparr> else g) gs)
      \<longleftrightarrow> list_ex (\<lambda>g. gr_id g = j \<and> gr_enabled g) gs" for j and gs :: "group_row list"
    by (induction gs) auto
  moreover have "map gr_id (map (\<lambda>g. if gr_id g = i then g\<lparr>gr_priority := pri\<rparr> else g) (ax_groups d)) = map gr_id (ax_groups d)"
    by simp
  ultimately show ?thesis by (intro members_ok_mono) (simp_all add: live_pairs_def group_open_def del: map_map)
qed

interpretation member_steps: kept_steps "\<lambda>d d'. members_ok d \<longrightarrow> members_ok d'" "\<lambda>_. True"
  by unfold_locales
    (rule members_ok_switched members_ok_leave members_ok_priority
     | (rule members_ok_group, assumption)
     | (rule members_ok_same; (simp add: on_users_def on_admins_def on_keys_def; fail))
     | (rule members_ok_mono; (auto simp: live_pairs_def group_open_def fresh_user_def; fail)) | blast)+

text \<open>Adding a member: the checks of the handler are what keeps the invariant.\<close>

lemma members_ok_insert:
  assumes "members_ok d" and "group_open d (mb_group_id m)" and "mb_user_id m \<in> set (map user_id (ax_users d))"
    and "(mb_group_id m, mb_user_id m) \<notin> set (live_pairs d)" and "live m"
  shows "members_ok (d\<lparr>ax_members := ax_members d @ [m], ax_last_member := n\<rparr>)"
proof -
  have "live_pairs (d\<lparr>ax_members := ax_members d @ [m], ax_last_member := n\<rparr>) = live_pairs d @ [(mb_group_id m, mb_user_id m)]"
    using assms(5) by (simp add: live_pairs_def)
  moreover have "group_open (d\<lparr>ax_members := ax_members d @ [m], ax_last_member := n\<rparr>) = group_open d"
    by (simp add: group_open_def fun_eq_iff)
  ultimately show ?thesis using assms(1-4) by (simp add: members_ok_def)
qed

lemma no_active_membership:
  assumes "find_active_membership i j d = (Inr None, d')" and "j \<in> set (map user_id (ax_users d))"
  shows "(i, j) \<notin> set (live_pairs d)"
proof
  assume "(i, j) \<in> set (live_pairs d)"
  then obtain m where m: "m \<in> set (filter (active_member i j) (ax_members d))" and mj: "mb_user_id m = j"
    by (auto simp: live_pairs_def live_def active_member_def)
  from assms(2) obtain u where u: "user_with j d = Some u"
    by (cases "user_with j d") (auto simp: user_with_def find_None_iff)
  then have "(m, user_name u) \<in> set (joined d (filter (active_member i j) (ax_members d)))"
    using m mj by (force simp: joined_def List.map_filter_def)
  moreover have "joined d (filter (active_member i j) (ax_members d)) = []"
    using assms(1) by (auto simp: find_active_membership_def fetch_Inr joined_def user_with_def split: list.splits)
  ultimately show False by simp
qed

lemma members_ok_stmt [simp]: "members_ok (snd (stmt d)) \<longleftrightarrow> members_ok d" "group_open (snd (stmt d)) = group_open d"
  "live_pairs (snd (stmt d)) = live_pairs d"
  by (simp_all add: members_ok_def live_pairs_def group_open_def fun_eq_iff)

lemma add_member_keeps:
  assumes "members_ok d" and "group_open d i" and "j \<in> set (map user_id (ax_users d)) \<Longrightarrow> (i, j) \<notin> set (live_pairs d)"
  shows "members_ok (snd (add_member now i j d))"
proof -
  let ?m = "\<lparr>mb_id = ax_last_member d + 1, mb_group_id = i, mb_user_id = j, mb_joined_at = now, mb_disabled_at = None\<rparr>"
  have "members_ok (snd (stmt ((snd (stmt d))\<lparr>ax_members := ax_members d @ [?m], ax_last_member := ax_last_member d + 1\<rparr>)))"
    if "list_ex (\<lambda>x. user_id x = j) (ax_users d)"
  proof -
    from that have "j \<in> set (map user_id (ax_users d))" by (auto simp: list_ex_iff)
    with assms members_ok_insert [of "snd (stmt d)" ?m] show ?thesis by (simp add: live_def)
  qed
  with assms(1) show ?thesis by (auto simp: add_member_def Let_def snd_then_fetch write_if_eq)
qed

lemma read_then:
  "and_then (err_as e (fetch f)) k d =
     (if fst (stmt d) then (Inl e, snd (stmt d)) else k (f (snd (stmt d))) (snd (stmt d)))"
  by (simp add: and_then_def err_as_def fetch_def case_prod_beta)

lemma check_then:
  "and_then (need e x) k d = (case x of None \<Rightarrow> (Inl e, d) | Some y \<Rightarrow> k y d)"
  "and_then (require e b) f d = (if b then f () d else (Inl e, d))"
  by (simp_all add: and_then_def need_def require_def give_def reject_def split: option.splits)

lemma session_then: "super_dashboard_session env (rq_secs rq) (rq_headers rq) = Inr c \<Longrightarrow> and_then (dash_super env rq) f d = f c d"
  by (simp add: and_then_def dash_super_def from_sum_def)

lemma members_ok_join: "members_ok d \<longrightarrow> members_ok (snd (post_add_member env rq i j d))"
proof
  assume d: "members_ok d"
  let ?d1 = "snd (stmt d)" let ?d2 = "snd (stmt ?d1)"
  show "members_ok (snd (post_add_member env rq i j d))"
  proof (cases "super_dashboard_session env (rq_secs rq) (rq_headers rq)")
    case (Inl e)
    then show ?thesis using d by (simp add: post_add_member_def no_session)
  next
    case (Inr c)
    show ?thesis
    proof (cases "find (\<lambda>g. gr_id g = i) (ax_groups d)")
      case None
      then show ?thesis using d Inr
        by (simp add: post_add_member_def session_then get_group_def read_then check_then)
    next
      case (Some g)
      then have g: "g \<in> set (ax_groups d)" "gr_id g = i" by (auto simp: find_Some_iff)
      have rest: "members_ok (snd (and_then (err_as DashInternal (add_member (rq_now rq) i j)) (\<lambda>m.
          and_then (noted rq c ''group.member.add'' (member_target i j) (Some (ae_json env (jobj [(''membership_id'', jint (mb_id m))])))) (\<lambda>_.
            fetch_card_parts i)) ?d2))"
        if "gr_enabled g" "joined ?d2 (filter (active_member i j) (ax_members ?d2)) = []" "\<not> fst (stmt ?d1)"
      proof -
        have "group_open d i" using g that(1) by (auto simp: group_open_def list_ex_iff)
        moreover have "find_active_membership i j ?d1 = (Inr None, ?d2)"
          using that by (simp add: find_active_membership_def fetch_Inr)
        ultimately have "members_ok (snd (add_member (rq_now rq) i j ?d2))"
          using d no_active_membership [of i j ?d1 ?d2] by (intro add_member_keeps) simp_all
        then have "members_ok ?d2 \<longrightarrow> members_ok (snd (err_as DashInternal (add_member (rq_now rq) i j) ?d2))"
          by (simp add: err_as_def case_prod_beta split: sum.split)
        then have "members_ok ?d2 \<longrightarrow> members_ok (snd (and_then (err_as DashInternal (add_member (rq_now rq) i j)) (\<lambda>m.
          and_then (noted rq c ''group.member.add'' (member_target i j) (Some (ae_json env (jobj [(''membership_id'', jint (mb_id m))])))) (\<lambda>_.
            fetch_card_parts i)) ?d2))"
          by (rule member_steps.then_keeps) (intro member_steps.safe_and_then member_steps.safe_notes member_steps.safe_steps)
        with d show ?thesis by simp
      qed
      show ?thesis
        using d Inr Some rest
        by (auto simp: post_add_member_def session_then get_group_def find_active_membership_def read_then check_then
              split: list.splits)
    qed
  qed
qed

interpretation members: kept "\<lambda>d d'. members_ok d \<longrightarrow> members_ok d'" "\<lambda>_. True"
  by unfold_locales (rule members_ok_join)


section \<open>Roles\<close>

definition roles_within :: "string set \<Rightarrow> access_db \<Rightarrow> bool" where
  "roles_within W d \<longleftrightarrow> ad_role ` set (ax_admins d) \<subseteq> set admin_role_vocabulary \<union> W"

lemma roles_within_same: "ax_admins d' = ax_admins d \<Longrightarrow> roles_within W d \<longrightarrow> roles_within W d'"
  by (simp add: roles_within_def)

lemma roles_within_map: "(\<And>a. ad_role (f a) = ad_role a) \<Longrightarrow> roles_within W d \<longrightarrow> roles_within W (on_admins f i d)"
  by (auto simp: roles_within_def on_admins_def)

lemma roles_within_rows:
  "ad_role a \<in> set admin_role_vocabulary \<union> W \<Longrightarrow>
     roles_within W d \<longrightarrow> roles_within W (d\<lparr>ax_admins := ax_admins d @ [a], ax_last_admin := ax_last_admin d + 1\<rparr>)"
  "roles_within W d \<longrightarrow> roles_within W (d\<lparr>ax_admins := filter P (ax_admins d)\<rparr>)"
  by (auto simp: roles_within_def)

interpretation roles: kept_rows "\<lambda>d d'. roles_within W d \<longrightarrow> roles_within W d'" "\<lambda>r. r \<in> set admin_role_vocabulary \<union> W"
  for W :: "string set"
  by unfold_locales
    ((rule roles_within_same; (simp add: on_users_def on_keys_def group_switched_def; fail))
     | (rule roles_within_map; (simp; fail)) | (rule roles_within_rows, assumption) | rule roles_within_rows | blast)+

text \<open>Where the role of an administrator can come from.\<close>

theorem roles_come_from_events:
  "ad_role ` set (ax_admins (access_history env L evs d))
     \<subseteq> set admin_role_vocabulary \<union> ad_role ` set (ax_admins d) \<union> (\<Union>e \<in> set evs. roles_named e)"
proof -
  let ?W = "ad_role ` set (ax_admins d) \<union> (\<Union>e \<in> set evs. roles_named e)"
  have "roles_within ?W d" by (simp add: roles_within_def) blast
  then have "roles_within ?W (access_history env L evs d)"
    using roles.history_keeps [of evs ?W d env L] by blast
  then show ?thesis by (simp add: roles_within_def Un_assoc)
qed

section \<open>What the handlers let through\<close>

text \<open>The form of the dashboard, unlike the API, takes any role; the extractors then read it as no superadmin.\<close>

lemma dashboard_takes_any_role:
  assumes "super_dashboard_session env (rq_secs rq) (rq_headers rq) = Inr c" and "ae_hash_password env pw = Some h"
    and "admin_named n d = None" and "ax_faults d = []"
  shows "\<exists>a. a \<in> set (ax_admins (snd (post_create_admin env rq n pw (Some role) d))) \<and> ad_name a = n \<and> ad_role a = role"
proof -
  have f: "ax_faults (d\<lparr>ax_admins := xs, ax_last_admin := i\<rparr>) = []" for xs i using assms(4) by simp
  have "\<exists>a d'. create_admin_db (rq_now rq) n h role d = (Inr a, d') \<and> a \<in> set (ax_admins d') \<and> ad_name a = n \<and> ad_role a = role"
    using assms(3,4) by (simp add: create_admin_db_def insert_admin_def Let_def and_then_def write_if_eq fetch_def f)
  then obtain a d' where a: "create_admin_db (rq_now rq) n h role d = (Inr a, d')" "a \<in> set (ax_admins d')" "ad_name a = n" "ad_role a = role"
    by blast
  then show ?thesis
    using assms(1,2) by (auto simp: post_create_admin_def session_then check_then and_then_def [of "err_as _ _"] err_as_def
        and_then_def [of "noted _ _ _ _ _"] noted_def give_def intro!: exI [of _ a])
qed

text \<open>
  An administrator who was deleted keeps a valid token until it expires; what is done with it leaves no trace,
  because the log refuses an entry whose actor is gone.
\<close>

lemma unknown_actor_unaudited: "\<not> actor_known e d \<Longrightarrow> ax_audit (note_audit now e d) = ax_audit d"
  by (simp add: note_audit_eq Let_def actor_known_def cong: option.case_cong)

lemma deleted_admin_acts_unaudited:
  assumes "super_admin_session env (rq_secs rq) (rq_headers rq) = Inr c" and "ac_sub c \<notin> ad_id ` set (ax_admins d)"
    and "create_user env rq n d = (Inr v, d')"
  shows "n \<in> user_name ` set (ax_users d') \<and> ax_audit d' = ax_audit d"
proof -
  obtain u d1 where u: "create_user_db (rq_now rq) n None d = (Inr u, d1)"
    and d': "d' = snd (noted rq c ''user.create'' (tagged ''user'' (user_id u)) (Some (ae_json env (user_view_json (user_response u)))) d1 :: (api_error + unit) \<times> access_db)"
    using after_session(1) [OF assms(3) [unfolded create_user_def]] assms(1)
    by (auto simp: and_then_Inr err_as_Inr give_Inr noted_def)
  from u obtain d0 where "write_if (\<lambda>d. user_named n d = None)
      (\<lambda>d1. d1\<lparr>ax_users := ax_users d1 @ [fresh_user (rq_now rq) n None d], ax_last_user := ax_last_user d1 + 1\<rparr>) d = (Inr (), d0)"
    and "d1 = snd (stmt d0)" unfolding create_user_db_def Let_def by (auto simp: and_then_Inr fetch_Inr)
  then have "ax_users d1 = ax_users d @ [fresh_user (rq_now rq) n None d]" "ax_admins d1 = ax_admins d" "ax_audit d1 = ax_audit d"
    by (auto simp: write_if_Inr)
  moreover from this assms(2) have "\<not> actor_known \<lparr>au_actor_id = Some (ac_sub c), au_actor_name = m, au_action = a,
      au_target = t, au_before = b, au_after = f\<rparr> d1" for m a t b f
    by (force simp: actor_known_def list_ex_iff)
  ultimately show ?thesis by (simp add: d' noted_def unknown_actor_unaudited fresh_user_def)
qed

text \<open>The cookie the logins set is not the one the API reads.\<close>

lemma dashboard_cookie_not_read_by_api:
  assumes "CHR '';'' \<notin> set token" and "list_all visible_ascii token"
  shows "admin_session_of env secs [(''cookie'', ''mr_admin_session='' @ token)] = Inl Unauthorized"
proof -
  have one: "split_on CHR '';'' s = [s]" if "CHR '';'' \<notin> set s" for s using that by (induction s) auto
  have t: "strip_prefix ''admin_token='' (trim (''mr_admin_session='' @ token)) = None"
  proof (rule ccontr)
    assume "\<not> ?thesis"
    then obtain r where r: "trim (''mr_admin_session='' @ token) = ''admin_token='' @ r" by (auto simp: strip_prefix_Some)
    have "trim (''mr_admin_session='' @ token) = rev (dropWhile is_ws (rev (''mr_admin_session='' @ token)))"
      by (simp add: trim_def is_ws_def)
    moreover have "\<exists>w. rev (dropWhile is_ws (rev s)) @ w = s" for s
      by (metis rev_append rev_rev_ident takeWhile_dropWhile_id)
    ultimately obtain w where "trim (''mr_admin_session='' @ token) @ w = ''mr_admin_session='' @ token" by metis
    with r show False by simp
  qed
  have "cookie_value ''admin_token'' [(''cookie'', ''mr_admin_session='' @ token)] = None"
    using assms one [of "''mr_admin_session='' @ token"] t
    by (simp add: cookie_value_def text_header_def visible_ascii_def List.map_filter_def)
  then show ?thesis by (simp add: admin_session_of_def bearer_def text_header_def)
qed

end
