(* ===== verification/Login_Properties.thy ===== *)
theory Login_Properties
  imports Group_Properties
begin

text \<open>
  The logins: an OIDC state is good once and for five minutes, a session cookie is only given for a row that is
  enabled and proved itself; and the two ways the budget pages answer a refusal.
\<close>

section \<open>Pending OIDC logins\<close>

datatype oidc_event = Began nat string string | Returned nat string

fun event_time :: "oidc_event \<Rightarrow> nat" where
  "event_time (Began t s v) = t"
| "event_time (Returned t s) = t"

fun event_state :: "oidc_event \<Rightarrow> string" where
  "event_state (Began t s v) = s"
| "event_state (Returned t s) = s"

fun oidc_step :: "oidc_store \<Rightarrow> oidc_event \<Rightarrow> oidc_store" where
  "oidc_step m (Began t s v) = oidc_insert t s v m"
| "oidc_step m (Returned t s) = snd (oidc_take t s m)"

definition oidc_after :: "oidc_event list \<Rightarrow> oidc_store" where
  "oidc_after evs = foldl oidc_step Map.empty evs"

lemma oidc_after_snoc [simp]: "oidc_after [] = Map.empty" "oidc_after (evs @ [e]) = oidc_step (oidc_after evs) e"
  by (simp_all add: oidc_after_def)

lemma oidc_step_other:
  assumes "event_state e \<noteq> s"
  shows "oidc_step m e s = (case m s of None \<Rightarrow> None
           | Some p \<Rightarrow> (case e of Began t _ _ \<Rightarrow> if t - po_created p \<le> oidc_ttl then Some p else None | Returned _ _ \<Rightarrow> Some p))"
  using assms by (cases e) (auto simp: oidc_insert_def cleanup_expired_def oidc_take_def split: option.splits)

lemma pending_sound:
  "oidc_after evs s = Some p \<Longrightarrow>
     \<exists>pre post. evs = pre @ Began (po_created p) s (po_verifier p) # post \<and> (\<forall>e \<in> set post. event_state e \<noteq> s)"
proof (induction evs rule: rev_induct)
  case (snoc e evs)
  show ?case
  proof (cases "event_state e = s")
    case True
    then obtain t v where "e = Began t s v" and "p = \<lparr>po_verifier = v, po_created = t\<rparr>"
      using snoc.prems by (cases e) (auto simp: oidc_insert_def oidc_take_def split: option.splits)
    then show ?thesis by (intro exI [of _ evs] exI [of _ "[]"]) simp
  next
    case False
    then have "oidc_after evs s = Some p"
      using snoc.prems by (auto simp: oidc_step_other split: option.splits oidc_event.splits if_splits)
    with snoc.IH obtain pre post where "evs = pre @ Began (po_created p) s (po_verifier p) # post"
      and "\<forall>e \<in> set post. event_state e \<noteq> s" by blast
    with False show ?thesis by (intro exI [of _ pre] exI [of _ "post @ [e]"]) simp
  qed
qed simp

lemma pending_complete:
  assumes "\<And>e. e \<in> set post \<Longrightarrow> event_state e \<noteq> s \<and> event_time e - t0 \<le> oidc_ttl"
  shows "oidc_after (pre @ Began t0 s v # post) s = Some \<lparr>po_verifier = v, po_created = t0\<rparr>"
  using assms
proof (induction post rule: rev_induct)
  case Nil
  then show ?case by (simp add: oidc_insert_def)
next
  case (snoc e post)
  then have "oidc_after (pre @ Began t0 s v # post) s = Some \<lparr>po_verifier = v, po_created = t0\<rparr>" by simp
  moreover have "oidc_after (pre @ Began t0 s v # post @ [e]) = oidc_step (oidc_after (pre @ Began t0 s v # post)) e"
    using oidc_after_snoc(2) [of "pre @ Began t0 s v # post" e] by simp
  moreover have "event_state e \<noteq> s" "event_time e - t0 \<le> oidc_ttl" using snoc.prems [of e] by simp_all
  ultimately show ?case by (simp add: oidc_step_other del: oidc_step.simps split: oidc_event.split) auto
qed

lemma state_good_once:
  assumes "\<And>e. e \<in> set evs \<Longrightarrow> event_time e \<le> t"
  shows "fst (oidc_take t s (oidc_after evs)) = Some v \<longleftrightarrow>
     (\<exists>pre t0 post. evs = pre @ Began t0 s v # post \<and> (\<forall>e \<in> set post. event_state e \<noteq> s) \<and> t - t0 \<le> oidc_ttl)"
    (is "?lhs \<longleftrightarrow> ?rhs")
proof
  assume ?lhs
  then obtain p where p: "oidc_after evs s = Some p" and "v = po_verifier p" and "t - po_created p \<le> oidc_ttl"
    by (auto simp: oidc_take_def split: option.splits if_splits)
  with pending_sound [OF p] show ?rhs by blast
next
  assume ?rhs
  then obtain pre t0 post where e: "evs = pre @ Began t0 s v # post" and n: "\<forall>e \<in> set post. event_state e \<noteq> s"
    and t: "t - t0 \<le> oidc_ttl" by blast
  have "event_state e \<noteq> s \<and> event_time e - t0 \<le> oidc_ttl" if "e \<in> set post" for e
    using that n t assms [of e] by (auto simp: \<open>evs = _\<close>)
  then have "oidc_after evs s = Some \<lparr>po_verifier = v, po_created = t0\<rparr>" unfolding e by (rule pending_complete)
  with t show ?lhs by (simp add: oidc_take_def)
qed

section \<open>Session cookies\<close>

definition session_cookie :: "string \<Rightarrow> string" where
  "session_cookie token = ''mr_admin_session='' @ token @ ''; Path=/; HttpOnly; SameSite=Lax''"

lemma note_login_Inr: "note_login now i d = (Inr u, d') \<longleftrightarrow> d' = snd (update_last_login now i d)"
  by (auto simp: note_login_def)

lemma insert_admin_Inr: "insert_admin ok mk d = (Inr a, d') \<Longrightarrow> a = mk d"
  by (auto simp: insert_admin_def Let_def and_then_Inr fetch_Inr)

lemma oidc_admin_Inr:
  assumes "oidc_admin now cfg c d = (Inr a, d')"
  shows "ad_oidc_subject a = Some (ic_sub c) \<and> (a \<in> set (ax_admins d) \<or> ad_role a = oc_auto_role cfg)"
proof -
  let ?mail = "case ic_email c of Some e \<Rightarrow> e | None \<Rightarrow> []"
  obtain found d1 where f: "find_by_oidc_subject (ic_sub c) d = (Inr found, d1)" and
    r: "(case found of Some a \<Rightarrow> give a
        | None \<Rightarrow> err_as (OidcError 500 ''Provisioning failed'')
            (create_from_oidc now (case ic_name c of Some n \<Rightarrow> n | None \<Rightarrow> ?mail) ?mail (ic_sub c) (oc_auto_role cfg))) d1 = (Inr a, d')"
    using assms by (auto simp: oidc_admin_def Let_def and_then_Inr err_as_Inr)
  show ?thesis
  proof (cases found)
    case (Some b)
    with f have "admin_with_subject (ic_sub c) (snd (stmt d)) = Some b" by (simp add: find_by_oidc_subject_def fetch_Inr)
    then have "b \<in> set (ax_admins d) \<and> ad_oidc_subject b = Some (ic_sub c)"
      by (auto simp: admin_with_subject_def find_Some_iff)
    with Some r show ?thesis by (simp add: give_Inr)
  next
    case None
    with r have "create_from_oidc now (case ic_name c of Some n \<Rightarrow> n | None \<Rightarrow> ?mail) ?mail (ic_sub c) (oc_auto_role cfg) d1 = (Inr a, d')"
      by (simp add: err_as_Inr)
    from insert_admin_Inr [OF this [unfolded create_from_oidc_def]] show ?thesis by simp
  qed
qed

lemma oidc_session_Inr:
  assumes "oidc_session env cfg secs now c d = (Inr r, d')"
  shows "is_email_allowed (case ic_email c of Some e \<Rightarrow> e | None \<Rightarrow> []) (oc_allowed_emails cfg) (oc_allowed_domains cfg)
     \<and> (\<exists>a jwt. ad_oidc_subject a = Some (ic_sub c) \<and> (a \<in> set (ax_admins d) \<or> ad_role a = oc_auto_role cfg) \<and> ad_enabled a
          \<and> issue_jwt env (session_claims env secs a) = Some jwt \<and> r = OidcSession (session_cookie jwt))"
  using assms oidc_admin_Inr [of now cfg c]
  by (fastforce simp: oidc_session_def and_then_Inr require_Inr need_Inr give_Inr note_login_Inr session_cookie_def)

lemma oidc_session_Inl: "oidc_session env cfg secs now c d = (Inl r, d') \<Longrightarrow> \<exists>n msg. r = OidcError n msg"
  by (auto simp: oidc_session_def oidc_admin_def Let_def and_then_def require_def need_def give_def reject_def err_as_def note_login_def
      split: prod.splits sum.splits if_splits option.splits)

text \<open>C24. What a session that came through the identity provider rests on.\<close>

theorem oidc_session_is_earned:
  assumes "oidc_callback w env cfg t secs now code s (oidc_after evs) d = (OidcSession cookie, m', d')"
    and "\<And>e. e \<in> set evs \<Longrightarrow> event_time e \<le> t"
  shows "m' s = None \<and>
    (\<exists>pre t0 verifier post dv tok c a jwt.
        evs = pre @ Began t0 s verifier # post \<and> (\<forall>e \<in> set post. event_state e \<noteq> s) \<and> t - t0 \<le> oidc_ttl
      \<and> ow_discover w (oc_issuer cfg) = Some dv \<and> ow_exchange w (dv_token dv) code verifier (oc_redirect_uri cfg) = Some tok
      \<and> ow_validate w tok (dv_jwks dv) (oc_client_id cfg) (oc_issuer cfg) = Some c
      \<and> is_email_allowed (case ic_email c of Some e \<Rightarrow> e | None \<Rightarrow> []) (oc_allowed_emails cfg) (oc_allowed_domains cfg)
      \<and> ad_oidc_subject a = Some (ic_sub c) \<and> (a \<in> set (ax_admins d) \<or> ad_role a = oc_auto_role cfg) \<and> ad_enabled a
      \<and> issue_jwt env (session_claims env secs a) = Some jwt \<and> cookie = session_cookie jwt)"
proof -
  obtain verifier dv tok c r where take: "oidc_take t s (oidc_after evs) = (Some verifier, m')"
    and dv: "ow_discover w (oc_issuer cfg) = Some dv" and tok: "ow_exchange w (dv_token dv) code verifier (oc_redirect_uri cfg) = Some tok"
    and c: "ow_validate w tok (dv_jwks dv) (oc_client_id cfg) (oc_issuer cfg) = Some c"
    and r: "oidc_session env cfg secs now c d = (r, d')" "(case r of Inl x \<Rightarrow> x | Inr x \<Rightarrow> x) = OidcSession cookie"
    using assms(1) by (auto simp: oidc_callback_def split: if_splits prod.splits option.splits sum.splits)
  then have "r = Inr (OidcSession cookie)" using oidc_session_Inl [of env cfg secs now c d] by (cases r) auto
  with r(1) have s: "oidc_session env cfg secs now c d = (Inr (OidcSession cookie), d')" by simp
  from take have "fst (oidc_take t s (oidc_after evs)) = Some verifier" by simp
  then obtain pre t0 post where "evs = pre @ Began t0 s verifier # post" "\<forall>e \<in> set post. event_state e \<noteq> s" "t - t0 \<le> oidc_ttl"
    using state_good_once [OF assms(2)] by blast
  moreover have "m' s = None" using take by (auto simp: oidc_take_def split: option.splits)
  ultimately show ?thesis using dv tok c oidc_session_Inr [OF s] by blast
qed

text \<open>The answer to a password.\<close>

theorem password_login_iff:
  "(\<exists>d'. Authentication.admin_login env secs now n pw d = (Inr token, d')) \<longleftrightarrow>
     \<not> fst (stmt d) \<and>
     (\<exists>a. admin_named n d = Some a \<and> ad_enabled a \<and> ae_verify env pw (ad_password_hash a) = Some True
        \<and> issue_jwt env (session_claims env secs a) = Some token)"
proof -
  have a: "admin_named n (snd (stmt d)) = admin_named n d" by (simp add: admin_named_def)
  have step: "(\<exists>d'. and_then (note_login now i) (\<lambda>_. give x) d1 = (Inr y, d')) \<longleftrightarrow> y = x" for i x y and d1
    by (auto simp: and_then_def note_login_def give_def)
  show ?thesis
    by (auto simp: admin_login_def find_admin_by_name_def read_then check_then a step split: option.splits if_splits)
qed

section \<open>Refusals of the budget pages\<close>

lemma find_by_key: "distinct (map f xs) \<Longrightarrow> x \<in> set xs \<Longrightarrow> find (\<lambda>y. f y = f x) xs = Some x"
proof (induction xs)
  case (Cons y xs)
  then show ?case by (cases "f y = f x") auto
qed simp

lemma scope_for_rule_id_eq:
  assumes "distinct (map br_id (ax_rules d))" and "r \<in> set (ax_rules d)" and "ax_faults d = []"
  shows "scope_for_rule_id (br_id r) d = (scope_of_rule r, d)"
proof -
  have "distinct (map br_id (sort_key br_id (ax_rules d)))"
    using assms(1) by (simp add: distinct_map)
  then have "find (\<lambda>y. br_id y = br_id r) (sort_key br_id (ax_rules d)) = Some r"
    using assms(2) by (intro find_by_key) simp_all
  then show ?thesis
    using assms(3) by (simp add: scope_for_rule_id_def all_rules_def read_then check_then from_sum_def)
qed

text \<open>
  A rule of an API key is refused by the edit page with "cannot be edited", after the edit was stored; the delete
  page refuses before anything happens.
\<close>

lemma edit_refused_but_stored:
  assumes "super_dashboard_session env (rq_secs rq) (rq_headers rq) = Inr c" and "ax_faults d = []"
    and "distinct (map br_id (ax_rules d))" and "r \<in> set (ax_rules d)"
    and "br_user_id r = None" "br_group_name r = None" "br_project r = None" "br_api_key_id r \<noteq> None"
  shows "\<exists>d'. post_edit_budget env pf rq (br_id r) f d = (Inl (DashNotFound api_key_rule_msg), d')
     \<and> changed_rule (form_changes pf f) r \<in> set (ax_rules d')"
proof -
  let ?ch = "form_changes pf f"
  let ?d = "d\<lparr>ax_rules := map (\<lambda>x. if br_id x = br_id r then changed_rule ?ch x else x) (ax_rules d)\<rparr>"
  have calm: "ax_faults ?d = []" using assms(2) by simp
  have r': "changed_rule ?ch r \<in> set (ax_rules ?d)" using assms(4) by force
  have id: "br_id (changed_rule ?ch x) = br_id x" for x by (simp add: changed_rule_def)
  then have ids: "distinct (map br_id (ax_rules ?d))" using assms(3) by (simp add: comp_def if_distrib cong: if_cong)
  have "list_ex (\<lambda>x. br_id x = br_id r) (ax_rules d)" using assms(4) by (auto simp: list_ex_iff)
  then have "err_as DashInternal (update_rule (br_id r) ?ch) d = (Inr (find (\<lambda>x. br_id x = br_id r) (ax_rules ?d)), ?d)"
    using assms(2) calm by (simp add: err_as_def update_rule_def and_then_def write_if_eq fetch_def)
  then have "post_edit_budget env pf rq (br_id r) f d = and_then (scope_for_rule_id (br_id r)) render_scope_card ?d"
    unfolding post_edit_budget_def session_then [OF assms(1)] by (simp add: and_then_def [of "err_as _ _"])
  moreover have "scope_for_rule_id (br_id r) ?d = (Inl (DashNotFound api_key_rule_msg), ?d)"
    using scope_for_rule_id_eq [OF ids r' calm] assms(5-8) by (simp add: id scope_of_rule_def) (simp add: changed_rule_def)
  ultimately show ?thesis using r' by (auto simp: and_then_def)
qed

lemma delete_refused_before:
  assumes "super_dashboard_session env (rq_secs rq) (rq_headers rq) = Inr c" and "ax_faults d = []"
    and "distinct (map br_id (ax_rules d))" and "r \<in> set (ax_rules d)"
    and "br_user_id r = None" "br_group_name r = None" "br_project r = None" "br_api_key_id r \<noteq> None"
  shows "post_delete_budget env rq (br_id r) d = (Inl (DashNotFound api_key_rule_msg), d)"
  unfolding post_delete_budget_def session_then [OF assms(1)]
  using scope_for_rule_id_eq [OF assms(3,4,2)] assms(5-8) by (simp add: and_then_def scope_of_rule_def)

end
