(* ===== verification/Access_Witnesses.thy ===== *)
theory Access_Witnesses
  imports Login_Properties
begin

text \<open>
  A small installation on which the properties of the access tables apply: one user with two keys of a project, one
  superadmin, one group. Hashing prefixes a mark; the only tokens that verify are \<open>root\<close> and \<open>guest\<close>.
\<close>

definition w_env :: auth_env where
  "w_env =
     \<lparr>ae_hash = (\<lambda>s. ''#'' @ s), ae_verify = (\<lambda>pw h. Some (h = ''!'' @ pw)), ae_hash_password = (\<lambda>pw. Some (''!'' @ pw)),
      ae_encode = (\<lambda>c s. Some ''token''),
      ae_decode = (\<lambda>secs token s. if token = ''root'' then Some \<lparr>ac_sub = 1, ac_name = ''root'', ac_role = ''superadmin'', ac_exp = 0\<rparr>
                      else if token = ''guest'' then Some \<lparr>ac_sub = 2, ac_name = ''guest'', ac_role = ''viewer'', ac_exp = 0\<rparr> else None),
      ae_json = (\<lambda>v. []), ae_secret = ''s'', ae_expiry_mins = 60\<rparr>"

definition w_libs :: admin_libs where
  "w_libs = \<lparr>lb_print_rule = (\<lambda>r. []), lb_parse_f64 = (\<lambda>s. None), lb_is_date = (\<lambda>s. True)\<rparr>"

definition w_rq :: request_info where
  "w_rq = \<lparr>rq_headers = [(''authorization'', ''Bearer root''), (''cookie'', ''a=b; mr_admin_session=root'')], rq_secs = 0, rq_now = ''t1''\<rparr>"

definition w_user :: user where
  "w_user = \<lparr>user_id = 1, user_name = ''ann'', email = None, enabled = True, user_created_at = ''t0'', metadata = ''{}'',
             user_api_key_id = None, spend_reset_at = None, api_key_project = None, session_window_secs = None\<rparr>"

definition w_key :: "int \<Rightarrow> string \<Rightarrow> api_key" where
  "w_key i h = \<lparr>ak_id = i, ak_user_id = 1, ak_hash = h, ak_label = None, ak_enabled = True, ak_created_at = ''t0'',
                ak_expires_at = None, ak_project = Some ''p'', ak_disabled_at = None, ak_session_window = None\<rparr>"

definition w_admin :: admin_user where
  "w_admin = \<lparr>ad_id = 1, ad_name = ''root'', ad_password_hash = ''!pw'', ad_role = ''superadmin'', ad_enabled = True,
              ad_created_at = ''t0'', ad_last_login = None, ad_oidc_subject = Some ''sub'', ad_email = None\<rparr>"

definition w_db :: access_db where
  "w_db =
     \<lparr>ax_users = [w_user], ax_last_user = 1, ax_keys = [w_key 1 ''#k1'', w_key 2 ''#k2''], ax_last_key = 2,
      ax_admins = [w_admin], ax_last_admin = 1, ax_sessions = [], ax_last_session = 0,
      ax_groups = [\<lparr>gr_id = 1, gr_name = ''g'', gr_priority = 0, gr_enabled = True, gr_created_at = ''t0''\<rparr>], ax_last_group = 1,
      ax_members = [], ax_last_member = 0, ax_rules = [], ax_last_rule = 0, ax_audit = [], ax_last_audit = 0, ax_faults = []\<rparr>"

lemma w_keys_ok: "keys_ok w_db"
  by code_simp

lemma w_key_in: "w_key 1 ''#k1'' \<in> set (ax_keys w_db)"
  by (simp add: w_db_def)

definition w_rotated :: "(dashboard_error + (api_key option \<times> api_key list) \<times> string) \<times> access_db" where
  "w_rotated = post_rotate_key w_env w_rq ''a-b'' 1 w_db"

lemma rotation_leaves_one_live_key_witness:
  "(case w_rotated of (Inr ((active, old), raw), d') \<Rightarrow>
      raw = ''mr-ab'' \<and> filter (\<lambda>j. in_key_group 1 (Some ''p'') j \<and> ak_enabled j) (ax_keys d')
        = [rotated_key w_env ''t1'' raw (w_key 1 ''#k1'') w_db] | _ \<Rightarrow> False)"
proof -
  have "case w_rotated of (Inr ((active, old), raw), d') \<Rightarrow> raw = ''mr-ab'' | _ \<Rightarrow> False" by code_simp
  then obtain active old d' where r: "w_rotated = (Inr ((active, old), ''mr-ab''), d')"
    by (auto split: prod.splits sum.splits)
  then have q: "post_rotate_key w_env w_rq ''a-b'' (ak_id (w_key 1 ''#k1'')) w_db = (Inr ((active, old), ''mr-ab''), d')"
    by (simp add: w_rotated_def w_key_def)
  have "ak_user_id (w_key 1 ''#k1'') = 1" "ak_project (w_key 1 ''#k1'') = Some ''p''" "rq_now w_rq = ''t1''"
    by (simp_all add: w_key_def w_rq_def)
  with rotation_leaves_one_live_key [OF w_keys_ok w_key_in q] show ?thesis unfolding r by simp
qed

lemma w_switched_off: "switched_off w_env w_rq (w_key 1 ''#k1'') w_db (snd (revoke_api_key_handler w_env w_rq 1 w_db))"
proof -
  have "fst (revoke_api_key_handler w_env w_rq 1 w_db) = Inr ()" by code_simp
  then have "revoke_api_key_handler w_env w_rq 1 w_db = (Inr (), snd (revoke_api_key_handler w_env w_rq 1 w_db))"
    by (metis prod.collapse)
  then show ?thesis by (auto simp: switched_off_def w_key_def)
qed

lemma revoked_key_stays_dead_witness:
  "fst (authenticated_user w_env [(''x-api-key'', ''k1'')] ''t2'' (access_history w_env w_libs
      [AdminCall w_rq (DashEnableUser 1), AdminCall w_rq (DashGenerateKey ''c-d'' 1)]
      (snd (revoke_api_key_handler w_env w_rq 1 w_db)))) \<noteq> Inr w_user"
  by (rule revoked_key_stays_dead [OF w_keys_ok w_key_in w_switched_off, of _ "''k1''"]) (code_simp, code_simp)

definition w_issued :: "(api_error + api_key \<times> string) \<times> access_db" where
  "w_issued = create_user_api_key w_env w_rq ''c-d'' 1 None None (Some 60) w_db"

lemma issued_key_authenticates_witness:
  "case w_issued of
     (Inr (k, raw), d') \<Rightarrow> authenticated_user w_env [(''authorization'', ''Bearer '' @ raw)] ''t2'' d' = (Inr (as_caller k w_user), d')
   | _ \<Rightarrow> False"
proof -
  have "case w_issued of (Inr (k, raw), d') \<Rightarrow> raw = ''mr-cd'' \<and> ax_faults d' = [] | _ \<Rightarrow> False" by code_simp
  then obtain k d' where r: "w_issued = (Inr (k, ''mr-cd''), d')" and f: "ax_faults d' = []"
    by (auto split: prod.splits sum.splits)
  have "user_with 1 w_db = Some w_user" "enabled w_user" by (simp_all add: user_with_def w_db_def w_user_def)
  moreover have "presented_key [(''authorization'', ''Bearer mr-cd'')] = Some ''mr-cd''" by code_simp
  ultimately show ?thesis
    using issued_key_authenticates [OF r [unfolded w_issued_def] _ _ _ f, of w_user _ "''t2''"] unfolding r by simp
qed



definition w_world :: oidc_world where
  "w_world =
     \<lparr>ow_discover = (\<lambda>i. Some \<lparr>dv_authorization = ''a'', dv_token = ''t'', dv_jwks = ''j''\<rparr>),
      ow_exchange = (\<lambda>e code v r. if v = ''verifier'' then Some ''id'' else None),
      ow_validate = (\<lambda>tok j c i. Some \<lparr>ic_sub = ''sub'', ic_email = Some ''ann@corp'', ic_name = None\<rparr>),
      ow_parses = (\<lambda>u. True), ow_challenge = (\<lambda>v. v)\<rparr>"

definition w_oidc :: oidc_config where
  "w_oidc = \<lparr>oc_enabled = True, oc_issuer = ''i'', oc_client_id = ''c'', oc_redirect_uri = ''r'', oc_allowed_emails = [],
             oc_allowed_domains = [''corp''], oc_auto_role = ''viewer''\<rparr>"

lemma oidc_session_is_earned_witness:
  "(fst (snd (oidc_callback w_world w_env w_oidc 7 0 ''t1'' ''code'' ''st'' (oidc_after [Began 5 ''st'' ''verifier'']) w_db))) ''st'' = None
   \<and> fst (oidc_callback w_world w_env w_oidc 7 0 ''t1'' ''code'' ''st'' (oidc_after [Began 5 ''st'' ''verifier'']) w_db)
       = OidcSession (session_cookie ''token'')"
proof -
  have c: "fst (oidc_callback w_world w_env w_oidc 7 0 ''t1'' ''code'' ''st'' (oidc_after [Began 5 ''st'' ''verifier'']) w_db)
       = OidcSession (session_cookie ''token'')"
    by (simp add: oidc_callback_def oidc_take_def oidc_after_def oidc_insert_def oidc_ttl_def w_oidc_def w_world_def
          Let_def update_last_login_def write_if_def reject_def oidc_session_def is_email_allowed_def require_def need_def oidc_admin_def find_by_oidc_subject_def admin_with_subject_def fetch_def
          err_as_def give_def and_then_def note_login_def issue_jwt_def session_cookie_def w_env_def w_db_def w_admin_def stmt_def)
  obtain m' d' where r: "oidc_callback w_world w_env w_oidc 7 0 ''t1'' ''code'' ''st'' (oidc_after [Began 5 ''st'' ''verifier'']) w_db
      = (OidcSession (session_cookie ''token''), m', d')" using c by (metis prod.collapse)
  from oidc_session_is_earned [OF r] c r show ?thesis by simp
qed

end
