(* ===== verification/Spec2Isabelle.thy ===== *)
theory Spec2Isabelle
  imports Circuit_Breaker Capabilities Engine Availability Load_Balancer Fallback Sessions Admission_Limits Cost Ledger
    Policy Cache_Request Cache_Store Response_Cache Messages_Replay Failover Experiment_Admin Retention Chat_Findings Anthropic_Stream Provider_Registry Messages_Properties Registry_Properties
    Ledger_Analytics Archival Results_Properties Feedback Access_Witnesses
begin

text \<open>
  A model of modelrouter, an HTTP proxy in front of language-model providers (\<open>src/src\<close>).
\<close>

end
